(* ===== verification/MC_Prelude.thy ===== *)
theory MC_Prelude
  imports Main "HOL-Library.Word"
begin

text \<open>
  What every component of the development shares: the machine integers of the code,
  the SQLite result codes, buffers as lists of bytes with the \<open>memcpy\<close> family on them,
  the little- and big-endian load and store macros, and the collections of rewrite rules
  (\<open>bytes_len\<close> for lengths of byte operations, \<open>word_arith\<close> for the arithmetic reading of
  word operations) by which the component proofs are automated.
\<close>

unbundle bit_operations_syntax

section \<open>Machine types and result codes\<close>

type_synonym byte = "8 word"
type_synonym u32 = "32 word"
type_synonym u64 = "64 word"
type_synonym bytes = "8 word list"

named_theorems bytes_len \<open>lengths of the buffers an operation returns\<close>
named_theorems word_arith \<open>reading word operations as natural number arithmetic\<close>

text \<open>The result codes of \<^verbatim>\<open>sqlite3.h\<close> the modelled code uses.\<close>

abbreviation (input) SQLITE_OK :: int where "SQLITE_OK \<equiv> 0"
abbreviation (input) SQLITE_ERROR :: int where "SQLITE_ERROR \<equiv> 1"
abbreviation (input) SQLITE_NOMEM :: int where "SQLITE_NOMEM \<equiv> 7"
abbreviation (input) SQLITE_READONLY :: int where "SQLITE_READONLY \<equiv> 8"
abbreviation (input) SQLITE_IOERR :: int where "SQLITE_IOERR \<equiv> 10"
abbreviation (input) SQLITE_CORRUPT :: int where "SQLITE_CORRUPT \<equiv> 11"
abbreviation (input) SQLITE_NOTADB :: int where "SQLITE_NOTADB \<equiv> 26"
abbreviation (input) SQLITE_IOERR_SHORT_READ :: int where "SQLITE_IOERR_SHORT_READ \<equiv> 522"

abbreviation (input) SQLITE_MAX_PAGE_SIZE :: int where "SQLITE_MAX_PAGE_SIZE \<equiv> 65536"

section \<open>Buffers\<close>

text \<open>
  A C buffer is the list of its bytes. \<open>region\<close> reads \<open>n\<close> bytes from an offset,
  \<open>memcpy_at\<close> overwrites the bytes from an offset on, \<open>xor_bytes\<close> is the byte-wise
  exclusive or of two buffers. An access past the end is undefined in C; every theorem that
  depends on one states the length of the buffer.
\<close>

definition region :: "nat \<Rightarrow> nat \<Rightarrow> 'a list \<Rightarrow> 'a list" where
  "region off n xs = take n (drop off xs)"

definition memcpy_at :: "'a list \<Rightarrow> nat \<Rightarrow> 'a list \<Rightarrow> 'a list" where
  "memcpy_at xs off ys = take off xs @ ys @ drop (off + length ys) xs"

definition xor_bytes :: "bytes \<Rightarrow> bytes \<Rightarrow> bytes" where
  "xor_bytes xs ys = map2 (XOR) xs ys"

lemma length_region [bytes_len, simp]: "length (region off n xs) = min n (length xs - off)"
  by (simp add: region_def)

lemma length_memcpy_at [bytes_len, simp]:
  "off + length ys \<le> length xs \<Longrightarrow> length (memcpy_at xs off ys) = length xs"
  by (simp add: memcpy_at_def)

lemma length_xor_bytes [bytes_len, simp]:
  "length (xor_bytes xs ys) = min (length xs) (length ys)"
  by (simp add: xor_bytes_def)

lemma nth_memcpy_at:
  assumes "off + length ys \<le> length xs" and "i < length xs"
  shows "memcpy_at xs off ys ! i =
    (if off \<le> i \<and> i < off + length ys then ys ! (i - off) else xs ! i)"
  using assms by (auto simp: memcpy_at_def nth_append add_ac)

lemma region_memcpy_at_same [simp]:
  "off + length ys \<le> length xs \<Longrightarrow> region off (length ys) (memcpy_at xs off ys) = ys"
  by (simp add: region_def memcpy_at_def)

lemma region_memcpy_at_same_n:
  "off + length ys \<le> length xs \<Longrightarrow> n = length ys \<Longrightarrow> region off n (memcpy_at xs off ys) = ys"
  by simp

lemma region_memcpy_at_before:
  "o1 + n \<le> o2 \<Longrightarrow> o2 + length ys \<le> length xs \<Longrightarrow> region o1 n (memcpy_at xs o2 ys) = region o1 n xs"
  by (rule nth_equalityI) (auto simp: region_def nth_memcpy_at)

lemma region_memcpy_at_after:
  "o2 + length ys \<le> o1 \<Longrightarrow> o2 + length ys \<le> length xs
     \<Longrightarrow> region o1 n (memcpy_at xs o2 ys) = region o1 n xs"
  by (rule nth_equalityI) (auto simp: region_def nth_memcpy_at)

lemma take_memcpy_at:
  "n \<le> off \<Longrightarrow> off \<le> length xs \<Longrightarrow> take n (memcpy_at xs off ys) = take n xs"
  by (simp add: memcpy_at_def min_def)

lemma drop_memcpy_at:
  "off + length ys \<le> n \<Longrightarrow> off \<le> length xs \<Longrightarrow> drop n (memcpy_at xs off ys) = drop n xs"
  by (simp add: memcpy_at_def min_def)

lemma memcpy_at_region [simp]:
  "off + n \<le> length xs \<Longrightarrow> memcpy_at xs off (region off n xs) = xs"
  by (rule nth_equalityI) (auto simp: nth_memcpy_at region_def)

lemma memcpy_at_append: "memcpy_at (a @ b) (length a) ys = a @ ys @ drop (length ys) b"
  by (simp add: memcpy_at_def)

lemma memcpy_at_memcpy_at:
  "length ys = length zs \<Longrightarrow> off + length ys \<le> length xs
     \<Longrightarrow> memcpy_at (memcpy_at xs off ys) off zs = memcpy_at xs off zs"
  by (simp add: memcpy_at_def)

lemma region_0 [simp]: "region 0 n xs = take n xs"
  by (simp add: region_def)

lemma region_take: "off + n \<le> m \<Longrightarrow> region off n (take m xs) = region off n xs"
  by (simp add: region_def drop_take min_def)

lemma xor_bytes_Nil [simp]: "xor_bytes [] ys = []" "xor_bytes xs [] = []"
  by (simp_all add: xor_bytes_def)

lemma xor_bytes_Cons [simp]: "xor_bytes (x # xs) (y # ys) = (x XOR y) # xor_bytes xs ys"
  by (simp add: xor_bytes_def)

lemma xor_bytes_append:
  "length xs = length ks \<Longrightarrow> xor_bytes (xs @ ys) (ks @ ls) = xor_bytes xs ks @ xor_bytes ys ls"
  by (simp add: xor_bytes_def)

lemma xor_bytes_commute: "xor_bytes xs ys = xor_bytes ys xs"
  by (induction xs arbitrary: ys)
    (auto simp: xor_bytes_def zip_Cons1 xor.commute split: list.splits)

lemma nth_xor_bytes [simp]:
  "i < length xs \<Longrightarrow> i < length ys \<Longrightarrow> xor_bytes xs ys ! i = xs ! i XOR ys ! i"
  by (simp add: xor_bytes_def)

lemma xor_bytes_append_long:
  "length xs \<le> length ks \<Longrightarrow> xor_bytes xs (ks @ ls) = xor_bytes xs ks"
  by (rule nth_equalityI) (simp_all add: nth_append)

lemma xor_bytes_involution [simp]:
  "length xs \<le> length ks \<Longrightarrow> xor_bytes (xor_bytes xs ks) ks = xs"
  by (rule nth_equalityI) (simp_all add: xor.assoc)

lemma xor_bytes_take: "xor_bytes xs (take (length xs) ks) = xor_bytes xs ks"
  by (induction xs arbitrary: ks) (auto simp: xor_bytes_def zip_Cons1 split: list.splits)

section \<open>Word operations read as arithmetic\<close>

lemma unat_bound: "unat (w :: 'a::len word) < 2 ^ LENGTH('a)"
  by (rule unsigned_less)

lemma unat_drop_bit [word_arith]: "unat (drop_bit n w) = unat w div 2 ^ n"
  by (simp only: unsigned_drop_bit_eq take_bit_nat_eq_self drop_bit_nat_def flip: unat_eq_nat_uint)
    (simp add: take_bit_nat_eq_self div_le_dividend [THEN le_less_trans])

lemma unat_push_bit [word_arith]:
  "unat (push_bit n (w :: 'a::len word)) = (2 ^ n * unat w) mod 2 ^ LENGTH('a)"
proof -
  have "unat (push_bit n w) = take_bit LENGTH('a) (push_bit n (unat w))"
    by (simp add: unsigned_push_bit_eq)
  also have "\<dots> = (2 ^ n * unat w) mod 2 ^ LENGTH('a)"
    by (simp add: take_bit_eq_mod push_bit_eq_mult mult.commute)
  finally show ?thesis .
qed

lemma unat_ucast [word_arith]: "unat (ucast w :: 'b::len word) = unat w mod 2 ^ LENGTH('b)"
  by (simp add: unsigned_ucast_eq take_bit_eq_mod)

lemma unat_and_mask [word_arith]:
  "unat (w AND mask n) = unat w mod 2 ^ n"
  by (metis take_bit_eq_mask unsigned_take_bit_eq take_bit_eq_mod)

section \<open>Little- and big-endian words\<close>

text \<open>The macros \<^verbatim>\<open>LOAD32_LE\<close>, \<^verbatim>\<open>STORE32_LE\<close> and their kin; the argument is the buffer at the pointer.\<close>

definition LOAD32_LE :: "bytes \<Rightarrow> u32" where
  "LOAD32_LE p = ucast (p ! 0) OR push_bit 8 (ucast (p ! 1))
     OR push_bit 16 (ucast (p ! 2)) OR push_bit 24 (ucast (p ! 3))"

definition STORE32_LE :: "u32 \<Rightarrow> bytes" where
  "STORE32_LE v = [ucast v, ucast (drop_bit 8 v), ucast (drop_bit 16 v), ucast (drop_bit 24 v)]"

definition LOAD32_BE :: "bytes \<Rightarrow> u32" where
  "LOAD32_BE p = ucast (p ! 3) OR push_bit 8 (ucast (p ! 2))
     OR push_bit 16 (ucast (p ! 1)) OR push_bit 24 (ucast (p ! 0))"

definition STORE32_BE :: "u32 \<Rightarrow> bytes" where
  "STORE32_BE v = [ucast (drop_bit 24 v), ucast (drop_bit 16 v), ucast (drop_bit 8 v), ucast v]"

definition STORE64_BE :: "u64 \<Rightarrow> bytes" where
  "STORE64_BE v = map (\<lambda>s. ucast (drop_bit s v)) [56, 48, 40, 32, 24, 16, 8, 0]"

definition ROL32 :: "u32 \<Rightarrow> nat \<Rightarrow> u32" where
  "ROL32 x c = push_bit c x OR drop_bit (32 - c) x"

lemma length_store [bytes_len, simp]:
  "length (STORE32_LE v) = 4" "length (STORE32_BE v) = 4" "length (STORE64_BE w) = 8"
  by (simp_all add: STORE32_LE_def STORE32_BE_def STORE64_BE_def)

text \<open>The bits of a 32-bit word fall into those of its four bytes.\<close>

lemma byte_bit_beyond [simp]: "8 \<le> n \<Longrightarrow> bit (a :: byte) n \<longleftrightarrow> False"
  by (auto dest: bit_imp_le_length)

lemma less_32_quarters:
  "n < 32 \<Longrightarrow> n < 8 \<or> (\<exists>k<8. n = 8 + k) \<or> (\<exists>k<8. n = 16 + k) \<or> (\<exists>k<8. n = 24 + k)"
  for n :: nat
  by presburger

lemma word32_of_bytes:
  "ucast (ucast v :: byte) OR push_bit 8 (ucast (ucast (drop_bit 8 v) :: byte))
     OR push_bit 16 (ucast (ucast (drop_bit 16 v) :: byte))
     OR push_bit 24 (ucast (ucast (drop_bit 24 v) :: byte)) = v"
  for v :: u32
proof (rule bit_word_eqI)
  fix n assume "n < LENGTH(32)"
  then have "n < 32" by simp
  from less_32_quarters [OF this]
  show "bit (ucast (ucast v :: byte) OR push_bit 8 (ucast (ucast (drop_bit 8 v) :: byte))
     OR push_bit 16 (ucast (ucast (drop_bit 16 v) :: byte))
     OR push_bit 24 (ucast (ucast (drop_bit 24 v) :: byte)) :: u32) n = bit v n"
    by (elim disjE exE conjE) (simp_all add: bit_simps)
qed

lemma bytes_of_word32:
  fixes a b c d :: byte
  defines "v \<equiv> (ucast a OR push_bit 8 (ucast b) OR push_bit 16 (ucast c) OR push_bit 24 (ucast d)) :: u32"
  shows "ucast v = a" and "ucast (drop_bit 8 v) = b"
    and "ucast (drop_bit 16 v) = c" and "ucast (drop_bit 24 v) = d"
  unfolding v_def by (rule bit_word_eqI; simp add: bit_simps)+

lemma LOAD32_LE_STORE32_LE [simp]: "LOAD32_LE (STORE32_LE v @ rest) = v"
  by (simp add: LOAD32_LE_def STORE32_LE_def word32_of_bytes)

lemma LOAD32_BE_STORE32_BE [simp]: "LOAD32_BE (STORE32_BE v @ rest) = v"
  by (simp add: LOAD32_BE_def STORE32_BE_def word32_of_bytes)

lemma take_4_conv: "4 \<le> length p \<Longrightarrow> take 4 p = [p ! 0, p ! 1, p ! 2, p ! 3]"
  by (rule nth_equalityI) (auto simp: nth_Cons' less_Suc_eq numeral_eq_Suc)

lemma STORE32_LE_LOAD32_LE: "4 \<le> length p \<Longrightarrow> STORE32_LE (LOAD32_LE p) = take 4 p"
  unfolding STORE32_LE_def LOAD32_LE_def take_4_conv by (simp only: bytes_of_word32)

lemma STORE32_BE_LOAD32_BE: "4 \<le> length p \<Longrightarrow> STORE32_BE (LOAD32_BE p) = take 4 p"
  unfolding STORE32_BE_def LOAD32_BE_def take_4_conv by (simp only: bytes_of_word32)

lemma STORE32_LE_xor: "STORE32_LE (a XOR b) = xor_bytes (STORE32_LE a) (STORE32_LE b)"
  by (simp add: STORE32_LE_def unsigned_xor_eq)

end
