(* ===== verification/ChaCha20.thy ===== *)
theory ChaCha20
  imports MC_Prelude
begin

text \<open>
  The stream cipher of \<^verbatim>\<open>src/src/chacha20poly1305.c\<close>: the block function, the in-place
  \<^verbatim>\<open>chacha20_xor\<close> with its two loops (word-wise for whole blocks, byte-wise for the last
  one). The main result: \<open>chacha20_xor\<close> is the exclusive or with the key stream of RFC 8439, which is defined here
  independently of the code, hence undoes itself. The random number generator
  built on it and the tag comparison are in the theory \<open>ChaCha20_RNG\<close>.
\<close>

section \<open>The block function\<close>

text \<open>The macro \<^verbatim>\<open>CC20QR\<close>: the quarter round on the words \<open>a\<close>, \<open>b\<close>, \<open>c\<close>, \<open>d\<close> of the state.\<close>

definition CC20QR :: "nat \<Rightarrow> nat \<Rightarrow> nat \<Rightarrow> nat \<Rightarrow> u32 list \<Rightarrow> u32 list" where
  "CC20QR a b c d x =
     (let x = x[a := x ! a + x ! b]; x = x[d := x ! d XOR x ! a]; x = x[d := ROL32 (x ! d) 16];
          x = x[c := x ! c + x ! d]; x = x[b := x ! b XOR x ! c]; x = x[b := ROL32 (x ! b) 12];
          x = x[a := x ! a + x ! b]; x = x[d := x ! d XOR x ! a]; x = x[d := ROL32 (x ! d) 8];
          x = x[c := x ! c + x ! d]; x = x[b := x ! b XOR x ! c]; x = x[b := ROL32 (x ! b) 7]
      in x)"

text \<open>One turn of the loop: a column round and a diagonal round.\<close>

definition chacha20_double_round :: "u32 list \<Rightarrow> u32 list" where
  "chacha20_double_round x =
     (let x = CC20QR 0 4 8 12 x; x = CC20QR 1 5 9 13 x;
          x = CC20QR 2 6 10 14 x; x = CC20QR 3 7 11 15 x;
          x = CC20QR 0 5 10 15 x; x = CC20QR 1 6 11 12 x;
          x = CC20QR 2 7 8 13 x; x = CC20QR 3 4 9 14 x
      in x)"

primrec chacha20_rounds :: "nat \<Rightarrow> u32 list \<Rightarrow> u32 list" where
  "chacha20_rounds 0 x = x"
| "chacha20_rounds (Suc n) x = chacha20_rounds n (chacha20_double_round x)"

definition chacha20_block :: "u32 list \<Rightarrow> u32 list" where
  "chacha20_block x = chacha20_rounds 10 x"

lemma length_CC20QR [bytes_len, simp]: "length (CC20QR a b c d x) = length x"
  by (simp add: CC20QR_def Let_def)

lemma length_chacha20_double_round [bytes_len, simp]:
  "length (chacha20_double_round x) = length x"
  by (simp add: chacha20_double_round_def Let_def)

lemma length_chacha20_rounds [bytes_len, simp]: "length (chacha20_rounds n x) = length x"
  by (induction n arbitrary: x) simp_all

lemma length_chacha20_block [bytes_len, simp]: "length (chacha20_block x) = length x"
  by (simp add: chacha20_block_def)

section \<open>The stream cipher\<close>

definition chacha20_init :: "bytes \<Rightarrow> bytes \<Rightarrow> u32 \<Rightarrow> u32 list" where
  "chacha20_init key nonce counter =
     [0x61707865, 0x3320646e, 0x79622d32, 0x6b206574,
      LOAD32_LE key, LOAD32_LE (drop 4 key), LOAD32_LE (drop 8 key), LOAD32_LE (drop 12 key),
      LOAD32_LE (drop 16 key), LOAD32_LE (drop 20 key), LOAD32_LE (drop 24 key),
      LOAD32_LE (drop 28 key),
      counter, LOAD32_LE nonce, LOAD32_LE (drop 4 nonce), LOAD32_LE (drop 8 nonce)]"

text \<open>
  The inner loop over the words of a whole block: \<open>block.words[i] += state[i]\<close>, exclusive or
  with the word at \<open>buf\<close>, store it there, advance \<open>buf\<close> by four bytes.
\<close>

fun chacha20_xor_words :: "u32 list \<Rightarrow> u32 list \<Rightarrow> bytes \<Rightarrow> bytes" where
  "chacha20_xor_words (w # ws) (s # ss) buf =
     STORE32_LE ((w + s) XOR LOAD32_LE buf) @ chacha20_xor_words ws ss (drop 4 buf)"
| "chacha20_xor_words _ _ buf = []"

text \<open>
  The outer loop. While more than 64 bytes are left a block is processed word by word and the
  counter in \<open>state[12]\<close> is incremented; the last block is serialised and applied to the
  remaining bytes one by one.
\<close>

function chacha20_xor_loop :: "u32 list \<Rightarrow> bytes \<Rightarrow> bytes" where
  "chacha20_xor_loop state buf =
     (if 64 < length buf then
        chacha20_xor_words (chacha20_block state) state (take 64 buf)
        @ chacha20_xor_loop (state[12 := state ! 12 + 1]) (drop 64 buf)
      else
        xor_bytes buf (concat (map STORE32_LE (map2 (+) (chacha20_block state) state))))"
  by pat_completeness auto
termination by (relation "measure (\<lambda>(s, buf). length buf)") auto

declare chacha20_xor_loop.simps [simp del]

definition chacha20_xor :: "bytes \<Rightarrow> bytes \<Rightarrow> bytes \<Rightarrow> u32 \<Rightarrow> bytes" where
  "chacha20_xor buffer key nonce counter =
     chacha20_xor_loop (chacha20_init key nonce counter) buffer"

section \<open>The key stream\<close>

text \<open>
  The key stream of the code: block \<open>i\<close> is the serialised block function of the state
  with counter \<open>counter + i\<close>, added to that state.
\<close>

definition chacha20_key_block :: "bytes \<Rightarrow> bytes \<Rightarrow> u32 \<Rightarrow> bytes" where
  "chacha20_key_block key nonce counter =
     (let s = chacha20_init key nonce counter
      in concat (map STORE32_LE (map2 (+) (chacha20_block s) s)))"

primrec chacha20_keystream :: "bytes \<Rightarrow> bytes \<Rightarrow> u32 \<Rightarrow> nat \<Rightarrow> bytes" where
  "chacha20_keystream key nonce counter 0 = []"
| "chacha20_keystream key nonce counter (Suc k) =
     chacha20_key_block key nonce counter @ chacha20_keystream key nonce (counter + 1) k"

definition blocks_of :: "nat \<Rightarrow> nat" where
  "blocks_of n = n div 64 + 1"

lemma length_chacha20_init [bytes_len, simp]: "length (chacha20_init key nonce counter) = 16"
  by (simp add: chacha20_init_def)

lemma length_concat_stores [bytes_len, simp]: "length (concat (map STORE32_LE ws)) = 4 * length ws"
  by (induction ws) simp_all

lemma length_chacha20_key_block [bytes_len, simp]:
  "length (chacha20_key_block key nonce counter) = 64"
  by (simp add: chacha20_key_block_def Let_def del: map_map)

lemma length_chacha20_keystream [bytes_len, simp]:
  "length (chacha20_keystream key nonce counter k) = 64 * k"
  by (induction k arbitrary: counter) simp_all

lemma chacha20_init_next:
  "(chacha20_init key nonce counter)[12 := chacha20_init key nonce counter ! 12 + 1]
     = chacha20_init key nonce (counter + 1)"
  by (simp add: chacha20_init_def)

text \<open>The word-wise exclusive or of a whole block is the byte-wise one.\<close>

lemma chacha20_xor_words_eq:
  "length ws = length ss \<Longrightarrow> length buf = 4 * length ws
     \<Longrightarrow> chacha20_xor_words ws ss buf = xor_bytes buf (concat (map STORE32_LE (map2 (+) ws ss)))"
proof (induction ws ss arbitrary: buf rule: list_induct2')
  case (4 w ws s ss)
  define p q where "p = take 4 buf" and "q = drop 4 buf"
  have buf: "buf = p @ q" "length p = 4" "length q = 4 * length ws"
    using 4 by (simp_all add: p_def q_def)
  have "chacha20_xor_words ws ss q = xor_bytes q (concat (map STORE32_LE (map2 (+) ws ss)))"
    using 4 buf by simp
  moreover have "STORE32_LE (LOAD32_LE buf) = p"
    using 4 by (simp add: STORE32_LE_LOAD32_LE p_def)
  ultimately show ?case
    using buf by (simp add: STORE32_LE_xor xor_bytes_append xor_bytes_commute [of p] map_map [symmetric]
        del: map_map)
qed auto

lemma chacha20_xor_loop_keystream:
  assumes "length buf div 64 < k"
  shows "chacha20_xor_loop (chacha20_init key nonce counter) buf
    = xor_bytes buf (chacha20_keystream key nonce counter k)"
  using assms
proof (induction k arbitrary: buf counter)
  case (Suc k)
  let ?s = "chacha20_init key nonce counter"
  show ?case
  proof (cases "64 < length buf")
    case True
    define p q where "p = take 64 buf" and "q = drop 64 buf"
    have buf: "buf = p @ q" "length p = 64"
      using True by (simp_all add: p_def q_def)
    have "length q div 64 < k"
      using Suc.prems buf True by simp
    then have q: "chacha20_xor_loop (chacha20_init key nonce (counter + 1)) q
        = xor_bytes q (chacha20_keystream key nonce (counter + 1) k)"
      by (rule Suc.IH)
    have "chacha20_xor_loop ?s buf
        = chacha20_xor_words (chacha20_block ?s) ?s p
          @ chacha20_xor_loop (chacha20_init key nonce (counter + 1)) q"
      using True by (simp add: chacha20_xor_loop.simps [of ?s buf] chacha20_init_next p_def q_def)
    also have "chacha20_xor_words (chacha20_block ?s) ?s p
        = xor_bytes p (chacha20_key_block key nonce counter)"
      using buf by (simp add: chacha20_xor_words_eq chacha20_key_block_def Let_def)
    finally show ?thesis
      using buf by (simp add: q xor_bytes_append)
  next
    case False
    then show ?thesis
      by (simp add: chacha20_xor_loop.simps [of ?s buf] xor_bytes_append_long)
        (simp add: chacha20_key_block_def Let_def)
  qed
qed simp

lemma chacha20_xor_eq:
  "chacha20_xor buf key nonce counter
     = xor_bytes buf (chacha20_keystream key nonce counter (blocks_of (length buf)))"
  unfolding chacha20_xor_def by (rule chacha20_xor_loop_keystream) (simp add: blocks_of_def)

lemma length_keystream_ge: "n \<le> length (chacha20_keystream key nonce counter (blocks_of n))"
  by (simp add: blocks_of_def)

lemma length_chacha20_xor [bytes_len, simp]: "length (chacha20_xor buf key nonce counter) = length buf"
  unfolding chacha20_xor_eq length_xor_bytes
  using length_keystream_ge [of "length buf" key nonce counter] by (rule min_absorb1)

lemma chacha20_xor_involution [simp]:
  "chacha20_xor (chacha20_xor buf key nonce counter) key nonce counter = buf"
  unfolding chacha20_xor_eq [of "chacha20_xor buf key nonce counter"] length_chacha20_xor
  unfolding chacha20_xor_eq by (rule xor_bytes_involution) (rule length_keystream_ge)

section \<open>RFC 8439\<close>

text \<open>
  The cipher as the RFC describes it: words are numbers in little-endian order, the state is a matrix of four rows, the
  quarter round works on four words, and a double round applies it to the columns and to the diagonals.
\<close>

definition rfc_word :: "bytes \<Rightarrow> u32" where
  "rfc_word bs = of_nat (unat (bs ! 0) + 2 ^ 8 * unat (bs ! 1) + 2 ^ 16 * unat (bs ! 2) + 2 ^ 24 * unat (bs ! 3))"

definition rfc_bytes :: "u32 \<Rightarrow> bytes" where
  "rfc_bytes w = map (\<lambda>i. of_nat (unat w div 256 ^ i mod 256)) [0..<4]"

fun rfc_quarter :: "u32 \<times> u32 \<times> u32 \<times> u32 \<Rightarrow> u32 \<times> u32 \<times> u32 \<times> u32" where
  "rfc_quarter (a, b, c, d) =
     (let a = a + b; d = word_rotl 16 (d XOR a);
          c = c + d; b = word_rotl 12 (b XOR c);
          a = a + b; d = word_rotl 8 (d XOR a);
          c = c + d; b = word_rotl 7 (b XOR c)
      in (a, b, c, d))"

definition rfc_quarter_at :: "nat list \<Rightarrow> u32 list \<Rightarrow> u32 list" where
  "rfc_quarter_at is s =
     (case rfc_quarter (s ! (is ! 0), s ! (is ! 1), s ! (is ! 2), s ! (is ! 3)) of
        (a, b, c, d) \<Rightarrow> s[is ! 0 := a, is ! 1 := b, is ! 2 := c, is ! 3 := d])"

text \<open>The positions of column \<open>j\<close>, and of the diagonal that begins in column \<open>j\<close>.\<close>

definition rfc_column :: "nat \<Rightarrow> nat list" where
  "rfc_column j = map (\<lambda>row. 4 * row + j) [0..<4]"

definition rfc_diagonal :: "nat \<Rightarrow> nat list" where
  "rfc_diagonal j = map (\<lambda>row. 4 * row + (j + row) mod 4) [0..<4]"

definition rfc_double_round :: "u32 list \<Rightarrow> u32 list" where
  "rfc_double_round s = fold rfc_quarter_at (map rfc_column [0..<4] @ map rfc_diagonal [0..<4]) s"

definition rfc_state :: "bytes \<Rightarrow> bytes \<Rightarrow> u32 \<Rightarrow> u32 list" where
  "rfc_state key nonce counter =
     (let word_at = (\<lambda>bs i. rfc_word (drop (4 * i) bs))
      in map (word_at (map of_char ''expand 32-byte k'')) [0..<4] @ map (word_at key) [0..<8] @ [counter] @ map (word_at nonce) [0..<3])"

definition rfc_block :: "bytes \<Rightarrow> bytes \<Rightarrow> u32 \<Rightarrow> bytes" where
  "rfc_block key nonce counter =
     (let s = rfc_state key nonce counter
      in concat (map rfc_bytes (map2 (+) ((rfc_double_round ^^ 10) s) s)))"

definition rfc_keystream :: "bytes \<Rightarrow> bytes \<Rightarrow> u32 \<Rightarrow> nat \<Rightarrow> bytes" where
  "rfc_keystream key nonce counter k = concat (map (\<lambda>i. rfc_block key nonce (counter + of_nat i)) [0..<k])"

section \<open>The code computes the cipher of the RFC\<close>

lemma ROL32_rotl:
  assumes "0 < c" "c < 32"
  shows "ROL32 x c = word_rotl c x"
proof (rule bit_word_eqI)
  fix n assume "n < LENGTH(32)"
  then have n: "n < 32" by simp
  have "(n + (32 - c mod 32)) mod 32 = (if c \<le> n then n - c else 32 + n - c)"
  proof (cases "c \<le> n")
    case True
    then have eq: "n + (32 - c mod 32) = (n - c) + 32" using assms by simp
    show ?thesis unfolding eq mod_add_self2 using True n by simp
  qed (use assms in simp)
  then show "bit (ROL32 x c) n = bit (word_rotl c x) n"
    using n assms by (auto simp: ROL32_def bit_simps bit_word_rotl_iff dest: bit_imp_le_length)
qed

text \<open>The test vector of section 2.1.1 of the RFC.\<close>

lemma rfc_quarter_test:
  "rfc_quarter (0x11111111, 0x01020304, 0x9b8d6f43, 0x01234567) = (0xea2a92f4, 0xcb1cf8ce, 0x4581472e, 0x5881c4bb)"
  by (simp add: Let_def ROL32_rotl [symmetric] ROL32_def)

text \<open>Half of a quarter round, on the state and on four words.\<close>

definition half_at :: "nat \<Rightarrow> nat \<Rightarrow> nat \<Rightarrow> nat \<Rightarrow> nat \<Rightarrow> nat \<Rightarrow> u32 list \<Rightarrow> u32 list" where
  "half_at m n a b c d x =
     (let x = x[a := x ! a + x ! b]; x = x[d := x ! d XOR x ! a]; x = x[d := ROL32 (x ! d) m];
          x = x[c := x ! c + x ! d]; x = x[b := x ! b XOR x ! c]; x = x[b := ROL32 (x ! b) n]
      in x)"

definition half_of :: "nat \<Rightarrow> nat \<Rightarrow> u32 \<times> u32 \<times> u32 \<times> u32 \<Rightarrow> u32 \<times> u32 \<times> u32 \<times> u32" where
  "half_of m n = (\<lambda>(a, b, c, d).
     (let a = a + b; d = word_rotl m (d XOR a); c = c + d; b = word_rotl n (b XOR c) in (a, b, c, d)))"

lemma halves:
  "CC20QR a b c d s = half_at 8 7 a b c d (half_at 16 12 a b c d s)"
  "rfc_quarter (w, x, y, z) = half_of 8 7 (half_of 16 12 (w, x, y, z))"
  unfolding CC20QR_def half_at_def by (simp_all only: Let_def half_of_def rfc_quarter.simps prod.case)

definition put_four :: "nat \<Rightarrow> nat \<Rightarrow> nat \<Rightarrow> nat \<Rightarrow> u32 list \<Rightarrow> u32 \<times> u32 \<times> u32 \<times> u32 \<Rightarrow> u32 list" where
  "put_four a b c d s = (\<lambda>(w, x, y, z). s[a := w, b := x, c := y, d := z])"

lemma half_at_of:
  assumes "distinct [a, b, c, d]" "a < length s" "b < length s" "c < length s" "d < length s" "0 < m" "m < 32" "0 < n" "n < 32"
  shows "half_at m n a b c d s = put_four a b c d s (half_of m n (s ! a, s ! b, s ! c, s ! d))"
proof (rule nth_equalityI)
  fix i assume "i < length (half_at m n a b c d s)"
  then show "half_at m n a b c d s ! i = put_four a b c d s (half_of m n (s ! a, s ! b, s ! c, s ! d)) ! i"
    using assms by (simp add: half_at_def half_of_def put_four_def Let_def ROL32_rotl nth_list_update)
qed (simp add: half_at_def half_of_def put_four_def Let_def)

lemma CC20QR_quarter:
  assumes "distinct [a, b, c, d]" "a < length s" "b < length s" "c < length s" "d < length s"
  shows "CC20QR a b c d s = rfc_quarter_at [a, b, c, d] s"
proof -
  obtain w x y z where h: "half_of 16 12 (s ! a, s ! b, s ! c, s ! d) = (w, x, y, z)" by (metis prod_cases4)
  define t where "t = s[a := w, b := x, c := y, d := z]"
  have 1: "half_at 16 12 a b c d s = t" using half_at_of [OF assms, of 16 12] by (simp add: h put_four_def t_def)
  have t: "t ! a = w" "t ! b = x" "t ! c = y" "t ! d = z" "length t = length s" using assms by (auto simp: t_def nth_list_update)
  have put: "put_four a b c d t v = put_four a b c d s v" for v
  proof (cases v)
    case (fields w' x' y' z')
    show ?thesis
      by (rule nth_equalityI) (use assms in \<open>auto simp: fields put_four_def t_def nth_list_update\<close>)
  qed
  have "half_at 8 7 a b c d t = put_four a b c d s (half_of 8 7 (w, x, y, z))"
    using half_at_of [of a b c d t 8 7] assms t put by simp
  then show ?thesis
    by (simp add: halves 1 rfc_quarter_at_def h put_four_def del: rfc_quarter.simps)
qed

lemma rfc_positions:
  "map rfc_column [0..<4] @ map rfc_diagonal [0..<4] =
     [[0, 4, 8, 12], [1, 5, 9, 13], [2, 6, 10, 14], [3, 7, 11, 15], [0, 5, 10, 15], [1, 6, 11, 12], [2, 7, 8, 13], [3, 4, 9, 14]]"
  by code_simp

lemma double_round_rfc: "length s = 16 \<Longrightarrow> chacha20_double_round s = rfc_double_round s"
  unfolding rfc_double_round_def rfc_positions chacha20_double_round_def Let_def
  by (simp add: CC20QR_quarter [symmetric])

lemma chacha20_rounds_rfc: "length s = 16 \<Longrightarrow> chacha20_rounds n s = (rfc_double_round ^^ n) s"
proof (induction n arbitrary: s)
  case (Suc n)
  then show ?case by (simp add: double_round_rfc [symmetric] funpow_swap1)
qed simp

lemma rfc_word_LOAD:
  fixes p :: bytes
  shows "LOAD32_LE p = rfc_word p"
proof -
  have "unat (LOAD32_LE p) = unat (p ! 0) + 2 ^ 8 * unat (p ! 1) + 2 ^ 16 * unat (p ! 2) + 2 ^ 24 * unat (p ! 3)"
  proof -
    let ?w = "unat (LOAD32_LE p)"
    have digit: "unat x = ?w div 2 ^ n mod 256" if "ucast (drop_bit n (LOAD32_LE p)) = x" for n and x :: byte
      using that by (auto simp: unat_ucast unat_drop_bit)
    note b = bytes_of_word32 [of "p ! 0" "p ! 1" "p ! 2" "p ! 3", folded LOAD32_LE_def]
    have d: "unat (p ! 0) = ?w mod 256" "unat (p ! 1) = ?w div 2 ^ 8 mod 256" "unat (p ! 2) = ?w div 2 ^ 16 mod 256"
      "unat (p ! 3) = ?w div 2 ^ 24 mod 256"
      using digit [of 0 "p ! 0"] digit [of 8] digit [of 16] digit [of 24] b by simp_all
    have "?w div 2 ^ 24 < 256" using unat_bound [of "LOAD32_LE p"] by (simp add: less_mult_imp_div_less)
    then have top: "?w div 2 ^ 24 mod 256 = ?w div 2 ^ 24" by simp
    have split: "?w div 2 ^ k = ?w div 2 ^ k mod 256 + 2 ^ 8 * (?w div 2 ^ (k + 8))" for k
    proof -
      have "?w div 2 ^ (k + 8) = ?w div 2 ^ k div 256" by (simp add: power_add div_mult2_eq)
      then show ?thesis by simp
    qed
    have s0: "?w = ?w mod 256 + 256 * (?w div 2 ^ 8)" by simp
    have s1: "?w div 2 ^ 8 = ?w div 2 ^ 8 mod 256 + 256 * (?w div 2 ^ 16)" using split [of 8] by simp
    have s2: "?w div 2 ^ 16 = ?w div 2 ^ 16 mod 256 + 256 * (?w div 2 ^ 24)" using split [of 16] by simp
    have digits: "w = a0 + 256 * q1 \<Longrightarrow> q1 = a1 + 256 * q2 \<Longrightarrow> q2 = a2 + 256 * q3 \<Longrightarrow> w = a0 + 2 ^ 8 * a1 + 2 ^ 16 * a2 + 2 ^ 24 * q3"
      for w a0 a1 a2 q1 q2 q3 :: nat by simp
    show ?thesis unfolding d top by (rule digits [OF s0 s1 s2])
  qed
  then have "of_nat (unat (LOAD32_LE p)) = rfc_word p" unfolding rfc_word_def by (rule arg_cong)
  then show ?thesis by simp
qed

lemma upt_numerals: "[0..<3] = [0, 1, 2 :: nat]" "[0..<4] = [0, 1, 2, 3 :: nat]" "[0..<8] = [0, 1, 2, 3, 4, 5, 6, 7 :: nat]"
  by code_simp+

lemma rfc_bytes_STORE: "STORE32_LE w = rfc_bytes w"
proof -
  have byte: "ucast (drop_bit n w) = (of_nat (unat w div 2 ^ n mod 256) :: byte)" for n
  proof -
    have "unat (ucast (drop_bit n w) :: byte) = unat w div 2 ^ n mod 256" by (simp add: unat_ucast unat_drop_bit)
    then have "of_nat (unat (ucast (drop_bit n w) :: byte)) = (of_nat (unat w div 2 ^ n mod 256) :: byte)" by (rule arg_cong)
    then show ?thesis by simp
  qed
  show ?thesis
    unfolding STORE32_LE_def rfc_bytes_def upt_numerals using byte [of 0] byte [of 8] byte [of 16] byte [of 24] by simp
qed

lemma rfc_state_init: "rfc_state key nonce counter = chacha20_init key nonce counter"
proof -
  have "map (\<lambda>i. rfc_word (drop (4 * i) (map of_char ''expand 32-byte k''))) [0..<4] = [0x61707865, 0x3320646e, 0x79622d32, 0x6b206574]"
    unfolding upt_numerals by (simp add: rfc_word_def)
  then show ?thesis by (simp add: rfc_state_def chacha20_init_def rfc_word_LOAD upt_numerals del: upt_rec_numeral)
qed

lemma rfc_block_eq: "rfc_block key nonce counter = chacha20_key_block key nonce counter"
  unfolding rfc_block_def chacha20_key_block_def rfc_state_init chacha20_block_def rfc_bytes_STORE [abs_def]
  by (simp add: chacha20_rounds_rfc)

lemma rfc_keystream_eq: "rfc_keystream key nonce counter k = chacha20_keystream key nonce counter k"
proof (induction k arbitrary: counter)
  case (Suc k)
  have "[0..<Suc k] = 0 # map Suc [0..<k]" by (simp add: upt_conv_Cons map_Suc_upt del: upt_Suc)
  then show ?case using Suc [of "counter + 1", symmetric]
    by (simp add: rfc_keystream_def rfc_block_eq o_def add.assoc del: upt_Suc)
qed (simp add: rfc_keystream_def)

text \<open>
  C3. \<^verbatim>\<open>chacha20_xor\<close> computes the exclusive or of the buffer with the ChaCha20 key stream of RFC 8439 for
  the key, the nonce and the initial counter, whatever the length of the buffer: the block function of the code is the one of the RFC, with its
  constants, rotations, columns and diagonals and ten double rounds, and every block has its own counter.
\<close>

theorem chacha20_xor_is_keystream_xor:
  "chacha20_xor buffer key nonce counter
     = xor_bytes buffer (rfc_keystream key nonce counter (length buffer div 64 + 1))"
  unfolding chacha20_xor_eq blocks_of_def rfc_keystream_eq ..

end
