(* ===== verification/ChaCha20_RNG.thy ===== *)
theory ChaCha20_RNG
  imports ChaCha20
begin

text \<open>
  The random number generator \<^verbatim>\<open>chacha20_rng\<close> and the tag comparison
  \<^verbatim>\<open>poly1305_tagcmp\<close> of \<^verbatim>\<open>src/src/chacha20poly1305.c\<close>. The static variables of the
  generator are a record. The operating system's entropy source is code outside the
  repository: it is the oracle \<open>os_entropy\<close>, whose \<open>i\<close>-th value is what the \<open>i\<close>-th call of
  \<^verbatim>\<open>entropy\<close> delivered; a call succeeds when it delivered as many bytes as asked for, and
  the generator's \<^verbatim>\<open>abort()\<close> on a failed call is the result \<open>None\<close>.
\<close>

record rng =
  rng_key :: bytes
  rng_nonce :: bytes
  rng_buffer :: bytes
  rng_counter :: u32
  rng_available :: nat
  os_entropy :: "nat \<Rightarrow> bytes"
  os_calls :: nat

definition rng_start :: "(nat \<Rightarrow> bytes) \<Rightarrow> rng" where
  "rng_start src = \<lparr>rng_key = replicate 32 0, rng_nonce = replicate 12 0,
     rng_buffer = replicate 64 0, rng_counter = 0, rng_available = 0,
     os_entropy = src, os_calls = 0\<rparr>"

definition entropy :: "nat \<Rightarrow> rng \<Rightarrow> (bytes \<times> rng) option" where
  "entropy n r =
     (let bs = os_entropy r (os_calls r)
      in if length bs = n then Some (bs, r\<lparr>os_calls := os_calls r + 1\<rparr>) else None)"

text \<open>Fresh key and nonce when the block counter is (again) zero.\<close>

definition rng_seed :: "rng \<Rightarrow> rng option" where
  "rng_seed r =
     (if rng_counter r = 0 then
        (case entropy 32 r of None \<Rightarrow> None
         | Some (key, r) \<Rightarrow>
           (case entropy 12 r of None \<Rightarrow> None
            | Some (nonce, r) \<Rightarrow> Some (r\<lparr>rng_key := key, rng_nonce := nonce\<rparr>)))
      else Some r)"

text \<open>The branch \<^verbatim>\<open>available == 0\<close>: seed if necessary, then fill the buffer.\<close>

definition rng_refill :: "rng \<Rightarrow> rng option" where
  "rng_refill r =
     (if rng_available r = 0 then
        (case rng_seed r of None \<Rightarrow> None
         | Some r \<Rightarrow> Some (r\<lparr>rng_buffer := chacha20_xor (rng_buffer r) (rng_key r) (rng_nonce r) (rng_counter r),
                           rng_counter := rng_counter r + 1,
                           rng_available := 64\<rparr>))
      else Some r)"

lemma rng_refill_available: "rng_refill r = Some r' \<Longrightarrow> 0 < rng_available r'"
  by (auto simp: rng_refill_def split: if_splits option.splits)

function chacha20_rng :: "nat \<Rightarrow> rng \<Rightarrow> (bytes \<times> rng) option" where
  "chacha20_rng n r =
     (if n = 0 then Some ([], r)
      else (case rng_refill r of None \<Rightarrow> None
            | Some r \<Rightarrow>
              let m = min (rng_available r) n;
                  out = region (64 - rng_available r) m (rng_buffer r)
              in (case chacha20_rng (n - m) (r\<lparr>rng_available := rng_available r - m\<rparr>) of
                    None \<Rightarrow> None
                  | Some (rest, r) \<Rightarrow> Some (out @ rest, r))))"
  by pat_completeness auto
termination
  by (relation "measure fst") (auto dest: rng_refill_available simp: min_def)

declare chacha20_rng.simps [simp del]

section \<open>The state of the generator\<close>

definition rng_wf :: "rng \<Rightarrow> bool" where
  "rng_wf r \<longleftrightarrow> length (rng_buffer r) = 64 \<and> rng_available r \<le> 64
     \<and> length (rng_key r) = 32 \<and> length (rng_nonce r) = 12"

lemma rng_wf_start: "rng_wf (rng_start src)"
  by (simp add: rng_wf_def rng_start_def)

lemma rng_refill_wf: "rng_refill r = Some r' \<Longrightarrow> rng_wf r \<Longrightarrow> rng_wf r'"
  by (auto simp: rng_refill_def rng_seed_def entropy_def rng_wf_def Let_def
      split: if_splits option.splits)

lemma rng_refill_idem: "rng_refill r = Some r' \<Longrightarrow> rng_refill r' = Some r'"
  by (auto simp: rng_refill_def split: if_splits option.splits)

lemma chacha20_rng_0 [simp]: "chacha20_rng 0 r = Some ([], r)"
  by (simp add: chacha20_rng.simps)

lemma chacha20_rng_length_wf:
  "chacha20_rng n r = Some (out, r') \<Longrightarrow> rng_wf r \<Longrightarrow> length out = n \<and> rng_wf r'"
proof (induction n r arbitrary: out r' rule: chacha20_rng.induct)
  case (1 n r)
  show ?case
  proof (cases "n = 0")
    case True
    with "1.prems" show ?thesis by simp
  next
    case False
    from False "1.prems"(1) obtain s rest s' where s: "rng_refill r = Some s"
      and rest: "chacha20_rng (n - min (rng_available s) n)
          (s\<lparr>rng_available := rng_available s - min (rng_available s) n\<rparr>) = Some (rest, s')"
      and out: "out = region (64 - rng_available s) (min (rng_available s) n) (rng_buffer s) @ rest"
      and r': "r' = s'"
      by (subst (asm) chacha20_rng.simps) (auto simp: Let_def split: option.splits)
    have wf: "rng_wf s" using rng_refill_wf [OF s "1.prems"(2)] .
    then have "rng_wf (s\<lparr>rng_available := rng_available s - min (rng_available s) n\<rparr>)"
      by (auto simp: rng_wf_def)
    from "1.IH" [OF False s refl refl rest this] wf rng_refill_available [OF s] show ?thesis
      by (auto simp: out r' rng_wf_def)
  qed
qed

text \<open>
  Asking for \<open>m\<close> and then for \<open>n\<close> bytes gives the same bytes as asking for \<open>m + n\<close> at once.
\<close>

lemma region_split: "region a (m + n) xs = region a m xs @ region (a + m) n xs"
  by (simp add: region_def take_add add.commute)

lemma chacha20_rng_add:
  "rng_wf r \<Longrightarrow> chacha20_rng (m + n) r =
     (case chacha20_rng m r of None \<Rightarrow> None
      | Some (a, s) \<Rightarrow> map_option (\<lambda>(b, t). (a @ b, t)) (chacha20_rng n s))"
proof (induction m r rule: chacha20_rng.induct)
  case (1 m r)
  show ?case
  proof (cases "m = 0")
    case True
    then show ?thesis by (simp add: option.map_id id_def [symmetric])
  next
    case m: False
    show ?thesis
    proof (cases "rng_refill r")
      case None
      with m show ?thesis by (simp add: chacha20_rng.simps [of _ r])
    next
      case (Some s)
      let ?k = "min (rng_available s) m"
      have wf: "rng_wf s" "rng_available s > 0"
        using rng_refill_wf [OF Some "1.prems"] rng_refill_available [OF Some] by auto
      show ?thesis
      proof (cases "rng_available s \<le> m")
        case True
        have wf': "rng_wf (s\<lparr>rng_available := rng_available s - ?k\<rparr>)"
          using wf by (auto simp: rng_wf_def)
        have "chacha20_rng (m - ?k + n) (s\<lparr>rng_available := rng_available s - ?k\<rparr>) =
          (case chacha20_rng (m - ?k) (s\<lparr>rng_available := rng_available s - ?k\<rparr>) of None \<Rightarrow> None
           | Some (a, s) \<Rightarrow> map_option (\<lambda>(b, t). (a @ b, t)) (chacha20_rng n s))"
          by (rule "1.IH" [OF m Some refl refl wf'])
        with True m Some show ?thesis
          by (simp add: chacha20_rng.simps [of _ r] Let_def split: option.splits prod.splits)
            (auto split: option.splits)
      next
        case False
        let ?s = "s\<lparr>rng_available := rng_available s - m\<rparr>"
        define k where "k = min (rng_available s - m) n"
        have refill: "rng_refill ?s = Some ?s"
          using False by (simp add: rng_refill_def)
        have k: "min (rng_available s) (m + n) = m + k" "min (rng_available ?s) n = k"
            "m + n - (m + k) = n - k"
          using False by (auto simp: k_def)
        have off: "64 - rng_available s + m = 64 - (rng_available s - m)"
          using wf False by (simp add: rng_wf_def)
        have m': "min (rng_available s) m = m"
          using False by simp
        show ?thesis
        proof (cases "n = 0")
          case True
          with m Some m' show ?thesis
            by (simp add: chacha20_rng.simps [of _ r] Let_def split: option.splits)
        next
          case n: False
          have "chacha20_rng (m + n) r =
              map_option (\<lambda>(b, t). (region (64 - rng_available s) (m + k) (rng_buffer s) @ b, t))
                (chacha20_rng (n - k) (?s\<lparr>rng_available := rng_available s - (m + k)\<rparr>))"
            using n m by (simp add: chacha20_rng.simps [of _ r] Some k Let_def split: option.splits)
          moreover have "chacha20_rng m r = Some (region (64 - rng_available s) m (rng_buffer s), ?s)"
            using m by (simp add: chacha20_rng.simps [of _ r] Some m')
          moreover have "chacha20_rng n ?s =
              map_option (\<lambda>(b, t). (region (64 - (rng_available s - m)) k (rng_buffer s) @ b, t))
                (chacha20_rng (n - k) (?s\<lparr>rng_available := rng_available s - (m + k)\<rparr>))"
            using n k(2)
            by (subst chacha20_rng.simps) (simp add: refill Let_def split: option.splits)
          ultimately show ?thesis
            by (cases "chacha20_rng (n - k) (s\<lparr>rng_available := rng_available s - (m + k)\<rparr>)")
              (auto simp: region_split off)
        qed
      qed
    qed
  qed
qed

section \<open>Comparing tags\<close>

definition poly1305_tagcmp :: "bytes \<Rightarrow> bytes \<Rightarrow> byte" where
  "poly1305_tagcmp tag1 tag2 =
     foldl (\<lambda>d i. d OR (tag1 ! i XOR tag2 ! i)) 0 [0..<16]"

lemma foldl_or_eq_0:
  "foldl (\<lambda>d i. d OR f i) (a :: byte) is = 0 \<longleftrightarrow> a = 0 \<and> (\<forall>i \<in> set is. f i = 0)"
  by (induction "is" arbitrary: a) (auto simp: or_eq_0_iff)

lemma byte_xor_eq_0 [simp]: "(a :: byte) XOR b = 0 \<longleftrightarrow> a = b"
  by (metis xor.assoc xor.right_neutral xor_self_eq xor.left_neutral)

lemma poly1305_tagcmp_eq_0:
  assumes "length tag1 = 16" and "length tag2 = 16"
  shows "poly1305_tagcmp tag1 tag2 = 0 \<longleftrightarrow> tag1 = tag2"
  using assms by (auto simp: poly1305_tagcmp_def foldl_or_eq_0 list_eq_iff_nth_eq simp del: upt_Suc)

text \<open>A generator with bytes left in its buffer, for the witnesses.\<close>

lemma chacha20_rng_available:
  "0 < n \<Longrightarrow> n \<le> rng_available r \<Longrightarrow>
     chacha20_rng n r = Some (region (64 - rng_available r) n (rng_buffer r), r\<lparr>rng_available := rng_available r - n\<rparr>)"
  by (subst chacha20_rng.simps) (simp add: rng_refill_def Let_def)

definition full_rng :: rng where
  "full_rng = \<lparr>rng_key = replicate 32 1, rng_nonce = replicate 12 2, rng_buffer = map of_nat [0..<64], rng_counter = 1,
     rng_available = 64, os_entropy = (\<lambda>_. []), os_calls = 2\<rparr>"

lemma full_rng [simp]: "rng_wf full_rng" "chacha20_rng 16 full_rng = Some (map of_nat [0..<16], full_rng\<lparr>rng_available := 48\<rparr>)"
proof -
  show "rng_wf full_rng" by (simp add: rng_wf_def full_rng_def)
  have "region 0 16 (map of_nat [0..<64]) = (map of_nat [0..<16] :: bytes)" by (simp add: region_def take_map)
  then show "chacha20_rng 16 full_rng = Some (map of_nat [0..<16], full_rng\<lparr>rng_available := 48\<rparr>)"
    by (subst chacha20_rng_available) (simp_all add: full_rng_def)
qed

end
