(* ===== verification/Poly1305.thy ===== *)
theory Poly1305
  imports MC_Prelude
begin

text \<open>
  The authenticator \<^verbatim>\<open>poly1305\<close> of \<^verbatim>\<open>src/src/chacha20poly1305.c\<close>: five limbs of 26 bits
  in 32-bit words, products in 64-bit words, a partial carry chain after each block and a
  single conditional subtraction at the end. The theory proves it equal to the definition of
  the authenticator as a polynomial over the integers modulo \<open>2 ^ 130 - 5\<close>; the carries that
  the code leaves out are covered by the invariant \<open>limbs_ok\<close>, which bounds the lowest limb
  by \<open>44 * 2 ^ 26\<close> and shows that no 32-bit or 64-bit operation overflows.
\<close>

section \<open>The code\<close>

type_synonym limbs = "u32 \<times> u32 \<times> u32 \<times> u32 \<times> u32"

definition poly1305_r :: "bytes \<Rightarrow> limbs" where
  "poly1305_r key =
     (LOAD32_LE key AND 0x03FFFFFF,
      drop_bit 2 (LOAD32_LE (drop 3 key)) AND 0x03FFFF03,
      drop_bit 4 (LOAD32_LE (drop 6 key)) AND 0x03FFC0FF,
      drop_bit 6 (LOAD32_LE (drop 9 key)) AND 0x03F03FFF,
      drop_bit 8 (LOAD32_LE (drop 12 key)) AND 0x000FFFFF)"

definition MUL :: "u32 \<Rightarrow> u32 \<Rightarrow> u64" where
  "MUL a b = ucast a * ucast b"

text \<open>The code from the label \<^verbatim>\<open>process_block\<close> to the end of the loop body, in two halves.\<close>

definition poly1305_add :: "limbs \<Rightarrow> bytes \<Rightarrow> limbs" where
  "poly1305_add h msg = (case h of (h0, h1, h2, h3, h4) \<Rightarrow>
     (h0 + (LOAD32_LE msg AND 0x03FFFFFF),
      h1 + (drop_bit 2 (LOAD32_LE (drop 3 msg)) AND 0x03FFFFFF),
      h2 + (drop_bit 4 (LOAD32_LE (drop 6 msg)) AND 0x03FFFFFF),
      h3 + (drop_bit 6 (LOAD32_LE (drop 9 msg)) AND 0x03FFFFFF),
      h4 + drop_bit 8 (LOAD32_LE (drop 12 msg))))"

definition poly1305_mul :: "limbs \<Rightarrow> limbs \<Rightarrow> limbs" where
  "poly1305_mul r h = (case r of (r0, r1, r2, r3, r4) \<Rightarrow> case h of (h0, h1, h2, h3, h4) \<Rightarrow>
     (let s1 = r1 * 5; s2 = r2 * 5; s3 = r3 * 5; s4 = r4 * 5;
          d0 = MUL h0 r0 + MUL h1 s4 + MUL h2 s3 + MUL h3 s2 + MUL h4 s1;
          d1 = MUL h0 r1 + MUL h1 r0 + MUL h2 s4 + MUL h3 s3 + MUL h4 s2;
          d2 = MUL h0 r2 + MUL h1 r1 + MUL h2 r0 + MUL h3 s4 + MUL h4 s3;
          d3 = MUL h0 r3 + MUL h1 r2 + MUL h2 r1 + MUL h3 r0 + MUL h4 s4;
          d4 = MUL h0 r4 + MUL h1 r3 + MUL h2 r2 + MUL h3 r1 + MUL h4 r0;
          h0 = ucast (d0 AND 0x03FFFFFF); d1 = d1 + drop_bit 26 d0;
          h1 = ucast (d1 AND 0x03FFFFFF); d2 = d2 + drop_bit 26 d1;
          h2 = ucast (d2 AND 0x03FFFFFF); d3 = d3 + drop_bit 26 d2;
          h3 = ucast (d3 AND 0x03FFFFFF); d4 = d4 + drop_bit 26 d3;
          h4 = ucast (d4 AND 0x03FFFFFF); h0 = h0 + ucast (drop_bit 26 d4) * 5
      in (h0, h1, h2, h3, h4)))"

definition poly1305_block :: "limbs \<Rightarrow> limbs \<Rightarrow> bytes \<Rightarrow> limbs" where
  "poly1305_block r h msg = poly1305_mul r (poly1305_add h msg)"

text \<open>
  The loop: whole blocks get the bit \<open>2 ^ 128\<close> by \<^verbatim>\<open>h4 += 0x01000000\<close>; a rest of 1 to 15
  bytes is copied to the tag buffer, followed by the byte 1 and zeros, and processed without.
\<close>

function poly1305_loop :: "limbs \<Rightarrow> limbs \<Rightarrow> bytes \<Rightarrow> limbs" where
  "poly1305_loop r h msg =
     (if 16 \<le> length msg then
        (case h of (h0, h1, h2, h3, h4) \<Rightarrow>
          poly1305_loop r (poly1305_block r (h0, h1, h2, h3, h4 + 0x01000000) msg) (drop 16 msg))
      else if msg \<noteq> [] then
        poly1305_block r h (msg @ [1] @ replicate (15 - length msg) 0)
      else h)"
  by pat_completeness auto
termination by (relation "measure (\<lambda>(r, h, msg). length msg)") auto

declare poly1305_loop.simps [simp del]

definition poly1305_finish :: "limbs \<Rightarrow> bytes \<Rightarrow> bytes" where
  "poly1305_finish h key = (case h of (h0, h1, h2, h3, h4) \<Rightarrow>
     (let r0 = drop_bit 26 (h0 + 5);
          r1 = drop_bit 26 (h1 + r0);
          r2 = drop_bit 26 (h2 + r1);
          r3 = drop_bit 26 (h3 + r2);
          r4 = drop_bit 26 (h4 + r3);
          h0 = h0 + r4 * 5;
          d1 = ucast (LOAD32_LE (drop 16 key)) + ucast h0 + ucast (push_bit 26 h1) :: u64;
          d2 = ucast (LOAD32_LE (drop 20 key)) + ucast (drop_bit 6 h1) + ucast (push_bit 20 h2)
                 + drop_bit 32 d1;
          d3 = ucast (LOAD32_LE (drop 24 key)) + ucast (drop_bit 12 h2) + ucast (push_bit 14 h3)
                 + drop_bit 32 d2;
          d4 = ucast (LOAD32_LE (drop 28 key)) + ucast (drop_bit 18 h3) + ucast (push_bit 8 h4)
                 + drop_bit 32 d3
      in STORE32_LE (ucast d1) @ STORE32_LE (ucast d2) @ STORE32_LE (ucast d3)
           @ STORE32_LE (ucast d4)))"

definition poly1305 :: "bytes \<Rightarrow> bytes \<Rightarrow> bytes" where
  "poly1305 msg key = poly1305_finish (poly1305_loop (poly1305_r key) (0, 0, 0, 0, 0) msg) key"

lemma length_poly1305 [bytes_len, simp]: "length (poly1305 msg key) = 16"
  by (simp add: poly1305_def poly1305_finish_def Let_def split: prod.splits)

section \<open>The authenticator as a polynomial\<close>

primrec le_num :: "bytes \<Rightarrow> nat" where
  "le_num [] = 0"
| "le_num (b # bs) = unat b + 256 * le_num bs"

definition poly_p :: nat where
  "poly_p = 2 ^ 130 - 5"

function poly_acc :: "nat \<Rightarrow> nat \<Rightarrow> bytes \<Rightarrow> nat" where
  "poly_acc r a msg =
     (if msg = [] then a
      else poly_acc r ((a + le_num (take 16 msg) + 256 ^ min 16 (length msg)) * r mod poly_p)
             (drop 16 msg))"
  by pat_completeness auto
termination by (relation "measure (\<lambda>(r, a, msg). length msg)") auto

declare poly_acc.simps [simp del]

definition poly_clamp :: "bytes \<Rightarrow> nat" where
  "poly_clamp key = le_num (take 16 key) AND 0x0ffffffc0ffffffc0ffffffc0fffffff"

definition poly1305_spec :: "bytes \<Rightarrow> bytes \<Rightarrow> nat" where
  "poly1305_spec msg key =
     (poly_acc (poly_clamp key) 0 msg + le_num (take 16 (drop 16 key))) mod 2 ^ 128"

section \<open>Little-endian numbers\<close>

lemma le_num_append: "le_num (xs @ ys) = le_num xs + 256 ^ length xs * le_num ys"
  by (induction xs) (simp_all add: algebra_simps)

lemma le_num_replicate_0 [simp]: "le_num (replicate n 0) = 0"
  by (induction n) simp_all

lemma unat_byte_less: "unat (b :: byte) < 256"
  using unat_bound [of b] by simp

lemma le_num_less: "le_num xs < 256 ^ length xs"
proof (induction xs)
  case (Cons b bs)
  with unat_byte_less [of b] show ?case by simp
qed simp

lemma le_num_region:
  assumes "k + n \<le> length xs"
  shows "le_num (take n (drop k xs)) = le_num xs div 256 ^ k mod 256 ^ n"
proof -
  define a b c where "a = take k xs" and "b = take n (drop k xs)" and "c = drop n (drop k xs)"
  have xs: "xs = a @ b @ c" and len: "length a = k" "length b = n"
    using assms by (simp_all add: a_def b_def c_def del: drop_drop)
  have "le_num xs div 256 ^ k = le_num b + 256 ^ n * le_num c"
    using le_num_less [of a] by (simp add: xs le_num_append len div_less)
  then show ?thesis
    using le_num_less [of b] by (simp add: len flip: b_def)
qed

lemma nat_digits_256:
  fixes n :: nat
  shows "n = n mod 256 + 256 * (n div 256 mod 256) + 65536 * (n div 65536 mod 256)
    + 16777216 * (n div 16777216)" (is "n = ?r")
proof -
  define m1 m2 m3 where "m1 = n div 256" and "m2 = m1 div 256" and "m3 = m2 div 256"
  have "n = n mod 256 + 256 * m1" "m1 = m1 mod 256 + 256 * m2" "m2 = m2 mod 256 + 256 * m3"
    unfolding m1_def m2_def m3_def by simp_all
  moreover have "?r = n mod 256 + 256 * (m1 mod 256) + 65536 * (m2 mod 256) + 16777216 * m3"
    by (simp add: m1_def m2_def m3_def flip: div_mult2_eq)
  ultimately show ?thesis by linarith
qed

lemma unat_word32_bytes:
  "unat v = unat (ucast v :: byte) + 256 * unat (ucast (drop_bit 8 v) :: byte)
     + 65536 * unat (ucast (drop_bit 16 v) :: byte)
     + 16777216 * unat (ucast (drop_bit 24 v) :: byte)"
  for v :: u32
proof -
  have "unat v div 16777216 < 256"
    using unat_bound [of v] by (simp add: less_mult_imp_div_less)
  then show ?thesis
    using nat_digits_256 [of "unat v"] by (simp add: word_arith)
qed

lemma le_num_STORE32_LE [word_arith]: "le_num (STORE32_LE v) = unat v"
  by (subst unat_word32_bytes) (simp add: STORE32_LE_def)

lemma unat_LOAD32_LE:
  assumes "k + 4 \<le> length p"
  shows "unat (LOAD32_LE (drop k p)) = le_num p div 256 ^ k mod 2 ^ 32"
proof -
  have "unat (LOAD32_LE (drop k p)) = le_num (STORE32_LE (LOAD32_LE (drop k p)))"
    by (simp add: le_num_STORE32_LE)
  also have "\<dots> = le_num (take 4 (drop k p))"
    using assms by (simp add: STORE32_LE_LOAD32_LE)
  also have "\<dots> = le_num p div 256 ^ k mod 2 ^ 32"
    using assms by (simp add: le_num_region)
  finally show ?thesis .
qed

section \<open>Limbs\<close>

text \<open>
  The value of five limbs, and the bounds that hold between two blocks: every limb but the
  lowest is reduced to 26 bits, the lowest one keeps what the last carry added to it.
\<close>

fun limbs_val :: "limbs \<Rightarrow> nat" where
  "limbs_val (h0, h1, h2, h3, h4) =
     unat h0 + 2 ^ 26 * unat h1 + 2 ^ 52 * unat h2 + 2 ^ 78 * unat h3 + 2 ^ 104 * unat h4"

fun limbs_bound :: "nat \<Rightarrow> nat \<Rightarrow> nat \<Rightarrow> limbs \<Rightarrow> bool" where
  "limbs_bound a b c (h0, h1, h2, h3, h4) \<longleftrightarrow>
     unat h0 < a \<and> unat h1 < b \<and> unat h2 < b \<and> unat h3 < b \<and> unat h4 < c"

definition limbs_ok :: "limbs \<Rightarrow> bool" where
  "limbs_ok h \<longleftrightarrow> limbs_bound (44 * 2 ^ 26) (2 ^ 26) (2 ^ 26) h"

text \<open>The five limbs of a 16-byte block.\<close>

lemma mask_26: "(0x03FFFFFF :: 'a::len word) = mask 26"
  by (simp add: mask_eq_exp_minus_1)

lemma split_limbs:
  fixes m :: nat
  shows "m = m mod 2 ^ 26 + 2 ^ 26 * (m div 2 ^ 26 mod 2 ^ 26) + 2 ^ 52 * (m div 2 ^ 52 mod 2 ^ 26)
    + 2 ^ 78 * (m div 2 ^ 78 mod 2 ^ 26) + 2 ^ 104 * (m div 2 ^ 104)" (is "m = ?r")
proof -
  define m1 m2 m3 m4 where "m1 = m div 2 ^ 26" and "m2 = m1 div 2 ^ 26" and "m3 = m2 div 2 ^ 26"
    and "m4 = m3 div 2 ^ 26"
  have "m = m mod 2 ^ 26 + 2 ^ 26 * m1" "m1 = m1 mod 2 ^ 26 + 2 ^ 26 * m2"
      "m2 = m2 mod 2 ^ 26 + 2 ^ 26 * m3" "m3 = m3 mod 2 ^ 26 + 2 ^ 26 * m4"
    unfolding m1_def m2_def m3_def m4_def by simp_all
  moreover have "?r = m mod 2 ^ 26 + 2 ^ 26 * (m1 mod 2 ^ 26) + 2 ^ 52 * (m2 mod 2 ^ 26)
      + 2 ^ 78 * (m3 mod 2 ^ 26) + 2 ^ 104 * m4"
    by (simp add: m1_def m2_def m3_def m4_def flip: div_mult2_eq)
  ultimately show ?thesis by simp
qed

text \<open>Bits \<open>s\<close> to \<open>s + w\<close> of a number, read through a 32-bit window at bit \<open>8 * k\<close>.\<close>

lemma window_div_mod:
  fixes m :: nat
  assumes "c + w \<le> 32"
  shows "m div 256 ^ k mod 2 ^ 32 div 2 ^ c mod 2 ^ w = m div 2 ^ (8 * k + c) mod 2 ^ w"
proof -
  have "(256 :: nat) ^ k = 2 ^ (8 * k)"
    by (simp add: power_mult)
  moreover have "take_bit w (drop_bit c (take_bit 32 (drop_bit (8 * k) m)))
      = take_bit w (drop_bit (8 * k + c) m)"
    using assms by (intro bit_eqI) (auto simp: bit_simps add_ac)
  ultimately show ?thesis
    by (simp only: take_bit_eq_mod drop_bit_eq_div)
qed

lemma load_limb:
  assumes "k + 4 \<le> length p" and "c + 26 \<le> 32"
  shows "unat (drop_bit c (LOAD32_LE (drop k p)) AND 0x03FFFFFF)
    = le_num p div 2 ^ (8 * k + c) mod 2 ^ 26"
  unfolding mask_26 using assms
  by (simp only: unat_and_mask unat_drop_bit unat_LOAD32_LE window_div_mod)

lemma load_limb_top:
  assumes "length p = 16"
  shows "unat (drop_bit 8 (LOAD32_LE (drop 12 p))) = le_num p div 2 ^ 104"
proof -
  have "le_num p div 256 ^ 12 < 2 ^ 32"
    using le_num_less [of p] assms by (simp add: less_mult_imp_div_less)
  then show ?thesis
    using assms by (simp add: unat_drop_bit unat_LOAD32_LE flip: div_mult2_eq)
qed

text \<open>Adding a block to the limbs: no limb overflows.\<close>

lemma poly1305_add_correct:
  assumes "length msg = 16" and "limbs_bound (44 * 2 ^ 26) (2 ^ 26) (2 ^ 26 + 2 ^ 24) h"
  shows "limbs_val (poly1305_add h msg) = limbs_val h + le_num msg"
    and "limbs_bound (45 * 2 ^ 26) (2 ^ 27) (2 ^ 26 + 2 ^ 25) (poly1305_add h msg)"
proof -
  obtain h0 h1 h2 h3 h4 where h: "h = (h0, h1, h2, h3, h4)" by (cases h) auto
  let ?m = "le_num msg"
  have l: "unat (LOAD32_LE msg AND 0x03FFFFFF) = ?m mod 2 ^ 26"
      "unat (drop_bit 2 (LOAD32_LE (drop 3 msg)) AND 0x03FFFFFF) = ?m div 2 ^ 26 mod 2 ^ 26"
      "unat (drop_bit 4 (LOAD32_LE (drop 6 msg)) AND 0x03FFFFFF) = ?m div 2 ^ 52 mod 2 ^ 26"
      "unat (drop_bit 6 (LOAD32_LE (drop 9 msg)) AND 0x03FFFFFF) = ?m div 2 ^ 78 mod 2 ^ 26"
      "unat (drop_bit 8 (LOAD32_LE (drop 12 msg))) = ?m div 2 ^ 104"
    using load_limb [of 0 msg 0] load_limb [of 3 msg 2] load_limb [of 6 msg 4]
      load_limb [of 9 msg 6] load_limb_top [of msg] assms(1) by simp_all
  have t: "?m div 2 ^ 104 < 2 ^ 24"
    using le_num_less [of msg] assms(1) by (simp add: less_mult_imp_div_less)
  have b: "?m mod 2 ^ 26 < 2 ^ 26" "?m div 2 ^ 26 mod 2 ^ 26 < 2 ^ 26"
    "?m div 2 ^ 52 mod 2 ^ 26 < 2 ^ 26" "?m div 2 ^ 78 mod 2 ^ 26 < 2 ^ 26"
    by simp_all
  let ?x0 = "LOAD32_LE msg AND 0x03FFFFFF"
    and ?x1 = "drop_bit 2 (LOAD32_LE (drop 3 msg)) AND 0x03FFFFFF"
    and ?x2 = "drop_bit 4 (LOAD32_LE (drop 6 msg)) AND 0x03FFFFFF"
    and ?x3 = "drop_bit 6 (LOAD32_LE (drop 9 msg)) AND 0x03FFFFFF"
    and ?x4 = "drop_bit 8 (LOAD32_LE (drop 12 msg))"
  have add: "unat (x + y) = unat x + unat y" if "unat x + unat y < 2 ^ 32" for x y :: u32
    using that by (simp add: unat_word_ariths)
  have hb: "unat h0 < 44 * 2 ^ 26" "unat h1 < 2 ^ 26" "unat h2 < 2 ^ 26" "unat h3 < 2 ^ 26"
      "unat h4 < 2 ^ 26 + 2 ^ 24"
    using assms(2) by (simp_all add: h)
  have sums: "unat (h0 + ?x0) = unat h0 + unat ?x0" "unat (h1 + ?x1) = unat h1 + unat ?x1"
      "unat (h2 + ?x2) = unat h2 + unat ?x2" "unat (h3 + ?x3) = unat h3 + unat ?x3"
      "unat (h4 + ?x4) = unat h4 + unat ?x4"
    by (rule add; use hb b t in \<open>simp only: l\<close>; simp)+
  show "limbs_val (poly1305_add h msg) = limbs_val h + ?m"
    using split_limbs [of ?m]
    unfolding h poly1305_add_def prod.case limbs_val.simps sums l by (simp only: distrib_left)
  have "x + y < 45 * 2 ^ 26" if "x < 44 * 2 ^ 26" "y < 2 ^ 26" for x y :: nat
    using that by simp
  moreover have "x + y < 2 ^ 27" if "x < 2 ^ 26" "y < 2 ^ 26" for x y :: nat
    using that by simp
  moreover have "x + y < 2 ^ 26 + 2 ^ 25" if "x < 2 ^ 26 + 2 ^ 24" "y < 2 ^ 24" for x y :: nat
    using that by simp
  ultimately show "limbs_bound (45 * 2 ^ 26) (2 ^ 27) (2 ^ 26 + 2 ^ 25) (poly1305_add h msg)"
    using hb b t unfolding h poly1305_add_def prod.case limbs_bound.simps sums l by metis
qed

text \<open>The carry chain keeps the value, up to the multiple of \<open>2 ^ 130\<close> carried out at the top.\<close>

lemma carry_chain_aux:
  fixes B :: nat
  assumes "D0 = m0 + B * q0" and "D1 + q0 = m1 + B * q1" and "D2 + q1 = m2 + B * q2"
    and "D3 + q2 = m3 + B * q3" and "D4 + q3 = m4 + B * q4"
    and "B2 = B ^ 2" and "B3 = B ^ 3" and "B4 = B ^ 4" and "B5 = B ^ 5"
  shows "D0 + B * D1 + B2 * D2 + B3 * D3 + B4 * D4
    = m0 + B * m1 + B2 * m2 + B3 * m3 + B4 * m4 + B5 * q4"
  using assms by algebra
lemma carry_chain:
  fixes D0 D1 D2 D3 D4 :: nat
  assumes "E1 = D1 + D0 div 2 ^ 26" and "E2 = D2 + E1 div 2 ^ 26" and "E3 = D3 + E2 div 2 ^ 26"
    and "E4 = D4 + E3 div 2 ^ 26"
  shows "D0 + 2 ^ 26 * D1 + 2 ^ 52 * D2 + 2 ^ 78 * D3 + 2 ^ 104 * D4
    = D0 mod 2 ^ 26 + 2 ^ 26 * (E1 mod 2 ^ 26) + 2 ^ 52 * (E2 mod 2 ^ 26)
      + 2 ^ 78 * (E3 mod 2 ^ 26) + 2 ^ 104 * (E4 mod 2 ^ 26) + 2 ^ 130 * (E4 div 2 ^ 26)"
proof -
  have d: "x = x mod 2 ^ 26 + 2 ^ 26 * (x div 2 ^ 26)" for x :: nat
    by (rule mod_mult_div_eq [symmetric])
  show ?thesis
    by (rule carry_chain_aux [where ?q0.0 = "D0 div 2 ^ 26" and ?q1.0 = "E1 div 2 ^ 26"
          and ?q2.0 = "E2 div 2 ^ 26" and ?q3.0 = "E3 div 2 ^ 26"])
      (simp_all only: d [symmetric] assms [symmetric] flip: power_mult, simp_all)
qed

text \<open>The schoolbook product with the upper half folded down by the factor 5.\<close>

lemma limb_product:
  fixes B B2 B3 B4 p :: int
  assumes "B2 = B ^ 2" and "B3 = B ^ 3" and "B4 = B ^ 4" and "B ^ 5 = p + 5"
  shows "(h0 + B * h1 + B2 * h2 + B3 * h3 + B4 * h4) * (r0 + B * r1 + B2 * r2 + B3 * r3 + B4 * r4)
    = (h0 * r0 + h1 * (r4 * 5) + h2 * (r3 * 5) + h3 * (r2 * 5) + h4 * (r1 * 5))
      + B * (h0 * r1 + h1 * r0 + h2 * (r4 * 5) + h3 * (r3 * 5) + h4 * (r2 * 5))
      + B2 * (h0 * r2 + h1 * r1 + h2 * r0 + h3 * (r4 * 5) + h4 * (r3 * 5))
      + B3 * (h0 * r3 + h1 * r2 + h2 * r1 + h3 * r0 + h4 * (r4 * 5))
      + B4 * (h0 * r4 + h1 * r3 + h2 * r2 + h3 * r1 + h4 * r0)
      + p * ((h1 * r4 + h2 * r3 + h3 * r2 + h4 * r1) + B * (h2 * r4 + h3 * r3 + h4 * r2)
             + B2 * (h3 * r4 + h4 * r3) + B3 * (h4 * r4))"
  unfolding assms(1-3) using assms(4) by algebra

lemma limb_product_mod:
  fixes h0 h1 h2 h3 h4 r0 r1 r2 r3 r4 :: nat
  shows "((h0 * r0 + h1 * (r4 * 5) + h2 * (r3 * 5) + h3 * (r2 * 5) + h4 * (r1 * 5))
      + 2 ^ 26 * (h0 * r1 + h1 * r0 + h2 * (r4 * 5) + h3 * (r3 * 5) + h4 * (r2 * 5))
      + 2 ^ 52 * (h0 * r2 + h1 * r1 + h2 * r0 + h3 * (r4 * 5) + h4 * (r3 * 5))
      + 2 ^ 78 * (h0 * r3 + h1 * r2 + h2 * r1 + h3 * r0 + h4 * (r4 * 5))
      + 2 ^ 104 * (h0 * r4 + h1 * r3 + h2 * r2 + h3 * r1 + h4 * r0)) mod poly_p
    = ((h0 + 2 ^ 26 * h1 + 2 ^ 52 * h2 + 2 ^ 78 * h3 + 2 ^ 104 * h4)
       * (r0 + 2 ^ 26 * r1 + 2 ^ 52 * r2 + 2 ^ 78 * r3 + 2 ^ 104 * r4)) mod poly_p"
    (is "?d mod _ = ?hr mod _")
proof -
  let ?k = "(h1 * r4 + h2 * r3 + h3 * r2 + h4 * r1) + 2 ^ 26 * (h2 * r4 + h3 * r3 + h4 * r2)
             + 2 ^ 52 * (h3 * r4 + h4 * r3) + 2 ^ 78 * (h4 * r4)"
  have pw: "(2 :: int) ^ 52 = (2 ^ 26) ^ 2" "(2 :: int) ^ 78 = (2 ^ 26) ^ 3"
      "(2 :: int) ^ 104 = (2 ^ 26) ^ 4" "((2 :: int) ^ 26) ^ 5 = int poly_p + 5"
    by (simp_all add: poly_p_def)
  have "int ?hr = int (?d + poly_p * ?k)"
    using limb_product [OF pw, of "int h0" "int h1" "int h2" "int h3" "int h4"
        "int r0" "int r1" "int r2" "int r3" "int r4"]
    by (simp only: of_nat_add of_nat_mult of_nat_power of_nat_numeral)
  then have "?hr = ?d + poly_p * ?k"
    by (simp only: of_nat_eq_iff)
  then show ?thesis by (simp only: mod_mult_self2)
qed

section \<open>Multiplication and the carry chain\<close>

lemma unat_MUL [word_arith]: "unat (MUL a b) = unat a * unat b"
proof -
  have "unat a * unat b \<le> (2 ^ 32 - 1) * (2 ^ 32 - 1)"
    using unat_bound [of a] unat_bound [of b] by (intro mult_mono) simp_all
  moreover have "unat a < 2 ^ 64" "unat b < 2 ^ 64"
    using unat_bound [of a] unat_bound [of b] by simp_all
  ultimately show ?thesis
    by (simp add: MUL_def unat_word_ariths unat_ucast)
qed

lemma unat_add5:
  fixes a b c d e :: u64
  assumes "unat a + unat b + unat c + unat d + unat e < 2 ^ 64"
  shows "unat (a + b + c + d + e) = unat a + unat b + unat c + unat d + unat e"
  using assms by (simp add: unat_word_ariths mod_simps)

lemma poly1305_mul_unat:
  fixes h0 h1 h2 h3 h4 r0 r1 r2 r3 r4 :: u32
  assumes h: "limbs_bound (45 * 2 ^ 26) (2 ^ 27) (2 ^ 26 + 2 ^ 25) (h0, h1, h2, h3, h4)"
    and r: "limbs_bound (2 ^ 26) (2 ^ 26) (2 ^ 20) (r0, r1, r2, r3, r4)"
  defines "D0 \<equiv> unat h0 * unat r0 + unat h1 * (unat r4 * 5) + unat h2 * (unat r3 * 5) + unat h3 * (unat r2 * 5) + unat h4 * (unat r1 * 5)"
    and "D1 \<equiv> unat h0 * unat r1 + unat h1 * unat r0 + unat h2 * (unat r4 * 5) + unat h3 * (unat r3 * 5) + unat h4 * (unat r2 * 5)"
    and "D2 \<equiv> unat h0 * unat r2 + unat h1 * unat r1 + unat h2 * unat r0 + unat h3 * (unat r4 * 5) + unat h4 * (unat r3 * 5)"
    and "D3 \<equiv> unat h0 * unat r3 + unat h1 * unat r2 + unat h2 * unat r1 + unat h3 * unat r0 + unat h4 * (unat r4 * 5)"
    and "D4 \<equiv> unat h0 * unat r4 + unat h1 * unat r3 + unat h2 * unat r2 + unat h3 * unat r1 + unat h4 * unat r0"
  shows "D0 < 2 ^ 60" "D1 < 2 ^ 60" "D2 < 2 ^ 60" "D3 < 2 ^ 60" "D4 < 33 * 2 ^ 50"
    and "unat (MUL h0 r0 + MUL h1 (r4 * 5) + MUL h2 (r3 * 5) + MUL h3 (r2 * 5) + MUL h4 (r1 * 5)) = D0"
    and "unat (MUL h0 r1 + MUL h1 r0 + MUL h2 (r4 * 5) + MUL h3 (r3 * 5) + MUL h4 (r2 * 5)) = D1"
    and "unat (MUL h0 r2 + MUL h1 r1 + MUL h2 r0 + MUL h3 (r4 * 5) + MUL h4 (r3 * 5)) = D2"
    and "unat (MUL h0 r3 + MUL h1 r2 + MUL h2 r1 + MUL h3 r0 + MUL h4 (r4 * 5)) = D3"
    and "unat (MUL h0 r4 + MUL h1 r3 + MUL h2 r2 + MUL h3 r1 + MUL h4 r0) = D4"
proof -
  have hb: "unat h0 \<le> 45 * 2 ^ 26" "unat h1 \<le> 2 ^ 27" "unat h2 \<le> 2 ^ 27" "unat h3 \<le> 2 ^ 27"
      "unat h4 \<le> 2 ^ 26 + 2 ^ 25"
    using h by (simp_all add: less_imp_le)
  have rb: "unat r0 \<le> 2 ^ 26" "unat r1 \<le> 2 ^ 26" "unat r2 \<le> 2 ^ 26" "unat r3 \<le> 2 ^ 26" "unat r4 \<le> 2 ^ 20"
    using r by (simp_all add: less_imp_le)
  have s: "unat (x * 5) = unat x * 5" if "unat x \<le> 2 ^ 26" for x :: u32
    using that by (simp add: unat_word_ariths)
  have s': "unat (r1 * 5) = unat r1 * 5" "unat (r2 * 5) = unat r2 * 5" "unat (r3 * 5) = unat r3 * 5"
      "unat (r4 * 5) = unat r4 * 5"
    using rb by (intro s; simp)+
  have sb: "unat r1 * 5 \<le> 5 * 2 ^ 26" "unat r2 * 5 \<le> 5 * 2 ^ 26" "unat r3 * 5 \<le> 5 * 2 ^ 26"
     "unat r4 * 5 \<le> 5 * 2 ^ 20"
    using rb by simp_all
  note m = mult_mono [OF _ _ le0 le0]
  show b0: "D0 < 2 ^ 60"
    using m [OF hb(1) rb(1)] m [OF hb(2) sb(4)] m [OF hb(3) sb(3)] m [OF hb(4) sb(2)] m [OF hb(5) sb(1)]
    unfolding D0_def by simp
  show b1: "D1 < 2 ^ 60"
    using m [OF hb(1) rb(2)] m [OF hb(2) rb(1)] m [OF hb(3) sb(4)] m [OF hb(4) sb(3)] m [OF hb(5) sb(2)]
    unfolding D1_def by simp
  show b2: "D2 < 2 ^ 60"
    using m [OF hb(1) rb(3)] m [OF hb(2) rb(2)] m [OF hb(3) rb(1)] m [OF hb(4) sb(4)] m [OF hb(5) sb(3)]
    unfolding D2_def by simp
  show b3: "D3 < 2 ^ 60"
    using m [OF hb(1) rb(4)] m [OF hb(2) rb(3)] m [OF hb(3) rb(2)] m [OF hb(4) rb(1)] m [OF hb(5) sb(4)]
    unfolding D3_def by simp
  show b4: "D4 < 33 * 2 ^ 50"
    using m [OF hb(1) rb(5)] m [OF hb(2) rb(4)] m [OF hb(3) rb(3)] m [OF hb(4) rb(2)] m [OF hb(5) rb(1)]
    unfolding D4_def by simp
  show "unat (MUL h0 r0 + MUL h1 (r4 * 5) + MUL h2 (r3 * 5) + MUL h3 (r2 * 5) + MUL h4 (r1 * 5)) = D0"
    using b0 unfolding D0_def by (subst unat_add5) (simp_all only: unat_MUL s', simp)
  show "unat (MUL h0 r1 + MUL h1 r0 + MUL h2 (r4 * 5) + MUL h3 (r3 * 5) + MUL h4 (r2 * 5)) = D1"
    using b1 unfolding D1_def by (subst unat_add5) (simp_all only: unat_MUL s', simp)
  show "unat (MUL h0 r2 + MUL h1 r1 + MUL h2 r0 + MUL h3 (r4 * 5) + MUL h4 (r3 * 5)) = D2"
    using b2 unfolding D2_def by (subst unat_add5) (simp_all only: unat_MUL s', simp)
  show "unat (MUL h0 r3 + MUL h1 r2 + MUL h2 r1 + MUL h3 r0 + MUL h4 (r4 * 5)) = D3"
    using b3 unfolding D3_def by (subst unat_add5) (simp_all only: unat_MUL s', simp)
  show "unat (MUL h0 r4 + MUL h1 r3 + MUL h2 r2 + MUL h3 r1 + MUL h4 r0) = D4"
    using b4 unfolding D4_def by (subst unat_add5) (simp_all only: unat_MUL s', simp)
qed

lemma limb_of_d: "unat (ucast ((d :: u64) AND 0x03FFFFFF) :: u32) = unat d mod 2 ^ 26"
proof -
  have "unat d mod 2 ^ 26 < 2 ^ 32"
    by (rule less_trans [of _ "2 ^ 26"]) simp_all
  then show ?thesis
    by (simp add: mask_26 unat_ucast unat_and_mask)
qed

text \<open>One step of the carry chain: \<open>x\<close> is the next product sum, \<open>y\<close> the one carried from.\<close>

lemma carry_step:
  fixes x y :: u64
  assumes "unat x < n" and "n \<le> 2 ^ 60" and "unat y < 2 ^ 60 + 2 ^ 35"
  shows "unat (x + drop_bit 26 y) = unat x + unat y div 2 ^ 26"
    and "unat (x + drop_bit 26 y) < n + 2 ^ 35"
proof -
  have "unat y div 2 ^ 26 < 2 ^ 35"
    using assms(3) by (simp add: less_mult_imp_div_less)
  with assms show "unat (x + drop_bit 26 y) = unat x + unat y div 2 ^ 26"
    and "unat (x + drop_bit 26 y) < n + 2 ^ 35"
    by (simp_all add: unat_word_ariths unat_drop_bit)
qed

lemma poly1305_mul_correct:
  assumes h: "limbs_bound (45 * 2 ^ 26) (2 ^ 27) (2 ^ 26 + 2 ^ 25) h"
    and r: "limbs_bound (2 ^ 26) (2 ^ 26) (2 ^ 20) r"
  shows "limbs_val (poly1305_mul r h) mod poly_p = limbs_val h * limbs_val r mod poly_p"
    and "limbs_ok (poly1305_mul r h)"
proof -
  obtain h0 h1 h2 h3 h4 where hh: "h = (h0, h1, h2, h3, h4)" by (cases h) auto
  obtain r0 r1 r2 r3 r4 where rr: "r = (r0, r1, r2, r3, r4)" by (cases r) auto
  note u = poly1305_mul_unat [OF h [unfolded hh] r [unfolded rr]]
  define d0 d1 d2 d3 d4 where
    "d0 = MUL h0 r0 + MUL h1 (r4 * 5) + MUL h2 (r3 * 5) + MUL h3 (r2 * 5) + MUL h4 (r1 * 5)" and
    "d1 = MUL h0 r1 + MUL h1 r0 + MUL h2 (r4 * 5) + MUL h3 (r3 * 5) + MUL h4 (r2 * 5)" and
    "d2 = MUL h0 r2 + MUL h1 r1 + MUL h2 r0 + MUL h3 (r4 * 5) + MUL h4 (r3 * 5)" and
    "d3 = MUL h0 r3 + MUL h1 r2 + MUL h2 r1 + MUL h3 r0 + MUL h4 (r4 * 5)" and
    "d4 = MUL h0 r4 + MUL h1 r3 + MUL h2 r2 + MUL h3 r1 + MUL h4 r0"
  note u' = u [folded d0_def d1_def d2_def d3_def d4_def]
  have db: "unat d0 < 2 ^ 60" "unat d1 < 2 ^ 60" "unat d2 < 2 ^ 60" "unat d3 < 2 ^ 60"
      "unat d4 < 33 * 2 ^ 50"
    using u'(1-5) unfolding u'(6-10) .
  define e1 where "e1 = d1 + drop_bit 26 d0"
  define e2 where "e2 = d2 + drop_bit 26 e1"
  define e3 where "e3 = d3 + drop_bit 26 e2"
  define e4 where "e4 = d4 + drop_bit 26 e3"
  have d0: "unat d0 < 2 ^ 60 + 2 ^ 35" using db(1) by simp
  note e1 = carry_step [OF db(2) order_refl d0, folded e1_def]
  note e2 = carry_step [OF db(3) order_refl e1(2), folded e2_def]
  note e3 = carry_step [OF db(4) order_refl e2(2), folded e3_def]
  have "33 * 2 ^ 50 \<le> (2 ^ 60 :: nat)" by simp
  note e4 = carry_step [OF db(5) this e3(2), folded e4_def]
  define c where "c = unat e4 div 2 ^ 26"
  have cb: "c \<le> 33 * 2 ^ 24 + 2 ^ 9"
    using e4(2) by (simp add: c_def)
  have "unat (ucast (drop_bit 26 e4) :: u32) = c"
    using cb by (simp only: unat_ucast unat_drop_bit flip: c_def) simp
  then have c: "unat (ucast (drop_bit 26 e4) * 5 :: u32) = c * 5"
    using cb by (simp add: unat_word_ariths)
  have res: "poly1305_mul r h = (ucast (d0 AND 0x03FFFFFF) + ucast (drop_bit 26 e4) * 5,
      ucast (e1 AND 0x03FFFFFF), ucast (e2 AND 0x03FFFFFF), ucast (e3 AND 0x03FFFFFF),
      ucast (e4 AND 0x03FFFFFF))"
    unfolding hh rr poly1305_mul_def prod.case Let_def e1_def e2_def e3_def e4_def
      d0_def d1_def d2_def d3_def d4_def ..
  have "x + c * 5 < 44 * 2 ^ 26" if "x < 2 ^ 26" for x
    using cb that by simp
  from this [of "unat d0 mod 2 ^ 26"] have "unat d0 mod 2 ^ 26 + c * 5 < 44 * 2 ^ 26" by simp
  then have low: "unat (ucast (d0 AND 0x03FFFFFF) + ucast (drop_bit 26 e4) * 5 :: u32)
      = unat d0 mod 2 ^ 26 + c * 5" "unat d0 mod 2 ^ 26 + c * 5 < 44 * 2 ^ 26"
    by (simp_all only: unat_word_ariths(1) limb_of_d c) simp
  show "limbs_ok (poly1305_mul r h)"
    unfolding limbs_ok_def res limbs_bound.simps limb_of_d low(1) using low(2) by simp
  have p: "(2 :: nat) ^ 130 = poly_p + 5" by (simp add: poly_p_def)
  have "limbs_val (poly1305_mul r h) + poly_p * c
      = unat d0 + 2 ^ 26 * unat d1 + 2 ^ 52 * unat d2 + 2 ^ 78 * unat d3 + 2 ^ 104 * unat d4"
    unfolding res limbs_val.simps limb_of_d low(1)
      carry_chain [OF e1(1) e2(1) e3(1) e4(1)] p c_def [symmetric]
    by (simp only: distrib_right)
  then have "limbs_val (poly1305_mul r h) mod poly_p
      = (unat d0 + 2 ^ 26 * unat d1 + 2 ^ 52 * unat d2 + 2 ^ 78 * unat d3 + 2 ^ 104 * unat d4) mod poly_p"
    by (metis mod_mult_self2)
  also have "\<dots> = limbs_val h * limbs_val r mod poly_p"
    unfolding u'(6-10) hh rr limbs_val.simps by (rule limb_product_mod)
  finally show "limbs_val (poly1305_mul r h) mod poly_p = limbs_val h * limbs_val r mod poly_p" .
qed

section \<open>The whole authenticator\<close>

text \<open>Clamping the key.\<close>

lemma LOAD32_LE_take: "4 \<le> n \<Longrightarrow> LOAD32_LE (drop k (take (k + n) p)) = LOAD32_LE (drop k p)"
  by (simp add: LOAD32_LE_def drop_take)

lemma and_split:
  fixes a b c d :: nat
  assumes "a < 2 ^ n" and "c < 2 ^ n"
  shows "(a + 2 ^ n * b) AND (c + 2 ^ n * d) = (a AND c) + 2 ^ n * (b AND d)"
proof -
  let ?x = "a + 2 ^ n * b" and ?y = "c + 2 ^ n * d"
  have low: "take_bit n ?x = a" "take_bit n ?y = c"
    using assms by (simp_all add: take_bit_eq_mod)
  have high: "drop_bit n ?x = b" "drop_bit n ?y = d"
    using assms by (simp_all add: drop_bit_eq_div)
  have "?x AND ?y = take_bit n (?x AND ?y) + 2 ^ n * drop_bit n (?x AND ?y)"
    by (simp only: take_bit_eq_mod drop_bit_eq_div mod_mult_div_eq)
  then show ?thesis
    by (simp only: take_bit_and drop_bit_and low high)
qed

lemma nest_limbs:
  "a + 2 ^ 26 * b + 2 ^ 52 * c + 2 ^ 78 * d + 2 ^ 104 * e
     = a + 2 ^ 26 * (b + 2 ^ 26 * (c + 2 ^ 26 * (d + 2 ^ 26 * e)))" for a b c d e :: nat
  by (simp add: algebra_simps)

lemma and_limbs:
  fixes a b c d e v w x y z :: nat
  assumes "a < 2 ^ 26" "b < 2 ^ 26" "c < 2 ^ 26" "d < 2 ^ 26"
    and "v < 2 ^ 26" "w < 2 ^ 26" "x < 2 ^ 26" "y < 2 ^ 26"
  shows "(a AND v) + 2 ^ 26 * (b AND w) + 2 ^ 52 * (c AND x) + 2 ^ 78 * (d AND y) + 2 ^ 104 * (e AND z)
    = (a + 2 ^ 26 * b + 2 ^ 52 * c + 2 ^ 78 * d + 2 ^ 104 * e)
      AND (v + 2 ^ 26 * w + 2 ^ 52 * x + 2 ^ 78 * y + 2 ^ 104 * z)"
  by (simp only: nest_limbs and_split [OF assms(1,5)] and_split [OF assms(2,6)]
      and_split [OF assms(3,7)] and_split [OF assms(4,8)])

lemma load_clamped:
  assumes "k + 4 \<le> length p" and "c + 26 \<le> 32" and "0x03FFFFFF AND m = m"
  shows "unat (drop_bit c (LOAD32_LE (drop k p)) AND m)
    = (le_num p div 2 ^ (8 * k + c) mod 2 ^ 26) AND unat m"
proof -
  have "drop_bit c (LOAD32_LE (drop k p)) AND m
      = (drop_bit c (LOAD32_LE (drop k p)) AND 0x03FFFFFF) AND m"
    using assms(3) by (simp add: and.assoc)
  then show ?thesis
    by (simp only: unsigned_and_eq load_limb [OF assms(1,2), symmetric])
qed

lemma unat_and_less: "unat m < n \<Longrightarrow> unat (x AND m) < n"
  using word_and_le1 [of x m] by (simp add: word_le_nat_alt)

lemma poly1305_r_correct:
  assumes "16 \<le> length key"
  shows "limbs_val (poly1305_r key) = poly_clamp key"
    and "limbs_bound (2 ^ 26) (2 ^ 26) (2 ^ 20) (poly1305_r key)"
proof -
  let ?p = "take 16 key"
  let ?k = "le_num ?p"
  have len: "length ?p = 16" using assms by simp
  have p: "LOAD32_LE key = LOAD32_LE (drop 0 ?p)" "LOAD32_LE (drop 3 key) = LOAD32_LE (drop 3 ?p)"
      "LOAD32_LE (drop 6 key) = LOAD32_LE (drop 6 ?p)" "LOAD32_LE (drop 9 key) = LOAD32_LE (drop 9 ?p)"
      "LOAD32_LE (drop 12 key) = LOAD32_LE (drop 12 ?p)"
    using LOAD32_LE_take [of 16 0 key] LOAD32_LE_take [of 13 3 key] LOAD32_LE_take [of 10 6 key]
      LOAD32_LE_take [of 7 9 key] LOAD32_LE_take [of 4 12 key] by simp_all
  have l: "unat (LOAD32_LE key AND 0x03FFFFFF) = ?k mod 2 ^ 26 AND 0x03FFFFFF"
    "unat (drop_bit 2 (LOAD32_LE (drop 3 key)) AND 0x03FFFF03) = ?k div 2 ^ 26 mod 2 ^ 26 AND 0x03FFFF03"
    "unat (drop_bit 4 (LOAD32_LE (drop 6 key)) AND 0x03FFC0FF) = ?k div 2 ^ 52 mod 2 ^ 26 AND 0x03FFC0FF"
    "unat (drop_bit 6 (LOAD32_LE (drop 9 key)) AND 0x03F03FFF) = ?k div 2 ^ 78 mod 2 ^ 26 AND 0x03F03FFF"
    "unat (drop_bit 8 (LOAD32_LE (drop 12 key)) AND 0x000FFFFF) = ?k div 2 ^ 104 AND 0x000FFFFF"
    using load_clamped [of 0 ?p 0 "0x03FFFFFF"] load_clamped [of 3 ?p 2 "0x03FFFF03"]
      load_clamped [of 6 ?p 4 "0x03FFC0FF"] load_clamped [of 9 ?p 6 "0x03F03FFF"]
      load_limb_top [OF len] len by (simp_all add: p unsigned_and_eq)
  have "limbs_val (poly1305_r key) = (?k mod 2 ^ 26 + 2 ^ 26 * (?k div 2 ^ 26 mod 2 ^ 26)
      + 2 ^ 52 * (?k div 2 ^ 52 mod 2 ^ 26) + 2 ^ 78 * (?k div 2 ^ 78 mod 2 ^ 26) + 2 ^ 104 * (?k div 2 ^ 104))
    AND (0x03FFFFFF + 2 ^ 26 * 0x03FFFF03 + 2 ^ 52 * 0x03FFC0FF + 2 ^ 78 * 0x03F03FFF + 2 ^ 104 * 0x000FFFFF)"
    unfolding poly1305_r_def limbs_val.simps l by (rule and_limbs) (simp_all del: One_nat_def)
  then show "limbs_val (poly1305_r key) = poly_clamp key"
    unfolding split_limbs [symmetric] poly_clamp_def by simp
  show "limbs_bound (2 ^ 26) (2 ^ 26) (2 ^ 20) (poly1305_r key)"
    unfolding poly1305_r_def limbs_bound.simps by (intro conjI unat_and_less) simp_all
qed

lemma poly1305_block_correct:
  assumes "length msg = 16" and "limbs_bound (44 * 2 ^ 26) (2 ^ 26) (2 ^ 26 + 2 ^ 24) h"
    and "limbs_bound (2 ^ 26) (2 ^ 26) (2 ^ 20) r"
  shows "limbs_val (poly1305_block r h msg) mod poly_p
      = (limbs_val h + le_num msg) * limbs_val r mod poly_p"
    and "limbs_ok (poly1305_block r h msg)"
  using poly1305_mul_correct [OF poly1305_add_correct(2) [OF assms(1,2)] assms(3)]
  by (simp_all only: poly1305_block_def poly1305_add_correct(1) [OF assms(1,2)])

lemma poly1305_block_take: "length msg \<ge> 16 \<Longrightarrow> poly1305_block r h msg = poly1305_block r h (take 16 msg)"
  using LOAD32_LE_take [of 16 0 msg] LOAD32_LE_take [of 13 3 msg] LOAD32_LE_take [of 10 6 msg]
      LOAD32_LE_take [of 7 9 msg] LOAD32_LE_take [of 4 12 msg]
  by (simp add: poly1305_block_def poly1305_add_def)

lemma limbs_hibit:
  assumes "limbs_ok (h0, h1, h2, h3, h4)"
  shows "limbs_val (h0, h1, h2, h3, h4 + 0x01000000) = limbs_val (h0, h1, h2, h3, h4) + 256 ^ 16"
    and "limbs_bound (44 * 2 ^ 26) (2 ^ 26) (2 ^ 26 + 2 ^ 24) (h0, h1, h2, h3, h4 + 0x01000000)"
proof -
  have "unat (h4 + 0x01000000) = unat h4 + 2 ^ 24"
    using assms by (simp add: limbs_ok_def unat_word_ariths)
  then show "limbs_val (h0, h1, h2, h3, h4 + 0x01000000) = limbs_val (h0, h1, h2, h3, h4) + 256 ^ 16"
    and "limbs_bound (44 * 2 ^ 26) (2 ^ 26) (2 ^ 26 + 2 ^ 24) (h0, h1, h2, h3, h4 + 0x01000000)"
    using assms by (simp_all add: limbs_ok_def)
qed

lemma limbs_ok_weaken:
  "limbs_ok h \<Longrightarrow> limbs_bound (44 * 2 ^ 26) (2 ^ 26) (2 ^ 26 + 2 ^ 24) h"
  by (cases h) (simp add: limbs_ok_def)

lemma mod_add_mult_cong:
  "v mod p = a mod p \<Longrightarrow> (v + c) * r mod p = (a + c) * r mod p" for v a p c r :: nat
  by (intro mod_mult_cong mod_add_cong) simp_all

lemma poly1305_loop_correct:
  assumes "limbs_bound (2 ^ 26) (2 ^ 26) (2 ^ 20) r" and "limbs_ok h"
    and "limbs_val h mod poly_p = a mod poly_p"
  shows "limbs_ok (poly1305_loop r h msg)
    \<and> limbs_val (poly1305_loop r h msg) mod poly_p = poly_acc (limbs_val r) a msg mod poly_p"
  using assms
proof (induction r h msg arbitrary: a rule: poly1305_loop.induct)
  case (1 r h msg)
  obtain h0 h1 h2 h3 h4 where h: "h = (h0, h1, h2, h3, h4)" by (cases h) auto
  consider (full) "16 \<le> length msg" | (rest) "length msg < 16" "msg \<noteq> []" | (empty) "msg = []"
    by force
  then show ?case
  proof cases
    case full
    let ?h = "(h0, h1, h2, h3, h4 + 0x01000000)"
    let ?b = "poly1305_block r ?h msg"
    note ok = "1.prems"(2) [unfolded h]
    have len: "length (take 16 msg) = 16" using full by simp
    note blk = poly1305_block_correct [OF len limbs_hibit(2) [OF ok] "1.prems"(1),
        folded poly1305_block_take [OF full]]
    have "limbs_val ?b mod poly_p
        = (limbs_val h + (256 ^ 16 + le_num (take 16 msg))) * limbs_val r mod poly_p"
      by (simp only: blk limbs_hibit(1) [OF ok] h add.assoc)
    also have "\<dots> = (a + (256 ^ 16 + le_num (take 16 msg))) * limbs_val r mod poly_p"
      by (rule mod_add_mult_cong) (rule "1.prems"(3))
    finally have "limbs_val ?b mod poly_p
        = ((a + le_num (take 16 msg) + 256 ^ 16) * limbs_val r mod poly_p) mod poly_p"
      by (simp only: mod_mod_trivial add.assoc add.commute [of "256 ^ 16"])
    from "1.IH"(1) [OF full h [symmetric] refl refl refl "1.prems"(1) blk(2) this]
    moreover have "poly1305_loop r h msg = poly1305_loop r ?b (drop 16 msg)"
      using full by (subst poly1305_loop.simps) (simp add: h)
    moreover have "poly_acc (limbs_val r) a msg = poly_acc (limbs_val r)
        ((a + le_num (take 16 msg) + 256 ^ 16) * limbs_val r mod poly_p) (drop 16 msg)"
      using full by (subst poly_acc.simps) (auto simp: min_absorb1)
    ultimately show ?thesis by (simp only:)
  next
    case rest
    let ?m = "msg @ [1] @ replicate (15 - length msg) 0"
    have len: "length ?m = 16" using rest by simp
    have num: "le_num ?m = le_num msg + 256 ^ length msg" by (simp add: le_num_append)
    note blk = poly1305_block_correct [OF len limbs_ok_weaken [OF "1.prems"(2)] "1.prems"(1)]
    have "(limbs_val h + le_num ?m) * limbs_val r mod poly_p
       = (a + le_num msg + 256 ^ length msg) * limbs_val r mod poly_p"
      unfolding num add.assoc by (rule mod_add_mult_cong) (rule "1.prems"(3))
    with blk rest show ?thesis
      by (simp add: poly1305_loop.simps [of r h msg] poly_acc.simps [of _ a msg] poly_acc.simps [of _ _ "[]"] min_absorb2)
  next
    case empty
    with "1.prems" show ?thesis
      by (simp add: poly1305_loop.simps [of r h "[]"] poly_acc.simps [of _ a "[]"])
  qed
qed

lemma poly_acc_less: "a < poly_p \<Longrightarrow> poly_acc r a msg < poly_p"
  by (induction r a msg rule: poly_acc.induct) (subst poly_acc.simps, simp add: poly_p_def)

text \<open>The final reduction and the addition of the second half of the key.\<close>

lemma add_carries_aux:
  fixes B :: nat
  assumes "x0 = m0 + B * q0" and "x1 + q0 = m1 + B * q1" and "x2 + q1 = m2 + B * q2"
    and "x3 + q2 = m3 + B * q3" and "B2 = B ^ 2" and "B3 = B ^ 3" and "B4 = B ^ 4"
  shows "x0 + B * x1 + B2 * x2 + B3 * x3 = m0 + B * m1 + B2 * m2 + B3 * m3 + B4 * q3"
  using assms by algebra

lemma add_carries:
  fixes x0 x1 x2 x3 :: nat
  assumes "e1 = x1 + x0 div 2 ^ 32" and "e2 = x2 + e1 div 2 ^ 32" and "e3 = x3 + e2 div 2 ^ 32"
  shows "x0 mod 2 ^ 32 + 2 ^ 32 * (e1 mod 2 ^ 32) + 2 ^ 64 * (e2 mod 2 ^ 32) + 2 ^ 96 * (e3 mod 2 ^ 32)
    = (x0 + 2 ^ 32 * x1 + 2 ^ 64 * x2 + 2 ^ 96 * x3) mod 2 ^ 128" (is "?m = _")
proof -
  have d: "x = x mod 2 ^ 32 + 2 ^ 32 * (x div 2 ^ 32)" for x :: nat
    by (rule mod_mult_div_eq [symmetric])
  have "x0 + 2 ^ 32 * x1 + 2 ^ 64 * x2 + 2 ^ 96 * x3 = ?m + 2 ^ 128 * (e3 div 2 ^ 32)"
    by (rule add_carries_aux [where ?q0.0 = "x0 div 2 ^ 32" and ?q1.0 = "e1 div 2 ^ 32"
          and ?q2.0 = "e2 div 2 ^ 32"])
      (simp_all only: d [symmetric] assms [symmetric] flip: power_mult, simp_all)
  moreover have "a + 2 ^ 32 * b + 2 ^ 64 * c + 2 ^ 96 * d < 2 ^ 128"
    if "a < 2 ^ 32" "b < 2 ^ 32" "c < 2 ^ 32" "d < 2 ^ 32" for a b c d :: nat
    using that by simp
  then have "?m < 2 ^ 128" by simp
  ultimately show ?thesis by (metis mod_less mod_mult_self2)
qed

text \<open>The carry out of the top limb says whether the value has reached the modulus.\<close>

lemma top_carry:
  fixes a b c d e :: nat
  shows "(e + (d + (c + (b + (a + 5) div 2 ^ 26) div 2 ^ 26) div 2 ^ 26) div 2 ^ 26) div 2 ^ 26
    = (a + 2 ^ 26 * b + 2 ^ 52 * c + 2 ^ 78 * d + 2 ^ 104 * e + 5) div 2 ^ 130"
proof -
  have s: "y + x div 2 ^ n = (x + 2 ^ n * y) div 2 ^ n" for x y n :: nat by simp
  have t: "(y + x div 2 ^ m) div 2 ^ n = (x + 2 ^ m * y) div 2 ^ (m + n)" for x y m n :: nat
    by (simp only: s div_mult2_eq [symmetric] power_add)
  have n: "26 + 26 = (52 :: nat)" "52 + 26 = (78 :: nat)" "78 + 26 = (104 :: nat)" "104 + 26 = (130 :: nat)"
    by simp_all
  show ?thesis unfolding t n by (simp only: add_ac)
qed

lemma reduce_once:
  fixes v q :: nat
  assumes "v + 10 < 2 * 2 ^ 130" and "q = (v + 5) div 2 ^ 130"
  shows "(v + 5 * q) mod 2 ^ 128 = v mod poly_p mod 2 ^ 128" and "q \<le> 1"
proof -
  have q: "q = (if v < poly_p then 0 else 1)"
    using assms by (auto simp: poly_p_def div_nat_eqI)
  then show "q \<le> 1" by simp
  show "(v + 5 * q) mod 2 ^ 128 = v mod poly_p mod 2 ^ 128"
  proof (cases "v < poly_p")
    case True
    with q show ?thesis by simp
  next
    case False
    have "v < poly_p + poly_p"
      using assms(1) by (simp add: poly_p_def)
    then have "v mod poly_p = v - poly_p"
      using False by (simp add: le_mod_geq)
    then have "v + 5 * q = v mod poly_p + 2 ^ 128 * 4"
      using False q by (simp add: poly_p_def)
    then show ?thesis by (metis mod_mult_self2)
  qed
qed

lemma shift_split:
  fixes x :: u32
  assumes "a + b = 32"
  shows "unat (push_bit a x) + 2 ^ 32 * unat (drop_bit b x) = 2 ^ a * unat x"
proof -
  have p: "(2 :: nat) ^ 32 = 2 ^ a * 2 ^ b"
    using assms by (simp flip: power_add)
  have "unat (push_bit a x) = (2 ^ a * unat x) mod 2 ^ 32"
    by (simp add: unat_push_bit)
  moreover have "unat (drop_bit b x) = (2 ^ a * unat x) div 2 ^ 32"
    by (simp only: unat_drop_bit p) simp
  ultimately show ?thesis by (simp only: mod_mult_div_eq)
qed

lemma unat_add4:
  fixes a b c d :: u64
  assumes "unat a + unat b + unat c + unat d < 2 ^ 64"
  shows "unat (a + b + c + d) = unat a + unat b + unat c + unat d"
  using assms by (simp add: unat_word_ariths mod_simps)

lemma le_num_stores:
  "le_num (STORE32_LE (ucast d1) @ STORE32_LE (ucast d2) @ STORE32_LE (ucast d3) @ STORE32_LE (ucast d4))
    = unat d1 mod 2 ^ 32 + 2 ^ 32 * (unat d2 mod 2 ^ 32) + 2 ^ 64 * (unat d3 mod 2 ^ 32)
      + 2 ^ 96 * (unat d4 mod 2 ^ 32)" for d1 d2 d3 d4 :: u64
  by (simp add: le_num_append le_num_STORE32_LE unat_ucast)

lemma le_num_loads:
  assumes "32 \<le> length key"
  shows "unat (LOAD32_LE (drop 16 key)) + 2 ^ 32 * unat (LOAD32_LE (drop 20 key))
    + 2 ^ 64 * unat (LOAD32_LE (drop 24 key)) + 2 ^ 96 * unat (LOAD32_LE (drop 28 key))
    = le_num (take 16 (drop 16 key))"
proof -
  have "take 16 (drop 16 key) = take 4 (drop 16 key) @ take 4 (drop 20 key) @ take 4 (drop 24 key) @ take 4 (drop 28 key)"
    using take_add [of 4 12 "drop 16 key"] take_add [of 4 8 "drop 20 key"] take_add [of 4 4 "drop 24 key"]
    by simp
  also have "\<dots> = STORE32_LE (LOAD32_LE (drop 16 key)) @ STORE32_LE (LOAD32_LE (drop 20 key))
      @ STORE32_LE (LOAD32_LE (drop 24 key)) @ STORE32_LE (LOAD32_LE (drop 28 key))"
    using assms by (simp add: STORE32_LE_LOAD32_LE)
  finally show ?thesis by (simp add: le_num_append le_num_STORE32_LE)
qed

lemma unat_add_less: "unat x + unat y < 2 ^ 32 \<Longrightarrow> unat (x + y) = unat x + unat y" for x y :: u32
  by (simp add: unat_word_ariths)

lemma unat_ucast_up: "unat (ucast x :: u64) = unat x" for x :: u32
proof -
  have "unat x < 2 ^ 64" using unat_bound [of x] by simp
  then show ?thesis by (simp add: unat_ucast)
qed

lemma poly1305_top_carry:
  assumes "limbs_ok (h0, h1, h2, h3, h4)"
  shows "unat (drop_bit 26 (h4 + drop_bit 26 (h3 + drop_bit 26 (h2 + drop_bit 26 (h1 + drop_bit 26 (h0 + 5))))))
    = (limbs_val (h0, h1, h2, h3, h4) + 5) div 2 ^ 130"
proof -
  have b: "unat h0 < 44 * 2 ^ 26" "unat h1 < 2 ^ 26" "unat h2 < 2 ^ 26" "unat h3 < 2 ^ 26" "unat h4 < 2 ^ 26"
    using assms by (simp_all add: limbs_ok_def)
  have s: "unat (x + drop_bit 26 y) = unat x + unat y div 2 ^ 26"
    if "unat x < 2 ^ 26" for x y :: u32
  proof -
    have "unat y div 2 ^ 26 < 2 ^ 6" using unat_bound [of y] by (simp add: less_mult_imp_div_less)
    with that show ?thesis by (simp add: unat_word_ariths unat_drop_bit)
  qed
  have "unat (h0 + 5) = unat h0 + 5" using b(1) by (simp add: unat_word_ariths)
  then show ?thesis
    unfolding unat_drop_bit [of _ "h4 + _"] s [OF b(5)] s [OF b(4)] s [OF b(3)] s [OF b(2)] limbs_val.simps
    by (simp only: top_carry)
qed

lemma poly1305_finish_correct:
  assumes "limbs_ok h" and "32 \<le> length key"
  shows "le_num (poly1305_finish h key)
    = (limbs_val h mod poly_p + le_num (take 16 (drop 16 key))) mod 2 ^ 128"
proof -
  obtain h0 h1 h2 h3 h4 where h: "h = (h0, h1, h2, h3, h4)" by (cases h) auto
  have b: "unat h0 < 44 * 2 ^ 26" "unat h1 < 2 ^ 26" "unat h2 < 2 ^ 26" "unat h3 < 2 ^ 26" "unat h4 < 2 ^ 26"
    using assms(1) by (simp_all add: limbs_ok_def h)
  define q where "q = drop_bit 26 (h4 + drop_bit 26 (h3 + drop_bit 26 (h2 + drop_bit 26 (h1 + drop_bit 26 (h0 + 5)))))"
  have q: "unat q = (limbs_val h + 5) div 2 ^ 130"
    using poly1305_top_carry assms(1) by (simp only: q_def h)
  have "limbs_val h + 10 < 2 * 2 ^ 130"
    using b by (simp add: h)
  note red = reduce_once [OF this q]
  define g0 where "g0 = h0 + q * 5"
  have g0: "unat g0 = unat h0 + 5 * unat q"
    using b(1) red(2) by (simp add: g0_def unat_word_ariths)
  let ?s = "\<lambda>k. LOAD32_LE (drop k key)"
  define d1 d2 d3 d4 :: u64 where
    "d1 = ucast (?s 16) + ucast g0 + ucast (push_bit 26 h1)" and
    "d2 = ucast (?s 20) + ucast (drop_bit 6 h1) + ucast (push_bit 20 h2) + drop_bit 32 d1" and
    "d3 = ucast (?s 24) + ucast (drop_bit 12 h2) + ucast (push_bit 14 h3) + drop_bit 32 d2" and
    "d4 = ucast (?s 28) + ucast (drop_bit 18 h3) + ucast (push_bit 8 h4) + drop_bit 32 d3"
  have res: "poly1305_finish h key = STORE32_LE (ucast d1) @ STORE32_LE (ucast d2)
      @ STORE32_LE (ucast d3) @ STORE32_LE (ucast d4)"
    unfolding poly1305_finish_def h prod.case Let_def d1_def d2_def d3_def d4_def g0_def q_def ..
  have sum3: "unat (ucast x + ucast y + ucast z + drop_bit 32 w :: u64) = (unat x + unat y + unat z) + unat w div 2 ^ 32"
    for x y z :: u32 and w :: u64
  proof -
    have "unat x < 2 ^ 32" "unat y < 2 ^ 32" "unat z < 2 ^ 32"
      using unat_bound [of x] unat_bound [of y] unat_bound [of z] by simp_all
    moreover have "unat w div 2 ^ 32 < 2 ^ 32"
      using unat_bound [of w] by (simp add: less_mult_imp_div_less)
    ultimately show ?thesis
      by (subst unat_add4) (simp_all add: unat_ucast_up unat_drop_bit)
  qed
  have d1: "unat d1 = unat (?s 16) + unat g0 + unat (push_bit 26 h1)"
    using sum3 [of "?s 16" g0 "push_bit 26 h1" 0] by (simp add: d1_def)
  have "le_num (poly1305_finish h key) = (unat d1
      + 2 ^ 32 * (unat (?s 20) + unat (drop_bit 6 h1) + unat (push_bit 20 h2))
      + 2 ^ 64 * (unat (?s 24) + unat (drop_bit 12 h2) + unat (push_bit 14 h3))
      + 2 ^ 96 * (unat (?s 28) + unat (drop_bit 18 h3) + unat (push_bit 8 h4))) mod 2 ^ 128"
    unfolding res le_num_stores
    by (rule add_carries) (simp_all only: d2_def d3_def d4_def sum3)
  also have "\<dots> = (le_num (take 16 (drop 16 key)) + (limbs_val h + 5 * unat q)) mod 2 ^ 128"
  proof -
    let ?x = "unat d1
      + 2 ^ 32 * (unat (?s 20) + unat (drop_bit 6 h1) + unat (push_bit 20 h2))
      + 2 ^ 64 * (unat (?s 24) + unat (drop_bit 12 h2) + unat (push_bit 14 h3))
      + 2 ^ 96 * (unat (?s 28) + unat (drop_bit 18 h3) + unat (push_bit 8 h4))"
    have "?x + 2 ^ 128 * unat (drop_bit 24 h4)
        = le_num (take 16 (drop 16 key)) + (limbs_val h + 5 * unat q)"
      using shift_split [of 26 6 h1] shift_split [of 20 12 h2] shift_split [of 14 18 h3] shift_split [of 8 24 h4]
      unfolding d1 g0 le_num_loads [OF assms(2), symmetric] h limbs_val.simps by simp
    then show ?thesis by (metis mod_mult_self2)
  qed
  also have "\<dots> = (le_num (take 16 (drop 16 key)) + limbs_val h mod poly_p) mod 2 ^ 128"
    by (intro mod_add_cong refl red(1))
  finally show ?thesis by (simp only: add.commute)
qed

text \<open>
  C2. For a 32-byte key, \<^verbatim>\<open>poly1305\<close> computes the authenticator of RFC 8439: the
  little-endian number of the tag is the message polynomial, evaluated at the clamped first
  half of the key modulo \<open>2 ^ 130 - 5\<close>, plus the second half, modulo \<open>2 ^ 128\<close>. In
  particular the shortened carry chain of the code loses nothing for any message length.
\<close>

theorem poly1305_correct:
  assumes "length key = 32"
  shows "le_num (poly1305 msg key) = poly1305_spec msg key \<and> length (poly1305 msg key) = 16"
proof -
  have len: "16 \<le> length key" "32 \<le> length key" using assms by simp_all
  have zero: "limbs_ok (0, 0, 0, 0, 0)" "limbs_val (0, 0, 0, 0, 0) mod poly_p = 0 mod poly_p"
    by (simp_all add: limbs_ok_def)
  note loop = poly1305_loop_correct [OF poly1305_r_correct(2) [OF len(1)] zero, of msg]
  have "poly_acc (poly_clamp key) 0 msg < poly_p"
    by (rule poly_acc_less) (simp add: poly_p_def)
  then have "poly_acc (poly_clamp key) 0 msg mod poly_p = poly_acc (poly_clamp key) 0 msg"
    by simp
  with loop have "limbs_val (poly1305_loop (poly1305_r key) (0, 0, 0, 0, 0) msg) mod poly_p
      = poly_acc (poly_clamp key) 0 msg"
    by (simp only: poly1305_r_correct(1) [OF len(1)])
  with poly1305_finish_correct [OF conjunct1 [OF loop] len(2)] show ?thesis
    by (simp only: poly1305_def poly1305_spec_def length_poly1305 [unfolded poly1305_def])
qed

text \<open>The test vector of RFC 8439, section 2.5.2.\<close>

definition rfc8439_poly_key :: bytes where
  "rfc8439_poly_key =
     [0x85, 0xd6, 0xbe, 0x78, 0x57, 0x55, 0x6d, 0x33, 0x7f, 0x44, 0x52, 0xfe, 0x42, 0xd5, 0x06, 0xa8,
      0x01, 0x03, 0x80, 0x8a, 0xfb, 0x0d, 0xb2, 0xfd, 0x4a, 0xbf, 0xf6, 0xaf, 0x41, 0x49, 0xf5, 0x1b]"

definition rfc8439_poly_msg :: bytes where
  "rfc8439_poly_msg = 
     [0x43, 0x72, 0x79, 0x70, 0x74, 0x6f, 0x67, 0x72, 0x61, 0x70, 0x68, 0x69, 0x63, 0x20, 0x46, 0x6f,
      0x72, 0x75, 0x6d, 0x20, 0x52, 0x65, 0x73, 0x65, 0x61, 0x72, 0x63, 0x68, 0x20, 0x47, 0x72, 0x6f,
      0x75, 0x70]"

lemma poly1305_spec_rfc8439:
  "poly1305_spec rfc8439_poly_msg rfc8439_poly_key = 0xa927010caf8b2bc2c6365130c11d06a8"
  unfolding poly1305_spec_def poly_clamp_def rfc8439_poly_key_def rfc8439_poly_msg_def
  by (simp add: poly_acc.simps poly_p_def)

theorem poly1305_correct_witness:
  "length rfc8439_poly_key = 32
   \<and> le_num (poly1305 rfc8439_poly_msg rfc8439_poly_key) = 0xa927010caf8b2bc2c6365130c11d06a8"
  using poly1305_correct [of rfc8439_poly_key rfc8439_poly_msg]
  by (simp add: poly1305_spec_rfc8439) (simp add: rfc8439_poly_key_def)

end
