(* ===== verification/Hash_Common.thy ===== *)
theory Hash_Common
  imports MC_Prelude
begin

text \<open>
  What the buffered hash functions of the repository (MD5, SHA-1, SHA-2) share: folding a
  compression function over the full blocks of a message, and the invariant that ties a
  context (chaining value and partly filled buffer) to the message absorbed so far.
\<close>

function md_fold :: "('h \<Rightarrow> bytes \<Rightarrow> 'h) \<Rightarrow> nat \<Rightarrow> 'h \<Rightarrow> bytes \<Rightarrow> 'h" where
  "md_fold f B h m =
     (if 0 < B \<and> B \<le> length m then md_fold f B (f h (take B m)) (drop B m) else h)"
  by pat_completeness auto
termination by (relation "measure (\<lambda>(f, B, h, m). length m)") auto

declare md_fold.simps [simp del]

definition md_rest :: "nat \<Rightarrow> bytes \<Rightarrow> bytes" where
  "md_rest B m = drop (length m - length m mod B) m"

lemma length_md_rest [bytes_len, simp]: "length (md_rest B m) = length m mod B"
  by (simp add: md_rest_def)

lemma md_fold_short [simp]: "length m < B \<Longrightarrow> md_fold f B h m = h"
  by (simp add: md_fold.simps)

lemma md_fold_block: "length b = B \<Longrightarrow> 0 < B \<Longrightarrow> md_fold f B h (b @ m) = md_fold f B (f h b) m"
  by (subst md_fold.simps) simp

lemma md_fold_one: "length b = B \<Longrightarrow> 0 < B \<Longrightarrow> md_fold f B h b = f h b"
  using md_fold_block [of b B f h "[]"] by simp

lemma md_fold_append:
  "0 < B \<Longrightarrow> B dvd length x \<Longrightarrow> md_fold f B h (x @ y) = md_fold f B (md_fold f B h x) y"
proof (induction f B h x rule: md_fold.induct)
  case (1 f B h m)
  show ?case
  proof (cases "B \<le> length m")
    case True
    define p q where "p = take B m" and "q = drop B m"
    have m: "m = p @ q" "length p = B" using True by (simp_all add: p_def q_def)
    have "B dvd length q" using "1.prems"(2) by (simp add: q_def dvd_diff_nat)
    then have "md_fold f B (f h p) (q @ y) = md_fold f B (md_fold f B (f h p) q) y"
      using "1.IH" "1.prems"(1) True by (simp add: p_def q_def)
    with m "1.prems"(1) show ?thesis by (simp add: md_fold_block)
  next
    case False
    with "1.prems" have "m = []" by (cases m) (auto dest: dvd_imp_le)
    then show ?thesis using "1.prems"(1) by simp
  qed
qed

lemma md_split: "m = take (length m - length m mod B) m @ md_rest B m"
  by (simp add: md_rest_def)

lemma dvd_full_part: "B dvd length m - length m mod B"
  by (simp add: minus_mod_eq_mult_div)

lemma md_fold_full_part:
  "0 < B \<Longrightarrow> md_fold f B h (take (length m - length m mod B) m) = md_fold f B h m"
  by (subst (2) md_split [of m B]) (simp only: md_fold_append length_take dvd_full_part
      min.absorb2 diff_le_self md_fold_short length_md_rest mod_less_divisor)

text \<open>Absorbing \<open>d\<close> after \<open>m\<close> continues from the chaining value with the buffered rest.\<close>

lemma md_fold_continue:
  "0 < B \<Longrightarrow> md_fold f B h (m @ d) = md_fold f B (md_fold f B h m) (md_rest B m @ d)"
  by (subst md_split [of m B])
    (simp only: append_assoc md_fold_append length_take dvd_full_part min.absorb2 diff_le_self
      md_fold_full_part)

lemma md_rest_append: "0 < B \<Longrightarrow> B dvd length x \<Longrightarrow> md_rest B (x @ y) = md_rest B y"
proof -
  assume "B dvd length x"
  then have "(length x + length y) mod B = length y mod B"
    by (metis dvd_imp_mod_0 mod_add_left_eq add_0)
  moreover have "length x + length y - length y mod B = length x + (length y - length y mod B)"
    by (rule diff_add_assoc [OF mod_less_eq_dividend])
  moreover have "drop (length x + (length y - length y mod B)) (x @ y) = drop (length y - length y mod B) y"
    by (simp only: drop_drop [symmetric] add.commute [of "length x"]) simp
  ultimately show ?thesis by (simp only: md_rest_def length_append)
qed

lemma md_rest_continue:
  assumes "0 < B"
  shows "md_rest B (m @ d) = md_rest B (md_rest B m @ d)"
proof -
  let ?k = "length m - length m mod B"
  have "B dvd length (take ?k m)" using dvd_full_part [of B m] by simp
  then have "md_rest B (take ?k m @ md_rest B m @ d) = md_rest B (md_rest B m @ d)"
    by (rule md_rest_append [OF assms])
  then show ?thesis by (metis append_assoc md_split)
qed

lemma md_rest_short: "length m < B \<Longrightarrow> md_rest B m = m"
  by (simp add: md_rest_def)

lemma md_fold_cong_inv:
  assumes step: "\<And>h b. P h \<Longrightarrow> f h b = g h b \<and> P (f h b)"
  shows "P h \<Longrightarrow> md_fold f B h m = md_fold g B h m \<and> P (md_fold f B h m)"
proof (induction m arbitrary: h rule: measure_induct_rule [of length])
  case (less m)
  show ?case
  proof (cases "0 < B \<and> B \<le> length m")
    case True
    have "md_fold f B (f h (take B m)) (drop B m) = md_fold g B (f h (take B m)) (drop B m)
        \<and> P (md_fold f B (f h (take B m)) (drop B m))"
    proof (rule less.IH)
      show "length (drop B m) < length m" using True by auto
      show "P (f h (take B m))" using step [OF less.prems] by blast
    qed
    moreover have "md_fold f B h m = md_fold f B (f h (take B m)) (drop B m)"
        "md_fold g B h m = md_fold g B (g h (take B m)) (drop B m)"
      using True by (simp_all add: md_fold.simps [of f B h m] md_fold.simps [of g B h m])
    ultimately show ?thesis
      using step [OF less.prems, of "take B m"] by metis
  next
    case False
    then have "md_fold f B h m = h" "md_fold g B h m = h"
      by (auto simp: md_fold.simps [of f B h m] md_fold.simps [of g B h m])
    with less.prems show ?thesis by simp
  qed
qed

section \<open>The invariant of a hash context\<close>

text \<open>
  The chaining value covers the full blocks of the message, the buffer starts with the rest.
  Bytes of the buffer behind the rest are left over from earlier blocks.
\<close>

definition md_inv :: "('h \<Rightarrow> bytes \<Rightarrow> 'h) \<Rightarrow> nat \<Rightarrow> 'h \<Rightarrow> 'h \<Rightarrow> bytes \<Rightarrow> bytes \<Rightarrow> bool" where
  "md_inv f B h0 h buf m \<longleftrightarrow>
     h = md_fold f B h0 m \<and> B \<le> length buf \<and> take (length m mod B) buf = md_rest B m"

lemma md_inv_init: "0 < B \<Longrightarrow> B \<le> length buf \<Longrightarrow> md_inv f B h0 h0 buf []"
  by (simp add: md_inv_def md_rest_def)

lemma md_inv_short:
  assumes B: "0 < B" and inv: "md_inv f B h0 h buf m" and short: "length m mod B + length d < B"
  shows "md_inv f B h0 h (memcpy_at buf (length m mod B) d) (m @ d)"
proof -
  let ?u = "length m mod B"
  have len: "length (md_rest B m @ d) < B" using short by simp
  have rest: "md_rest B (m @ d) = md_rest B m @ d"
    by (simp only: md_rest_continue [OF B, of m d] md_rest_short [OF len])
  then have mod: "length (m @ d) mod B = ?u + length d"
    by (metis length_append length_md_rest)
  have h: "md_fold f B h0 (m @ d) = h"
    using inv by (simp only: md_fold_continue [OF B, of f h0 m d] md_fold_short [OF len] md_inv_def)
  have "B \<le> length buf" "take ?u buf = md_rest B m" using inv by (simp_all only: md_inv_def)
  then have "take (?u + length d) (memcpy_at buf ?u d) = md_rest B m @ d"
    and "B \<le> length (memcpy_at buf ?u d)"
    using short by (simp_all add: memcpy_at_def)
  then show ?thesis
    unfolding md_inv_def mod rest h by simp
qed

lemma md_inv_long:
  assumes B: "0 < B" and inv: "md_inv f B h0 h buf m"
    and buf': "B \<le> length buf'" "take (length d' mod B) buf' = md_rest B d'"
    and d': "d' = take (length m mod B) buf @ d"
  shows "md_inv f B h0 (md_fold f B h d') buf' (m @ d)"
proof -
  have d'': "d' = md_rest B m @ d" using d' inv by (simp add: md_inv_def)
  have rest: "md_rest B (m @ d) = md_rest B d'"
    unfolding d'' by (rule md_rest_continue [OF B])
  then have mod: "length (m @ d) mod B = length d' mod B" by (metis length_md_rest)
  have h: "md_fold f B h0 (m @ d) = md_fold f B h d'"
    using inv by (simp only: md_fold_continue [OF B, of f h0 m d] d'' md_inv_def)
  show ?thesis
    unfolding md_inv_def mod rest h using buf' by simp
qed

text \<open>Absorbing data that completes the block in the buffer: the block is filled up and
  compressed, the full blocks of the remaining data are compressed, the rest is buffered.\<close>

lemma md_inv_fill:
  assumes B: "0 < B" and inv: "md_inv f B h0 h buf m"
    and r: "length m mod B + r = B" "r \<le> length d"
    and blk: "blk = take (length m mod B) buf @ take r d"
    and buf': "B \<le> length buf'" "take (length (drop r d) mod B) buf' = md_rest B (drop r d)"
  shows "md_inv f B h0 (md_fold f B (f h blk) (drop r d)) buf' (m @ d)"
    and "length (m @ d) mod B = length (drop r d) mod B"
proof -
  let ?u = "length m mod B" and ?s = "drop r d"
  have len: "length (take ?u buf) = ?u" using inv B by (simp add: md_inv_def)
  then have "length blk = ?u + r" using r(2) by (simp only: blk length_append length_take min.absorb2)
  then have lb: "length blk = B" using r(1) by simp
  have d': "take ?u buf @ d = blk @ ?s" by (simp add: blk)
  have mod: "length (take ?u buf @ d) mod B = length ?s mod B"
    unfolding d' using lb by simp
  have rest: "md_rest B (take ?u buf @ d) = md_rest B ?s"
    unfolding d' by (rule md_rest_append [OF B]) (simp add: lb)
  have "md_inv f B h0 (md_fold f B h (take ?u buf @ d)) buf' (m @ d)"
    by (rule md_inv_long [OF B inv buf'(1) _ refl]) (simp only: mod rest buf'(2))
  then show "md_inv f B h0 (md_fold f B (f h blk) ?s) buf' (m @ d)"
    unfolding d' md_fold_block [OF lb B] .
  have "md_rest B (m @ d) = md_rest B ?s"
    using rest md_rest_continue [OF B, of m d] inv by (simp add: md_inv_def)
  then show "length (m @ d) mod B = length ?s mod B" by (metis length_md_rest)
qed

section \<open>Compressing a number of blocks\<close>

primrec md_blocks :: "('h \<Rightarrow> bytes \<Rightarrow> 'h) \<Rightarrow> nat \<Rightarrow> nat \<Rightarrow> 'h \<Rightarrow> bytes \<Rightarrow> 'h" where
  "md_blocks f B 0 h message = h"
| "md_blocks f B (Suc n) h message = md_blocks f B n (f h (take B message)) (drop B message)"

lemma md_blocks_fold:
  "0 < B \<Longrightarrow> n * B \<le> length msg \<Longrightarrow> md_blocks f B n h msg = md_fold f B h (take (n * B) msg)"
proof (induction n arbitrary: h msg)
  case (Suc n)
  have "take (Suc n * B) msg = take B msg @ take (n * B) (drop B msg)"
    by (simp add: take_add)
  with Suc show ?case by (simp add: md_fold_block)
qed simp

lemma md_blocks_all:
  "0 < B \<Longrightarrow> n = length msg div B \<Longrightarrow> md_blocks f B n h msg = md_fold f B h msg"
  using md_fold_full_part [of B f h msg] md_blocks_fold [of B n msg f h]
  by (simp only: minus_mod_eq_div_mult [symmetric] diff_le_self)

section \<open>Lengths and padding\<close>

text \<open>The last \<open>k\<close> bytes of a number, the most significant first.\<close>

primrec be_bytes :: "nat \<Rightarrow> nat \<Rightarrow> bytes" where
  "be_bytes 0 n = []"
| "be_bytes (Suc k) n = be_bytes k (n div 256) @ [of_nat n]"

lemma length_be_bytes [bytes_len, simp]: "length (be_bytes k n) = k"
  by (induction k arbitrary: n) simp_all

lemma be_bytes_0: "be_bytes k 0 = replicate k 0"
  by (induction k) (simp_all add: replicate_append_same)

lemma be_bytes_add: "be_bytes (r + k) n = be_bytes r (n div 256 ^ k) @ be_bytes k n"
  by (induction k arbitrary: n) (simp_all add: div_mult2_eq)

lemma ucast_drop_bit_of_nat:
  "ucast (drop_bit s (of_nat n :: u32)) = (of_nat (n div 2 ^ s) :: byte)" if "n < 2 ^ 32"
proof (rule word_unat_eq_iff [THEN iffD2])
  have "unat (of_nat n :: u32) = n" using that by (simp add: unsigned_of_nat take_bit_nat_eq_self)
  then show "unat (ucast (drop_bit s (of_nat n :: u32)) :: byte) = unat (of_nat (n div 2 ^ s) :: byte)"
    by (simp add: word_arith unsigned_of_nat take_bit_eq_mod)
qed

lemma be_bytes_4:
  "be_bytes 4 n = [of_nat (n div 2 ^ 24), of_nat (n div 2 ^ 16), of_nat (n div 2 ^ 8), of_nat n]"
proof -
  have "be_bytes 4 n = be_bytes (Suc (Suc (Suc (Suc 0)))) n" by (simp only: numeral_nat One_nat_def)
  then show ?thesis by (simp add: div_mult2_eq [symmetric])
qed

text \<open>The padding of the standard: a one bit, zeros, and the length in bits in \<open>L - 1\<close> bytes.\<close>

definition md_pad_be :: "nat \<Rightarrow> nat \<Rightarrow> nat \<Rightarrow> bytes" where
  "md_pad_be L B n = 0x80 # replicate ((B - (n + L) mod B) mod B) 0 @ be_bytes (L - 1) (8 * n)"

lemma pad_zeros:
  fixes B n :: nat
  assumes "0 < L" and "L \<le> B"
  defines "u \<equiv> n mod B"
  shows "(B - (n + L) mod B) mod B = (1 + (if B - L < u then 1 else 0)) * B - u - L"
proof -
  have u: "u < B" using assms by (simp add: u_def)
  have eq: "(n + L) mod B = (u + L) mod B" by (simp add: u_def mod_add_left_eq)
  consider "u + L < B" | "u + L = B" | "u + L > B" by linarith
  then show ?thesis
  proof cases
    case 3
    have "u + L - B < B" using u assms(2) by linarith
    with 3 have "(u + L) mod B = u + L - B" by (simp add: le_mod_geq)
    then show ?thesis using 3 u assms(1,2) unfolding eq by simp
  qed (use u assms(1,2) in \<open>simp_all add: eq\<close>)
qed

end
