(* ===== verification/SHA1.thy ===== *)
theory SHA1
  imports Hash_Common
begin

text \<open>
  SHA-1 of \<^verbatim>\<open>src/src/sha1.c\<close>: the message schedule kept in a ring of 16 words, the
  80 rounds with the registers renamed from round to round, the byte order of the host
  found at run time (the parameter \<open>le\<close>), and the context with its 64-bit counter. The
  lemmas show that this is the SHA-1 of FIPS 180 on either byte order, for every way to cut
  the message into updates of less than \<open>2 ^ 29\<close> bytes; a single larger update counts a
  carry that did not happen.
\<close>

section \<open>The compression function\<close>

definition rol :: "u32 \<Rightarrow> nat \<Rightarrow> u32" where
  "rol value bits = push_bit bits value OR drop_bit (32 - bits) value"
definition ror :: "u32 \<Rightarrow> nat \<Rightarrow> u32" where
  "ror value bits = push_bit (32 - bits) value OR drop_bit bits value"

text \<open>The host's reading of four bytes as a word: \<^verbatim>\<open>memcpy(block, buffer, 64)\<close>.\<close>

definition host_load :: "bool \<Rightarrow> bytes \<Rightarrow> u32" where
  "host_load le p = (if le then LOAD32_LE p else LOAD32_BE p)"

text \<open>\<^verbatim>\<open>blk0le\<close>, \<^verbatim>\<open>blk0be\<close> and \<^verbatim>\<open>blk\<close>: the value of the expression, which is also stored in the block.\<close>

definition blk0le :: "u32 list \<Rightarrow> nat \<Rightarrow> u32" where
  "blk0le block i = (ror (block ! i) 8 AND 0xFF00FF00) OR (rol (block ! i) 8 AND 0x00FF00FF)"
definition blk0be :: "u32 list \<Rightarrow> nat \<Rightarrow> u32" where
  "blk0be block i = block ! i"
definition blk :: "u32 list \<Rightarrow> nat \<Rightarrow> u32" where
  "blk block i = rol (block ! ((i + 13) mod 16) XOR block ! ((i + 8) mod 16)
      XOR block ! ((i + 2) mod 16) XOR block ! (i mod 16)) 1"

text \<open>The macros \<^verbatim>\<open>Rl0\<close>, \<^verbatim>\<open>Rb0\<close>, \<^verbatim>\<open>R1\<close> to \<^verbatim>\<open>R4\<close>: the function of \<open>w, x, y\<close>, the schedule word and
  the constant are parameters, the registers are indices into the state.\<close>

definition sha1_R :: "(u32 \<Rightarrow> u32 \<Rightarrow> u32 \<Rightarrow> u32) \<Rightarrow> u32 \<Rightarrow> u32 \<Rightarrow> nat \<Rightarrow> nat \<Rightarrow> nat \<Rightarrow> nat \<Rightarrow> nat
    \<Rightarrow> u32 list \<Rightarrow> u32 list" where
  "sha1_R f b k v w x y z s =
     (let s = s[z := s ! z + (f (s ! w) (s ! x) (s ! y) + b + k + rol (s ! v) 5)]
      in s[w := ror (s ! w) 2])"

definition sha1_f :: "nat \<Rightarrow> u32 \<Rightarrow> u32 \<Rightarrow> u32 \<Rightarrow> u32" where
  "sha1_f i w x y =
     (if i < 20 then (w AND (x XOR y)) XOR y
      else if i < 40 then w XOR x XOR y
      else if i < 60 then ((w OR x) AND y) OR (w AND x)
      else w XOR x XOR y)"

definition sha1_k :: "nat \<Rightarrow> u32" where
  "sha1_k i = (if i < 20 then 0x5A827999 else if i < 40 then 0x6ED9EBA1
     else if i < 60 then 0x8F1BBCDC else 0xCA62C1D6)"

text \<open>
  Line \<open>i\<close> of the unrolled rounds: the registers are \<open>a, b, c, d, e\<close> in line 0, \<open>e, a, b, c, d\<close>
  in line 1, and so on; lines 0 to 15 load the block, the others extend the schedule.
\<close>

definition sha1_rot :: "nat \<Rightarrow> nat \<Rightarrow> nat" where
  "sha1_rot i k = (k + 5 - i mod 5) mod 5"

definition sha1_line :: "bool \<Rightarrow> u32 list \<times> u32 list \<Rightarrow> nat \<Rightarrow> u32 list \<times> u32 list" where
  "sha1_line le sb i =
     (case sb of (s, block) \<Rightarrow>
        let b = (if i < 16 then (if le then blk0le block i else blk0be block i) else blk block i)
        in (sha1_R (sha1_f i) b (sha1_k i) (sha1_rot i 0) (sha1_rot i 1) (sha1_rot i 2)
              (sha1_rot i 3) (sha1_rot i 4) s,
            block[i mod 16 := b]))"

definition sha1_transform :: "bool \<Rightarrow> u32 list \<Rightarrow> bytes \<Rightarrow> u32 list" where
  "sha1_transform le h buffer =
     (let block = map (\<lambda>i. host_load le (drop (4 * i) buffer)) [0..<16];
          (s, block) = foldl (sha1_line le) (h, block) [0..<80]
      in map2 (+) h s)"

section \<open>The context\<close>

record sha1_ctx =
  sha1_h :: "u32 list"
  sha1_count0 :: u32
  sha1_count1 :: u32
  sha1_buffer :: bytes

definition sha1_init :: sha1_ctx where
  "sha1_init = \<lparr>sha1_h = [0x67452301, 0xefcdab89, 0x98badcfe, 0x10325476, 0xc3d2e1f0],
     sha1_count0 = 0, sha1_count1 = 0, sha1_buffer = replicate 64 0\<rparr>"

text \<open>
  The counter: \<open>count[0] += (uint32_t)(len << 3)\<close> is compared with \<open>len << 3\<close>, which is a
  \<^verbatim>\<open>size_t\<close> of 64 bits.
\<close>

definition sha1_add_count :: "sha1_ctx \<Rightarrow> nat \<Rightarrow> sha1_ctx" where
  "sha1_add_count ctx n =
     (let count0 = sha1_count0 ctx + of_nat (n * 8);
          count1 = (if unat count0 < (n * 8) mod 2 ^ 64 then sha1_count1 ctx + 1 else sha1_count1 ctx)
      in ctx\<lparr>sha1_count0 := count0, sha1_count1 := count1 + of_nat (n div 2 ^ 29)\<rparr>)"

definition sha1_update :: "bool \<Rightarrow> sha1_ctx \<Rightarrow> bytes \<Rightarrow> sha1_ctx" where
  "sha1_update le ctx data =
     (let j = unat (drop_bit 3 (sha1_count0 ctx) AND 63);
          n = length data;
          ctx = sha1_add_count ctx n
      in if 63 < j + n then
           let i = 64 - j;
               buf = memcpy_at (sha1_buffer ctx) j (take i data);
               h = sha1_transform le (sha1_h ctx) buf;
               blocks = (n - i) div 64;
               h = md_blocks (sha1_transform le) 64 blocks h (drop i data);
               i = i + 64 * blocks
           in ctx\<lparr>sha1_h := h, sha1_buffer := memcpy_at buf 0 (drop i data)\<rparr>
         else ctx\<lparr>sha1_buffer := memcpy_at (sha1_buffer ctx) j data\<rparr>)"

text \<open>The loop of \<^verbatim>\<open>sha1_final\<close> that appends zero bytes until eight bytes are left in the block.\<close>

definition sha1_aligned :: "sha1_ctx \<Rightarrow> bool" where
  "sha1_aligned ctx \<longleftrightarrow> sha1_count0 ctx AND 504 = 448"

lemma and_504: "x AND 504 = push_bit 3 (drop_bit 3 x AND 63)" for x :: u32
proof -
  have "push_bit 3 (drop_bit 3 x) = x AND NOT (mask 3)"
    by (rule bit_word_eqI) (auto simp: bit_simps)
  then have "push_bit 3 (drop_bit 3 x AND 63) = x AND (NOT (mask 3) AND 504)"
    by (simp add: push_bit_and and.assoc)
  also have "NOT (mask 3) AND 504 = (504 :: u32)" by (simp add: mask_eq_exp_minus_1)
  finally show ?thesis by simp
qed
  
lemma bits_3_to_8: "unat (drop_bit 3 (x :: u32) AND 63) = (unat x div 8) mod 64"
proof -
  have "(63 :: u32) = mask 6" by (simp add: mask_eq_exp_minus_1)
  then show ?thesis by (simp only: unat_and_mask unat_drop_bit) simp
qed

lemma sha1_aligned_iff: "sha1_aligned ctx \<longleftrightarrow> (unat (sha1_count0 ctx) div 8) mod 64 = 56"
proof -
  let ?y = "drop_bit 3 (sha1_count0 ctx) AND 63"
  have "sha1_aligned ctx \<longleftrightarrow> push_bit 3 ?y = 448" by (simp only: sha1_aligned_def and_504)
  also have "\<dots> \<longleftrightarrow> ?y = 56"
  proof
    assume a: "push_bit 3 ?y = 448"
    have "(2 ^ 3 * unat ?y) mod 2 ^ 32 = 448"
      using arg_cong [OF a, of unat] by (simp only: unat_push_bit) simp
    moreover have "unat ?y < 64" unfolding bits_3_to_8 by simp
    ultimately have "unat ?y = unat (56 :: u32)" by simp
    then show "?y = 56" by (simp only: word_unat_eq_iff)
  qed simp
  also have "\<dots> \<longleftrightarrow> unat ?y = 56" by (simp add: word_unat_eq_iff)
  finally show ?thesis by (simp only: bits_3_to_8)
qed

lemma sha1_count0_update: "sha1_count0 (sha1_update le ctx [x]) = sha1_count0 ctx + 8"
  by (simp add: sha1_update_def sha1_add_count_def Let_def)

definition sha1_missing :: "sha1_ctx \<Rightarrow> nat" where
  "sha1_missing ctx = (120 - (unat (sha1_count0 ctx) div 8) mod 64) mod 64"

lemma countdown_56:
  fixes a b :: nat
  assumes "a < 64" and "a \<noteq> 56" and b: "b = (a + 1) mod 64"
  shows "(120 - b) mod 64 < (120 - a) mod 64"
proof -
  consider "a < 56" | "56 < a" "a < 63" | "a = 63" using assms by linarith
  then show ?thesis
  proof cases
    case 1
    then have "120 - b = (55 - a) + 64" "120 - a = (56 - a) + 64" using b by simp_all
    with 1 show ?thesis by (simp only: mod_add_self2) simp
  next
    case 2
    then have "120 - b = 119 - a" using b by simp
    with 2 show ?thesis by simp
  qed (use b in simp)
qed

lemma bits_above_3: "((x + 8) mod 2 ^ 32 div 8) mod 64 = (x div 8 + 1) mod (64 :: nat)"
proof -
  have "(2 :: nat) ^ 32 = 8 * 2 ^ 29" by simp
  then have "(x + 8) mod 2 ^ 32 div 8 = ((x + 8) div 8) mod 2 ^ 29"
    by (simp only: mod_mult2_eq)
  moreover have "y mod 2 ^ 29 mod 64 = y mod 64" for y :: nat
    by (rule mod_mod_cancel) (simp add: dvd_def)
  moreover have "(x + 8) div 8 = x div 8 + 1" using div_add_self2 [of 8 x] by simp
  ultimately show ?thesis by (simp only:)
qed

lemma sha1_missing_decreases:
  assumes "\<not> sha1_aligned ctx"
  shows "sha1_missing (sha1_update le ctx [x]) < sha1_missing ctx"
proof -
  let ?c = "sha1_count0 ctx"
  have "unat (?c + 8) = (unat ?c + 8) mod 2 ^ 32" by (simp add: unat_word_ariths)
  then have "(unat (?c + 8) div 8) mod 64 = (unat ?c div 8 + 1) mod 64"
    by (simp only: bits_above_3)
  then have "(unat (?c + 8) div 8) mod 64 = ((unat ?c div 8) mod 64 + 1) mod 64"
    by (simp only: mod_add_left_eq)
  from countdown_56 [OF _ _ this] assms show ?thesis
    unfolding sha1_missing_def sha1_count0_update sha1_aligned_iff by simp
qed

function sha1_pad :: "bool \<Rightarrow> sha1_ctx \<Rightarrow> sha1_ctx" where
  "sha1_pad le ctx = (if sha1_aligned ctx then ctx else sha1_pad le (sha1_update le ctx [0]))"
  by pat_completeness auto
termination
  by (relation "measure (\<lambda>(le, ctx). sha1_missing ctx)") (simp_all add: sha1_missing_decreases)

declare sha1_pad.simps [simp del]

definition sha1_final :: "bool \<Rightarrow> sha1_ctx \<Rightarrow> bytes \<times> sha1_ctx" where
  "sha1_final le ctx =
     (let finalcount = map (\<lambda>i. ucast (drop_bit ((3 - i mod 4) * 8)
            (if 4 \<le> i then sha1_count0 ctx else sha1_count1 ctx) AND 255)) [0..<8];
          ctx = sha1_update le ctx [0x80];
          ctx = sha1_pad le ctx;
          ctx = sha1_update le ctx finalcount;
          digest = map (\<lambda>i. ucast (drop_bit ((3 - i mod 4) * 8) (sha1_h ctx ! (i div 4)) AND 255)) [0..<20]
      in (digest, ctx\<lparr>sha1_buffer := replicate 64 0, sha1_count0 := 0, sha1_count1 := 0\<rparr>))"


section \<open>The compression function of the standard\<close>

definition fips_Ch :: "u32 \<Rightarrow> u32 \<Rightarrow> u32 \<Rightarrow> u32" where
  "fips_Ch x y z = (x AND y) XOR (NOT x AND z)"
definition fips_Parity :: "u32 \<Rightarrow> u32 \<Rightarrow> u32 \<Rightarrow> u32" where
  "fips_Parity x y z = x XOR y XOR z"
definition fips_Maj :: "u32 \<Rightarrow> u32 \<Rightarrow> u32 \<Rightarrow> u32" where
  "fips_Maj x y z = (x AND y) XOR (x AND z) XOR (y AND z)"

definition fips_f :: "nat \<Rightarrow> u32 \<Rightarrow> u32 \<Rightarrow> u32 \<Rightarrow> u32" where
  "fips_f t = (if t < 20 then fips_Ch else if t < 40 then fips_Parity
     else if t < 60 then fips_Maj else fips_Parity)"

definition sha1_extend :: "u32 list \<Rightarrow> u32 list" where
  "sha1_extend w = (let t = length w in
     w @ [rol (w ! (t - 3) XOR w ! (t - 8) XOR w ! (t - 14) XOR w ! (t - 16)) 1])"

definition sha1_schedule :: "u32 list \<Rightarrow> u32 list" where
  "sha1_schedule M = (sha1_extend ^^ 64) M"

definition sha1_round :: "u32 list \<Rightarrow> u32 list \<Rightarrow> nat \<Rightarrow> u32 list" where
  "sha1_round w s t =
     [rol (s ! 0) 5 + fips_f t (s ! 1) (s ! 2) (s ! 3) + s ! 4 + sha1_k t + w ! t,
      s ! 0, rol (s ! 1) 30, s ! 2, s ! 3]"

definition sha1_block_ref :: "u32 list \<Rightarrow> bytes \<Rightarrow> u32 list" where
  "sha1_block_ref h b =
     (let w = sha1_schedule (map (\<lambda>i. LOAD32_BE (drop (4 * i) b)) [0..<16])
      in map2 (+) h (foldl (sha1_round w) h [0..<80]))"

lemma sha1_f_fips: "sha1_f t w x y = fips_f t w x y"
  by (auto simp: sha1_f_def fips_f_def fips_Ch_def fips_Parity_def fips_Maj_def
      intro!: bit_word_eqI simp: bit_simps)

lemma ror_2: "ror x 2 = rol x 30"
  by (simp add: ror_def rol_def)

text \<open>The byte swap of a little-endian host.\<close>

lemma swap_bytes:
  "(ror (LOAD32_LE p) 8 AND 0xFF00FF00) OR (rol (LOAD32_LE p) 8 AND 0x00FF00FF) = LOAD32_BE p"
proof -
  have m1: "(0xFF00FF00 :: u32) = push_bit 8 (mask 8) OR push_bit 24 (mask 8)"
    and m2: "(0x00FF00FF :: u32) = mask 8 OR push_bit 16 (mask 8)"
    by (simp_all add: mask_eq_exp_minus_1)
  show ?thesis
  proof (rule bit_word_eqI)
    fix n assume "n < LENGTH(32)"
    then have "n < 32" by simp
    from less_32_quarters [OF this]
    show "bit ((ror (LOAD32_LE p) 8 AND 0xFF00FF00) OR (rol (LOAD32_LE p) 8 AND 0x00FF00FF)) n = bit (LOAD32_BE p) n"
      unfolding m1 m2 ror_def rol_def LOAD32_LE_def LOAD32_BE_def
      by (elim disjE exE conjE) (simp_all add: bit_simps)
  qed
qed

lemma blk0_host_load:
  "block ! i = host_load le p \<Longrightarrow> (if le then blk0le block i else blk0be block i) = LOAD32_BE p"
  by (auto simp: host_load_def blk0le_def blk0be_def swap_bytes)

text \<open>The words of the schedule.\<close>

lemma length_sha1_extend [bytes_len, simp]: "length (sha1_extend w) = Suc (length w)"
  by (simp add: sha1_extend_def Let_def)

lemma nth_sha1_extend:
  "i < length w \<Longrightarrow> sha1_extend w ! i = w ! i"
  "i = length w \<Longrightarrow> sha1_extend w ! i = rol (w ! (i - 3) XOR w ! (i - 8) XOR w ! (i - 14) XOR w ! (i - 16)) 1"
  by (simp_all add: sha1_extend_def Let_def nth_append)

lemma length_sha1_extends: "length ((sha1_extend ^^ n) w) = length w + n"
  by (induction n) simp_all

lemma sha1_extends_nth:
  "i < length w + n \<Longrightarrow> n \<le> k \<Longrightarrow> (sha1_extend ^^ k) w ! i = (sha1_extend ^^ n) w ! i"
proof (induction k)
  case (Suc k)
  show ?case
  proof (cases "n = Suc k")
    case False
    then show ?thesis using Suc by (simp add: nth_sha1_extend length_sha1_extends)
  qed simp
qed simp

lemma sha1_schedule_nth:
  assumes "length M = 16" and "i < 80"
  shows "sha1_schedule M ! i = (if i < 16 then M ! i else
    rol (sha1_schedule M ! (i - 3) XOR sha1_schedule M ! (i - 8)
      XOR sha1_schedule M ! (i - 14) XOR sha1_schedule M ! (i - 16)) 1)"
proof (cases "i < 16")
  case True
  then show ?thesis
    using sha1_extends_nth [of i M 0 64] assms by (simp add: sha1_schedule_def)
next
  case False
  define n where "n = i - 16"
  have i: "i = 16 + n" "n < 64" using False assms by (simp_all add: n_def)
  have e: "sha1_schedule M ! j = (sha1_extend ^^ n) M ! j" if "j < 16 + n" for j
    using sha1_extends_nth [of j M n 64] that i assms by (simp add: sha1_schedule_def)
  have "sha1_schedule M ! i = (sha1_extend ^^ Suc n) M ! i"
    using sha1_extends_nth [of i M "Suc n" 64] i assms by (simp add: sha1_schedule_def del: funpow.simps)
  then show ?thesis
    using assms i by (simp add: nth_sha1_extend length_sha1_extends e)
qed

lemma length_sha1_R [bytes_len, simp]: "length (sha1_R f b k v w x y z s) = length s"
  by (simp add: sha1_R_def Let_def)

text \<open>\<open>sha1_view i s\<close> lists the registers before line \<open>i\<close> in the order of the standard.\<close>

definition sha1_view :: "nat \<Rightarrow> u32 list \<Rightarrow> u32 list" where
  "sha1_view i s = map (\<lambda>k. s ! sha1_rot i k) [0..<5]"

lemma list_5: "length xs = 5 \<Longrightarrow> \<exists>a b c d e. xs = [a, b, c, d, e]"
  by (simp add: length_Suc_conv numeral_eq_Suc) blast

lemma upt_5: "[0..<5] = [0, 1, 2, 3, 4 :: nat]"
  by (simp add: upt_rec)

lemma sha1_R_view:
  assumes "length s = 5" and "b = w ! i"
  shows "sha1_view (Suc i) (sha1_R (sha1_f i) b (sha1_k i) (sha1_rot i 0) (sha1_rot i 1)
      (sha1_rot i 2) (sha1_rot i 3) (sha1_rot i 4) s) = sha1_round w (sha1_view i s) i"
proof -
  obtain a c d e f where s: "s = [a, c, d, e, f]" using list_5 [OF assms(1)] by blast
  have "i mod 5 < 5" by simp
  then consider "i mod 5 = 0" | "i mod 5 = 1" | "i mod 5 = 2" | "i mod 5 = 3" | "i mod 5 = 4"
    by linarith
  then show ?thesis
    by cases (simp_all add: sha1_view_def sha1_rot_def upt_5 sha1_R_def sha1_round_def
        s sha1_f_fips ror_2 assms(2) mod_Suc Let_def add_ac)
qed

lemma sha1_view_0: "length s = 5 \<Longrightarrow> sha1_view 0 s = s"
  using list_5 [of s] by (auto simp: sha1_view_def sha1_rot_def upt_5)

text \<open>
  Before line \<open>i\<close> the ring holds the last 16 words of the schedule and the words of the
  message not yet loaded.
\<close>

definition sha1_ring :: "bool \<Rightarrow> bytes \<Rightarrow> u32 list \<Rightarrow> nat \<Rightarrow> u32 list \<Rightarrow> bool" where
  "sha1_ring le b w i block \<longleftrightarrow> length block = 16
     \<and> (\<forall>j < i. i \<le> j + 16 \<longrightarrow> block ! (j mod 16) = w ! j)
     \<and> (\<forall>j < 16. i \<le> j \<longrightarrow> block ! j = host_load le (drop (4 * j) b))"

lemma sha1_ring_word:
  assumes ring: "sha1_ring le b w i block" and i: "i < 80"
    and w: "w = sha1_schedule (map (\<lambda>i. LOAD32_BE (drop (4 * i) b)) [0..<16])"
  shows "(if i < 16 then (if le then blk0le block i else blk0be block i) else blk block i) = w ! i"
proof (cases "i < 16")
  case True
  have "w ! i = LOAD32_BE (drop (4 * i) b)"
    using True sha1_schedule_nth [of "map (\<lambda>i. LOAD32_BE (drop (4 * i) b)) [0..<16]" i]
    by (simp add: w del: upt_rec_numeral)
  with True show ?thesis
    using ring blk0_host_load [of block i le "drop (4 * i) b"] by (simp add: sha1_ring_def)
next
  case False
  then have "w ! i = rol (w ! (i - 3) XOR w ! (i - 8) XOR w ! (i - 14) XOR w ! (i - 16)) 1"
    using sha1_schedule_nth [of "map (\<lambda>i. LOAD32_BE (drop (4 * i) b)) [0..<16]" i] i
    by (simp add: w del: upt_rec_numeral)
  moreover have "block ! ((i - k) mod 16) = w ! (i - k)" if "0 < k" "k \<le> 16" for k
    using ring that False by (simp add: sha1_ring_def)
  from this [of 3] this [of 8] this [of 14] this [of 16]
  moreover have "i + 13 = (i - 3) + 16" "i + 8 = (i - 8) + 16" "i + 2 = (i - 14) + 16"
      "i = (i - 16) + 16" using False by linarith+
  then have "(i + 13) mod 16 = (i - 3) mod 16" "(i + 8) mod 16 = (i - 8) mod 16"
    "(i + 2) mod 16 = (i - 14) mod 16" "i mod 16 = (i - 16) mod 16"
    by (metis mod_add_self2)+
  ultimately show ?thesis using False by (simp only: blk_def if_False)
qed

lemma sha1_ring_step:
  assumes "sha1_ring le b w i block" and "i < 80"
  shows "sha1_ring le b w (Suc i) (block[i mod 16 := w ! i])"
proof -
  have other: "j mod 16 \<noteq> i mod 16" if "j < i" "Suc i \<le> j + 16" for j
  proof
    assume "j mod 16 = i mod 16"
    then have "16 dvd i - j" using that by (metis mod_eq_dvd_iff_nat less_imp_le)
    moreover have "i - j < 16" "0 < i - j" using that by simp_all
    ultimately show False by (auto dest: dvd_imp_le)
  qed
  have len: "length block = 16" using assms(1) by (simp add: sha1_ring_def)
  have "block[i mod 16 := w ! i] ! (j mod 16) = w ! j" if "j < Suc i" "Suc i \<le> j + 16" for j
  proof (cases "j = i")
    case True
    then show ?thesis by (simp add: len)
  next
    case False
    then have "j < i" using that by simp
    then show ?thesis
      using other [of j] that assms(1) by (simp add: sha1_ring_def nth_list_update_neq [OF not_sym])
  qed
  moreover have "block[i mod 16 := w ! i] ! j = host_load le (drop (4 * j) b)"
    if "j < 16" "Suc i \<le> j" for j
  proof -
    from that have "i mod 16 \<noteq> j" by simp
    then show ?thesis using that assms(1) by (simp add: sha1_ring_def)
  qed
  ultimately show ?thesis by (simp add: sha1_ring_def len)
qed

lemma sha1_lines:
  fixes le :: bool
  assumes h: "length h = 5"
    and w: "w = sha1_schedule (map (\<lambda>i. LOAD32_BE (drop (4 * i) b)) [0..<16])"
  defines "block0 \<equiv> map (\<lambda>i. host_load le (drop (4 * i) b)) [0..<16]"
  shows "n \<le> 80 \<Longrightarrow> (case foldl (sha1_line le) (h, block0) [0..<n] of (s, block) \<Rightarrow>
    length s = 5 \<and> sha1_view n s = foldl (sha1_round w) h [0..<n] \<and> sha1_ring le b w n block)"
proof (induction n)
  case 0
  then show ?case
    by (simp add: sha1_view_0 h sha1_ring_def block0_def del: upt_rec_numeral)
next
  case (Suc n)
  obtain s block where sb: "foldl (sha1_line le) (h, block0) [0..<n] = (s, block)" by fastforce
  with Suc have IH: "length s = 5" "sha1_view n s = foldl (sha1_round w) h [0..<n]"
    "sha1_ring le b w n block" and n: "n < 80" by simp_all
  have word: "(if n < 16 then (if le then blk0le block n else blk0be block n) else blk block n) = w ! n"
    by (rule sha1_ring_word [OF IH(3) n w])
  have "sha1_line le (s, block) n = (sha1_R (sha1_f n) (w ! n) (sha1_k n) (sha1_rot n 0)
      (sha1_rot n 1) (sha1_rot n 2) (sha1_rot n 3) (sha1_rot n 4) s, block[n mod 16 := w ! n])"
    unfolding sha1_line_def Let_def prod.case word by (rule refl)
  then have step: "foldl (sha1_line le) (h, block0) [0..<Suc n] = \<dots>"
    by (simp add: sb)
  show ?case
    using sha1_R_view [OF IH(1) refl, where w = w and i = n] sha1_ring_step [OF IH(3) n] IH(1)
    unfolding step prod.case by (simp add: IH(2))
qed

lemma sha1_transform_ref:
  assumes "length h = 5"
  shows "sha1_transform le h b = sha1_block_ref h b"
proof -
  let ?f = "foldl (sha1_line le) (h, map (\<lambda>i. host_load le (drop (4 * i) b)) [0..<16]) [0..<80]"
  obtain s block where f: "?f = (s, block)" by fastforce
  have "length s = 5 \<and> sha1_view 80 s = foldl (sha1_round (sha1_schedule
      (map (\<lambda>i. LOAD32_BE (drop (4 * i) b)) [0..<16]))) h [0..<80]"
    using sha1_lines [OF assms refl, of 80 b le] f by (simp del: upt_rec_numeral)
  moreover have "sha1_view 80 s = sha1_view 0 s" by (simp add: sha1_view_def sha1_rot_def)
  ultimately have "s = foldl (sha1_round (sha1_schedule
      (map (\<lambda>i. LOAD32_BE (drop (4 * i) b)) [0..<16]))) h [0..<80]"
    by (metis sha1_view_0)
  then show ?thesis
    by (simp add: sha1_transform_def sha1_block_ref_def f Let_def del: upt_rec_numeral)
qed

section \<open>A context in step with its message\<close>

definition sha1_h0 :: "u32 list" where
  "sha1_h0 = [0x67452301, 0xefcdab89, 0x98badcfe, 0x10325476, 0xc3d2e1f0]"

definition sha1_inv :: "bool \<Rightarrow> sha1_ctx \<Rightarrow> bytes \<Rightarrow> bool" where
  "sha1_inv le ctx m \<longleftrightarrow>
     md_inv (sha1_transform le) 64 sha1_h0 (sha1_h ctx) (sha1_buffer ctx) m
     \<and> length (sha1_buffer ctx) = 64
     \<and> 2 ^ 32 * unat (sha1_count1 ctx) + unat (sha1_count0 ctx) = (8 * length m) mod 2 ^ 64"

lemma sha1_inv_init: "sha1_inv le sha1_init []"
  by (simp add: sha1_inv_def sha1_init_def sha1_h0_def md_inv_init)

lemma carry_count:
  fixes lo hi x n M N :: nat
  assumes eq: "M * hi + lo = x mod (M * N)" and lo: "lo < M" and n: "n < M" and N: "0 < N"
  shows "M * ((hi + (if (lo + n) mod M < n then 1 else 0)) mod N) + (lo + n) mod M = (x + n) mod (M * N)"
proof -
  have M: "0 < M" using lo by simp
  have "(x + n) mod (M * N) = (M * hi + lo + n) mod (M * N)"
    by (simp only: eq mod_add_left_eq)
  also have "\<dots> = M * ((M * hi + lo + n) div M mod N) + (M * hi + lo + n) mod M"
    by (simp only: mod_mult2_eq)
  also have "(M * hi + lo + n) mod M = (lo + n) mod M" by (simp add: add.assoc)
  also have "(M * hi + lo + n) div M = hi + (lo + n) div M" using M by (simp add: add.assoc)
  also have "(lo + n) div M = (if (lo + n) mod M < n then 1 else 0)"
  proof (cases "lo + n < M")
    case False
    then have "(lo + n) div M = 1" "(lo + n) mod M = lo + n - M"
      using lo n by (simp_all add: div_nat_eqI le_mod_geq)
    then show ?thesis using lo False by simp
  qed simp
  finally show ?thesis by (simp only:)
qed

lemma sha1_count_inv:
  assumes inv: "2 ^ 32 * unat (sha1_count1 ctx) + unat (sha1_count0 ctx) = (8 * l) mod 2 ^ 64"
    and n: "n < 2 ^ 29"
  shows "2 ^ 32 * unat (sha1_count1 (sha1_add_count ctx n)) + unat (sha1_count0 (sha1_add_count ctx n))
    = (8 * (l + n)) mod 2 ^ 64"
proof -
  let ?lo = "unat (sha1_count0 ctx)" and ?hi = "unat (sha1_count1 ctx)"
  have n8: "n * 8 < 2 ^ 32" using n by simp
  have c0: "unat (sha1_count0 ctx + of_nat (n * 8)) = (?lo + n * 8) mod 2 ^ 32"
    using n8 by (simp add: unat_word_ariths unsigned_of_nat take_bit_eq_mod mod_add_right_eq)
  have big: "(n * 8) mod 2 ^ 64 = n * 8" "n div 2 ^ 29 = 0" using n by simp_all
  have c1: "unat (sha1_count1 ctx + (if b then 1 else 0)) = (?hi + (if b then 1 else 0)) mod 2 ^ 32" for b
    by (simp add: unat_word_ariths)
  have add: "sha1_count0 (sha1_add_count ctx n) = sha1_count0 ctx + of_nat (n * 8)"
    "sha1_count1 (sha1_add_count ctx n) =
       sha1_count1 ctx + (if (?lo + n * 8) mod 2 ^ 32 < n * 8 then 1 else 0)"
    unfolding sha1_add_count_def Let_def c0 big by simp_all
  have "(2 :: nat) ^ 64 = 2 ^ 32 * 2 ^ 32" by simp
  with carry_count [of "2 ^ 32" ?hi ?lo "8 * l" "2 ^ 32" "n * 8"] inv n8 unat_bound [of "sha1_count0 ctx"]
  show ?thesis unfolding add c0 c1 by (simp only: distrib_left mult.commute [of n 8]) simp
qed

lemma sha1_count_mod:
  assumes "2 ^ 32 * unat (sha1_count1 ctx) + unat (sha1_count0 ctx) = (8 * l) mod 2 ^ 64"
  shows "unat (drop_bit 3 (sha1_count0 ctx) AND 63) = l mod 64"
proof -
  have p: "(2 :: nat) ^ 64 = 8 * 2 ^ 61" "(2 :: nat) ^ 32 = 8 * 2 ^ 29" by simp_all
  let ?lo = "unat (sha1_count0 ctx)" and ?hi = "unat (sha1_count1 ctx)"
  have "(8 * (2 ^ 29 * ?hi) + ?lo) div 8 = (8 * (l mod 2 ^ 61)) div 8"
    using assms unfolding p by (simp only: mult.assoc mult_mod_right [symmetric])
  then have "2 ^ 29 * ?hi + ?lo div 8 = l mod 2 ^ 61" by (simp only: div_mult_self4 nonzero_mult_div_cancel_left)
  moreover have "(2 ^ 29 * ?hi + ?lo div 8) mod 64 = (?lo div 8) mod 64"
  proof -
    have "2 ^ 29 * ?hi = 64 * (2 ^ 23 * ?hi)" by simp
    then show ?thesis by (simp only: mod_mult_self4)
  qed
  moreover have "l mod 2 ^ 61 mod 64 = l mod 64"
    by (rule mod_mod_cancel) (simp add: dvd_def)
  ultimately show ?thesis by (metis bits_3_to_8)
qed

lemma sha1_update_inv:
  assumes inv: "sha1_inv le ctx m" and n: "length d < 2 ^ 29"
  shows "sha1_inv le (sha1_update le ctx d) (m @ d)"
proof -
  let ?j = "length m mod 64" and ?f = "sha1_transform le"
  have mdi: "md_inv ?f 64 sha1_h0 (sha1_h ctx) (sha1_buffer ctx) m" and lb: "length (sha1_buffer ctx) = 64"
    and cnt: "2 ^ 32 * unat (sha1_count1 ctx) + unat (sha1_count0 ctx) = (8 * length m) mod 2 ^ 64"
    using inv by (simp_all only: sha1_inv_def)
  have j: "?j < 64" by simp
  define c where "c = sha1_add_count ctx (length d)"
  have c: "sha1_h c = sha1_h ctx" "sha1_buffer c = sha1_buffer ctx"
    by (simp_all add: c_def sha1_add_count_def Let_def)
  have cnt': "2 ^ 32 * unat (sha1_count1 c) + unat (sha1_count0 c) = (8 * (length m + length d)) mod 2 ^ 64"
    unfolding c_def by (rule sha1_count_inv [OF cnt n])
  show ?thesis
  proof (cases "63 < ?j + length d")
    case False
    then have "sha1_update le ctx d = c\<lparr>sha1_buffer := memcpy_at (sha1_buffer ctx) ?j d\<rparr>"
      unfolding sha1_update_def Let_def sha1_count_mod [OF cnt] c_def [symmetric] by (simp add: c)
    then show ?thesis
      using md_inv_short [OF _ mdi, of d] False lb cnt' by (simp add: sha1_inv_def c)
  next
    case True
    define i where "i = 64 - ?j"
    have i: "?j + i = 64" "i \<le> length d" using True j by (auto simp: i_def)
    define buf where "buf = memcpy_at (sha1_buffer ctx) ?j (take i d)"
    have buf: "buf = take ?j (sha1_buffer ctx) @ take i d"
      using i lb by (simp add: buf_def memcpy_at_def)
    have lbuf: "length buf = 64" using i lb j by (simp add: buf)
    define s where "s = drop i d"
    define blocks where "blocks = length s div 64"
    define rest where "rest = drop (64 * blocks) s"
    have rest: "rest = md_rest 64 s" "length rest = length s mod 64"
      by (simp_all add: rest_def md_rest_def blocks_def minus_mod_eq_mult_div [symmetric])
    have restd: "drop (i + 64 * blocks) d = rest"
      by (simp add: rest_def s_def add.commute)
    have bl: "(length d - i) div 64 = blocks" by (simp add: blocks_def s_def)
    have folded: "md_blocks ?f 64 blocks h s = md_fold ?f 64 h s" for h
      by (rule md_blocks_all [OF _ blocks_def]) simp
    have upd: "sha1_update le ctx d = c\<lparr>sha1_h := md_fold ?f 64 (?f (sha1_h ctx) buf) s,
        sha1_buffer := memcpy_at buf 0 rest\<rparr>"
      using True
      unfolding sha1_update_def Let_def sha1_count_mod [OF cnt] c_def [symmetric] c
      by (simp only: i_def [symmetric] buf_def [symmetric] s_def [symmetric] bl restd folded if_True)
    have new: "64 \<le> length (memcpy_at buf 0 rest)" "take (length s mod 64) (memcpy_at buf 0 rest) = md_rest 64 s"
      "length (memcpy_at buf 0 rest) = 64"
      using rest lbuf by (simp_all add: memcpy_at_def)
    have "md_inv ?f 64 sha1_h0 (md_fold ?f 64 (?f (sha1_h ctx) buf) s) (memcpy_at buf 0 rest) (m @ d)"
      unfolding s_def
      by (rule md_inv_fill(1) [OF _ mdi i(1,2) buf]) (simp_all only: new s_def [symmetric] zero_less_numeral)
    then show ?thesis
      using cnt' new(3) by (simp add: upd sha1_inv_def)
  qed
qed

section \<open>The digest\<close>

lemma sha1_update1_inv: "sha1_inv le ctx m \<Longrightarrow> sha1_inv le (sha1_update le ctx [x]) (m @ [x])"
  by (rule sha1_update_inv) simp_all

lemma sha1_inv_aligned:
  assumes "sha1_inv le ctx m"
  shows "sha1_aligned ctx \<longleftrightarrow> length m mod 64 = 56"
proof -
  have "unat (drop_bit 3 (sha1_count0 ctx) AND 63) = length m mod 64"
    by (rule sha1_count_mod) (use assms in \<open>simp only: sha1_inv_def\<close>)
  then show ?thesis by (simp only: sha1_aligned_iff bits_3_to_8)
qed

lemma pad_step:
  fixes l :: nat
  assumes "l mod 64 \<noteq> 56"
  shows "(120 - l mod 64) mod 64 = Suc ((120 - Suc l mod 64) mod 64)"
proof -
  have "l mod 64 < 64" by simp
  with assms consider "l mod 64 < 56" | "56 < l mod 64" "l mod 64 < 63" | "l mod 64 = 63" by linarith
  then show ?thesis
  proof cases
    case 1
    then have "120 - l mod 64 = (56 - l mod 64) + 64" "120 - Suc l mod 64 = (55 - l mod 64) + 64"
      by (simp_all add: mod_Suc)
    with 1 show ?thesis by (simp only: mod_add_self2) simp
  qed (simp_all add: mod_Suc)
qed

lemma sha1_pad_inv:
  "sha1_inv le ctx m \<Longrightarrow> sha1_inv le (sha1_pad le ctx) (m @ replicate ((120 - length m mod 64) mod 64) 0)"
proof (induction le ctx arbitrary: m rule: sha1_pad.induct)
  case (1 le ctx)
  show ?case
  proof (cases "sha1_aligned ctx")
    case True
    then have "length m mod 64 = 56" using "1.prems" by (simp add: sha1_inv_aligned)
    then show ?thesis using True "1.prems" by (simp add: sha1_pad.simps [of le ctx])
  next
    case False
    then have "length m mod 64 \<noteq> 56" using "1.prems" by (simp add: sha1_inv_aligned)
    have e: "replicate ((120 - length m mod 64) mod 64) 0 =
        0 # replicate ((120 - Suc (length m) mod 64) mod 64) (0 :: byte)"
      by (simp only: pad_step [OF \<open>length m mod 64 \<noteq> 56\<close>] replicate_Suc)
    have "sha1_inv le (sha1_pad le (sha1_update le ctx [0]))
        ((m @ [0]) @ replicate ((120 - length (m @ [0]) mod 64) mod 64) 0)"
      by (rule "1.IH" [OF False sha1_update1_inv [OF "1.prems"]])
    then show ?thesis using False unfolding e by (simp add: sha1_pad.simps [of le ctx])
  qed
qed

lemma be_bytes_add_mult: "be_bytes k (n + 256 ^ k * j) = be_bytes k n"
proof (induction k arbitrary: n)
  case (Suc k)
  have "(n + 256 ^ Suc k * j) div 256 = n div 256 + 256 ^ k * j"
    by (simp add: mult.assoc)
  moreover have "(of_nat (n + 256 ^ Suc k * j) :: byte) = of_nat n"
  proof -
    have "(of_nat 256 :: byte) = 0" by simp
    then have "(of_nat (256 ^ Suc k * j) :: byte) = 0" by (simp only: of_nat_mult of_nat_power power_Suc) simp
    then show ?thesis by (simp only: of_nat_add add_0_right)
  qed
  ultimately show ?case using Suc by simp
qed simp

lemma be_bytes_word: "be_bytes 4 (unat (c :: u32)) = STORE32_BE c"
proof -
  have "unat c < 2 ^ 32" using unat_bound [of c] by simp
  from ucast_drop_bit_of_nat [OF this, of 0] ucast_drop_bit_of_nat [OF this, of 8]
    ucast_drop_bit_of_nat [OF this, of 16] ucast_drop_bit_of_nat [OF this, of 24]
  show ?thesis unfolding be_bytes_4 STORE32_BE_def by simp
qed

lemma ucast_and_255: "(ucast (x AND 255 :: u32) :: byte) = ucast x"
proof -
  have m: "(255 :: u32) = mask 8" by (simp add: mask_eq_exp_minus_1)
  show ?thesis unfolding m by (rule bit_word_eqI) (auto simp: bit_simps)
qed

lemma sha1_finalcount:
  assumes "2 ^ 32 * unat c1 + unat c0 = n"
  shows "map (\<lambda>i. ucast (drop_bit ((3 - i mod 4) * 8) (if 4 \<le> i then c0 else c1 :: u32) AND 255)) [0..<8]
    = be_bytes 8 n"
proof -
  have "n = unat c0 + 256 ^ 4 * unat c1" using assms by simp
  moreover have "(unat c0 + 256 ^ 4 * unat c1) div 256 ^ 4 = unat c1"
    using unat_bound [of c0] by simp
  ultimately have "be_bytes (4 + 4) n = STORE32_BE c1 @ STORE32_BE c0"
    by (simp only: be_bytes_add be_bytes_add_mult be_bytes_word)
  then show ?thesis
    by (simp add: upt_rec STORE32_BE_def ucast_and_255)
qed

lemma length_sha1_block_ref [bytes_len]: "length h = 5 \<Longrightarrow> length (sha1_block_ref h b) = 5"
proof -
  have "length s = 5 \<Longrightarrow> length (foldl (sha1_round w) s ts) = 5" for w s ts
    by (induction ts arbitrary: s) (simp_all add: sha1_round_def)
  then show "length h = 5 \<Longrightarrow> ?thesis" by (simp add: sha1_block_ref_def Let_def)
qed

lemma sha1_digest_bytes:
  "length H = 5 \<Longrightarrow>
    map (\<lambda>i. ucast (drop_bit ((3 - i mod 4) * 8) (H ! (i div 4)) AND 255)) [0..<20] = concat (map STORE32_BE H)"
  using list_5 [of H] by (auto simp: upt_rec STORE32_BE_def ucast_and_255)

lemma pad_zeros_56: "(120 - l mod 64) mod 64 = (64 - (l + 8) mod 64) mod (64 :: nat)"
proof -
  have eq: "(l + 8) mod 64 = (l mod 64 + 8) mod 64" by (simp only: mod_add_left_eq)
  have "l mod 64 < 64" by simp
  then consider "l mod 64 < 56" | "l mod 64 = 56" | "56 < l mod 64" by linarith
  then show ?thesis
  proof cases
    case 1
    then have "120 - l mod 64 = (56 - l mod 64) + 64" by simp
    then have "(120 - l mod 64) mod 64 = 56 - l mod 64" by (simp only: mod_add_self2) simp
    with 1 show ?thesis by (simp add: eq)
  next
    case 3
    then have "(l mod 64 + 8) mod 64 = l mod 64 - 56" using \<open>l mod 64 < 64\<close> by (simp add: le_mod_geq)
    then show ?thesis using 3 \<open>l mod 64 < 64\<close> by (simp add: eq)
  qed (simp add: eq)
qed

definition sha1_spec :: "bytes \<Rightarrow> bytes" where
  "sha1_spec m = concat (map STORE32_BE (md_fold sha1_block_ref 64 sha1_h0 (m @ md_pad_be 9 64 (length m))))"

lemma length_sha1_h0 [bytes_len]: "length sha1_h0 = 5"
  by (simp add: sha1_h0_def)

lemma sha1_fold_ref:
  "md_fold (sha1_transform le) 64 sha1_h0 m = md_fold sha1_block_ref 64 sha1_h0 m
   \<and> length (md_fold (sha1_transform le) 64 sha1_h0 m) = 5"
  by (rule md_fold_cong_inv [where P = "\<lambda>h. length h = 5"])
    (simp_all add: sha1_transform_ref length_sha1_block_ref length_sha1_h0)

lemma sha1_final_inv:
  assumes inv: "sha1_inv le ctx m" and small: "length m < 2 ^ 61"
  shows "fst (sha1_final le ctx) = sha1_spec m"
    and "sha1_h (snd (sha1_final le ctx)) = md_fold (sha1_transform le) 64 sha1_h0 (m @ md_pad_be 9 64 (length m))"
proof -
  define z where "z = (120 - length (m @ [0x80]) mod 64) mod 64"
  define c1 where "c1 = sha1_pad le (sha1_update le ctx [0x80])"
  have i1: "sha1_inv le c1 (m @ 0x80 # replicate z 0)"
    using sha1_pad_inv [OF sha1_update1_inv [OF inv]] by (simp add: c1_def z_def)
  have "2 ^ 32 * unat (sha1_count1 ctx) + unat (sha1_count0 ctx) = 8 * length m"
    using inv small by (simp add: sha1_inv_def)
  then have fc: "map (\<lambda>i. ucast (drop_bit ((3 - i mod 4) * 8)
      (if 4 \<le> i then sha1_count0 ctx else sha1_count1 ctx) AND 255)) [0..<8] = be_bytes 8 (8 * length m)"
    by (rule sha1_finalcount)
  define c2 where "c2 = sha1_update le c1 (be_bytes 8 (8 * length m))"
  have i2: "sha1_inv le c2 ((m @ 0x80 # replicate z 0) @ be_bytes 8 (8 * length m))"
    unfolding c2_def by (rule sha1_update_inv [OF i1]) simp
  have "z = (64 - (length m + 9) mod 64) mod 64"
    using pad_zeros_56 [of "Suc (length m)"] by (simp add: z_def add.commute [of 9])
  then have pad: "(m @ 0x80 # replicate z 0) @ be_bytes 8 (8 * length m) = m @ md_pad_be 9 64 (length m)"
    by (simp add: md_pad_be_def del: be_bytes.simps)
  define H where "H = md_fold (sha1_transform le) 64 sha1_h0 (m @ md_pad_be 9 64 (length m))"
  have h: "sha1_h c2 = H"
    using i2 by (simp only: sha1_inv_def md_inv_def pad H_def)
  have H: "H = md_fold sha1_block_ref 64 sha1_h0 (m @ md_pad_be 9 64 (length m)) \<and> length H = 5"
    unfolding H_def by (rule sha1_fold_ref)
  note sha1_digest_bytes [OF H [THEN conjunct2]]
  then show "fst (sha1_final le ctx) = sha1_spec m"
    using H by (simp only: sha1_final_def Let_def fst_conv fc c1_def [symmetric] c2_def [symmetric] h sha1_spec_def)
  show "sha1_h (snd (sha1_final le ctx)) = md_fold (sha1_transform le) 64 sha1_h0 (m @ md_pad_be 9 64 (length m))"
    by (simp only: sha1_final_def Let_def snd_conv fc c1_def [symmetric] c2_def [symmetric])
      (simp add: h H_def)
qed

lemma sha1_updates_inv:
  "sha1_inv le ctx m \<Longrightarrow> \<forall>d \<in> set ds. length d < 2 ^ 29
     \<Longrightarrow> sha1_inv le (foldl (sha1_update le) ctx ds) (m @ concat ds)"
proof (induction ds arbitrary: ctx m)
  case (Cons d ds)
  have "sha1_inv le (foldl (sha1_update le) (sha1_update le ctx d) ds) ((m @ d) @ concat ds)"
    using Cons.prems by (intro Cons.IH sha1_update_inv) simp_all
  then show ?case by simp
qed simp

text \<open>
  On a host of either byte order, hashing a message in any sequence of \<^verbatim>\<open>sha1_update\<close>
  calls of less than \<open>2 ^ 29\<close> bytes each gives the SHA-1 digest of the whole message,
  although the code keeps only 16 words of the schedule and renames the registers.
\<close>

theorem sha1_incremental:
  assumes "\<forall>d \<in> set ds. length d < 2 ^ 29" and "length (concat ds) < 2 ^ 61"
  shows "fst (sha1_final le (foldl (sha1_update le) sha1_init ds)) = sha1_spec (concat ds)"
  using sha1_final_inv(1) [OF sha1_updates_inv [OF sha1_inv_init assms(1)]] assms(2) by simp

theorem sha1_incremental_witness:
  "fst (sha1_final True (foldl (sha1_update True) sha1_init [[0x61], [], [0x62, 0x63]])) = sha1_spec [0x61, 0x62, 0x63]"
  using sha1_incremental [of "[[0x61], [], [0x62, 0x63]]" True] by simp

text \<open>
  Why the updates are bounded: the carry test compares the 32-bit counter with a 64-bit
  \<^verbatim>\<open>len << 3\<close>, so that one update of \<open>2 ^ 29\<close> bytes counts \<open>2 ^ 33\<close> bits.
\<close>

theorem sha1_count_overcounts:
  "sha1_count0 (sha1_add_count sha1_init (2 ^ 29)) = 0
   \<and> sha1_count1 (sha1_add_count sha1_init (2 ^ 29)) = 2"
  by (simp_all add: sha1_add_count_def sha1_init_def Let_def)

end
