(* ===== verification/SHA2.thy ===== *)
theory SHA2
  imports Hash_Common
begin

text \<open>
  The SHA-2 functions of \<^verbatim>\<open>src/src/sha2.c\<close>, as compiled: with \<^verbatim>\<open>UNROLL_LOOPS\<close>, so the
  working variables are renamed from round to round instead of moved. The code has one copy
  of \<^verbatim>\<open>update\<close> and \<^verbatim>\<open>final\<close> per digest size, equal up to the block size, the word size and
  the digest length; here they are one definition with these as parameters, and
  \<open>sha256_update\<close> and so on are its instances. The lemmas: the unrolled rounds compute the
  rolled loop of the standard, a context stays in step with the message it absorbed, and
  \<open>final\<close> gives the digest of the padded message as long as the 32-bit length
  field of the code is wide enough (messages below \<open>2 ^ 29\<close> bytes).
\<close>

section \<open>Constants\<close>

definition sha224_h0 :: "u32 list" where
  "sha224_h0 = [0xC1059ED8, 0x367CD507, 0x3070DD17, 0xF70E5939,
     0xFFC00B31, 0x68581511, 0x64F98FA7, 0xBEFA4FA4]"

definition sha256_h0 :: "u32 list" where
  "sha256_h0 = [0x6A09E667, 0xBB67AE85, 0x3C6EF372, 0xA54FF53A,
     0x510E527F, 0x9B05688C, 0x1F83D9AB, 0x5BE0CD19]"

definition sha384_h0 :: "u64 list" where
  "sha384_h0 = [0xCBBB9D5DC1059ED8, 0x629A292A367CD507, 0x9159015A3070DD17,
     0x152FECD8F70E5939, 0x67332667FFC00B31, 0x8EB44A8768581511,
     0xDB0C2E0D64F98FA7, 0x47B5481DBEFA4FA4]"

definition sha512_h0 :: "u64 list" where
  "sha512_h0 = [0x6A09E667F3BCC908, 0xBB67AE8584CAA73B, 0x3C6EF372FE94F82B,
     0xA54FF53A5F1D36F1, 0x510E527FADE682D1, 0x9B05688C2B3E6C1F,
     0x1F83D9ABFB41BD6B, 0x5BE0CD19137E2179]"

definition sha256_k :: "u32 list" where
  "sha256_k = [0x428A2F98, 0x71374491, 0xB5C0FBCF, 0xE9B5DBA5, 0x3956C25B, 0x59F111F1,
     0x923F82A4, 0xAB1C5ED5, 0xD807AA98, 0x12835B01, 0x243185BE, 0x550C7DC3,
     0x72BE5D74, 0x80DEB1FE, 0x9BDC06A7, 0xC19BF174, 0xE49B69C1, 0xEFBE4786,
     0x0FC19DC6, 0x240CA1CC, 0x2DE92C6F, 0x4A7484AA, 0x5CB0A9DC, 0x76F988DA,
     0x983E5152, 0xA831C66D, 0xB00327C8, 0xBF597FC7, 0xC6E00BF3, 0xD5A79147,
     0x06CA6351, 0x14292967, 0x27B70A85, 0x2E1B2138, 0x4D2C6DFC, 0x53380D13,
     0x650A7354, 0x766A0ABB, 0x81C2C92E, 0x92722C85, 0xA2BFE8A1, 0xA81A664B,
     0xC24B8B70, 0xC76C51A3, 0xD192E819, 0xD6990624, 0xF40E3585, 0x106AA070,
     0x19A4C116, 0x1E376C08, 0x2748774C, 0x34B0BCB5, 0x391C0CB3, 0x4ED8AA4A,
     0x5B9CCA4F, 0x682E6FF3, 0x748F82EE, 0x78A5636F, 0x84C87814, 0x8CC70208,
     0x90BEFFFA, 0xA4506CEB, 0xBEF9A3F7, 0xC67178F2]"

definition sha512_k :: "u64 list" where
  "sha512_k = [0x428A2F98D728AE22, 0x7137449123EF65CD, 0xB5C0FBCFEC4D3B2F, 0xE9B5DBA58189DBBC,
     0x3956C25BF348B538, 0x59F111F1B605D019, 0x923F82A4AF194F9B, 0xAB1C5ED5DA6D8118,
     0xD807AA98A3030242, 0x12835B0145706FBE, 0x243185BE4EE4B28C, 0x550C7DC3D5FFB4E2,
     0x72BE5D74F27B896F, 0x80DEB1FE3B1696B1, 0x9BDC06A725C71235, 0xC19BF174CF692694,
     0xE49B69C19EF14AD2, 0xEFBE4786384F25E3, 0x0FC19DC68B8CD5B5, 0x240CA1CC77AC9C65,
     0x2DE92C6F592B0275, 0x4A7484AA6EA6E483, 0x5CB0A9DCBD41FBD4, 0x76F988DA831153B5,
     0x983E5152EE66DFAB, 0xA831C66D2DB43210, 0xB00327C898FB213F, 0xBF597FC7BEEF0EE4,
     0xC6E00BF33DA88FC2, 0xD5A79147930AA725, 0x06CA6351E003826F, 0x142929670A0E6E70,
     0x27B70A8546D22FFC, 0x2E1B21385C26C926, 0x4D2C6DFC5AC42AED, 0x53380D139D95B3DF,
     0x650A73548BAF63DE, 0x766A0ABB3C77B2A8, 0x81C2C92E47EDAEE6, 0x92722C851482353B,
     0xA2BFE8A14CF10364, 0xA81A664BBC423001, 0xC24B8B70D0F89791, 0xC76C51A30654BE30,
     0xD192E819D6EF5218, 0xD69906245565A910, 0xF40E35855771202A, 0x106AA07032BBD1B8,
     0x19A4C116B8D2D0C8, 0x1E376C085141AB53, 0x2748774CDF8EEB99, 0x34B0BCB5E19B48A8,
     0x391C0CB3C5C95A63, 0x4ED8AA4AE3418ACB, 0x5B9CCA4F7763E373, 0x682E6FF3D6B2B8A3,
     0x748F82EE5DEFB2FC, 0x78A5636F43172F60, 0x84C87814A1F0AB72, 0x8CC702081A6439EC,
     0x90BEFFFA23631E28, 0xA4506CEBDE82BDE9, 0xBEF9A3F7B2C67915, 0xC67178F2E372532B,
     0xCA273ECEEA26619C, 0xD186B8C721C0C207, 0xEADA7DD6CDE0EB1E, 0xF57D4F7FEE6ED178,
     0x06F067AA72176FBA, 0x0A637DC5A2C898A6, 0x113F9804BEF90DAE, 0x1B710B35131C471B,
     0x28DB77F523047D84, 0x32CAAB7B40C72493, 0x3C9EBE0A15C9BEBC, 0x431D67C49C100D4C,
     0x4CC5D4BECB3E42B6, 0x597F299CFC657E2A, 0x5FCB6FAB3AD6FAEC, 0x6C44198C4A475817]"

section \<open>The compression function\<close>

definition SHFR :: "'a::len word \<Rightarrow> nat \<Rightarrow> 'a word" where
  "SHFR x n = drop_bit n x"

definition ROTR :: "'a::len word \<Rightarrow> nat \<Rightarrow> 'a word" where
  "ROTR x n = drop_bit n x OR push_bit (LENGTH('a) - n) x"

definition CH :: "'a::len word \<Rightarrow> 'a word \<Rightarrow> 'a word \<Rightarrow> 'a word" where
  "CH x y z = (x AND y) XOR (NOT x AND z)"

definition MAJ :: "'a::len word \<Rightarrow> 'a word \<Rightarrow> 'a word \<Rightarrow> 'a word" where
  "MAJ x y z = (x AND y) XOR (x AND z) XOR (y AND z)"

definition SHA256_F1 :: "u32 \<Rightarrow> u32" where "SHA256_F1 x = ROTR x 2 XOR ROTR x 13 XOR ROTR x 22"
definition SHA256_F2 :: "u32 \<Rightarrow> u32" where "SHA256_F2 x = ROTR x 6 XOR ROTR x 11 XOR ROTR x 25"
definition SHA256_F3 :: "u32 \<Rightarrow> u32" where "SHA256_F3 x = ROTR x 7 XOR ROTR x 18 XOR SHFR x 3"
definition SHA256_F4 :: "u32 \<Rightarrow> u32" where "SHA256_F4 x = ROTR x 17 XOR ROTR x 19 XOR SHFR x 10"
definition SHA512_F1 :: "u64 \<Rightarrow> u64" where "SHA512_F1 x = ROTR x 28 XOR ROTR x 34 XOR ROTR x 39"
definition SHA512_F2 :: "u64 \<Rightarrow> u64" where "SHA512_F2 x = ROTR x 14 XOR ROTR x 18 XOR ROTR x 41"
definition SHA512_F3 :: "u64 \<Rightarrow> u64" where "SHA512_F3 x = ROTR x 1 XOR ROTR x 8 XOR SHFR x 7"
definition SHA512_F4 :: "u64 \<Rightarrow> u64" where "SHA512_F4 x = ROTR x 19 XOR ROTR x 61 XOR SHFR x 6"

definition PACK32 :: "bytes \<Rightarrow> u32" where
  "PACK32 str = ucast (str ! 3) OR push_bit 8 (ucast (str ! 2))
     OR push_bit 16 (ucast (str ! 1)) OR push_bit 24 (ucast (str ! 0))"

definition PACK64 :: "bytes \<Rightarrow> u64" where
  "PACK64 str = ucast (str ! 7) OR push_bit 8 (ucast (str ! 6))
     OR push_bit 16 (ucast (str ! 5)) OR push_bit 24 (ucast (str ! 4))
     OR push_bit 32 (ucast (str ! 3)) OR push_bit 40 (ucast (str ! 2))
     OR push_bit 48 (ucast (str ! 1)) OR push_bit 56 (ucast (str ! 0))"

definition UNPACK32 :: "u32 \<Rightarrow> bytes" where
  "UNPACK32 x = [ucast (drop_bit 24 x), ucast (drop_bit 16 x), ucast (drop_bit 8 x), ucast x]"

definition UNPACK64 :: "u64 \<Rightarrow> bytes" where
  "UNPACK64 x = map (\<lambda>s. ucast (drop_bit s x)) [56, 48, 40, 32, 24, 16, 8, 0]"

text \<open>
  The macros \<^verbatim>\<open>SHA256_SCR\<close> and \<^verbatim>\<open>SHA512_SCR\<close> compute \<open>w[i]\<close> from the entries before it; the
  list holds the entries computed so far, so \<open>i\<close> is its length.
\<close>

definition SHA2_SCR :: "('a::len word \<Rightarrow> 'a word) \<Rightarrow> ('a word \<Rightarrow> 'a word) \<Rightarrow> 'a word list \<Rightarrow> 'a word list" where
  "SHA2_SCR F3 F4 w =
     (let i = length w in w @ [F4 (w ! (i - 2)) + w ! (i - 7) + F3 (w ! (i - 15)) + w ! (i - 16)])"

text \<open>\<^verbatim>\<open>SHA256_EXP(a,b,c,d,e,f,g,h,j)\<close> and \<^verbatim>\<open>SHA512_EXP\<close>: the letters are indices into \<open>wv\<close>.\<close>

definition SHA2_EXP :: "('a::len word \<Rightarrow> 'a word) \<Rightarrow> ('a word \<Rightarrow> 'a word) \<Rightarrow> 'a word list \<Rightarrow> 'a word list
    \<Rightarrow> nat \<Rightarrow> nat \<Rightarrow> nat \<Rightarrow> nat \<Rightarrow> nat \<Rightarrow> nat \<Rightarrow> nat \<Rightarrow> nat \<Rightarrow> nat \<Rightarrow> 'a word list \<Rightarrow> 'a word list" where
  "SHA2_EXP F1 F2 k w a b c d e f g h j wv =
     (let t1 = wv ! h + F2 (wv ! e) + CH (wv ! e) (wv ! f) (wv ! g) + k ! j + w ! j;
          t2 = F1 (wv ! a) + MAJ (wv ! a) (wv ! b) (wv ! c);
          wv = wv[d := wv ! d + t1]
      in wv[h := t1 + t2])"

text \<open>Eight calls in a row, as the code lists them, from round \<open>j\<close> on.\<close>

definition SHA2_EXP8 :: "('a::len word \<Rightarrow> 'a word) \<Rightarrow> ('a word \<Rightarrow> 'a word) \<Rightarrow> 'a word list \<Rightarrow> 'a word list
    \<Rightarrow> nat \<Rightarrow> 'a word list \<Rightarrow> 'a word list" where
  "SHA2_EXP8 F1 F2 k w j wv =
     (let wv = SHA2_EXP F1 F2 k w 0 1 2 3 4 5 6 7 j wv;
          wv = SHA2_EXP F1 F2 k w 7 0 1 2 3 4 5 6 (j + 1) wv;
          wv = SHA2_EXP F1 F2 k w 6 7 0 1 2 3 4 5 (j + 2) wv;
          wv = SHA2_EXP F1 F2 k w 5 6 7 0 1 2 3 4 (j + 3) wv;
          wv = SHA2_EXP F1 F2 k w 4 5 6 7 0 1 2 3 (j + 4) wv;
          wv = SHA2_EXP F1 F2 k w 3 4 5 6 7 0 1 2 (j + 5) wv;
          wv = SHA2_EXP F1 F2 k w 2 3 4 5 6 7 0 1 (j + 6) wv;
          wv = SHA2_EXP F1 F2 k w 1 2 3 4 5 6 7 0 (j + 7) wv
      in wv)"

definition sha256_block :: "u32 list \<Rightarrow> bytes \<Rightarrow> u32 list" where
  "sha256_block h sub_block =
     (let w = map (\<lambda>j. PACK32 (drop (4 * j) sub_block)) [0..<16];
          w = (SHA2_SCR SHA256_F3 SHA256_F4 ^^ 48) w;
          wv = foldl (\<lambda>wv i. SHA2_EXP8 SHA256_F1 SHA256_F2 sha256_k w (8 * i) wv) h [0..<8]
      in map2 (+) h wv)"

definition sha512_block :: "u64 list \<Rightarrow> bytes \<Rightarrow> u64 list" where
  "sha512_block h sub_block =
     (let w = map (\<lambda>j. PACK64 (drop (8 * j) sub_block)) [0..<16];
          w = (SHA2_SCR SHA512_F3 SHA512_F4 ^^ 64) w;
          wv = foldl (\<lambda>wv i. SHA2_EXP8 SHA512_F1 SHA512_F2 sha512_k w (8 * i) wv) h [0..<10]
      in map2 (+) h wv)"

text \<open>\<^verbatim>\<open>sha256_transf\<close> and \<^verbatim>\<open>sha512_transf\<close>: the loop over \<^verbatim>\<open>block_nb\<close> blocks.\<close>

definition sha256_transf :: "u32 list \<Rightarrow> bytes \<Rightarrow> nat \<Rightarrow> u32 list" where
  "sha256_transf h message block_nb = md_blocks sha256_block 64 block_nb h message"

definition sha512_transf :: "u64 list \<Rightarrow> bytes \<Rightarrow> nat \<Rightarrow> u64 list" where
  "sha512_transf h message block_nb = md_blocks sha512_block 128 block_nb h message"

section \<open>Contexts\<close>

record 'h sha2_ctx =
  ctx_tot_len :: u32
  ctx_len :: nat
  ctx_block :: bytes
  h_state :: 'h

definition sha2_init :: "nat \<Rightarrow> 'h \<Rightarrow> 'h sha2_ctx" where
  "sha2_init B h0 = \<lparr>ctx_tot_len = 0, ctx_len = 0, ctx_block = replicate (2 * B) 0, h_state = h0\<rparr>"

definition sha2_update :: "('h \<Rightarrow> bytes \<Rightarrow> 'h) \<Rightarrow> nat \<Rightarrow> 'h sha2_ctx \<Rightarrow> bytes \<Rightarrow> 'h sha2_ctx" where
  "sha2_update f B ctx message =
     (let n = length message;
          tmp_len = B - ctx_len ctx;
          rem_len = (if n < tmp_len then n else tmp_len);
          blk = memcpy_at (ctx_block ctx) (ctx_len ctx) (take rem_len message)
      in if ctx_len ctx + n < B then ctx\<lparr>ctx_block := blk, ctx_len := ctx_len ctx + n\<rparr>
         else
           let new_len = n - rem_len;
               block_nb = new_len div B;
               shifted_message = drop rem_len message;
               h = md_blocks f B 1 (h_state ctx) blk;
               h = md_blocks f B block_nb h shifted_message;
               rem_len = new_len mod B
           in ctx\<lparr>h_state := h,
                  ctx_block := memcpy_at blk 0 (take rem_len (drop (block_nb * B) shifted_message)),
                  ctx_len := rem_len,
                  ctx_tot_len := ctx_tot_len ctx + of_nat ((block_nb + 1) * B)\<rparr>)"

text \<open>
  The common part of the \<^verbatim>\<open>final\<close> functions: \<open>L\<close> is 9 or 17, the bytes of the padding that
  must fit behind the data; the result is the chaining value before it is unpacked, with the
  context as it is left behind.
\<close>

definition sha2_pad_block :: "nat \<Rightarrow> nat \<Rightarrow> 'h sha2_ctx \<Rightarrow> nat \<times> bytes" where
  "sha2_pad_block L B ctx =
     (let block_nb = 1 + (if B - L < ctx_len ctx mod B then 1 else 0);
          len_b = push_bit 3 (ctx_tot_len ctx + of_nat (ctx_len ctx));
          pm_len = block_nb * B;
          blk = memcpy_at (ctx_block ctx) (ctx_len ctx) (replicate (pm_len - ctx_len ctx) 0);
          blk = blk[ctx_len ctx := 0x80];
          blk = memcpy_at blk (pm_len - 4) (UNPACK32 len_b)
      in (block_nb, blk))"

definition sha2_final :: "('h \<Rightarrow> bytes \<Rightarrow> 'h) \<Rightarrow> nat \<Rightarrow> nat \<Rightarrow> 'h sha2_ctx \<Rightarrow> 'h sha2_ctx" where
  "sha2_final f L B ctx =
     (let (block_nb, blk) = sha2_pad_block L B ctx
      in ctx\<lparr>ctx_block := blk, h_state := md_blocks f B block_nb (h_state ctx) blk\<rparr>)"

definition sha256_init :: "u32 list sha2_ctx" where
  "sha256_init = sha2_init 64 sha256_h0"
definition sha256_update :: "u32 list sha2_ctx \<Rightarrow> bytes \<Rightarrow> u32 list sha2_ctx" where
  "sha256_update = sha2_update sha256_block 64"
definition sha256_final :: "u32 list sha2_ctx \<Rightarrow> bytes \<times> u32 list sha2_ctx" where
  "sha256_final ctx =
     (let ctx = sha2_final sha256_block 9 64 ctx
      in (concat (map (\<lambda>i. UNPACK32 (h_state ctx ! i)) [0..<8]), ctx))"
definition sha256 :: "bytes \<Rightarrow> bytes" where
  "sha256 message = fst (sha256_final (sha256_update sha256_init message))"

definition sha512_init :: "u64 list sha2_ctx" where
  "sha512_init = sha2_init 128 sha512_h0"
definition sha512_update :: "u64 list sha2_ctx \<Rightarrow> bytes \<Rightarrow> u64 list sha2_ctx" where
  "sha512_update = sha2_update sha512_block 128"
definition sha512_final :: "u64 list sha2_ctx \<Rightarrow> bytes \<times> u64 list sha2_ctx" where
  "sha512_final ctx =
     (let ctx = sha2_final sha512_block 17 128 ctx
      in (concat (map (\<lambda>i. UNPACK64 (h_state ctx ! i)) [0..<8]), ctx))"
definition sha512 :: "bytes \<Rightarrow> bytes" where
  "sha512 message = fst (sha512_final (sha512_update sha512_init message))"

definition sha224_init :: "u32 list sha2_ctx" where
  "sha224_init = sha2_init 64 sha224_h0"
definition sha224_update :: "u32 list sha2_ctx \<Rightarrow> bytes \<Rightarrow> u32 list sha2_ctx" where
  "sha224_update = sha2_update sha256_block 64"
definition sha224_final :: "u32 list sha2_ctx \<Rightarrow> bytes \<times> u32 list sha2_ctx" where
  "sha224_final ctx =
     (let ctx = sha2_final sha256_block 9 64 ctx
      in (concat (map (\<lambda>i. UNPACK32 (h_state ctx ! i)) [0..<7]), ctx))"
definition sha224 :: "bytes \<Rightarrow> bytes" where
  "sha224 message = fst (sha224_final (sha224_update sha224_init message))"

definition sha384_init :: "u64 list sha2_ctx" where
  "sha384_init = sha2_init 128 sha384_h0"
definition sha384_update :: "u64 list sha2_ctx \<Rightarrow> bytes \<Rightarrow> u64 list sha2_ctx" where
  "sha384_update = sha2_update sha512_block 128"
definition sha384_final :: "u64 list sha2_ctx \<Rightarrow> bytes \<times> u64 list sha2_ctx" where
  "sha384_final ctx =
     (let ctx = sha2_final sha512_block 17 128 ctx
      in (concat (map (\<lambda>i. UNPACK64 (h_state ctx ! i)) [0..<6]), ctx))"
definition sha384 :: "bytes \<Rightarrow> bytes" where
  "sha384 message = fst (sha384_final (sha384_update sha384_init message))"

section \<open>The unrolled rounds are the rolled loop\<close>

definition sha2_round :: "('a::len word \<Rightarrow> 'a word) \<Rightarrow> ('a word \<Rightarrow> 'a word) \<Rightarrow> 'a word list \<Rightarrow> 'a word list
    \<Rightarrow> 'a word list \<Rightarrow> nat \<Rightarrow> 'a word list" where
  "sha2_round F1 F2 k w v j =
     (let t1 = v ! 7 + F2 (v ! 4) + CH (v ! 4) (v ! 5) (v ! 6) + k ! j + w ! j;
          t2 = F1 (v ! 0) + MAJ (v ! 0) (v ! 1) (v ! 2)
      in [t1 + t2, v ! 0, v ! 1, v ! 2, v ! 3 + t1, v ! 4, v ! 5, v ! 6])"

text \<open>\<open>wv_view s\<close> lists the working variables after \<open>s\<close> renamings in the order of the standard.\<close>

definition wv_view :: "nat \<Rightarrow> 'a list \<Rightarrow> 'a list" where
  "wv_view s wv = map (\<lambda>i. wv ! ((i + 8 - s) mod 8)) [0..<8]"

lemma list_8: "length wv = 8 \<Longrightarrow> \<exists>a b c d e f g h. wv = [a, b, c, d, e, f, g, h]"
  by (simp add: length_Suc_conv numeral_eq_Suc) blast

lemma upt_8: "[0..<8] = [0, 1, 2, 3, 4, 5, 6, 7 :: nat]"
  by (simp add: upt_rec)

lemma SHA2_EXP_view:
  assumes "length wv = 8"
  shows "wv_view 1 (SHA2_EXP F1 F2 k w 0 1 2 3 4 5 6 7 j wv) = sha2_round F1 F2 k w (wv_view 0 wv) j"
    "wv_view 2 (SHA2_EXP F1 F2 k w 7 0 1 2 3 4 5 6 j wv) = sha2_round F1 F2 k w (wv_view 1 wv) j"
    "wv_view 3 (SHA2_EXP F1 F2 k w 6 7 0 1 2 3 4 5 j wv) = sha2_round F1 F2 k w (wv_view 2 wv) j"
    "wv_view 4 (SHA2_EXP F1 F2 k w 5 6 7 0 1 2 3 4 j wv) = sha2_round F1 F2 k w (wv_view 3 wv) j"
    "wv_view 5 (SHA2_EXP F1 F2 k w 4 5 6 7 0 1 2 3 j wv) = sha2_round F1 F2 k w (wv_view 4 wv) j"
    "wv_view 6 (SHA2_EXP F1 F2 k w 3 4 5 6 7 0 1 2 j wv) = sha2_round F1 F2 k w (wv_view 5 wv) j"
    "wv_view 7 (SHA2_EXP F1 F2 k w 2 3 4 5 6 7 0 1 j wv) = sha2_round F1 F2 k w (wv_view 6 wv) j"
    "wv_view 0 (SHA2_EXP F1 F2 k w 1 2 3 4 5 6 7 0 j wv) = sha2_round F1 F2 k w (wv_view 7 wv) j"
  using list_8 [OF assms]
  by (auto simp: wv_view_def upt_8 SHA2_EXP_def sha2_round_def Let_def)

lemma wv_view_0: "length wv = 8 \<Longrightarrow> wv_view 0 wv = wv"
  using list_8 [of wv] by (auto simp: wv_view_def upt_8)

lemma length_SHA2_EXP [bytes_len, simp]: "length (SHA2_EXP F1 F2 k w a b c d e f g h j wv) = length wv"
  by (simp add: SHA2_EXP_def Let_def)

lemma length_SHA2_EXP8 [bytes_len, simp]: "length (SHA2_EXP8 F1 F2 k w j wv) = length wv"
  by (simp add: SHA2_EXP8_def)

lemma SHA2_EXP8_rounds:
  "length wv = 8 \<Longrightarrow> SHA2_EXP8 F1 F2 k w j wv = foldl (sha2_round F1 F2 k w) wv [j ..< j + 8]"
proof -
  assume len: "length wv = 8"
  have "SHA2_EXP8 F1 F2 k w j wv = wv_view 0 (SHA2_EXP8 F1 F2 k w j wv)"
    by (simp add: wv_view_0 len)
  also have "\<dots> = foldl (sha2_round F1 F2 k w) (wv_view 0 wv) [j, j+1, j+2, j+3, j+4, j+5, j+6, j+7]"
    unfolding SHA2_EXP8_def Let_def
    by (simp only: SHA2_EXP_view length_SHA2_EXP len foldl_Cons foldl_Nil)
  also have "[j, j+1, j+2, j+3, j+4, j+5, j+6, j+7] = [j ..< j + 8]"
    by (simp add: upt_rec)
  finally show ?thesis by (simp add: wv_view_0 len)
qed

lemma length_foldl_sha2_round:
  "length v = 8 \<Longrightarrow> length (foldl (sha2_round F1 F2 k w) v js) = 8"
  by (induction js arbitrary: v) (simp_all add: sha2_round_def Let_def)

lemma sha2_rounds_unrolled:
  "length wv = 8 \<Longrightarrow> foldl (\<lambda>wv i. SHA2_EXP8 F1 F2 k w (8 * i) wv) wv [0..<n] =
     foldl (sha2_round F1 F2 k w) wv [0 ..< 8 * n]
   \<and> length (foldl (\<lambda>wv i. SHA2_EXP8 F1 F2 k w (8 * i) wv) wv [0..<n]) = 8"
proof (induction n)
  case (Suc n)
  have "[0 ..< 8 * Suc n] = [0 ..< 8 * n] @ [8 * n ..< 8 * n + 8]"
    using upt_add_eq_append [of 0 "8 * n" 8] by (simp add: add.commute)
  moreover have len: "length (foldl (sha2_round F1 F2 k w) wv [0..<8 * n]) = 8"
    by (rule length_foldl_sha2_round) (rule Suc.prems)
  ultimately show ?case using Suc
    by (simp add: SHA2_EXP8_rounds [OF len] length_foldl_sha2_round)
qed simp

text \<open>The block function of the standard, as the rolled loop of the code writes it.\<close>

definition sha2_block_ref :: "('a::len word \<Rightarrow> 'a word) \<Rightarrow> ('a word \<Rightarrow> 'a word) \<Rightarrow> ('a word \<Rightarrow> 'a word)
    \<Rightarrow> ('a word \<Rightarrow> 'a word) \<Rightarrow> 'a word list \<Rightarrow> nat \<Rightarrow> 'a word list \<Rightarrow> 'a word list \<Rightarrow> 'a word list" where
  "sha2_block_ref F1 F2 F3 F4 k rounds h msg =
     (let w = (SHA2_SCR F3 F4 ^^ (rounds - 16)) msg
      in map2 (+) h (foldl (sha2_round F1 F2 k w) h [0 ..< rounds]))"

lemma sha256_block_ref:
  "length h = 8 \<Longrightarrow> sha256_block h b =
     sha2_block_ref SHA256_F1 SHA256_F2 SHA256_F3 SHA256_F4 sha256_k 64 h
       (map (\<lambda>j. PACK32 (drop (4 * j) b)) [0..<16])"
  using sha2_rounds_unrolled [of h _ _ _ _ 8]
  by (simp add: sha256_block_def sha2_block_ref_def Let_def del: upt_rec_numeral)

lemma sha512_block_ref:
  "length h = 8 \<Longrightarrow> sha512_block h b =
     sha2_block_ref SHA512_F1 SHA512_F2 SHA512_F3 SHA512_F4 sha512_k 80 h
       (map (\<lambda>j. PACK64 (drop (8 * j) b)) [0..<16])"
  using sha2_rounds_unrolled [of h _ _ _ _ 10]
  by (simp add: sha512_block_def sha2_block_ref_def Let_def del: upt_rec_numeral)

section \<open>A context in step with its message\<close>

definition sha2_inv :: "('h \<Rightarrow> bytes \<Rightarrow> 'h) \<Rightarrow> nat \<Rightarrow> 'h \<Rightarrow> 'h sha2_ctx \<Rightarrow> bytes \<Rightarrow> bool" where
  "sha2_inv f B h0 ctx m \<longleftrightarrow>
     md_inv f B h0 (h_state ctx) (ctx_block ctx) m \<and> ctx_len ctx = length m mod B
     \<and> length (ctx_block ctx) = 2 * B \<and> ctx_tot_len ctx = of_nat (length m - length m mod B)"

lemma sha2_inv_init: "0 < B \<Longrightarrow> sha2_inv f B h0 (sha2_init B h0) []"
  by (simp add: sha2_inv_def sha2_init_def md_inv_init)

lemma sha2_update_inv:
  assumes B: "0 < B" and inv: "sha2_inv f B h0 ctx m"
  shows "sha2_inv f B h0 (sha2_update f B ctx d) (m @ d)"
proof -
  let ?u = "length m mod B" and ?n = "length d"
  have u: "?u < B" using B by simp
  have mdi: "md_inv f B h0 (h_state ctx) (ctx_block ctx) m" and len: "ctx_len ctx = ?u"
    and blk: "length (ctx_block ctx) = 2 * B" and tot: "ctx_tot_len ctx = of_nat (length m - ?u)"
    using inv by (simp_all add: sha2_inv_def)
  show ?thesis
  proof (cases "?u + ?n < B")
    case True
    have mod: "(length m + ?n) mod B = ?u + ?n"
      using True by (metis mod_add_left_eq mod_less)
    from True have upd: "sha2_update f B ctx d =
        ctx\<lparr>ctx_block := memcpy_at (ctx_block ctx) ?u d, ctx_len := ?u + ?n\<rparr>"
      by (simp add: sha2_update_def Let_def len)
    have "length m + ?n - (?u + ?n) = length m - ?u" by simp
    then show ?thesis
      using md_inv_short [OF B mdi True] True blk tot mod by (simp add: upd sha2_inv_def)
  next
    case False
    define r where "r = B - ?u"
    have r: "r \<le> ?n" "?u + r = B" using False u by (auto simp: r_def)
    define s where "s = drop r d"
    define b where "b = length s div B"
    define rm where "rm = length s mod B"
    have sl: "length s = ?n - r" "length s = b * B + rm" by (simp_all add: s_def b_def rm_def)
    define blk1 where "blk1 = memcpy_at (ctx_block ctx) ?u (take r d)"
    have blk1: "length blk1 = 2 * B" "take B blk1 = take ?u (ctx_block ctx) @ take r d"
      using r(1) blk u by (simp_all add: blk1_def memcpy_at_def r_def)
    define h2 where "h2 = md_blocks f B b (f (h_state ctx) (take B blk1)) s"
    define blk2 where "blk2 = memcpy_at blk1 0 (take rm (drop (b * B) s))"
    have upd: "sha2_update f B ctx d =
        ctx\<lparr>h_state := h2, ctx_block := blk2, ctx_len := rm, ctx_tot_len := ctx_tot_len ctx + of_nat ((b + 1) * B)\<rparr>"
      using False r(1) sl(1)
      by (simp add: sha2_update_def Let_def len r_def [symmetric] s_def [symmetric]
          blk1_def [symmetric] b_def rm_def h2_def blk2_def)
    have rmB: "rm < B" using B by (simp add: rm_def)
    have bB: "b * B = length s - length s mod B" by (simp add: b_def minus_mod_eq_div_mult)
    have h2: "h2 = md_fold f B (f (h_state ctx) (take B blk1)) s"
      unfolding h2_def by (rule md_blocks_all [OF B b_def])
    have blk2: "length blk2 = 2 * B" "take rm blk2 = md_rest B s"
      using sl(2) rmB blk1(1) by (simp_all add: blk2_def memcpy_at_def md_rest_def flip: bB)
    have "md_inv f B h0 h2 blk2 (m @ d)" and mod: "(length m + ?n) mod B = rm"
      using md_inv_fill [OF B mdi r(2) r(1) blk1(2), of blk2] blk2
      by (simp_all add: h2 s_def [symmetric] rm_def del: length_drop)
    note \<open>md_inv f B h0 h2 blk2 (m @ d)\<close> mod
    moreover have lm: "length m + ?n = (length m - ?u) + (b + 1) * B + rm"
    proof -
      have "?n = r + (b * B + rm)" using sl r(1) by linarith
      moreover obtain q where "length m = q + ?u"
        using mod_less_eq_dividend [of "length m" B] le_Suc_ex by (metis add.commute)
      then have "length m = (length m - ?u) + ?u" by linarith
      moreover have "(b + 1) * B = b * B + B" by simp
      ultimately show ?thesis using r(2) by linarith
    qed
    moreover have "ctx_tot_len ctx + of_nat ((b + 1) * B) = (of_nat (length m + ?n - rm) :: u32)"
    proof -
      have "length m + ?n - rm = (length m - ?u) + (b + 1) * B" using lm by linarith
      then show ?thesis by (simp only: tot of_nat_add)
    qed
    ultimately show ?thesis
      by (simp add: upd sha2_inv_def blk2 del: of_nat_add of_nat_mult of_nat_diff)
  qed
qed

section \<open>Padding\<close>

lemma UNPACK32_be_bytes: "n < 2 ^ 32 \<Longrightarrow> UNPACK32 (of_nat n) = be_bytes 4 n"
  using ucast_drop_bit_of_nat [of n 0] ucast_drop_bit_of_nat [of n 8]
    ucast_drop_bit_of_nat [of n 16] ucast_drop_bit_of_nat [of n 24]
  unfolding be_bytes_4 UNPACK32_def by simp

lemma be_bytes_UNPACK32:
  assumes "n < 2 ^ 32"
  shows "be_bytes (r + 4) n = replicate r 0 @ UNPACK32 (of_nat n)"
proof -
  have "n div 256 ^ 4 = 0" using assms by simp
  then show ?thesis
    using assms by (simp add: be_bytes_add be_bytes_0 UNPACK32_be_bytes del: be_bytes.simps)
qed

lemma length_UNPACK32 [bytes_len]: "length (UNPACK32 x) = 4"
  by (simp add: UNPACK32_def)

lemma pad_bytes:
  assumes "u + 5 + k \<le> length blk" and "length n = 4"
  shows "memcpy_at ((memcpy_at blk u (replicate (5 + k) 0))[u := x]) (u + 1 + k) n =
    take u blk @ x # replicate k 0 @ n @ drop (u + 5 + k) blk"
proof -
  have u: "length (take u blk) = u" using assms by simp
  have "memcpy_at blk u (replicate (5 + k) 0) = take u blk @ 0 # replicate (k + 4) 0 @ drop (u + 5 + k) blk"
    by (simp add: memcpy_at_def add_ac flip: replicate_Suc)
  moreover have "(take u blk @ 0 # R)[u := x] = take u blk @ x # R" for R
    using list_update_length [of "take u blk" 0 R x] by (simp only: u)
  ultimately have "(memcpy_at blk u (replicate (5 + k) 0))[u := x] =
      take u blk @ (x # replicate k 0) @ replicate 4 0 @ drop (u + 5 + k) blk"
    by (simp only: replicate_add append_assoc append_Cons)
  moreover have "length (take u blk @ x # replicate k 0) = u + 1 + k" using u by simp
  moreover have "memcpy_at (a @ b @ c) (length a) n = a @ n @ c" if "length b = 4" for a b c
    using that assms(2) by (simp add: memcpy_at_def)
  ultimately show ?thesis
    by (metis append_Cons append_assoc length_replicate)
qed

text \<open>The padded blocks that \<^verbatim>\<open>final\<close> builds are the rest of the message and the padding.\<close>

lemma sha2_pad_block_correct:
  assumes B: "5 \<le> L" "L \<le> B" and inv: "sha2_inv f B h0 ctx m" and small: "length m < 2 ^ 29"
    and pb: "sha2_pad_block L B ctx = (nb, blk)"
  shows "take (nb * B) blk = md_rest B m @ md_pad_be L B (length m)"
    and "nb * B \<le> length blk" and "length (md_rest B m @ md_pad_be L B (length m)) = nb * B"
proof -
  let ?u = "length m mod B"
  define z where "z = nb * B - ?u - L"
  have u: "?u < B" using B by simp
  have len: "ctx_len ctx = ?u" and lb: "length (ctx_block ctx) = 2 * B"
    and rest: "take ?u (ctx_block ctx) = md_rest B m" and tot: "ctx_tot_len ctx = of_nat (length m - ?u)"
    using inv by (simp_all add: sha2_inv_def md_inv_def)
  have nb: "nb = 1 + (if B - L < ?u then 1 else 0)"
    using pb by (simp add: sha2_pad_block_def Let_def len)
  have nbB: "?u + L + z = nb * B" "nb * B \<le> 2 * B"
  proof -
    have "?u + L \<le> nb * B" proof (cases "B - L < ?u")
      case True
      then have "nb * B = B + B" by (simp add: nb)
      then show ?thesis using u B by linarith
    qed (use B in \<open>simp add: nb\<close>)
    then show "?u + L + z = nb * B" unfolding z_def by linarith
    show "nb * B \<le> 2 * B" by (simp add: nb)
  qed
  have pad: "md_pad_be L B (length m) = 0x80 # replicate (z + (L - 5)) 0 @ UNPACK32 (of_nat (8 * length m))"
  proof -
    have L: "L - 1 = (L - 5) + 4" using B by simp
    have z: "(B - (length m + L) mod B) mod B = z"
      using pad_zeros [of L B "length m"] B by (simp only: z_def nb)
    have "8 * length m < 2 ^ 32" using small by simp
    then show ?thesis
      unfolding md_pad_be_def z L by (simp only: be_bytes_UNPACK32 replicate_add append_assoc)
  qed
  have bits: "push_bit 3 (ctx_tot_len ctx + of_nat (ctx_len ctx)) = (of_nat (8 * length m) :: u32)"
    by (simp add: tot len push_bit_eq_mult flip: of_nat_add)
  have blk: "blk = memcpy_at ((memcpy_at (ctx_block ctx) ?u (replicate (nb * B - ?u) 0))[?u := 0x80])
      (nb * B - 4) (UNPACK32 (of_nat (8 * length m)))"
    using pb by (simp add: sha2_pad_block_def Let_def bits[unfolded len] len nb del: of_nat_mult)
  have ge: "?u + 5 \<le> nb * B" using nbB(1) B by linarith
  obtain k where k: "nb * B = ?u + 5 + k" using ge le_Suc_ex by blast
  have kz: "k = z + (L - 5)" using nbB(1) k B by linarith
  have len_k: "?u + 5 + k \<le> length (ctx_block ctx)" using k nbB(2) lb by linarith
  have blk': "blk = take ?u (ctx_block ctx) @ 0x80 # replicate k 0 @ UNPACK32 (of_nat (8 * length m))
      @ drop (?u + 5 + k) (ctx_block ctx)"
  proof -
    have "nb * B - ?u = 5 + k" "nb * B - 4 = ?u + 1 + k" using k by linarith+
    then show ?thesis
      unfolding blk by (simp only: pad_bytes [OF len_k length_UNPACK32])
  qed
  have ul: "length (take ?u (ctx_block ctx)) = ?u" using len_k by simp
  show "take (nb * B) blk = md_rest B m @ md_pad_be L B (length m)"
  proof -
    let ?P = "take ?u (ctx_block ctx) @ 0x80 # replicate k 0 @ UNPACK32 (of_nat (8 * length m))"
    have "length ?P = nb * B"
      by (simp only: k length_append length_Cons length_UNPACK32 length_replicate ul)
    moreover have "blk = ?P @ drop (?u + 5 + k) (ctx_block ctx)" unfolding blk' by simp
    ultimately have "take (nb * B) blk = ?P" by (metis append_eq_conv_conj)
    then show ?thesis by (simp only: pad kz rest)
  qed
  show "nb * B \<le> length blk"
    by (simp only: blk' k length_append length_Cons length_UNPACK32 length_replicate ul)
  show "length (md_rest B m @ md_pad_be L B (length m)) = nb * B"
    using k by (simp add: pad kz length_UNPACK32)
qed

lemma sha2_final_state:
  assumes B: "5 \<le> L" "L \<le> B" and inv: "sha2_inv f B h0 ctx m" and small: "length m < 2 ^ 29"
  shows "h_state (sha2_final f L B ctx) = md_fold f B h0 (m @ md_pad_be L B (length m))"
proof -
  obtain nb blk where pb: "sha2_pad_block L B ctx = (nb, blk)" by fastforce
  note pbc = sha2_pad_block_correct [OF B inv small pb]
  have pos: "0 < B" using B by simp
  have "h_state (sha2_final f L B ctx) = md_fold f B (h_state ctx) (take (nb * B) blk)"
    by (simp add: sha2_final_def pb md_blocks_fold [OF pos pbc(2)])
  also have "\<dots> = md_fold f B (md_fold f B h0 m) (md_rest B m @ md_pad_be L B (length m))"
    using inv by (simp only: pbc(1) sha2_inv_def md_inv_def)
  finally show ?thesis by (simp only: md_fold_continue [OF pos, of f h0 m "md_pad_be L B (length m)"])
qed


section \<open>The digests\<close>

text \<open>Digests as the standard defines them: padded message, rolled rounds, unbounded length.\<close>

definition sha256_spec :: "bytes \<Rightarrow> bytes" where
  "sha256_spec m = concat (map UNPACK32 (md_fold
     (\<lambda>h b. sha2_block_ref SHA256_F1 SHA256_F2 SHA256_F3 SHA256_F4 sha256_k 64 h
        (map (\<lambda>j. PACK32 (drop (4 * j) b)) [0..<16])) 64 sha256_h0 (m @ md_pad_be 9 64 (length m))))"

definition sha512_spec :: "bytes \<Rightarrow> bytes" where
  "sha512_spec m = concat (map UNPACK64 (md_fold
     (\<lambda>h b. sha2_block_ref SHA512_F1 SHA512_F2 SHA512_F3 SHA512_F4 sha512_k 80 h
        (map (\<lambda>j. PACK64 (drop (8 * j) b)) [0..<16])) 128 sha512_h0 (m @ md_pad_be 17 128 (length m))))"

lemma length_sha2_block_ref [bytes_len]:
  "length h = 8 \<Longrightarrow> length (sha2_block_ref F1 F2 F3 F4 k n h w) = 8"
  by (simp add: sha2_block_ref_def Let_def length_foldl_sha2_round)

lemma sha2_h0_length [bytes_len]:
  "length sha256_h0 = 8" "length sha512_h0 = 8" "length sha224_h0 = 8" "length sha384_h0 = 8"
  by (simp_all add: sha256_h0_def sha512_h0_def sha224_h0_def sha384_h0_def)

lemma sha256_fold_ref:
  "length h = 8 \<Longrightarrow> md_fold sha256_block 64 h m = md_fold
     (\<lambda>h b. sha2_block_ref SHA256_F1 SHA256_F2 SHA256_F3 SHA256_F4 sha256_k 64 h
        (map (\<lambda>j. PACK32 (drop (4 * j) b)) [0..<16])) 64 h m
   \<and> length (md_fold sha256_block 64 h m) = 8"
  by (rule md_fold_cong_inv [where P = "\<lambda>h. length h = 8"])
    (simp_all add: sha256_block_ref length_sha2_block_ref del: upt_rec_numeral)

lemma sha512_fold_ref:
  "length h = 8 \<Longrightarrow> md_fold sha512_block 128 h m = md_fold
     (\<lambda>h b. sha2_block_ref SHA512_F1 SHA512_F2 SHA512_F3 SHA512_F4 sha512_k 80 h
        (map (\<lambda>j. PACK64 (drop (8 * j) b)) [0..<16])) 128 h m
   \<and> length (md_fold sha512_block 128 h m) = 8"
  by (rule md_fold_cong_inv [where P = "\<lambda>h. length h = 8"])
    (simp_all add: sha512_block_ref length_sha2_block_ref del: upt_rec_numeral)

lemma sha2_updates_inv:
  "0 < B \<Longrightarrow> sha2_inv f B h0 ctx m \<Longrightarrow> sha2_inv f B h0 (foldl (sha2_update f B) ctx ds) (m @ concat ds)"
proof (induction ds arbitrary: ctx m)
  case (Cons d ds)
  from Cons.IH [OF Cons.prems(1) sha2_update_inv [OF Cons.prems, of d]] show ?case by simp
qed simp

lemma map_nth_8: "length xs = 8 \<Longrightarrow> map (\<lambda>i. g (xs ! i)) [0..<8] = map g xs"
  by (metis map_map map_nth comp_def list.map_cong0)

lemma sha256_final_inv:
  assumes "sha2_inv sha256_block 64 sha256_h0 ctx m" and "length m < 2 ^ 29"
  shows "fst (sha256_final ctx) = sha256_spec m"
    and "h_state (snd (sha256_final ctx)) = md_fold sha256_block 64 sha256_h0 (m @ md_pad_be 9 64 (length m))"
proof -
  define H where "H = md_fold sha256_block 64 sha256_h0 (m @ md_pad_be 9 64 (length m))"
  have st: "h_state (sha2_final sha256_block 9 64 ctx) = H"
    unfolding H_def by (rule sha2_final_state [OF _ _ assms]) simp_all
  have "length H = 8" and "sha256_spec m = concat (map UNPACK32 H)"
    unfolding H_def sha256_spec_def
    by (simp_all only: sha256_fold_ref [OF sha2_h0_length(1), THEN conjunct2]
        sha256_fold_ref [OF sha2_h0_length(1), THEN conjunct1, symmetric])
  then show "fst (sha256_final ctx) = sha256_spec m"
    by (simp only: sha256_final_def Let_def fst_conv map_nth_8 st)
  show "h_state (snd (sha256_final ctx)) = md_fold sha256_block 64 sha256_h0 (m @ md_pad_be 9 64 (length m))"
    by (simp only: sha256_final_def Let_def snd_conv st H_def)
qed

lemma sha512_final_inv:
  assumes "sha2_inv sha512_block 128 sha512_h0 ctx m" and "length m < 2 ^ 29"
  shows "fst (sha512_final ctx) = sha512_spec m"
    and "h_state (snd (sha512_final ctx)) = md_fold sha512_block 128 sha512_h0 (m @ md_pad_be 17 128 (length m))"
proof -
  define H where "H = md_fold sha512_block 128 sha512_h0 (m @ md_pad_be 17 128 (length m))"
  have st: "h_state (sha2_final sha512_block 17 128 ctx) = H"
    unfolding H_def by (rule sha2_final_state [OF _ _ assms]) simp_all
  have "length H = 8" and "sha512_spec m = concat (map UNPACK64 H)"
    unfolding H_def sha512_spec_def
    by (simp_all only: sha512_fold_ref [OF sha2_h0_length(2), THEN conjunct2]
        sha512_fold_ref [OF sha2_h0_length(2), THEN conjunct1, symmetric])
  then show "fst (sha512_final ctx) = sha512_spec m"
    by (simp only: sha512_final_def Let_def fst_conv map_nth_8 st)
  show "h_state (snd (sha512_final ctx)) = md_fold sha512_block 128 sha512_h0 (m @ md_pad_be 17 128 (length m))"
    by (simp only: sha512_final_def Let_def snd_conv st H_def)
qed

text \<open>
  C4. Hashing a message in any sequence of \<^verbatim>\<open>sha256_update\<close> calls, however it is cut into
  pieces, gives the SHA-256 digest of the whole, although the code renames the working
  variables instead of moving them; the bound is that of its 32-bit length field.
\<close>

theorem sha256_incremental:
  assumes "length (concat ds) < 2 ^ 29"
  shows "fst (sha256_final (foldl sha256_update sha256_init ds)) = sha256_spec (concat ds)"
  using sha256_final_inv(1) [OF sha2_updates_inv [OF _ sha2_inv_init, of 64, simplified] assms]
  by (simp add: sha256_update_def sha256_init_def)

theorem sha256_incremental_witness:
  "fst (sha256_final (foldl sha256_update sha256_init [[0x61], [], [0x62, 0x63]])) = sha256_spec [0x61, 0x62, 0x63]"
  using sha256_incremental [of "[[0x61], [], [0x62, 0x63]]"] by simp

text \<open>The same for \<^verbatim>\<open>sha512_update\<close> and \<^verbatim>\<open>sha512_final\<close>.\<close>

theorem sha512_incremental:
  assumes "length (concat ds) < 2 ^ 29"
  shows "fst (sha512_final (foldl sha512_update sha512_init ds)) = sha512_spec (concat ds)"
  using sha512_final_inv(1) [OF sha2_updates_inv [OF _ sha2_inv_init, of 128, simplified] assms]
  by (simp add: sha512_update_def sha512_init_def)

theorem sha512_incremental_witness:
  "fst (sha512_final (foldl sha512_update sha512_init [[0x61], [], [0x62, 0x63]])) = sha512_spec [0x61, 0x62, 0x63]"
  using sha512_incremental [of "[[0x61], [], [0x62, 0x63]]"] by simp

end
