(* ===== verification/PBKDF2.thy ===== *)
theory PBKDF2
  imports SHA1 SHA2
begin

text \<open>
  HMAC and PBKDF2 of \<^verbatim>\<open>src/src/fastpbkdf2.c\<close>. The macro \<^verbatim>\<open>DECL_PBKDF2\<close> declares the same
  functions for every hash function; its arguments are the record \<open>hash_ops\<close>, the functions
  it declares are the definitions below, and \<open>pbkdf2_sha1\<close> and so on are its three uses. The
  locale \<open>hash_impl\<close> states what the macro relies on in a hash function, and inside it the
  fast form, which replays saved chaining values on a prepared padding block, is shown to be
  PBKDF2 of RFC 8018 over HMAC of RFC 2104. The three hash functions interpret the locale.
\<close>

section \<open>The functions of the macro\<close>

definition write32_be :: "u32 \<Rightarrow> bytes" where
  "write32_be n = [ucast (drop_bit 24 n AND 0xFF), ucast (drop_bit 16 n AND 0xFF),
     ucast (drop_bit 8 n AND 0xFF), ucast (drop_bit 0 n AND 0xFF)]"

definition write64_be :: "u64 \<Rightarrow> bytes" where
  "write64_be n = map (\<lambda>s. ucast (drop_bit s n AND 0xFF)) [56, 48, 40, 32, 24, 16, 8, 0]"

text \<open>\<^verbatim>\<open>md_pad(block, blocksz, used, msg)\<close>; the first \<open>used\<close> bytes are left as they are.\<close>

definition md_pad :: "bytes \<Rightarrow> nat \<Rightarrow> nat \<Rightarrow> nat \<Rightarrow> bytes" where
  "md_pad block blocksz used msg =
     (let block = memcpy_at block used (replicate (blocksz - used - 4) 0);
          block = block[used := 0x80]
      in memcpy_at block (blocksz - 4) (write32_be (of_nat (msg * 8))))"

record 'c hash_ops =
  blocksz :: nat
  hashsz :: nat
  h_init :: 'c
  h_update :: "'c \<Rightarrow> bytes \<Rightarrow> 'c"
  h_xform :: "'c \<Rightarrow> bytes \<Rightarrow> 'c"
  h_final :: "'c \<Rightarrow> bytes \<times> 'c"
  h_xcpy :: "'c \<Rightarrow> 'c \<Rightarrow> 'c"
  h_xtract :: "'c \<Rightarrow> bytes"
  h_xxor :: "'c \<Rightarrow> 'c \<Rightarrow> 'c"

record 'c HMAC_CTX =
  inner :: 'c
  outer :: 'c

definition HMAC_INIT :: "'c hash_ops \<Rightarrow> bytes \<Rightarrow> 'c HMAC_CTX" where
  "HMAC_INIT A key =
     (let key = (if blocksz A < length key then fst (h_final A (h_update A (h_init A) key)) else key);
          k = key @ replicate (blocksz A - length key) 0;
          blk_inner = map (\<lambda>b. 0x36 XOR b) k;
          blk_outer = map (\<lambda>b. 0x5c XOR b) k
      in \<lparr>inner = h_update A (h_init A) blk_inner, outer = h_update A (h_init A) blk_outer\<rparr>)"

definition HMAC_UPDATE :: "'c hash_ops \<Rightarrow> 'c HMAC_CTX \<Rightarrow> bytes \<Rightarrow> 'c HMAC_CTX" where
  "HMAC_UPDATE A ctx data = ctx\<lparr>inner := h_update A (inner ctx) data\<rparr>"

definition HMAC_FINAL :: "'c hash_ops \<Rightarrow> 'c HMAC_CTX \<Rightarrow> bytes \<times> 'c HMAC_CTX" where
  "HMAC_FINAL A ctx =
     (let (out, i) = h_final A (inner ctx);
          o1 = h_update A (outer ctx) out;
          (out, o2) = h_final A o1
      in (out, \<lparr>inner = i, outer = o2\<rparr>))"

text \<open>One turn of the loop of \<^verbatim>\<open>PBKDF2_F\<close>.\<close>

definition PBKDF2_F_step :: "'c hash_ops \<Rightarrow> 'c HMAC_CTX \<Rightarrow> 'c HMAC_CTX \<times> bytes \<times> 'c
    \<Rightarrow> 'c HMAC_CTX \<times> bytes \<times> 'c" where
  "PBKDF2_F_step A startctx s =
     (case s of (ctx, Ublock, result) \<Rightarrow>
        let i = h_xform A (h_xcpy A (inner ctx) (inner startctx)) Ublock;
            Ublock = memcpy_at Ublock 0 (h_xtract A i);
            u = h_xform A (h_xcpy A (outer ctx) (outer startctx)) Ublock;
            Ublock = memcpy_at Ublock 0 (h_xtract A u)
        in (\<lparr>inner = i, outer = u\<rparr>, Ublock, h_xxor A result u))"

definition PBKDF2_F :: "'c hash_ops \<Rightarrow> 'c HMAC_CTX \<Rightarrow> u32 \<Rightarrow> bytes \<Rightarrow> nat \<Rightarrow> bytes" where
  "PBKDF2_F A startctx counter salt iterations =
     (let countbuf = write32_be counter;
          Ublock = md_pad (replicate (blocksz A) 0) (blocksz A) (hashsz A) (blocksz A + hashsz A);
          ctx = HMAC_UPDATE A startctx salt;
          ctx = HMAC_UPDATE A ctx countbuf;
          (u, ctx) = HMAC_FINAL A ctx;
          Ublock = memcpy_at Ublock 0 u;
          result = outer ctx;
          (ctx, Ublock, result) = (PBKDF2_F_step A startctx ^^ (iterations - 1)) (ctx, Ublock, result)
      in h_xtract A result)"

text \<open>\<^verbatim>\<open>PBKDF2\<close>; a failed \<^verbatim>\<open>assert\<close> is the result \<open>None\<close>, and \<open>nout\<close> is the length of the key asked for.\<close>

text \<open>The number of blocks is computed with 32 bits; an output that needs more is not filled to its end.\<close>

definition PBKDF2 :: "'c hash_ops \<Rightarrow> bytes \<Rightarrow> bytes \<Rightarrow> nat \<Rightarrow> nat \<Rightarrow> bytes option" where
  "PBKDF2 A pw salt iterations nout =
     (if iterations = 0 \<or> nout = 0 then None
      else
        let ctx = HMAC_INIT A pw;
            blocks_needed = ((nout + hashsz A - 1) mod 2 ^ 32) div hashsz A
        in Some (foldl (\<lambda>out counter.
             let block = PBKDF2_F A ctx (of_nat counter) salt iterations;
                 offset = (counter - 1) * hashsz A;
                 taken = min (nout - offset) (hashsz A)
             in memcpy_at out offset (take taken block)) (replicate nout 0) [1 ..< blocks_needed + 1]))"

section \<open>The three uses of the macro\<close>

definition sha1_ops :: "bool \<Rightarrow> sha1_ctx hash_ops" where
  "sha1_ops le = \<lparr>blocksz = 64, hashsz = 20, h_init = sha1_init, h_update = sha1_update le,
     h_xform = (\<lambda>c b. c\<lparr>sha1_h := sha1_transform le (sha1_h c) b\<rparr>), h_final = sha1_final le,
     h_xcpy = (\<lambda>out src. out\<lparr>sha1_h := sha1_h src\<rparr>),
     h_xtract = (\<lambda>c. concat (map (\<lambda>i. write32_be (sha1_h c ! i)) [0..<5])),
     h_xxor = (\<lambda>out src. out\<lparr>sha1_h := map2 (XOR) (sha1_h out) (sha1_h src)\<rparr>)\<rparr>"

definition sha256_ops :: "u32 list sha2_ctx hash_ops" where
  "sha256_ops = \<lparr>blocksz = 64, hashsz = 32, h_init = sha256_init, h_update = sha256_update,
     h_xform = (\<lambda>c b. c\<lparr>h_state := sha256_transf (h_state c) b 1\<rparr>), h_final = sha256_final,
     h_xcpy = (\<lambda>out src. out\<lparr>h_state := h_state src\<rparr>),
     h_xtract = (\<lambda>c. concat (map (\<lambda>i. write32_be (h_state c ! i)) [0..<8])),
     h_xxor = (\<lambda>out src. out\<lparr>h_state := map2 (XOR) (h_state out) (h_state src)\<rparr>)\<rparr>"

definition sha512_ops :: "u64 list sha2_ctx hash_ops" where
  "sha512_ops = \<lparr>blocksz = 128, hashsz = 64, h_init = sha512_init, h_update = sha512_update,
     h_xform = (\<lambda>c b. c\<lparr>h_state := sha512_transf (h_state c) b 1\<rparr>), h_final = sha512_final,
     h_xcpy = (\<lambda>out src. out\<lparr>h_state := h_state src\<rparr>),
     h_xtract = (\<lambda>c. concat (map (\<lambda>i. write64_be (h_state c ! i)) [0..<8])),
     h_xxor = (\<lambda>out src. out\<lparr>h_state := map2 (XOR) (h_state out) (h_state src)\<rparr>)\<rparr>"

definition fastpbkdf2_hmac_sha1 :: "bool \<Rightarrow> bytes \<Rightarrow> bytes \<Rightarrow> nat \<Rightarrow> nat \<Rightarrow> bytes option" where
  "fastpbkdf2_hmac_sha1 le = PBKDF2 (sha1_ops le)"
definition fastpbkdf2_hmac_sha256 :: "bytes \<Rightarrow> bytes \<Rightarrow> nat \<Rightarrow> nat \<Rightarrow> bytes option" where
  "fastpbkdf2_hmac_sha256 = PBKDF2 sha256_ops"
definition fastpbkdf2_hmac_sha512 :: "bytes \<Rightarrow> bytes \<Rightarrow> nat \<Rightarrow> nat \<Rightarrow> bytes option" where
  "fastpbkdf2_hmac_sha512 = PBKDF2 sha512_ops"

text \<open>\<^verbatim>\<open>sqlcipher_hmac\<close>; \<open>in2\<close> is \<open>None\<close> for a null pointer.\<close>

definition hmac_with :: "'c hash_ops \<Rightarrow> bytes \<Rightarrow> bytes \<Rightarrow> bytes option \<Rightarrow> bytes" where
  "hmac_with A key in1 in2 =
     (let hctx = HMAC_INIT A key;
          hctx = HMAC_UPDATE A hctx in1;
          hctx = (case in2 of None \<Rightarrow> hctx | Some d \<Rightarrow> HMAC_UPDATE A hctx d)
      in fst (HMAC_FINAL A hctx))"

definition sqlcipher_hmac :: "bool \<Rightarrow> int \<Rightarrow> bytes \<Rightarrow> bytes \<Rightarrow> bytes option \<Rightarrow> bytes" where
  "sqlcipher_hmac le algorithm key in1 in2 =
     (if algorithm = 0 then hmac_with (sha1_ops le) key in1 in2
      else if algorithm = 1 then hmac_with sha256_ops key in1 in2
      else hmac_with sha512_ops key in1 in2)"

section \<open>HMAC and PBKDF2 as the standards define them\<close>

definition hmac_key :: "(bytes \<Rightarrow> bytes) \<Rightarrow> nat \<Rightarrow> bytes \<Rightarrow> bytes" where
  "hmac_key H B key = (let k = (if B < length key then H key else key) in k @ replicate (B - length k) 0)"

definition hmac_spec :: "(bytes \<Rightarrow> bytes) \<Rightarrow> nat \<Rightarrow> bytes \<Rightarrow> bytes \<Rightarrow> bytes" where
  "hmac_spec H B key msg = H (map (\<lambda>b. 0x5c XOR b) (hmac_key H B key)
     @ H (map (\<lambda>b. 0x36 XOR b) (hmac_key H B key) @ msg))"

primrec pbkdf2_U :: "(bytes \<Rightarrow> bytes) \<Rightarrow> bytes \<Rightarrow> nat \<Rightarrow> bytes" where
  "pbkdf2_U prf s 0 = prf s"
| "pbkdf2_U prf s (Suc n) = prf (pbkdf2_U prf s n)"

primrec pbkdf2_T :: "(bytes \<Rightarrow> bytes) \<Rightarrow> bytes \<Rightarrow> nat \<Rightarrow> bytes" where
  "pbkdf2_T prf s 0 = pbkdf2_U prf s 0"
| "pbkdf2_T prf s (Suc n) = xor_bytes (pbkdf2_T prf s n) (pbkdf2_U prf s (Suc n))"

definition pbkdf2_spec :: "(bytes \<Rightarrow> bytes) \<Rightarrow> nat \<Rightarrow> bytes \<Rightarrow> nat \<Rightarrow> nat \<Rightarrow> bytes" where
  "pbkdf2_spec prf hLen salt c dkLen =
     take dkLen (concat (map (\<lambda>i. pbkdf2_T prf (salt @ STORE32_BE (of_nat i)) (c - 1))
       [1 ..< (dkLen + hLen - 1) div hLen + 1]))"

lemma write32_be_STORE32_BE: "write32_be n = STORE32_BE n"
  by (simp add: write32_be_def STORE32_BE_def ucast_and_255)

lemma length_write_be [bytes_len, simp]: "length (write32_be n) = 4" "length (write64_be m) = 8"
  by (simp_all add: write32_be_def write64_be_def)

section \<open>What the macro relies on in a hash function\<close>

text \<open>
  The streaming interface: \<open>st c m\<close> says that context \<open>c\<close> has absorbed \<open>m\<close>, and \<open>H\<close> is the
  hash function the context computes, for messages and updates below \<open>limit\<close> bytes.
\<close>

locale hash_stream =
  fixes A :: "'c hash_ops" and H :: "bytes \<Rightarrow> bytes" and st :: "'c \<Rightarrow> bytes \<Rightarrow> bool" and limit :: nat
  assumes sizes: "0 < hashsz A" "hashsz A + 5 \<le> blocksz A" "blocksz A + blocksz A < limit"
    and len_H: "length (H m) = hashsz A"
    and st_init: "st (h_init A) []"
    and st_update: "st c m \<Longrightarrow> length d < limit \<Longrightarrow> st (h_update A c d) (m @ d)"
    and st_final: "st c m \<Longrightarrow> length m < limit \<Longrightarrow> fst (h_final A c) = H m"

text \<open>What the fast path needs besides: the chaining value after \<open>final\<close> is the digest, and one
  raw block on a saved chaining value finishes a message of a block and a digest.\<close>

definition md_tail :: "'c hash_ops \<Rightarrow> bytes" where
  "md_tail A = 0x80 # replicate (blocksz A - hashsz A - 5) 0 @ write32_be (of_nat ((blocksz A + hashsz A) * 8))"

locale hash_impl = hash_stream A H st limit
  for A :: "'c hash_ops" and H :: "bytes \<Rightarrow> bytes" and st :: "'c \<Rightarrow> bytes \<Rightarrow> bool" and limit :: nat +
  fixes wf :: "'c \<Rightarrow> bool"
  assumes final_state: "st c m \<Longrightarrow> length m < limit \<Longrightarrow>
      h_xtract A (snd (h_final A c)) = H m \<and> wf (snd (h_final A c))"
    and xform: "st c k \<Longrightarrow> length k = blocksz A \<Longrightarrow> length u = hashsz A \<Longrightarrow>
      h_xtract A (h_xform A (h_xcpy A c' c) (u @ md_tail A)) = H (k @ u)
      \<and> wf (h_xform A (h_xcpy A c' c) (u @ md_tail A))"
    and xxor: "wf a \<Longrightarrow> wf b \<Longrightarrow>
      h_xtract A (h_xxor A a b) = xor_bytes (h_xtract A a) (h_xtract A b) \<and> wf (h_xxor A a b)"

lemma md_pad_tail:
  assumes "hs + 5 \<le> B"
  shows "\<exists>p. length p = hs \<and> md_pad (replicate B 0) B hs (B + hs) =
    p @ 0x80 # replicate (B - hs - 5) 0 @ write32_be (of_nat ((B + hs) * 8))"
proof -
  obtain k where B: "B = hs + 5 + k" using assms le_Suc_ex by blast
  have p: "length (replicate hs (0 :: byte)) = hs" by simp
  have "memcpy_at (replicate B 0) hs (replicate (B - hs - 4) 0) = replicate hs 0 @ 0 # replicate (k + 4) (0 :: byte)"
    by (simp add: memcpy_at_def B add_ac flip: replicate_Suc replicate_add)
  then have "(memcpy_at (replicate B 0) hs (replicate (B - hs - 4) 0))[hs := 0x80] =
      replicate hs 0 @ 0x80 # replicate (k + 4) (0 :: byte)"
    using list_update_length [of "replicate hs 0" 0 "replicate (k + 4) 0" "0x80 :: byte"] by simp
  also have "\<dots> = (replicate hs 0 @ 0x80 # replicate k 0) @ replicate 4 0"
    by (simp add: replicate_add)
  finally have "md_pad (replicate B 0) B hs (B + hs) =
      memcpy_at ((replicate hs 0 @ 0x80 # replicate k 0) @ replicate 4 0)
        (length (replicate hs (0 :: byte) @ 0x80 # replicate k 0)) (write32_be (of_nat ((B + hs) * 8)))"
    by (simp add: md_pad_def Let_def B)
  then have "md_pad (replicate B 0) B hs (B + hs) =
      replicate hs 0 @ 0x80 # replicate k 0 @ write32_be (of_nat ((B + hs) * 8))"
    unfolding memcpy_at_append by simp
  moreover have "B - hs - 5 = k" by (simp add: B)
  ultimately show ?thesis using p by (intro exI [of _ "replicate hs 0"]) simp
qed

context hash_stream
begin

definition hmac_st :: "'c HMAC_CTX \<Rightarrow> bytes \<Rightarrow> bytes \<Rightarrow> bool" where
  "hmac_st ctx key m \<longleftrightarrow>
     st (inner ctx) (map (\<lambda>b. 0x36 XOR b) (hmac_key H (blocksz A) key) @ m)
     \<and> st (outer ctx) (map (\<lambda>b. 0x5c XOR b) (hmac_key H (blocksz A) key))"

lemma length_hmac_key: "length (hmac_key H (blocksz A) key) = blocksz A"
  using sizes by (simp add: hmac_key_def Let_def len_H)

lemma hmac_init: "length key < limit \<Longrightarrow> hmac_st (HMAC_INIT A key) key []"
proof -
  assume key: "length key < limit"
  have "fst (h_final A (h_update A (h_init A) key)) = H key"
    using st_final [OF st_update [OF st_init key]] key by simp
  then have k: "(let k = (if blocksz A < length key then fst (h_final A (h_update A (h_init A) key)) else key)
      in k @ replicate (blocksz A - length k) 0) = hmac_key H (blocksz A) key"
    by (simp add: hmac_key_def)
  have "blocksz A < limit" using sizes by simp
  then have "st (h_update A (h_init A) (map f (hmac_key H (blocksz A) key))) (map f (hmac_key H (blocksz A) key))" for f
    using st_update [OF st_init, of "map f (hmac_key H (blocksz A) key)"] by (simp add: length_hmac_key)
  moreover have "HMAC_INIT A key =
      \<lparr>inner = h_update A (h_init A) (map (\<lambda>b. 0x36 XOR b) (hmac_key H (blocksz A) key)),
       outer = h_update A (h_init A) (map (\<lambda>b. 0x5c XOR b) (hmac_key H (blocksz A) key))\<rparr>"
    unfolding HMAC_INIT_def Let_def k [unfolded Let_def] by (rule refl)
  ultimately show ?thesis by (simp add: hmac_st_def)
qed

lemma hmac_update:
  "hmac_st ctx key m \<Longrightarrow> length d < limit \<Longrightarrow> hmac_st (HMAC_UPDATE A ctx d) key (m @ d)"
  using st_update [of "inner ctx" _ d] by (fastforce simp: hmac_st_def HMAC_UPDATE_def)

lemma hmac_final:
  assumes "hmac_st ctx key m" and "blocksz A + length m < limit"
  shows "fst (HMAC_FINAL A ctx) = hmac_spec H (blocksz A) key m"
    and "\<exists>c m'. outer (snd (HMAC_FINAL A ctx)) = snd (h_final A c) \<and> st c m' \<and> length m' < limit
       \<and> H m' = hmac_spec H (blocksz A) key m"
proof -
  let ?k = "\<lambda>x :: byte. map (\<lambda>b. x XOR b) (hmac_key H (blocksz A) key)"
  have i: "fst (h_final A (inner ctx)) = H (?k 0x36 @ m)"
    using assms by (intro st_final) (simp_all add: hmac_st_def length_hmac_key)
  define c where "c = h_update A (outer ctx) (H (?k 0x36 @ m))"
  have c: "st c (?k 0x5c @ H (?k 0x36 @ m))"
    unfolding c_def using assms sizes by (intro st_update) (simp_all add: hmac_st_def len_H)
  have l: "length (?k 0x5c @ H (?k 0x36 @ m)) < limit"
    using sizes by (simp add: length_hmac_key len_H)
  have f: "HMAC_FINAL A ctx = (fst (h_final A c), \<lparr>inner = snd (h_final A (inner ctx)), outer = snd (h_final A c)\<rparr>)"
    using i by (simp add: HMAC_FINAL_def c_def case_prod_beta Let_def)
  show "fst (HMAC_FINAL A ctx) = hmac_spec H (blocksz A) key m"
    using st_final [OF c l] by (simp add: f hmac_spec_def)
  show "\<exists>c m'. outer (snd (HMAC_FINAL A ctx)) = snd (h_final A c) \<and> st c m' \<and> length m' < limit
       \<and> H m' = hmac_spec H (blocksz A) key m"
    using c l by (intro exI [of _ c] exI [of _ "?k 0x5c @ H (?k 0x36 @ m)"]) (simp add: f hmac_spec_def)
qed

lemma length_hmac_spec: "length (hmac_spec H (blocksz A) key m) = hashsz A"
  by (simp add: hmac_spec_def len_H)

lemma hmac_with_correct:
  assumes "length key < limit"
    and "blocksz A + length in1 + length (case in2 of None \<Rightarrow> [] | Some d \<Rightarrow> d) < limit"
  shows "hmac_with A key in1 in2 =
    hmac_spec H (blocksz A) key (in1 @ (case in2 of None \<Rightarrow> [] | Some d \<Rightarrow> d))"
proof -
  have l1: "length in1 < limit" using assms(2) by simp
  note s1 = hmac_update [OF hmac_init [OF assms(1)] l1]
  show ?thesis
  proof (cases in2)
    case None
    then show ?thesis using hmac_final(1) [OF s1] assms(2) by (simp add: hmac_with_def Let_def)
  next
    case (Some d)
    then have "length d < limit" using assms(2) by simp
    from hmac_final(1) [OF hmac_update [OF s1 this]] show ?thesis
      using assms(2) Some by (simp add: hmac_with_def Let_def)
  qed
qed

end

context hash_impl
begin

abbreviation hm :: "bytes \<Rightarrow> bytes \<Rightarrow> bytes" where
  "hm pw \<equiv> hmac_spec H (blocksz A) pw"

text \<open>Before turn \<open>n\<close> the block holds the \<open>n\<close>-th pseudorandom value and its padding, the result
  accumulates the values so far.\<close>

lemma pbkdf2_step:
  assumes start: "hmac_st startctx pw []" and u: "length u = hashsz A" and res: "wf result"
  shows "\<exists>ctx' result'. PBKDF2_F_step A startctx (ctx, u @ md_tail A, result) =
      (ctx', hm pw u @ md_tail A, result')
    \<and> h_xtract A result' = xor_bytes (h_xtract A result) (hm pw u) \<and> wf result'"
proof -
  let ?k = "\<lambda>x :: byte. map (\<lambda>b. x XOR b) (hmac_key H (blocksz A) pw)"
  have st: "st (inner startctx) (?k 0x36)" "st (outer startctx) (?k 0x5c)"
    using start by (simp_all add: hmac_st_def)
  have lk: "length (?k x) = blocksz A" for x by (simp add: length_hmac_key)
  define i where "i = h_xform A (h_xcpy A (inner ctx) (inner startctx)) (u @ md_tail A)"
  have i: "h_xtract A i = H (?k 0x36 @ u)"
    unfolding i_def using xform [OF st(1) lk u] by blast
  define v where "v = H (?k 0x36 @ u)"
  have v: "length v = hashsz A" by (simp add: v_def len_H)
  define w where "w = h_xform A (h_xcpy A (outer ctx) (outer startctx)) (v @ md_tail A)"
  have w: "h_xtract A w = H (?k 0x5c @ v)" "wf w"
    unfolding w_def using xform [OF st(2) lk v] by blast+
  have hm: "H (?k 0x5c @ v) = hm pw u" by (simp add: hmac_spec_def v_def)
  have cp: "memcpy_at (a @ t) 0 b = b @ t" if "length a = length b" for a b t :: bytes
    using that by (simp add: memcpy_at_def)
  have "PBKDF2_F_step A startctx (ctx, u @ md_tail A, result) =
      (\<lparr>inner = i, outer = w\<rparr>, hm pw u @ md_tail A, h_xxor A result w)"
    unfolding PBKDF2_F_step_def Let_def prod.case i_def [symmetric] i
    by (simp add: cp u v len_H flip: v_def w_def) (simp add: cp v w(1) hm length_hmac_spec)
  then show ?thesis
    using xxor [OF res w(2)] w(1) hm by (intro exI) simp
qed

lemma pbkdf2_steps:
  assumes start: "hmac_st startctx pw []" and res: "wf result" "h_xtract A result = pbkdf2_U (hm pw) s 0"
  shows "\<exists>ctx' result'. (PBKDF2_F_step A startctx ^^ n) (ctx, pbkdf2_U (hm pw) s 0 @ md_tail A, result) =
      (ctx', pbkdf2_U (hm pw) s n @ md_tail A, result')
    \<and> h_xtract A result' = pbkdf2_T (hm pw) s n \<and> wf result'"
proof (induction n)
  case 0
  then show ?case using res by simp
next
  case (Suc n)
  then obtain ctx' result' where IH: "(PBKDF2_F_step A startctx ^^ n)
      (ctx, pbkdf2_U (hm pw) s 0 @ md_tail A, result) = (ctx', pbkdf2_U (hm pw) s n @ md_tail A, result')"
    "h_xtract A result' = pbkdf2_T (hm pw) s n" "wf result'" by blast
  have "length (pbkdf2_U (hm pw) s n) = hashsz A"
    by (cases n) (simp_all add: length_hmac_spec)
  from pbkdf2_step [OF start this IH(3), of ctx'] show ?case
    using IH by simp
qed

lemma PBKDF2_F_correct:
  assumes start: "hmac_st startctx pw []" and salt: "blocksz A + length salt + 4 < limit"
  shows "PBKDF2_F A startctx counter salt c = pbkdf2_T (hm pw) (salt @ STORE32_BE counter) (c - 1)"
proof -
  let ?s = "salt @ STORE32_BE counter"
  define ctx where "ctx = HMAC_UPDATE A (HMAC_UPDATE A startctx salt) (write32_be counter)"
  have ls: "length salt < limit" "4 < limit" using salt by simp_all
  have "hmac_st ctx pw (([] @ salt) @ STORE32_BE counter)"
    unfolding ctx_def write32_be_STORE32_BE
    by (intro hmac_update start) (use ls in simp_all)
  then have st: "hmac_st ctx pw ?s" by simp
  have small: "blocksz A + length ?s < limit" using salt by simp
  obtain u ctx' where f: "HMAC_FINAL A ctx = (u, ctx')" by fastforce
  have u: "u = pbkdf2_U (hm pw) ?s 0" using hmac_final(1) [OF st small] f by simp
  obtain c' m' where c': "outer ctx' = snd (h_final A c')" "st c' m'" "length m' < limit" "H m' = hm pw ?s"
    using hmac_final(2) [OF st small] f by auto
  have res: "wf (outer ctx')" "h_xtract A (outer ctx') = pbkdf2_U (hm pw) ?s 0"
    using final_state [OF c'(2,3)] c'(1,4) by simp_all
  obtain p where p: "length p = hashsz A"
    "md_pad (replicate (blocksz A) 0) (blocksz A) (hashsz A) (blocksz A + hashsz A) = p @ md_tail A"
    using md_pad_tail [OF sizes(2)] by (auto simp: md_tail_def)
  have cp: "memcpy_at (p @ md_tail A) 0 u = u @ md_tail A"
    using p(1) u by (simp add: memcpy_at_def length_hmac_spec)
  have "PBKDF2_F A startctx counter salt c = h_xtract A (snd (snd
      ((PBKDF2_F_step A startctx ^^ (c - 1)) (ctx', u @ md_tail A, outer ctx'))))"
    unfolding PBKDF2_F_def Let_def p(2) ctx_def [symmetric] f prod.case cp by (simp add: case_prod_beta)
  with pbkdf2_steps [OF start res, of "c - 1" ctx'] show ?thesis
    by (auto simp: u)
qed

lemma length_pbkdf2_T: "length (pbkdf2_T (hm pw) s n) = hashsz A"
  by (induction n) (simp_all add: length_hmac_spec)

lemma assemble_blocks:
  assumes T: "\<And>i. length (T i) = h" and h: "0 < h"
  shows "k \<le> (n + h - 1) div h \<Longrightarrow>
    foldl (\<lambda>out i. memcpy_at out ((i - 1) * h) (take (min (n - (i - 1) * h) h) (T i)))
      (replicate n 0) [1 ..< k + 1] =
    take n (concat (map T [1 ..< k + 1])) @ replicate (n - k * h) 0
    \<and> length (concat (map T [1 ..< k + 1])) = k * h"
proof (induction k)
  case (Suc k)
  have kn: "k * h < n"
  proof -
    have "Suc k * h \<le> (n + h - 1) div h * h" using Suc.prems by (intro mult_le_mono1)
    also have "\<dots> \<le> n + h - 1" by (rule div_times_less_eq_dividend)
    finally show ?thesis using h by simp
  qed
  define C where "C = concat (map T [1 ..< k + 1])"
  let ?f = "\<lambda>out i. memcpy_at out ((i - 1) * h) (take (min (n - (i - 1) * h) h) (T i))"
  let ?b = "take (min (n - k * h) h) (T (Suc k))"
  have IH: "foldl ?f (replicate n 0) [1 ..< k + 1] = take n C @ replicate (n - k * h) 0" "length C = k * h"
    using Suc by (simp_all add: C_def)
  have upt: "[1 ..< Suc k + 1] = [1 ..< k + 1] @ [Suc k]" by simp
  have C': "concat (map T [1 ..< Suc k + 1]) = C @ T (Suc k)"
    unfolding upt by (simp add: C_def)
  have C: "take n C = C" using IH(2) kn by simp
  have "foldl ?f (replicate n 0) [1 ..< Suc k + 1] = memcpy_at (C @ replicate (n - k * h) 0) (length C) ?b"
    unfolding upt foldl_append foldl_Cons foldl_Nil IH(1) C by (simp add: IH(2))
  also have "\<dots> = (C @ ?b) @ replicate (n - k * h - min (n - k * h) h) 0"
  proof -
    have "length ?b = min (n - k * h) h" using T [of "Suc k"] by simp
    then show ?thesis unfolding memcpy_at_append by (simp only: drop_replicate append_assoc)
  qed
  also have "C @ ?b = take n (C @ T (Suc k))"
    using IH(2) kn T [of "Suc k"] by (simp add: min_def)
  also have "n - k * h - min (n - k * h) h = n - Suc k * h" by simp
  finally show ?case
    unfolding C' using IH(2) T [of "Suc k"] by simp
qed simp

theorem PBKDF2_correct:
  assumes "0 < c" and "0 < dkLen" and "length pw < limit" and "blocksz A + length salt + 4 < limit"
    and "dkLen + hashsz A - 1 < 2 ^ 32"
  shows "PBKDF2 A pw salt c dkLen = Some (pbkdf2_spec (hm pw) (hashsz A) salt c dkLen)"
proof -
  let ?T = "\<lambda>i. pbkdf2_T (hm pw) (salt @ STORE32_BE (of_nat i)) (c - 1)"
  let ?n = "(dkLen + hashsz A - 1) div hashsz A"
  have F: "PBKDF2_F A (HMAC_INIT A pw) (of_nat i) salt c = ?T i" for i
    by (rule PBKDF2_F_correct [OF hmac_init [OF assms(3)] assms(4)])
  have "dkLen \<le> ?n * hashsz A"
  proof -
    have "dkLen + hashsz A - 1 < (?n + 1) * hashsz A" using sizes(1) dividend_less_div_times by simp
    then show ?thesis by simp
  qed
  moreover have "(dkLen + hashsz A - 1) mod 2 ^ 32 = dkLen + hashsz A - 1" using assms(5) by simp
  ultimately show ?thesis
    using assms(1,2) assemble_blocks [of ?T "hashsz A" ?n dkLen, OF length_pbkdf2_T sizes(1) order_refl]
    unfolding PBKDF2_def Let_def by (simp only: F pbkdf2_spec_def) simp
qed

end

section \<open>The three hash functions\<close>

lemma UNPACK32_STORE32_BE: "UNPACK32 = STORE32_BE"
  by (rule ext) (simp add: UNPACK32_def STORE32_BE_def)

lemma be_bytes_STORE32_BE: "n < 2 ^ 32 \<Longrightarrow> be_bytes (r + 4) n = replicate r 0 @ STORE32_BE (of_nat n)"
  using be_bytes_UNPACK32 [of n r] by (simp only: UNPACK32_STORE32_BE)

text \<open>The padding that the fast path prepares is the padding of the standard.\<close>

lemma md_pad_be_tail:
  assumes "5 \<le> L" "hs + L \<le> B" "B < 2 ^ 20"
  shows "md_pad_be L B (B + hs) = 0x80 # replicate (B - hs - 5) 0 @ write32_be (of_nat ((B + hs) * 8))"
proof -
  have L: "L - 1 = (L - 5) + 4" using assms by simp
  have "(B - (B + hs + L) mod B) mod B = B - hs - L"
    using pad_zeros [of L B "B + hs"] assms by (cases "hs = B") (simp_all add: le_diff_conv)
  moreover have "8 * (B + hs) < 2 ^ 32" using assms by simp
  moreover have "B - hs - 5 = (B - hs - L) + (L - 5)" using assms by simp
  ultimately show ?thesis
    unfolding md_pad_be_def L by (simp only: be_bytes_STORE32_BE write32_be_STORE32_BE replicate_add append_assoc mult.commute [of 8])
qed

lemma md_fold_fast:
  assumes "length k = B" "length u = hs" "5 \<le> L" "hs + L \<le> B" "B < 2 ^ 20"
    and "md_inv f B h0 h buf k"
  shows "md_fold f B h0 ((k @ u) @ md_pad_be L B (length (k @ u))) =
    f h (u @ 0x80 # replicate (B - hs - 5) 0 @ write32_be (of_nat ((B + hs) * 8)))"
proof -
  have B: "0 < B" using assms by simp
  let ?b = "u @ 0x80 # replicate (B - hs - 5) 0 @ write32_be (of_nat ((B + hs) * 8))"
  have lb: "length ?b = B" using assms by simp
  have h: "h = f h0 k" using assms(6) md_fold_one [OF assms(1) B, of f h0] by (simp add: md_inv_def)
  have "length (k @ u) = B + hs" using assms by simp
  then show ?thesis
    using md_fold_block [OF assms(1) B, of f h0 ?b] md_fold_one [OF lb B, of f "f h0 k"]
    by (simp only: md_pad_be_tail [OF assms(3-5)] append_assoc h)
qed

lemma concat_map_nth: "length xs = n \<Longrightarrow> concat (map (\<lambda>i. g (xs ! i)) [0..<n]) = concat (map g xs)"
  by (metis map_map map_nth comp_def list.map_cong0)

lemma concat_map2_xor:
  assumes "length xs = length ys" "\<And>x. length (g x) = k" "\<And>x y. g (x XOR y) = xor_bytes (g x) (g y)"
  shows "concat (map g (map2 (XOR) xs ys)) = xor_bytes (concat (map g xs)) (concat (map g ys))"
  using assms(1) by (induction xs ys rule: list_induct2) (simp_all add: assms(2,3) xor_bytes_append)

lemma write_be_xor:
  "write32_be (a XOR b) = xor_bytes (write32_be a) (write32_be b)"
  "write64_be (c XOR d) = xor_bytes (write64_be c) (write64_be d)"
  by (simp_all add: write32_be_def write64_be_def bit.conj_xor_distrib2 unsigned_xor_eq)


lemmas length_sha1_fold = sha1_fold_ref [THEN conjunct2]
lemmas length_sha256_fold = sha256_fold_ref [OF sha2_h0_length(1), THEN conjunct2]
lemmas length_sha512_fold = sha512_fold_ref [OF sha2_h0_length(2), THEN conjunct2]

lemma write32_be_eq: "write32_be = STORE32_BE"
  by (rule ext) (rule write32_be_STORE32_BE)

lemma sha1_spec_write32:
  "sha1_spec m = concat (map write32_be (md_fold (sha1_transform le) 64 sha1_h0 (m @ md_pad_be 9 64 (length m))))"
  by (simp only: sha1_spec_def write32_be_eq sha1_fold_ref [THEN conjunct1])

lemma sha1_xtract: "length (sha1_h c) = 5 \<Longrightarrow> h_xtract (sha1_ops le) c = concat (map write32_be (sha1_h c))"
  by (simp add: sha1_ops_def concat_map_nth)

lemma sha1_ops_simps:
  "blocksz (sha1_ops le) = 64" "hashsz (sha1_ops le) = 20" "h_init (sha1_ops le) = sha1_init"
  "h_update (sha1_ops le) = sha1_update le" "h_final (sha1_ops le) = sha1_final le"
  "sha1_h (h_xform (sha1_ops le) (h_xcpy (sha1_ops le) c' c) b) = sha1_transform le (sha1_h c) b"
  "sha1_h (h_xxor (sha1_ops le) c c') = map2 (XOR) (sha1_h c) (sha1_h c')"
  by (simp_all add: sha1_ops_def)

lemma sha1_ops_impl: "hash_impl (sha1_ops le) sha1_spec (sha1_inv le) (2 ^ 29) (\<lambda>c. length (sha1_h c) = 5)"
proof (unfold_locales, goal_cases)
  case (4 m)
  show ?case
    by (simp add: length_sha1_fold sha1_spec_write32 [of _ le] sha1_ops_simps length_concat comp_def sum_list_triv)
next
  case (8 c m)
  have "sha1_h (snd (sha1_final le c)) = md_fold (sha1_transform le) 64 sha1_h0 (m @ md_pad_be 9 64 (length m))"
    by (rule sha1_final_inv(2)) (use 8 in simp_all)
  then show ?case
    by (simp only: sha1_ops_simps sha1_xtract sha1_spec_write32 [of _ le] length_sha1_fold simp_thms)
next
  case (9 c k u c')
  let ?c = "h_xform (sha1_ops le) (h_xcpy (sha1_ops le) c' c) (u @ md_tail (sha1_ops le))"
  have "sha1_h ?c = md_fold (sha1_transform le) 64 sha1_h0 ((k @ u) @ md_pad_be 9 64 (length (k @ u)))"
    unfolding sha1_ops_simps md_tail_def
    by (rule md_fold_fast [where buf = "sha1_buffer c", symmetric]) (use 9 in \<open>simp_all add: sha1_ops_simps sha1_inv_def\<close>)
  then show ?case
    by (simp only: sha1_xtract sha1_spec_write32 [of _ le] length_sha1_fold simp_thms)
next
  case (10 a b)
  then show ?case
    using concat_map2_xor [of "sha1_h a" "sha1_h b" write32_be 4]
    by (simp add: sha1_xtract sha1_ops_simps write_be_xor)
qed (simp_all add: sha1_ops_simps sha1_inv_init sha1_update_inv sha1_final_inv(1))

interpretation sha1: hash_impl "sha1_ops le" sha1_spec "sha1_inv le" "2 ^ 29" "\<lambda>c. length (sha1_h c) = 5"
  for le
  by (rule sha1_ops_impl)

lemma UNPACK32_write32_be: "UNPACK32 = write32_be"
  by (simp only: write32_be_eq UNPACK32_STORE32_BE)

lemma UNPACK64_write64_be: "UNPACK64 = write64_be"
proof (rule ext)
  have m: "(255 :: u64) = mask 8" by (simp add: mask_eq_exp_minus_1)
  have "(ucast (x AND 255) :: byte) = ucast x" for x :: u64
    unfolding m by (rule bit_word_eqI) (auto simp: bit_simps)
  then show "UNPACK64 x = write64_be x" for x
    by (simp add: UNPACK64_def write64_be_def)
qed

lemma sha256_spec_write32:
  "sha256_spec m = concat (map write32_be (md_fold sha256_block 64 sha256_h0 (m @ md_pad_be 9 64 (length m))))"
  by (simp only: sha256_spec_def UNPACK32_write32_be sha256_fold_ref [OF sha2_h0_length(1), THEN conjunct1])

lemma sha256_xtract: "length (h_state c) = 8 \<Longrightarrow> h_xtract sha256_ops c = concat (map write32_be (h_state c))"
  by (simp add: sha256_ops_def concat_map_nth)

lemma sha256_ops_simps:
  "blocksz sha256_ops = 64" "hashsz sha256_ops = 32" "h_init sha256_ops = sha256_init"
  "h_update sha256_ops = sha256_update" "h_final sha256_ops = sha256_final"
  "h_state (h_xform sha256_ops (h_xcpy sha256_ops c' c) b) = sha256_transf (h_state c) b 1"
  "h_state (h_xxor sha256_ops c c') = map2 (XOR) (h_state c) (h_state c')"
  by (simp_all add: sha256_ops_def)

lemma sha256_transf_1: "length b = 64 \<Longrightarrow> sha256_transf h b 1 = sha256_block h b"
  by (simp add: sha256_transf_def)

lemma sha256_ops_impl: "hash_impl sha256_ops sha256_spec (sha2_inv sha256_block 64 sha256_h0) (2 ^ 29)
  (\<lambda>c. length (h_state c) = 8)"
proof (unfold_locales, goal_cases)
  case (4 m)
  show ?case
    by (simp add: length_sha256_fold sha256_spec_write32 sha256_ops_simps length_concat comp_def sum_list_triv)
next
  case (8 c m)
  have "h_state (snd (sha256_final c)) = md_fold sha256_block 64 sha256_h0 (m @ md_pad_be 9 64 (length m))"
    by (rule sha256_final_inv(2)) (use 8 in simp_all)
  then show ?case
    by (simp only: sha256_ops_simps sha256_xtract sha256_spec_write32 length_sha256_fold simp_thms)
next
  case (9 c k u c')
  let ?c = "h_xform sha256_ops (h_xcpy sha256_ops c' c) (u @ md_tail sha256_ops)"
  have l: "length (u @ md_tail sha256_ops) = 64"
    using 9 by (simp add: md_tail_def sha256_ops_simps)
  have "h_state ?c = md_fold sha256_block 64 sha256_h0 ((k @ u) @ md_pad_be 9 64 (length (k @ u)))"
    unfolding sha256_ops_simps sha256_transf_1 [OF l] unfolding md_tail_def sha256_ops_simps
    by (rule md_fold_fast [where buf = "ctx_block c", symmetric]) (use 9 in \<open>simp_all add: sha256_ops_simps sha2_inv_def\<close>)
  then show ?case
    by (simp only: sha256_xtract sha256_spec_write32 length_sha256_fold simp_thms)
next
  case (10 a b)
  then show ?case
    using concat_map2_xor [of "h_state a" "h_state b" write32_be 4]
    by (simp add: sha256_xtract sha256_ops_simps write_be_xor)
qed (simp_all add: sha256_ops_simps sha256_init_def sha256_update_def sha2_inv_init sha2_update_inv sha256_final_inv(1))

interpretation sha256: hash_impl sha256_ops sha256_spec "sha2_inv sha256_block 64 sha256_h0" "2 ^ 29"
  "\<lambda>c. length (h_state c) = 8"
  by (rule sha256_ops_impl)

lemma sha512_spec_write64:
  "sha512_spec m = concat (map write64_be (md_fold sha512_block 128 sha512_h0 (m @ md_pad_be 17 128 (length m))))"
  by (simp only: sha512_spec_def UNPACK64_write64_be sha512_fold_ref [OF sha2_h0_length(2), THEN conjunct1])

lemma sha512_xtract: "length (h_state c) = 8 \<Longrightarrow> h_xtract sha512_ops c = concat (map write64_be (h_state c))"
  by (simp add: sha512_ops_def concat_map_nth)

lemma sha512_ops_simps:
  "blocksz sha512_ops = 128" "hashsz sha512_ops = 64" "h_init sha512_ops = sha512_init"
  "h_update sha512_ops = sha512_update" "h_final sha512_ops = sha512_final"
  "h_state (h_xform sha512_ops (h_xcpy sha512_ops c' c) b) = sha512_transf (h_state c) b 1"
  "h_state (h_xxor sha512_ops c c') = map2 (XOR) (h_state c) (h_state c')"
  by (simp_all add: sha512_ops_def)

lemma sha512_transf_1: "length b = 128 \<Longrightarrow> sha512_transf h b 1 = sha512_block h b"
  by (simp add: sha512_transf_def)

lemma sha512_ops_impl: "hash_impl sha512_ops sha512_spec (sha2_inv sha512_block 128 sha512_h0) (2 ^ 29)
  (\<lambda>c. length (h_state c) = 8)"
proof (unfold_locales, goal_cases)
  case (4 m)
  show ?case
    by (simp add: length_sha512_fold sha512_spec_write64 sha512_ops_simps length_concat comp_def sum_list_triv)
next
  case (8 c m)
  have "h_state (snd (sha512_final c)) = md_fold sha512_block 128 sha512_h0 (m @ md_pad_be 17 128 (length m))"
    by (rule sha512_final_inv(2)) (use 8 in simp_all)
  then show ?case
    by (simp only: sha512_ops_simps sha512_xtract sha512_spec_write64 length_sha512_fold simp_thms)
next
  case (9 c k u c')
  let ?c = "h_xform sha512_ops (h_xcpy sha512_ops c' c) (u @ md_tail sha512_ops)"
  have l: "length (u @ md_tail sha512_ops) = 128"
    using 9 by (simp add: md_tail_def sha512_ops_simps)
  have "h_state ?c = md_fold sha512_block 128 sha512_h0 ((k @ u) @ md_pad_be 17 128 (length (k @ u)))"
    unfolding sha512_ops_simps sha512_transf_1 [OF l] unfolding md_tail_def sha512_ops_simps
    by (rule md_fold_fast [where buf = "ctx_block c", symmetric]) (use 9 in \<open>simp_all add: sha512_ops_simps sha2_inv_def\<close>)
  then show ?case
    by (simp only: sha512_xtract sha512_spec_write64 length_sha512_fold simp_thms)
next
  case (10 a b)
  then show ?case
    using concat_map2_xor [of "h_state a" "h_state b" write64_be 8]
    by (simp add: sha512_xtract sha512_ops_simps write_be_xor)
qed (simp_all add: sha512_ops_simps sha512_init_def sha512_update_def sha2_inv_init sha2_update_inv sha512_final_inv(1))

interpretation sha512: hash_impl sha512_ops sha512_spec "sha2_inv sha512_block 128 sha512_h0" "2 ^ 29"
  "\<lambda>c. length (h_state c) = 8"
  by (rule sha512_ops_impl)


section \<open>The key derivations of the code\<close>

text \<open>
  C1. \<^verbatim>\<open>fastpbkdf2_hmac_sha256\<close> with at least one iteration and a non-empty output, for which the number of blocks can be
  computed with 32 bits, returns (no assertion fails) and gives PBKDF2-HMAC-SHA256 of RFC 8018: the prepared padding block
  and the replayed chaining values change nothing.
\<close>

theorem pbkdf2_sha256_correct:
  assumes "0 < c" and "0 < nout" and "length pw < 2 ^ 29" and "length salt < 2 ^ 29 - 68" and "nout \<le> 2 ^ 32 - 32"
  shows "fastpbkdf2_hmac_sha256 pw salt c nout = Some (pbkdf2_spec (hmac_spec sha256_spec 64 pw) 32 salt c nout)"
  using sha256.PBKDF2_correct [OF assms(1-3), of salt] assms(4,5)
  by (simp add: fastpbkdf2_hmac_sha256_def sha256_ops_simps)

theorem pbkdf2_sha256_correct_witness:
  "fastpbkdf2_hmac_sha256 [0x70, 0x77] [1, 2, 3, 4] 3 40 =
     Some (pbkdf2_spec (hmac_spec sha256_spec 64 [0x70, 0x77]) 32 [1, 2, 3, 4] 3 40)"
  by (rule pbkdf2_sha256_correct) simp_all

text \<open>
  The same for \<^verbatim>\<open>fastpbkdf2_hmac_sha1\<close>, on a host of either byte order, and for \<^verbatim>\<open>fastpbkdf2_hmac_sha512\<close>, whose
  length field is twice as wide as the code writes.
\<close>

lemma pbkdf2_sha1_sha512_correct:
  assumes "0 < c" and "0 < nout" and "length pw < 2 ^ 29" and "length salt < 2 ^ 29 - 132" and "nout \<le> 2 ^ 32 - 64"
  shows "fastpbkdf2_hmac_sha1 le pw salt c nout = Some (pbkdf2_spec (hmac_spec sha1_spec 64 pw) 20 salt c nout)
    \<and> fastpbkdf2_hmac_sha512 pw salt c nout = Some (pbkdf2_spec (hmac_spec sha512_spec 128 pw) 64 salt c nout)"
  using sha1.PBKDF2_correct [OF assms(1-3), where le = le and salt = salt] sha512.PBKDF2_correct [OF assms(1-3), of salt] assms(4,5)
  by (simp add: fastpbkdf2_hmac_sha1_def fastpbkdf2_hmac_sha512_def sha1_ops_simps sha512_ops_simps)

lemma pbkdf2_sha1_sha512_correct_witness:
  "fastpbkdf2_hmac_sha1 True [0x70, 0x77] [1, 2, 3, 4] 3 40 =
     Some (pbkdf2_spec (hmac_spec sha1_spec 64 [0x70, 0x77]) 20 [1, 2, 3, 4] 3 40)
   \<and> fastpbkdf2_hmac_sha512 [0x70, 0x77] [1, 2, 3, 4] 3 40 =
     Some (pbkdf2_spec (hmac_spec sha512_spec 128 [0x70, 0x77]) 64 [1, 2, 3, 4] 3 40)"
  by (rule pbkdf2_sha1_sha512_correct) simp_all

text \<open>
  C6. \<^verbatim>\<open>sqlcipher_hmac\<close> is HMAC of RFC 2104 of the two inputs one after the other, with SHA-1,
  SHA-256 or SHA-512 by the algorithm number.
\<close>

theorem sqlcipher_hmac_correct:
  assumes "length key < 2 ^ 29"
    and "length in1 + length (case in2 of None \<Rightarrow> [] | Some d \<Rightarrow> d) < 2 ^ 29 - 128"
  shows "sqlcipher_hmac le alg key in1 in2 =
    (let m = in1 @ (case in2 of None \<Rightarrow> [] | Some d \<Rightarrow> d)
     in if alg = 0 then hmac_spec sha1_spec 64 key m
        else if alg = 1 then hmac_spec sha256_spec 64 key m
        else hmac_spec sha512_spec 128 key m)"
  using sha1.hmac_with_correct [where key = key and ?in1.0 = in1 and ?in2.0 = in2 and le = le] sha256.hmac_with_correct [of key in1 in2]
    sha512.hmac_with_correct [of key in1 in2] assms
  by (simp add: sqlcipher_hmac_def Let_def sha1_ops_simps sha256_ops_simps sha512_ops_simps)

theorem sqlcipher_hmac_correct_witness:
  "sqlcipher_hmac True 2 [1, 2] [3] (Some [4, 5]) = hmac_spec sha512_spec 128 [1, 2] [3, 4, 5]"
  using sqlcipher_hmac_correct [of "[1, 2]" "[3]" "Some [4, 5]" True 2] by simp

end
