(* ===== verification/MD5.thy ===== *)
theory MD5
  imports Hash_Common
begin

text \<open>
  MD5 of \<^verbatim>\<open>src/src/md5.c\<close>: the basic functions in their optimised form, the 64 steps
  with the registers renamed from step to step, the context with its split bit
  counter, and the lemmas that it computes the digest of RFC 1321 for every message and
  every way to cut it into updates (the counter wraps as the RFC asks).
\<close>

section \<open>The compression function\<close>

definition md5_F :: "u32 \<Rightarrow> u32 \<Rightarrow> u32 \<Rightarrow> u32" where "md5_F x y z = z XOR (x AND (y XOR z))"
definition md5_G :: "u32 \<Rightarrow> u32 \<Rightarrow> u32 \<Rightarrow> u32" where "md5_G x y z = y XOR (z AND (x XOR y))"
definition md5_H :: "u32 \<Rightarrow> u32 \<Rightarrow> u32 \<Rightarrow> u32" where "md5_H x y z = (x XOR y) XOR z"
definition md5_H2 :: "u32 \<Rightarrow> u32 \<Rightarrow> u32 \<Rightarrow> u32" where "md5_H2 x y z = x XOR (y XOR z)"
definition md5_I :: "u32 \<Rightarrow> u32 \<Rightarrow> u32 \<Rightarrow> u32" where "md5_I x y z = y XOR (x OR NOT z)"

text \<open>The macro \<^verbatim>\<open>STEP(f, a, b, c, d, x, t, s)\<close>; the registers are indices into the state.\<close>

definition md5_STEP :: "(u32 \<Rightarrow> u32 \<Rightarrow> u32 \<Rightarrow> u32) \<Rightarrow> nat \<Rightarrow> nat \<Rightarrow> nat \<Rightarrow> nat \<Rightarrow> u32 \<Rightarrow> u32 \<Rightarrow> nat
    \<Rightarrow> u32 list \<Rightarrow> u32 list" where
  "md5_STEP f a b c d x t s v =
     (let v = v[a := v ! a + (f (v ! b) (v ! c) (v ! d) + x + t)];
          v = v[a := push_bit s (v ! a) OR drop_bit (32 - s) (v ! a AND 0xffffffff)]
      in v[a := v ! a + v ! b])"

text \<open>The 64 steps of \<^verbatim>\<open>body\<close> in order: basic function, message word, constant, shift.\<close>

definition md5_steps :: "((u32 \<Rightarrow> u32 \<Rightarrow> u32 \<Rightarrow> u32) \<times> nat \<times> u32 \<times> nat) list" where
  "md5_steps =
    [(md5_F, 0, 0xd76aa478, 7), (md5_F, 1, 0xe8c7b756, 12), (md5_F, 2, 0x242070db, 17), (md5_F, 3, 0xc1bdceee, 22),
     (md5_F, 4, 0xf57c0faf, 7), (md5_F, 5, 0x4787c62a, 12), (md5_F, 6, 0xa8304613, 17), (md5_F, 7, 0xfd469501, 22),
     (md5_F, 8, 0x698098d8, 7), (md5_F, 9, 0x8b44f7af, 12), (md5_F, 10, 0xffff5bb1, 17), (md5_F, 11, 0x895cd7be, 22),
     (md5_F, 12, 0x6b901122, 7), (md5_F, 13, 0xfd987193, 12), (md5_F, 14, 0xa679438e, 17), (md5_F, 15, 0x49b40821, 22),
     (md5_G, 1, 0xf61e2562, 5), (md5_G, 6, 0xc040b340, 9), (md5_G, 11, 0x265e5a51, 14), (md5_G, 0, 0xe9b6c7aa, 20),
     (md5_G, 5, 0xd62f105d, 5), (md5_G, 10, 0x02441453, 9), (md5_G, 15, 0xd8a1e681, 14), (md5_G, 4, 0xe7d3fbc8, 20),
     (md5_G, 9, 0x21e1cde6, 5), (md5_G, 14, 0xc33707d6, 9), (md5_G, 3, 0xf4d50d87, 14), (md5_G, 8, 0x455a14ed, 20),
     (md5_G, 13, 0xa9e3e905, 5), (md5_G, 2, 0xfcefa3f8, 9), (md5_G, 7, 0x676f02d9, 14), (md5_G, 12, 0x8d2a4c8a, 20),
     (md5_H, 5, 0xfffa3942, 4), (md5_H2, 8, 0x8771f681, 11), (md5_H, 11, 0x6d9d6122, 16), (md5_H2, 14, 0xfde5380c, 23),
     (md5_H, 1, 0xa4beea44, 4), (md5_H2, 4, 0x4bdecfa9, 11), (md5_H, 7, 0xf6bb4b60, 16), (md5_H2, 10, 0xbebfbc70, 23),
     (md5_H, 13, 0x289b7ec6, 4), (md5_H2, 0, 0xeaa127fa, 11), (md5_H, 3, 0xd4ef3085, 16), (md5_H2, 6, 0x04881d05, 23),
     (md5_H, 9, 0xd9d4d039, 4), (md5_H2, 12, 0xe6db99e5, 11), (md5_H, 15, 0x1fa27cf8, 16), (md5_H2, 2, 0xc4ac5665, 23),
     (md5_I, 0, 0xf4292244, 6), (md5_I, 7, 0x432aff97, 10), (md5_I, 14, 0xab9423a7, 15), (md5_I, 5, 0xfc93a039, 21),
     (md5_I, 12, 0x655b59c3, 6), (md5_I, 3, 0x8f0ccc92, 10), (md5_I, 10, 0xffeff47d, 15), (md5_I, 1, 0x85845dd1, 21),
     (md5_I, 8, 0x6fa87e4f, 6), (md5_I, 15, 0xfe2ce6e0, 10), (md5_I, 6, 0xa3014314, 15), (md5_I, 13, 0x4e0811a1, 21),
     (md5_I, 4, 0xf7537e82, 6), (md5_I, 11, 0xbd3af235, 10), (md5_I, 2, 0x2ad7d2bb, 15), (md5_I, 9, 0xeb86d391, 21)]"

text \<open>
  Step \<open>i\<close> has the registers \<open>a, b, c, d\<close>, then \<open>d, a, b, c\<close>, then \<open>c, d, a, b\<close>, then
  \<open>b, c, d, a\<close>, and so on in turn.
\<close>

definition md5_rot :: "nat \<Rightarrow> nat \<Rightarrow> nat" where
  "md5_rot i k = (k + 4 - i mod 4) mod 4"

definition md5_step_at :: "bytes \<Rightarrow> u32 list \<Rightarrow> nat \<Rightarrow> u32 list" where
  "md5_step_at ptr v i =
     (case md5_steps ! i of (f, x, t, s) \<Rightarrow>
        md5_STEP f (md5_rot i 0) (md5_rot i 1) (md5_rot i 2) (md5_rot i 3)
          (LOAD32_LE (drop (4 * x) ptr)) t s v)"

definition md5_block :: "u32 list \<Rightarrow> bytes \<Rightarrow> u32 list" where
  "md5_block saved ptr = map2 (+) (foldl (md5_step_at ptr) saved [0..<64]) saved"

text \<open>\<^verbatim>\<open>body(ctx, data, size)\<close>; the \<^verbatim>\<open>do\<close> loop is entered with a positive multiple of 64.\<close>

definition md5_body :: "u32 list \<Rightarrow> bytes \<Rightarrow> nat \<Rightarrow> u32 list" where
  "md5_body v data n = md_blocks md5_block 64 (n div 64) v data"

section \<open>The context\<close>

record MD5_CTX =
  md5_lo :: u32
  md5_hi :: u32
  md5_abcd :: "u32 list"
  md5_buffer :: bytes

definition MD5_Init :: MD5_CTX where
  "MD5_Init = \<lparr>md5_lo = 0, md5_hi = 0, md5_abcd = [0x67452301, 0xefcdab89, 0x98badcfe, 0x10325476],
     md5_buffer = replicate 64 0\<rparr>"

definition md5_count :: "MD5_CTX \<Rightarrow> nat \<Rightarrow> MD5_CTX" where
  "md5_count ctx sz =
     (let saved_lo = md5_lo ctx;
          lo = of_nat (unat saved_lo + sz) AND 0x1fffffff;
          hi = (if lo < saved_lo then md5_hi ctx + 1 else md5_hi ctx)
      in ctx\<lparr>md5_lo := lo, md5_hi := hi + of_nat (sz div 2 ^ 29)\<rparr>)"

text \<open>The end of \<^verbatim>\<open>MD5_Update\<close>, with an empty buffer: full blocks, then the rest into the buffer.\<close>

definition md5_absorb :: "MD5_CTX \<Rightarrow> bytes \<Rightarrow> MD5_CTX" where
  "md5_absorb ctx data =
     (let sz = length data;
          (ctx, data) =
            (if 64 \<le> sz then
               (ctx\<lparr>md5_abcd := md5_body (md5_abcd ctx) data (sz - sz mod 64)\<rparr>, drop (sz - sz mod 64) data)
             else (ctx, data))
      in ctx\<lparr>md5_buffer := memcpy_at (md5_buffer ctx) 0 data\<rparr>)"

definition MD5_Update :: "MD5_CTX \<Rightarrow> bytes \<Rightarrow> MD5_CTX" where
  "MD5_Update ctx data =
     (let used = unat (md5_lo ctx AND 0x3f);
          ctx = md5_count ctx (length data)
      in if used \<noteq> 0 then
           let available = 64 - used
           in if length data < available then
                ctx\<lparr>md5_buffer := memcpy_at (md5_buffer ctx) used data\<rparr>
              else
                let buf = memcpy_at (md5_buffer ctx) used (take available data)
                in md5_absorb (ctx\<lparr>md5_buffer := buf, md5_abcd := md5_body (md5_abcd ctx) buf 64\<rparr>)
                     (drop available data)
         else md5_absorb ctx data)"

definition MD5_Final :: "MD5_CTX \<Rightarrow> bytes" where
  "MD5_Final ctx =
     (let used = unat (md5_lo ctx AND 0x3f);
          buf = (md5_buffer ctx)[used := 0x80];
          used = used + 1;
          available = 64 - used;
          (v, buf, used, available) =
            (if available < 8 then
               let buf = memcpy_at buf used (replicate available 0)
               in (md5_body (md5_abcd ctx) buf 64, buf, 0, 64)
             else (md5_abcd ctx, buf, used, available));
          buf = memcpy_at buf used (replicate (available - 8) 0);
          lo = push_bit 3 (md5_lo ctx);
          buf = memcpy_at buf 56 (STORE32_LE lo @ STORE32_LE (md5_hi ctx));
          v = md5_body v buf 64
      in concat (map STORE32_LE v))"

definition md5_digest :: "bytes \<Rightarrow> bytes" where
  "md5_digest data = MD5_Final (MD5_Update MD5_Init data)"

section \<open>The compression function of RFC 1321\<close>

definition rfc_F :: "u32 \<Rightarrow> u32 \<Rightarrow> u32 \<Rightarrow> u32" where "rfc_F x y z = (x AND y) OR (NOT x AND z)"
definition rfc_G :: "u32 \<Rightarrow> u32 \<Rightarrow> u32 \<Rightarrow> u32" where "rfc_G x y z = (x AND z) OR (y AND NOT z)"
definition rfc_H :: "u32 \<Rightarrow> u32 \<Rightarrow> u32 \<Rightarrow> u32" where "rfc_H x y z = x XOR y XOR z"
definition rfc_I :: "u32 \<Rightarrow> u32 \<Rightarrow> u32 \<Rightarrow> u32" where "rfc_I x y z = y XOR (x OR NOT z)"

definition rfc_f :: "nat \<Rightarrow> u32 \<Rightarrow> u32 \<Rightarrow> u32 \<Rightarrow> u32" where
  "rfc_f i = (if i < 16 then rfc_F else if i < 32 then rfc_G else if i < 48 then rfc_H else rfc_I)"

text \<open>One operation \<open>[abcd k s i]\<close>: \<open>a = b + ((a + f(b,c,d) + X[k] + T[i]) <<< s)\<close>, then the roles
  of the registers move on by one.\<close>

definition md5_round :: "bytes \<Rightarrow> u32 list \<Rightarrow> nat \<Rightarrow> u32 list" where
  "md5_round X v i =
     (let (_, k, t, s) = md5_steps ! i
      in [v ! 3, v ! 1 + ROL32 (v ! 0 + rfc_f i (v ! 1) (v ! 2) (v ! 3) + LOAD32_LE (drop (4 * k) X) + t) s,
          v ! 1, v ! 2])"

definition md5_block_ref :: "u32 list \<Rightarrow> bytes \<Rightarrow> u32 list" where
  "md5_block_ref v X = map2 (+) v (foldl (md5_round X) v [0..<64])"

lemma md5_functions_rfc:
  "md5_F = rfc_F" "md5_G = rfc_G" "md5_H = rfc_H" "md5_H2 = rfc_H" "md5_I = rfc_I"
  by (intro ext bit_word_eqI; auto simp: md5_F_def rfc_F_def md5_G_def rfc_G_def md5_H_def rfc_H_def
      md5_H2_def md5_I_def rfc_I_def bit_simps)+

lemma md5_steps_functions: "map fst md5_steps = map rfc_f [0..<64]"
  by (simp add: md5_steps_def md5_functions_rfc rfc_f_def upt_rec)

lemma md5_steps_function: "i < 64 \<Longrightarrow> fst (md5_steps ! i) = rfc_f i"
  using arg_cong [OF md5_steps_functions, of "\<lambda>xs. xs ! i"] arg_cong [OF md5_steps_functions, of length]
  by (simp del: upt_rec_numeral)

text \<open>\<open>md5_view i v\<close> lists the registers before step \<open>i\<close> in the order of the RFC.\<close>

definition md5_view :: "nat \<Rightarrow> u32 list \<Rightarrow> u32 list" where
  "md5_view i v = map (\<lambda>k. v ! md5_rot i k) [0..<4]"

lemma list_4: "length xs = 4 \<Longrightarrow> \<exists>a b c d. xs = [a, b, c, d]"
  by (simp add: length_Suc_conv numeral_eq_Suc) blast

lemma upt_4: "[0..<4] = [0, 1, 2, 3 :: nat]"
  by (simp add: upt_rec)

lemma md5_view_0: "length v = 4 \<Longrightarrow> md5_view 0 v = v"
  using list_4 [of v] by (auto simp: md5_view_def md5_rot_def upt_4)

lemma length_md5_step_at [bytes_len, simp]: "length (md5_step_at p v i) = length v"
  by (simp add: md5_step_at_def md5_STEP_def Let_def split: prod.splits)

lemma md5_step_view:
  assumes len: "length v = 4" and i: "i < 64"
  shows "md5_view (Suc i) (md5_step_at X v i) = md5_round X (md5_view i v) i"
proof -
  obtain k t s where st: "md5_steps ! i = (rfc_f i, k, t, s)"
    using md5_steps_function [OF i] by (metis prod.collapse)
  obtain a b c d where v: "v = [a, b, c, d]" using list_4 [OF len] by blast
  have "(0xffffffff :: u32) = -1" by simp
  then have m: "x AND 0xffffffff = x" for x :: u32
    by (simp only: and.right_neutral)
  have "i mod 4 < 4" by simp
  then consider "i mod 4 = 0" | "i mod 4 = 1" | "i mod 4 = 2" | "i mod 4 = 3" by linarith
  then show ?thesis
    by cases (simp_all add: md5_view_def md5_rot_def upt_4 md5_step_at_def md5_STEP_def md5_round_def
        v st m mod_Suc Let_def ROL32_def add_ac)
qed

lemma md5_steps_view:
  "length v = 4 \<Longrightarrow> n \<le> 64 \<Longrightarrow> length (foldl (md5_step_at X) v [0..<n]) = 4
     \<and> md5_view n (foldl (md5_step_at X) v [0..<n]) = foldl (md5_round X) v [0..<n]"
  by (induction n) (simp_all add: md5_view_0 md5_step_view)

lemma md5_block_eq: "length v = 4 \<Longrightarrow> md5_block v X = md5_block_ref v X"
proof -
  assume "length v = 4"
  note st = md5_steps_view [OF this, of 64 X]
  have "md5_view 64 w = md5_view 0 w" for w by (simp add: md5_view_def md5_rot_def)
  with st have "foldl (md5_step_at X) v [0..<64] = foldl (md5_round X) v [0..<64]"
    by (metis md5_view_0 order_refl)
  moreover have "map2 (+) x y = map2 (+) y (x :: u32 list)" for x y
    by (simp add: zip_commute [of x] add.commute case_prod_beta comp_def)
  ultimately show ?thesis by (simp only: md5_block_def md5_block_ref_def)
qed

section \<open>A context in step with its message\<close>

definition md5_h0 :: "u32 list" where
  "md5_h0 = [0x67452301, 0xefcdab89, 0x98badcfe, 0x10325476]"

definition md5_inv :: "MD5_CTX \<Rightarrow> bytes \<Rightarrow> bool" where
  "md5_inv ctx m \<longleftrightarrow>
     md_inv md5_block 64 md5_h0 (md5_abcd ctx) (md5_buffer ctx) m \<and> length (md5_buffer ctx) = 64
     \<and> unat (md5_lo ctx) = length m mod 2 ^ 29
     \<and> md5_hi ctx = of_nat (length m div 2 ^ 29)"

lemma md5_inv_init: "md5_inv MD5_Init []"
  by (simp add: md5_inv_def MD5_Init_def md5_h0_def md_inv_init)

lemma carry_once:
  fixes a b M :: nat
  assumes "a < M" "b < M" "\<not> a + b < M"
  shows "(a + b) div M = 1" and "(a + b) mod M = a + b - M"
proof -
  have "a + b - M < M" using assms by linarith
  moreover have "(a + b) mod M = (a + b - M) mod M" "(a + b) div M = Suc ((a + b - M) div M)"
    using assms by (simp_all add: le_mod_geq le_div_geq)
  ultimately show "(a + b) div M = 1" "(a + b) mod M = a + b - M" by simp_all
qed

lemma add_div_carry:
  fixes l n M :: nat
  assumes "0 < M"
  shows "(l + n) div M = l div M + n div M + (if (l + n) mod M < l mod M then 1 else 0)"
proof -
  have d: "(l + n) div M = l div M + n div M + (l mod M + n mod M) div M"
    by (rule div_add1_eq)
  have m: "(l + n) mod M = (l mod M + n mod M) mod M"
    by (simp only: mod_add_eq)
  have lt: "l mod M < M" "n mod M < M" using assms by simp_all
  show ?thesis
  proof (cases "l mod M + n mod M < M")
    case True
    then show ?thesis by (simp add: d m)
  next
    case False
    note c = carry_once [OF lt False]
    have "l mod M + n mod M - M < l mod M" using lt False by linarith
    then show ?thesis by (simp only: d m c if_True)
  qed
qed

lemma md5_count_inv:
  assumes "unat (md5_lo ctx) = l mod 2 ^ 29" and "md5_hi ctx = of_nat (l div 2 ^ 29)"
  shows "unat (md5_lo (md5_count ctx n)) = (l + n) mod 2 ^ 29"
    and "md5_hi (md5_count ctx n) = of_nat ((l + n) div 2 ^ 29)"
proof -
  have mask: "(0x1fffffff :: u32) = mask 29" by (simp add: mask_eq_exp_minus_1)
  define lo :: u32 where "lo = of_nat (unat (md5_lo ctx) + n) AND mask 29"
  have upd: "md5_count ctx n = ctx\<lparr>md5_lo := lo,
      md5_hi := (if lo < md5_lo ctx then md5_hi ctx + 1 else md5_hi ctx) + of_nat (n div 2 ^ 29)\<rparr>"
    by (simp only: md5_count_def Let_def mask lo_def)
  have "unat lo = (l mod 2 ^ 29 + n) mod 2 ^ 32 mod 2 ^ 29"
    by (simp only: lo_def unat_and_mask unsigned_of_nat take_bit_eq_mod assms(1)) simp
  also have "\<dots> = (l mod 2 ^ 29 + n) mod 2 ^ 29"
    by (rule mod_mod_cancel) (simp add: le_imp_power_dvd)
  also have "\<dots> = (l + n) mod 2 ^ 29" by (rule mod_add_left_eq)
  finally have lo: "unat lo = (l + n) mod 2 ^ 29" .
  then show "unat (md5_lo (md5_count ctx n)) = (l + n) mod 2 ^ 29" by (simp add: upd)
  have "lo < md5_lo ctx \<longleftrightarrow> (l + n) mod 2 ^ 29 < l mod 2 ^ 29"
    by (simp only: word_less_nat_alt lo assms(1))
  moreover have "(l + n) div 2 ^ 29 = l div 2 ^ 29 + n div 2 ^ 29 + (if (l + n) mod 2 ^ 29 < l mod 2 ^ 29 then 1 else 0)"
    by (rule add_div_carry) simp
  ultimately show "md5_hi (md5_count ctx n) = of_nat ((l + n) div 2 ^ 29)"
    by (simp add: upd assms(2) del: power_numeral)
qed

text \<open>The compression of whole blocks.\<close>

lemma md5_body_all: "md5_body v data (length data) = md_fold md5_block 64 v data"
  by (simp add: md5_body_def md_blocks_all)

lemma md5_body_full: "md5_body v data (length data - length data mod 64) = md_fold md5_block 64 v data"
  by (simp add: md5_body_def md_blocks_all minus_mod_eq_mult_div)

lemma md5_body_64: "length buf = 64 \<Longrightarrow> md5_body v buf 64 = md5_block v buf"
  using md_blocks_all [of 64 1 buf md5_block v] by (simp add: md5_body_def md_fold_one)

lemma and_63: "unat (x AND 0x3f :: u32) = unat x mod 64"
proof -
  have "(0x3f :: u32) = mask 6" by (simp add: mask_eq_exp_minus_1)
  then show ?thesis by (simp only: unat_and_mask) simp
qed

lemma md5_absorb_eq:
  "md5_absorb ctx data = ctx\<lparr>md5_abcd := md_fold md5_block 64 (md5_abcd ctx) data,
     md5_buffer := memcpy_at (md5_buffer ctx) 0 (md_rest 64 data)\<rparr>"
  by (simp add: md5_absorb_def Let_def md5_body_full md_rest_def)

lemma MD5_Update_eq:
  assumes "unat (md5_lo ctx) mod 64 = u"
  shows "MD5_Update ctx data =
    (let c = md5_count ctx (length data); buf = memcpy_at (md5_buffer c) u (take (64 - u) data)
     in if u = 0 then md5_absorb c data
        else if length data < 64 - u then c\<lparr>md5_buffer := memcpy_at (md5_buffer c) u data\<rparr>
        else md5_absorb (c\<lparr>md5_buffer := buf, md5_abcd := md5_body (md5_abcd c) buf 64\<rparr>)
          (drop (64 - u) data))"
  by (simp add: MD5_Update_def and_63 assms Let_def)

lemma MD5_Update_inv:
  assumes inv: "md5_inv ctx m"
  shows "md5_inv (MD5_Update ctx d) (m @ d)"
proof -
  let ?u = "length m mod 64" and ?n = "length d"
  define c where "c = md5_count ctx ?n"
  have mdi: "md_inv md5_block 64 md5_h0 (md5_abcd ctx) (md5_buffer ctx) m"
    and lb: "length (md5_buffer ctx) = 64"
    and lo: "unat (md5_lo ctx) = length m mod 2 ^ 29" and hi: "md5_hi ctx = of_nat (length m div 2 ^ 29)"
    using inv by (simp_all only: md5_inv_def)
  have c: "md5_abcd c = md5_abcd ctx" "md5_buffer c = md5_buffer ctx"
    by (simp_all add: c_def md5_count_def Let_def)
  have cnt: "unat (md5_lo c) = length (m @ d) mod 2 ^ 29" "md5_hi c = of_nat (length (m @ d) div 2 ^ 29)"
    using md5_count_inv [OF lo hi, of ?n] by (simp_all only: c_def length_append)
  have "unat (md5_lo ctx) mod 64 = ?u"
    unfolding lo by (rule mod_mod_cancel) (simp add: dvd_def)
  note upd = MD5_Update_eq [OF this, of d, folded c_def, unfolded Let_def, unfolded c]
  consider "?u \<noteq> 0" "?n < 64 - ?u" | "?u = 0" | "?u \<noteq> 0" "64 - ?u \<le> ?n" by linarith
  then show ?thesis
  proof cases
    case 1
    then have e: "MD5_Update ctx d = c\<lparr>md5_buffer := memcpy_at (md5_buffer ctx) ?u d\<rparr>"
      by (simp add: upd)
    have "md_inv md5_block 64 md5_h0 (md5_abcd ctx) (memcpy_at (md5_buffer ctx) ?u d) (m @ d)"
      using 1 by (intro md_inv_short [OF _ mdi]) simp_all
    moreover have "length (memcpy_at (md5_buffer ctx) ?u d) = 64" using 1 lb by simp
    ultimately show ?thesis
      unfolding e md5_inv_def using cnt by (simp add: c)
  next
    case 2
    then have e: "MD5_Update ctx d = md5_absorb c d" by (simp add: upd)
    have l: "length (memcpy_at (md5_buffer ctx) 0 (md_rest 64 d)) = 64" using lb by simp
    have "md_inv md5_block 64 md5_h0 (md_fold md5_block 64 (md5_abcd ctx) d)
        (memcpy_at (md5_buffer ctx) 0 (md_rest 64 d)) (m @ d)"
      by (rule md_inv_long [OF _ mdi]) (use 2 l in \<open>simp_all add: memcpy_at_def\<close>)
    then show ?thesis
      unfolding e md5_inv_def md5_absorb_eq using cnt l by (simp add: c)
  next
    case 3
    define r where "r = 64 - ?u"
    have r: "?u + r = 64" "r \<le> ?n" using 3 by (simp_all add: r_def)
    define buf where "buf = memcpy_at (md5_buffer ctx) ?u (take r d)"
    have buf: "buf = take ?u (md5_buffer ctx) @ take r d" "length buf = 64"
      using r lb by (simp_all add: buf_def memcpy_at_def)
    have e: "MD5_Update ctx d = md5_absorb (c\<lparr>md5_buffer := buf, md5_abcd := md5_block (md5_abcd ctx) buf\<rparr>) (drop r d)"
      using 3 unfolding upd r_def [symmetric] buf_def [symmetric] md5_body_64 [OF buf(2)] by (simp add: r_def)
    have l: "length (memcpy_at buf 0 (md_rest 64 (drop r d))) = 64" using buf(2) by simp
    have "md_inv md5_block 64 md5_h0 (md_fold md5_block 64 (md5_block (md5_abcd ctx) buf) (drop r d))
        (memcpy_at buf 0 (md_rest 64 (drop r d))) (m @ d)"
      by (rule md_inv_fill(1) [OF _ mdi r buf(1)]) (use l in \<open>simp_all add: memcpy_at_def\<close>)
    then show ?thesis
      unfolding e md5_inv_def md5_absorb_eq using cnt l by simp
  qed
qed

section \<open>The digest\<close>

primrec le_bytes :: "nat \<Rightarrow> nat \<Rightarrow> bytes" where
  "le_bytes 0 n = []"
| "le_bytes (Suc k) n = of_nat n # le_bytes k (n div 256)"

definition md5_pad :: "nat \<Rightarrow> bytes" where
  "md5_pad n = 0x80 # replicate ((64 - (n + 9) mod 64) mod 64) 0 @ le_bytes 8 (8 * n)"

definition md5_spec :: "bytes \<Rightarrow> bytes" where
  "md5_spec m = concat (map STORE32_LE (md_fold md5_block_ref 64 md5_h0 (m @ md5_pad (length m))))"

lemma length_le_bytes [bytes_len, simp]: "length (le_bytes k n) = k"
  by (induction k arbitrary: n) simp_all

lemma le_bytes_add: "le_bytes (k + r) n = le_bytes k n @ le_bytes r (n div 256 ^ k)"
  by (induction k arbitrary: n) (simp_all add: div_mult2_eq)

lemma ucast_drop_bit_of_nat_le:
  "s + 8 \<le> 32 \<Longrightarrow> (of_nat (n div 2 ^ s) :: byte) = ucast (drop_bit s (of_nat n :: u32))"
  by (rule bit_word_eqI) (auto simp: bit_simps drop_bit_eq_div [symmetric])

lemma le_bytes_word: "le_bytes 4 n = STORE32_LE (of_nat n)"
proof -
  have "le_bytes 4 n = le_bytes (Suc (Suc (Suc (Suc 0)))) n" by (simp only: numeral_nat One_nat_def)
  also have "\<dots> = [of_nat (n div 2 ^ 0), of_nat (n div 2 ^ 8), of_nat (n div 2 ^ 16), of_nat (n div 2 ^ 24)]"
    by (simp add: div_mult2_eq [symmetric])
  also have "\<dots> = STORE32_LE (of_nat n)"
    by (simp only: ucast_drop_bit_of_nat_le STORE32_LE_def) (simp add: ucast_drop_bit_of_nat_le)
  finally show ?thesis .
qed

lemma md5_length_field:
  assumes "unat lo = l mod 2 ^ 29" and "hi = of_nat (l div 2 ^ 29)"
  shows "STORE32_LE (push_bit 3 lo) @ STORE32_LE hi = le_bytes 8 (8 * l)"
proof -
  have "unat (push_bit 3 lo) = (8 * (l mod 2 ^ 29)) mod (8 * 2 ^ 29)"
    by (simp add: unat_push_bit assms(1))
  also have "\<dots> = (8 * l) mod (8 * 2 ^ 29)" by (simp only: mult_mod_right [symmetric] mod_mod_trivial)
  also have "\<dots> = unat (of_nat (8 * l) :: u32)" by (simp only: unsigned_of_nat take_bit_eq_mod) simp
  finally have "push_bit 3 lo = of_nat (8 * l)" by (simp only: word_unat_eq_iff)
  moreover have "8 * l div 256 ^ 4 = l div 2 ^ 29"
  proof -
    have "(256 :: nat) ^ 4 = 8 * 2 ^ 29" by simp
    then show ?thesis by (simp only:) (rule div_mult_mult1, simp)
  qed
  moreover have "le_bytes (4 + 4) (8 * l) = le_bytes 4 (8 * l) @ le_bytes 4 (8 * l div 256 ^ 4)"
    by (rule le_bytes_add)
  ultimately show ?thesis by (simp only: le_bytes_word assms(2)) simp
qed

lemma length_md5_block_ref [bytes_len]: "length h = 4 \<Longrightarrow> length (md5_block_ref h b) = 4"
proof -
  have "length s = 4 \<Longrightarrow> length (foldl (md5_round b) s ts) = 4" for s ts
    by (induction ts arbitrary: s) (simp_all add: md5_round_def Let_def split: prod.splits)
  then show "length h = 4 \<Longrightarrow> ?thesis" by (simp add: md5_block_ref_def)
qed

lemma length_md5_h0 [bytes_len]: "length md5_h0 = 4"
  by (simp add: md5_h0_def)

lemma md5_fold_ref: "md_fold md5_block 64 md5_h0 x = md_fold md5_block_ref 64 md5_h0 x"
  using md_fold_cong_inv [where P = "\<lambda>h. length h = 4" and f = md5_block and g = md5_block_ref
      and h = md5_h0 and B = 64 and m = x]
  by (simp add: md5_block_eq length_md5_h0 length_md5_block_ref)

lemma length_md5_spec [bytes_len]: "length (md5_spec m) = 16"
proof -
  have "length (md_fold md5_block_ref 64 md5_h0 x) = 4" for x
    using md_fold_cong_inv [where P = "\<lambda>h. length h = 4" and f = md5_block_ref and g = md5_block_ref
        and h = md5_h0 and B = 64 and m = x]
    by (simp add: length_md5_h0 length_md5_block_ref)
  then show ?thesis by (simp add: md5_spec_def length_concat comp_def sum_list_triv)
qed

lemma MD5_Final_inv:
  assumes inv: "md5_inv ctx m"
  shows "MD5_Final ctx = md5_spec m"
proof -
  let ?u = "length m mod 64" and ?L = "le_bytes 8 (8 * length m)"
  have u: "?u < 64" by simp
  have mdi: "md5_abcd ctx = md_fold md5_block 64 md5_h0 m" "take ?u (md5_buffer ctx) = md_rest 64 m"
    and lb: "length (md5_buffer ctx) = 64"
    and lo: "unat (md5_lo ctx) = length m mod 2 ^ 29" and hi: "md5_hi ctx = of_nat (length m div 2 ^ 29)"
    using inv by (simp_all only: md5_inv_def md_inv_def)
  have used: "unat (md5_lo ctx AND 0x3f) = ?u"
    unfolding and_63 lo by (rule mod_mod_cancel) (simp add: dvd_def)
  note field = md5_length_field [OF lo hi]
  let ?R = "md_rest 64 m"
  have R: "length ?R = ?u" by simp
  obtain T where T: "md5_buffer ctx = ?R @ T" "length T = 64 - ?u"
    using mdi(2) lb by (metis append_take_drop_id length_drop)
  obtain t T' where T': "T = t # T'" using T(2) u by (cases T) auto
  have b80: "(md5_buffer ctx)[?u := 0x80] = ?R @ 0x80 # T'"
    using list_update_length [of ?R t T' "0x80"] by (simp only: T(1) T' R)
  have T'l: "length T' = 63 - ?u" using T T' by simp
  have pad: "md5_pad (length m) = 0x80 # replicate ((1 + (if 55 < ?u then 1 else 0)) * 64 - ?u - 9) 0 @ ?L"
    using pad_zeros [of 9 64 "length m"] by (simp add: md5_pad_def del: le_bytes.simps)
  have cont: "md_fold md5_block 64 md5_h0 (m @ md5_pad (length m)) =
      md_fold md5_block 64 (md_fold md5_block 64 md5_h0 m) (?R @ md5_pad (length m))"
    by (rule md_fold_continue) simp
  have "concat (map STORE32_LE (md_fold md5_block 64 md5_h0 (m @ md5_pad (length m)))) = MD5_Final ctx"
  proof (cases "55 < ?u")
    case False
    have b1: "memcpy_at (memcpy_at (?R @ 0x80 # T') (?u + 1) (replicate (64 - (?u + 1) - 8) 0)) 56 ?L
        = ?R @ 0x80 # replicate (55 - ?u) 0 @ ?L" (is "?b = ?b'")
    proof -
      have "memcpy_at (?R @ 0x80 # T') (?u + 1) (replicate (64 - (?u + 1) - 8) 0)
          = (?R @ 0x80 # replicate (55 - ?u) 0) @ drop (55 - ?u) T'"
        using memcpy_at_append [of "?R @ [0x80]" T' "replicate (55 - ?u) 0"] False by simp
      moreover have "length (?R @ 0x80 # replicate (55 - ?u) 0) = 56" using False by simp
      ultimately show ?thesis
        using memcpy_at_append [of "?R @ 0x80 # replicate (55 - ?u) 0" "drop (55 - ?u) T'" ?L] T'l False
        by (simp only:) simp
    qed
    have l1: "length ?b' = 64" using False by simp
    have "MD5_Final ctx = concat (map STORE32_LE (md5_body (md5_abcd ctx) ?b 64))"
    proof -
      have "(64 - (?u + 1) < 8) = False" using False by simp
      then show ?thesis
        by (simp only: MD5_Final_def Let_def used b80 field if_False prod.case)
    qed
    also have "md5_body (md5_abcd ctx) ?b 64 = md_fold md5_block 64 (md5_abcd ctx) ?b'"
      unfolding b1 md5_body_64 [OF l1] by (rule md_fold_one [OF l1, symmetric]) simp
    also have "\<dots> = md_fold md5_block 64 md5_h0 (m @ md5_pad (length m))"
      using False unfolding cont by (simp add: mdi(1) pad)
    finally show ?thesis by (rule sym)
  next
    case True
    let ?b1 = "?R @ 0x80 # replicate (63 - ?u) 0"
    have b1: "memcpy_at (?R @ 0x80 # T') (?u + 1) (replicate (64 - (?u + 1)) 0) = ?b1"
      using memcpy_at_append [of "?R @ [0x80]" T' "replicate (63 - ?u) 0"] T'l by simp
    have l1: "length ?b1 = 64" using u by simp
    have b2: "memcpy_at (memcpy_at ?b1 0 (replicate 56 0)) 56 ?L = replicate 56 0 @ ?L"
      using l1 by (simp add: memcpy_at_def)
    have l2: "length (replicate 56 0 @ ?L) = 64" by simp
    have "MD5_Final ctx = concat (map STORE32_LE (md5_body (md5_body (md5_abcd ctx) ?b1 64)
        (memcpy_at (memcpy_at ?b1 0 (replicate 56 0)) 56 ?L) 64))"
    proof -
      have "(64 - (?u + 1) < 8) = True" using True by simp
      moreover have "(64 :: nat) - 8 = 56" by simp
      ultimately show ?thesis
        by (simp only: MD5_Final_def Let_def used b80 field if_True prod.case b1)
    qed
    also have "md5_body (md5_body (md5_abcd ctx) ?b1 64)
        (memcpy_at (memcpy_at ?b1 0 (replicate 56 0)) 56 ?L) 64
        = md_fold md5_block 64 (md5_abcd ctx) (?b1 @ replicate 56 0 @ ?L)"
      unfolding b2 md5_body_64 [OF l1] md5_body_64 [OF l2]
      by (subst md_fold_block [OF l1], simp) (rule md_fold_one [OF l2, symmetric], simp)
    also have "?b1 @ replicate 56 0 @ ?L = ?R @ md5_pad (length m)"
    proof -
      have "replicate (63 - ?u) 0 @ replicate 56 0 = replicate (119 - ?u) (0 :: byte)"
        using u by (simp flip: replicate_add)
      then show ?thesis using True unfolding pad
        by (simp add: append_eq_append_conv2)
    qed
    also have "md_fold md5_block 64 (md5_abcd ctx) \<dots> = md_fold md5_block 64 md5_h0 (m @ md5_pad (length m))"
      unfolding cont by (simp only: mdi(1))
    finally show ?thesis by (rule sym)
  qed
  then show ?thesis by (simp only: md5_spec_def md5_fold_ref)
qed

lemma MD5_Updates_inv: "md5_inv ctx m \<Longrightarrow> md5_inv (foldl MD5_Update ctx ds) (m @ concat ds)"
proof (induction ds arbitrary: ctx m)
  case (Cons d ds)
  from Cons.IH [OF MD5_Update_inv [OF Cons.prems, of d]] show ?case by simp
qed simp

text \<open>
  C5. MD5 computed through any sequence of \<^verbatim>\<open>MD5_Update\<close> calls is the digest of RFC 1321 of
  the concatenated message, for every length: the split 29-bit and 32-bit byte counter
  carries exactly and gives the bit length modulo \<open>2 ^ 64\<close>.
\<close>

theorem MD5_incremental: "MD5_Final (foldl MD5_Update MD5_Init ds) = md5_spec (concat ds)"
  using MD5_Final_inv [OF MD5_Updates_inv [OF md5_inv_init]] by simp

end
