(* ===== verification/Codec_Algos.thy ===== *)
theory Codec_Algos
  imports MD5 SHA1 SHA2 "HOL-Library.Signed_Division"
begin

text \<open>
  \<^verbatim>\<open>src/src/codec_algos.c\<close> without its two AES functions: RC4, the digests of key material,
  the page initial vector with its linear congruential generator, hexadecimal keys, and the
  raw key syntaxes; and \<^verbatim>\<open>sqlite3mcPadPassword\<close> of \<^verbatim>\<open>src/src/cipher_common.c\<close>. The lemmas:
  RC4 is an involution that keeps its table a permutation, the generator's division trick is
  exact and never overflows, and a key written in any of the raw syntaxes is read back.
\<close>

section \<open>RC4\<close>

text \<open>The table \<^verbatim>\<open>rc4\<close> holds bytes; the indices \<^verbatim>\<open>a, b, j\<close> are ints in \<open>0..255\<close>.\<close>

definition rc4_setup_step :: "bytes \<Rightarrow> nat \<times> bytes \<Rightarrow> nat \<Rightarrow> nat \<times> bytes" where
  "rc4_setup_step key js i =
     (case js of (j, rc4) \<Rightarrow>
        let t = rc4 ! i;
            j = (j + unat t + unat (key ! (i mod length key))) mod 256;
            rc4 = rc4[i := rc4 ! j]
        in (j, rc4[j := t]))"

definition rc4_setup :: "bytes \<Rightarrow> bytes" where
  "rc4_setup key = snd (foldl (rc4_setup_step key) (0, map of_nat [0..<256]) [0..<256])"

definition rc4_next :: "nat \<times> nat \<times> bytes \<Rightarrow> byte \<times> nat \<times> nat \<times> bytes" where
  "rc4_next s =
     (case s of (a, b, rc4) \<Rightarrow>
        let a = (a + 1) mod 256;
            t = rc4 ! a;
            b = (b + unat t) mod 256;
            rc4 = rc4[a := rc4 ! b];
            rc4 = rc4[b := t];
            k = rc4 ! ((unat (rc4 ! a) + unat (rc4 ! b)) mod 256)
        in (k, a, b, rc4))"

primrec rc4_loop :: "nat \<times> nat \<times> bytes \<Rightarrow> bytes \<Rightarrow> bytes" where
  "rc4_loop s [] = []"
| "rc4_loop s (x # xs) = (let (k, s) = rc4_next s in (x XOR k) # rc4_loop s xs)"

definition sqlite3mcRC4 :: "bytes \<Rightarrow> bytes \<Rightarrow> bytes" where
  "sqlite3mcRC4 key textin = rc4_loop (0, 0, rc4_setup key) textin"

text \<open>The key stream.\<close>

primrec rc4_stream :: "nat \<times> nat \<times> bytes \<Rightarrow> nat \<Rightarrow> bytes" where
  "rc4_stream s 0 = []"
| "rc4_stream s (Suc n) = (let (k, s) = rc4_next s in k # rc4_stream s n)"

lemma length_rc4_stream [bytes_len, simp]: "length (rc4_stream s n) = n"
  by (induction n arbitrary: s) (simp_all add: Let_def split: prod.splits)

lemma rc4_loop_stream: "rc4_loop s xs = xor_bytes xs (rc4_stream s (length xs))"
  by (induction xs arbitrary: s) (simp_all add: Let_def split: prod.splits)

lemma sqlite3mcRC4_stream:
  "sqlite3mcRC4 key xs = xor_bytes xs (rc4_stream (0, 0, rc4_setup key) (length xs))"
  by (simp add: sqlite3mcRC4_def rc4_loop_stream)

lemma length_sqlite3mcRC4 [bytes_len, simp]: "length (sqlite3mcRC4 key xs) = length xs"
  by (simp add: sqlite3mcRC4_stream)

lemma sqlite3mcRC4_involution [simp]: "sqlite3mcRC4 key (sqlite3mcRC4 key xs) = xs"
  using sqlite3mcRC4_stream [of key xs] sqlite3mcRC4_stream [of key "sqlite3mcRC4 key xs"]
  by simp

text \<open>The table stays a permutation of the 256 bytes.\<close>

definition rc4_perm :: "bytes \<Rightarrow> bool" where
  "rc4_perm rc4 \<longleftrightarrow> length rc4 = 256 \<and> distinct rc4"

lemma rc4_setup_step_perm:
  "i < 256 \<Longrightarrow> rc4_perm rc4 \<Longrightarrow> rc4_perm (snd (rc4_setup_step key (j, rc4) i))"
  by (simp add: rc4_setup_step_def Let_def rc4_perm_def distinct_swap)

lemma rc4_setup_perm: "rc4_perm (rc4_setup key)"
proof -
  have "n \<le> 256 \<Longrightarrow> rc4_perm (snd (foldl (rc4_setup_step key) (0, map of_nat [0..<256]) [0..<n]))" for n
  proof (induction n)
    case 0
    have "inj_on (of_nat :: nat \<Rightarrow> byte) {0..<256}"
      by (rule inj_onI) (simp add: of_nat_eq_iff take_bit_nat_eq_self unsigned_of_nat word_unat_eq_iff)
    then show ?case by (simp add: rc4_perm_def distinct_map del: upt_rec_numeral)
  next
    case (Suc n)
    then show ?case
      using rc4_setup_step_perm [of n _ key] by (cases "foldl (rc4_setup_step key) (0, map of_nat [0..<256]) [0..<n]")
        (simp del: upt_rec_numeral)
  qed
  then show ?thesis by (simp add: rc4_setup_def del: upt_rec_numeral)
qed

lemma rc4_next_perm: "rc4_perm rc4 \<Longrightarrow> rc4_next (a, b, rc4) = (k, a', b', rc4') \<Longrightarrow> rc4_perm rc4'"
  by (auto simp: rc4_next_def Let_def rc4_perm_def distinct_swap)

section \<open>Digests of key material\<close>

definition sqlite3mcGetMD5Binary :: "bytes \<Rightarrow> bytes" where
  "sqlite3mcGetMD5Binary data = md5_digest data"

definition sqlite3mcGetSHABinary :: "bytes \<Rightarrow> bytes" where
  "sqlite3mcGetSHABinary data = sha256 data"

section \<open>The initial vector of a page\<close>

text \<open>\<^verbatim>\<open>MODMULT(a, b, c, m, s)\<close>, with the truncating division of C, which matters for a negative seed.\<close>

definition MODMULT :: "int \<Rightarrow> int \<Rightarrow> int \<Rightarrow> int \<Rightarrow> int \<Rightarrow> int" where
  "MODMULT a b c m s = (let q = s sdiv a; s = b * (s - a * q) - c * q in if s < 0 then s + m else s)"

definition int_bytes_le :: "int \<Rightarrow> bytes" where
  "int_bytes_le z = [of_int z, of_int (z div 2 ^ 8), of_int (z div 2 ^ 16), of_int (z div 2 ^ 24)]"

definition modmult_step :: "int \<Rightarrow> int" where
  "modmult_step z = MODMULT 52774 40692 3791 2147483399 z"

definition sqlite3mcGenerateInitialVector :: "int \<Rightarrow> bytes" where
  "sqlite3mcGenerateInitialVector seed =
     (let z0 = seed + 1;
          z1 = modmult_step z0; z2 = modmult_step z1; z3 = modmult_step z2; z4 = modmult_step z3;
          initkey = int_bytes_le z1 @ int_bytes_le z2 @ int_bytes_le z3 @ int_bytes_le z4
      in sqlite3mcGetMD5Binary initkey)"

lemma md5_digest_spec: "md5_digest data = md5_spec data"
proof -
  have "md5_digest data = MD5_Final (foldl MD5_Update MD5_Init [data])"
    by (simp add: md5_digest_def)
  also have "\<dots> = md5_spec data"
    using MD5_Final_inv [OF MD5_Updates_inv [OF md5_inv_init, of "[data]"]] by simp
  finally show ?thesis .
qed

lemma length_md5_digest [bytes_len, simp]: "length (md5_digest data) = 16"
  by (simp add: md5_digest_spec length_md5_spec)

lemma length_sqlite3mcGenerateInitialVector [bytes_len, simp]:
  "length (sqlite3mcGenerateInitialVector seed) = 16"
  by (simp add: sqlite3mcGenerateInitialVector_def sqlite3mcGetMD5Binary_def Let_def)

lemma sdiv_nonneg: "0 \<le> s \<Longrightarrow> 0 \<le> a \<Longrightarrow> s sdiv a = s div a" for s a :: int
  by (cases "s = 0 \<or> a = 0") (auto simp: signed_divide_int_def)

text \<open>Schrage's division: exact, and every intermediate value is a 32-bit int.\<close>

abbreviation is_int32 :: "int \<Rightarrow> bool" where
  "is_int32 z \<equiv> - (2 ^ 31) \<le> z \<and> z < 2 ^ 31"

lemma schrage_bounds:
  fixes z :: int
  assumes "0 \<le> z" and "z < 2147483399"
  defines "q \<equiv> z div 52774"
  shows "0 \<le> q" "q \<le> 40692" "0 \<le> z - 52774 * q" "z - 52774 * q \<le> 52773"
proof -
  show "0 \<le> q" using assms by (simp add: q_def)
  have r: "z - 52774 * q = z mod 52774" by (simp add: q_def minus_mult_div_eq_mod)
  have "0 \<le> z mod 52774" "z mod 52774 < 52774" by simp_all
  then show r0: "0 \<le> z - 52774 * q" and "z - 52774 * q \<le> 52773" unfolding r by simp_all
  show "q \<le> 40692" using r0 assms(2) by linarith
qed

text \<open>One step is exact, stays below the modulus, and every intermediate value fits a C int.\<close>

lemma modmult_step:
  assumes "0 \<le> z" and "z < 2147483399"
  shows "modmult_step z = 40692 * z mod 2147483399"
    and "is_int32 (52774 * (z div 52774))" and "is_int32 (40692 * (z - 52774 * (z div 52774)))"
    and "is_int32 (3791 * (z div 52774))"
    and "is_int32 (40692 * (z - 52774 * (z div 52774)) - 3791 * (z div 52774))"
    and "0 \<le> modmult_step z" and "modmult_step z < 2147483399"
proof -
  define q where "q = z div 52774"
  note b = schrage_bounds [OF assms, folded q_def]
  let ?s = "40692 * (z - 52774 * q) - 3791 * q"
  have eq: "40692 * z = ?s + 2147483399 * q" by simp
  have mod: "40692 * z mod 2147483399 = ?s mod 2147483399"
    unfolding eq by (simp only: mod_mult_self2)
  have "0 \<le> 40692 * (z - 52774 * q)" "40692 * (z - 52774 * q) \<le> 40692 * 52773"
    "0 \<le> 3791 * q" "3791 * q \<le> 3791 * 40692"
    using b by (intro mult_nonneg_nonneg mult_left_mono; simp)+
  then have r: "- 2147483399 < ?s" "?s < 2147483399" by simp_all
  show e: "modmult_step z = 40692 * z mod 2147483399"
  proof (cases "?s < 0")
    case True
    then have "?s mod 2147483399 = ?s + 2147483399"
      using r mod_add_self2 [of ?s 2147483399] mod_pos_pos_trivial [of "?s + 2147483399" 2147483399] by simp
    with True show ?thesis by (simp add: modmult_step_def MODMULT_def sdiv_nonneg assms Let_def mod q_def)
  next
    case False
    with r show ?thesis by (simp add: modmult_step_def MODMULT_def sdiv_nonneg assms Let_def mod q_def [symmetric] mod_pos_pos_trivial)
  qed
  show "0 \<le> modmult_step z" "modmult_step z < 2147483399" unfolding e by simp_all
  show "is_int32 (52774 * (z div 52774))" "is_int32 (40692 * (z - 52774 * (z div 52774)))"
    "is_int32 (3791 * (z div 52774))" "is_int32 (40692 * (z - 52774 * (z div 52774)) - 3791 * (z div 52774))"
    unfolding q_def [symmetric] using b by simp_all
qed

text \<open>
  The multiplicative generator behind the page initial vectors never overflows: for every
  state below the modulus the products, the difference and the new state that \<^verbatim>\<open>MODMULT\<close>
  computes stay in the range of a C int, and the new state is again below the modulus.
\<close>

theorem modmult_no_overflow:
  assumes "0 \<le> z" and "z < 2147483399"
  shows "(let q = z div 52774
          in is_int32 (52774 * q) \<and> is_int32 (40692 * (z - 52774 * q)) \<and> is_int32 (3791 * q)
             \<and> is_int32 (40692 * (z - 52774 * q) - 3791 * q))
    \<and> modmult_step z \<in> {0..<2147483399}"
  using modmult_step(2-7) [OF assms] by (simp add: Let_def)

theorem modmult_no_overflow_witness: "modmult_step 2147483398 \<in> {0..<2147483399}"
  using modmult_no_overflow [of 2147483398] by simp

lemma modmult_step_power:
  assumes "z = 40692 ^ i * s mod 2147483399"
  shows "modmult_step z = 40692 ^ Suc i * s mod 2147483399"
proof -
  have z: "0 \<le> z" "z < 2147483399" by (simp_all add: assms)
  show ?thesis
    unfolding modmult_step(1) [OF z] power_Suc mult.assoc unfolding assms by (rule mod_mult_right_eq)
qed

text \<open>
  For every page number the initial vector is the MD5 digest of four successive values of
  the multiplicative congruential generator started at the page number plus one: the
  division trick of \<^verbatim>\<open>MODMULT\<close> computes \<open>40692 ^ i * (page + 1) mod 2147483399\<close> exactly.
\<close>

lemma initial_vector_exact:
  assumes "0 \<le> seed" and "seed < 2147483398"
  shows "sqlite3mcGenerateInitialVector seed =
    md5_spec (concat (map (\<lambda>i. int_bytes_le (40692 ^ i * (seed + 1) mod 2147483399)) [1, 2, 3, 4]))"
proof -
  define s where "s = seed + 1"
  have 0: "s = 40692 ^ 0 * s mod 2147483399" using assms by (simp add: s_def)
  note 1 = modmult_step_power [OF 0]
  note 2 = modmult_step_power [OF 1]
  note 3 = modmult_step_power [OF 2]
  note 4 = modmult_step_power [OF 3]
  have "sqlite3mcGenerateInitialVector seed =
    md5_digest (int_bytes_le (40692 ^ Suc 0 * s mod 2147483399) @ int_bytes_le (40692 ^ Suc (Suc 0) * s mod 2147483399)
      @ int_bytes_le (40692 ^ Suc (Suc (Suc 0)) * s mod 2147483399)
      @ int_bytes_le (40692 ^ Suc (Suc (Suc (Suc 0))) * s mod 2147483399))"
    unfolding sqlite3mcGenerateInitialVector_def sqlite3mcGetMD5Binary_def Let_def s_def [symmetric]
    by (simp only: 4, simp only: 3, simp only: 2, simp only: 1)
  moreover have "[1, 2, 3, 4] = [Suc 0, Suc (Suc 0), Suc (Suc (Suc 0)), Suc (Suc (Suc (Suc 0)))]" by simp
  ultimately show ?thesis
    by (simp only: md5_digest_spec s_def [symmetric] list.map concat.simps append_Nil2)
qed

lemma initial_vector_exact_witness:
  "sqlite3mcGenerateInitialVector 1 =
    md5_spec (concat (map (\<lambda>i. int_bytes_le (40692 ^ i * 2 mod 2147483399)) [1, 2, 3, 4]))"
  using initial_vector_exact [of 1] by (simp only: one_add_one)

section \<open>Keys in hexadecimal\<close>

definition sqlite3mcIsHexKey :: "bytes \<Rightarrow> bool" where
  "sqlite3mcIsHexKey hex = list_all (\<lambda>c. \<not> ((c < 0x30 \<or> c > 0x39) \<and> (c < 0x41 \<or> c > 0x46) \<and> (c < 0x61 \<or> c > 0x66))) hex"

definition sqlite3mcConvertHex2Int :: "byte \<Rightarrow> int" where
  "sqlite3mcConvertHex2Int c =
     (if c \<ge> 0x30 \<and> c \<le> 0x39 then uint c - 0x30
      else if c \<ge> 0x41 \<and> c \<le> 0x46 then uint c - 0x41 + 10
      else if c \<ge> 0x61 \<and> c \<le> 0x66 then uint c - 0x61 + 10 else 0)"

definition sqlite3mcConvertHex2Bin :: "bytes \<Rightarrow> bytes" where
  "sqlite3mcConvertHex2Bin hex =
     map (\<lambda>k. of_int (push_bit 4 (sqlite3mcConvertHex2Int (hex ! (2 * k)))
        OR sqlite3mcConvertHex2Int (hex ! (2 * k + 1)))) [0 ..< (length hex + 1) div 2]"

text \<open>
  \<^verbatim>\<open>sqlite3mcExtractRawKey\<close>: the result is the flag \<^verbatim>\<open>bypass\<close> with the buffers \<open>key\<close> and
  \<open>salt\<close> as the call leaves them; the password is the list of its \<^verbatim>\<open>passwordLength\<close> bytes.
\<close>

definition sqlite3mcExtractRawKey :: "bytes \<Rightarrow> bool \<Rightarrow> nat \<Rightarrow> nat \<Rightarrow> bytes \<Rightarrow> bytes \<Rightarrow> bool \<times> bytes \<times> bytes" where
  "sqlite3mcExtractRawKey password keyOnly keyLength saltLength key salt =
     (let passwordLength = length password;
          isX = (take 2 password = [0x78, 0x27] \<or> take 2 password = [0x58, 0x27])
      in if passwordLength > 4 \<and> take 4 password = [0x72, 0x61, 0x77, 0x3a] then
           let nRaw = passwordLength - 4; zRaw = drop 4 password
           in if nRaw = keyLength + saltLength then
                (True, memcpy_at key 0 (take keyLength zRaw),
                 (if keyOnly then salt else memcpy_at salt 0 (region keyLength saltLength zRaw)))
              else if nRaw = keyLength then (True, memcpy_at key 0 (take keyLength zRaw), salt)
              else if nRaw = 2 * keyLength then
                (if sqlite3mcIsHexKey zRaw then (True, memcpy_at key 0 (sqlite3mcConvertHex2Bin zRaw), salt)
                 else (False, key, salt))
              else if nRaw = 2 * (keyLength + saltLength) then
                (if sqlite3mcIsHexKey zRaw then
                   (True, memcpy_at key 0 (sqlite3mcConvertHex2Bin (take (2 * keyLength) zRaw)),
                    (if keyOnly then salt
                     else memcpy_at salt 0 (sqlite3mcConvertHex2Bin (region (2 * keyLength) (2 * saltLength) zRaw))))
                 else (False, key, salt))
              else (False, key, salt)
         else if passwordLength = keyLength * 2 + 3 \<and> isX
                 \<and> sqlite3mcIsHexKey (region 2 (keyLength * 2) password) then
           (True, memcpy_at key 0 (sqlite3mcConvertHex2Bin (region 2 (passwordLength - 3) password)), salt)
         else if passwordLength = (keyLength + saltLength) * 2 + 3 \<and> isX
                 \<and> sqlite3mcIsHexKey (region 2 ((keyLength + saltLength) * 2) password) then
           (True, memcpy_at key 0 (sqlite3mcConvertHex2Bin (region 2 (keyLength * 2) password)),
            (if keyOnly then salt
             else memcpy_at salt 0 (sqlite3mcConvertHex2Bin (region (2 + keyLength * 2) (saltLength * 2) password))))
         else (False, key, salt))"

text \<open>The hexadecimal spelling of bytes, with small or capital letters.\<close>

definition hex_digit :: "bool \<Rightarrow> nat \<Rightarrow> byte" where
  "hex_digit cap n = of_nat (if n < 10 then 0x30 + n else (if cap then 0x41 else 0x61) + (n - 10))"

primrec hex_of :: "bool \<Rightarrow> bytes \<Rightarrow> bytes" where
  "hex_of cap [] = []"
| "hex_of cap (b # bs) = hex_digit cap (unat b div 16) # hex_digit cap (unat b mod 16) # hex_of cap bs"

lemma length_hex_of [bytes_len, simp]: "length (hex_of cap bs) = 2 * length bs"
  by (induction bs) simp_all

lemma hex_digits:
  "\<forall>cap. \<forall>n \<in> set [0..<16]. sqlite3mcConvertHex2Int (hex_digit cap n) = int n
     \<and> sqlite3mcIsHexKey [hex_digit cap n]"
  by code_simp

lemma hex_digit_int: "n < 16 \<Longrightarrow> sqlite3mcConvertHex2Int (hex_digit cap n) = int n"
  and hex_digit_ok: "n < 16 \<Longrightarrow> sqlite3mcIsHexKey [hex_digit cap n]"
  using hex_digits by (auto simp del: upt_rec_numeral)

lemma hex_of_ok: "sqlite3mcIsHexKey (hex_of cap bs)"
proof (induction bs)
  case (Cons b bs)
  have "unat b div 16 < 16" using unat_bound [of b] by simp
  with hex_digit_ok [of "unat b div 16" cap] hex_digit_ok [of "unat b mod 16" cap] Cons show ?case
    by (simp add: sqlite3mcIsHexKey_def)
qed (simp add: sqlite3mcIsHexKey_def)

lemma hex_byte: "of_int (push_bit 4 (int (unat b div 16)) OR int (unat b mod 16)) = (b :: byte)"
proof -
  have "int (unat b div 16) = drop_bit 4 (uint b)" "int (unat b mod 16) = take_bit 4 (uint b)"
    by (simp_all add: drop_bit_eq_div take_bit_eq_mod zdiv_int zmod_int)
  moreover have "push_bit 4 (drop_bit 4 (uint b)) OR take_bit 4 (uint b) = uint b"
    by (rule bit_eqI) (auto simp: bit_simps)
  ultimately show ?thesis by simp
qed

lemma sqlite3mcConvertHex2Bin_hex_of: "sqlite3mcConvertHex2Bin (hex_of cap bs) = bs"
proof (rule nth_equalityI)
  fix k assume "k < length (sqlite3mcConvertHex2Bin (hex_of cap bs))"
  then have k: "k < length bs" by (simp add: sqlite3mcConvertHex2Bin_def)
  then have "hex_of cap bs ! (2 * k) = hex_digit cap (unat (bs ! k) div 16) \<and>
      hex_of cap bs ! (2 * k + 1) = hex_digit cap (unat (bs ! k) mod 16)"
  proof (induction bs arbitrary: k)
    case (Cons b bs)
    then show ?case by (cases k) auto
  qed simp
  moreover have "unat (bs ! k) div 16 < 16" using unat_bound [of "bs ! k"] by simp
  ultimately show "sqlite3mcConvertHex2Bin (hex_of cap bs) ! k = bs ! k"
    using k by (simp add: sqlite3mcConvertHex2Bin_def hex_digit_int hex_byte)
qed (simp add: sqlite3mcConvertHex2Bin_def)

lemma hex_of_append: "hex_of cap (as @ bs) = hex_of cap as @ hex_of cap bs"
  by (induction as) simp_all

lemma sqlite3mcIsHexKey_append: "sqlite3mcIsHexKey (xs @ ys) \<longleftrightarrow> sqlite3mcIsHexKey xs \<and> sqlite3mcIsHexKey ys"
  by (simp add: sqlite3mcIsHexKey_def)

lemma memcpy_at_all: "length xs = length ys \<Longrightarrow> memcpy_at xs 0 ys = ys"
  by (simp add: memcpy_at_def)

lemma extract_raw_hex:
  assumes "length k = kl" "length s = sl" "length key = kl" "length salt = sl" "0 < kl" "0 < sl" "kl \<noteq> sl"
  shows "sqlite3mcExtractRawKey ([0x72, 0x61, 0x77, 0x3a] @ hex_of cap k) keyOnly kl sl key salt = (True, k, salt)"
    and "sqlite3mcExtractRawKey ([0x72, 0x61, 0x77, 0x3a] @ hex_of cap (k @ s)) keyOnly kl sl key salt =
      (True, k, if keyOnly then salt else s)"
  using assms
  by (simp_all add: sqlite3mcExtractRawKey_def Let_def hex_of_ok sqlite3mcConvertHex2Bin_hex_of memcpy_at_all
      hex_of_append sqlite3mcIsHexKey_append region_def)

lemma extract_raw_bin:
  assumes "length k = kl" "length s = sl" "length key = kl" "length salt = sl" "0 < kl" "0 < sl"
  shows "sqlite3mcExtractRawKey ([0x72, 0x61, 0x77, 0x3a] @ k) keyOnly kl sl key salt = (True, k, salt)"
    and "sqlite3mcExtractRawKey ([0x72, 0x61, 0x77, 0x3a] @ k @ s) keyOnly kl sl key salt =
      (True, k, if keyOnly then salt else s)"
  using assms
  by (simp_all add: sqlite3mcExtractRawKey_def Let_def memcpy_at_all region_def)

lemma extract_raw_sqlcipher:
  assumes "length k = kl" "length s = sl" "length key = kl" "length salt = sl" "0 < kl" "0 < sl" "x \<in> {0x78, 0x58}"
  shows "sqlite3mcExtractRawKey ([x, 0x27] @ hex_of cap k @ [0x27]) keyOnly kl sl key salt = (True, k, salt)"
    and "sqlite3mcExtractRawKey ([x, 0x27] @ hex_of cap (k @ s) @ [0x27]) keyOnly kl sl key salt =
      (True, k, if keyOnly then salt else s)"
  using assms
  by (auto simp: sqlite3mcExtractRawKey_def Let_def hex_of_ok sqlite3mcConvertHex2Bin_hex_of memcpy_at_all
      hex_of_append sqlite3mcIsHexKey_append region_def)

text \<open>
  C7. A raw key of 32 bytes and a salt of 16 (ChaCha20, SQLCipher) spelled in any of the six
  syntaxes (\<^verbatim>\<open>raw:\<close> with binary or hexadecimal digits, \<^verbatim>\<open>x'...'\<close>, each with and without the
  salt, capital or small digits) bypasses the key derivation and is read back unchanged; the
  salt is taken over exactly when the caller does not ask for the key only.
\<close>

theorem raw_key_roundtrip:
  assumes "length k = 32" "length s = 16" "length key = 32" "length salt = 16"
  shows "sqlite3mcExtractRawKey ([0x72, 0x61, 0x77, 0x3a] @ k) keyOnly 32 16 key salt = (True, k, salt)
    \<and> sqlite3mcExtractRawKey ([0x72, 0x61, 0x77, 0x3a] @ k @ s) keyOnly 32 16 key salt =
      (True, k, if keyOnly then salt else s)
    \<and> sqlite3mcExtractRawKey ([0x72, 0x61, 0x77, 0x3a] @ hex_of cap k) keyOnly 32 16 key salt = (True, k, salt)
    \<and> sqlite3mcExtractRawKey ([0x72, 0x61, 0x77, 0x3a] @ hex_of cap (k @ s)) keyOnly 32 16 key salt =
      (True, k, if keyOnly then salt else s)
    \<and> sqlite3mcExtractRawKey ([0x78, 0x27] @ hex_of cap k @ [0x27]) keyOnly 32 16 key salt = (True, k, salt)
    \<and> sqlite3mcExtractRawKey ([0x78, 0x27] @ hex_of cap (k @ s) @ [0x27]) keyOnly 32 16 key salt =
      (True, k, if keyOnly then salt else s)"
  by (intro conjI extract_raw_bin [where s = s] extract_raw_hex [where s = s] extract_raw_sqlcipher [where s = s])
    (simp_all add: assms)

theorem raw_key_roundtrip_witness:
  "sqlite3mcExtractRawKey ([0x72, 0x61, 0x77, 0x3a] @ hex_of True (replicate 32 0xab)) False 32 16
     (replicate 32 0) (replicate 16 0) = (True, replicate 32 0xab, replicate 16 0)"
  using raw_key_roundtrip [of "replicate 32 0xab" "replicate 16 1" "replicate 32 0" "replicate 16 0" False True]
  by (simp only: length_replicate)

section \<open>Padding of passwords\<close>

definition padding :: bytes where
  "padding = [0x28, 0xBF, 0x4E, 0x5E, 0x4E, 0x75, 0x8A, 0x41, 0x64, 0x00, 0x4E, 0x56, 0xFF, 0xFA, 0x01, 0x08,
     0x2E, 0x2E, 0x00, 0xB6, 0xD0, 0x68, 0x3E, 0x80, 0x2F, 0x0C, 0xA9, 0xFE, 0x64, 0x53, 0x69, 0x7A]"

primrec pad_loop :: "nat \<Rightarrow> nat \<Rightarrow> bytes \<Rightarrow> bytes" where
  "pad_loop 0 j pswd = pswd"
| "pad_loop (Suc fuel) j pswd =
     (if length pswd < 32 \<and> j < 32 then pad_loop fuel (j + 1) (pswd @ [padding ! j]) else pswd)"

text \<open>The second loop ends after 32 turns because of its test \<^verbatim>\<open>j < 32\<close>; \<open>p\<close> is the length written.\<close>

definition sqlite3mcPadPassword :: "bytes \<Rightarrow> bytes" where
  "sqlite3mcPadPassword password =
     (let m = min (length password) 32
      in pad_loop 33 0 (map (\<lambda>j. password ! j) [0..<m]))"

lemma length_padding [simp]: "length padding = 32"
  by (simp add: padding_def)

lemma pad_loop_eq:
  "32 - j < fuel \<Longrightarrow> length pswd \<le> 32 \<Longrightarrow> j \<le> 32 \<Longrightarrow> j + (32 - length pswd) \<le> 32
     \<Longrightarrow> pad_loop fuel j pswd = take 32 (pswd @ drop j padding)"
proof (induction fuel arbitrary: j pswd)
  case (Suc fuel)
  show ?case
  proof (cases "length pswd < 32 \<and> j < 32")
    case True
    then have "pad_loop fuel (j + 1) (pswd @ [padding ! j]) = take 32 ((pswd @ [padding ! j]) @ drop (j + 1) padding)"
      using Suc.prems by (intro Suc.IH) auto
    moreover have "drop j padding = padding ! j # drop (j + 1) padding"
      using True by (simp add: Cons_nth_drop_Suc)
    ultimately show ?thesis using True by simp
  next
    case False
    then show ?thesis using Suc.prems by auto
  qed
qed simp

lemma sqlite3mcPadPassword_eq: "sqlite3mcPadPassword password = take 32 (password @ padding)"
proof -
  have "map (\<lambda>j. password ! j) [0..<min (length password) 32] = take 32 password"
    by (rule nth_equalityI) simp_all
  then show ?thesis
    by (simp add: sqlite3mcPadPassword_def Let_def pad_loop_eq)
      (cases "length password \<le> 32"; simp)
qed

lemma length_sqlite3mcPadPassword [bytes_len, simp]: "length (sqlite3mcPadPassword password) = 32"
  by (simp add: sqlite3mcPadPassword_eq)

section \<open>Raw keys as a function of the password\<close>

lemma length_sqlite3mcConvertHex2Bin [bytes_len, simp]:
  "length (sqlite3mcConvertHex2Bin hex) = (length hex + 1) div 2"
  by (simp add: sqlite3mcConvertHex2Bin_def)

text \<open>
  The raw key in a password, and the salt if it has one, for a key of 32 and a salt of 16 bytes.
\<close>

definition raw_key :: "bytes \<Rightarrow> (bytes \<times> bytes option) option" where
  "raw_key pw =
     (let n = length pw; isX = (take 2 pw = [0x78, 0x27] \<or> take 2 pw = [0x58, 0x27]); z = drop 4 pw; hex = sqlite3mcConvertHex2Bin
      in if n > 4 \<and> take 4 pw = [0x72, 0x61, 0x77, 0x3a] then
           (if n - 4 = 48 then Some (take 32 z, Some (region 32 16 z))
            else if n - 4 = 32 then Some (take 32 z, None)
            else if n - 4 = 64 then (if sqlite3mcIsHexKey z then Some (hex z, None) else None)
            else if n - 4 = 96 then
              (if sqlite3mcIsHexKey z then Some (hex (take 64 z), Some (hex (region 64 32 z))) else None)
            else None)
         else if n = 67 \<and> isX \<and> sqlite3mcIsHexKey (region 2 64 pw) then Some (hex (region 2 (n - 3) pw), None)
         else if n = 99 \<and> isX \<and> sqlite3mcIsHexKey (region 2 96 pw) then
           Some (hex (region 2 64 pw), Some (hex (region 66 32 pw)))
         else None)"

definition use_raw_key :: "(bytes \<times> bytes option) option \<Rightarrow> bool \<Rightarrow> bytes \<Rightarrow> bytes \<Rightarrow> bool \<times> bytes \<times> bytes" where
  "use_raw_key raw keyOnly key salt =
     (case raw of None \<Rightarrow> (False, key, salt) | Some (k, None) \<Rightarrow> (True, k, salt)
      | Some (k, Some s) \<Rightarrow> (True, k, if keyOnly then salt else s))"

lemma use_raw_key_if: "use_raw_key (if b then x else y) ko key salt = (if b then use_raw_key x ko key salt else use_raw_key y ko key salt)"
  by simp

lemma sqlite3mcExtractRawKey_raw:
  assumes "length key = 32" and "length salt = 16"
  shows "sqlite3mcExtractRawKey pw keyOnly 32 16 key salt = use_raw_key (raw_key pw) keyOnly key salt"
  unfolding sqlite3mcExtractRawKey_def raw_key_def Let_def use_raw_key_if
  by (intro if_cong) (simp_all add: assms use_raw_key_def memcpy_at_all)

lemma raw_key_length: "raw_key pw = Some (k, s) \<Longrightarrow> length k = 32 \<and> (\<forall>t. s = Some t \<longrightarrow> length t = 16)"
  by (auto simp: raw_key_def Let_def split: if_splits)

end
