(* ===== verification/Config.thy ===== *)
theory Config
  imports MC_Prelude
begin

text \<open>
  The configuration parameters of \<^verbatim>\<open>src/src/cipher_common.c\<close> and \<^verbatim>\<open>src/src/cipher_config.c\<close>: the
  global parameter table, the copy of it that every connection holds, the one-shot reading
  of parameters by the ciphers, and the functions of the C interface, the SQL interface and
  the URI and pragma handling that read and change them.

  Tables are arrays that end at an entry with an empty name, as in the code; an array of
  parameters is the list of its entries before that sentinel. Strings are C strings, so
  without the character 0. The two parameter tables are told apart by the flag \<open>db\<close>:
  \<open>True\<close> stands for the connection (a non-NULL \<^verbatim>\<open>sqlite3*\<close>; one connection is modelled),
  \<open>False\<close> for the global table (a NULL pointer). The mutexes and the log messages are not
  modelled, and \<^verbatim>\<open>sqlite3_initialize\<close> is taken to have succeeded.
\<close>

section \<open>Names\<close>

text \<open>\<^verbatim>\<open>sqlite3_stricmp\<close> and \<^verbatim>\<open>sqlite3_strnicmp\<close> fold the 26 capital letters of ASCII only.\<close>

definition ascii_lower :: "char \<Rightarrow> char" where
  "ascii_lower c = (let n = of_char c :: nat in if 65 \<le> n \<and> n \<le> 90 then char_of (n + 32) else c)"

definition stricmp :: "string \<Rightarrow> string \<Rightarrow> bool" where
  "stricmp a b \<longleftrightarrow> map ascii_lower a = map ascii_lower b"

definition has_prefix :: "string \<Rightarrow> string \<Rightarrow> bool" where
  "has_prefix p s \<longleftrightarrow> length p \<le> length s \<and> stricmp p (take (length p) s)"

text \<open>One test of a prefix, with the name moved behind it.\<close>

definition strip :: "string \<Rightarrow> string \<Rightarrow> bool \<times> string" where
  "strip p s = (if has_prefix p s then (True, drop (length p) s) else (False, s))"

lemma stricmp_refl [simp]: "stricmp a a" by (simp add: stricmp_def)
lemma stricmp_sym: "stricmp a b \<Longrightarrow> stricmp b a" by (simp add: stricmp_def)
lemma stricmp_trans: "stricmp a b \<Longrightarrow> stricmp b c \<Longrightarrow> stricmp a c" by (simp add: stricmp_def)
lemma stricmp_Nil [simp]: "stricmp [] b \<longleftrightarrow> b = []" "stricmp a [] \<longleftrightarrow> a = []" by (auto simp: stricmp_def)

text \<open>
  The loop \<^verbatim>\<open>for (; e->m_name[0] != 0; ++e) if (sqlite3_stricmp(name, e->m_name) == 0) break;\<close>
  over a table: the index at which it stops, or \<open>None\<close> when it stops at the sentinel.
\<close>

fun find_entry :: "('a \<Rightarrow> string) \<Rightarrow> string \<Rightarrow> 'a list \<Rightarrow> nat option" where
  "find_entry nm s [] = None"
| "find_entry nm s (x # xs) =
     (if nm x = [] then None
      else if stricmp s (nm x) then Some 0 else map_option Suc (find_entry nm s xs))"

lemma find_entry_Some:
  "find_entry nm s xs = Some k \<Longrightarrow>
     k < length xs \<and> stricmp s (nm (xs ! k)) \<and> (\<forall>i \<le> k. nm (xs ! i) \<noteq> []) \<and> (\<forall>i < k. \<not> stricmp s (nm (xs ! i)))"
proof (induction xs arbitrary: k)
  case (Cons x xs)
  show ?case
  proof (cases "nm x = [] \<or> stricmp s (nm x)")
    case True
    with Cons.prems show ?thesis by (auto split: if_splits)
  next
    case False
    with Cons.prems obtain j where "find_entry nm s xs = Some j" "k = Suc j" by auto
    with Cons.IH [of j] False show ?thesis by (auto simp: less_Suc_eq_0_disj le_Suc_eq nth_Cons split: nat.splits)
  qed
qed simp

lemma find_entry_eq_Some:
  assumes "k < length xs" "stricmp s (nm (xs ! k))" "\<forall>i \<le> k. nm (xs ! i) \<noteq> []" "\<forall>i < k. \<not> stricmp s (nm (xs ! i))"
  shows "find_entry nm s xs = Some k"
  using assms
proof (induction xs arbitrary: k)
  case (Cons x xs)
  show ?case
  proof (cases k)
    case (Suc j)
    have shift: "P (Suc i)" if "\<forall>i \<le> Suc j. P i" "i \<le> j" for P i using that by simp
    have shift': "P (Suc i)" if "\<forall>i < Suc j. P i" "i < j" for P i using that by simp
    have "find_entry nm s xs = Some j"
    proof (rule Cons.IH)
      show "\<forall>i \<le> j. nm (xs ! i) \<noteq> []" using shift [OF Cons.prems(3) [unfolded Suc]] by simp
      show "\<forall>i < j. \<not> stricmp s (nm (xs ! i))" using shift' [OF Cons.prems(4) [unfolded Suc]] by simp
    qed (use Cons.prems(1, 2) in \<open>simp_all add: Suc\<close>)
    moreover have "nm x \<noteq> []" "\<not> stricmp s (nm x)"
      using Cons.prems(3) [rule_format, of 0] Cons.prems(4) [rule_format, of 0] by (simp_all add: Suc)
    ultimately show ?thesis unfolding Suc by simp
  qed (use Cons.prems in auto)
qed simp

section \<open>The tables\<close>

record CipherParams =
  p_name :: string
  p_value :: int
  p_default :: int
  p_min :: int
  p_max :: int

record CodecParameter =
  c_name :: string
  c_id :: int
  c_params :: "CipherParams list option"

text \<open>
  The global variables of \<^verbatim>\<open>cipher_common.c\<close>, of the descriptor table only the column of
  names (its methods are in the theory \<open>Registry\<close>), and the table of the connection, which
  \<^verbatim>\<open>sqlite3_get_clientdata\<close> returns; \<open>None\<close> is NULL. \<open>allocs\<close> decides the outcome of the next
  calls of \<^verbatim>\<open>sqlite3_malloc\<close>; when it is used up every call succeeds.
\<close>

record mc_config =
  globalCipherCount :: nat
  globalCipherNameTable :: "string list"
  descriptorNames :: "string list"
  globalCodecParameterTable :: "CodecParameter list"
  clientParams :: "CodecParameter list option"
  allocs :: "bool list"

definition sqlite3_malloc :: "mc_config \<Rightarrow> bool \<times> mc_config" where
  "sqlite3_malloc s = (case allocs s of [] \<Rightarrow> (True, s) | ok # rest \<Rightarrow> (ok, s\<lparr>allocs := rest\<rparr>))"

definition CODEC_COUNT_MAX :: nat where "CODEC_COUNT_MAX = 16"
definition CIPHER_NAME_MAXLEN :: nat where "CIPHER_NAME_MAXLEN = 32"

definition commonParams :: "CipherParams list" where
  "commonParams =
     [\<lparr>p_name = ''cipher'', p_value = 0, p_default = 0, p_min = 1, p_max = 16\<rparr>,
      \<lparr>p_name = ''hmac_check'', p_value = 1, p_default = 1, p_min = 0, p_max = 1\<rparr>,
      \<lparr>p_name = ''mc_legacy_wal'', p_value = 0, p_default = 0, p_min = 0, p_max = 1\<rparr>]"

definition globalCommonParams :: CodecParameter where
  "globalCommonParams = \<lparr>c_name = ''global'', c_id = 0, c_params = Some commonParams\<rparr>"

definition globalSentinelParams :: CodecParameter where
  "globalSentinelParams = \<lparr>c_name = [], c_id = 0, c_params = None\<rparr>"
section \<open>Access to the tables\<close>

definition codec_params :: "bool \<Rightarrow> mc_config \<Rightarrow> CodecParameter list option" where
  "codec_params db s = (if db then clientParams s else Some (globalCodecParameterTable s))"

definition put_codec_params :: "bool \<Rightarrow> CodecParameter list \<Rightarrow> mc_config \<Rightarrow> mc_config" where
  "put_codec_params db t s =
     (if db then s\<lparr>clientParams := Some t\<rparr> else s\<lparr>globalCodecParameterTable := t\<rparr>)"

text \<open>
  A pointer to an array of parameters is a table and the index of the entry that holds it;
  reading through it gives \<open>None\<close> for NULL.
\<close>

definition params_at :: "bool \<Rightarrow> nat \<Rightarrow> mc_config \<Rightarrow> CipherParams list option" where
  "params_at db j s = (case codec_params db s of None \<Rightarrow> None | Some t \<Rightarrow> c_params (t ! j))"

definition put_params :: "bool \<Rightarrow> nat \<Rightarrow> CipherParams list \<Rightarrow> mc_config \<Rightarrow> mc_config" where
  "put_params db j ps s =
     (case codec_params db s of None \<Rightarrow> s
      | Some t \<Rightarrow> put_codec_params db (t[j := (t ! j)\<lparr>c_params := Some ps\<rparr>]) s)"

text \<open>\<^verbatim>\<open>sqlite3mcGetCipherParameter\<close> reads a value once: it falls back to the default.\<close>

definition sqlite3mcGetCipherParameter :: "CipherParams list \<Rightarrow> string \<Rightarrow> int \<times> CipherParams list" where
  "sqlite3mcGetCipherParameter ps paramName =
     (case find_entry p_name paramName ps of
        None \<Rightarrow> (-1, ps)
      | Some k \<Rightarrow> (p_value (ps ! k), ps[k := (ps ! k)\<lparr>p_value := p_default (ps ! k)\<rparr>]))"

text \<open>The same through a pointer; \<open>None\<close> is the dereference of NULL.\<close>

definition read_parameter :: "bool \<times> nat \<Rightarrow> string \<Rightarrow> mc_config \<Rightarrow> (int \<times> mc_config) option" where
  "read_parameter r paramName s =
     (case r of (db, j) \<Rightarrow>
        (case params_at db j s of None \<Rightarrow> None
         | Some ps \<Rightarrow> let (v, ps) = sqlite3mcGetCipherParameter ps paramName in Some (v, put_params db j ps s)))"

definition has_table :: "bool \<Rightarrow> mc_config \<Rightarrow> bool" where
  "has_table db s \<longleftrightarrow> db \<and> clientParams s \<noteq> None"

definition sqlite3mcGetCipherType :: "bool \<Rightarrow> mc_config \<Rightarrow> int \<times> mc_config" where
  "sqlite3mcGetCipherType db s =
     (case params_at (has_table db s) 0 s of
        None \<Rightarrow> (0, s)
      | Some ps \<Rightarrow>
          (case find_entry p_name ''cipher'' ps of
             None \<Rightarrow> (0, s)
           | Some k \<Rightarrow> (p_value (ps ! k),
               put_params (has_table db s) 0 (ps[k := (ps ! k)\<lparr>p_value := p_default (ps ! k)\<rparr>]) s)))"

definition sqlite3mcGetGlobalCipherCount :: "mc_config \<Rightarrow> nat" where
  "sqlite3mcGetGlobalCipherCount s = globalCipherCount s"

definition sqlite3mc_cipher_count :: "mc_config \<Rightarrow> nat" where
  "sqlite3mc_cipher_count s = sqlite3mcGetGlobalCipherCount s"

definition sqlite3mc_cipher_index :: "string \<Rightarrow> mc_config \<Rightarrow> int" where
  "sqlite3mc_cipher_index cipherName s =
     (case find_entry id cipherName (take (sqlite3mcGetGlobalCipherCount s) (descriptorNames s)) of
        None \<Rightarrow> -1 | Some j \<Rightarrow> int j + 1)"

text \<open>The loop over the names stops at index \<^verbatim>\<open>cipherIndex - 1\<close>, at the count or at the sentinel.\<close>

definition sqlite3mcFindCipherName :: "int \<Rightarrow> mc_config \<Rightarrow> string option" where
  "sqlite3mcFindCipherName cipherIndex s =
     (let count = sqlite3mcGetGlobalCipherCount s;
          names = takeWhile (\<lambda>n. n \<noteq> []) (take count (descriptorNames s))
      in if 0 < cipherIndex \<and> cipherIndex \<le> int count \<and> nat cipherIndex - 1 < length names
         then Some (names ! (nat cipherIndex - 1)) else None)"

text \<open>The static buffer of the next function has room for 31 characters.\<close>

definition sqlite3mc_cipher_name :: "int \<Rightarrow> mc_config \<Rightarrow> string" where
  "sqlite3mc_cipher_name cipherIndex s =
     (case sqlite3mcFindCipherName cipherIndex s of
        Some n \<Rightarrow> take (CIPHER_NAME_MAXLEN - 1) n | None \<Rightarrow> [])"

text \<open>The result with the C string left in the caller's buffer, \<open>None\<close> when it is not written.\<close>

definition sqlite3mc_cipher_name_copy :: "int \<Rightarrow> int \<Rightarrow> mc_config \<Rightarrow> int \<times> string option" where
  "sqlite3mc_cipher_name_copy cipherIndex maxCipherNameSize s =
     (case sqlite3mcFindCipherName cipherIndex s of
        Some n \<Rightarrow>
          let cipherNameLen = int (length n) + 1
          in if maxCipherNameSize \<ge> cipherNameLen
             then (1, Some (take (nat (maxCipherNameSize - 1)) n)) else (- cipherNameLen, None)
      | None \<Rightarrow> (0, Some []))"

fun find_id :: "int \<Rightarrow> CodecParameter list \<Rightarrow> nat" where
  "find_id ty [] = 0"
| "find_id ty (x # xs) = (if \<not> c_id x > 0 \<or> ty = c_id x then 0 else Suc (find_id ty xs))"

definition sqlite3mcGetCipherParams :: "bool \<Rightarrow> string \<Rightarrow> mc_config \<Rightarrow> bool \<times> nat" where
  "sqlite3mcGetCipherParams db cipherName s =
     (let cipherType = sqlite3mc_cipher_index cipherName s;
          db' = has_table db s;
          t = (case codec_params db' s of Some t \<Rightarrow> t | None \<Rightarrow> [])
      in (db', if cipherType > 0 then 1 + find_id cipherType (drop 1 t) else 0))"

section \<open>The C interface\<close>

definition strip_prefixes :: "string \<Rightarrow> bool \<times> bool \<times> bool \<times> string" where
  "strip_prefixes paramName =
     (let (hasDefaultPrefix, paramName) = strip ''default:'' paramName;
          (hasMinPrefix, paramName) = strip ''min:'' paramName;
          (hasMaxPrefix, paramName) = strip ''max:'' paramName
      in (hasDefaultPrefix, hasMinPrefix, hasMaxPrefix, paramName))"

definition param_get :: "bool \<Rightarrow> bool \<Rightarrow> bool \<Rightarrow> CipherParams \<Rightarrow> int" where
  "param_get hasDefaultPrefix hasMinPrefix hasMaxPrefix p =
     (if hasDefaultPrefix then p_default p else if hasMinPrefix then p_min p
      else if hasMaxPrefix then p_max p else p_value p)"

definition param_set :: "bool \<Rightarrow> int \<Rightarrow> CipherParams \<Rightarrow> CipherParams" where
  "param_set setDefault v p = (if setDefault then p\<lparr>p_default := v\<rparr> else p)\<lparr>p_value := v\<rparr>"

definition in_range :: "int \<Rightarrow> CipherParams \<Rightarrow> bool" where
  "in_range v p \<longleftrightarrow> v \<ge> p_min p \<and> v \<le> p_max p"

definition sqlite3mc_config :: "bool \<Rightarrow> string option \<Rightarrow> int \<Rightarrow> mc_config \<Rightarrow> int \<times> mc_config" where
  "sqlite3mc_config db paramName newValue s =
     (case paramName of None \<Rightarrow> (-1, s) | Some paramName \<Rightarrow>
      if \<not> db \<and> newValue \<ge> 0 then (-1, s) else
      case params_at db 0 s of None \<Rightarrow> (-1, s) | Some ps \<Rightarrow>
      let (hasDefault, hasMin, hasMax, paramName) = strip_prefixes paramName in
      case find_entry p_name paramName ps of None \<Rightarrow> (-1, s) | Some k \<Rightarrow>
      let cipherCount = sqlite3mcGetGlobalCipherCount s;
          value = param_get hasDefault hasMin hasMax (ps ! k)
      in if \<not> hasMin \<and> \<not> hasMax \<and> newValue \<ge> 0 \<and> in_range newValue (ps ! k) then
           let allowChange = (if stricmp paramName ''cipher'' then newValue > 0 \<and> newValue \<le> int cipherCount else True)
           in if allowChange
              then (newValue, put_params db 0
                     (ps[k := param_set (hasDefault \<and> \<not> stricmp paramName ''hmac_check'') newValue (ps ! k)]) s)
              else (value, s)
         else (value, s))"

definition checkParameterValue :: "string \<Rightarrow> int \<Rightarrow> string \<Rightarrow> bool" where
  "checkParameterValue paramName value cipherName =
     (let ok = (if stricmp paramName ''legacy_page_size'' \<and> value > 0
                then value \<ge> 512 \<and> value \<le> SQLITE_MAX_PAGE_SIZE \<and> (value - 1) AND value = 0 else True)
      in if ok \<and> stricmp paramName ''plaintext_header_size'' \<and> value > 0 \<and> stricmp cipherName ''sqlcipher''
         then value mod 16 = 0 else ok)"

definition SQLCIPHER_VERSION_MAX :: int where "SQLCIPHER_VERSION_MAX = 4"

text \<open>The access to one parameter of the cipher in entry \<open>j\<close>, with the prefixes found in its name.\<close>

definition config_cipher_param :: "bool \<Rightarrow> nat \<Rightarrow> string \<Rightarrow> bool \<Rightarrow> bool \<Rightarrow> bool \<Rightarrow> string \<Rightarrow> int
    \<Rightarrow> mc_config \<Rightarrow> int \<times> mc_config" where
  "config_cipher_param db j cipherName hasDefault hasMin hasMax paramName newValue s =
     (case params_at db j s of None \<Rightarrow> (-1, s) | Some ps \<Rightarrow>
      case find_entry p_name paramName ps of None \<Rightarrow> (-1, s) | Some k \<Rightarrow>
        if \<not> hasMin \<and> \<not> hasMax \<and> newValue \<ge> 0 \<and> in_range newValue (ps ! k)
           \<and> checkParameterValue paramName newValue cipherName
        then (newValue, put_params db j (ps[k := param_set hasDefault newValue (ps ! k)]) s)
        else (param_get hasDefault hasMin hasMax (ps ! k), s))"

definition is_sqlcipher_legacy :: "string \<Rightarrow> string \<Rightarrow> bool \<Rightarrow> bool \<Rightarrow> int \<Rightarrow> bool" where
  "is_sqlcipher_legacy cipherName paramName hasMin hasMax newValue \<longleftrightarrow>
     stricmp cipherName ''sqlcipher'' \<and> stricmp paramName ''legacy'' \<and> \<not> hasMin \<and> \<not> hasMax
     \<and> newValue > 0 \<and> newValue \<le> SQLCIPHER_VERSION_MAX"

text \<open>
  \<^verbatim>\<open>sqlite3mc_config_cipher\<close> and \<^verbatim>\<open>sqlite3mcConfigureSQLCipherVersion\<close> call each other; the
  recursion is one call deep, since no name in the tables of the latter is \<^verbatim>\<open>"legacy"\<close>. The
  call is the argument \<open>version\<close> here; \<open>sqlite3mcConfigureSQLCipherVersion_eq\<close> below shows
  that the knot is tied the way the code ties it.
\<close>

definition config_cipher_with :: "(bool \<Rightarrow> int \<Rightarrow> mc_config \<Rightarrow> mc_config) \<Rightarrow> bool \<Rightarrow> string option \<Rightarrow> string option
    \<Rightarrow> int \<Rightarrow> mc_config \<Rightarrow> int \<times> mc_config" where
  "config_cipher_with version db cipherName paramName newValue s =
     (case (cipherName, paramName) of (Some cipherName, Some paramName) \<Rightarrow>
        if \<not> db \<and> newValue \<ge> 0 then (-1, s) else
        (case codec_params db s of None \<Rightarrow> (-1, s) | Some t \<Rightarrow>
         case find_entry c_name cipherName t of None \<Rightarrow> (-1, s) | Some j \<Rightarrow>
         case c_params (t ! j) of None \<Rightarrow> (-1, s) | Some _ \<Rightarrow>
         let (hasDefault, hasMin, hasMax, paramName) = strip_prefixes paramName;
             s = (if db \<and> is_sqlcipher_legacy cipherName paramName hasMin hasMax newValue
                  then version hasDefault newValue s else s)
         in config_cipher_param db j cipherName hasDefault hasMin hasMax paramName newValue s)
      | _ \<Rightarrow> (-1, s))"

definition sqlcipher_stdNames :: "string list" where
  "sqlcipher_stdNames = [''legacy_page_size'', ''kdf_iter'', ''hmac_use'', ''kdf_algorithm'', ''hmac_algorithm'']"

definition sqlcipher_defNames :: "string list" where
  "sqlcipher_defNames = [''default:legacy_page_size'', ''default:kdf_iter'', ''default:hmac_use'',
     ''default:kdf_algorithm'', ''default:hmac_algorithm'']"

definition sqlcipher_versionParams :: "int list list" where
  "sqlcipher_versionParams =
     [[1024, 4000, 0, 0, 0], [1024, 4000, 1, 0, 0], [1024, 64000, 1, 0, 0], [4096, 256000, 1, 2, 2]]"

definition sqlite3mcConfigureSQLCipherVersion :: "bool \<Rightarrow> bool \<Rightarrow> int \<Rightarrow> mc_config \<Rightarrow> mc_config" where
  "sqlite3mcConfigureSQLCipherVersion db configDefault legacyVersion s =
     (if legacyVersion > 0 \<and> legacyVersion \<le> SQLCIPHER_VERSION_MAX then
        let names = (if configDefault then sqlcipher_defNames else sqlcipher_stdNames);
            values = sqlcipher_versionParams ! nat (legacyVersion - 1)
        in foldl (\<lambda>s (name, value). snd (config_cipher_with (\<lambda>_ _ s. s) db (Some ''sqlcipher'') (Some name) value s))
             s (zip names values)
      else s)"

definition sqlite3mc_config_cipher :: "bool \<Rightarrow> string option \<Rightarrow> string option \<Rightarrow> int \<Rightarrow> mc_config \<Rightarrow> int \<times> mc_config" where
  "sqlite3mc_config_cipher db = config_cipher_with (sqlite3mcConfigureSQLCipherVersion db) db"

section \<open>The SQL function\<close>

text \<open>An argument: its type, and what \<^verbatim>\<open>sqlite3_value_text\<close> and \<^verbatim>\<open>sqlite3_value_int\<close> make of it.\<close>

datatype sql_type = SQLITE_INTEGER | SQLITE_FLOAT | SQLITE_TEXT | SQLITE_BLOB | SQLITE_NULL

record sql_value =
  value_type :: sql_type
  value_text :: string
  value_int :: int

datatype sql_result = Result_null | Result_text string | Result_int int | Result_nomem

definition join_names :: "string list \<Rightarrow> string" where
  "join_names ns = (case ns of [] \<Rightarrow> [] | n # ns \<Rightarrow> foldl (\<lambda>p n. p @ '','' @ n) n ns)"

text \<open>
  \<^verbatim>\<open>sqlite3mcConfigParams\<close>, the SQL function \<^verbatim>\<open>sqlite3mc_config\<close> with one to three arguments.
  Its user data is the table of the connection. \<open>None\<close> is an access outside of the
  descriptor table or through the table of a connection that has none. The three parts below are the branches for one argument, for setting a
  common parameter, and for the parameters of a cipher.
\<close>

definition config_params_get :: "bool \<Rightarrow> bool \<Rightarrow> bool \<Rightarrow> string \<Rightarrow> CipherParams \<Rightarrow> mc_config
    \<Rightarrow> (sql_result \<times> mc_config) option" where
  "config_params_get hasDefault hasMin hasMax name p s =
     (let value = param_get hasDefault hasMin hasMax p
      in if stricmp name ''cipher'' then
           (if 1 \<le> value \<and> nat value - 1 < length (descriptorNames s)
            then Some (Result_text (descriptorNames s ! (nat value - 1)), s) else None)
         else Some (Result_int value, s))"

definition config_params_list :: "CipherParams list \<Rightarrow> mc_config \<Rightarrow> sql_result \<times> mc_config" where
  "config_params_list ps s =
     (if ps = [] then (Result_null, s)
      else let (ok, s) = sqlite3_malloc s
           in (if ok then Result_text (join_names (map p_name ps)) else Result_nomem, s))"

definition config_params_common :: "bool \<Rightarrow> string \<Rightarrow> nat \<Rightarrow> CipherParams list \<Rightarrow> sql_value \<Rightarrow> mc_config
    \<Rightarrow> sql_result \<times> mc_config" where
  "config_params_common hasDefault name k ps arg s =
     (if stricmp name ''cipher'' then
        (if value_type arg = SQLITE_TEXT then
           (case find_entry id (value_text arg) (descriptorNames s) of
              Some j \<Rightarrow> (Result_text (descriptorNames s ! j),
                         put_params True 0 (ps[k := param_set hasDefault (int j + 1) (ps ! k)]) s)
            | None \<Rightarrow> (Result_null, s))
         else (Result_null, s))
      else if value_type arg = SQLITE_INTEGER then
        (if in_range (value_int arg) (ps ! k)
         then (Result_int (value_int arg),
               put_params True 0 (ps[k := param_set (hasDefault \<and> \<not> stricmp name ''hmac_check'') (value_int arg) (ps ! k)]) s)
         else (Result_null, s))
      else (Result_null, s))"

definition config_params_cipher :: "nat \<Rightarrow> string \<Rightarrow> sql_value \<Rightarrow> sql_value option \<Rightarrow> mc_config
    \<Rightarrow> sql_result \<times> mc_config" where
  "config_params_cipher j cipherName arg1 arg2 s =
     (let (hasDefault, hasMin, hasMax, name) = strip_prefixes (value_text arg1);
          s = (case arg2 of Some a \<Rightarrow>
                 if value_type a = SQLITE_INTEGER \<and> is_sqlcipher_legacy cipherName name hasMin hasMax (value_int a)
                 then sqlite3mcConfigureSQLCipherVersion True hasDefault (value_int a) s else s
               | None \<Rightarrow> s);
          ps = (case params_at True j s of None \<Rightarrow> [] | Some ps \<Rightarrow> ps)
      in case find_entry p_name name ps of
           None \<Rightarrow> (Result_null, s)
         | Some k \<Rightarrow>
             (case arg2 of
                None \<Rightarrow> (Result_int (param_get hasDefault hasMin hasMax (ps ! k)), s)
              | Some a \<Rightarrow>
                  if \<not> hasMin \<and> \<not> hasMax \<and> value_type a = SQLITE_INTEGER \<and> in_range (value_int a) (ps ! k)
                  then (Result_int (value_int a),
                        put_params True j (ps[k := param_set hasDefault (value_int a) (ps ! k)]) s)
                  else (Result_null, s)))"

definition sqlite3mcConfigParams :: "sql_value list \<Rightarrow> mc_config \<Rightarrow> (sql_result \<times> mc_config) option" where
  "sqlite3mcConfigParams argv s =
     (if value_type (argv ! 0) = SQLITE_NULL \<or> length argv > 1 \<and> value_type (argv ! 1) = SQLITE_NULL
      then Some (Result_null, s) else
      case (codec_params True s, params_at True 0 s) of (Some t, Some ps) \<Rightarrow>
      let (hasDefault, hasMin, hasMax, name) = strip_prefixes (value_text (argv ! 0))
      in (case find_entry p_name name ps of
           Some k \<Rightarrow>
             if length argv = 1 then config_params_get hasDefault hasMin hasMax name (ps ! k) s
             else if length argv = 2 then Some (config_params_common hasDefault name k ps (argv ! 1) s)
             else Some (Result_null, s)
         | None \<Rightarrow>
             if hasDefault \<or> hasMin \<or> hasMax then Some (Result_null, s) else
             case find_entry c_name name t of None \<Rightarrow> Some (Result_null, s) | Some j \<Rightarrow>
             if length argv = 1
             then Some (config_params_list (case c_params (t ! j) of None \<Rightarrow> [] | Some ps \<Rightarrow> ps) s)
             else if value_type (argv ! 1) = SQLITE_TEXT
             then Some (config_params_cipher j name (argv ! 1) (if length argv = 3 then Some (argv ! 2) else None) s)
             else Some (Result_null, s))
      | _ \<Rightarrow> None)"

section \<open>URI parameters\<close>

text \<open>
  What the SQLite core reads from the query part of a database file name: the text of a
  parameter (\<^verbatim>\<open>sqlite3_uri_parameter\<close>), a boolean and a 64-bit integer with a default, and
  the integer a text denotes (\<^verbatim>\<open>sqlite3GetInt32\<close>).
\<close>

record uri =
  uri_parameter :: "string \<Rightarrow> string option"
  uri_boolean :: "string \<Rightarrow> bool \<Rightarrow> bool"
  uri_int64 :: "string \<Rightarrow> int \<Rightarrow> int"
  GetInt32 :: "string \<Rightarrow> int option"

definition as_int32 :: "int \<Rightarrow> int" where
  "as_int32 z = (z + 2 ^ 31) mod 2 ^ 32 - 2 ^ 31"

definition mcAegisAlgorithmNames :: "string list" where
  "mcAegisAlgorithmNames =
     [[], ''aegis-128l'', ''aegis-128x2'', ''aegis-128x4'', ''aegis-256'', ''aegis-256x2'', ''aegis-256x4'']"

definition sqlite3mcAegisAlgorithmToIndex :: "string \<Rightarrow> int" where
  "sqlite3mcAegisAlgorithmToIndex algorithmName =
     (case find (\<lambda>j. stricmp algorithmName (mcAegisAlgorithmNames ! j)) [1..<7] of
        Some j \<Rightarrow> int j | None \<Rightarrow> -1)"

definition sqlite3mcAegisAlgorithmToString :: "int \<Rightarrow> string" where
  "sqlite3mcAegisAlgorithmToString algorithmIndex =
     (if algorithmIndex \<ge> 1 \<and> algorithmIndex \<le> 6 then mcAegisAlgorithmNames ! nat algorithmIndex else ''unknown'')"

definition uri_aegis_algorithm :: "uri \<Rightarrow> string \<Rightarrow> int option" where
  "uri_aegis_algorithm u cipherName =
     (if stricmp cipherName ''aegis'' then
        (case uri_parameter u ''algorithm'' of
           Some a \<Rightarrow>
             if a = [] then None else
             let v = (case GetInt32 u a of Some i \<Rightarrow> i | None \<Rightarrow> sqlite3mcAegisAlgorithmToIndex a)
             in if v > 0 then Some v else None
         | None \<Rightarrow> None)
      else None)"

text \<open>One turn of the loop over the parameters of the cipher.\<close>

definition configure_uri_param :: "uri \<Rightarrow> string \<Rightarrow> bool \<Rightarrow> bool \<Rightarrow> int option \<Rightarrow> mc_config \<Rightarrow> CipherParams \<Rightarrow> mc_config" where
  "configure_uri_param u cipherName configDefault skipLegacy aegisAlgorithm s p =
     (if skipLegacy \<and> stricmp (p_name p) ''legacy'' then s else
      let value = (case aegisAlgorithm of
                     Some a \<Rightarrow> if stricmp (p_name p) ''algorithm'' then a else as_int32 (uri_int64 u (p_name p) (-1))
                   | None \<Rightarrow> as_int32 (uri_int64 u (p_name p) (-1)))
      in if value \<ge> 0 then
           let (ok, s) = (if configDefault then sqlite3_malloc s else (True, s));
               param = (if ok then Some (if configDefault then ''default:'' @ p_name p else p_name p) else None)
           in snd (sqlite3mc_config_cipher True (Some cipherName) param value s)
         else s)"

definition configure_uri_cipher :: "uri \<Rightarrow> string \<Rightarrow> bool \<Rightarrow> CodecParameter \<Rightarrow> CipherParams list \<Rightarrow> mc_config \<Rightarrow> mc_config" where
  "configure_uri_cipher u cipherName configDefault entry cipherParams s =
     (let hmacCheck = uri_boolean u ''hmac_check'' True;
          walLegacy = uri_boolean u ''mc_legacy_wal'' False;
          s = snd (sqlite3mc_config True (Some (if configDefault then ''default:cipher'' else ''cipher'')) (c_id entry) s);
          s = (if \<not> hmacCheck then snd (sqlite3mc_config True (Some ''hmac_check'') 0 s) else s);
          s = snd (sqlite3mc_config True (Some ''mc_legacy_wal'') (of_bool walLegacy) s);
          legacy = as_int32 (uri_int64 u ''legacy'' 0);
          skipLegacy = (stricmp cipherName ''sqlcipher'' \<and> legacy > 0 \<and> legacy \<le> SQLCIPHER_VERSION_MAX);
          s = (if skipLegacy
               then snd (sqlite3mc_config_cipher True (Some cipherName)
                      (Some (if configDefault then ''default:legacy'' else ''legacy'')) legacy s)
               else s)
      in foldl (configure_uri_param u cipherName configDefault skipLegacy (uri_aegis_algorithm u cipherName)) s cipherParams)"

text \<open>The cipher of the URI, or else the configured one, which is configured again.\<close>

definition uri_cipher_name :: "uri \<Rightarrow> mc_config \<Rightarrow> string \<times> mc_config" where
  "uri_cipher_name u s =
     (let given = (case uri_parameter u ''cipher'' of Some n \<Rightarrow> n | None \<Rightarrow> [])
      in if given \<noteq> [] then (given, s) else
         let (defaultCipherIndex, s) = sqlite3mc_config True (Some ''cipher'') (-1) s
         in if defaultCipherIndex > 0
            then (case sqlite3mcFindCipherName defaultCipherIndex s of Some n \<Rightarrow> n | None \<Rightarrow> [],
                  snd (sqlite3mc_config True (Some ''cipher'') defaultCipherIndex s))
            else ([], s))"

text \<open>\<open>None\<close> as the first argument is a NULL file name.\<close>

definition sqlite3mcConfigureFromUri :: "uri option \<Rightarrow> bool \<Rightarrow> mc_config \<Rightarrow> int \<times> mc_config" where
  "sqlite3mcConfigureFromUri zDbName configDefault s =
     (case zDbName of None \<Rightarrow> (SQLITE_OK, s) | Some u \<Rightarrow>
      let (cipherName, s) = uri_cipher_name u s
      in if cipherName = [] then (SQLITE_OK, s) else
         (case find_entry c_name cipherName (drop 1 (globalCodecParameterTable s)) of
            None \<Rightarrow> (SQLITE_ERROR, s)
          | Some j \<Rightarrow>
              let entry = globalCodecParameterTable s ! (j + 1)
              in (case c_params entry of
                    None \<Rightarrow> (SQLITE_ERROR, s)
                  | Some cipherParams \<Rightarrow>
                      (SQLITE_OK, configure_uri_cipher u cipherName configDefault entry cipherParams s))))"

section \<open>Every operation changes parameters within their range\<close>

text \<open>
  One change of the configuration: a parameter of one of the tables is set to a value in its
  range, with or without its default, or falls back to its default; or an allocation is
  made. The operations are sequences of such changes, so that what the changes keep, all
  operations keep.
\<close>

inductive cfg_upd :: "mc_config \<Rightarrow> mc_config \<Rightarrow> bool" where
  set: "codec_params db s = Some t \<Longrightarrow> j < length t \<Longrightarrow> c_params (t ! j) = Some ps \<Longrightarrow> k < length ps
    \<Longrightarrow> in_range v (ps ! k) \<Longrightarrow> cfg_upd s (put_params db j (ps[k := param_set b v (ps ! k)]) s)"
| reset: "codec_params db s = Some t \<Longrightarrow> j < length t \<Longrightarrow> c_params (t ! j) = Some ps \<Longrightarrow> k < length ps
    \<Longrightarrow> cfg_upd s (put_params db j (ps[k := (ps ! k)\<lparr>p_value := p_default (ps ! k)\<rparr>]) s)"
| alloc: "cfg_upd s (s\<lparr>allocs := a\<rparr>)"

abbreviation cfg_upds :: "mc_config \<Rightarrow> mc_config \<Rightarrow> bool" where
  "cfg_upds \<equiv> cfg_upd\<^sup>*\<^sup>*"

lemma cfg_upds_refl [simp, intro]: "cfg_upds s s" by simp

lemma cfg_upds_foldl:
  assumes "\<And>s x. x \<in> set xs \<Longrightarrow> cfg_upds s (f s x)"
  shows "cfg_upds s (foldl f s xs)"
  using assms
proof (induction xs arbitrary: s)
  case (Cons x xs)
  have "cfg_upds s (f s x)" by (rule Cons.prems) simp
  moreover have "cfg_upds (f s x) (foldl f (f s x) xs)" by (rule Cons.IH) (simp add: Cons.prems)
  ultimately show ?case by simp
qed simp

lemma cfg_upds_malloc: "cfg_upds s (snd (sqlite3_malloc s))"
  by (auto simp: sqlite3_malloc_def intro: r_into_rtranclp cfg_upd.alloc split: list.splits)

lemma find_entry_less: "find_entry nm s xs = Some k \<Longrightarrow> k < length xs"
  by (drule find_entry_Some) simp

text \<open>Every table has a common entry; without it the code would read outside of an array.\<close>

definition tables_nonempty :: "mc_config \<Rightarrow> bool" where
  "tables_nonempty s \<longleftrightarrow> globalCodecParameterTable s \<noteq> [] \<and> clientParams s \<noteq> Some []"

lemma codec_params_put [simp]:
  "codec_params db s = Some t \<Longrightarrow>
     codec_params db' (put_params db j ps s) =
       (if db' = db then Some (t[j := (t ! j)\<lparr>c_params := Some ps\<rparr>]) else codec_params db' s)"
  by (auto simp: codec_params_def put_params_def put_codec_params_def split: if_splits)

lemma put_params_other [simp]:
  "globalCipherCount (put_params db j ps s) = globalCipherCount s"
  "globalCipherNameTable (put_params db j ps s) = globalCipherNameTable s"
  "descriptorNames (put_params db j ps s) = descriptorNames s"
  "allocs (put_params db j ps s) = allocs s"
  by (simp_all add: put_params_def put_codec_params_def split: option.splits)

lemma tables_nonempty_iff: "tables_nonempty s \<longleftrightarrow> (\<forall>db t. codec_params db s = Some t \<longrightarrow> t \<noteq> [])"
  by (auto simp: tables_nonempty_def codec_params_def)

lemma codec_params_allocs [simp]: "codec_params db (s\<lparr>allocs := a\<rparr>) = codec_params db s"
  by (simp add: codec_params_def)

lemma cfg_upd_nonempty: "cfg_upd s s' \<Longrightarrow> tables_nonempty s \<Longrightarrow> tables_nonempty s'"
  by (induction rule: cfg_upd.induct) (auto simp: tables_nonempty_iff split: if_splits)

lemma cfg_upds_nonempty: "cfg_upds s s' \<Longrightarrow> tables_nonempty s \<Longrightarrow> tables_nonempty s'"
  by (induction rule: rtranclp_induct) (auto intro: cfg_upd_nonempty)

text \<open>The changes through a pointer, in the form in which the operations make them.\<close>

lemma params_at_Some:
  "params_at db j s = Some ps \<longleftrightarrow> (\<exists>t. codec_params db s = Some t \<and> c_params (t ! j) = Some ps)"
  by (simp add: params_at_def split: option.splits)

lemma cfg_upds_set:
  assumes "params_at db j s = Some ps" "k < length ps" "in_range v (ps ! k)"
    and "j = 0 \<and> tables_nonempty s \<or> (\<exists>t. codec_params db s = Some t \<and> j < length t)"
  shows "cfg_upds s (put_params db j (ps[k := param_set b v (ps ! k)]) s)"
  using assms by (intro r_into_rtranclp) (auto simp: params_at_Some tables_nonempty_iff intro!: cfg_upd.set)

lemma cfg_upds_reset:
  assumes "params_at db j s = Some ps" "k < length ps"
    and "j = 0 \<and> tables_nonempty s \<or> (\<exists>t. codec_params db s = Some t \<and> j < length t)"
  shows "cfg_upds s (put_params db j (ps[k := (ps ! k)\<lparr>p_value := p_default (ps ! k)\<rparr>]) s)"
  using assms by (intro r_into_rtranclp) (auto simp: params_at_Some tables_nonempty_iff intro!: cfg_upd.reset)

text \<open>The names and numbers of the entries never change.\<close>

definition same_shape :: "CodecParameter list option \<Rightarrow> CodecParameter list option \<Rightarrow> bool" where
  "same_shape t t' \<longleftrightarrow> map_option (map (\<lambda>e. (c_name e, c_id e))) t' = map_option (map (\<lambda>e. (c_name e, c_id e))) t"

lemma same_shape_refl [simp]: "same_shape t t" by (simp add: same_shape_def)

lemma same_shape_SomeD:
  assumes "same_shape (Some t) t'"
  obtains u where "t' = Some u" "length u = length t" "\<And>j. j < length t \<Longrightarrow> c_name (u ! j) = c_name (t ! j)"
    "\<And>j. j < length t \<Longrightarrow> c_id (u ! j) = c_id (t ! j)"
proof -
  from assms obtain u where u: "t' = Some u" "map (\<lambda>e. (c_name e, c_id e)) u = map (\<lambda>e. (c_name e, c_id e)) t"
    by (auto simp: same_shape_def)
  then have len: "length u = length t" by (metis length_map)
  moreover have "c_name (u ! j) = c_name (t ! j) \<and> c_id (u ! j) = c_id (t ! j)" if "j < length t" for j
    using that arg_cong [OF u(2), of "\<lambda>xs. xs ! j"] len by simp
  ultimately show ?thesis using u(1) that by blast
qed

lemma same_shape_update: "same_shape (Some t) (Some (t[j := (t ! j)\<lparr>c_params := ps\<rparr>]))"
proof -
  have "map f (t[j := x]) = map f t" if "f x = f (t ! j)" for f :: "CodecParameter \<Rightarrow> string \<times> int" and x
    using that by (cases "j < length t") (simp_all add: map_update list_update_same_conv list_update_beyond)
  then show ?thesis by (simp add: same_shape_def)
qed

lemma cfg_upd_shape: "cfg_upd s s' \<Longrightarrow> same_shape (codec_params db s) (codec_params db s')"
  by (induction rule: cfg_upd.induct) (simp_all add: same_shape_update)

lemma cfg_upds_shape: "cfg_upds s s' \<Longrightarrow> same_shape (codec_params db s) (codec_params db s')"
proof (induction rule: rtranclp_induct)
  case (step y z)
  with cfg_upd_shape [OF step(2), of db] show ?case by (simp add: same_shape_def)
qed simp

lemma cfg_upd_other:
  "cfg_upd s s' \<Longrightarrow> globalCipherCount s' = globalCipherCount s \<and> globalCipherNameTable s' = globalCipherNameTable s
     \<and> descriptorNames s' = descriptorNames s"
  by (induction rule: cfg_upd.induct) simp_all

lemma cfg_upds_other:
  "cfg_upds s s' \<Longrightarrow> globalCipherCount s' = globalCipherCount s \<and> globalCipherNameTable s' = globalCipherNameTable s
     \<and> descriptorNames s' = descriptorNames s"
  by (induction rule: rtranclp_induct) (simp_all add: cfg_upd_other)

text \<open>The operations.\<close>

lemma sqlite3mc_config_upds:
  assumes "tables_nonempty s"
  shows "cfg_upds s (snd (sqlite3mc_config db nm v s))"
  using assms
  by (auto simp: sqlite3mc_config_def Let_def intro!: cfg_upds_set find_entry_less split: option.splits prod.splits)

lemma config_cipher_param_upds:
  assumes "codec_params db s = Some t" "j < length t"
  shows "cfg_upds s (snd (config_cipher_param db j n d mi ma p v s))"
  using assms by (auto simp: config_cipher_param_def split: option.splits intro!: cfg_upds_set dest: find_entry_less)

lemma cfg_upds_table:
  assumes "cfg_upds s s'" "codec_params db s = Some t" "j < length t"
  obtains u where "codec_params db s' = Some u" "j < length u"
  using cfg_upds_shape [OF assms(1), of db] assms(2, 3) by (auto elim: same_shape_SomeD)

lemma config_cipher_param_upds_after:
  assumes s: "cfg_upds s s'" "codec_params db s = Some t" "find_entry c_name n t = Some j"
  shows "cfg_upds s (snd (config_cipher_param db j n d mi ma p v s'))"
proof -
  obtain u where "codec_params db s' = Some u" "j < length u"
    by (rule cfg_upds_table [OF s(1, 2) find_entry_less [OF s(3)]])
  from config_cipher_param_upds [OF this] s(1) show ?thesis by (rule rtranclp_trans [rotated])
qed

lemma config_cipher_with_upds:
  assumes "\<And>b v s. cfg_upds s (version b v s)"
  shows "cfg_upds s (snd (config_cipher_with version db cn pn v s))"
  by (auto simp: config_cipher_with_def Let_def assms split: option.splits prod.splits
      intro: config_cipher_param_upds_after)

lemma sqlite3mcConfigureSQLCipherVersion_upds: "cfg_upds s (sqlite3mcConfigureSQLCipherVersion db d v s)"
  by (auto simp: sqlite3mcConfigureSQLCipherVersion_def Let_def intro!: cfg_upds_foldl config_cipher_with_upds)

lemma sqlite3mc_config_cipher_upds: "cfg_upds s (snd (sqlite3mc_config_cipher db cn pn v s))"
  by (simp add: sqlite3mc_config_cipher_def config_cipher_with_upds sqlite3mcConfigureSQLCipherVersion_upds)

lemma put_params_same: "params_at db j s = Some ps \<Longrightarrow> put_params db j ps s = s"
proof -
  have entry: "e\<lparr>c_params := Some ps\<rparr> = e" if "c_params e = Some ps" for e using that by (cases e) simp
  have tables: "s\<lparr>clientParams := Some t\<rparr> = s" if "clientParams s = Some t" for t using that by (cases s) simp
  have tables': "s\<lparr>globalCodecParameterTable := globalCodecParameterTable s\<rparr> = s" by (cases s) simp
  assume "params_at db j s = Some ps"
  then show ?thesis
    by (auto simp: params_at_Some put_params_def put_codec_params_def codec_params_def entry tables tables' split: if_splits)
qed

lemma read_parameter_upds:
  assumes "read_parameter (db, j) n s = Some (v, s')" "codec_params db s = Some t" "j < length t"
  shows "cfg_upds s s'"
proof -
  obtain ps where ps: "params_at db j s = Some ps" and s': "s' = put_params db j (snd (sqlite3mcGetCipherParameter ps n)) s"
    using assms(1) by (auto simp: read_parameter_def split: option.splits prod.splits)
  show ?thesis
  proof (cases "find_entry p_name n ps")
    case None
    then have "s' = s" using put_params_same [OF ps] by (simp add: s' sqlite3mcGetCipherParameter_def)
    then show ?thesis by simp
  next
    case (Some k)
    then show ?thesis
      unfolding s' using assms(2, 3) find_entry_less [OF Some]
      by (auto simp: sqlite3mcGetCipherParameter_def intro!: cfg_upds_reset [OF ps])
  qed
qed

lemma sqlite3mcGetCipherType_upds:
  assumes "tables_nonempty s"
  shows "cfg_upds s (snd (sqlite3mcGetCipherType db s))"
  using assms
  by (auto simp: sqlite3mcGetCipherType_def intro!: cfg_upds_reset dest: find_entry_less split: option.splits)

text \<open>
  A cipher chosen by its name is set without a look at the range of the parameter; its number is
  in the range as long as the descriptor table is not longer than the range says.
\<close>

definition cipher_param_ok :: "mc_config \<Rightarrow> bool" where
  "cipher_param_ok s \<longleftrightarrow> (\<forall>ps p. params_at True 0 s = Some ps \<longrightarrow> p \<in> set ps \<longrightarrow> stricmp ''cipher'' (p_name p) \<longrightarrow>
     p_min p \<le> 1 \<and> (\<forall>j n. find_entry id n (descriptorNames s) = Some j \<longrightarrow> int j + 1 \<le> p_max p))"

lemma config_params_common_upds:
  assumes "tables_nonempty s" "cipher_param_ok s" "params_at True 0 s = Some ps" "find_entry p_name n ps = Some k"
  shows "cfg_upds s (snd (config_params_common d n k ps a s))"
proof -
  note k = find_entry_Some [OF assms(4)]
  have "in_range (int j + 1) (ps ! k)"
    if "stricmp n ''cipher''" "find_entry id (value_text a) (descriptorNames s) = Some j" for j
  proof -
    have "stricmp ''cipher'' (p_name (ps ! k))"
      using k that(1) by (blast intro: stricmp_trans stricmp_sym)
    with assms(2, 3) k that(2) show ?thesis
      unfolding cipher_param_ok_def in_range_def by (meson nth_mem of_nat_0_le_iff add_increasing order_trans)
  qed
  then show ?thesis
    using assms k by (auto simp: config_params_common_def intro!: cfg_upds_set split: option.splits)
qed

lemma config_params_cipher_upds:
  assumes "codec_params True s = Some t" "find_entry c_name n t = Some j"
  shows "cfg_upds s (snd (config_params_cipher j n a1 a2 s))"
proof -
  have *: "cfg_upds s s' \<Longrightarrow> params_at True j s' = Some ps \<Longrightarrow> k < length ps \<Longrightarrow> in_range v (ps ! k)
      \<Longrightarrow> cfg_upds s (put_params True j (ps[k := param_set b v (ps ! k)]) s')" for s' ps k v b
    by (rule rtranclp_trans, assumption, rule cfg_upds_set)
      (auto elim: cfg_upds_table [OF _ assms(1) find_entry_less [OF assms(2)]])
  show ?thesis
    by (auto simp: config_params_cipher_def Let_def intro!: * sqlite3mcConfigureSQLCipherVersion_upds
        split: option.splits prod.splits dest: find_entry_less)
qed

lemma sqlite3mcConfigParams_upds:
  assumes "tables_nonempty s" "cipher_param_ok s" "sqlite3mcConfigParams argv s = Some (r, s')"
  shows "cfg_upds s s'"
proof -
  have list: "cfg_upds s (snd (config_params_list ps s))" for ps
    using cfg_upds_malloc [of s] by (cases "sqlite3_malloc s") (simp add: config_params_list_def)
  have common: "config_params_common d n k ps a s = (r, s') \<Longrightarrow> params_at True 0 s = Some ps
      \<Longrightarrow> find_entry p_name n ps = Some k \<Longrightarrow> cfg_upds s s'" for d n k ps a
    using config_params_common_upds [OF assms(1, 2), of ps n k d a] by simp
  have cipher: "config_params_cipher j n a1 a2 s = (r, s') \<Longrightarrow> codec_params True s = Some t
      \<Longrightarrow> find_entry c_name n t = Some j \<Longrightarrow> cfg_upds s s'" for t n j a1 a2
    using config_params_cipher_upds [of s t n j a1 a2] by simp
  have list': "config_params_list ps s = (r, s') \<Longrightarrow> cfg_upds s s'" for ps
    using list [of ps] by simp
  show ?thesis
    using assms(3)
    by (auto simp: sqlite3mcConfigParams_def config_params_get_def Let_def split: option.splits prod.splits if_splits
        intro: common cipher list')
qed

lemma configure_uri_param_upds: "cfg_upds s (configure_uri_param u n d sk al s p)"
proof -
  have *: "sqlite3_malloc s = (b, s') \<Longrightarrow> cfg_upds s (snd (sqlite3mc_config_cipher True cn pn v s'))" for b s' cn pn v
    using cfg_upds_malloc [of s] by (auto intro: rtranclp_trans sqlite3mc_config_cipher_upds)
  show ?thesis
    by (auto simp: configure_uri_param_def Let_def sqlite3mc_config_cipher_upds intro!: * split: prod.splits option.splits if_splits)
qed

lemma sqlite3mcConfigureFromUri_upds:
  assumes "tables_nonempty s"
  shows "cfg_upds s (snd (sqlite3mcConfigureFromUri u d s))"
proof -
  have step: "cfg_upds s s' \<Longrightarrow> cfg_upds s (snd (sqlite3mc_config db n v s'))" for s' db n v
    using sqlite3mc_config_upds [OF cfg_upds_nonempty [OF _ assms]] by (blast intro: rtranclp_trans)
  have step2: "cfg_upds s s' \<Longrightarrow> cfg_upds s (snd (sqlite3mc_config_cipher db c n v s'))" for s' db c n v
    using sqlite3mc_config_cipher_upds by (blast intro: rtranclp_trans)
  have step3: "cfg_upds s s' \<Longrightarrow> cfg_upds s (foldl (configure_uri_param u n d sk al) s' ps)" for s' u n d sk al ps
    by (rule rtranclp_trans, assumption, rule cfg_upds_foldl, rule configure_uri_param_upds)
  have cipher: "cfg_upds s s' \<Longrightarrow> cfg_upds s (configure_uri_cipher u n d e ps s')" for u n d e ps s'
    by (simp add: configure_uri_cipher_def Let_def step step2 step3)
  have name: "uri_cipher_name u s = (n, s') \<Longrightarrow> cfg_upds s s'" for u n s'
  proof -
    assume "uri_cipher_name u s = (n, s')"
    then have "s' = s \<or> (\<exists>v. s' = snd (sqlite3mc_config True (Some ''cipher'') v (snd (sqlite3mc_config True (Some ''cipher'') (-1) s))))
        \<or> s' = snd (sqlite3mc_config True (Some ''cipher'') (-1) s)"
      by (auto simp: uri_cipher_name_def Let_def split: if_splits prod.splits)
    then show ?thesis using step by blast
  qed
  show ?thesis
    by (auto simp: sqlite3mcConfigureFromUri_def Let_def split: option.splits prod.splits intro!: cipher intro: name)
qed

end
