(* ===== verification/Registry.thy ===== *)
theory Registry
  imports Config ChaCha20_RNG
begin

text \<open>
  The registration of ciphers in \<^verbatim>\<open>src/src/sqlite3mc.c\<close>: the descriptor of a cipher, the checks
  that \<^verbatim>\<open>sqlite3mcRegisterCipher\<close> makes, the tables it fills, the start and the end of
  their life, and the copy of the parameter table that a connection gets. The methods of a
  descriptor are options, \<open>None\<close> being a NULL pointer; \<open>'c\<close> is the type of cipher objects.
  An allocation function reads the configuration; its result is \<open>None\<close> when it dereferences
  NULL, and a pair of the new object (\<open>None\<close> for NULL) and the configuration otherwise.
  \<^verbatim>\<open>m_freeCipher\<close> gives the contents of the memory that it releases, \<^verbatim>\<open>m_cloneCipher\<close> the new
  contents of its first argument. The methods on pages get the whole page, whose length is their
  argument \<^verbatim>\<open>len\<close>; their \<open>None\<close> is an access outside of it or the abort of the random number generator.
\<close>

record 'c CipherDescriptor =
  d_name :: "string option"
  m_allocateCipher :: "(bool \<Rightarrow> mc_config \<Rightarrow> ('c option \<times> mc_config) option) option"
  m_freeCipher :: "('c \<Rightarrow> 'c) option"
  m_cloneCipher :: "('c \<Rightarrow> 'c \<Rightarrow> 'c) option"
  m_getLegacy :: "('c \<Rightarrow> int) option"
  m_getPageSize :: "('c \<Rightarrow> int) option"
  m_getReserved :: "('c \<Rightarrow> int) option"
  m_getSalt :: "('c \<Rightarrow> bytes option) option"
  m_generateKey :: "('c \<Rightarrow> bytes \<Rightarrow> int \<Rightarrow> bytes option \<Rightarrow> rng \<Rightarrow> ('c \<times> rng) option) option"
  m_encryptPage :: "('c \<Rightarrow> int \<Rightarrow> bytes \<Rightarrow> int \<Rightarrow> rng \<Rightarrow> (int \<times> bytes \<times> rng) option) option"
  m_decryptPage :: "('c \<Rightarrow> int \<Rightarrow> bytes \<Rightarrow> int \<Rightarrow> bool \<Rightarrow> (int \<times> bytes) option) option"

text \<open>
  The registry: the configuration with the names and parameters, and the methods of the
  descriptor table. \<open>reg_desc ! k\<close> and \<open>descriptorNames (reg_cfg r) ! k\<close> are the two halves
  of \<^verbatim>\<open>globalCodecDescriptorTable[k]\<close>.
\<close>

record 'c mc_registry =
  reg_cfg :: mc_config
  reg_desc :: "'c CipherDescriptor list"

definition mcSentinelDescriptor :: "'c CipherDescriptor" where
  "mcSentinelDescriptor = \<lparr>d_name = Some [], m_allocateCipher = None, m_freeCipher = None, m_cloneCipher = None,
     m_getLegacy = None, m_getPageSize = None, m_getReserved = None, m_getSalt = None, m_generateKey = None,
     m_encryptPage = None, m_decryptPage = None\<rparr>"

definition sqlite3Isalpha :: "char \<Rightarrow> bool" where
  "sqlite3Isalpha c = (let n = of_char c :: nat in 65 \<le> n \<and> n \<le> 90 \<or> 97 \<le> n \<and> n \<le> 122)"

definition sqlite3Isalnum :: "char \<Rightarrow> bool" where
  "sqlite3Isalnum c = (sqlite3Isalpha c \<or> (let n = of_char c :: nat in 48 \<le> n \<and> n \<le> 57))"

definition mcCheckValidName :: "string option \<Rightarrow> mc_config \<Rightarrow> int" where
  "mcCheckValidName name s =
     (case name of None \<Rightarrow> SQLITE_ERROR | Some name \<Rightarrow>
      let nl = length name in
      if nl < 1 \<or> nl \<ge> CIPHER_NAME_MAXLEN then SQLITE_ERROR
      else if find_entry id name (globalCipherNameTable s) \<noteq> None then SQLITE_ERROR
      else if sqlite3Isalpha (name ! 0)
              \<and> list_all (\<lambda>c. c = CHR ''_'' \<or> sqlite3Isalnum c) (drop 1 name) then SQLITE_OK
      else SQLITE_ERROR)"

text \<open>
  An array of parameters given by the caller: an entry \<open>None\<close> has a NULL name, and the array
  may lack a sentinel, an entry with an empty name.
\<close>

definition param_spec_ok :: "CipherParams \<Rightarrow> bool" where
  "param_spec_ok p \<longleftrightarrow> p_min p \<ge> 0 \<and> p_max p \<ge> 0 \<and> p_min p \<le> p_max p
     \<and> p_value p \<ge> p_min p \<and> p_value p \<le> p_max p \<and> p_default p \<ge> p_min p \<and> p_default p \<le> p_max p"

text \<open>
  The loop over the parameters: the inner \<open>None\<close> when a check fails, otherwise the entries before the
  one it stops at. The second argument counts the turns that are left of
  \<^verbatim>\<open>CIPHER_PARAMS_COUNT_MAX\<close>. The outer \<open>None\<close> is the access behind the end of an array without a sentinel.
\<close>

fun check_params :: "mc_config \<Rightarrow> nat \<Rightarrow> CipherParams option list \<Rightarrow> CipherParams list option option" where
  "check_params s 0 ps = Some None"
| "check_params s (Suc n) [] = None"
| "check_params s (Suc n) (None # ps) = Some None"
| "check_params s (Suc n) (Some p # ps) =
     (if p_name p = [] then Some (Some [])
      else if mcCheckValidName (Some (p_name p)) s \<noteq> SQLITE_OK then Some None
      else if \<not> param_spec_ok p then Some None
      else map_option (map_option ((#) p)) (check_params s n ps))"

definition all_methods :: "'c CipherDescriptor \<Rightarrow> bool" where
  "all_methods d \<longleftrightarrow> d_name d \<noteq> None \<and> m_allocateCipher d \<noteq> None \<and> m_freeCipher d \<noteq> None
     \<and> m_cloneCipher d \<noteq> None \<and> m_getLegacy d \<noteq> None \<and> m_getPageSize d \<noteq> None \<and> m_getReserved d \<noteq> None
     \<and> m_getSalt d \<noteq> None \<and> m_generateKey d \<noteq> None \<and> m_encryptPage d \<noteq> None \<and> m_decryptPage d \<noteq> None"

text \<open>The second half of the registration: the tables are filled. A name buffer is never NULL.\<close>

definition make_default :: "mc_config \<Rightarrow> mc_config" where
  "make_default s =
     (case params_at False 0 s of None \<Rightarrow> s | Some ps \<Rightarrow>
      case find_entry p_name ''cipher'' ps of None \<Rightarrow> s | Some k \<Rightarrow>
        put_params False 0 (ps[k := (ps ! k)\<lparr>p_value := int (globalCipherCount s),
           p_default := int (globalCipherCount s)\<rparr>]) s)"

definition enter_cipher :: "string \<Rightarrow> CipherParams list \<Rightarrow> mc_config \<Rightarrow> mc_config" where
  "enter_cipher name ps s =
     (let count = globalCipherCount s + 1
      in s\<lparr>globalCipherCount := count,
           globalCipherNameTable := (globalCipherNameTable s)[count := name],
           descriptorNames := (descriptorNames s)[count - 1 := name],
           globalCodecParameterTable :=
             (globalCodecParameterTable s)[count := \<lparr>c_name = name, c_id = int count, c_params = Some ps\<rparr>]\<rparr>)"

text \<open>
  The names of the parameters are copied into fresh memory, one allocation each, whose
  result is not tested: \<open>None\<close> is the \<^verbatim>\<open>strcpy\<close> to a NULL pointer.
\<close>

fun copy_names :: "nat \<Rightarrow> mc_config \<Rightarrow> mc_config option" where
  "copy_names 0 s = Some s"
| "copy_names (Suc n) s = (let (ok, s) = sqlite3_malloc s in if ok then copy_names n s else None)"

definition sqlite3mcRegisterCipher :: "'c CipherDescriptor option \<Rightarrow> CipherParams option list option \<Rightarrow> bool
    \<Rightarrow> 'c mc_registry \<Rightarrow> (int \<times> 'c mc_registry) option" where
  "sqlite3mcRegisterCipher desc params makeDefault r =
     (case (desc, params) of (Some desc, Some params) \<Rightarrow>
        if \<not> all_methods desc then Some (SQLITE_ERROR, r)
        else if mcCheckValidName (d_name desc) (reg_cfg r) \<noteq> SQLITE_OK then Some (SQLITE_ERROR, r)
        else (case check_params (reg_cfg r) 64 params of
           None \<Rightarrow> None
         | Some None \<Rightarrow> Some (SQLITE_ERROR, r)
         | Some (Some ps) \<Rightarrow>
             let (ok, s) = sqlite3_malloc (reg_cfg r) in
             if \<not> ok then Some (SQLITE_NOMEM, r\<lparr>reg_cfg := s\<rparr>)
             else if globalCipherCount s < CODEC_COUNT_MAX then
               (case copy_names (length ps) (enter_cipher (the (d_name desc)) ps s) of
                  None \<Rightarrow> None
                | Some s \<Rightarrow>
                    let s = (if makeDefault then make_default s else s)
                    in Some (SQLITE_OK,
                         r\<lparr>reg_cfg := s, reg_desc := (reg_desc r)[globalCipherCount s - 1 := desc]\<rparr>))
             else Some (SQLITE_NOMEM, r\<lparr>reg_cfg := s\<rparr>))
      | _ \<Rightarrow> Some (SQLITE_ERROR, r))"

definition sqlite3mc_register_cipher :: "'c CipherDescriptor option \<Rightarrow> CipherParams option list option \<Rightarrow> bool
    \<Rightarrow> 'c mc_registry \<Rightarrow> (int \<times> 'c mc_registry) option" where
  "sqlite3mc_register_cipher = sqlite3mcRegisterCipher"

text \<open>
  \<^verbatim>\<open>sqlite3mcInitCipherTables\<close>. The static array \<^verbatim>\<open>commonParams\<close> is not reset by it: the values
  that an earlier life of the library left there are the argument. The random name under
  which the connections keep their tables is not modelled.
\<close>

definition sqlite3mcInitCipherTables :: "CipherParams list \<Rightarrow> 'c mc_registry \<Rightarrow> int \<times> 'c mc_registry" where
  "sqlite3mcInitCipherTables common r =
     (SQLITE_OK,
      r\<lparr>reg_cfg := (reg_cfg r)\<lparr>
            globalCipherNameTable := ''global'' # replicate (CODEC_COUNT_MAX + 1) [],
            descriptorNames := replicate (CODEC_COUNT_MAX + 1) [],
            globalCodecParameterTable :=
              globalCommonParams\<lparr>c_params := Some common\<rparr> # replicate (CODEC_COUNT_MAX + 1) globalSentinelParams\<rparr>,
          reg_desc := replicate (CODEC_COUNT_MAX + 1) mcSentinelDescriptor\<rparr>)"

definition sqlite3mcTermCipherTables :: "'c mc_registry \<Rightarrow> 'c mc_registry" where
  "sqlite3mcTermCipherTables r = r\<lparr>reg_cfg := (reg_cfg r)\<lparr>globalCipherCount := 0\<rparr>\<rparr>"
section \<open>The parameter tables of the built-in ciphers\<close>

definition param :: "string \<Rightarrow> int \<Rightarrow> int \<Rightarrow> int \<Rightarrow> CipherParams" where
  "param name v lo hi = \<lparr>p_name = name, p_value = v, p_default = v, p_min = lo, p_max = hi\<rparr>"

definition mcAES128Params :: "CipherParams list" where
  "mcAES128Params = [param ''legacy'' 0 0 1, param ''legacy_page_size'' 0 0 65536]"

definition mcAES256Params :: "CipherParams list" where
  "mcAES256Params = [param ''legacy'' 0 0 1, param ''legacy_page_size'' 0 0 65536, param ''kdf_iter'' 4001 1 0x7fffffff]"

definition mcChaCha20Params :: "CipherParams list" where
  "mcChaCha20Params =
     [param ''legacy'' 0 0 1, param ''legacy_page_size'' 4096 0 65536,
      param ''kdf_iter'' 64007 1 0x7fffffff, param ''plaintext_header_size'' 0 0 100]"

definition mcSQLCipherParams :: "CipherParams list" where
  "mcSQLCipherParams =
     [param ''legacy'' 0 0 4, param ''legacy_page_size'' 4096 0 65536,
      param ''kdf_iter'' 256000 1 0x7fffffff, param ''fast_kdf_iter'' 2 1 0x7fffffff,
      param ''hmac_use'' 1 0 1, param ''hmac_pgno'' 1 0 2, param ''hmac_salt_mask'' 0x3a 0 0xff,
      param ''kdf_algorithm'' 2 0 2, param ''hmac_algorithm'' 2 0 2,
      param ''hmac_algorithm_compat'' 1 0 1, param ''plaintext_header_size'' 0 0 100]"

definition mcRC4Params :: "CipherParams list" where
  "mcRC4Params = [param ''legacy'' 1 1 1, param ''legacy_page_size'' 0 0 65536]"

definition mcAscon128Params :: "CipherParams list" where
  "mcAscon128Params = [param ''kdf_iter'' 64007 1 0x7fffffff, param ''plaintext_header_size'' 0 0 100]"

definition mcAegisParams :: "CipherParams list" where
  "mcAegisParams =
     [param ''tcost'' 2 1 0x7fffffff, param ''mcost'' (19 * 1024) 1 0x7fffffff, param ''pcost'' 1 1 0x7fffffff,
      param ''algorithm'' 4 1 6, param ''plaintext_header_size'' 0 0 100]"

text \<open>The array as the registration sees it, with its sentinel.\<close>

definition with_sentinel :: "CipherParams list \<Rightarrow> CipherParams option list" where
  "with_sentinel ps = map Some ps @ [Some (param [] 0 0 0)]"

text \<open>
  \<^verbatim>\<open>sqlite3mc_initialize\<close> as configured by default: all seven ciphers, \<^verbatim>\<open>CODEC_TYPE\<close> is
  ChaCha20. The descriptors are an argument (in the order of registration), and so is the
  result of installing the VFS shim, which is outside of this component.
\<close>

definition builtin_ciphers :: "(string \<times> CipherParams list) list" where
  "builtin_ciphers = [(''aes128cbc'', mcAES128Params), (''aes256cbc'', mcAES256Params), (''chacha20'', mcChaCha20Params),
     (''sqlcipher'', mcSQLCipherParams), (''rc4'', mcRC4Params), (''ascon128'', mcAscon128Params), (''aegis'', mcAegisParams)]"

fun register_all :: "nat \<Rightarrow> 'c CipherDescriptor list \<Rightarrow> CipherParams list list \<Rightarrow> int \<times> 'c mc_registry
    \<Rightarrow> (int \<times> 'c mc_registry) option" where
  "register_all ty (d # ds) (ps # pss) (rc, r) =
     (if rc \<noteq> SQLITE_OK then register_all (ty + 1) ds pss (rc, r)
      else case sqlite3mcRegisterCipher (Some d) (Some (with_sentinel ps)) (ty = 3) r of
             None \<Rightarrow> None | Some x \<Rightarrow> register_all (ty + 1) ds pss x)"
| "register_all ty _ _ x = Some x"

definition sqlite3mc_initialize :: "'c CipherDescriptor list \<Rightarrow> int \<Rightarrow> CipherParams list \<Rightarrow> 'c mc_registry
    \<Rightarrow> (int \<times> 'c mc_registry) option" where
  "sqlite3mc_initialize descs vfs_rc common r =
     (case register_all 1 descs (map snd builtin_ciphers) (sqlite3mcInitCipherTables common r) of
        None \<Rightarrow> None
      | Some (rc, r) \<Rightarrow> Some (if rc = SQLITE_OK then vfs_rc else rc, r))"

section \<open>The table of a connection\<close>

text \<open>
  \<^verbatim>\<open>sqlite3mcCloneCodecParameterTable\<close> allocates the parameters and the table in two blocks.
  When only the first allocation fails it writes through NULL (the outer \<open>None\<close>); the inner
  \<open>None\<close> is its result NULL. The copy ends with the sentinel entry.
\<close>

definition sqlite3mcCloneCodecParameterTable :: "mc_config \<Rightarrow> (CodecParameter list option \<times> mc_config) option" where
  "sqlite3mcCloneCodecParameterTable s =
     (let entries = takeWhile (\<lambda>e. c_name e \<noteq> []) (globalCodecParameterTable s);
          nTables = length entries;
          sentinel = globalCodecParameterTable s ! nTables;
          (ok1, s) = sqlite3_malloc s;
          (ok2, s) = sqlite3_malloc s
      in if \<not> ok2 then Some (None, s)
         else if \<not> ok1 then None
         else Some (Some (map (\<lambda>e. e\<lparr>c_params := Some (the (c_params e))\<rparr>) entries
                            @ [sentinel\<lparr>c_params := None\<rparr>]), s))"

text \<open>
  \<^verbatim>\<open>mcRegisterCodecExtensions\<close>, without the creation of the SQL functions, which is the job
  of the SQLite core: its result is the argument \<open>create_rc\<close>. The core allocates an entry for the
  client data; when it cannot, it frees the table at once, and the connection has none.
\<close>

definition mcRegisterCodecExtensions :: "int \<Rightarrow> mc_config \<Rightarrow> (int \<times> mc_config) option" where
  "mcRegisterCodecExtensions create_rc s =
     (if clientParams s \<noteq> None then Some (SQLITE_OK, s)
      else case sqlite3mcCloneCodecParameterTable s of
             None \<Rightarrow> None
           | Some (None, s) \<Rightarrow> Some (SQLITE_NOMEM, s)
           | Some (Some t, s) \<Rightarrow>
               let (ok, s) = sqlite3_malloc s
               in Some (create_rc, if ok then s\<lparr>clientParams := Some t\<rparr> else s))"

text \<open>\<^verbatim>\<open>sqlite3mcFreeCodecParameterTable\<close>, which the core calls for the table when the connection is closed.\<close>

definition sqlite3mcFreeCodecParameterTable :: "mc_config \<Rightarrow> mc_config" where
  "sqlite3mcFreeCodecParameterTable s = s\<lparr>clientParams := None\<rparr>"

section \<open>Well-formed configurations\<close>

definition param_ok :: "CipherParams \<Rightarrow> bool" where
  "param_ok p \<longleftrightarrow> 0 \<le> p_min p \<and> in_range (p_value p) p \<and> in_range (p_default p) p"

lemma param_set_ok: "param_ok p \<Longrightarrow> in_range v p \<Longrightarrow> param_ok (param_set b v p)"
  by (simp add: param_ok_def param_set_def in_range_def)

lemma p_name_param_set [simp]: "p_name (param_set b v p) = p_name p"
  by (simp add: param_set_def)

lemma param_reset_ok: "param_ok p \<Longrightarrow> param_ok (p\<lparr>p_value := p_default p\<rparr>)"
  by (simp add: param_ok_def in_range_def)

text \<open>What an array of parameters keeps under every change: the names and the ranges.\<close>

definition param_specs :: "CipherParams list \<Rightarrow> (string \<times> int \<times> int) list" where
  "param_specs ps = map (\<lambda>p. (p_name p, p_min p, p_max p)) ps"

lemma param_specs_set: "k < length ps \<Longrightarrow> param_specs (ps[k := param_set b v (ps ! k)]) = param_specs ps"
  by (simp add: param_specs_def map_update list_update_same_conv param_set_def)

lemma param_specs_reset: "k < length ps \<Longrightarrow> param_specs (ps[k := (ps ! k)\<lparr>p_value := v, p_default := w\<rparr>]) = param_specs ps"
  by (simp add: param_specs_def map_update list_update_same_conv)

lemma param_specs_reset1: "k < length ps \<Longrightarrow> param_specs (ps[k := (ps ! k)\<lparr>p_value := v\<rparr>]) = param_specs ps"
  by (simp add: param_specs_def map_update list_update_same_conv)

text \<open>
  The parameters of entry \<open>j\<close> are in range. In the common entry the default cipher is out of
  its range, \<^verbatim>\<open>CODEC_TYPE_UNKNOWN\<close>, until a cipher is made the default; the flag \<open>b\<close> says
  that this has happened.
\<close>

definition params_ok :: "bool \<Rightarrow> nat \<Rightarrow> CipherParams list \<Rightarrow> bool" where
  "params_ok b j ps \<longleftrightarrow> (\<forall>p \<in> set ps. p_name p \<noteq> [] \<and> (b \<or> j \<noteq> 0 \<or> p_name p \<noteq> ''cipher'' \<longrightarrow> param_ok p))"

lemma params_ok_update:
  assumes "params_ok b j ps" "k < length ps" "p_name q = p_name (ps ! k)"
    "param_ok (ps ! k) \<Longrightarrow> param_ok q"
  shows "params_ok b j (ps[k := q])"
  unfolding params_ok_def
proof
  fix p assume p: "p \<in> set (ps[k := q])"
  then consider "p = q" | "p \<in> set ps" using set_update_subset_insert [of ps k q] by auto
  then show "p_name p \<noteq> [] \<and> (b \<or> j \<noteq> 0 \<or> p_name p \<noteq> ''cipher'' \<longrightarrow> param_ok p)"
  proof cases
    case 1
    have "ps ! k \<in> set ps" using assms(2) by simp
    with assms(1) have "p_name (ps ! k) \<noteq> []"
      "b \<or> j \<noteq> 0 \<or> p_name (ps ! k) \<noteq> ''cipher'' \<longrightarrow> param_ok (ps ! k)"
      unfolding params_ok_def by blast+
    with assms(3, 4) show ?thesis unfolding 1 by auto
  next
    case 2
    with assms(1) show ?thesis by (simp add: params_ok_def)
  qed
qed

definition entry_ok :: "bool \<Rightarrow> nat \<Rightarrow> CodecParameter \<Rightarrow> bool" where
  "entry_ok b j e \<longleftrightarrow> c_name e \<noteq> [] \<and> length (c_name e) < CIPHER_NAME_MAXLEN \<and> c_id e = int j \<and> (\<exists>ps. c_params e = Some ps \<and> params_ok b j ps)"

definition table_wf :: "bool \<Rightarrow> nat \<Rightarrow> CodecParameter list \<Rightarrow> bool" where
  "table_wf b n t \<longleftrightarrow> n + 1 < length t \<and> (\<forall>j \<le> n. entry_ok b j (t ! j))
     \<and> (\<forall>j < length t. n < j \<longrightarrow> t ! j = globalSentinelParams)
     \<and> map_option param_specs (c_params (t ! 0)) = Some (param_specs commonParams)"

definition cfg_wf :: "bool \<Rightarrow> mc_config \<Rightarrow> bool" where
  "cfg_wf b s \<longleftrightarrow> globalCipherCount s \<le> CODEC_COUNT_MAX
     \<and> length (globalCodecParameterTable s) = CODEC_COUNT_MAX + 2
     \<and> table_wf b (globalCipherCount s) (globalCodecParameterTable s)
     \<and> c_name (globalCodecParameterTable s ! 0) = ''global''
     \<and> globalCipherNameTable s = map c_name (globalCodecParameterTable s)
     \<and> descriptorNames s = drop 1 (globalCipherNameTable s)
     \<and> (\<forall>i j. i < j \<longrightarrow> j \<le> globalCipherCount s \<longrightarrow>
          \<not> stricmp (globalCipherNameTable s ! i) (globalCipherNameTable s ! j))
     \<and> (\<forall>t. clientParams s = Some t \<longrightarrow> (\<exists>m \<le> globalCipherCount s. table_wf b m t
          \<and> (\<forall>j \<le> m. c_name (t ! j) = globalCipherNameTable s ! j)))"

lemma params_ok_set:
  "params_ok b j ps \<Longrightarrow> k < length ps \<Longrightarrow> in_range v (ps ! k) \<Longrightarrow> params_ok b j (ps[k := param_set c v (ps ! k)])"
  by (rule params_ok_update) (simp_all add: param_set_ok)

lemma params_ok_reset:
  "params_ok b j ps \<Longrightarrow> k < length ps \<Longrightarrow> params_ok b j (ps[k := (ps ! k)\<lparr>p_value := p_default (ps ! k)\<rparr>])"
  by (rule params_ok_update) (simp_all add: param_reset_ok)

lemma table_wf_update:
  assumes wf: "table_wf b n t" and j: "j < length t" "c_params (t ! j) = Some ps"
    and ps': "params_ok b j ps'" "param_specs ps' = param_specs ps"
  shows "table_wf b n (t[j := (t ! j)\<lparr>c_params := Some ps'\<rparr>])"
proof -
  have "j \<le> n" using wf j by (force simp: table_wf_def globalSentinelParams_def not_le)
  with wf j ps' show ?thesis
    by (auto simp: table_wf_def nth_list_update entry_ok_def)
qed


lemma cfg_wf_codec_params:
  assumes "cfg_wf b s" "codec_params db s = Some t"
  obtains m where "m \<le> globalCipherCount s" "table_wf b m t" "\<forall>j \<le> m. c_name (t ! j) = globalCipherNameTable s ! j"
proof (cases db)
  case True
  with assms that show ?thesis by (auto simp: cfg_wf_def codec_params_def)
next
  case False
  with assms have "t = globalCodecParameterTable s" by (simp add: codec_params_def)
  with assms(1) that [of "globalCipherCount s"] show ?thesis
    by (simp add: cfg_wf_def table_wf_def)
qed

lemma cfg_wf_put:
  assumes wf: "cfg_wf b s" and t: "codec_params db s = Some t" and j: "j < length t" "c_params (t ! j) = Some ps"
    and ps': "\<And>m. table_wf b m t \<Longrightarrow> params_ok b j ps'" "param_specs ps' = param_specs ps"
  shows "cfg_wf b (put_params db j ps' s)"
proof -
  obtain m where m: "m \<le> globalCipherCount s" "table_wf b m t" "\<forall>j \<le> m. c_name (t ! j) = globalCipherNameTable s ! j"
    by (rule cfg_wf_codec_params [OF wf t])
  let ?t = "t[j := (t ! j)\<lparr>c_params := Some ps'\<rparr>]"
  have names: "map c_name ?t = map c_name t"
    using j(1) by (simp add: map_update list_update_same_conv)
  have name0: "c_name (?t ! i) = c_name (t ! i)" for i
    using j(1) by (cases "i = j") simp_all
  have wf': "table_wf b m' ?t" if "table_wf b m' t" for m'
    using table_wf_update [OF that j ps'(1) [OF that] ps'(2)] .
  show ?thesis
  proof (cases db)
    case True
    with t have "clientParams s = Some t" by (simp add: codec_params_def)
    with True wf m wf' name0 show ?thesis
      by (auto simp: cfg_wf_def put_params_def put_codec_params_def codec_params_def)
  next
    case False
    with t have "globalCodecParameterTable s = t" by (simp add: codec_params_def)
    with False wf wf' names name0 show ?thesis
      by (auto simp: cfg_wf_def put_params_def put_codec_params_def codec_params_def)
  qed
qed

lemma table_wf_params_ok:
  assumes "table_wf b m t" "j < length t" "c_params (t ! j) = Some ps"
  shows "params_ok b j ps"
proof -
  have "j \<le> m" using assms by (force simp: table_wf_def globalSentinelParams_def not_le)
  with assms show ?thesis by (auto simp: table_wf_def entry_ok_def)
qed

lemma cfg_wf_allocs [simp]: "cfg_wf b (s\<lparr>allocs := a\<rparr>) = cfg_wf b s"
  by (simp add: cfg_wf_def)

lemma cfg_upd_wf: "cfg_upd s s' \<Longrightarrow> cfg_wf b s \<Longrightarrow> cfg_wf b s'"
proof (induction rule: cfg_upd.induct)
  case (set db s t j ps k v c)
  show ?case
    by (rule cfg_wf_put [OF set.prems set.hyps(1-3)])
      (use set in \<open>auto intro!: params_ok_set param_specs_set dest: table_wf_params_ok\<close>)
next
  case (reset db s t j ps k)
  show ?case
    by (rule cfg_wf_put [OF reset.prems reset.hyps(1-3)])
      (use reset in \<open>auto intro!: params_ok_reset param_specs_reset1 dest: table_wf_params_ok\<close>)
next
  case (alloc s a)
  then show ?case by simp
qed

lemma cfg_upds_wf: "cfg_upds s s' \<Longrightarrow> cfg_wf b s \<Longrightarrow> cfg_wf b s'"
  by (induction rule: rtranclp_induct) (auto intro: cfg_upd_wf)

lemma cfg_wf_nonempty: "cfg_wf b s \<Longrightarrow> tables_nonempty s"
  by (auto simp: cfg_wf_def tables_nonempty_def table_wf_def)

section \<open>Registration keeps the tables well formed\<close>

lemma find_entry_None:
  "find_entry nm s xs = None \<Longrightarrow> m \<le> length xs \<Longrightarrow> \<forall>i < m. nm (xs ! i) \<noteq> [] \<Longrightarrow> i < m \<Longrightarrow> \<not> stricmp s (nm (xs ! i))"
proof (induction xs arbitrary: m i)
  case (Cons x xs)
  have x: "nm x \<noteq> []" using Cons.prems(3, 4) by (cases m) auto
  with Cons.prems(1) have "\<not> stricmp s (nm x)" "find_entry nm s xs = None" by (auto split: if_splits)
  show ?case
  proof (cases i)
    case (Suc k)
    obtain m' where m: "m = Suc m'" using Cons.prems(4) by (cases m) auto
    have "nm (xs ! l) \<noteq> []" if "l < m'" for l
      using Cons.prems(3) [rule_format, of "Suc l"] that m by simp
    with Cons.IH [of m' k] Cons.prems \<open>find_entry nm s xs = None\<close> show ?thesis by (simp add: Suc m)
  qed (simp add: \<open>\<not> stricmp s (nm x)\<close>)
qed simp

lemma mcCheckValidName_OK:
  assumes "mcCheckValidName (Some name) s = SQLITE_OK"
  shows "name \<noteq> []" "length name < CIPHER_NAME_MAXLEN" "find_entry id name (globalCipherNameTable s) = None"
  using assms by (auto simp: mcCheckValidName_def Let_def split: if_splits)

text \<open>What the two checks accept, without their loops.\<close>

definition new_name :: "mc_config \<Rightarrow> string \<Rightarrow> bool" where
  "new_name s name \<longleftrightarrow> name \<noteq> [] \<and> length name < CIPHER_NAME_MAXLEN \<and> sqlite3Isalpha (hd name)
     \<and> (\<forall>c \<in> set (tl name). c = CHR ''_'' \<or> sqlite3Isalnum c)
     \<and> (\<forall>i \<le> globalCipherCount s. \<not> stricmp name (globalCipherNameTable s ! i))"

definition new_parameter :: "mc_config \<Rightarrow> CipherParams \<Rightarrow> bool" where
  "new_parameter s p \<longleftrightarrow> new_name s (p_name p) \<and> 0 \<le> p_min p
     \<and> p_value p \<in> {p_min p .. p_max p} \<and> p_default p \<in> {p_min p .. p_max p}"

lemma check_params_Some:
  "check_params s n qs = Some (Some ps) \<longleftrightarrow>
     length ps < n \<and> (\<exists>e rest. qs = map Some ps @ Some e # rest \<and> p_name e = [])
     \<and> (\<forall>p \<in> set ps. p_name p \<noteq> [] \<and> mcCheckValidName (Some (p_name p)) s = SQLITE_OK \<and> param_spec_ok p)"
proof (induction s n qs arbitrary: ps rule: check_params.induct)
  case (4 s n p qs)
  show ?case
  proof (cases "p_name p \<noteq> [] \<and> mcCheckValidName (Some (p_name p)) s = SQLITE_OK \<and> param_spec_ok p")
    case True
    then have "check_params s (Suc n) (Some p # qs) = Some (Some ps) \<longleftrightarrow>
        (\<exists>ps'. ps = p # ps' \<and> check_params s n qs = Some (Some ps'))"
      by auto
    with True 4 show ?thesis by (cases ps) auto
  next
    case False
    then show ?thesis by (cases ps) (auto split: if_splits)
  qed
qed (auto simp: Cons_eq_append_conv)

lemma check_params_ok:
  "check_params s n qs = Some (Some ps) \<Longrightarrow> \<forall>p \<in> set ps. p_name p \<noteq> [] \<and> param_ok p"
  by (auto simp: check_params_Some param_spec_ok_def param_ok_def in_range_def)

lemma mc_config_allocs_id: "s\<lparr>allocs := allocs s\<rparr> = s"
  by (cases s) simp

lemma sqlite3_malloc_allocs:
  assumes "sqlite3_malloc s = (ok, s')"
  obtains a where "s' = s\<lparr>allocs := a\<rparr>"
proof (cases "allocs s")
  case Nil
  with assms have "s' = s" by (simp add: sqlite3_malloc_def)
  with mc_config_allocs_id [of s] show ?thesis by (metis that)
next
  case (Cons a as)
  with assms have "s' = s\<lparr>allocs := as\<rparr>" by (simp add: sqlite3_malloc_def)
  then show ?thesis by (rule that)
qed

lemma copy_names_allocs: "copy_names n s = Some s' \<Longrightarrow> \<exists>a. s' = s\<lparr>allocs := a\<rparr>"
proof (induction n arbitrary: s)
  case 0
  then have "s' = s\<lparr>allocs := allocs s\<rparr>" by (simp add: mc_config_allocs_id)
  then show ?case ..
next
  case (Suc n)
  then obtain s1 where s1: "sqlite3_malloc s = (True, s1)" "copy_names n s1 = Some s'"
    by (auto simp: Let_def split: prod.splits if_splits)
  obtain a where a: "s1 = s\<lparr>allocs := a\<rparr>" by (rule sqlite3_malloc_allocs [OF s1(1)])
  obtain a' where "s' = s1\<lparr>allocs := a'\<rparr>" using Suc.IH [OF s1(2)] by blast
  then show ?case by (auto simp: a)
qed

text \<open>The next \<open>k\<close> allocations succeed.\<close>

definition memory_for :: "nat \<Rightarrow> mc_config \<Rightarrow> bool" where
  "memory_for k s \<longleftrightarrow> list_all id (take k (allocs s))"

lemma sqlite3_malloc_memory: "sqlite3_malloc s = (memory_for 1 s, s\<lparr>allocs := tl (allocs s)\<rparr>)"
  by (cases "allocs s") (auto simp: sqlite3_malloc_def memory_for_def mc_config_allocs_id [of s, simplified])

lemma memory_for_Suc: "memory_for (Suc k) s \<longleftrightarrow> memory_for 1 s \<and> memory_for k (s\<lparr>allocs := tl (allocs s)\<rparr>)"
  by (cases "allocs s") (auto simp: memory_for_def)

lemma memory_for_allocs: "allocs s = allocs s' \<Longrightarrow> memory_for k s \<longleftrightarrow> memory_for k s'"
  by (simp add: memory_for_def)

lemma copy_names_defined: "copy_names n s \<noteq> None \<longleftrightarrow> memory_for n s"
proof (induction n arbitrary: s)
  case 0
  then show ?case by (simp add: memory_for_def)
next
  case (Suc n)
  then show ?case by (simp add: sqlite3_malloc_memory memory_for_Suc [of n])
qed

lemma enter_cipher_wf:
  assumes wf: "cfg_wf b s" and count: "globalCipherCount s < CODEC_COUNT_MAX"
    and name: "name \<noteq> []" "length name < CIPHER_NAME_MAXLEN" "find_entry id name (globalCipherNameTable s) = None"
    and ps: "\<forall>p \<in> set ps. p_name p \<noteq> [] \<and> param_ok p"
  shows "cfg_wf b (enter_cipher name ps s)"
proof -
  define n t e where "n = globalCipherCount s" and "t = globalCodecParameterTable s"
    and "e = \<lparr>c_name = name, c_id = int (n + 1), c_params = Some ps\<rparr>"
  have len: "length t = CODEC_COUNT_MAX + 2" and n: "n < CODEC_COUNT_MAX" and t: "table_wf b n t"
    and names: "globalCipherNameTable s = map c_name t"
    and distinct: "\<And>i j. i < j \<Longrightarrow> j \<le> n \<Longrightarrow> \<not> stricmp (map c_name t ! i) (map c_name t ! j)"
    using wf count unfolding cfg_wf_def n_def t_def by metis+
  have fresh: "\<not> stricmp name (c_name (t ! i))" if "i \<le> n" for i
  proof -
    have "\<forall>i < n + 1. id (map c_name t ! i) \<noteq> []"
      using t len n by (auto simp: table_wf_def entry_ok_def)
    from find_entry_None [OF name(3) [unfolded names] _ this, of i] show ?thesis
      using that len n by simp
  qed
  have "table_wf b (n + 1) (t[n + 1 := e])"
    using t len n name ps by (auto simp: table_wf_def nth_list_update le_Suc_eq entry_ok_def e_def params_ok_def)
  moreover have names': "map c_name (t[n + 1 := e]) = (map c_name t)[n + 1 := name]"
    by (simp add: map_update e_def)
  moreover have "\<not> stricmp ((map c_name t)[n + 1 := name] ! i) ((map c_name t)[n + 1 := name] ! j)"
    if "i < j" "j \<le> n + 1" for i j
  proof (cases "j = n + 1")
    case True
    with that(1) len n fresh [of i] show ?thesis by (auto simp: nth_list_update dest: stricmp_sym)
  next
    case False
    with that len n distinct [of i j] show ?thesis by (simp add: nth_list_update)
  qed
  moreover have "\<exists>m \<le> n + 1. table_wf b m u \<and> (\<forall>j \<le> m. c_name (u ! j) = (map c_name t)[n + 1 := name] ! j)"
    if u: "clientParams s = Some u" for u
  proof -
    obtain m where "m \<le> n" "table_wf b m u" "\<forall>j \<le> m. c_name (u ! j) = map c_name t ! j"
      using wf u by (auto simp: cfg_wf_def n_def t_def)
    with len n show ?thesis by (intro exI [of _ m]) (auto simp: nth_list_update)
  qed
  moreover have "descriptorNames s = drop 1 (map c_name t)" "c_name (t ! 0) = ''global''"
    using wf by (simp_all add: cfg_wf_def t_def)
  ultimately show ?thesis
    unfolding cfg_wf_def enter_cipher_def Let_def
    by (simp only: mc_config.simps n_def [symmetric] t_def [symmetric] e_def [symmetric] names names')
      (use len n names' in \<open>auto simp: drop_update_swap\<close>)
qed

lemma common_entry:
  assumes "table_wf b n t"
  obtains c h w where "c_params (t ! 0) = Some [c, h, w]" "param_specs [c, h, w] = param_specs commonParams"
proof -
  obtain ps where ps: "c_params (t ! 0) = Some ps" "param_specs ps = param_specs commonParams"
    using assms by (auto simp: table_wf_def)
  then have "length (param_specs ps) = length (param_specs commonParams)" by simp
  then have "length ps = 3" by (simp add: param_specs_def commonParams_def)
  then obtain c h w where "ps = [c, h, w]"
    by (auto simp: numeral_3_eq_3 length_Suc_conv)
  with ps that show ?thesis by blast
qed

lemma make_default_wf:
  assumes wf: "cfg_wf b s" and count: "0 < globalCipherCount s" and b: "b \<or> clientParams s = None"
  shows "cfg_wf True (make_default s)"
proof -
  define n t where "n = globalCipherCount s" and "t = globalCodecParameterTable s"
  have t: "table_wf b n t" and n: "n \<le> 16" and len: "length t = 18"
    using wf by (simp_all add: cfg_wf_def n_def t_def CODEC_COUNT_MAX_def)
  obtain c h w where ps: "c_params (t ! 0) = Some [c, h, w]" and specs: "param_specs [c, h, w] = param_specs commonParams"
    by (rule common_entry [OF t])
  have c: "p_name c = ''cipher''" "p_min c = 1" "p_max c = 16" and hw: "p_name h = ''hmac_check''" "p_name w = ''mc_legacy_wal''"
    using specs by (simp_all add: param_specs_def commonParams_def)
  define c' where "c' = c\<lparr>p_value := int n, p_default := int n\<rparr>"
  have "make_default s = put_params False 0 [c', h, w] s"
    using ps c by (simp add: make_default_def params_at_def codec_params_def t_def c'_def n_def)
  moreover have "params_ok b 0 [c, h, w]"
    using t ps len by (auto simp: table_wf_def entry_ok_def)
  then have ok: "params_ok True 0 [c', h, w]"
    using c hw n count by (auto simp: params_ok_def c'_def param_ok_def in_range_def n_def)
  have specs': "param_specs [c', h, w] = param_specs [c, h, w]" by (simp add: param_specs_def c'_def)
  have entries: "entry_ok True j (t ! j)" if "0 < j" "j \<le> n" for j
    using t that by (auto simp: table_wf_def entry_ok_def params_ok_def)
  have 0: "entry_ok True 0 ((t ! 0)\<lparr>c_params := Some [c', h, w]\<rparr>)"
    using t ok by (auto simp: table_wf_def entry_ok_def)
  have "table_wf True n (t[0 := (t ! 0)\<lparr>c_params := Some [c', h, w]\<rparr>])"
    using t entries 0 ps specs specs' len by (auto simp: table_wf_def nth_list_update)
  moreover have "map c_name (t[0 := (t ! 0)\<lparr>c_params := Some [c', h, w]\<rparr>]) = map c_name t"
    using len by (simp add: map_update list_update_same_conv)
  moreover have "c_name (t[0 := (t ! 0)\<lparr>c_params := Some [c', h, w]\<rparr>] ! 0) = c_name (t ! 0)"
    using len by simp
  ultimately show ?thesis
    using wf b
    by (auto simp: cfg_wf_def put_params_def put_codec_params_def codec_params_def n_def [symmetric] t_def [symmetric])
qed


text \<open>
  The whole registry: besides the configuration, exactly the registered ciphers have a
  descriptor with all its methods, and the rest of the table is the sentinel.
\<close>

definition registry_wf :: "bool \<Rightarrow> 'c mc_registry \<Rightarrow> bool" where
  "registry_wf b r \<longleftrightarrow> cfg_wf b (reg_cfg r) \<and> length (reg_desc r) = CODEC_COUNT_MAX + 1
     \<and> (\<forall>k < globalCipherCount (reg_cfg r). all_methods (reg_desc r ! k)
          \<and> d_name (reg_desc r ! k) = Some (descriptorNames (reg_cfg r) ! k))
     \<and> (\<forall>k < CODEC_COUNT_MAX + 1. globalCipherCount (reg_cfg r) \<le> k \<longrightarrow> reg_desc r ! k = mcSentinelDescriptor)"

text \<open>A registration either changes nothing but the allocation oracle, or enters the cipher.\<close>

lemma sqlite3mcRegisterCipher_cases:
  assumes "sqlite3mcRegisterCipher desc params md r = Some (rc, r')"
  shows "(\<exists>a. rc \<noteq> SQLITE_OK \<and> r' = r\<lparr>reg_cfg := (reg_cfg r)\<lparr>allocs := a\<rparr>\<rparr>)
    \<or> (\<exists>d qs ps name a s. rc = SQLITE_OK \<and> desc = Some d \<and> params = Some qs \<and> all_methods d \<and> d_name d = Some name
         \<and> mcCheckValidName (Some name) (reg_cfg r) = SQLITE_OK \<and> check_params (reg_cfg r) 64 qs = Some (Some ps)
         \<and> globalCipherCount (reg_cfg r) < CODEC_COUNT_MAX
         \<and> s = (enter_cipher name ps (reg_cfg r))\<lparr>allocs := a\<rparr>
         \<and> r' = r\<lparr>reg_cfg := if md then make_default s else s,
                  reg_desc := (reg_desc r)[globalCipherCount (reg_cfg r) := d]\<rparr>)"
proof -
  have id: "r\<lparr>reg_cfg := (reg_cfg r)\<lparr>allocs := allocs (reg_cfg r)\<rparr>\<rparr> = r" for r :: "'a mc_registry" by (cases r) (simp add: mc_config_allocs_id)
  show ?thesis
  proof (cases "rc = SQLITE_OK")
    case False
    have "\<exists>a. r' = r\<lparr>reg_cfg := (reg_cfg r)\<lparr>allocs := a\<rparr>\<rparr>"
      using assms False
      by (auto simp: sqlite3mcRegisterCipher_def Let_def split: option.splits prod.splits if_splits
          elim!: sqlite3_malloc_allocs) (rule exI [of _ "allocs (reg_cfg r')"], simp add: id)+
    with False show ?thesis by blast
  next
    case True
    then obtain d qs where d: "desc = Some d" "params = Some qs" "all_methods d"
      "mcCheckValidName (d_name d) (reg_cfg r) = SQLITE_OK"
      using assms by (auto simp: sqlite3mcRegisterCipher_def split: option.splits if_splits)
    then obtain name where name: "d_name d = Some name" by (auto simp: all_methods_def)
    note valid = d(4) [unfolded name]
    from assms True obtain ps where ps: "check_params (reg_cfg r) 64 qs = Some (Some ps)"
      by (auto simp: sqlite3mcRegisterCipher_def d split: option.splits)
    obtain ok s1 where s1': "sqlite3_malloc (reg_cfg r) = (ok, s1)" by fastforce
    from assms True have s1: "sqlite3_malloc (reg_cfg r) = (True, s1)" and count: "globalCipherCount s1 < CODEC_COUNT_MAX"
      by (auto simp: sqlite3mcRegisterCipher_def d ps s1' split: if_splits option.splits)
    from assms True obtain s2 where s2: "copy_names (length ps) (enter_cipher name ps s1) = Some s2"
      and r': "r' = r\<lparr>reg_cfg := if md then make_default s2 else s2,
                  reg_desc := (reg_desc r)[globalCipherCount (if md then make_default s2 else s2) - 1 := d]\<rparr>"
      by (cases "copy_names (length ps) (enter_cipher name ps s1)")
        (auto simp: sqlite3mcRegisterCipher_def d(1-3) name valid ps s1 count Let_def)
    obtain a1 where a1: "s1 = (reg_cfg r)\<lparr>allocs := a1\<rparr>" by (rule sqlite3_malloc_allocs [OF s1])
    have e: "enter_cipher name ps (u\<lparr>allocs := a\<rparr>) = (enter_cipher name ps u)\<lparr>allocs := a\<rparr>" for u a
      by (cases u) (simp add: enter_cipher_def Let_def)
    obtain a2 where a2: "s2 = (enter_cipher name ps (reg_cfg r))\<lparr>allocs := a2\<rparr>"
      using copy_names_allocs [OF s2] by (auto simp: a1 e)
    have md: "globalCipherCount (make_default u) = globalCipherCount u" for u
      by (simp add: make_default_def split: option.splits)
    show ?thesis
      using True d name ps count a2 r' md by (auto simp: a1 enter_cipher_def Let_def)
  qed
qed

lemma register_cipher_wf:
  assumes "registry_wf b r" and "sqlite3mcRegisterCipher desc params md r = Some (rc, r')"
    and "b \<or> clientParams (reg_cfg r) = None"
  shows "registry_wf (b \<or> md \<and> rc = SQLITE_OK) r'"
  using sqlite3mcRegisterCipher_cases [OF assms(2)]
proof (elim disjE exE conjE)
  fix a
  assume "rc \<noteq> SQLITE_OK" "r' = r\<lparr>reg_cfg := (reg_cfg r)\<lparr>allocs := a\<rparr>\<rparr>"
  with assms(1) show ?thesis by (simp add: registry_wf_def)
next
  fix d qs ps name a s
  assume rc: "rc = SQLITE_OK" and d: "all_methods d" "d_name d = Some name"
    and checks: "mcCheckValidName (Some name) (reg_cfg r) = SQLITE_OK" "check_params (reg_cfg r) 64 qs = Some (Some ps)"
    and count: "globalCipherCount (reg_cfg r) < CODEC_COUNT_MAX"
    and s: "s = (enter_cipher name ps (reg_cfg r))\<lparr>allocs := a\<rparr>"
    and r': "r' = r\<lparr>reg_cfg := if md then make_default s else s,
                  reg_desc := (reg_desc r)[globalCipherCount (reg_cfg r) := d]\<rparr>"
  define n where "n = globalCipherCount (reg_cfg r)"
  have wf: "cfg_wf b (reg_cfg r)" and wf': "registry_wf b r" using assms(1) by (simp_all add: registry_wf_def)
  have "cfg_wf b s"
    unfolding s cfg_wf_allocs
    by (rule enter_cipher_wf [OF wf count mcCheckValidName_OK [OF checks(1)] check_params_ok [OF checks(2)]])
  moreover have new: "globalCipherCount s = n + 1" "clientParams s = clientParams (reg_cfg r)"
    "descriptorNames s = (descriptorNames (reg_cfg r))[n := name]"
    by (simp_all add: s enter_cipher_def Let_def n_def)
  moreover have md: "globalCipherCount (make_default u) = globalCipherCount u"
    "descriptorNames (make_default u) = descriptorNames u" for u
    by (simp_all add: make_default_def split: option.splits)
  ultimately have "cfg_wf (b \<or> md) (if md then make_default s else s)"
    using make_default_wf [of b s] assms(3) by auto
  moreover have "length (descriptorNames (reg_cfg r)) = CODEC_COUNT_MAX + 1"
    using wf by (simp add: cfg_wf_def)
  ultimately show ?thesis
    using wf' d count rc unfolding registry_wf_def r'
    by (auto simp: n_def [symmetric] new md nth_list_update less_Suc_eq)
qed


section \<open>Reachable registries\<close>

text \<open>
  The life of the library after \<^verbatim>\<open>sqlite3mc_initialize\<close>: every call of the interface, in any
  order. A step exists only when the call does not run into NULL or out of an array.
\<close>

datatype 'c mc_op =
    Config bool "string option" int
  | ConfigCipher bool "string option" "string option" int
  | ConfigSQL "sql_value list"
  | ConfigUri "uri option" bool
  | CipherType bool
  | ReadParameter bool string string
  | Register "'c CipherDescriptor option" "CipherParams option list option" bool
  | OpenConnection int
  | CloseConnection

inductive mc_step :: "'c mc_registry \<Rightarrow> 'c mc_op \<Rightarrow> 'c mc_registry \<Rightarrow> bool" where
  config: "mc_step r (Config db n v) (r\<lparr>reg_cfg := snd (sqlite3mc_config db n v (reg_cfg r))\<rparr>)"
| config_cipher:
    "mc_step r (ConfigCipher db c n v) (r\<lparr>reg_cfg := snd (sqlite3mc_config_cipher db c n v (reg_cfg r))\<rparr>)"
| config_sql: "mc_step r (ConfigSQL argv) (r\<lparr>reg_cfg := s\<rparr>)"
    if "sqlite3mcConfigParams argv (reg_cfg r) = Some (res, s)"
| config_uri: "mc_step r (ConfigUri u d) (r\<lparr>reg_cfg := snd (sqlite3mcConfigureFromUri u d (reg_cfg r))\<rparr>)"
| cipher_type: "mc_step r (CipherType db) (r\<lparr>reg_cfg := snd (sqlite3mcGetCipherType db (reg_cfg r))\<rparr>)"
| read_parameter: "mc_step r (ReadParameter db c n) (r\<lparr>reg_cfg := s\<rparr>)"
    if "read_parameter (sqlite3mcGetCipherParams db c (reg_cfg r)) n (reg_cfg r) = Some (v, s)"
| register: "mc_step r (Register d ps md) r'"
    if "sqlite3mc_register_cipher d ps md r = Some (rc, r')"
| open_connection: "mc_step r (OpenConnection rc) (r\<lparr>reg_cfg := s\<rparr>)"
    if "mcRegisterCodecExtensions rc (reg_cfg r) = Some (rc', s)"
| close_connection: "mc_step r CloseConnection (r\<lparr>reg_cfg := sqlite3mcFreeCodecParameterTable (reg_cfg r)\<rparr>)"

inductive mc_reachable :: "'c mc_registry \<Rightarrow> bool" where
  start: "mc_reachable r"
    if "sqlite3mc_initialize descs vfs_rc commonParams r0 = Some (SQLITE_OK, r)" "length descs = 7"
      "globalCipherCount (reg_cfg r0) = 0" "clientParams (reg_cfg r0) = None"
| step: "mc_reachable r'" if "mc_reachable r" "mc_step r op r'"

text \<open>The start.\<close>

lemma init_tables_wf:
  assumes "globalCipherCount (reg_cfg r) = 0" "clientParams (reg_cfg r) = None"
  shows "registry_wf False (snd (sqlite3mcInitCipherTables commonParams r))"
proof -
  have "table_wf False 0 (globalCommonParams\<lparr>c_params := Some commonParams\<rparr> # replicate 17 globalSentinelParams)"
    by (auto simp: table_wf_def entry_ok_def params_ok_def globalCommonParams_def commonParams_def
        CIPHER_NAME_MAXLEN_def nth_Cons' param_ok_def in_range_def)
  then show ?thesis
    using assms
    by (simp add: registry_wf_def cfg_wf_def sqlite3mcInitCipherTables_def CODEC_COUNT_MAX_def globalCommonParams_def
        globalSentinelParams_def)
qed

lemma register_client:
  "sqlite3mcRegisterCipher d qs md r = Some (rc, r') \<Longrightarrow> clientParams (reg_cfg r') = clientParams (reg_cfg r)"
proof -
  have "clientParams (make_default s) = clientParams s" for s
    by (simp add: make_default_def put_params_def put_codec_params_def split: option.splits)
  moreover assume "sqlite3mcRegisterCipher d qs md r = Some (rc, r')"
  ultimately show ?thesis
    by (auto simp: enter_cipher_def Let_def dest!: sqlite3mcRegisterCipher_cases)
qed

lemma register_all_failed: "register_all ty ds pss (rc, r) = Some (SQLITE_OK, r') \<Longrightarrow> rc = SQLITE_OK"
proof (induction ty ds pss "(rc, r)" arbitrary: rc r rule: register_all.induct)
  case (1 ty d ds ps pss rc r)
  show ?case
  proof (rule ccontr)
    assume "rc \<noteq> SQLITE_OK"
    with 1 show False by simp
  qed
qed auto

lemma register_all_wf:
  "register_all ty ds pss (SQLITE_OK, r) = Some (SQLITE_OK, r') \<Longrightarrow> registry_wf b r \<Longrightarrow> clientParams (reg_cfg r) = None \<Longrightarrow>
     registry_wf (b \<or> ty \<le> 3 \<and> 3 < ty + min (length ds) (length pss)) r'"
proof (induction ds arbitrary: ty pss r b)
  case (Cons d ds)
  show ?case
  proof (cases pss)
    case (Cons ps pss')
    with Cons.prems(1) obtain rc1 r1 where
      r1: "sqlite3mcRegisterCipher (Some d) (Some (with_sentinel ps)) (ty = 3) r = Some (rc1, r1)"
      and rest: "register_all (ty + 1) ds pss' (rc1, r1) = Some (SQLITE_OK, r')"
      by (auto split: option.splits)
    have rc1: "rc1 = SQLITE_OK" by (rule register_all_failed [OF rest])
    have "registry_wf (b \<or> ty = 3 \<and> rc1 = SQLITE_OK) r1" "clientParams (reg_cfg r1) = None"
      using register_cipher_wf [OF Cons.prems(2) r1] register_client [OF r1] Cons.prems(3) by auto
    from Cons.IH [OF rest [unfolded rc1] this] show ?thesis
      unfolding rc1 Cons by (elim back_subst [of "\<lambda>b. registry_wf b r'"]) auto
  next
    case Nil
    have never: "(ty \<le> 3 \<and> 3 < ty) = False" by auto
    from Cons.prems Nil show ?thesis by (simp add: never)
  qed
next
  case Nil
  have never: "(ty \<le> 3 \<and> 3 < ty) = False" by auto
  from Nil show ?case by (simp add: never)
qed

lemma mc_initialize_wf:
  assumes "sqlite3mc_initialize descs vfs_rc commonParams r0 = Some (SQLITE_OK, r)" "length descs = 7"
    and "globalCipherCount (reg_cfg r0) = 0" "clientParams (reg_cfg r0) = None"
  shows "registry_wf True r"
proof -
  define r1 where "r1 = snd (sqlite3mcInitCipherTables commonParams r0)"
  have r1: "sqlite3mcInitCipherTables commonParams r0 = (SQLITE_OK, r1)"
    by (simp add: r1_def sqlite3mcInitCipherTables_def)
  from assms(1) have "register_all 1 descs (map snd builtin_ciphers) (SQLITE_OK, r1) = Some (SQLITE_OK, r)"
    by (auto simp: sqlite3mc_initialize_def r1 split: option.splits if_splits)
  from register_all_wf [OF this init_tables_wf [OF assms(3, 4), folded r1_def]]
  show ?thesis using assms(2, 4) by (simp add: builtin_ciphers_def r1_def sqlite3mcInitCipherTables_def)
qed

text \<open>The steps.\<close>

lemma cfg_wf_cipher_param_ok:
  assumes "cfg_wf b s"
  shows "cipher_param_ok s"
  unfolding cipher_param_ok_def
proof (intro allI impI)
  fix ps p
  assume ps: "params_at True 0 s = Some ps" and p: "p \<in> set ps" "stricmp ''cipher'' (p_name p)"
  then obtain t where t: "codec_params True s = Some t" "c_params (t ! 0) = Some ps"
    by (auto simp: params_at_Some)
  obtain m where "table_wf b m t" by (rule cfg_wf_codec_params [OF assms t(1)])
  from common_entry [OF this] t(2) obtain c h w where
    chw: "ps = [c, h, w]" "param_specs [c, h, w] = param_specs commonParams" by auto
  have "p = c"
    using chw p by (auto simp: param_specs_def commonParams_def stricmp_def)
  then have c: "p_min p = 1" "p_max p = 16"
    using chw(2) by (auto simp: param_specs_def commonParams_def)
  have len: "length (descriptorNames s) = 17" and last: "descriptorNames s ! 16 = []"
    using assms by (auto simp: cfg_wf_def table_wf_def CODEC_COUNT_MAX_def globalSentinelParams_def)
  have "int j + 1 \<le> p_max p" if "find_entry id n (descriptorNames s) = Some j" for j n
    using find_entry_Some [OF that] len last c by (cases "j = 16") auto
  with c show "p_min p \<le> 1 \<and> (\<forall>j n. find_entry id n (descriptorNames s) = Some j \<longrightarrow> int j + 1 \<le> p_max p)"
    by auto
qed

lemma registry_wf_upds:
  "registry_wf b r \<Longrightarrow> cfg_upds (reg_cfg r) s \<Longrightarrow> registry_wf b (r\<lparr>reg_cfg := s\<rparr>)"
  using cfg_upds_other [of "reg_cfg r" s] by (auto simp: registry_wf_def intro: cfg_upds_wf)


lemma clone_wf:
  assumes wf: "cfg_wf b s" and clone: "sqlite3mcCloneCodecParameterTable s = Some (res, s')"
  shows "(\<exists>a. s' = s\<lparr>allocs := a\<rparr>) \<and> (\<forall>t. res = Some t \<longrightarrow>
    table_wf b (globalCipherCount s) t \<and> (\<forall>j \<le> globalCipherCount s. c_name (t ! j) = globalCipherNameTable s ! j))"
proof -
  define n g where "n = globalCipherCount s" and "g = globalCodecParameterTable s"
  have g: "table_wf b n g" and len: "length g = 18" and n: "n \<le> 16" and names: "globalCipherNameTable s = map c_name g"
    using wf by (simp_all add: cfg_wf_def n_def g_def CODEC_COUNT_MAX_def)
  have split: "takeWhile (\<lambda>e. c_name e \<noteq> []) g = take (n + 1) g"
  proof -
    have "g = take (n + 1) g @ g ! (n + 1) # drop (n + 2) g"
      using len n id_take_nth_drop [of "n + 1" g] by simp
    moreover have "takeWhile (\<lambda>e. c_name e \<noteq> []) (take (n + 1) g @ g ! (n + 1) # drop (n + 2) g) = take (n + 1) g"
      using g len n by (subst takeWhile_append2)
        (auto simp: table_wf_def entry_ok_def globalSentinelParams_def in_set_conv_nth)
    ultimately show ?thesis by metis
  qed
  have entries: "map (\<lambda>e. e\<lparr>c_params := Some (the (c_params e))\<rparr>) (take (n + 1) g) = take (n + 1) g"
  proof (rule map_idI)
    fix e assume "e \<in> set (take (n + 1) g)"
    then obtain i where "i \<le> n" "e = g ! i" using len n by (auto simp: in_set_conv_nth less_Suc_eq_le)
    with g obtain ps where "c_params e = Some ps" by (auto simp: table_wf_def entry_ok_def)
    then show "e\<lparr>c_params := Some (the (c_params e))\<rparr> = e" by (cases e) simp
  qed
  have sentinel: "(g ! (n + 1))\<lparr>c_params := None\<rparr> = globalSentinelParams"
    using g len n by (simp add: table_wf_def globalSentinelParams_def)
  have "table_wf b n (take (n + 1) g @ [globalSentinelParams])"
    using g len n by (auto simp: table_wf_def nth_append)
  moreover have "c_name ((take (n + 1) g @ [globalSentinelParams]) ! j) = map c_name g ! j" if "j \<le> n" for j
    using that len n by (simp add: nth_append)
  moreover obtain ok1 s1 ok2 s2 where m: "sqlite3_malloc s = (ok1, s1)" "sqlite3_malloc s1 = (ok2, s2)"
    by (meson surj_pair)
  moreover obtain a1 a2 where "s1 = s\<lparr>allocs := a1\<rparr>" "s2 = s1\<lparr>allocs := a2\<rparr>"
    using m by (auto elim!: sqlite3_malloc_allocs)
  ultimately show ?thesis
    using clone len n
    by (auto simp: sqlite3mcCloneCodecParameterTable_def g_def [symmetric] split [simplified] entries [simplified] sentinel [simplified]
        n_def [symmetric] names Let_def split: if_splits)
qed

lemma open_connection_wf:
  assumes wf: "registry_wf b r" and "mcRegisterCodecExtensions rc (reg_cfg r) = Some (rc', s)"
  shows "registry_wf b (r\<lparr>reg_cfg := s\<rparr>)"
proof (cases "clientParams (reg_cfg r)")
  case (Some t)
  with assms have "reg_cfg r = s" by (simp add: mcRegisterCodecExtensions_def)
  then have "r\<lparr>reg_cfg := s\<rparr> = r" by (cases r) simp
  with wf show ?thesis by simp
next
  case None
  have cfg: "cfg_wf b (reg_cfg r)" using wf by (simp add: registry_wf_def)
  obtain res s1 where clone: "sqlite3mcCloneCodecParameterTable (reg_cfg r) = Some (res, s1)"
    using assms(2) None by (auto simp: mcRegisterCodecExtensions_def split: option.splits)
  obtain a where a: "s1 = (reg_cfg r)\<lparr>allocs := a\<rparr>" using clone_wf [OF cfg clone] by blast
  show ?thesis
  proof (cases res)
    case None': None
    with assms(2) None clone have "s = s1" by (simp add: mcRegisterCodecExtensions_def)
    with wf show ?thesis by (simp add: registry_wf_def a)
  next
    case (Some t)
    obtain ok s2 where m: "sqlite3_malloc s1 = (ok, s2)" by (meson surj_pair)
    then obtain a2 where a2: "s2 = s1\<lparr>allocs := a2\<rparr>" by (auto elim!: sqlite3_malloc_allocs)
    have s: "s = (if ok then s2\<lparr>clientParams := Some t\<rparr> else s2)"
      using assms(2) None clone Some m by (auto simp: mcRegisterCodecExtensions_def)
    have "cfg_wf b ((reg_cfg r)\<lparr>allocs := a, clientParams := Some t\<rparr>)" for a
      using cfg clone_wf [OF cfg clone] Some by (auto simp: cfg_wf_def)
    with wf show ?thesis by (auto simp: registry_wf_def s a2 a)
  qed
qed

lemma find_id_less: "i < length t \<Longrightarrow> c_id (t ! i) = 0 \<Longrightarrow> find_id ty t \<le> i"
proof (induction t arbitrary: i)
  case (Cons e t)
  then show ?case by (cases i) auto
qed simp

lemma sqlite3mcGetCipherParams_less:
  assumes wf: "cfg_wf b s" and ref: "sqlite3mcGetCipherParams db c s = (db', j)"
    and t: "codec_params db' s = Some t"
  shows "j < length t"
proof -
  obtain m where m: "table_wf b m t" by (rule cfg_wf_codec_params [OF wf t])
  then have "m + 1 < length t" "c_id (drop 1 t ! m) = 0" by (auto simp: table_wf_def globalSentinelParams_def)
  then have "find_id ty (drop 1 t) \<le> m" for ty by (intro find_id_less) auto
  then have "1 + find_id ty (drop 1 t) < length t" for ty
    using \<open>m + 1 < length t\<close> by (metis One_nat_def Suc_eq_plus1 Suc_le_mono le_less_trans plus_1_eq_Suc)
  with ref t \<open>m + 1 < length t\<close> show ?thesis
    by (auto simp: sqlite3mcGetCipherParams_def Let_def split: if_splits)
qed

lemma cfg_wf_no_client: "cfg_wf b s \<Longrightarrow> cfg_wf b (s\<lparr>clientParams := None\<rparr>)"
  unfolding cfg_wf_def by (cases s, simp only: mc_config.simps option.simps) blast

lemma mc_step_wf: "mc_step r op r' \<Longrightarrow> registry_wf True r \<Longrightarrow> registry_wf True r'"
proof (induction rule: mc_step.induct)
  case (config r db n v)
  then show ?case by (intro registry_wf_upds sqlite3mc_config_upds cfg_wf_nonempty) (auto simp: registry_wf_def)
next
  case (config_cipher r db c n v)
  then show ?case by (intro registry_wf_upds sqlite3mc_config_cipher_upds)
next
  case (config_sql argv r res s)
  then have "cfg_wf True (reg_cfg r)" by (simp add: registry_wf_def)
  with config_sql show ?case
    by (intro registry_wf_upds sqlite3mcConfigParams_upds cfg_wf_nonempty cfg_wf_cipher_param_ok)
next
  case (config_uri r u d)
  then show ?case by (intro registry_wf_upds sqlite3mcConfigureFromUri_upds cfg_wf_nonempty) (auto simp: registry_wf_def)
next
  case (cipher_type r db)
  then show ?case by (intro registry_wf_upds sqlite3mcGetCipherType_upds cfg_wf_nonempty) (auto simp: registry_wf_def)
next
  case (read_parameter db c r n v s)
  then have wf: "cfg_wf True (reg_cfg r)" by (simp add: registry_wf_def)
  obtain db' j where ref: "sqlite3mcGetCipherParams db c (reg_cfg r) = (db', j)" by (meson surj_pair)
  then obtain t where t: "codec_params db' (reg_cfg r) = Some t"
    using read_parameter.hyps by (auto simp: read_parameter_def params_at_def split: option.splits)
  show ?case
    by (intro registry_wf_upds read_parameter.prems)
      (rule read_parameter_upds [OF read_parameter.hyps [unfolded ref] t sqlite3mcGetCipherParams_less [OF wf ref t]])
next
  case (register d ps md r rc r')
  then show ?case using register_cipher_wf [of True r d ps md rc r'] by (simp add: sqlite3mc_register_cipher_def)
next
  case (open_connection rc r rc' s)
  then show ?case by (intro open_connection_wf)
next
  case (close_connection r)
  then show ?case by (simp add: registry_wf_def sqlite3mcFreeCodecParameterTable_def cfg_wf_no_client)
qed

lemma mc_reachable_wf: "mc_reachable r \<Longrightarrow> registry_wf True r"
  by (induction rule: mc_reachable.induct) (auto intro: mc_initialize_wf mc_step_wf)


section \<open>Initialisation\<close>

text \<open>The registration of a cipher with all its methods, as far as it concerns the configuration.\<close>

definition register_cfg :: "string \<Rightarrow> CipherParams option list \<Rightarrow> bool \<Rightarrow> mc_config \<Rightarrow> (int \<times> mc_config) option" where
  "register_cfg name params md s =
     (if mcCheckValidName (Some name) s \<noteq> SQLITE_OK then Some (SQLITE_ERROR, s)
      else (case check_params s 64 params of
         None \<Rightarrow> None
       | Some None \<Rightarrow> Some (SQLITE_ERROR, s)
       | Some (Some ps) \<Rightarrow>
           let (ok, s) = sqlite3_malloc s in
           if \<not> ok then Some (SQLITE_NOMEM, s)
           else if globalCipherCount s < CODEC_COUNT_MAX then
             (case copy_names (length ps) (enter_cipher name ps s) of
                None \<Rightarrow> None
              | Some s \<Rightarrow> Some (SQLITE_OK, if md then make_default s else s))
           else Some (SQLITE_NOMEM, s)))"

lemma ascii_lower_code [code]:
  "ascii_lower (Char b0 b1 b2 b3 b4 b5 b6 b7) =
     (if \<not> b7 \<and> b6 \<and> \<not> b5 \<and> (b0 \<or> b1 \<or> b2 \<or> b3 \<or> b4) \<and> \<not> (b4 \<and> b3 \<and> (b2 \<or> b1 \<and> b0))
      then Char b0 b1 b2 b3 b4 True b6 b7 else Char b0 b1 b2 b3 b4 b5 b6 b7)"
  by (cases b0; cases b1; cases b2; cases b3; cases b4; cases b5; cases b6; cases b7) (simp_all add: ascii_lower_def char_of_def bit_0)

lemma sqlite3Isalpha_code [code]:
  "sqlite3Isalpha (Char b0 b1 b2 b3 b4 b5 b6 b7) \<longleftrightarrow>
     \<not> b7 \<and> b6 \<and> (b0 \<or> b1 \<or> b2 \<or> b3 \<or> b4) \<and> \<not> (b4 \<and> b3 \<and> (b2 \<or> b1 \<and> b0))"
  by (cases b0; cases b1; cases b2; cases b3; cases b4; cases b5; cases b6; cases b7) (simp_all add: sqlite3Isalpha_def)

lemma sqlite3Isalnum_code [code]:
  "sqlite3Isalnum (Char b0 b1 b2 b3 b4 b5 b6 b7) \<longleftrightarrow>
     sqlite3Isalpha (Char b0 b1 b2 b3 b4 b5 b6 b7) \<or> \<not> b7 \<and> \<not> b6 \<and> b5 \<and> b4 \<and> \<not> (b3 \<and> (b2 \<or> b1))"
  by (cases b0; cases b1; cases b2; cases b3; cases b4; cases b5; cases b6; cases b7) (simp_all add: sqlite3Isalnum_def sqlite3Isalpha_def)

definition start_cfg :: mc_config where
  "start_cfg = \<lparr>globalCipherCount = 0,
     globalCipherNameTable = ''global'' # replicate (CODEC_COUNT_MAX + 1) [],
     descriptorNames = replicate (CODEC_COUNT_MAX + 1) [],
     globalCodecParameterTable = globalCommonParams # replicate (CODEC_COUNT_MAX + 1) globalSentinelParams,
     clientParams = None, allocs = []\<rparr>"

fun register_all_cfg :: "nat \<Rightarrow> string list \<Rightarrow> CipherParams list list \<Rightarrow> int \<times> mc_config \<Rightarrow> (int \<times> mc_config) option" where
  "register_all_cfg ty (n # ns) (ps # pss) (rc, s) =
     (if rc \<noteq> SQLITE_OK then register_all_cfg (ty + 1) ns pss (rc, s)
      else case register_cfg n (with_sentinel ps) (ty = 3) s of
             None \<Rightarrow> None | Some x \<Rightarrow> register_all_cfg (ty + 1) ns pss x)"
| "register_all_cfg ty _ _ x = Some x"

lemma register_with_cfg:
  assumes "all_methods d" "d_name d = Some name"
  shows "map_option (\<lambda>(rc, r). (rc, reg_cfg r)) (sqlite3mcRegisterCipher (Some d) (Some qs) md r)
    = register_cfg name qs md (reg_cfg r)"
proof (cases "\<exists>ps. check_params (reg_cfg r) 64 qs = Some (Some ps)")
  case False
  then show ?thesis using assms by (auto simp: sqlite3mcRegisterCipher_def register_cfg_def split: option.splits)
next
  case True
  then obtain ps where Some: "check_params (reg_cfg r) 64 qs = Some (Some ps)" ..
  obtain ok s where m: "sqlite3_malloc (reg_cfg r) = (ok, s)" by (meson surj_pair)
  show ?thesis
    using assms Some
    by (cases "copy_names (length ps) (enter_cipher name ps s)")
      (simp_all add: sqlite3mcRegisterCipher_def register_cfg_def m Let_def)
qed

lemma register_all_with_cfg:
  "list_all2 (\<lambda>d n. all_methods d \<and> d_name d = Some n) ds ns \<Longrightarrow>
   map_option (\<lambda>(rc, r). (rc, reg_cfg r)) (register_all ty ds pss (rc, r)) = register_all_cfg ty ns pss (rc, reg_cfg r)"
proof (induction ty ns pss "(rc, reg_cfg r)" arbitrary: ds rc r rule: register_all_cfg.induct)
  case (1 ty n ns ps pss rc r)
  then obtain d ds' where ds: "ds = d # ds'" "all_methods d" "d_name d = Some n"
    "list_all2 (\<lambda>d n. all_methods d \<and> d_name d = Some n) ds' ns"
    by (auto simp: list_all2_Cons2)
  note reg = register_with_cfg [OF ds(2, 3), of "with_sentinel ps" "ty = 3" r, symmetric]
  show ?case
  proof (cases "sqlite3mcRegisterCipher (Some d) (Some (with_sentinel ps)) (ty = 3) r")
    case None
    then show ?thesis using 1(1) ds reg by (auto simp: ds(1))
  next
    case (Some x)
    obtain rc1 r1 where x: "x = (rc1, r1)" by (meson surj_pair)
    then have "register_cfg n (with_sentinel ps) (ty = 3) (reg_cfg r) = Some (rc1, reg_cfg r1)"
      using Some reg by simp
    then show ?thesis using 1(1, 2) ds(1, 4) Some x by simp
  qed
qed (auto simp: list_all2_Cons2)

definition builtin_cfg :: mc_config where
  "builtin_cfg = snd (the (register_all_cfg 1 (map fst builtin_ciphers) (map snd builtin_ciphers) (SQLITE_OK, start_cfg)))"

lemma builtin_cfg_ok:
  "register_all_cfg 1 (map fst builtin_ciphers) (map snd builtin_ciphers) (SQLITE_OK, start_cfg) = Some (SQLITE_OK, builtin_cfg)"
proof -
  have "map_option fst (register_all_cfg 1 (map fst builtin_ciphers) (map snd builtin_ciphers) (SQLITE_OK, start_cfg))
    = Some SQLITE_OK"
    by code_simp
  then show ?thesis unfolding builtin_cfg_def by auto
qed

lemma builtin_cfg_tables:
  "globalCipherCount builtin_cfg = 7"
  "take 7 (descriptorNames builtin_cfg) = map fst builtin_ciphers"
  "clientParams builtin_cfg = None" "allocs builtin_cfg = []"
  "map (\<lambda>e. map_option param_specs (c_params e)) (take 8 (globalCodecParameterTable builtin_cfg))
     = map (Some \<circ> param_specs) (commonParams # map snd builtin_ciphers)"
  "fst (sqlite3mcGetCipherType False builtin_cfg) = 3"
  by code_simp+

lemma mc_initialize_builtin:
  assumes "list_all2 (\<lambda>d (n, _). all_methods d \<and> d_name d = Some n) descs builtin_ciphers"
    and r0: "globalCipherCount (reg_cfg r0) = 0" "clientParams (reg_cfg r0) = None" "allocs (reg_cfg r0) = []"
  obtains r where "sqlite3mc_initialize descs vfs_rc commonParams r0 = Some (vfs_rc, r)" "reg_cfg r = builtin_cfg"
proof -
  define r1 where "r1 = snd (sqlite3mcInitCipherTables commonParams r0)"
  have r1: "sqlite3mcInitCipherTables commonParams r0 = (SQLITE_OK, r1)"
    by (simp add: r1_def sqlite3mcInitCipherTables_def)
  have cfg: "reg_cfg r1 = start_cfg"
    using r0 by (cases "reg_cfg r0") (simp add: r1_def sqlite3mcInitCipherTables_def start_cfg_def globalCommonParams_def)
  have "list_all2 (\<lambda>d n. all_methods d \<and> d_name d = Some n) descs (map fst builtin_ciphers)"
    using assms(1) by (simp add: list_all2_map2 list_all2_mono split_def)
  from register_all_with_cfg [OF this, of 1 "map snd builtin_ciphers" SQLITE_OK r1]
  have "map_option (\<lambda>(rc, r). (rc, reg_cfg r)) (register_all 1 descs (map snd builtin_ciphers) (SQLITE_OK, r1))
    = Some (SQLITE_OK, builtin_cfg)"
    unfolding cfg builtin_cfg_ok .
  then obtain r where "register_all 1 descs (map snd builtin_ciphers) (SQLITE_OK, r1) = Some (SQLITE_OK, r)"
    "reg_cfg r = builtin_cfg" by auto
  then show ?thesis by (intro that [of r]) (simp_all add: sqlite3mc_initialize_def r1)
qed


section \<open>Properties of the registry\<close>

text \<open>A start of the library with descriptors whose methods do nothing, for the witnesses.\<close>

definition idle_descriptor :: "string \<Rightarrow> unit CipherDescriptor" where
  "idle_descriptor name = \<lparr>d_name = Some name, m_allocateCipher = Some (\<lambda>_ s. Some (Some (), s)), m_freeCipher = Some id,
     m_cloneCipher = Some (\<lambda>_ c. c), m_getLegacy = Some (\<lambda>_. 0), m_getPageSize = Some (\<lambda>_. 0), m_getReserved = Some (\<lambda>_. 0),
     m_getSalt = Some (\<lambda>_. None), m_generateKey = Some (\<lambda>c _ _ _ g. Some (c, g)),
     m_encryptPage = Some (\<lambda>_ _ d _ g. Some (SQLITE_OK, d, g)), m_decryptPage = Some (\<lambda>_ _ d _ _. Some (SQLITE_OK, d))\<rparr>"

definition idle_registry :: "unit mc_registry" where
  "idle_registry = snd (the (sqlite3mc_initialize (map (idle_descriptor \<circ> fst) builtin_ciphers) SQLITE_OK commonParams
     \<lparr>reg_cfg = start_cfg, reg_desc = []\<rparr>))"

lemma idle_registry:
  "mc_reachable idle_registry" "reg_cfg idle_registry = builtin_cfg"
proof -
  have "list_all2 (\<lambda>d (n, _). all_methods d \<and> d_name d = Some n) (map (idle_descriptor \<circ> fst) builtin_ciphers) builtin_ciphers"
    by (simp add: builtin_ciphers_def all_methods_def idle_descriptor_def)
  then obtain r where r: "sqlite3mc_initialize (map (idle_descriptor \<circ> fst) builtin_ciphers) SQLITE_OK commonParams
     \<lparr>reg_cfg = start_cfg, reg_desc = []\<rparr> = Some (SQLITE_OK, r)" "reg_cfg r = builtin_cfg"
    by (rule mc_initialize_builtin [where vfs_rc = SQLITE_OK and ?r0.0 = "\<lparr>reg_cfg = start_cfg, reg_desc = []\<rparr>"])
      (simp_all add: start_cfg_def)
  then have "idle_registry = r" by (simp add: idle_registry_def)
  moreover have "mc_reachable r"
    by (rule mc_reachable.start [OF r(1)]) (simp_all add: builtin_ciphers_def start_cfg_def)
  ultimately show "mc_reachable idle_registry" "reg_cfg idle_registry = builtin_cfg" using r(2) by simp_all
qed

definition opened_cfg :: mc_config where
  "opened_cfg = snd (the (mcRegisterCodecExtensions SQLITE_OK builtin_cfg))"

definition opened_registry :: "unit mc_registry" where
  "opened_registry = idle_registry\<lparr>reg_cfg := opened_cfg\<rparr>"

lemma opened_registry: "mc_reachable opened_registry" "reg_cfg opened_registry = opened_cfg"
proof -
  have "map_option fst (mcRegisterCodecExtensions SQLITE_OK builtin_cfg) = Some SQLITE_OK" by code_simp
  then have "mcRegisterCodecExtensions SQLITE_OK (reg_cfg idle_registry) = Some (SQLITE_OK, opened_cfg)"
    by (auto simp: opened_cfg_def idle_registry(2))
  from mc_reachable.step [OF idle_registry(1) mc_step.open_connection [OF this]]
  show "mc_reachable opened_registry" unfolding opened_registry_def .
  show "reg_cfg opened_registry = opened_cfg" by (simp add: opened_registry_def)
qed

text \<open>
  A table of parameters with the entries \<open>names\<close> as the code relies on it: the common parameters first, then the ciphers by
  their numbers, each with its parameters, every value and default in the range of the parameter, and the sentinel behind them.
\<close>

definition parameter_table :: "string list \<Rightarrow> CodecParameter list \<Rightarrow> bool" where
  "parameter_table names t \<longleftrightarrow> (\<exists>rest. t = map (\<lambda>j. t ! j) [0..<length names] @ globalSentinelParams # rest)
     \<and> (\<forall>j < length names. c_name (t ! j) = names ! j \<and> names ! j \<noteq> [] \<and> c_id (t ! j) = int j
          \<and> (\<exists>ps. c_params (t ! j) = Some ps
               \<and> (\<forall>p \<in> set ps. p_name p \<noteq> [] \<and> p_value p \<in> {p_min p .. p_max p} \<and> p_default p \<in> {p_min p .. p_max p})))"

lemma parameter_table:
  assumes t: "table_wf True m t" and names: "\<forall>j \<le> m. c_name (t ! j) = names ! j" and m: "m < length names"
  shows "parameter_table (take (m + 1) names) t"
proof -
  have len: "length (take (m + 1) names) = m + 1" using m by simp
  have "t = take (m + 1) t @ t ! (m + 1) # drop (m + 2) t"
    using t id_take_nth_drop [of "m + 1" t] by (simp add: table_wf_def)
  moreover have "take (m + 1) t = map (\<lambda>j. t ! j) [0..<m + 1]"
    using t by (intro nth_equalityI) (auto simp: table_wf_def simp del: upt_Suc)
  moreover have "t ! (m + 1) = globalSentinelParams" using t by (simp add: table_wf_def)
  ultimately have split: "\<exists>rest. t = map (\<lambda>j. t ! j) [0..<m + 1] @ globalSentinelParams # rest" by metis
  have "c_name (t ! j) = names ! j \<and> names ! j \<noteq> [] \<and> c_id (t ! j) = int j
      \<and> (\<exists>ps. c_params (t ! j) = Some ps
          \<and> (\<forall>p \<in> set ps. p_name p \<noteq> [] \<and> p_value p \<in> {p_min p .. p_max p} \<and> p_default p \<in> {p_min p .. p_max p}))"
    if "j < m + 1" for j
  proof -
    have "entry_ok True j (t ! j)" "c_name (t ! j) = names ! j" using t names that by (simp_all add: table_wf_def)
    then show ?thesis by (auto simp: entry_ok_def params_ok_def param_ok_def in_range_def)
  qed
  with split show ?thesis unfolding parameter_table_def len by simp
qed

text \<open>
  C8. Whatever sequence of registrations, configuration calls, openings and closings of connections follows the initialisation: never more than 16 ciphers are
  registered, and their names differ also when capital and small letters are not told apart; the descriptor table holds
  exactly them, each with all its methods; the global table of parameters is well formed for the common entry and all of them, and that of a connection, if there is
  one, for those that were registered when it was made.
\<close>

theorem registry_invariant:
  assumes "mc_reachable r"
  shows "globalCipherCount (reg_cfg r) \<le> CODEC_COUNT_MAX
    \<and> (\<forall>i j. i < j \<longrightarrow> j < globalCipherCount (reg_cfg r) \<longrightarrow>
         \<not> stricmp (descriptorNames (reg_cfg r) ! i) (descriptorNames (reg_cfg r) ! j))
    \<and> (\<forall>k < globalCipherCount (reg_cfg r). all_methods (reg_desc r ! k) \<and> d_name (reg_desc r ! k) = Some (descriptorNames (reg_cfg r) ! k))
    \<and> (\<forall>k \<le> CODEC_COUNT_MAX. globalCipherCount (reg_cfg r) \<le> k \<longrightarrow> reg_desc r ! k = mcSentinelDescriptor)
    \<and> parameter_table (''global'' # take (globalCipherCount (reg_cfg r)) (descriptorNames (reg_cfg r))) (globalCodecParameterTable (reg_cfg r))
    \<and> (\<forall>t. clientParams (reg_cfg r) = Some t \<longrightarrow>
         (\<exists>m \<le> globalCipherCount (reg_cfg r). parameter_table (''global'' # take m (descriptorNames (reg_cfg r))) t))"
proof -
  let ?s = "reg_cfg r"
  have wf: "cfg_wf True ?s" and reg: "registry_wf True r"
    using mc_reachable_wf [OF assms] by (simp_all add: registry_wf_def)
  have names: "descriptorNames ?s ! k = globalCipherNameTable ?s ! Suc k" if "k < globalCipherCount ?s" for k
    using wf that by (simp add: cfg_wf_def)
  have all: "globalCipherNameTable ?s = ''global'' # descriptorNames ?s" and len: "globalCipherCount ?s < length (globalCipherNameTable ?s)"
    using wf by (auto simp: cfg_wf_def CODEC_COUNT_MAX_def neq_Nil_conv nth_Cons' hd_conv_nth intro: nth_equalityI split: if_splits)
  have table: "parameter_table (''global'' # take m (descriptorNames ?s)) t"
    if "m \<le> globalCipherCount ?s" "table_wf True m t" "\<forall>j \<le> m. c_name (t ! j) = globalCipherNameTable ?s ! j" for m t
    using parameter_table [OF that(2,3)] that(1) len by (simp add: all)
  have "parameter_table (''global'' # take (globalCipherCount ?s) (descriptorNames ?s)) (globalCodecParameterTable ?s)"
    using wf by (intro table) (simp_all add: cfg_wf_def)
  moreover have "\<exists>m \<le> globalCipherCount ?s. parameter_table (''global'' # take m (descriptorNames ?s)) t" if "clientParams ?s = Some t" for t
    using wf that table unfolding cfg_wf_def by metis
  ultimately show ?thesis using wf reg names by (simp add: cfg_wf_def registry_wf_def)
qed

theorem registry_invariant_witness:
  "mc_reachable idle_registry \<and> globalCipherCount (reg_cfg idle_registry) = 7
   \<and> globalCipherCount (reg_cfg idle_registry) \<le> CODEC_COUNT_MAX"
  using registry_invariant [OF idle_registry(1)] by (simp add: idle_registry builtin_cfg_tables)

text \<open>
  Whatever sequence of calls follows the initialisation, the value and the default of every
  parameter of every cipher, in the global table and in that of a connection, lie in the
  range of the parameter.
\<close>

lemma parameters_in_range:
  assumes "mc_reachable r" and "codec_params db (reg_cfg r) = Some t" and "e \<in> set t"
    and "c_params e = Some ps" and "p \<in> set ps"
  shows "p_value p \<in> {p_min p .. p_max p} \<and> p_default p \<in> {p_min p .. p_max p}"
proof -
  have "cfg_wf True (reg_cfg r)" using mc_reachable_wf [OF assms(1)] by (simp add: registry_wf_def)
  then obtain m where "table_wf True m t" by (rule cfg_wf_codec_params [OF _ assms(2)])
  moreover obtain j where "j < length t" "e = t ! j" using assms(3) by (auto simp: in_set_conv_nth)
  ultimately have "params_ok True j ps" using assms(4) by (auto intro: table_wf_params_ok)
  with assms(5) show ?thesis by (auto simp: params_ok_def param_ok_def in_range_def)
qed

lemma parameters_in_range_witness:
  "p_value (param ''kdf_iter'' 64007 1 0x7fffffff) \<in> {1 .. 0x7fffffff}"
proof -
  have c: "c_params (globalCodecParameterTable builtin_cfg ! 3) = Some mcChaCha20Params"
    "3 < length (globalCodecParameterTable builtin_cfg)" by code_simp+
  show ?thesis
    using parameters_in_range [OF idle_registry(1), of False "globalCodecParameterTable builtin_cfg"
        "globalCodecParameterTable builtin_cfg ! 3" mcChaCha20Params "param ''kdf_iter'' 64007 1 0x7fffffff"] c
    by (simp add: codec_params_def idle_registry mcChaCha20Params_def param_def)
qed

lemma descriptor_names:
  assumes "cfg_wf b s" "k < globalCipherCount s"
  shows "descriptorNames s ! k \<noteq> []" "length (descriptorNames s ! k) < CIPHER_NAME_MAXLEN"
    "k < length (descriptorNames s)" "\<And>i. i < k \<Longrightarrow> \<not> stricmp (descriptorNames s ! k) (descriptorNames s ! i)"
proof -
  let ?t = "globalCodecParameterTable s"
  have t: "table_wf b (globalCipherCount s) ?t" and len: "length ?t = 18"
    and count: "globalCipherCount s \<le> 16"
    and names: "descriptorNames s = drop 1 (map c_name ?t)"
    using assms by (auto simp: cfg_wf_def CODEC_COUNT_MAX_def)
  have nth: "descriptorNames s ! i = c_name (?t ! Suc i)" if "i \<le> k" for i
    using that names len count assms(2) by simp
  show "descriptorNames s ! k \<noteq> []" "length (descriptorNames s ! k) < CIPHER_NAME_MAXLEN"
    using t assms(2) nth [of k] by (auto simp: table_wf_def entry_ok_def)
  show "k < length (descriptorNames s)" using names len count assms(2) by simp
  show "\<not> stricmp (descriptorNames s ! k) (descriptorNames s ! i)" if "i < k" for i
    using assms that nth [of k] nth [of i] len count by (auto simp: cfg_wf_def dest: stricmp_sym)
qed

lemma cipher_index_name:
  assumes "cfg_wf b s" "k < globalCipherCount s" "stricmp n (descriptorNames s ! k)"
  shows "sqlite3mc_cipher_index n s = int k + 1"
proof -
  have "find_entry id n (take (globalCipherCount s) (descriptorNames s)) = Some k"
    by (rule find_entry_eq_Some)
      (use assms descriptor_names [OF assms(1)] in \<open>auto intro: order_less_le_trans dest: stricmp_trans [OF stricmp_sym]\<close>)
  then show ?thesis by (simp add: sqlite3mc_cipher_index_def sqlite3mcGetGlobalCipherCount_def)
qed

lemma find_cipher_name:
  assumes "cfg_wf b s" "k < globalCipherCount s"
  shows "sqlite3mcFindCipherName (int k + 1) s = Some (descriptorNames s ! k)"
proof -
  have *: "takeWhile (\<lambda>n. n \<noteq> []) (take (globalCipherCount s) (descriptorNames s)) = take (globalCipherCount s) (descriptorNames s)"
    using descriptor_names(1) [OF assms(1)] by (auto simp: takeWhile_eq_all_conv in_set_conv_nth)
  show ?thesis
    unfolding sqlite3mcFindCipherName_def sqlite3mcGetGlobalCipherCount_def Let_def *
    using assms descriptor_names(3) [OF assms] by (simp add: nat_add_distrib)
qed

text \<open>
  In every reachable state the number and the name of a registered cipher determine each
  other: \<^verbatim>\<open>sqlite3mc_cipher_index\<close> of \<^verbatim>\<open>sqlite3mc_cipher_name(i)\<close> is \<open>i\<close>, the static
  buffer of 32 characters cutting off nothing, and a copy into a buffer that is large enough
  is the same name.
\<close>

theorem cipher_name_index:
  assumes "mc_reachable r" and "1 \<le> i" and "i \<le> int (sqlite3mc_cipher_count (reg_cfg r))"
  shows "sqlite3mc_cipher_index (sqlite3mc_cipher_name i (reg_cfg r)) (reg_cfg r) = i
    \<and> sqlite3mc_cipher_name_copy i 32 (reg_cfg r) = (1, Some (sqlite3mc_cipher_name i (reg_cfg r)))"
proof -
  have wf: "cfg_wf True (reg_cfg r)" using mc_reachable_wf [OF assms(1)] by (simp add: registry_wf_def)
  obtain k where k: "i = int k + 1" "k < globalCipherCount (reg_cfg r)"
    using assms(2, 3) by (auto simp: sqlite3mc_cipher_count_def sqlite3mcGetGlobalCipherCount_def intro: that [of "nat (i - 1)"])
  note names = descriptor_names [OF wf k(2)] find_cipher_name [OF wf k(2)]
  have name: "sqlite3mc_cipher_name i (reg_cfg r) = descriptorNames (reg_cfg r) ! k"
    using names by (simp add: sqlite3mc_cipher_name_def k CIPHER_NAME_MAXLEN_def)
  with names cipher_index_name [OF wf k(2), of "descriptorNames (reg_cfg r) ! k"] show ?thesis
    by (simp add: k sqlite3mc_cipher_name_copy_def CIPHER_NAME_MAXLEN_def)
qed

theorem cipher_name_index_witness:
  "sqlite3mc_cipher_index (sqlite3mc_cipher_name 3 builtin_cfg) builtin_cfg = 3"
  using cipher_name_index [OF idle_registry(1), of 3]
  by (simp add: idle_registry builtin_cfg_tables sqlite3mc_cipher_count_def sqlite3mcGetGlobalCipherCount_def)


lemma count_make_default [simp]:
  "globalCipherCount (make_default s) = globalCipherCount s" "descriptorNames (make_default s) = descriptorNames s"
  by (simp_all add: make_default_def split: option.splits)

lemma make_default_type:
  assumes "cfg_wf b s"
  shows "fst (sqlite3mcGetCipherType False (make_default s)) = int (globalCipherCount s)"
proof -
  define t where "t = globalCodecParameterTable s"
  have t: "table_wf b (globalCipherCount s) t" and len: "0 < length t" using assms by (auto simp: cfg_wf_def t_def)
  obtain c h w where ps: "c_params (t ! 0) = Some [c, h, w]" and specs: "param_specs [c, h, w] = param_specs commonParams"
    by (rule common_entry [OF t])
  have c: "p_name c = ''cipher''" using specs by (simp add: param_specs_def commonParams_def)
  then have "make_default s = put_params False 0 [c\<lparr>p_value := int (globalCipherCount s), p_default := int (globalCipherCount s)\<rparr>, h, w] s"
    using ps by (simp add: make_default_def params_at_def codec_params_def t_def)
  then show ?thesis
    using len c
    by (simp add: sqlite3mcGetCipherType_def has_table_def params_at_def codec_params_def t_def [symmetric]
        put_params_def put_codec_params_def)
qed

lemma new_name:
  assumes "cfg_wf b s"
  shows "mcCheckValidName (Some name) s = SQLITE_OK \<longleftrightarrow> new_name s name"
proof -
  define n t where "n = globalCipherCount s" and "t = globalCipherNameTable s"
  have t: "n + 1 < length t" "\<forall>i \<le> n. t ! i \<noteq> []" "t ! (n + 1) = []"
    using assms by (auto simp: cfg_wf_def table_wf_def entry_ok_def CODEC_COUNT_MAX_def globalSentinelParams_def n_def t_def)
  have "find_entry id name t = None \<longleftrightarrow> (\<forall>i \<le> n. \<not> stricmp name (t ! i))"
  proof
    assume "find_entry id name t = None"
    then show "\<forall>i \<le> n. \<not> stricmp name (t ! i)"
      using find_entry_None [of id name t "n + 1"] t by (simp add: less_Suc_eq_le)
  next
    assume other: "\<forall>i \<le> n. \<not> stricmp name (t ! i)"
    show "find_entry id name t = None"
    proof (rule ccontr)
      assume "find_entry id name t \<noteq> None"
      then obtain k where k: "find_entry id name t = Some k" by blast
      note found = find_entry_Some [OF k]
      have "k \<le> n" using found t(3) by (cases "k \<le> n") (auto simp: not_le Suc_le_eq [symmetric])
      with found other show False by simp
    qed
  qed
  then show ?thesis
    by (cases name) (auto simp: mcCheckValidName_def new_name_def Let_def n_def t_def list_all_iff)
qed

text \<open>What a registration accepts: a complete descriptor with a new name, and an array of at most 63 parameters with a sentinel.\<close>

definition acceptable :: "'c CipherDescriptor option \<Rightarrow> CipherParams option list option \<Rightarrow> mc_config \<Rightarrow> string \<Rightarrow> CipherParams list \<Rightarrow> bool" where
  "acceptable desc params s name ps \<longleftrightarrow> (\<exists>d e rest. desc = Some d \<and> all_methods d \<and> d_name d = Some name \<and> new_name s name
     \<and> params = Some (map Some ps @ Some e # rest) \<and> p_name e = [] \<and> length ps < 64 \<and> (\<forall>p \<in> set ps. new_parameter s p))"

lemma new_parameter:
  "cfg_wf b s \<Longrightarrow> p_name p \<noteq> [] \<and> mcCheckValidName (Some (p_name p)) s = SQLITE_OK \<and> param_spec_ok p \<longleftrightarrow> new_parameter s p"
  by (auto simp: new_parameter_def new_name param_spec_ok_def) (auto simp: new_name_def)

lemma copied: "copy_names n (enter_cipher name ps s) \<noteq> None \<longleftrightarrow> memory_for n s"
  unfolding copy_names_defined by (rule memory_for_allocs) (simp add: enter_cipher_def Let_def)

lemma register_cipher_accepts:
  assumes "cfg_wf b (reg_cfg r)"
  shows "(\<exists>r'. sqlite3mcRegisterCipher desc params md r = Some (SQLITE_OK, r')) \<longleftrightarrow>
    (\<exists>name ps. acceptable desc params (reg_cfg r) name ps \<and> globalCipherCount (reg_cfg r) < CODEC_COUNT_MAX \<and> memory_for (length ps + 1) (reg_cfg r))"
    (is "?ok = (\<exists>name ps. ?acc name ps)")
proof
  assume ?ok
  then obtain r' where reg: "sqlite3mcRegisterCipher desc params md r = Some (SQLITE_OK, r')" ..
  from sqlite3mcRegisterCipher_cases [OF this] obtain d qs ps name where d: "desc = Some d" "params = Some qs" "all_methods d" "d_name d = Some name"
      "mcCheckValidName (Some name) (reg_cfg r) = SQLITE_OK" "check_params (reg_cfg r) 64 qs = Some (Some ps)"
      "globalCipherCount (reg_cfg r) < CODEC_COUNT_MAX" by auto
  have "memory_for 1 (reg_cfg r) \<and> copy_names (length ps) (enter_cipher name ps ((reg_cfg r)\<lparr>allocs := tl (allocs (reg_cfg r))\<rparr>)) \<noteq> None"
    using reg d by (auto simp: sqlite3mcRegisterCipher_def sqlite3_malloc_memory Let_def split: if_splits option.splits)
  then have "memory_for (length ps + 1) (reg_cfg r)"
    unfolding copied using memory_for_Suc [of "length ps" "reg_cfg r"] by simp
  moreover have "acceptable desc params (reg_cfg r) name ps"
    using d new_name [OF assms, of name] new_parameter [OF assms] unfolding acceptable_def check_params_Some by blast
  ultimately show "\<exists>name ps. ?acc name ps" using d(7) by blast
next
  assume "\<exists>name ps. ?acc name ps"
  then obtain name ps where acc: "acceptable desc params (reg_cfg r) name ps" and count: "globalCipherCount (reg_cfg r) < CODEC_COUNT_MAX"
    and memory: "memory_for (length ps + 1) (reg_cfg r)" by blast
  from acc obtain d qs where d: "desc = Some d" "params = Some qs" "all_methods d" "d_name d = Some name"
      "mcCheckValidName (Some name) (reg_cfg r) = SQLITE_OK" "check_params (reg_cfg r) 64 qs = Some (Some ps)"
    using new_name [OF assms, of name] new_parameter [OF assms] unfolding acceptable_def check_params_Some by blast
  have m: "memory_for 1 (reg_cfg r)" "memory_for (length ps) ((reg_cfg r)\<lparr>allocs := tl (allocs (reg_cfg r))\<rparr>)"
    using memory memory_for_Suc [of "length ps" "reg_cfg r"] by simp_all
  then obtain s2 where "copy_names (length ps) (enter_cipher name ps ((reg_cfg r)\<lparr>allocs := tl (allocs (reg_cfg r))\<rparr>)) = Some s2"
    using copied by blast
  then show ?ok using d m(1) count by (simp add: sqlite3mcRegisterCipher_def sqlite3_malloc_memory Let_def)
qed

lemma registration_effect:
  assumes "mc_reachable r" and reg: "sqlite3mcRegisterCipher desc params makeDefault r = Some (rc, r')"
  shows "if rc = SQLITE_OK then
      globalCipherCount (reg_cfg r') = globalCipherCount (reg_cfg r) + 1
      \<and> (\<exists>d name ps. desc = Some d \<and> acceptable desc params (reg_cfg r) name ps
           \<and> sqlite3mc_cipher_index name (reg_cfg r') = int (globalCipherCount (reg_cfg r'))
           \<and> c_params (globalCodecParameterTable (reg_cfg r') ! globalCipherCount (reg_cfg r')) = Some ps
           \<and> reg_desc r' ! globalCipherCount (reg_cfg r) = d)
      \<and> (makeDefault \<longrightarrow> fst (sqlite3mcGetCipherType False (reg_cfg r')) = int (globalCipherCount (reg_cfg r')))
    else r' = r\<lparr>reg_cfg := (reg_cfg r)\<lparr>allocs := allocs (reg_cfg r')\<rparr>\<rparr>"
proof -
  note reg = assms(2) [unfolded sqlite3mc_register_cipher_def]
  have wf: "registry_wf True r" "registry_wf True r'"
    using mc_reachable_wf [OF assms(1)] register_cipher_wf [OF mc_reachable_wf [OF assms(1)] reg] by simp_all
  show ?thesis
    using sqlite3mcRegisterCipher_cases [OF reg]
  proof (elim disjE exE conjE)
    fix a
    assume "rc \<noteq> SQLITE_OK" "r' = r\<lparr>reg_cfg := (reg_cfg r)\<lparr>allocs := a\<rparr>\<rparr>"
    then show ?thesis by simp
  next
    fix d qs ps name a s
    assume rc: "rc = SQLITE_OK" and d: "desc = Some d" "d_name d = Some name" and methods: "all_methods d" and qs: "params = Some qs"
      and count: "globalCipherCount (reg_cfg r) < CODEC_COUNT_MAX"
      and s: "s = (enter_cipher name ps (reg_cfg r))\<lparr>allocs := a\<rparr>"
      and checks: "mcCheckValidName (Some name) (reg_cfg r) = SQLITE_OK" "check_params (reg_cfg r) 64 qs = Some (Some ps)"
      and r': "r' = r\<lparr>reg_cfg := if makeDefault then make_default s else s,
                  reg_desc := (reg_desc r)[globalCipherCount (reg_cfg r) := d]\<rparr>"
    define n where "n = globalCipherCount (reg_cfg r)"
    have count': "globalCipherCount (reg_cfg r') = n + 1" "descriptorNames (reg_cfg r') = (descriptorNames (reg_cfg r))[n := name]"
      by (simp_all add: r' s enter_cipher_def Let_def n_def)
    have cfg: "cfg_wf True (reg_cfg r')" "cfg_wf True (reg_cfg r)" using wf by (simp_all add: registry_wf_def)
    then have "length (descriptorNames (reg_cfg r)) = 17" by (simp add: cfg_wf_def CODEC_COUNT_MAX_def)
    then have "descriptorNames (reg_cfg r') ! n = name" using count by (simp add: count' n_def CODEC_COUNT_MAX_def)
    then have "sqlite3mc_cipher_index name (reg_cfg r') = int n + 1"
      using cipher_index_name [OF cfg(1), of n name] by (simp add: count')
    moreover have "reg_desc r' ! n = d"
      using wf(1) count by (simp add: r' n_def registry_wf_def)
    moreover have "fst (sqlite3mcGetCipherType False (reg_cfg r')) = int n + 1" if makeDefault
    proof -
      have "cfg_wf True s"
        unfolding s cfg_wf_allocs
        by (rule enter_cipher_wf [OF cfg(2) count mcCheckValidName_OK [OF checks(1)] check_params_ok [OF checks(2)]])
      from make_default_type [OF this] that show ?thesis
        by (simp add: r' s enter_cipher_def Let_def n_def)
    qed
    moreover have "acceptable desc params (reg_cfg r) name ps"
      using d methods qs checks new_name [OF cfg(2), of name] new_parameter [OF cfg(2)] unfolding acceptable_def check_params_Some by blast
    moreover have "c_params (globalCodecParameterTable (reg_cfg r') ! (n + 1)) = Some ps"
    proof -
      have "globalCodecParameterTable (make_default u) ! Suc k = globalCodecParameterTable u ! Suc k" for u k
        by (simp add: make_default_def put_params_def put_codec_params_def codec_params_def split: option.splits)
      moreover have "length (globalCodecParameterTable (reg_cfg r)) = 18" using cfg(2) by (simp add: cfg_wf_def CODEC_COUNT_MAX_def)
      ultimately show ?thesis using count by (simp add: r' s enter_cipher_def Let_def n_def CODEC_COUNT_MAX_def)
    qed
    ultimately show ?thesis using rc d count' by (auto simp: n_def [symmetric])
  qed
qed

text \<open>
  C10. A registration succeeds exactly when the descriptor has all its methods, its name and those of the parameters are valid and
  not yet taken by a cipher, the parameters have valid ranges, values and a sentinel, the table has a free place and the memory for the parameters and their names can be
  allocated. Then the count grows by one, the name of the
  descriptor is found at the new number, its methods and the parameters are entered there, and a cipher
  registered as default is what a connection without a choice of its own gets. When it
  fails, nothing changes but the state of the allocator.
\<close>

theorem register_cipher_outcome:
  assumes "mc_reachable r"
  shows "((\<exists>r'. sqlite3mc_register_cipher desc params makeDefault r = Some (SQLITE_OK, r')) \<longleftrightarrow>
      (\<exists>name ps. acceptable desc params (reg_cfg r) name ps \<and> globalCipherCount (reg_cfg r) < CODEC_COUNT_MAX
         \<and> memory_for (length ps + 1) (reg_cfg r)))
    \<and> (\<forall>rc r'. sqlite3mc_register_cipher desc params makeDefault r = Some (rc, r') \<longrightarrow>
      (if rc = SQLITE_OK then
        globalCipherCount (reg_cfg r') = globalCipherCount (reg_cfg r) + 1
        \<and> (\<exists>d name ps. desc = Some d \<and> acceptable desc params (reg_cfg r) name ps
             \<and> sqlite3mc_cipher_index name (reg_cfg r') = int (globalCipherCount (reg_cfg r'))
             \<and> c_params (globalCodecParameterTable (reg_cfg r') ! globalCipherCount (reg_cfg r')) = Some ps
             \<and> reg_desc r' ! globalCipherCount (reg_cfg r) = d)
        \<and> (makeDefault \<longrightarrow> fst (sqlite3mcGetCipherType False (reg_cfg r')) = int (globalCipherCount (reg_cfg r')))
      else r' = r\<lparr>reg_cfg := (reg_cfg r)\<lparr>allocs := allocs (reg_cfg r')\<rparr>\<rparr>))"
proof -
  have "cfg_wf True (reg_cfg r)" using mc_reachable_wf [OF assms] by (simp add: registry_wf_def)
  from register_cipher_accepts [OF this, of desc params makeDefault] show ?thesis
    unfolding sqlite3mc_register_cipher_def using registration_effect [OF assms] by blast
qed

theorem register_cipher_outcome_witness:
  "\<exists>r'. sqlite3mc_register_cipher (Some (idle_descriptor ''xor'')) (Some [Some (param [] 0 0 0)]) False idle_registry
      = Some (SQLITE_OK, r') \<and> globalCipherCount (reg_cfg r') = 8"
proof -
  have "map_option fst (register_cfg ''xor'' [Some (param [] 0 0 0)] False builtin_cfg) = Some SQLITE_OK"
    by code_simp
  moreover have "all_methods (idle_descriptor ''xor'')" "d_name (idle_descriptor ''xor'') = Some ''xor''"
    by (simp_all add: all_methods_def idle_descriptor_def)
  ultimately obtain r' where r': "sqlite3mc_register_cipher (Some (idle_descriptor ''xor'')) (Some [Some (param [] 0 0 0)])
      False idle_registry = Some (SQLITE_OK, r')"
    using register_with_cfg [of "idle_descriptor ''xor''" "''xor''" "[Some (param [] 0 0 0)]" False idle_registry]
    by (auto simp: sqlite3mc_register_cipher_def idle_registry)
  from register_cipher_outcome [OF idle_registry(1), of "Some (idle_descriptor ''xor'')" "Some [Some (param [] 0 0 0)]" False] r' show ?thesis
    by (auto simp: idle_registry builtin_cfg_tables)
qed


text \<open>
  As long as memory lasts, \<^verbatim>\<open>sqlite3mc_initialize\<close> succeeds for any descriptors with the built-in
  names and all methods: the seven ciphers are registered under the numbers 1 to 7 in their order, and
  ChaCha20, number 3, is the default.
\<close>

theorem initialize_registers_builtin:
  assumes "list_all2 (\<lambda>d (n, _). all_methods d \<and> d_name d = Some n) descs builtin_ciphers"
    and "globalCipherCount (reg_cfg r0) = 0" "clientParams (reg_cfg r0) = None" "allocs (reg_cfg r0) = []"
  shows "\<exists>r. sqlite3mc_initialize descs vfs_rc commonParams r0 = Some (vfs_rc, r)
    \<and> sqlite3mc_cipher_count (reg_cfg r) = 7
    \<and> map (\<lambda>i. sqlite3mc_cipher_name i (reg_cfg r)) [1..7] = map fst builtin_ciphers
    \<and> fst (sqlite3mcGetCipherType False (reg_cfg r)) = sqlite3mc_cipher_index ''ChaCha20'' (reg_cfg r)"
proof -
  obtain r where r: "sqlite3mc_initialize descs vfs_rc commonParams r0 = Some (vfs_rc, r)" "reg_cfg r = builtin_cfg"
    by (rule mc_initialize_builtin [OF assms])
  have "map (\<lambda>i. sqlite3mc_cipher_name i builtin_cfg) [1..7] = map fst builtin_ciphers" by code_simp
  moreover have "sqlite3mc_cipher_index ''ChaCha20'' builtin_cfg = 3" by code_simp
  moreover have "sqlite3mc_cipher_count builtin_cfg = 7" by code_simp
  ultimately show ?thesis using r builtin_cfg_tables(6) by auto
qed

theorem initialize_registers_builtin_witness:
  "\<exists>r. sqlite3mc_initialize (map (idle_descriptor \<circ> fst) builtin_ciphers) SQLITE_OK commonParams
      \<lparr>reg_cfg = start_cfg, reg_desc = []\<rparr> = Some (SQLITE_OK, r) \<and> sqlite3mc_cipher_count (reg_cfg r) = 7"
  using initialize_registers_builtin [of "map (idle_descriptor \<circ> fst) builtin_ciphers"
      "\<lparr>reg_cfg = start_cfg, reg_desc = []\<rparr>" SQLITE_OK]
  by (fastforce simp: builtin_ciphers_def all_methods_def idle_descriptor_def start_cfg_def)

section \<open>Properties of the parameters\<close>

lemma params_at_put [simp]:
  "params_at db j s = Some ps \<Longrightarrow> codec_params db s = Some t \<Longrightarrow> j < length t \<Longrightarrow>
     params_at db j (put_params db j ps' s) = Some ps'"
  by (simp add: params_at_def)

lemma find_entry_update [simp]:
  "k < length xs \<Longrightarrow> nm x = nm (xs ! k) \<Longrightarrow> find_entry nm s (xs[k := x]) = find_entry nm s xs"
proof (induction xs arbitrary: k)
  case (Cons y xs)
  then show ?case by (cases k) auto
qed simp

text \<open>
  C9. A parameter of a cipher that is set on a connection is used once: the cipher that is
  allocated next reads the new value, and every one after it reads the default, which the call
  changed only if it was asked to.
\<close>

theorem config_cipher_one_shot:
  assumes "mc_reachable r" and "codec_params True (reg_cfg r) = Some t"
    and "find_entry c_name cipherName t = Some j" and "c_params (t ! j) = Some ps"
    and "strip_prefixes pn = (hasDefault, False, False, paramName)"
    and "find_entry p_name paramName ps = Some k"
    and "v \<in> {p_min (ps ! k) .. p_max (ps ! k)}" and "checkParameterValue paramName v cipherName"
    and "\<not> is_sqlcipher_legacy cipherName paramName False False v"
  shows "\<exists>s1 s2 s3. sqlite3mc_config_cipher True (Some cipherName) (Some pn) v (reg_cfg r) = (v, s1)
    \<and> read_parameter (True, j) paramName s1 = Some (v, s2)
    \<and> read_parameter (True, j) paramName s2 = Some (if hasDefault then v else p_default (ps ! k), s3)"
proof -
  define s where "s = reg_cfg r"
  have wf: "cfg_wf True s" using mc_reachable_wf [OF assms(1)] by (simp add: registry_wf_def s_def)
  note t = assms(2) [folded s_def]
  have j: "j < length t" by (rule find_entry_less [OF assms(3)])
  have k: "k < length ps" by (rule find_entry_less [OF assms(6)])
  have at: "params_at True j s = Some ps" using t assms(4) by (simp add: params_at_Some)
  obtain m where "table_wf True m t" by (rule cfg_wf_codec_params [OF wf t])
  then have "params_ok True j ps" using j assms(4) by (rule table_wf_params_ok)
  then have "param_ok (ps ! k)" using k by (simp add: params_ok_def)
  then have v: "0 \<le> v" "in_range v (ps ! k)" using assms(7) by (auto simp: param_ok_def in_range_def)
  define p where "p = param_set hasDefault v (ps ! k)"
  have p: "p_name p = p_name (ps ! k)" "p_value p = v" "p_default p = (if hasDefault then v else p_default (ps ! k))"
    by (simp_all add: p_def param_set_def)
  define s1 where "s1 = put_params True j (ps[k := p]) s"
  have set: "sqlite3mc_config_cipher True (Some cipherName) (Some pn) v s = (v, s1)"
    using t assms(3-6,8,9) at v
    by (simp add: sqlite3mc_config_cipher_def config_cipher_with_def config_cipher_param_def s1_def p_def)
  have t1: "codec_params True s1 = Some (t[j := (t ! j)\<lparr>c_params := Some (ps[k := p])\<rparr>])"
    using t by (simp add: s1_def)
  have at1: "params_at True j s1 = Some (ps[k := p])" using t at j by (simp add: s1_def)
  define q where "q = p\<lparr>p_value := p_default p\<rparr>"
  define s2 where "s2 = put_params True j (ps[k := q]) s1"
  have read1: "read_parameter (True, j) paramName s1 = Some (v, s2)"
    using at1 k assms(6) p by (simp add: read_parameter_def sqlite3mcGetCipherParameter_def s2_def q_def)
  have at2: "params_at True j s2 = Some (ps[k := q])" using at1 t1 j by (simp add: s2_def)
  have "read_parameter (True, j) paramName s2 = Some (p_default p, put_params True j (ps[k := q\<lparr>p_value := p_default q\<rparr>]) s2)"
    using at2 k assms(6) p by (simp add: read_parameter_def sqlite3mcGetCipherParameter_def q_def)
  with set read1 p show ?thesis unfolding s_def by auto
qed

text \<open>The connection of the witnesses.\<close>

lemma opened_cfg_tables:
  "codec_params True opened_cfg = Some (the (clientParams opened_cfg))"
  "find_entry c_name ''chacha20'' (the (clientParams opened_cfg)) = Some 3"
  "c_params (the (clientParams opened_cfg) ! 3) = Some mcChaCha20Params"
  "find_entry c_name ''sqlcipher'' (the (clientParams opened_cfg)) = Some 4"
  "c_params (the (clientParams opened_cfg) ! 4) = Some mcSQLCipherParams"
  "globalCipherCount opened_cfg = 7"
  by code_simp+

theorem config_cipher_one_shot_witness:
  "\<exists>s1 s2 s3. sqlite3mc_config_cipher True (Some ''chacha20'') (Some ''KDF_iter'') 1000 opened_cfg = (1000, s1)
    \<and> read_parameter (True, 3) ''KDF_iter'' s1 = Some (1000, s2)
    \<and> read_parameter (True, 3) ''KDF_iter'' s2 = Some (64007, s3)"
proof -
  have "strip_prefixes ''KDF_iter'' = (False, False, False, ''KDF_iter'')"
    "find_entry p_name ''KDF_iter'' mcChaCha20Params = Some 2"
    "checkParameterValue ''KDF_iter'' 1000 ''chacha20''"
    "is_sqlcipher_legacy ''chacha20'' ''KDF_iter'' False False 1000 = False"
    by code_simp+
  with config_cipher_one_shot [OF opened_registry(1), unfolded opened_registry(2), OF opened_cfg_tables(1-3),
      of "''KDF_iter''" False "''KDF_iter''" 2 1000]
  show ?thesis by (simp add: mcChaCha20Params_def param_def)
qed

text \<open>
  C11. The entry of the common parameters can be addressed as a cipher named \<^verbatim>\<open>global\<close>, which evades the
  checks of \<^verbatim>\<open>sqlite3mc_config\<close>: a number above the count of the registered ciphers is
  accepted as the cipher of the connection, although its descriptor has no methods.
\<close>

theorem global_entry_evades_checks:
  assumes "mc_reachable r" and "clientParams (reg_cfg r) \<noteq> None"
    and "int (globalCipherCount (reg_cfg r)) < v" and "v \<le> 16"
  shows "snd (sqlite3mc_config True (Some ''cipher'') v (reg_cfg r)) = reg_cfg r
    \<and> (\<exists>s. sqlite3mc_config_cipher True (Some ''global'') (Some ''cipher'') v (reg_cfg r) = (v, s)
         \<and> fst (sqlite3mcGetCipherType True s) = v)
    \<and> m_allocateCipher (reg_desc r ! (nat v - 1)) = None"
proof -
  define s where "s = reg_cfg r"
  have wf: "cfg_wf True s" and reg: "registry_wf True r"
    using mc_reachable_wf [OF assms(1)] by (simp_all add: registry_wf_def s_def)
  obtain t where t: "codec_params True s = Some t" using assms(2) by (auto simp: codec_params_def s_def)
  obtain m where m: "table_wf True m t" "\<forall>j \<le> m. c_name (t ! j) = globalCipherNameTable s ! j"
    by (rule cfg_wf_codec_params [OF wf t])
  obtain c h w where ps: "c_params (t ! 0) = Some [c, h, w]" and specs: "param_specs [c, h, w] = param_specs commonParams"
    by (rule common_entry [OF m(1)])
  have c: "p_name c = ''cipher''" "p_min c = 1" "p_max c = 16" using specs by (simp_all add: param_specs_def commonParams_def)
  have len: "0 < length t" using m(1) by (auto simp: table_wf_def)
  have name: "c_name (t ! 0) = ''global''" using wf m by (auto simp: cfg_wf_def table_wf_def)
  then have find: "find_entry c_name ''global'' t = Some 0" using len by (cases t) simp_all
  have at: "params_at True 0 s = Some [c, h, w]" using t ps by (simp add: params_at_Some)
  have strip: "strip_prefixes ''cipher'' = (False, False, False, ''cipher'')"
    "checkParameterValue ''cipher'' v ''global''" "\<not> is_sqlcipher_legacy ''global'' ''cipher'' False False v"
    by (simp_all add: strip_prefixes_def strip_def has_prefix_def stricmp_def ascii_lower_def char_of_def
        checkParameterValue_def is_sqlcipher_legacy_def)
  have "snd (sqlite3mc_config True (Some ''cipher'') v s) = s"
    using at c strip assms(3) by (simp add: sqlite3mc_config_def sqlite3mcGetGlobalCipherCount_def s_def Let_def)
  moreover define s1 where "s1 = put_params True 0 [c\<lparr>p_value := v\<rparr>, h, w] s"
  have "sqlite3mc_config_cipher True (Some ''global'') (Some ''cipher'') v s = (v, s1)"
    using t find ps at c strip assms(3, 4)
    by (simp add: sqlite3mc_config_cipher_def config_cipher_with_def config_cipher_param_def s1_def in_range_def param_set_def)
  moreover have "fst (sqlite3mcGetCipherType True s1) = v"
  proof -
    have "clientParams s1 \<noteq> None" using t by (simp add: s1_def put_params_def put_codec_params_def codec_params_def)
    moreover have "params_at True 0 s1 = Some [c\<lparr>p_value := v\<rparr>, h, w]" using at t len by (simp add: s1_def)
    ultimately show ?thesis using c by (simp add: sqlite3mcGetCipherType_def has_table_def)
  qed
  moreover have "reg_desc r ! (nat v - 1) = mcSentinelDescriptor"
    using reg assms(3, 4) by (simp add: registry_wf_def CODEC_COUNT_MAX_def)
  ultimately show ?thesis by (simp add: s_def mcSentinelDescriptor_def)
qed

theorem global_entry_evades_checks_witness:
  "\<exists>s. sqlite3mc_config_cipher True (Some ''global'') (Some ''cipher'') 12 opened_cfg = (12, s)
     \<and> fst (sqlite3mcGetCipherType True s) = 12"
  using global_entry_evades_checks [OF opened_registry(1), of 12] opened_cfg_tables(1, 6)
  by (auto simp: opened_registry(2) codec_params_def)


text \<open>The legacy versions of SQLCipher.\<close>

lemma find_entry_specs: "find_entry p_name n ps = find_entry fst n (param_specs ps)"
  unfolding param_specs_def by (induction ps) simp_all

lemma put_params_put_params:
  "codec_params db s = Some t \<Longrightarrow> put_params db j ps (put_params db j ps' s) = put_params db j ps s"
  by (cases s; cases "j < length t")
    (auto simp: put_params_def put_codec_params_def codec_params_def list_update_beyond split: if_splits)

lemma config_sqlcipher_param:
  assumes t: "codec_params True s = Some t" "find_entry c_name ''sqlcipher'' t = Some j"
    and ps: "param_specs ps = param_specs Q" "find_entry fst n (param_specs Q) = Some k" "k < length Q"
    and v: "p_min (Q ! k) \<le> v" "v \<le> p_max (Q ! k)" "0 \<le> v" "checkParameterValue n v ''sqlcipher''"
    and n: "strip_prefixes pn = (d, False, False, n)"
  shows "config_cipher_with (\<lambda>_ _ s. s) True (Some ''sqlcipher'') (Some pn) v (put_params True j ps s)
    = (v, put_params True j (ps[k := param_set d v (ps ! k)]) s)"
proof -
  define u where "u = put_params True j ps s"
  have j: "j < length t" by (rule find_entry_less [OF t(2)])
  have u: "codec_params True u = Some (t[j := (t ! j)\<lparr>c_params := Some ps\<rparr>])"
    using t by (simp add: u_def)
  have at: "params_at True j u = Some ps" using u j by (simp add: params_at_Some)
  have find: "find_entry c_name ''sqlcipher'' (t[j := (t ! j)\<lparr>c_params := Some ps\<rparr>]) = Some j"
    using j t(2) by simp
  have find': "find_entry p_name n ps = Some k" using ps by (simp add: find_entry_specs)
  have len: "length ps = length Q" using arg_cong [OF ps(1), of length] by (simp add: param_specs_def)
  have "in_range v (ps ! k)"
    using arg_cong [OF ps(1), of "\<lambda>xs. xs ! k"] ps(3) len v by (simp add: param_specs_def in_range_def)
  then have "config_cipher_with (\<lambda>_ _ s. s) True (Some ''sqlcipher'') (Some pn) v u
    = (v, put_params True j (ps[k := param_set d v (ps ! k)]) u)"
    using u at find find' v n j by (simp add: config_cipher_with_def config_cipher_param_def)
  then show ?thesis using t by (simp add: u_def put_params_put_params)
qed

text \<open>The parameters as a version leaves them; the five that it determines, and the version itself.\<close>

definition sqlcipher_version_params :: "bool \<Rightarrow> int \<Rightarrow> CipherParams list \<Rightarrow> CipherParams list" where
  "sqlcipher_version_params d v ps =
     (case sqlcipher_versionParams ! nat (v - 1) of [a, b, c, e, f] \<Rightarrow>
        ps[1 := param_set d a (ps ! 1), 2 := param_set d b (ps ! 2), 4 := param_set d c (ps ! 4),
           7 := param_set d e (ps ! 7), 8 := param_set d f (ps ! 8)])"

lemma sqlcipher_param_positions:
  "find_entry fst ''legacy_page_size'' (param_specs mcSQLCipherParams) = Some 1"
  "find_entry fst ''kdf_iter'' (param_specs mcSQLCipherParams) = Some 2"
  "find_entry fst ''hmac_use'' (param_specs mcSQLCipherParams) = Some 4"
  "find_entry fst ''kdf_algorithm'' (param_specs mcSQLCipherParams) = Some 7"
  "find_entry fst ''hmac_algorithm'' (param_specs mcSQLCipherParams) = Some 8"
  "find_entry fst ''legacy'' (param_specs mcSQLCipherParams) = Some 0"
  by code_simp+

definition version_name :: "bool \<Rightarrow> string \<Rightarrow> string" where
  "version_name d n = (if d then ''default:'' @ n else n)"

lemma version_names:
  "(if d then sqlcipher_defNames else sqlcipher_stdNames) = map (version_name d) sqlcipher_stdNames"
  by (simp add: version_name_def sqlcipher_defNames_def sqlcipher_stdNames_def)

lemma version_name_strip:
  "n \<in> set sqlcipher_stdNames \<Longrightarrow> strip_prefixes (version_name d n) = (d, False, False, n)"
proof -
  have "\<forall>n \<in> set sqlcipher_stdNames. strip_prefixes (version_name d n) = (d, False, False, n)"
    by (cases d; simp only:) code_simp+
  then show "n \<in> set sqlcipher_stdNames \<Longrightarrow> ?thesis" by blast
qed

lemma length_specs: "param_specs ps = param_specs qs \<Longrightarrow> length ps = length qs"
  by (drule arg_cong [of _ _ length]) (simp add: param_specs_def)

text \<open>The five values of a row are in range and pass the check.\<close>

definition row_ok :: "int list \<Rightarrow> bool" where
  "row_ok vs \<longleftrightarrow> list_all2 (\<lambda>(n, k) v. 0 \<le> v \<and> in_range v (mcSQLCipherParams ! k) \<and> checkParameterValue n v ''sqlcipher''
     \<and> find_entry fst n (param_specs mcSQLCipherParams) = Some k \<and> k < length mcSQLCipherParams
     \<and> n \<in> set sqlcipher_stdNames) (zip sqlcipher_stdNames [1, 2, 4, 7, 8]) vs"

lemma rows_ok: "\<forall>vs \<in> set sqlcipher_versionParams. row_ok vs"
  by code_simp

lemma configure_row_step:
  assumes t: "codec_params True s = Some t" "find_entry c_name ''sqlcipher'' t = Some j"
    and qs: "param_specs qs = param_specs mcSQLCipherParams"
    and v: "0 \<le> v" "in_range v (mcSQLCipherParams ! k)" "checkParameterValue n v ''sqlcipher''"
    and n: "find_entry fst n (param_specs mcSQLCipherParams) = Some k" "k < length mcSQLCipherParams"
      "n \<in> set sqlcipher_stdNames"
  shows "snd (config_cipher_with (\<lambda>_ _ s. s) True (Some ''sqlcipher'') (Some (version_name d n)) v (put_params True j qs s))
      = put_params True j (qs[k := param_set d v (qs ! k)]) s"
    and "param_specs (qs[k := param_set d v (qs ! k)]) = param_specs mcSQLCipherParams"
  using config_sqlcipher_param [OF t qs n(1, 2) _ _ v(1) v(3) version_name_strip [OF n(3)]] v(2) n(2) qs length_specs [OF qs]
  by (simp_all add: in_range_def param_specs_set)

lemma configure_row:
  assumes t: "codec_params True s = Some t" "find_entry c_name ''sqlcipher'' t = Some j"
  shows "list_all2 (\<lambda>(n, k) v. 0 \<le> v \<and> in_range v (mcSQLCipherParams ! k) \<and> checkParameterValue n v ''sqlcipher''
       \<and> find_entry fst n (param_specs mcSQLCipherParams) = Some k \<and> k < length mcSQLCipherParams
       \<and> n \<in> set sqlcipher_stdNames) (zip ns ks) vs \<Longrightarrow> length ks = length ns
    \<Longrightarrow> param_specs qs = param_specs mcSQLCipherParams
    \<Longrightarrow> foldl (\<lambda>s (name, value). snd (config_cipher_with (\<lambda>_ _ s. s) True (Some ''sqlcipher'') (Some name) value s))
          (put_params True j qs s) (zip (map (version_name d) ns) vs)
        = put_params True j (foldl (\<lambda>qs (k, v). qs[k := param_set d v (qs ! k)]) qs (zip ks vs)) s"
proof (induction ns arbitrary: ks vs qs)
  case (Cons n ns)
  then obtain k ks' v vs' where kv: "ks = k # ks'" "vs = v # vs'"
    by (cases ks; cases vs) auto
  note step = configure_row_step [OF t Cons.prems(3), of v k n d]
  from Cons.prems(1) kv have n: "0 \<le> v" "in_range v (mcSQLCipherParams ! k)" "checkParameterValue n v ''sqlcipher''"
    "find_entry fst n (param_specs mcSQLCipherParams) = Some k" "k < length mcSQLCipherParams" "n \<in> set sqlcipher_stdNames"
    by auto
  from Cons.IH [of ks' vs' "qs[k := param_set d v (qs ! k)]"] Cons.prems(1, 2) step [OF n] kv
  show ?case by simp
qed simp

lemma configure_sqlcipher_version:
  assumes t: "codec_params True s = Some t" "find_entry c_name ''sqlcipher'' t = Some j"
    and ps: "param_specs ps = param_specs mcSQLCipherParams" and v: "1 \<le> v" "v \<le> 4"
  shows "sqlite3mcConfigureSQLCipherVersion True d v (put_params True j ps s)
    = put_params True j (foldl (\<lambda>qs (k, a). qs[k := param_set d a (qs ! k)]) ps
        (zip [1, 2, 4, 7, 8] (sqlcipher_versionParams ! nat (v - 1)))) s"
proof -
  have "sqlcipher_versionParams ! nat (v - 1) \<in> set sqlcipher_versionParams"
    using v by (intro nth_mem) (simp add: sqlcipher_versionParams_def nat_less_iff)
  then have "row_ok (sqlcipher_versionParams ! nat (v - 1))" using rows_ok by blast
  from configure_row [OF t this [unfolded row_ok_def] _ ps, of d] v show ?thesis
    by (simp add: sqlite3mcConfigureSQLCipherVersion_def SQLCIPHER_VERSION_MAX_def Let_def version_names
        sqlcipher_stdNames_def)
qed


text \<open>The mutual recursion of the code: no parameter that a version sets is the version itself.\<close>

lemma config_cipher_with_other:
  "strip_prefixes pn = (d, mi, ma, n) \<Longrightarrow> \<not> stricmp n ''legacy'' \<Longrightarrow>
     config_cipher_with f db (Some c) (Some pn) v s = config_cipher_with g db (Some c) (Some pn) v s"
  by (simp add: config_cipher_with_def is_sqlcipher_legacy_def split: option.splits)

lemma sqlite3mcConfigureSQLCipherVersion_eq:
  assumes "1 \<le> v" "v \<le> 4"
  shows "sqlite3mcConfigureSQLCipherVersion db d v s =
    foldl (\<lambda>s (name, value). snd (sqlite3mc_config_cipher db (Some ''sqlcipher'') (Some name) value s))
      s (zip (if d then sqlcipher_defNames else sqlcipher_stdNames) (sqlcipher_versionParams ! nat (v - 1)))"
proof -
  have legacy: "\<forall>n \<in> set sqlcipher_stdNames. \<not> stricmp n ''legacy''" by code_simp
  have "config_cipher_with (\<lambda>_ _ s. s) db (Some ''sqlcipher'') (Some nm) a u =
      sqlite3mc_config_cipher db (Some ''sqlcipher'') (Some nm) a u"
    if elem: "(nm, a) \<in> set (zip (map (version_name d) sqlcipher_stdNames) w)" for nm a u w
  proof -
    obtain k where "k \<in> set sqlcipher_stdNames" "nm = version_name d k"
      using elem by (auto dest!: set_zip_leftD)
    then show ?thesis
      using legacy version_name_strip [of k d]
      by (auto simp: sqlite3mc_config_cipher_def intro!: config_cipher_with_other)
  qed
  then show ?thesis
    using assms unfolding version_names sqlite3mcConfigureSQLCipherVersion_def
    by (auto simp: SQLCIPHER_VERSION_MAX_def Let_def intro!: foldl_cong)
qed

text \<open>
  Setting the parameter \<^verbatim>\<open>legacy\<close> of SQLCipher to a version from 1 to 4 also sets the page
  size, the iterations of the key derivation, the use of the HMAC and the two algorithms of that version, and
  leaves the other parameters and all defaults alone.
\<close>

theorem sqlcipher_legacy_configures:
  assumes "codec_params True s = Some t" and "find_entry c_name ''sqlcipher'' t = Some j"
    and "c_params (t ! j) = Some ps" and "param_specs ps = param_specs mcSQLCipherParams" and "v \<in> {1..4}"
  shows "\<exists>s' ps'. sqlite3mc_config_cipher True (Some ''sqlcipher'') (Some ''legacy'') v s = (v, s')
    \<and> params_at True j s' = Some ps' \<and> map p_default ps' = map p_default ps
    \<and> map p_value ps' =
        (case sqlcipher_versionParams ! nat (v - 1) of [pageSize, kdfIter, hmacUse, kdfAlgorithm, hmacAlgorithm] \<Rightarrow>
          [v, pageSize, kdfIter, p_value (ps ! 3), hmacUse, p_value (ps ! 5), p_value (ps ! 6), kdfAlgorithm, hmacAlgorithm,
           p_value (ps ! 9), p_value (ps ! 10)])"
proof -
  have j: "j < length t" by (rule find_entry_less [OF assms(2)])
  have at: "params_at True j s = Some ps" using assms(1, 3) by (simp add: params_at_Some)
  have len: "length ps = 11" using length_specs [OF assms(4)] by (simp add: mcSQLCipherParams_def)
  have "(p_name (ps ! 0), p_min (ps ! 0), p_max (ps ! 0)) = param_specs ps ! 0" using len by (simp add: param_specs_def)
  then have p0: "p_min (ps ! 0) = 0" "p_max (ps ! 0) = 4"
    by (simp_all add: assms(4)) (simp_all add: param_specs_def mcSQLCipherParams_def param_def)
  have v: "1 \<le> v" "v \<le> 4" using assms(5) by auto
  define qs where "qs = foldl (\<lambda>qs (k, a). qs[k := param_set False a (qs ! k)]) ps
        (zip [1, 2, 4, 7, 8] (sqlcipher_versionParams ! nat (v - 1)))"
  have version: "sqlite3mcConfigureSQLCipherVersion True False v s = put_params True j qs s"
    using configure_sqlcipher_version [OF assms(1, 2, 4) v, of False] put_params_same [OF at] by (simp add: qs_def)
  have strip: "strip_prefixes ''legacy'' = (False, False, False, ''legacy'')"
    "is_sqlcipher_legacy ''sqlcipher'' ''legacy'' False False v" "checkParameterValue ''legacy'' v ''sqlcipher''"
  proof -
    show "strip_prefixes ''legacy'' = (False, False, False, ''legacy'')" by code_simp
    show "is_sqlcipher_legacy ''sqlcipher'' ''legacy'' False False v" using v by (simp add: is_sqlcipher_legacy_def SQLCIPHER_VERSION_MAX_def)
    have "\<not> stricmp ''legacy'' ''legacy_page_size''" "\<not> stricmp ''legacy'' ''plaintext_header_size''" by code_simp+
    then show "checkParameterValue ''legacy'' v ''sqlcipher''" by (simp add: checkParameterValue_def)
  qed
  obtain x1 x2 x3 x4 x5 where row: "sqlcipher_versionParams ! nat (v - 1) = [x1, x2, x3, x4, x5]"
  proof -
    have "v = 1 \<or> v = 2 \<or> v = 3 \<or> v = 4" using v by linarith
    then show thesis using that by (auto simp: sqlcipher_versionParams_def)
  qed
  obtain p0 p1 p2 p3 p4 p5 p6 p7 p8 p9 p10 where eleven: "ps = [p0, p1, p2, p3, p4, p5, p6, p7, p8, p9, p10]"
    using len by (auto simp: numeral_eq_Suc length_Suc_conv)
  have qs_eq: "qs = [p0, param_set False x1 p1, param_set False x2 p2, p3, param_set False x3 p4, p5, p6,
      param_set False x4 p7, param_set False x5 p8, p9, p10]"
    by (simp add: qs_def row eleven)
  have qs: "length qs = 11" "map (\<lambda>p. (p_name p, p_min p, p_max p)) qs = param_specs ps" "qs ! 0 = ps ! 0"
    by (simp_all add: qs_eq eleven param_specs_def param_set_def)
  have find: "find_entry p_name ''legacy'' qs = Some 0"
    using sqlcipher_param_positions(6) qs(2) assms(4) by (simp add: find_entry_specs param_specs_def)
  define ps' where "ps' = qs[0 := param_set False v (ps ! 0)]"
  have "sqlite3mc_config_cipher True (Some ''sqlcipher'') (Some ''legacy'') v s = (v, put_params True j ps' s)"
    using assms(1-3) strip version at j find qs(3) v p0
    by (simp add: sqlite3mc_config_cipher_def config_cipher_with_def config_cipher_param_def ps'_def
        put_params_put_params [OF assms(1)] in_range_def)
  moreover have "params_at True j (put_params True j ps' s) = Some ps'" using at assms(1) j by simp
  moreover have "map p_default ps' = map p_default ps \<and> map p_value ps' =
        (case sqlcipher_versionParams ! nat (v - 1) of [pageSize, kdfIter, hmacUse, kdfAlgorithm, hmacAlgorithm] \<Rightarrow>
          [v, pageSize, kdfIter, p_value (ps ! 3), hmacUse, p_value (ps ! 5), p_value (ps ! 6), kdfAlgorithm, hmacAlgorithm,
           p_value (ps ! 9), p_value (ps ! 10)])"
    by (simp add: ps'_def row qs_eq eleven param_set_def)
  ultimately show ?thesis by blast
qed

theorem sqlcipher_legacy_configures_witness:
  "\<exists>s' ps'. sqlite3mc_config_cipher True (Some ''sqlcipher'') (Some ''legacy'') 3 opened_cfg = (3, s')
    \<and> params_at True 4 s' = Some ps' \<and> map p_value ps' = [3, 1024, 64000, 2, 1, 1, 0x3a, 0, 0, 1, 0]"
proof -
  obtain s' ps' where "sqlite3mc_config_cipher True (Some ''sqlcipher'') (Some ''legacy'') 3 opened_cfg = (3, s')"
    "params_at True 4 s' = Some ps'" "map p_value ps' = [3, 1024, 64000, 2, 1, 1, 0x3a, 0, 0, 1, 0]"
    using sqlcipher_legacy_configures [OF opened_cfg_tables(1, 4, 5), of 3]
    by (auto simp: sqlcipher_versionParams_def mcSQLCipherParams_def param_def)
  then show ?thesis by (intro exI conjI)
qed

text \<open>
  The C interface never changes a parameter named with the prefix \<^verbatim>\<open>min:\<close> or \<^verbatim>\<open>max:\<close>, but the SQL function
  does: \<^verbatim>\<open>SELECT sqlite3mc_config('min:hmac_check', v)\<close> sets the current value.
\<close>

lemma sql_function_sets_through_min_prefix:
  assumes "mc_reachable r" and "clientParams (reg_cfg r) \<noteq> None" and "v \<in> {0, 1}"
  shows "snd (sqlite3mc_config True (Some ''min:hmac_check'') v (reg_cfg r)) = reg_cfg r
    \<and> (\<exists>s s'. sqlite3mcConfigParams
            [\<lparr>value_type = SQLITE_TEXT, value_text = ''min:hmac_check'', value_int = 0\<rparr>,
             \<lparr>value_type = SQLITE_INTEGER, value_text = txt, value_int = v\<rparr>] (reg_cfg r) = Some (Result_int v, s)
         \<and> read_parameter (True, 0) ''hmac_check'' s = Some (v, s'))"
proof -
  define s where "s = reg_cfg r"
  have wf: "cfg_wf True s" using mc_reachable_wf [OF assms(1)] by (simp add: registry_wf_def s_def)
  obtain t where t: "codec_params True s = Some t" using assms(2) by (auto simp: codec_params_def s_def)
  obtain m where m: "table_wf True m t" by (rule cfg_wf_codec_params [OF wf t])
  obtain c h w where ps: "c_params (t ! 0) = Some [c, h, w]" and specs: "param_specs [c, h, w] = param_specs commonParams"
    by (rule common_entry [OF m])
  have len: "0 < length t" using m by (auto simp: table_wf_def)
  have names: "p_name c = ''cipher''" "p_name h = ''hmac_check''" "p_min h = 0" "p_max h = 1"
    using specs by (simp_all add: param_specs_def commonParams_def)
  have at: "params_at True 0 s = Some [c, h, w]" using t ps by (simp add: params_at_Some)
  have strip: "strip_prefixes ''min:hmac_check'' = (False, True, False, ''hmac_check'')" by code_simp
  have other: "\<not> stricmp ''hmac_check'' ''cipher''" by code_simp
  have find: "find_entry p_name ''hmac_check'' [c, h, w] = Some 1" using names other by simp
  have "snd (sqlite3mc_config True (Some ''min:hmac_check'') v s) = s"
    using at strip find by (simp add: sqlite3mc_config_def Let_def)
  moreover define s1 where "s1 = put_params True 0 [c, h\<lparr>p_value := v\<rparr>, w] s"
  have "sqlite3mcConfigParams [\<lparr>value_type = SQLITE_TEXT, value_text = ''min:hmac_check'', value_int = 0\<rparr>,
             \<lparr>value_type = SQLITE_INTEGER, value_text = txt, value_int = v\<rparr>] s = Some (Result_int v, s1)"
    using t at strip find other names assms(3)
    by (auto simp: sqlite3mcConfigParams_def config_params_common_def in_range_def s1_def param_set_def)
  moreover have "params_at True 0 s1 = Some [c, h\<lparr>p_value := v\<rparr>, w]" using t at len by (simp add: s1_def)
  then have "\<exists>s'. read_parameter (True, 0) ''hmac_check'' s1 = Some (v, s')"
    using names other by (simp add: read_parameter_def sqlite3mcGetCipherParameter_def)
  ultimately show ?thesis unfolding s_def by blast
qed

lemma sql_function_sets_through_min_prefix_witness:
  "\<exists>s s'. sqlite3mcConfigParams
      [\<lparr>value_type = SQLITE_TEXT, value_text = ''min:hmac_check'', value_int = 0\<rparr>,
       \<lparr>value_type = SQLITE_INTEGER, value_text = ''0'', value_int = 0\<rparr>] opened_cfg = Some (Result_int 0, s)
     \<and> read_parameter (True, 0) ''hmac_check'' s = Some (0, s')"
proof -
  have "clientParams (reg_cfg opened_registry) \<noteq> None"
    using opened_cfg_tables(1) by (auto simp: opened_registry(2) codec_params_def)
  from sql_function_sets_through_min_prefix [OF opened_registry(1) this, of 0 "''0''"] show ?thesis
    by (auto simp: opened_registry(2))
qed

end
