(* ===== verification/Page_Cipher.thy ===== *)
theory Page_Cipher
  imports Registry Codec_Algos ChaCha20_RNG
begin

text \<open>
  What the codec relies on when it calls the methods of a cipher: the interface of page
  encryption as a locale, and the parts that the implementations of the ciphers share, the sequence of
  calls that reads the parameters of a cipher when it is allocated and the check of the legacy page size
  (in \<^verbatim>\<open>src/src/cipher_*.c\<close>).
\<close>

unbundle bit_operations_syntax

text \<open>The first 16 bytes of every database file, \<^verbatim>\<open>SQLITE_FILE_HEADER\<close>.\<close>

definition SQLITE_FILE_HEADER :: bytes where
  "SQLITE_FILE_HEADER = map (of_nat \<circ> of_char) ''SQLite format 3'' @ [0]"

lemma length_SQLITE_FILE_HEADER [bytes_len, simp]: "length SQLITE_FILE_HEADER = 16"
  by (simp add: SQLITE_FILE_HEADER_def)

text \<open>An error of a page is reported as a file that is not a database for page 1.\<close>

definition page_error :: "int \<Rightarrow> int" where
  "page_error page = (if page = 1 then SQLITE_NOTADB else SQLITE_CORRUPT)"

lemma page_error_not_OK [simp]: "page_error page \<noteq> SQLITE_OK"
  by (simp add: page_error_def)

section \<open>Allocation and page size\<close>

text \<open>Successive calls of \<^verbatim>\<open>sqlite3mcGetCipherParameter\<close> with one table.\<close>

fun read_parameters :: "bool \<times> nat \<Rightarrow> string list \<Rightarrow> mc_config \<Rightarrow> (int list \<times> mc_config) option" where
  "read_parameters ref [] s = Some ([], s)"
| "read_parameters ref (n # ns) s =
     (case read_parameter ref n s of None \<Rightarrow> None
      | Some (v, s) \<Rightarrow> map_option (\<lambda>(vs, s). (v # vs, s)) (read_parameters ref ns s))"

lemma read_parameters_length: "read_parameters ref ns s = Some (vs, s') \<Longrightarrow> length vs = length ns"
  by (induction ns arbitrary: s vs) (auto split: option.splits)

text \<open>The values that an allocation reads are the current ones, and each of them falls back to its default.\<close>

definition reset_param :: "nat \<Rightarrow> CipherParams list \<Rightarrow> CipherParams list" where
  "reset_param k ps = ps[k := (ps ! k)\<lparr>p_value := p_default (ps ! k)\<rparr>]"

lemma reset_param_simps [simp]:
  "length (reset_param k ps) = length ps"
  "k < length ps \<Longrightarrow> find_entry p_name n (reset_param k ps) = find_entry p_name n ps"
  "i \<noteq> k \<Longrightarrow> reset_param k ps ! i = ps ! i"
  "k < length ps \<Longrightarrow> map p_default (reset_param k ps) = map p_default ps"
  by (simp_all add: reset_param_def map_update list_update_same_conv)

lemma read_parameters_eq:
  assumes "codec_params db s = Some t" and "j < length t" and "params_at db j s = Some ps"
    and "\<forall>n \<in> set ns. find_entry p_name n ps = Some (f n)" and "distinct (map f ns)"
  shows "\<exists>s'. read_parameters (db, j) ns s = Some (map (\<lambda>n. p_value (ps ! f n)) ns, s')
    \<and> params_at db j s' = Some (fold reset_param (map f ns) ps)"
  using assms
proof (induction ns arbitrary: s t ps)
  case (Cons n ns)
  have k: "f n < length ps" using Cons.prems(4) by (auto intro: find_entry_less)
  define s1 where "s1 = put_params db j (reset_param (f n) ps) s"
  have read: "read_parameter (db, j) n s = Some (p_value (ps ! f n), s1)"
    using Cons.prems(3,4) by (simp add: read_parameter_def sqlite3mcGetCipherParameter_def s1_def reset_param_def)
  obtain s' where "read_parameters (db, j) ns s1 = Some (map (\<lambda>n'. p_value (reset_param (f n) ps ! f n')) ns, s')"
    "params_at db j s' = Some (fold reset_param (map f ns) (reset_param (f n) ps))"
  proof (rule exE [OF Cons.IH])
    show "codec_params db s1 = Some (t[j := (t ! j)\<lparr>c_params := Some (reset_param (f n) ps)\<rparr>])"
      using Cons.prems(1) by (simp add: s1_def)
    show "params_at db j s1 = Some (reset_param (f n) ps)" using Cons.prems(1-3) by (simp add: s1_def)
  qed (use Cons.prems k in auto)
  moreover have "map (\<lambda>n'. p_value (reset_param (f n) ps ! f n')) ns = map (\<lambda>n'. p_value (ps ! f n')) ns"
    using Cons.prems(5) by (auto simp: image_iff)
  ultimately show ?case by (simp add: read)
qed simp

text \<open>
  The reads of an allocation in a well-formed configuration, when the parameters of the cipher are
  the built-in ones \<open>Q\<close> up to their values: all values are within the ranges of \<open>Q\<close>.
\<close>

lemma specs_range:
  assumes "param_specs ps = param_specs Q" "params_ok True j ps" "k < length Q"
  shows "p_value (ps ! k) \<in> {p_min (Q ! k) .. p_max (Q ! k)}"
proof -
  have "length (param_specs ps) = length (param_specs Q)" using assms(1) by simp
  then have len: "length ps = length Q" by (simp add: param_specs_def)
  have "param_specs ps ! k = param_specs Q ! k" using assms(1) by simp
  then have "p_min (ps ! k) = p_min (Q ! k)" "p_max (ps ! k) = p_max (Q ! k)"
    using assms(3) len by (simp_all add: param_specs_def)
  moreover have "param_ok (ps ! k)" using assms(2,3) len by (simp add: params_ok_def)
  ultimately show ?thesis by (simp add: param_ok_def in_range_def)
qed

lemma allocation_reads:
  assumes wf: "cfg_wf True s" and ref: "sqlite3mcGetCipherParams db cipher s = (db', j)" and at: "params_at db' j s = Some ps"
    and specs: "param_specs ps = param_specs Q" "\<forall>n \<in> set ns. find_entry fst n (param_specs Q) = Some (f n)" "distinct (map f ns)"
  shows "\<exists>s'. read_parameters (sqlite3mcGetCipherParams db cipher s) ns s = Some (map (\<lambda>n. p_value (ps ! f n)) ns, s')
    \<and> params_at db' j s' = Some (fold reset_param (map f ns) ps)
    \<and> (\<forall>k < length Q. p_value (ps ! k) \<in> {p_min (Q ! k) .. p_max (Q ! k)})"
proof -
  obtain t where t: "codec_params db' s = Some t" "c_params (t ! j) = Some ps" using at by (auto simp: params_at_Some)
  have j: "j < length t" by (rule sqlite3mcGetCipherParams_less [OF wf ref t(1)])
  obtain m where "table_wf True m t" by (rule cfg_wf_codec_params [OF wf t(1)])
  then have ok: "params_ok True j ps" using j t(2) by (rule table_wf_params_ok)
  have "\<forall>n \<in> set ns. find_entry p_name n ps = Some (f n)" using specs(1,2) by (simp add: find_entry_specs)
  from read_parameters_eq [OF t(1) j at this specs(3)] specs_range [OF specs(1) ok] show ?thesis
    unfolding ref by blast
qed

text \<open>The test of \<^verbatim>\<open>m_legacyPageSize\<close> in every \<^verbatim>\<open>GetPageSize...\<close> function.\<close>

definition legacy_page_size :: "int \<Rightarrow> int" where
  "legacy_page_size pageSize =
     (if pageSize < 512 \<or> pageSize > SQLITE_MAX_PAGE_SIZE \<or> ((pageSize - 1) AND pageSize) \<noteq> 0 then 0 else pageSize)"

lemma and_minus_1_power: "((2 ^ k - 1) AND 2 ^ k :: int) = 0"
  by (simp add: mask_eq_exp_minus_1 [symmetric] and.commute [of "mask k"] take_bit_eq_mask [symmetric])

lemma power_of_2_and_minus_1:
  assumes "0 < n" and "((n - 1) AND n) = (0 :: int)"
  shows "\<exists>k. n = 2 ^ k"
  using assms
proof (induction "nat n" arbitrary: n rule: less_induct)
  case less
  show ?case
  proof (cases "even n")
    case True
    then obtain m where m: "n = 2 * m" by blast
    have "(n - 1) div 2 = m - 1" "n div 2 = m" using m by simp_all
    then have "((m - 1) AND m) = 0" using less.prems(2) and_int_rec [of "n - 1" n] by simp
    then obtain k where "m = 2 ^ k" using less.hyps [of m] less.prems(1) m by auto
    then show ?thesis by (intro exI [of _ "Suc k"]) (simp add: m)
  next
    case False
    then have "((n - 1) AND n) = 2 * (((n - 1) div 2) AND (n div 2))" using and_int_rec [of "n - 1" n] by simp
    moreover from False have "(n - 1) div 2 = n div 2" by (elim oddE) simp
    ultimately have "n div 2 = 0" using less.prems(2) by simp
    with less.prems(1) have "n = 1" by linarith
    then show ?thesis by (intro exI [of _ 0]) simp
  qed
qed

lemma legacy_page_size_cases: "legacy_page_size p = 0 \<or> (\<exists>k \<in> {9..16}. legacy_page_size p = 2 ^ k)"
proof (cases "legacy_page_size p = 0")
  case False
  then have p: "512 \<le> p" "p \<le> 65536" "((p - 1) AND p) = 0" "legacy_page_size p = p"
    by (auto simp: legacy_page_size_def split: if_splits)
  obtain k where k: "p = 2 ^ k" using power_of_2_and_minus_1 [of p] p by auto
  have "(2 :: int) ^ 9 \<le> 2 ^ k" "(2 :: int) ^ k \<le> 2 ^ 16" using p k by simp_all
  then have "9 \<le> k" "k \<le> 16" by (simp_all only: power_increasing_iff one_less_numeral_iff semiring_norm)
  then show ?thesis using k p(4) by auto
qed simp

section \<open>The salt of the key derivation\<close>

text \<open>
  The salt is drawn when the database is new or gets a new key outside of WAL mode, and read
  from the database otherwise.
\<close>

definition salt_rekey :: "int \<Rightarrow> bytes option \<Rightarrow> int" where
  "salt_rekey rekey cipherSalt = (if rekey = 2 then (if cipherSalt \<noteq> None then 0 else 1) else rekey)"

definition new_salt :: "int \<Rightarrow> int \<Rightarrow> bytes option \<Rightarrow> rng \<Rightarrow> (bytes \<times> bool \<times> rng) option" where
  "new_salt plaintextHeaderSize rekey cipherSalt r =
     (case cipherSalt of
        Some salt \<Rightarrow>
          if salt_rekey rekey cipherSalt \<noteq> 0 then map_option (\<lambda>(salt, r). (salt, False, r)) (chacha20_rng 16 r)
          else Some (take 16 salt, \<not> plaintextHeaderSize > 0, r)
      | None \<Rightarrow> map_option (\<lambda>(salt, r). (salt, False, r)) (chacha20_rng 16 r))"

lemma new_salt_cases:
  assumes "new_salt headerSize rekey cipherSalt r = Some (salt, keyOnly, r')" and "rng_wf r"
    and "\<forall>s. cipherSalt = Some s \<longrightarrow> 16 \<le> length s"
  shows "length salt = 16 \<and> (keyOnly \<longrightarrow> \<not> headerSize > 0)"
  using assms by (auto simp: new_salt_def split: option.splits if_splits dest: chacha20_rng_length_wf)

section \<open>The interface\<close>

text \<open>
  \<open>usable c page data reserved\<close> says which pages a cipher object accepts. What it promises for them:
  encryption succeeds unless the entropy source fails, keeps the length, and decryption gives back all but the reserved bytes, whether or not the
  authentication code is checked.
\<close>

locale page_cipher =
  fixes enc :: "'c \<Rightarrow> int \<Rightarrow> bytes \<Rightarrow> int \<Rightarrow> rng \<Rightarrow> (int \<times> bytes \<times> rng) option"
    and dec :: "'c \<Rightarrow> int \<Rightarrow> bytes \<Rightarrow> int \<Rightarrow> bool \<Rightarrow> (int \<times> bytes) option"
    and usable :: "'c \<Rightarrow> int \<Rightarrow> bytes \<Rightarrow> int \<Rightarrow> bool"
  assumes enc_ok: "usable c page data reserved \<Longrightarrow> rng_wf r \<Longrightarrow> enc c page data reserved r = Some (rc, data', r') \<Longrightarrow>
      rc = SQLITE_OK \<and> length data' = length data \<and> rng_wf r'"
    and dec_enc: "usable c page data reserved \<Longrightarrow> rng_wf r \<Longrightarrow> enc c page data reserved r = Some (rc, data', r') \<Longrightarrow>
      \<exists>d. dec c page data' reserved check = Some (SQLITE_OK, d) \<and> length d = length data
        \<and> take (length data - nat reserved) d = take (length data - nat reserved) data"
begin

text \<open>A file: the pages are encrypted one after the other, with the generator that they share.\<close>

primrec encrypt_file :: "'c \<Rightarrow> int \<Rightarrow> (int \<times> bytes) list \<Rightarrow> rng \<Rightarrow> ((int \<times> bytes) list \<times> rng) option" where
  "encrypt_file c reserved [] r = Some ([], r)"
| "encrypt_file c reserved (p # ps) r =
     (case enc c (fst p) (snd p) reserved r of
        None \<Rightarrow> None
      | Some (rc, data, r) \<Rightarrow>
          if rc \<noteq> SQLITE_OK then None
          else map_option (\<lambda>(ds, r). ((fst p, data) # ds, r)) (encrypt_file c reserved ps r))"

definition decrypts_to :: "'c \<Rightarrow> int \<Rightarrow> bool \<Rightarrow> int \<times> bytes \<Rightarrow> int \<times> bytes \<Rightarrow> bool" where
  "decrypts_to c reserved check e p \<longleftrightarrow>
     fst e = fst p \<and> length (snd e) = length (snd p)
     \<and> (\<exists>d. dec c (fst e) (snd e) reserved check = Some (SQLITE_OK, d)
          \<and> take (length d - nat reserved) d = take (length (snd p) - nat reserved) (snd p))"

lemma file_roundtrip:
  assumes "\<forall>p \<in> set ps. usable c (fst p) (snd p) reserved" and "rng_wf r"
    and "encrypt_file c reserved ps r = Some (es, r')"
  shows "list_all2 (decrypts_to c reserved check) es ps \<and> rng_wf r'"
  using assms
proof (induction ps arbitrary: es r)
  case (Cons p ps)
  then obtain data s es' where
    e: "enc c (fst p) (snd p) reserved r = Some (SQLITE_OK, data, s)"
      "encrypt_file c reserved ps s = Some (es', r')" "es = (fst p, data) # es'"
    by (auto split: option.splits if_splits)
  have ok: "length data = length (snd p)" "rng_wf s"
    using enc_ok [OF _ Cons.prems(2) e(1)] Cons.prems(1) by simp_all
  have "decrypts_to c reserved check (fst p, data) p"
    using dec_enc [OF _ Cons.prems(2) e(1), of check] Cons.prems(1) ok(1) by (auto simp: decrypts_to_def)
  then show ?case using Cons.IH [OF _ ok(2) e(2)] Cons.prems(1) by (simp add: e(3))
qed simp

end

end
