(* ===== verification/Cipher_ChaCha20.thy ===== *)
theory Cipher_ChaCha20
  imports Page_Cipher PBKDF2 Poly1305
begin

text \<open>
  The default cipher, ChaCha20 with Poly1305 as in sqleet, \<^verbatim>\<open>src/src/cipher_chacha20.c\<close>. A page
  ends with a nonce of 16 and a tag of 16 bytes; the one-time keys of a page come from the key, the
  nonce and the page number. The first 16 bytes of page 1 hold the salt of the key derivation.
\<close>

record ChaCha20Cipher =
  cc_legacy :: int
  cc_legacyPageSize :: int
  cc_kdfIter :: int
  cc_plaintextHeaderSize :: int
  cc_keyLength :: int
  cc_key :: bytes
  cc_salt :: bytes

definition AllocateChaCha20Cipher :: "bool \<Rightarrow> mc_config \<Rightarrow> (ChaCha20Cipher option \<times> mc_config) option" where
  "AllocateChaCha20Cipher db s =
     (let (ok, s) = sqlite3_malloc s
      in if \<not> ok then Some (None, s)
         else case read_parameters (sqlite3mcGetCipherParams db ''chacha20'' s)
             [''legacy'', ''legacy_page_size'', ''kdf_iter'', ''plaintext_header_size''] s of
           Some ([legacy, pageSize, kdfIter, headerSize], s) \<Rightarrow>
             Some (Some \<lparr>cc_legacy = legacy, cc_legacyPageSize = pageSize,
                         cc_kdfIter = (if legacy \<noteq> 0 then 12345 else kdfIter), cc_plaintextHeaderSize = headerSize,
                         cc_keyLength = 32, cc_key = replicate 32 0, cc_salt = replicate 16 0\<rparr>, s)
         | _ \<Rightarrow> None)"

definition FreeChaCha20Cipher :: "ChaCha20Cipher \<Rightarrow> ChaCha20Cipher" where
  "FreeChaCha20Cipher c = \<lparr>cc_legacy = 0, cc_legacyPageSize = 0, cc_kdfIter = 0, cc_plaintextHeaderSize = 0,
     cc_keyLength = 0, cc_key = replicate 32 0, cc_salt = replicate 16 0\<rparr>"

definition CloneChaCha20Cipher :: "ChaCha20Cipher \<Rightarrow> ChaCha20Cipher \<Rightarrow> ChaCha20Cipher" where
  "CloneChaCha20Cipher cipherTo cipherFrom =
     cipherTo\<lparr>cc_legacy := cc_legacy cipherFrom, cc_legacyPageSize := cc_legacyPageSize cipherFrom,
       cc_kdfIter := cc_kdfIter cipherFrom, cc_plaintextHeaderSize := cc_plaintextHeaderSize cipherFrom,
       cc_keyLength := cc_keyLength cipherFrom, cc_key := memcpy_at (cc_key cipherTo) 0 (take 32 (cc_key cipherFrom)),
       cc_salt := memcpy_at (cc_salt cipherTo) 0 (take 16 (cc_salt cipherFrom))\<rparr>"

definition GetLegacyChaCha20Cipher :: "ChaCha20Cipher \<Rightarrow> int" where
  "GetLegacyChaCha20Cipher c = cc_legacy c"

definition GetPageSizeChaCha20Cipher :: "ChaCha20Cipher \<Rightarrow> int" where
  "GetPageSizeChaCha20Cipher c = (if cc_legacy c \<noteq> 0 then legacy_page_size (cc_legacyPageSize c) else 0)"

definition GetReservedChaCha20Cipher :: "ChaCha20Cipher \<Rightarrow> int" where
  "GetReservedChaCha20Cipher c = 16 + 16"

definition GetSaltChaCha20Cipher :: "ChaCha20Cipher \<Rightarrow> bytes option" where
  "GetSaltChaCha20Cipher c = Some (cc_salt c)"

definition GenerateKeyChaCha20Cipher :: "ChaCha20Cipher \<Rightarrow> bytes \<Rightarrow> int \<Rightarrow> bytes option \<Rightarrow> rng \<Rightarrow> (ChaCha20Cipher \<times> rng) option" where
  "GenerateKeyChaCha20Cipher c userPassword rekey cipherSalt r =
     (case new_salt (cc_plaintextHeaderSize c) rekey cipherSalt r of
        None \<Rightarrow> None
      | Some (salt, keyOnly, r) \<Rightarrow>
          let (bypass, key, salt) = sqlite3mcExtractRawKey userPassword keyOnly 32 16 (cc_key c) salt
          in if bypass then Some (c\<lparr>cc_key := key, cc_salt := salt\<rparr>, r)
             else case fastpbkdf2_hmac_sha256 userPassword salt (nat (cc_kdfIter c mod 2 ^ 32)) 32 of
                    None \<Rightarrow> None
                  | Some key \<Rightarrow> Some (c\<lparr>cc_key := key, cc_salt := salt\<rparr>, r))"

section \<open>Pages\<close>

text \<open>\<^verbatim>\<open>usePlaintextHeader\<close> and the \<^verbatim>\<open>offset\<close> at which the encrypted part of a page starts.\<close>

definition chacha20_offset :: "ChaCha20Cipher \<Rightarrow> int \<Rightarrow> bool \<times> int" where
  "chacha20_offset c page =
     (if page = 1 then
        let plaintextHeaderSize = cc_plaintextHeaderSize c
        in if plaintextHeaderSize > 0 then
             (True, if cc_legacy c \<noteq> 0 then plaintextHeaderSize else if plaintextHeaderSize > 24 then plaintextHeaderSize else 24)
           else (False, if cc_legacy c \<noteq> 0 then 0 else 24)
      else (False, 0))"

definition chacha20_nReserved :: "ChaCha20Cipher \<Rightarrow> int \<Rightarrow> int" where
  "chacha20_nReserved c reserved = (if reserved = 0 \<and> cc_legacy c = 0 then 0 else GetReservedChaCha20Cipher c)"

definition chacha20_mismatch :: "ChaCha20Cipher \<Rightarrow> int \<Rightarrow> bool" where
  "chacha20_mismatch c reserved \<longleftrightarrow>
     (let legacy = cc_legacy c; nReserved = chacha20_nReserved c reserved
      in legacy = 0 \<and> nReserved > reserved \<or> legacy \<noteq> 0 \<and> nReserved \<noteq> reserved)"

text \<open>The counter and the one-time keys of a page; the nonce is 16 bytes long, its last four are for the counter.\<close>

definition chacha20_otk :: "bytes \<Rightarrow> bytes \<Rightarrow> int \<Rightarrow> u32 \<times> bytes" where
  "chacha20_otk key nonce page =
     (let counter = LOAD32_LE (drop (16 - 4) nonce) XOR of_int page
      in (counter, chacha20_xor (replicate 64 0) key nonce counter))"

text \<open>The call of \<^verbatim>\<open>chacha20_xor\<close> on the bytes from \<open>offset\<close> up to \<open>n\<close>, for both directions.\<close>

definition chacha20_crypt :: "nat \<Rightarrow> nat \<Rightarrow> bytes \<Rightarrow> bytes \<Rightarrow> u32 \<Rightarrow> bytes \<Rightarrow> bytes" where
  "chacha20_crypt offset n otk nonce counter data =
     memcpy_at data offset (chacha20_xor (region offset (n - offset) data) (drop 32 otk) nonce (counter + 1))"

definition EncryptPageChaCha20Cipher :: "ChaCha20Cipher \<Rightarrow> int \<Rightarrow> bytes \<Rightarrow> int \<Rightarrow> rng \<Rightarrow> (int \<times> bytes \<times> rng) option" where
  "EncryptPageChaCha20Cipher c page data reserved r =
     (let nReserved = chacha20_nReserved c reserved;
          (usePlaintextHeader, offset) = chacha20_offset c page;
          n = nat (int (length data) - nReserved);
          add_salt = (\<lambda>data. if page = 1 \<and> \<not> usePlaintextHeader then memcpy_at data 0 (cc_salt c) else data)
      in if chacha20_mismatch c reserved then Some (SQLITE_CORRUPT, data, r)
         else if int (length data) < nReserved + offset then None
         else if nReserved > 0 then
           (case chacha20_rng 16 r of
              None \<Rightarrow> None
            | Some (nonce, r) \<Rightarrow>
                let data = memcpy_at data n nonce;
                    (counter, otk) = chacha20_otk (cc_key c) (region n 16 data) page;
                    data = add_salt (chacha20_crypt (nat offset) n otk (region n 16 data) counter data);
                    data = memcpy_at data (n + 16) (poly1305 (take (n + 16) data) otk)
                in Some (SQLITE_OK, data, r))
         else
           let nonce = sqlite3mcGenerateInitialVector page;
               (counter, otk) = chacha20_otk (cc_key c) nonce page
           in Some (SQLITE_OK, add_salt (chacha20_crypt (nat offset) n otk nonce counter data), r))"

text \<open>\<^verbatim>\<open>chacha20_ismemset\<close> is true when some byte is not \<open>value\<close>; its result is not used.\<close>

definition chacha20_ismemset :: "bytes \<Rightarrow> byte \<Rightarrow> nat \<Rightarrow> bool" where
  "chacha20_ismemset v value len = (foldl (\<lambda>result i. result OR (v ! i XOR value)) 0 [0..<len] \<noteq> 0)"

definition DecryptPageChaCha20Cipher :: "ChaCha20Cipher \<Rightarrow> int \<Rightarrow> bytes \<Rightarrow> int \<Rightarrow> bool \<Rightarrow> (int \<times> bytes) option" where
  "DecryptPageChaCha20Cipher c page data reserved hmacCheck =
     (let nReserved = chacha20_nReserved c reserved;
          (usePlaintextHeader, offset) = chacha20_offset c page;
          n = nat (int (length data) - nReserved);
          add_header = (\<lambda>data. if page = 1 \<and> \<not> usePlaintextHeader then memcpy_at data 0 SQLITE_FILE_HEADER else data)
      in if chacha20_mismatch c reserved then Some (page_error page, data)
         else if int (length data) < nReserved + offset then None
         else if nReserved > 0 then
           let (counter, otk) = chacha20_otk (cc_key c) (region n 16 data) page;
               tag = poly1305 (take (n + 16) data) otk;
               data = chacha20_crypt (nat offset) n otk (region n 16 data) counter data;
               rc = (if hmacCheck \<and> poly1305_tagcmp (region (n + 16) 16 data) tag \<noteq> 0 then page_error page else SQLITE_OK)
           in Some (rc, if rc = SQLITE_OK then add_header data else data)
         else
           let nonce = sqlite3mcGenerateInitialVector page;
               (counter, otk) = chacha20_otk (cc_key c) nonce page
           in Some (SQLITE_OK, add_header (chacha20_crypt (nat offset) n otk nonce counter data)))"

definition mcChaCha20Descriptor :: "ChaCha20Cipher CipherDescriptor" where
  "mcChaCha20Descriptor = \<lparr>d_name = Some ''chacha20'', m_allocateCipher = Some AllocateChaCha20Cipher,
     m_freeCipher = Some FreeChaCha20Cipher, m_cloneCipher = Some CloneChaCha20Cipher, m_getLegacy = Some GetLegacyChaCha20Cipher,
     m_getPageSize = Some GetPageSizeChaCha20Cipher, m_getReserved = Some GetReservedChaCha20Cipher,
     m_getSalt = Some GetSaltChaCha20Cipher, m_generateKey = Some GenerateKeyChaCha20Cipher,
     m_encryptPage = Some EncryptPageChaCha20Cipher, m_decryptPage = Some DecryptPageChaCha20Cipher\<rparr>"

section \<open>The round trip of a page\<close>

lemma length_chacha20_crypt [bytes_len, simp]:
  "offset \<le> n \<Longrightarrow> n \<le> length data \<Longrightarrow> length (chacha20_crypt offset n otk nonce counter data) = length data"
  by (simp add: chacha20_crypt_def)

lemma nth_chacha20_crypt:
  assumes "offset \<le> n" "n \<le> length data" "i < length data"
  shows "chacha20_crypt offset n otk nonce counter data ! i =
    (if offset \<le> i \<and> i < n then data ! i XOR
       chacha20_keystream (drop 32 otk) nonce (counter + 1) (blocks_of (n - offset)) ! (i - offset) else data ! i)"
proof -
  have ge: "n - offset \<le> length (chacha20_keystream (drop 32 otk) nonce (counter + 1) (blocks_of (n - offset)))"
    using length_keystream_ge by blast
  show ?thesis
    using assms ge
    by (cases "offset \<le> i \<and> i < n")
      (auto simp: chacha20_crypt_def nth_memcpy_at chacha20_xor_eq region_def)
qed

text \<open>
  Decryption undoes encryption at every position that no other part of the code overwrites.
\<close>

lemma chacha20_crypt_again:
  assumes "offset \<le> n" "n \<le> length data" "length data' = length data" "i < length data"
    and "data' ! i = chacha20_crypt offset n otk nonce counter data ! i"
  shows "chacha20_crypt offset n otk nonce counter data' ! i = data ! i"
  using assms by (simp add: nth_chacha20_crypt xor.assoc)

definition chacha20_usable :: "ChaCha20Cipher \<Rightarrow> int \<Rightarrow> bytes \<Rightarrow> int \<Rightarrow> bool" where
  "chacha20_usable c page data reserved \<longleftrightarrow>
     length (cc_salt c) = 16 \<and> \<not> chacha20_mismatch c reserved
     \<and> chacha20_nReserved c reserved + snd (chacha20_offset c page) \<le> int (length data) \<and> chacha20_nReserved c reserved + 16 \<le> int (length data)
     \<and> (page = 1 \<and> \<not> fst (chacha20_offset c page) \<longrightarrow> take 16 data = SQLITE_FILE_HEADER)"

lemma chacha20_offset_nonneg: "0 \<le> snd (chacha20_offset c page)"
  by (simp add: chacha20_offset_def Let_def)

lemma chacha20_nReserved_cases:
  "chacha20_nReserved c reserved = 0 \<or> chacha20_nReserved c reserved = 32"
  by (simp add: chacha20_nReserved_def GetReservedChaCha20Cipher_def)

lemma chacha20_match: "\<not> chacha20_mismatch c reserved \<Longrightarrow> chacha20_nReserved c reserved \<le> reserved"
  by (auto simp: chacha20_mismatch_def Let_def split: if_splits)

text \<open>
  What both branches of the decryption rest on: \<open>e\<close> agrees with the encrypted page up to \<open>n\<close>, except
  for the salt at its start.
\<close>

lemma chacha20_undo:
  assumes bounds: "offset \<le> n" "n \<le> length data" "16 \<le> length data" "length e = length data"
    and header: "page1 \<Longrightarrow> take 16 data = SQLITE_FILE_HEADER"
    and e: "\<And>i. i < n \<Longrightarrow> \<not> (page1 \<and> i < 16) \<Longrightarrow> e ! i = chacha20_crypt offset n otk nonce counter data ! i"
  shows "take n (if page1 then memcpy_at (chacha20_crypt offset n otk nonce counter e) 0 SQLITE_FILE_HEADER
      else chacha20_crypt offset n otk nonce counter e) = take n data" (is "take n ?d = _")
proof (intro nth_equalityI)
  show "length (take n ?d) = length (take n data)" using bounds by simp
  fix i assume "i < length (take n ?d)"
  then have i: "i < n" "i < length data" using bounds by simp_all
  show "take n ?d ! i = take n data ! i"
  proof (cases "page1 \<and> i < 16")
    case True
    then have "?d ! i = take 16 data ! i" using bounds header i by (simp add: nth_memcpy_at)
    then show ?thesis using True i by simp
  next
    case False
    from chacha20_crypt_again [OF bounds(1,2,4) i(2) e [OF i(1) False]] False i bounds show ?thesis
      by (auto simp: nth_memcpy_at)
  qed
qed

lemma poly1305_tagcmp_refl [simp]: "poly1305_tagcmp tag tag = 0"
  unfolding poly1305_tagcmp_def by (subst foldl_or_eq_0) simp

text \<open>Decryption of a page with reserved space, with its pieces named.\<close>

lemma chacha20_decrypt_auth:
  assumes reserved: "chacha20_nReserved c reserved = 32" "\<not> chacha20_mismatch c reserved"
    and off: "chacha20_offset c page = (ph, int offset)" and len: "offset \<le> n" "length data = n + 32"
    and otk: "chacha20_otk (cc_key c) (region n 16 data) page = (counter, otk)"
  defines "plain \<equiv> chacha20_crypt offset n otk (region n 16 data) counter data"
  shows "DecryptPageChaCha20Cipher c page data reserved check =
    Some (if check \<and> region (n + 16) 16 data \<noteq> poly1305 (take (n + 16) data) otk then (page_error page, plain)
          else (SQLITE_OK, if page = 1 \<and> \<not> ph then memcpy_at plain 0 SQLITE_FILE_HEADER else plain))"
proof -
  have n: "nat (int (length data) - 32) = n" "\<not> int (length data) < 32 + int offset" using len by simp_all
  have "region (n + 16) 16 plain = region (n + 16) 16 data"
    using len by (simp add: plain_def chacha20_crypt_def region_memcpy_at_after)
  moreover have "poly1305_tagcmp (region (n + 16) 16 data) (poly1305 (take (n + 16) data) otk) = 0 \<longleftrightarrow>
      region (n + 16) 16 data = poly1305 (take (n + 16) data) otk"
    using len by (intro poly1305_tagcmp_eq_0) simp_all
  moreover note n(2)
  ultimately show ?thesis
    by (cases "check \<and> region (n + 16) 16 data \<noteq> poly1305 (take (n + 16) data) otk")
      (auto simp: DecryptPageChaCha20Cipher_def Let_def reserved off n(1) otk plain_def [symmetric])
qed

lemma chacha20_page:
  assumes usable: "chacha20_usable c page data reserved" and r: "rng_wf r"
    and enc: "EncryptPageChaCha20Cipher c page data reserved r = Some (rc, data', r')"
  defines "n \<equiv> nat (int (length data) - chacha20_nReserved c reserved)"
  shows "rc = SQLITE_OK \<and> length data' = length data \<and> rng_wf r' \<and>
    (\<exists>d. DecryptPageChaCha20Cipher c page data' reserved check = Some (SQLITE_OK, d) \<and> length d = length data \<and> take n d = take n data)"
proof -
  obtain ph offset' where off: "chacha20_offset c page = (ph, offset')" by fastforce
  define offset where "offset = nat offset'"
  define page1 where "page1 \<longleftrightarrow> page = 1 \<and> \<not> ph"
  have u: "length (cc_salt c) = 16" "\<not> chacha20_mismatch c reserved" "16 \<le> n"
    "chacha20_nReserved c reserved + offset' \<le> int (length data)" "page1 \<Longrightarrow> take 16 data = SQLITE_FILE_HEADER"
    using usable off by (auto simp: chacha20_usable_def page1_def n_def)
  have bounds: "offset \<le> n" "n \<le> length data" "0 \<le> offset'"
    using u(4) chacha20_offset_nonneg [of c page] chacha20_nReserved_cases [of c reserved] by (auto simp: n_def offset_def off)
  have guard: "\<not> int (length data) < chacha20_nReserved c reserved + offset'" using u(4) by simp
  note run = enc [unfolded EncryptPageChaCha20Cipher_def Let_def off prod.case, folded n_def page1_def offset_def]
  show ?thesis
  proof (cases "chacha20_nReserved c reserved = 0")
    case True
    then have n: "n = length data" by (simp add: n_def)
    obtain counter otk where otk: "chacha20_otk (cc_key c) (sqlite3mcGenerateInitialVector page) page = (counter, otk)" by fastforce
    let ?e = "chacha20_crypt offset n otk (sqlite3mcGenerateInitialVector page) counter data"
    have e: "rc = SQLITE_OK" "r' = r" "data' = (if page1 then memcpy_at ?e 0 (cc_salt c) else ?e)"
      using run u True by (simp_all add: otk)
    have len: "length data' = length data" using u(1,3) bounds by (simp add: e)
    have "take n (if page1 then memcpy_at (chacha20_crypt offset n otk (sqlite3mcGenerateInitialVector page) counter data') 0 SQLITE_FILE_HEADER
        else chacha20_crypt offset n otk (sqlite3mcGenerateInitialVector page) counter data') = take n data"
      using bounds u(1,3) by (intro chacha20_undo len u(5)) (auto simp: e n nth_memcpy_at)
    moreover have "DecryptPageChaCha20Cipher c page data' reserved check = Some (SQLITE_OK,
        if page1 then memcpy_at (chacha20_crypt offset n otk (sqlite3mcGenerateInitialVector page) counter data') 0 SQLITE_FILE_HEADER
        else chacha20_crypt offset n otk (sqlite3mcGenerateInitialVector page) counter data')"
      using guard n by (auto simp: DecryptPageChaCha20Cipher_def Let_def off otk u(2) True len page1_def offset_def)
    ultimately show ?thesis
      using bounds len e(1,2) r u(3) by simp
  next
    case False
    then have R: "chacha20_nReserved c reserved = 32" using chacha20_nReserved_cases [of c reserved] by simp
    then have n: "n + 32 = length data" using u(4) bounds(3) by (auto simp: n_def)
    have "\<exists>nonce. chacha20_rng 16 r = Some (nonce, r')"
      using run guard by (auto simp: R u(2) split: option.splits prod.splits)
    then obtain nonce where nonce: "chacha20_rng 16 r = Some (nonce, r')" by blast
    have wf: "length nonce = 16" "rng_wf r'" using chacha20_rng_length_wf [OF nonce r] by simp_all
    obtain counter otk where otk: "chacha20_otk (cc_key c) nonce page = (counter, otk)" by fastforce
    define d0 where "d0 = memcpy_at data n nonce"
    define e0 where "e0 = chacha20_crypt offset n otk nonce counter d0"
    define e1 where "e1 = (if page1 then memcpy_at e0 0 (cc_salt c) else e0)"
    have len: "length d0 = length data" "length e0 = length data" "length e1 = length data"
      using n wf u(1,3) bounds by (simp_all add: d0_def e0_def e1_def)
    have reg: "region n 16 d0 = nonce" using wf n by (simp add: d0_def region_memcpy_at_same_n)
    have e: "rc = SQLITE_OK" "data' = memcpy_at e1 (n + 16) (poly1305 (take (n + 16) e1) otk)"
      using run guard
      by (cases page1; simp add: R u(2) nonce otk e1_def e0_def d0_def reg [unfolded d0_def])+
    have regs: "region n 16 data' = nonce" "take (n + 16) data' = take (n + 16) e1"
      "region (n + 16) 16 data' = poly1305 (take (n + 16) e1) otk" "length data' = length data"
    proof -
      have "region n 16 data' = region n 16 e1" using n len by (simp add: e region_memcpy_at_before)
      also have "\<dots> = region n 16 e0" using n len u(1,3) by (simp add: e1_def region_memcpy_at_after)
      also have "\<dots> = region n 16 d0"
        using n bounds len by (simp add: e0_def chacha20_crypt_def region_memcpy_at_after)
      finally show "region n 16 data' = nonce" using reg by simp
      show "take (n + 16) data' = take (n + 16) e1" using n len by (simp add: e take_memcpy_at)
      show "region (n + 16) 16 data' = poly1305 (take (n + 16) e1) otk" using n len by (simp add: e region_memcpy_at_same_n)
      show "length data' = length data" using n len by (simp add: e)
    qed
    have d0: "take n d0 = take n data" using n wf by (simp add: d0_def take_memcpy_at)
    have header: "take 16 d0 = SQLITE_FILE_HEADER" if page1
      using u(3) u(5) [OF that] arg_cong [OF d0, of "take 16"] by simp
    have "take n (if page1 then memcpy_at (chacha20_crypt offset n otk nonce counter data') 0 SQLITE_FILE_HEADER
        else chacha20_crypt offset n otk nonce counter data') = take n d0"
    proof (rule chacha20_undo)
      show "data' ! i = chacha20_crypt offset n otk nonce counter d0 ! i" if "i < n" "\<not> (page1 \<and> i < 16)" for i
        using that n len u(1,3) by (auto simp: e e1_def e0_def nth_memcpy_at)
    qed (use n len u(3) bounds regs header in simp_all)
    moreover have "DecryptPageChaCha20Cipher c page data' reserved check = Some (SQLITE_OK,
        if page1 then memcpy_at (chacha20_crypt offset n otk nonce counter data') 0 SQLITE_FILE_HEADER
        else chacha20_crypt offset n otk nonce counter data')"
    proof -
      have off': "chacha20_offset c page = (ph, int offset)" using bounds(3) by (simp add: off offset_def)
      show ?thesis
        using chacha20_decrypt_auth [OF R u(2) off' bounds(1), of data' counter otk check] n otk regs len
        by (simp add: page1_def)
    qed
    ultimately show ?thesis
      using bounds len e(1) wf regs(4) d0 n u(3) by simp
  qed
qed

interpretation chacha20: page_cipher EncryptPageChaCha20Cipher DecryptPageChaCha20Cipher chacha20_usable
proof
  fix c page data reserved r rc data' r'
  assume A: "chacha20_usable c page data reserved" "rng_wf r" "EncryptPageChaCha20Cipher c page data reserved r = Some (rc, data', r')"
  show "rc = SQLITE_OK \<and> length data' = length data \<and> rng_wf r'" using chacha20_page [OF A] by blast
  fix check
  have le: "length data - nat reserved \<le> nat (int (length data) - chacha20_nReserved c reserved)"
    using chacha20_match [of c reserved] A(1) by (auto simp: chacha20_usable_def)
  obtain d where d: "DecryptPageChaCha20Cipher c page data' reserved check = Some (SQLITE_OK, d)" "length d = length data"
    "take (nat (int (length data) - chacha20_nReserved c reserved)) d = take (nat (int (length data) - chacha20_nReserved c reserved)) data"
    using chacha20_page [OF A, of check] by blast
  moreover from arg_cong [OF d(3), of "take (length data - nat reserved)"] le
  have "take (length data - nat reserved) d = take (length data - nat reserved) data" by (simp add: min_absorb1)
  ultimately show "\<exists>d. DecryptPageChaCha20Cipher c page data' reserved check = Some (SQLITE_OK, d) \<and> length d = length data
        \<and> take (length data - nat reserved) d = take (length data - nat reserved) data" by blast
qed

text \<open>A new database: the cipher object with the default parameters, 32 reserved bytes.\<close>

definition new_chacha20 :: ChaCha20Cipher where
  "new_chacha20 = \<lparr>cc_legacy = 0, cc_legacyPageSize = 4096, cc_kdfIter = 64007, cc_plaintextHeaderSize = 0, cc_keyLength = 32,
     cc_key = replicate 32 0, cc_salt = replicate 16 0\<rparr>"

text \<open>
  C12. Encrypting the pages of a database in sequence, each with a fresh nonce, and decrypting
  them gives all pages back, with and without the check of the authentication codes; only the reserved
  bytes at the end of the pages change.
\<close>

theorem chacha20_file_roundtrip:
  assumes "\<forall>p \<in> set ps. chacha20_usable c (fst p) (snd p) reserved" and "rng_wf r"
    and "chacha20.encrypt_file c reserved ps r = Some (es, r')"
  shows "length es = length ps \<and> (\<forall>k < length ps. fst (es ! k) = fst (ps ! k) \<and>
    (\<exists>d. DecryptPageChaCha20Cipher c (fst (ps ! k)) (snd (es ! k)) reserved check = Some (SQLITE_OK, d)
      \<and> take (length d - nat reserved) d = take (length (snd (ps ! k)) - nat reserved) (snd (ps ! k))))"
  using chacha20.file_roundtrip [OF assms, of check]
  by (auto simp: list_all2_conv_all_nth chacha20.decrypts_to_def)

text \<open>Encryption of an acceptable page never fails otherwise than by the entropy source.\<close>

lemma chacha20_encrypts:
  assumes "chacha20_usable c page data reserved" and "rng_wf r" and "chacha20_rng 16 r = Some (nonce, r')"
  obtains e s where "EncryptPageChaCha20Cipher c page data reserved r = Some (SQLITE_OK, e, s)"
proof -
  have "EncryptPageChaCha20Cipher c page data reserved r \<noteq> None"
    using assms(1,3) by (auto simp: EncryptPageChaCha20Cipher_def chacha20_usable_def Let_def split: prod.splits)
  then obtain rc e s where e: "EncryptPageChaCha20Cipher c page data reserved r = Some (rc, e, s)" by auto
  then have "rc = SQLITE_OK" using chacha20.enc_ok [OF assms(1,2)] by blast
  with e that show thesis by blast
qed

lemma new_chacha20_usable: "page \<noteq> 1 \<Longrightarrow> 48 \<le> length data \<Longrightarrow> chacha20_usable new_chacha20 page data 32"
  by (simp add: chacha20_usable_def new_chacha20_def chacha20_mismatch_def chacha20_nReserved_def GetReservedChaCha20Cipher_def
      chacha20_offset_def)

theorem chacha20_file_roundtrip_witness:
  "\<exists>es r'. chacha20.encrypt_file new_chacha20 32 [(2, replicate 64 7)] full_rng = Some (es, r')
    \<and> (\<exists>d. DecryptPageChaCha20Cipher new_chacha20 2 (snd (es ! 0)) 32 True = Some (SQLITE_OK, d)
        \<and> take (length d - 32) d = replicate 32 7)"
proof -
  obtain e s where "EncryptPageChaCha20Cipher new_chacha20 2 (replicate 64 7) 32 full_rng = Some (SQLITE_OK, e, s)"
    by (rule chacha20_encrypts [OF new_chacha20_usable [of 2 "replicate 64 7"] full_rng]) simp_all
  then have e: "chacha20.encrypt_file new_chacha20 32 [(2, replicate 64 7)] full_rng = Some ([(2, e)], s)"
    by simp
  have "chacha20_usable new_chacha20 2 (replicate 64 7) 32" by (rule new_chacha20_usable) simp_all
  with chacha20_file_roundtrip [OF _ full_rng(1) e, of True] e show ?thesis by auto
qed

text \<open>
  C13. Tampering: replace the encrypted part of a page by anything of the same length, keeping nonce and tag. The
  page is accepted exactly when its Poly1305 tag under the one-time key of that page is the old one; otherwise
  the result is SQLITE_NOTADB for page 1 and SQLITE_CORRUPT for any other page. Without the check, every
  page is accepted.
\<close>

theorem chacha20_tampering:
  assumes "chacha20_usable c page data reserved" and "0 < reserved" and "rng_wf r"
    and "EncryptPageChaCha20Cipher c page data reserved r = Some (rc, e, r')"
    and "length e' = length e" and "drop (length e - 32) e' = drop (length e - 32) e"
  defines "otk \<equiv> snd (chacha20_otk (cc_key c) (region (length e - 32) 16 e) page)"
  shows "\<exists>d d'. DecryptPageChaCha20Cipher c page e' reserved True =
      Some (if poly1305 (take (length e - 16) e') otk = poly1305 (take (length e - 16) e) otk then SQLITE_OK
            else if page = 1 then SQLITE_NOTADB else SQLITE_CORRUPT, d)
    \<and> DecryptPageChaCha20Cipher c page e' reserved False = Some (SQLITE_OK, d')"
proof -
  have R: "chacha20_nReserved c reserved = 32"
    using assms(2) by (simp add: chacha20_nReserved_def GetReservedChaCha20Cipher_def)
  have m: "\<not> chacha20_mismatch c reserved" using assms(1) by (simp add: chacha20_usable_def)
  obtain ph offset where off: "chacha20_offset c page = (ph, int offset)"
    using chacha20_offset_nonneg [of c page] by (metis prod.collapse nonneg_int_cases)
  have len_e: "length e = length data" using chacha20.enc_ok [OF assms(1,3,4)] by blast
  define n where "n = length e - 32"
  have len: "offset \<le> n" "length e = n + 32"
    using assms(1) off by (auto simp: chacha20_usable_def n_def len_e R)
  define counter where "counter = fst (chacha20_otk (cc_key c) (region n 16 e) page)"
  have otk: "chacha20_otk (cc_key c) (region n 16 e) page = (counter, otk)" by (simp add: counter_def otk_def n_def)
  have tail: "drop n e' = drop n e" using assms(6) by (simp only: n_def)
  have "drop (16 + n) e' = drop (16 + n) e" using arg_cong [OF tail, of "drop 16"] by (simp only: drop_drop)
  with tail have same: "region n 16 e' = region n 16 e" "region (n + 16) 16 e' = region (n + 16) 16 e"
    by (simp_all add: region_def add.commute)
  have "fst (the (DecryptPageChaCha20Cipher c page e reserved True)) = SQLITE_OK"
    using chacha20.dec_enc [OF assms(1,3,4), of True] by auto
  then have tag: "region (n + 16) 16 e = poly1305 (take (n + 16) e) otk"
    using chacha20_decrypt_auth [OF R m off len otk, of True] by (auto split: if_splits)
  have n: "length e - 16 = n + 16" using len by simp
  show ?thesis
    using chacha20_decrypt_auth [OF R m off len(1), of e' counter otk] len assms(5) same tag otk
    by (auto simp: page_error_def n add.commute)
qed

theorem chacha20_tampering_witness:
  "\<exists>e s d. EncryptPageChaCha20Cipher new_chacha20 2 (replicate 64 7) 32 full_rng = Some (SQLITE_OK, e, s)
    \<and> DecryptPageChaCha20Cipher new_chacha20 2 e 32 True = Some (SQLITE_OK, d)"
proof -
  have u: "chacha20_usable new_chacha20 2 (replicate 64 7) 32" by (rule new_chacha20_usable) simp_all
  obtain e s where e: "EncryptPageChaCha20Cipher new_chacha20 2 (replicate 64 7) 32 full_rng = Some (SQLITE_OK, e, s)"
    by (rule chacha20_encrypts [OF u full_rng])
  from chacha20_tampering [OF u _ full_rng(1) this, of e] have
    "\<exists>d. DecryptPageChaCha20Cipher new_chacha20 2 e 32 True = Some (SQLITE_OK, d)" by simp
  with e show ?thesis by blast
qed

section \<open>The key\<close>

text \<open>The two halves of the key generation.\<close>

lemma chacha20_derive:
  assumes "new_salt (cc_plaintextHeaderSize c) rekey cipherSalt r = Some (salt, keyOnly, r')" "length (cc_key c) = 32" "length salt = 16"
  shows "GenerateKeyChaCha20Cipher c pw rekey cipherSalt r =
    (case raw_key pw of
       None \<Rightarrow> map_option (\<lambda>k. (c\<lparr>cc_key := k, cc_salt := salt\<rparr>, r'))
                 (fastpbkdf2_hmac_sha256 pw salt (nat (cc_kdfIter c mod 2 ^ 32)) 32)
     | Some (k, s) \<Rightarrow> Some (c\<lparr>cc_key := k, cc_salt := (if keyOnly then salt else case s of None \<Rightarrow> salt | Some t \<Rightarrow> t)\<rparr>, r'))"
  using assms
  by (auto simp: GenerateKeyChaCha20Cipher_def sqlite3mcExtractRawKey_raw use_raw_key_def split: option.splits)

text \<open>
  Whoever opens the database with the same passphrase gets the key with which it was encrypted: after the
  generation of a key in any mode (a new database, a new key, a new key in WAL mode), the
  generation for reading with the salt that page 1 then holds yields the same key and salt. This
  includes raw keys with and without a salt of their own.
\<close>

lemma chacha20_key_agreement:
  assumes "rng_wf r" and "length (cc_key c) = 32" and "\<forall>s. cipherSalt = Some s \<longrightarrow> 16 \<le> length s"
    and "GenerateKeyChaCha20Cipher c password rekey cipherSalt r = Some (c1, r1)"
    and "length (cc_key c') = 32" and "cc_kdfIter c' = cc_kdfIter c" and "cc_plaintextHeaderSize c' = cc_plaintextHeaderSize c"
  shows "\<exists>c2. GenerateKeyChaCha20Cipher c' password 0 (Some (cc_salt c1)) r2 = Some (c2, r2)
    \<and> cc_key c2 = cc_key c1 \<and> cc_salt c2 = cc_salt c1"
proof -
  obtain salt keyOnly r' where s: "new_salt (cc_plaintextHeaderSize c) rekey cipherSalt r = Some (salt, keyOnly, r')"
    using assms(4) by (auto simp: GenerateKeyChaCha20Cipher_def split: option.splits)
  note salt = new_salt_cases [OF s assms(1,3)]
  note first = assms(4) [unfolded chacha20_derive [OF s assms(2) salt [THEN conjunct1]]]
  have len: "length (cc_salt c1) = 16"
    using first salt raw_key_length [of password] by (auto split: option.splits)
  have s2: "new_salt (cc_plaintextHeaderSize c') 0 (Some (cc_salt c1)) r2 = Some (cc_salt c1, \<not> cc_plaintextHeaderSize c' > 0, r2)"
    using len by (simp add: new_salt_def salt_rekey_def)
  show ?thesis
    unfolding chacha20_derive [OF s2 assms(5) len]
    using first salt by (auto simp: assms(6,7) split: option.splits)
qed

lemma chacha20_key_agreement_witness:
  "\<exists>c1 r1 c2. GenerateKeyChaCha20Cipher new_chacha20 ([0x72, 0x61, 0x77, 0x3a] @ replicate 32 5) 1 None full_rng = Some (c1, r1)
    \<and> GenerateKeyChaCha20Cipher new_chacha20 ([0x72, 0x61, 0x77, 0x3a] @ replicate 32 5) 0 (Some (cc_salt c1)) full_rng = Some (c2, full_rng)
    \<and> cc_key c2 = replicate 32 5"
proof -
  define pw :: bytes where "pw = [0x72, 0x61, 0x77, 0x3a] @ replicate 32 5"
  have raw: "raw_key pw = Some (replicate 32 5, None)" by (simp add: raw_key_def Let_def pw_def)
  have key: "length (cc_key new_chacha20) = 32" by (simp add: new_chacha20_def)
  have "new_salt (cc_plaintextHeaderSize new_chacha20) 1 None full_rng =
      Some (map of_nat [0..<16], False, full_rng\<lparr>rng_available := 48\<rparr>)" by (simp add: new_salt_def)
  from chacha20_derive [OF this key, of pw] obtain c1 r1 where c1:
    "GenerateKeyChaCha20Cipher new_chacha20 pw 1 None full_rng = Some (c1, r1)" "cc_key c1 = replicate 32 5"
    by (auto simp: raw)
  from chacha20_key_agreement [OF full_rng(1) key _ c1(1) key refl refl, of full_rng] c1 show ?thesis
    unfolding pw_def by auto
qed

section \<open>The allocation\<close>

lemma chacha20_param_positions:
  "find_entry fst ''legacy'' (param_specs mcChaCha20Params) = Some 0"
  "find_entry fst ''legacy_page_size'' (param_specs mcChaCha20Params) = Some 1"
  "find_entry fst ''kdf_iter'' (param_specs mcChaCha20Params) = Some 2"
  "find_entry fst ''plaintext_header_size'' (param_specs mcChaCha20Params) = Some 3"
  by code_simp+

definition chacha20_position :: "string \<Rightarrow> nat" where
  "chacha20_position n = (if n = ''legacy'' then 0 else if n = ''legacy_page_size'' then 1 else if n = ''kdf_iter'' then 2 else 3)"

text \<open>
  In every state that the library can reach, a cipher object that is allocated for a connection takes over the
  current values of its parameters, which fall back to their defaults; and these values make every
  later generation of a key for an existing database succeed: no assertion of the key
  derivation fails, whatever the password (of less than \<open>2 ^ 29\<close> bytes).
\<close>

theorem chacha20_allocation:
  assumes "mc_reachable r" and "sqlite3_malloc (reg_cfg r) = (True, s)"
    and "sqlite3mcGetCipherParams db ''chacha20'' s = (db', j)" and "params_at db' j s = Some ps"
    and "param_specs ps = param_specs mcChaCha20Params"
  shows "\<exists>c s'. AllocateChaCha20Cipher db (reg_cfg r) = Some (Some c, s')
    \<and> [cc_legacy c, cc_legacyPageSize c, cc_plaintextHeaderSize c] = map (\<lambda>k. p_value (ps ! k)) [0, 1, 3]
    \<and> cc_kdfIter c = (if cc_legacy c = 1 then 12345 else p_value (ps ! 2))
    \<and> params_at db' j s' = Some (map (\<lambda>p. p\<lparr>p_value := p_default p\<rparr>) ps)
    \<and> (\<forall>password salt g. length password < 2 ^ 29 \<longrightarrow> length salt = 16 \<longrightarrow>
         (\<exists>c'. GenerateKeyChaCha20Cipher c password 0 (Some salt) g = Some (c', g)))"
proof -
  have "cfg_wf True (reg_cfg r)" using mc_reachable_wf [OF assms(1)] by (simp add: registry_wf_def)
  moreover obtain a where "s = (reg_cfg r)\<lparr>allocs := a\<rparr>" by (rule sqlite3_malloc_allocs [OF assms(2)])
  ultimately have wf: "cfg_wf True s" by simp
  let ?ns = "[''legacy'', ''legacy_page_size'', ''kdf_iter'', ''plaintext_header_size'']"
  obtain s' where read: "read_parameters (sqlite3mcGetCipherParams db ''chacha20'' s) ?ns s =
      Some (map (\<lambda>n. p_value (ps ! chacha20_position n)) ?ns, s')"
    and at: "params_at db' j s' = Some (fold reset_param (map chacha20_position ?ns) ps)"
    and range: "\<forall>k < length mcChaCha20Params. p_value (ps ! k) \<in> {p_min (mcChaCha20Params ! k) .. p_max (mcChaCha20Params ! k)}"
    using allocation_reads [OF wf assms(3-5), of ?ns chacha20_position] chacha20_param_positions
    by (auto simp: chacha20_position_def)
  have ranges: "p_value (ps ! 0) \<in> {0..1}" "p_value (ps ! 2) \<in> {1..0x7fffffff}"
    using range [rule_format, of 0] range [rule_format, of 2] by (simp_all add: mcChaCha20Params_def param_def)
  have "length (param_specs ps) = 4" using assms(5) by (simp add: mcChaCha20Params_def param_specs_def)
  then obtain p0 p1 p2 p3 where ps: "ps = [p0, p1, p2, p3]"
    by (auto simp: param_specs_def numeral_eq_Suc length_Suc_conv)
  have reset: "fold reset_param (map chacha20_position ?ns) ps = map (\<lambda>p. p\<lparr>p_value := p_default p\<rparr>) ps"
    by (simp add: ps chacha20_position_def reset_param_def numeral_3_eq_3 numeral_2_eq_2)
  define c where "c = \<lparr>cc_legacy = p_value p0, cc_legacyPageSize = p_value p1,
      cc_kdfIter = (if p_value p0 \<noteq> 0 then 12345 else p_value p2), cc_plaintextHeaderSize = p_value p3, cc_keyLength = 32,
      cc_key = replicate 32 0, cc_salt = replicate 16 0\<rparr>"
  have alloc: "AllocateChaCha20Cipher db (reg_cfg r) = Some (Some c, s')"
    unfolding AllocateChaCha20Cipher_def assms(2) using read
    by (simp add: Let_def ps chacha20_position_def c_def)
  have iter: "0 < nat (cc_kdfIter c mod 2 ^ 32)"
    using ranges by (auto simp: c_def ps)
  have "\<exists>c'. GenerateKeyChaCha20Cipher c password 0 (Some salt) g = Some (c', g)"
    if pw: "length password < 2 ^ 29" and salt: "length salt = 16" for password salt g
  proof -
    have s: "new_salt (cc_plaintextHeaderSize c) 0 (Some salt) g = Some (salt, \<not> cc_plaintextHeaderSize c > 0, g)"
      using salt by (simp add: new_salt_def salt_rekey_def)
    have key: "length (cc_key c) = 32" by (simp add: c_def)
    have "fastpbkdf2_hmac_sha256 password salt (nat (cc_kdfIter c mod 2 ^ 32)) 32 \<noteq> None"
      unfolding fastpbkdf2_hmac_sha256_def
      by (subst sha256.PBKDF2_correct [OF iter]) (use pw salt in \<open>simp_all add: sha256_ops_simps\<close>)
    then show ?thesis unfolding chacha20_derive [OF s key salt] by (auto split: option.splits)
  qed
  moreover have "params_at db' j s' = Some (map (\<lambda>p. p\<lparr>p_value := p_default p\<rparr>) ps)" using at reset by simp
  moreover have "[cc_legacy c, cc_legacyPageSize c, cc_plaintextHeaderSize c] = map (\<lambda>k. p_value (ps ! k)) [0, 1, 3]"
    "cc_kdfIter c = (if cc_legacy c = 1 then 12345 else p_value (ps ! 2))"
    using ranges(1) by (auto simp: c_def ps)
  ultimately show ?thesis using alloc by (intro exI [of _ c] exI [of _ s']) blast
qed

theorem chacha20_allocation_witness:
  "\<exists>c s' c'. AllocateChaCha20Cipher True opened_cfg = Some (Some c, s') \<and> cc_kdfIter c = 64007
    \<and> GenerateKeyChaCha20Cipher c [0x70, 0x77] 0 (Some (replicate 16 9)) full_rng = Some (c', full_rng)"
proof -
  have m: "sqlite3_malloc (reg_cfg opened_registry) = (True, opened_cfg)"
    and ref: "sqlite3mcGetCipherParams True ''chacha20'' opened_cfg = (True, 3)"
    unfolding opened_registry(2) by code_simp+
  have at: "params_at True 3 opened_cfg = Some mcChaCha20Params" using opened_cfg_tables by (simp add: params_at_Some)
  obtain c s' where "AllocateChaCha20Cipher True (reg_cfg opened_registry) = Some (Some c, s')"
    "[cc_legacy c, cc_legacyPageSize c, cc_plaintextHeaderSize c] = map (\<lambda>k. p_value (mcChaCha20Params ! k)) [0, 1, 3]"
    "cc_kdfIter c = (if cc_legacy c = 1 then 12345 else p_value (mcChaCha20Params ! 2))"
    "\<forall>password salt g. length password < 2 ^ 29 \<longrightarrow> length salt = 16 \<longrightarrow>
         (\<exists>c'. GenerateKeyChaCha20Cipher c password 0 (Some salt) g = Some (c', g))"
    using chacha20_allocation [OF opened_registry(1) m ref at refl] by (elim exE conjE) (rule that; assumption)
  moreover from this(4) have "\<exists>c'. GenerateKeyChaCha20Cipher c [0x70, 0x77] 0 (Some (replicate 16 9)) full_rng = Some (c', full_rng)"
    by simp
  ultimately show ?thesis by (auto simp: mcChaCha20Params_def param_def opened_registry(2))
qed

end
