(* ===== verification/Cipher_RC4.thy ===== *)
theory Cipher_RC4
  imports Page_Cipher PBKDF2
begin

text \<open>
  The RC4 cipher of System.Data.SQLite, \<^verbatim>\<open>src/src/cipher_sds_rc4.c\<close>: the whole page is combined
  with the key stream of the SHA-1 digest of the password; there is no salt, no reserved
  space and no authentication. \<open>le\<close> is the byte order of the host, on which the SHA-1 code depends.
\<close>

record RC4Cipher =
  rc4_legacy :: int
  rc4_legacyPageSize :: int
  rc4_keyLength :: int
  rc4_key :: bytes

definition AllocateRC4Cipher :: "bool \<Rightarrow> mc_config \<Rightarrow> (RC4Cipher option \<times> mc_config) option" where
  "AllocateRC4Cipher db s =
     (let (ok, s) = sqlite3_malloc s
      in if \<not> ok then Some (None, s)
         else case read_parameters (sqlite3mcGetCipherParams db ''rc4'' s) [''legacy'', ''legacy_page_size''] s of
           Some ([legacy, pageSize], s) \<Rightarrow>
             Some (Some \<lparr>rc4_legacy = legacy, rc4_legacyPageSize = pageSize, rc4_keyLength = 16,
                         rc4_key = replicate 16 0\<rparr>, s)
         | _ \<Rightarrow> None)"

definition FreeRC4Cipher :: "RC4Cipher \<Rightarrow> RC4Cipher" where
  "FreeRC4Cipher c = \<lparr>rc4_legacy = 0, rc4_legacyPageSize = 0, rc4_keyLength = 0, rc4_key = replicate 16 0\<rparr>"

definition CloneRC4Cipher :: "RC4Cipher \<Rightarrow> RC4Cipher \<Rightarrow> RC4Cipher" where
  "CloneRC4Cipher cipherTo cipherFrom =
     cipherTo\<lparr>rc4_legacy := rc4_legacy cipherFrom, rc4_legacyPageSize := rc4_legacyPageSize cipherFrom,
       rc4_keyLength := rc4_keyLength cipherFrom, rc4_key := memcpy_at (rc4_key cipherTo) 0 (take 16 (rc4_key cipherFrom))\<rparr>"

definition GetLegacyRC4Cipher :: "RC4Cipher \<Rightarrow> int" where
  "GetLegacyRC4Cipher c = rc4_legacy c"

definition GetPageSizeRC4Cipher :: "RC4Cipher \<Rightarrow> int" where
  "GetPageSizeRC4Cipher c = (if rc4_legacy c \<noteq> 0 then legacy_page_size (rc4_legacyPageSize c) else 0)"

definition GetReservedRC4Cipher :: "RC4Cipher \<Rightarrow> int" where
  "GetReservedRC4Cipher c = 0"

definition GetSaltRC4Cipher :: "RC4Cipher \<Rightarrow> bytes option" where
  "GetSaltRC4Cipher c = None"

definition GenerateKeyRC4Cipher :: "bool \<Rightarrow> RC4Cipher \<Rightarrow> bytes \<Rightarrow> int \<Rightarrow> bytes option \<Rightarrow> rng \<Rightarrow> (RC4Cipher \<times> rng) option" where
  "GenerateKeyRC4Cipher le c userPassword rekey cipherSalt r =
     (let digest = fst (sha1_final le (sha1_update le sha1_init userPassword))
      in Some (c\<lparr>rc4_key := memcpy_at (rc4_key c) 0 (take 16 digest)\<rparr>, r))"

definition EncryptPageRC4Cipher :: "RC4Cipher \<Rightarrow> int \<Rightarrow> bytes \<Rightarrow> int \<Rightarrow> rng \<Rightarrow> (int \<times> bytes \<times> rng) option" where
  "EncryptPageRC4Cipher c page data reserved r =
     Some (SQLITE_OK, sqlite3mcRC4 (take (nat (rc4_keyLength c)) (rc4_key c)) data, r)"

definition DecryptPageRC4Cipher :: "RC4Cipher \<Rightarrow> int \<Rightarrow> bytes \<Rightarrow> int \<Rightarrow> bool \<Rightarrow> (int \<times> bytes) option" where
  "DecryptPageRC4Cipher c page data reserved hmacCheck =
     Some (SQLITE_OK, sqlite3mcRC4 (take (nat (rc4_keyLength c)) (rc4_key c)) data)"

definition mcRC4Descriptor :: "bool \<Rightarrow> RC4Cipher CipherDescriptor" where
  "mcRC4Descriptor le = \<lparr>d_name = Some ''rc4'', m_allocateCipher = Some AllocateRC4Cipher, m_freeCipher = Some FreeRC4Cipher,
     m_cloneCipher = Some CloneRC4Cipher, m_getLegacy = Some GetLegacyRC4Cipher, m_getPageSize = Some GetPageSizeRC4Cipher,
     m_getReserved = Some GetReservedRC4Cipher, m_getSalt = Some GetSaltRC4Cipher, m_generateKey = Some (GenerateKeyRC4Cipher le),
     m_encryptPage = Some EncryptPageRC4Cipher, m_decryptPage = Some DecryptPageRC4Cipher\<rparr>"

interpretation rc4: page_cipher EncryptPageRC4Cipher DecryptPageRC4Cipher "\<lambda>_ _ _ _. True"
  by unfold_locales (auto simp: EncryptPageRC4Cipher_def DecryptPageRC4Cipher_def)

text \<open>
  The length of a page, whatever its number, does not change, and the whole page comes back.
\<close>

lemma rc4_page_whole:
  "EncryptPageRC4Cipher c page data reserved r = Some (rc, data', r') \<Longrightarrow>
     rc = SQLITE_OK \<and> r' = r \<and> DecryptPageRC4Cipher c page data' reserved' check = Some (SQLITE_OK, data)"
  by (auto simp: EncryptPageRC4Cipher_def DecryptPageRC4Cipher_def)

lemma xor_bytes_cancel:
  "length xs = length ys \<Longrightarrow> length ys \<le> length ks \<Longrightarrow>
     xor_bytes (xor_bytes xs ks) (xor_bytes ys ks) = xor_bytes xs ys"
proof (intro nth_equalityI)
  show "xor_bytes (xor_bytes xs ks) (xor_bytes ys ks) ! i = xor_bytes xs ys ! i"
    if "length xs = length ys" "length ys \<le> length ks" "i < length (xor_bytes (xor_bytes xs ks) (xor_bytes ys ks))" for i
    using that xor.left_commute [of "ks ! i" "ys ! i" "ks ! i"] by (simp add: xor.assoc)
qed simp

text \<open>
  C14. With the key of a password the pages are xored with the RC4 key stream of the first 16 bytes of
  its SHA-1 digest, the same for every page: two encrypted pages reveal the exclusive or of
  their contents.
\<close>

theorem rc4_page_encryption:
  assumes "length password < 2 ^ 29" and "length (rc4_key c0) = 16" and "rc4_keyLength c0 = 16"
    and "GenerateKeyRC4Cipher le c0 password rekey salt r = Some (c, r')"
    and "length data1 = length data2"
  shows "\<exists>e1 e2. EncryptPageRC4Cipher c page1 data1 reserved r' = Some (SQLITE_OK, e1, r')
    \<and> EncryptPageRC4Cipher c page2 data2 reserved r' = Some (SQLITE_OK, e2, r')
    \<and> e1 = xor_bytes data1 (rc4_stream (0, 0, rc4_setup (take 16 (sha1_spec password))) (length data1))
    \<and> DecryptPageRC4Cipher c page1 e1 reserved check = Some (SQLITE_OK, data1)
    \<and> xor_bytes e1 e2 = xor_bytes data1 data2"
proof -
  have "fst (h_final (sha1_ops le) (h_update (sha1_ops le) (h_init (sha1_ops le)) password)) = sha1_spec ([] @ password)"
    using assms(1) by (intro sha1.st_final sha1.st_update sha1.st_init) simp_all
  then have "fst (sha1_final le (sha1_update le sha1_init password)) = sha1_spec password" by (simp add: sha1_ops_simps)
  moreover have "length (sha1_spec password) = 20" using sha1.len_H [of password le] by (simp add: sha1_ops_simps)
  ultimately have "take (nat (rc4_keyLength c)) (rc4_key c) = take 16 (sha1_spec password)"
    using assms(2-4) by (auto simp: GenerateKeyRC4Cipher_def memcpy_at_all)
  then show ?thesis
    using assms(5) xor_bytes_cancel [OF assms(5)]
    by (simp add: EncryptPageRC4Cipher_def DecryptPageRC4Cipher_def sqlite3mcRC4_stream)
qed

theorem rc4_page_encryption_witness:
  "\<exists>c e1 e2. GenerateKeyRC4Cipher True \<lparr>rc4_legacy = 1, rc4_legacyPageSize = 0, rc4_keyLength = 16, rc4_key = replicate 16 0\<rparr>
       [0x70, 0x77] 0 None (rng_start (\<lambda>_. [])) = Some (c, rng_start (\<lambda>_. []))
     \<and> EncryptPageRC4Cipher c 1 [1, 2] 0 (rng_start (\<lambda>_. [])) = Some (SQLITE_OK, e1, rng_start (\<lambda>_. []))
     \<and> EncryptPageRC4Cipher c 2 [3, 4] 0 (rng_start (\<lambda>_. [])) = Some (SQLITE_OK, e2, rng_start (\<lambda>_. [])) \<and> xor_bytes e1 e2 = [2, 6]"
proof -
  define c0 where "c0 = \<lparr>rc4_legacy = 1, rc4_legacyPageSize = 0, rc4_keyLength = 16, rc4_key = replicate 16 0\<rparr>"
  obtain c where c: "GenerateKeyRC4Cipher True c0 [0x70, 0x77] 0 None (rng_start (\<lambda>_. [])) = Some (c, rng_start (\<lambda>_. []))"
    by (simp add: GenerateKeyRC4Cipher_def)
  obtain e1 e2 where "EncryptPageRC4Cipher c 1 [1, 2] 0 (rng_start (\<lambda>_. [])) = Some (SQLITE_OK, e1, rng_start (\<lambda>_. []))"
    "EncryptPageRC4Cipher c 2 [3, 4] 0 (rng_start (\<lambda>_. [])) = Some (SQLITE_OK, e2, rng_start (\<lambda>_. []))"
    "xor_bytes e1 e2 = xor_bytes [1, 2] [3, 4]"
    using rc4_page_encryption [OF _ _ _ c, where ?data1.0 = "[1, 2]" and ?data2.0 = "[3, 4]" and ?page1.0 = 1 and ?page2.0 = 2 and reserved = 0
      and check = True] by (auto simp: c0_def simp del: rc4_stream.simps)
  then show ?thesis unfolding c0_def [symmetric] using c by (intro exI [of _ c] exI [of _ e1] exI [of _ e2]) simp
qed

end
