(* ===== verification/Rijndael.thy ===== *)
theory Rijndael
  imports AES_Tables
begin

text \<open>
  The block cipher of \<^verbatim>\<open>src/src/rijndael.c\<close>, in the configuration without the AES instructions of the
  processor: the context, the key schedule and the encryption and decryption of one block with the
  combined tables. A block is a list of 16 bytes, the state \<^verbatim>\<open>temp[4][4]\<close> a list of four columns of
  four bytes; the 32-bit operations of the code work on whole columns.
\<close>

unbundle bit_operations_syntax

datatype rij_mode = Mode_ECB | Mode_CBC | Mode_CFB1
datatype rij_direction = Encrypt | Decrypt

text \<open>The expanded key is the list of all its columns, \<^verbatim>\<open>m_expandedKey[r][t]\<close> at position \<open>4 * r + t\<close>.\<close>

record Rijndael =
  rij_valid :: bool
  rij_mode :: rij_mode
  rij_direction :: rij_direction
  rij_initVector :: bytes
  rij_uRounds :: nat
  rij_expandedKey :: "bytes list"

definition round_key :: "Rijndael \<Rightarrow> nat \<Rightarrow> bytes list" where
  "round_key rij r = region (4 * r) 4 (rij_expandedKey rij)"

definition columns :: "bytes \<Rightarrow> bytes list" where
  "columns a = [region 0 4 a, region 4 4 a, region 8 4 a, region 12 4 a]"

definition add_round_key :: "bytes list \<Rightarrow> bytes list \<Rightarrow> bytes list" where
  "add_round_key s k = map2 xor_bytes s k"

section \<open>The key schedule\<close>

text \<open>
  The nested loops that copy \<^verbatim>\<open>tempKey\<close> into the expanded key fill it column by column until the last round
  key is complete.
\<close>

definition sched_copy :: "nat \<Rightarrow> bytes list \<Rightarrow> bytes list \<Rightarrow> bytes list" where
  "sched_copy uRounds tempKey expandedKey = expandedKey @ take (4 * (uRounds + 1) - length expandedKey) tempKey"

text \<open>\<^verbatim>\<open>tempKey[j] ^= tempKey[j-1]\<close> for the columns from \<open>from\<close> up to \<open>to\<close>.\<close>

definition xor_previous :: "nat \<Rightarrow> nat \<Rightarrow> bytes list \<Rightarrow> bytes list" where
  "xor_previous from to tempKey = foldl (\<lambda>t j. t[j := xor_bytes (t ! j) (t ! (j - 1))]) tempKey [from..<to]"

definition sched_core :: "byte \<Rightarrow> bytes list \<Rightarrow> bytes list" where
  "sched_core rc tempKey =
     (let uKeyColumns = length tempKey; l = tempKey ! (uKeyColumns - 1);
          g = [rij_S ! unat (l ! 1), rij_S ! unat (l ! 2), rij_S ! unat (l ! 3), rij_S ! unat (l ! 0)];
          t = tempKey[0 := xor_bytes (xor_bytes (tempKey ! 0) g) [rc, 0, 0, 0]]
      in if uKeyColumns \<noteq> 8 then xor_previous 1 uKeyColumns t
         else
           let t = xor_previous 1 (uKeyColumns div 2) t; m = uKeyColumns div 2;
               t = t[m := xor_bytes (t ! m) (map (\<lambda>x. rij_S ! unat x) (t ! (m - 1)))]
           in xor_previous (m + 1) uKeyColumns t)"

text \<open>The main loop uses up one constant of \<^verbatim>\<open>rcon\<close> each time.\<close>

fun sched_loop :: "nat \<Rightarrow> bytes \<Rightarrow> bytes list \<Rightarrow> bytes list \<Rightarrow> bytes list" where
  "sched_loop uRounds [] tempKey expandedKey = expandedKey"
| "sched_loop uRounds (rc # rcs) tempKey expandedKey =
     (if length expandedKey < 4 * (uRounds + 1) then
        let tempKey = sched_core rc tempKey
        in sched_loop uRounds rcs tempKey (sched_copy uRounds tempKey expandedKey)
      else expandedKey)"

definition RijndaelKeySched :: "bytes list \<Rightarrow> Rijndael \<Rightarrow> Rijndael" where
  "RijndaelKeySched key rij =
     (let uKeyColumns = rij_uRounds rij - 6; tempKey = take uKeyColumns key
      in rij\<lparr>rij_expandedKey := sched_loop (rij_uRounds rij) rij_rcon tempKey (sched_copy (rij_uRounds rij) tempKey [])\<rparr>)"

definition inv_mix_key :: "bytes \<Rightarrow> bytes" where
  "inv_mix_key w = xor_bytes (xor_bytes (xor_bytes (rij_U1 ! unat (w ! 0)) (rij_U2 ! unat (w ! 1)))
     (rij_U3 ! unat (w ! 2))) (rij_U4 ! unat (w ! 3))"

definition RijndaelKeyEncToDec :: "Rijndael \<Rightarrow> Rijndael" where
  "RijndaelKeyEncToDec rij =
     rij\<lparr>rij_expandedKey := map (\<lambda>i. let w = rij_expandedKey rij ! i
        in if 4 \<le> i \<and> i < 4 * rij_uRounds rij then inv_mix_key w else w) [0..<length (rij_expandedKey rij)]\<rparr>"

text \<open>A context as \<^verbatim>\<open>sqlite3_malloc\<close> and \<^verbatim>\<open>RijndaelCreate\<close> leave it; the other fields are not read before they are set.\<close>

definition new_rijndael :: Rijndael where
  "new_rijndael = \<lparr>rij_valid = False, rij_mode = Mode_ECB, rij_direction = Encrypt, rij_initVector = replicate 16 0,
     rij_uRounds = 0, rij_expandedKey = []\<rparr>"

text \<open>The memory of a context after it has been overwritten with zeros, which is the value of a valid state.\<close>

definition zero_rijndael :: Rijndael where
  "zero_rijndael = \<lparr>rij_valid = True, rij_mode = Mode_ECB, rij_direction = Encrypt, rij_initVector = replicate 16 0,
     rij_uRounds = 0, rij_expandedKey = replicate 60 (replicate 4 0)\<rparr>"

definition RijndaelCreate :: "Rijndael \<Rightarrow> Rijndael" where
  "RijndaelCreate rij = rij\<lparr>rij_valid := False\<rparr>"

definition RijndaelInvalidate :: "Rijndael \<Rightarrow> Rijndael" where
  "RijndaelInvalidate rij = rij\<lparr>rij_valid := False\<rparr>"

text \<open>
  \<^verbatim>\<open>RijndaelInit\<close> with its error codes. The code's integers for mode and direction are checked before
  they are stored; NULL is \<open>None\<close>.
\<close>

definition mode_of :: "int \<Rightarrow> rij_mode option" where
  "mode_of m = (if m = 0 then Some Mode_ECB else if m = 1 then Some Mode_CBC else if m = 2 then Some Mode_CFB1 else None)"

definition direction_of :: "int \<Rightarrow> rij_direction option" where
  "direction_of d = (if d = 0 then Some Encrypt else if d = 1 then Some Decrypt else None)"

definition key_sizes :: "int \<Rightarrow> (nat \<times> nat) option" where
  "key_sizes keyLen = (if keyLen = 0 then Some (16, 10) else if keyLen = 1 then Some (24, 12)
     else if keyLen = 2 then Some (32, 14) else None)"

definition RijndaelInit :: "Rijndael \<Rightarrow> int \<Rightarrow> int \<Rightarrow> bytes option \<Rightarrow> int \<Rightarrow> bytes option \<Rightarrow> int \<times> Rijndael" where
  "RijndaelInit rij mode dir key keyLen initVector =
     (let rij = rij\<lparr>rij_valid := False\<rparr>
      in case mode_of mode of None \<Rightarrow> (-1, rij)
       | Some m \<Rightarrow> let rij = rij\<lparr>rij_mode := m\<rparr> in
         (case direction_of dir of None \<Rightarrow> (-2, rij)
          | Some d \<Rightarrow>
            let rij = rij\<lparr>rij_direction := d,
                  rij_initVector := (case initVector of Some iv \<Rightarrow> take 16 iv | None \<Rightarrow> replicate 16 0)\<rparr> in
            (case key_sizes keyLen of None \<Rightarrow> (-3, rij)
             | Some (uKeyLenInBytes, uRounds) \<Rightarrow>
               let rij = rij\<lparr>rij_uRounds := uRounds\<rparr> in
               (case key of None \<Rightarrow> (-4, rij)
                | Some key \<Rightarrow>
                  let keyMatrix = map (\<lambda>j. region (4 * j) 4 key) [0..<uKeyLenInBytes div 4];
                      rij = RijndaelKeySched keyMatrix rij;
                      rij = (if d = Decrypt then RijndaelKeyEncToDec rij else rij)
                  in (0, rij\<lparr>rij_valid := True\<rparr>)))))"

section \<open>One block\<close>

definition enc_columns :: "bytes list \<Rightarrow> bytes list" where
  "enc_columns t = map (\<lambda>j. xor_bytes (xor_bytes (xor_bytes
       (rij_T1 ! unat (t ! j ! 0)) (rij_T2 ! unat (t ! ((j + 1) mod 4) ! 1)))
       (rij_T3 ! unat (t ! ((j + 2) mod 4) ! 2))) (rij_T4 ! unat (t ! ((j + 3) mod 4) ! 3))) [0, 1, 2, 3]"

definition enc_last :: "bytes list \<Rightarrow> bytes list" where
  "enc_last t = map (\<lambda>j. map (\<lambda>i. rij_T1 ! unat (t ! ((j + i) mod 4) ! i) ! 1) [0, 1, 2, 3]) [0, 1, 2, 3]"

definition RijndaelEncrypt :: "Rijndael \<Rightarrow> bytes \<Rightarrow> bytes" where
  "RijndaelEncrypt rij a =
     (let uRounds = rij_uRounds rij;
          b = enc_columns (add_round_key (columns a) (round_key rij 0));
          b = foldl (\<lambda>b r. enc_columns (add_round_key b (round_key rij r))) b [1..<uRounds - 1];
          b = enc_last (add_round_key b (round_key rij (uRounds - 1)))
      in concat (add_round_key b (round_key rij uRounds)))"

definition dec_columns :: "bytes list \<Rightarrow> bytes list" where
  "dec_columns t = map (\<lambda>j. xor_bytes (xor_bytes (xor_bytes
       (rij_T5 ! unat (t ! j ! 0)) (rij_T6 ! unat (t ! ((j + 3) mod 4) ! 1)))
       (rij_T7 ! unat (t ! ((j + 2) mod 4) ! 2))) (rij_T8 ! unat (t ! ((j + 1) mod 4) ! 3))) [0, 1, 2, 3]"

definition dec_last :: "bytes list \<Rightarrow> bytes list" where
  "dec_last t = map (\<lambda>j. map (\<lambda>i. rij_S5 ! unat (t ! ((j + 4 - i) mod 4) ! i)) [0, 1, 2, 3]) [0, 1, 2, 3]"

definition RijndaelDecrypt :: "Rijndael \<Rightarrow> bytes \<Rightarrow> bytes" where
  "RijndaelDecrypt rij a =
     (let uRounds = rij_uRounds rij;
          b = dec_columns (add_round_key (columns a) (round_key rij uRounds));
          b = foldl (\<lambda>b r. dec_columns (add_round_key b (round_key rij r))) b (rev [2..<uRounds]);
          b = dec_last (add_round_key b (round_key rij 1))
      in concat (add_round_key b (round_key rij 0)))"

section \<open>The steps of a round\<close>

definition state_wf :: "bytes list \<Rightarrow> bool" where
  "state_wf s \<longleftrightarrow> length s = 4 \<and> (\<forall>c \<in> set s. length c = 4)"

lemma length_4E: "length xs = 4 \<Longrightarrow> (\<And>a b c d. xs = [a, b, c, d] \<Longrightarrow> P) \<Longrightarrow> P"
  by (auto simp: numeral_eq_Suc length_Suc_conv)

lemma state_wfE:
  assumes "state_wf s"
  obtains a0 a1 a2 a3 b0 b1 b2 b3 c0 c1 c2 c3 d0 d1 d2 d3
  where "s = [[a0, a1, a2, a3], [b0, b1, b2, b3], [c0, c1, c2, c3], [d0, d1, d2, d3]]"
proof -
  obtain a b c d where s: "s = [a, b, c, d]" "length a = 4" "length b = 4" "length c = 4" "length d = 4"
    using assms by (auto simp: state_wf_def elim: length_4E)
  then show thesis by (elim length_4E) (use that in simp)
qed

definition mix_column :: "bytes \<Rightarrow> bytes" where
  "mix_column w = xor_bytes (xor_bytes (xor_bytes (mix_column1 (w ! 0)) (rotate 3 (mix_column1 (w ! 1))))
     (rotate 2 (mix_column1 (w ! 2)))) (rotate 1 (mix_column1 (w ! 3)))"

lemma xor_cancel [simp]: "(x :: byte) XOR (x XOR y) = y"
  by (simp flip: xor.assoc)

lemma inv_mix_key_mix_column: "length c = 4 \<Longrightarrow> inv_mix_key (mix_column c) = c"
  by (erule length_4E)
    (simp add: inv_mix_key_def mix_column_def table_nth mix_column1_def inv_mix_column1_def Let_def
      xor.assoc xor.left_commute xor.commute)

lemma inv_mix_key_xor: "length c = 4 \<Longrightarrow> length d = 4 \<Longrightarrow> inv_mix_key (xor_bytes c d) = xor_bytes (inv_mix_key c) (inv_mix_key d)"
  by (elim length_4E)
    (simp add: inv_mix_key_def table_nth inv_mix_column1_def Let_def xor.assoc xor.left_commute xor.commute)

lemma enc_columns_eq: "state_wf s \<Longrightarrow> enc_columns s = map mix_column (enc_last s)"
  by (erule state_wfE) (simp add: enc_columns_def enc_last_def mix_column_def table_nth mix_column1_def)

lemma dec_columns_eq: "state_wf s \<Longrightarrow> dec_columns s = map inv_mix_key (dec_last s)"
  by (erule state_wfE) (simp add: dec_columns_def dec_last_def inv_mix_key_def table_nth inv_mix_column1_def)

lemma dec_last_enc_last: "state_wf s \<Longrightarrow> dec_last (enc_last s) = s"
  by (erule state_wfE) (simp add: dec_last_def enc_last_def table_nth mix_column1_def)

lemma state_wf_steps [simp]:
  "state_wf (enc_last s)" "state_wf (dec_last s)" "state_wf (enc_columns s)" "state_wf (dec_columns s)"
  by (simp_all add: state_wf_def enc_last_def dec_last_def enc_columns_def dec_columns_def table_nth
      mix_column1_def inv_mix_column1_def Let_def)

lemma add_round_key_wf [simp]: "state_wf s \<Longrightarrow> state_wf k \<Longrightarrow> state_wf (add_round_key s k)"
  by (elim state_wfE) (simp add: add_round_key_def state_wf_def)

lemma add_round_key_twice [simp]: "state_wf s \<Longrightarrow> state_wf k \<Longrightarrow> add_round_key (add_round_key s k) k = s"
  by (elim state_wfE) (simp add: add_round_key_def xor.assoc)

lemma inv_mix_add_round_key:
  "state_wf s \<Longrightarrow> state_wf k \<Longrightarrow> map inv_mix_key (add_round_key s k) = add_round_key (map inv_mix_key s) (map inv_mix_key k)"
  unfolding state_wf_def by (elim conjE length_4E) (simp add: add_round_key_def inv_mix_key_xor)

lemma inv_mix_enc_columns: "state_wf s \<Longrightarrow> map inv_mix_key (enc_columns s) = enc_last s"
  using state_wf_steps(1) [of s]
  by (simp add: enc_columns_eq state_wf_def inv_mix_key_mix_column map_idI)

lemma columns_wf: "length a = 16 \<Longrightarrow> state_wf (columns a)"
  by (simp add: columns_def state_wf_def)

lemma concat_columns: "length a = 16 \<Longrightarrow> concat (columns a) = a"
  by (rule nth_equalityI) (auto simp: columns_def region_def nth_append)

lemma columns_concat: "state_wf s \<Longrightarrow> columns (concat s) = s"
  by (erule state_wfE) (simp add: columns_def region_def)

lemma length_concat_state: "state_wf s \<Longrightarrow> length (concat s) = 16"
  by (erule state_wfE) simp

section \<open>Decryption undoes encryption\<close>

text \<open>The state after the rounds with the keys \<open>ks\<close>, as the code computes it and with the key added last.\<close>

lemma add_last:
  "add_round_key (foldl (\<lambda>b k. f (add_round_key b k)) (f s) ks) k = foldl (\<lambda>s k. add_round_key (f s) k) s (ks @ [k])"
  by (induction ks arbitrary: s k rule: rev_induct) auto

text \<open>Going back one round: from the shifted and substituted state after it to the one before it.\<close>

lemma dec_round:
  assumes "state_wf s" "state_wf k"
  shows "add_round_key (dec_columns (enc_last (add_round_key (enc_columns s) k))) (map inv_mix_key k) = enc_last s"
proof -
  have "state_wf (add_round_key (enc_columns s) k)" using assms by simp
  then have "dec_columns (enc_last (add_round_key (enc_columns s) k)) = map inv_mix_key (add_round_key (enc_columns s) k)"
    by (simp add: dec_columns_eq dec_last_enc_last)
  also have "\<dots> = add_round_key (enc_last s) (map inv_mix_key k)"
    using assms by (simp add: inv_mix_add_round_key inv_mix_enc_columns)
  moreover have "state_wf (map inv_mix_key k)" using assms(2)
    by (elim state_wfE) (simp add: state_wf_def inv_mix_key_def table_nth inv_mix_column1_def Let_def)
  ultimately show ?thesis by simp
qed

lemma dec_loop:
  assumes "state_wf s" "\<forall>k \<in> set ks. state_wf k"
  shows "foldl (\<lambda>t k. add_round_key (dec_columns t) (map inv_mix_key k))
      (enc_last (foldl (\<lambda>s k. add_round_key (enc_columns s) k) s ks)) (rev ks) = enc_last s"
  using assms
proof (induction ks arbitrary: s)
  case (Cons k ks)
  have wf: "state_wf (add_round_key (enc_columns s) k)" using Cons.prems by simp
  show ?case using Cons.IH [OF wf] Cons.prems by (simp add: dec_round)
qed simp

text \<open>
  A context for encryption and the one for decryption of the same expanded key.
\<close>

definition expanded_key_wf :: "Rijndael \<Rightarrow> bool" where
  "expanded_key_wf rij \<longleftrightarrow> 2 \<le> rij_uRounds rij \<and> length (rij_expandedKey rij) = 4 * (rij_uRounds rij + 1)
     \<and> (\<forall>c \<in> set (rij_expandedKey rij). length c = 4)"

lemma round_key_wf [simp]: "expanded_key_wf rij \<Longrightarrow> r \<le> rij_uRounds rij \<Longrightarrow> state_wf (round_key rij r)"
  by (auto simp: expanded_key_wf_def state_wf_def round_key_def region_def dest!: in_set_takeD in_set_dropD)

lemma round_key_EncToDec:
  assumes "expanded_key_wf rij" "r \<le> rij_uRounds rij"
  shows "round_key (RijndaelKeyEncToDec rij) r =
    (if 0 < r \<and> r < rij_uRounds rij then map inv_mix_key (round_key rij r) else round_key rij r)"
proof (rule nth_equalityI)
  have len: "length (rij_expandedKey rij) = 4 * (rij_uRounds rij + 1)" using assms(1) by (simp add: expanded_key_wf_def)
  show "length (round_key (RijndaelKeyEncToDec rij) r) =
      length (if 0 < r \<and> r < rij_uRounds rij then map inv_mix_key (round_key rij r) else round_key rij r)"
    by (simp add: round_key_def RijndaelKeyEncToDec_def)
  fix i assume "i < length (round_key (RijndaelKeyEncToDec rij) r)"
  then have i: "i < 4" by (simp add: round_key_def)
  then have "4 * r + i < length (rij_expandedKey rij)" using assms(2) len by simp
  then show "round_key (RijndaelKeyEncToDec rij) r ! i =
      (if 0 < r \<and> r < rij_uRounds rij then map inv_mix_key (round_key rij r) else round_key rij r) ! i"
    using i len by (auto simp: round_key_def RijndaelKeyEncToDec_def region_def Let_def)
qed

lemma RijndaelEncrypt_rounds:
  assumes "2 \<le> rij_uRounds rij"
  shows "RijndaelEncrypt rij a = concat (add_round_key (enc_last
    (foldl (\<lambda>s r. add_round_key (enc_columns s) (round_key rij r)) (add_round_key (columns a) (round_key rij 0)) [1..<rij_uRounds rij]))
    (round_key rij (rij_uRounds rij)))"
proof -
  define N where "N = rij_uRounds rij"
  define s0 where "s0 = add_round_key (columns a) (round_key rij 0)"
  have up: "[Suc 0..<N] = [Suc 0..<N - Suc 0] @ [N - Suc 0]"
    using assms upt_Suc_append [of 1 "N - 1"] by (simp add: N_def Suc_diff_le)
  show ?thesis
    using add_last [of enc_columns s0 "map (round_key rij) [1..<N - 1]" "round_key rij (N - 1)"]
    by (simp add: RijndaelEncrypt_def Let_def N_def [symmetric] s0_def [symmetric] up foldl_map)
qed

lemma RijndaelDecrypt_Encrypt:
  assumes wf: "expanded_key_wf rij" and dec: "rij_uRounds rij' = rij_uRounds rij"
    "\<And>r. r \<le> rij_uRounds rij \<Longrightarrow> round_key rij' r = round_key (RijndaelKeyEncToDec rij) r" and a: "length a = 16"
  shows "RijndaelDecrypt rij' (RijndaelEncrypt rij a) = a"
proof -
  define N where "N = rij_uRounds rij"
  let ?k = "round_key rij"
  have N: "2 \<le> N" using wf by (simp add: N_def expanded_key_wf_def)
  have k: "state_wf (?k r)" if "r \<le> N" for r using wf that by (simp add: N_def)
  have k': "round_key rij' r = (if 0 < r \<and> r < N then map inv_mix_key (?k r) else ?k r)" if "r \<le> N" for r
    using dec(2) that round_key_EncToDec [OF wf] by (simp add: N_def)
  define s0 where "s0 = add_round_key (columns a) (?k 0)"
  define s where "s = foldl (\<lambda>s k. add_round_key (enc_columns s) k) s0 (map ?k [1..<N])"
  have s0: "state_wf s0" using columns_wf [OF a] k by (simp add: s0_def)
  have "RijndaelEncrypt rij a = concat (add_round_key (enc_last s) (?k N))"
    using N by (simp add: RijndaelEncrypt_rounds s_def s0_def N_def foldl_map)
  then have cols: "add_round_key (columns (RijndaelEncrypt rij a)) (?k N) = enc_last s"
    using k [of N] by (simp add: columns_concat)
  have "[1..<N] = 1 # [2..<N]" using N by (simp add: upt_conv_Cons numeral_2_eq_2)
  then have down: "map (round_key rij') (rev [1..<N]) = map (round_key rij') (rev [2..<N]) @ [round_key rij' 1]" by simp
  have keys: "map (round_key rij') (rev [1..<N]) = map (map inv_mix_key) (rev (map ?k [1..<N]))"
    by (simp add: rev_map k')
  have "RijndaelDecrypt rij' (RijndaelEncrypt rij a) = concat (add_round_key (dec_last
      (foldl (\<lambda>t k. add_round_key (dec_columns t) k) (enc_last s) (map (round_key rij') (rev [1..<N])))) (?k 0))"
    unfolding down add_last [symmetric]
    by (simp add: RijndaelDecrypt_def Let_def dec(1) N_def [symmetric] cols k' foldl_map)
  also have "foldl (\<lambda>t k. add_round_key (dec_columns t) k) (enc_last s) (map (round_key rij') (rev [1..<N])) = enc_last s0"
    unfolding keys s_def using dec_loop [OF s0, of "map ?k [1..<N]"] k by (simp add: foldl_map rev_map)
  also have "concat (add_round_key (dec_last (enc_last s0)) (?k 0)) = a"
    using s0 columns_wf [OF a] k [of 0] by (simp add: dec_last_enc_last) (simp add: s0_def concat_columns [OF a])
  finally show ?thesis .
qed

section \<open>The key schedule of the standard\<close>

text \<open>FIPS 197, section 5.2: the word \<open>w i\<close> of the expanded key, for a key of \<open>nk\<close> words.\<close>

definition sub_word :: "bytes \<Rightarrow> bytes" where
  "sub_word = map sub_byte"

lemma key_word_less: "key \<noteq> [] \<Longrightarrow> \<not> i < length key \<Longrightarrow> i - length key < i \<and> i - Suc 0 < i"
  by (cases i; cases key) auto

function key_word :: "bytes list \<Rightarrow> nat \<Rightarrow> bytes" where
  "key_word key i =
     (let nk = length key in
      if nk = 0 then [] else if i < nk then key ! i
      else xor_bytes (key_word key (i - nk))
        (if i mod nk = 0 then xor_bytes (sub_word (rotate 1 (key_word key (i - 1)))) [(xtime ^^ (i div nk - 1)) 1, 0, 0, 0]
         else if nk > 6 \<and> i mod nk = 4 then sub_word (key_word key (i - 1))
         else key_word key (i - 1)))"
  by pat_completeness auto
termination by (relation "measure snd") (simp_all add: key_word_less)

declare key_word.simps [simp del]

lemma key_word_first: "i < length key \<Longrightarrow> key_word key i = key ! i"
  by (subst key_word.simps) (auto simp: Let_def)

lemma key_word_later:
  assumes "0 < nk" "length key = nk" "j < nk"
  shows "key_word key (nk + nk * b + j) = xor_bytes (key_word key (nk * b + j))
    (if j = 0 then xor_bytes (sub_word (rotate 1 (key_word key (nk + nk * b - 1)))) [(xtime ^^ b) 1, 0, 0, 0]
     else if nk > 6 \<and> j = 4 then sub_word (key_word key (nk + nk * b + j - 1))
     else key_word key (nk + nk * b + j - 1))"
proof -
  have "nk + nk * b + j = j + nk * Suc b" by simp
  then have "(nk + nk * b + j) div nk = Suc b" "(nk + nk * b + j) mod nk = j"
    using assms by (simp_all only: div_mult_self2 mod_mult_self2) simp_all
  then show ?thesis using assms by (subst key_word.simps) (auto simp: Let_def)
qed

lemma length_key_word [simp]:
  assumes "\<forall>c \<in> set key. length c = 4" "key \<noteq> []"
  shows "length (key_word key i) = 4"
proof (induction i rule: less_induct)
  case (less i)
  have "length (key_word key (i - 1)) = 4 \<and> length (key_word key (i - length key)) = 4" if "\<not> i < length key"
    using that assms(2) less [of "i - 1"] less [of "i - length key"] by (cases i) auto
  moreover have "length (rotate 1 (key_word key (i - 1))) = length (key_word key (i - 1))" by simp
  ultimately show ?case
    using assms by (subst key_word.simps) (auto simp: Let_def sub_word_def)
qed

lemma rcon_step: "k < 29 \<Longrightarrow> rij_rcon ! Suc k = xtime (rij_rcon ! k)"
proof -
  assume k: "k < 29"
  have "tl rij_rcon = map xtime (butlast rij_rcon)" "length rij_rcon = 30" by (simp_all add: rij_rcon_def xtime_def)
  then have "tl rij_rcon ! k = xtime (butlast rij_rcon ! k)" using k by simp
  then show ?thesis using k \<open>length rij_rcon = 30\<close> by (simp add: nth_tl nth_butlast)
qed

lemma rcon_nth: "k < 30 \<Longrightarrow> rij_rcon ! k = (xtime ^^ k) 1"
  by (induction k) (simp_all add: rcon_step, simp add: rij_rcon_def)

text \<open>One pass of the loop computes the next \<open>nk\<close> words.\<close>

lemma xor_previous_upt: "xor_previous a (Suc b) t =
    (if a \<le> b then (xor_previous a b t)[b := xor_bytes (xor_previous a b t ! b) (xor_previous a b t ! (b - 1))] else t)"
  by (simp add: xor_previous_def)

lemma length_xor_previous [simp]: "length (xor_previous a b t) = length t"
  by (induction b) (simp_all add: xor_previous_upt, simp add: xor_previous_def)

lemma nth_xor_previous:
  "j < length t \<Longrightarrow> 0 < a \<Longrightarrow> b \<le> length t \<Longrightarrow> xor_previous a b t ! j =
     (if a \<le> j \<and> j < b then xor_bytes (t ! j) (xor_previous a b t ! (j - 1)) else t ! j)"
proof (induction b arbitrary: j)
  case 0
  then show ?case by (simp add: xor_previous_def)
next
  case (Suc b)
  show ?case
  proof (cases "a \<le> b \<and> j \<le> b")
    case True
    have other: "xor_previous a (Suc b) t ! i = xor_previous a b t ! i" if "i \<noteq> b" for i
      using that True by (simp add: xor_previous_upt)
    show ?thesis
    proof (cases "j = b")
      case j: True
      have "xor_previous a b t ! b = t ! b" using Suc.IH [of b] Suc.prems by simp
      then have "xor_previous a (Suc b) t ! b = xor_bytes (t ! b) (xor_previous a b t ! (b - 1))"
        using True Suc.prems by (simp add: xor_previous_upt)
      also have "xor_previous a b t ! (b - 1) = xor_previous a (Suc b) t ! (b - 1)"
        using True Suc.prems by (intro other [symmetric]) auto
      finally show ?thesis using True Suc.prems j by simp
    next
      case False
      have "xor_previous a (Suc b) t ! j = (if a \<le> j \<and> j < b then xor_bytes (t ! j) (xor_previous a b t ! (j - 1)) else t ! j)"
        unfolding other [OF False] using Suc.prems by (intro Suc.IH) simp_all
      also have "xor_previous a b t ! (j - 1) = xor_previous a (Suc b) t ! (j - 1)"
        using True False Suc.prems by (intro other [symmetric]) auto
      finally show ?thesis using True False by auto
    qed
  next
    case False
    then have "xor_previous a (Suc b) t ! j = t ! j"
    proof (cases "a \<le> b")
      case True
      then have "j \<noteq> b" "\<not> j < b" using False by simp_all
      then show ?thesis using True Suc.IH [of j] Suc.prems by (simp add: xor_previous_upt)
    qed (simp add: xor_previous_upt)
    then show ?thesis using False by auto
  qed
qed

lemma xor_rc: "length c = 4 \<Longrightarrow> length g = 4 \<Longrightarrow> xor_bytes (xor_bytes c g) [rc, 0, 0, 0] = xor_bytes c (xor_bytes g [rc, 0, 0, 0])"
  by (elim length_4E) (simp add: xor.assoc)

lemma rotated_sub_word: "length l = 4 \<Longrightarrow>
    [rij_S ! unat (l ! 1), rij_S ! unat (l ! 2), rij_S ! unat (l ! 3), rij_S ! unat (l ! 0)] = sub_word (rotate 1 l)"
  by (erule length_4E) (simp add: sub_word_def table_nth)

lemma length_sub_word [simp]: "length (sub_word c) = length c"
  by (simp add: sub_word_def)

lemma length_sched_core [simp]: "length (sched_core rc t) = length t"
  by (simp add: sched_core_def Let_def)

lemma sched_core_nth:
  assumes "length t \<in> {4, 6, 8}" "\<forall>c \<in> set t. length c = 4" "j < length t"
  shows "sched_core rc t ! j = xor_bytes (t ! j)
    (if j = 0 then xor_bytes (sub_word (rotate 1 (t ! (length t - 1)))) [rc, 0, 0, 0]
     else if length t > 6 \<and> j = 4 then sub_word (sched_core rc t ! (j - 1))
     else sched_core rc t ! (j - 1))"
proof -
  have 0: "xor_bytes (xor_bytes (t ! 0) (sub_word (rotate 1 (t ! (length t - 1))))) [rc, 0, 0, 0]
      = xor_bytes (t ! 0) (xor_bytes (sub_word (rotate 1 (t ! (length t - 1)))) [rc, 0, 0, 0])"
    using assms by (intro xor_rc) auto
  have len: "length (t ! (length t - 1)) = 4" using assms by auto
  define t0 where "t0 = t[0 := xor_bytes (t ! 0) (xor_bytes (sub_word (rotate 1 (t ! (length t - 1)))) [rc, 0, 0, 0])]"
  note core = sched_core_def [of rc t, unfolded Let_def rotated_sub_word [OF len] 0, folded t0_def]
  show ?thesis
  proof (cases "length t = 8")
    case False
    then have "sched_core rc t = xor_previous 1 (length t) t0" by (simp add: core)
    then show ?thesis
      using nth_xor_previous [of j t0 1 "length t"] assms False by (cases j) (auto simp: t0_def)
  next
    case True
    define t1 where "t1 = xor_previous 1 4 t0"
    define t2 where "t2 = t1[4 := xor_bytes (t1 ! 4) (sub_word (t1 ! 3))]"
    have sub: "map (\<lambda>x. rij_S ! unat x) c = sub_word c" for c by (simp add: sub_word_def table_nth)
    have "sched_core rc t = xor_previous 5 8 t2" using True by (simp add: core t2_def t1_def sub)
    then show ?thesis
      using nth_xor_previous [of j t2 5 8] nth_xor_previous [of "j - 1" t2 5 8] nth_xor_previous [of j t0 1 4]
        nth_xor_previous [of "j - 1" t0 1 4] nth_xor_previous [of 3 t2 5 8] assms True
      by (cases "j = 0"; cases "j < 4"; cases "j = 4") (auto simp: t2_def t1_def t0_def nth_list_update)
  qed
qed

definition key_words :: "bytes list \<Rightarrow> nat \<Rightarrow> bytes list" where
  "key_words key b = map (\<lambda>j. key_word key (length key * b + j)) [0..<length key]"

lemma sched_core_key_words:
  assumes "length key \<in> {4, 6, 8}" "\<forall>c \<in> set key. length c = 4"
  shows "sched_core ((xtime ^^ b) 1) (key_words key b) = key_words key (Suc b)"
proof (rule nth_equalityI)
  have len: "length (key_word key i) = 4" for i using assms by (intro length_key_word) auto
  have nk: "length (key_words key b) = length key" "0 < length key" using assms(1) by (auto simp: key_words_def)
  show "length (sched_core ((xtime ^^ b) 1) (key_words key b)) = length (key_words key (Suc b))"
    by (simp add: key_words_def)
  fix j assume "j < length (sched_core ((xtime ^^ b) 1) (key_words key b))"
  then have "j < length key" by (simp add: nk)
  then show "sched_core ((xtime ^^ b) 1) (key_words key b) ! j = key_words key (Suc b) ! j"
  proof (induction j)
    case 0
    then show ?case
      using sched_core_nth [of "key_words key b" 0] key_word_later [OF nk(2) refl nk(2), of b] assms(1) len
      by (auto simp: key_words_def add.commute)
  next
    case (Suc j)
    have len': "\<forall>c \<in> set (key_words key b). length c = 4" using len by (auto simp: key_words_def)
    show ?case
      using Suc sched_core_nth [of "key_words key b" "Suc j" "(xtime ^^ b) 1"] key_word_later [OF nk(2) refl Suc.prems, of b] assms(1) len' nk
      by (auto simp: key_words_def)
  qed
qed

lemma key_words_upt: "key_words key b = map (key_word key) [length key * b..<length key * Suc b]"
  by (rule nth_equalityI) (simp_all add: key_words_def)

lemma upt_take_upt:
  assumes "m \<le> M"
  shows "[0..<m] @ take (M - m) [m..<m + n] = [0..<min M (m + n)]"
proof -
  have "take (M - m) [m..<m + n] = [m..<m + min (M - m) n]"
    by (cases "M - m \<le> n") (simp_all add: min_def)
  moreover have "[0..<m] @ [m..<m + min (M - m) n] = [0..<m + min (M - m) n]"
    by (rule upt_add_eq_append [symmetric]) simp
  moreover have "m + min (M - m) n = min M (m + n)" using assms by simp
  ultimately show ?thesis by simp
qed

lemma sched_loop_words:
  assumes key: "length key \<in> {4, 6, 8}" "\<forall>c \<in> set key. length c = 4" and b: "b \<le> 30"
  defines "M \<equiv> 4 * (length key + 6 + 1)"
  shows "sched_loop (length key + 6) (drop b rij_rcon) (key_words key b) (map (key_word key) [0..<min M (length key * Suc b)])
    = map (key_word key) [0..<M]"
  using b
proof (induction "30 - b" arbitrary: b)
  case 0
  then have "M \<le> length key * Suc b" using key(1) by (auto simp: M_def)
  moreover have "drop b rij_rcon = []" using 0 by (simp add: rij_rcon_def)
  ultimately show ?case by (simp add: min_def)
next
  case (Suc k)
  then have b: "b < 30" by simp
  then have "drop b rij_rcon = rij_rcon ! b # drop (Suc b) rij_rcon" by (intro Cons_nth_drop_Suc [symmetric]) (simp add: rij_rcon_def)
  then have rc: "drop b rij_rcon = (xtime ^^ b) 1 # drop (Suc b) rij_rcon" using b by (simp add: rcon_nth)
  let ?m = "length key * Suc b"
  show ?case
  proof (cases "?m < M")
    case True
    have "sched_copy (length key + 6) (key_words key (Suc b)) (map (key_word key) [0..<?m])
        = map (key_word key) ([0..<?m] @ take (M - ?m) [?m..<?m + length key])"
      by (simp add: sched_copy_def key_words_upt M_def take_map add.commute)
    also have "\<dots> = map (key_word key) [0..<min M (length key * Suc (Suc b))]"
    proof -
      have "length key * Suc (Suc b) = ?m + length key" by simp
      then show ?thesis using upt_take_upt [of ?m M "length key"] True by (simp only: less_imp_le)
    qed
    finally have copy: "sched_copy (length key + 6) (key_words key (Suc b)) (map (key_word key) [0..<min M ?m])
        = map (key_word key) [0..<min M (length key * Suc (Suc b))]" using True by (simp add: min_def)
    have "sched_loop (length key + 6) (drop (Suc b) rij_rcon) (key_words key (Suc b))
        (map (key_word key) [0..<min M (length key * Suc (Suc b))]) = map (key_word key) [0..<M]"
      using Suc by (intro Suc.hyps(1)) simp_all
    moreover have "length (map (key_word key) [0..<min M ?m]) < 4 * (length key + 6 + 1)" using True by (simp add: M_def)
    ultimately show ?thesis
      unfolding rc sched_loop.simps Let_def sched_core_key_words [OF key] copy by simp
  next
    case False
    then show ?thesis by (simp add: rc M_def min_def)
  qed
qed

text \<open>
  The expanded key of \<^verbatim>\<open>RijndaelKeySched\<close> consists of the words of the standard.
\<close>

lemma RijndaelKeySched_words:
  assumes "length key \<in> {4, 6, 8}" "\<forall>c \<in> set key. length c = 4" "rij_uRounds rij = length key + 6"
  shows "RijndaelKeySched key rij = rij\<lparr>rij_expandedKey := map (key_word key) [0..<4 * (rij_uRounds rij + 1)]\<rparr>"
proof -
  have "key_words key 0 = key" by (rule nth_equalityI) (simp_all add: key_words_def key_word_first)
  moreover have "min (4 * (length key + 6 + 1)) (length key) = length key" by simp
  ultimately have "map (key_word key) [0..<min (4 * (length key + 6 + 1)) (length key * Suc 0)] = key"
    by (simp add: key_words_upt)
  moreover have "sched_copy (rij_uRounds rij) key [] = key" by (simp add: sched_copy_def assms(3))
  ultimately show ?thesis
    using sched_loop_words [OF assms(1,2), of 0] \<open>key_words key 0 = key\<close>
    by (simp add: RijndaelKeySched_def Let_def assms(3))
qed

section \<open>Contexts\<close>

text \<open>The key matrix that \<^verbatim>\<open>RijndaelInit\<close> builds, and what it leaves in the context.\<close>

definition key_matrix :: "bytes \<Rightarrow> bytes list" where
  "key_matrix key = map (\<lambda>j. region (4 * j) 4 key) [0..<length key div 4]"

lemma key_matrix_wf:
  assumes "length key \<in> {16, 24, 32}"
  shows "length (key_matrix key) \<in> {4, 6, 8}" "\<forall>c \<in> set (key_matrix key). length c = 4"
  using assms by (auto simp: key_matrix_def)

definition aes_context :: "Rijndael \<Rightarrow> rij_mode \<Rightarrow> bytes \<Rightarrow> bytes \<Rightarrow> Rijndael" where
  "aes_context rij m key iv = rij\<lparr>rij_valid := True, rij_mode := m, rij_direction := Encrypt, rij_initVector := iv,
     rij_uRounds := length key div 4 + 6,
     rij_expandedKey := map (key_word (key_matrix key)) [0..<4 * (length key div 4 + 6 + 1)]\<rparr>"

lemma RijndaelInit_eq:
  assumes "mode_of mode = Some m" "direction_of dir = Some d" "length key \<in> {16, 24, 32}" "keyLen = int (length key div 8) - 2"
  shows "RijndaelInit rij mode dir (Some key) keyLen iv =
    (0, (if d = Decrypt then RijndaelKeyEncToDec else id)
          (aes_context rij m key (case iv of Some v \<Rightarrow> take 16 v | None \<Rightarrow> replicate 16 0))\<lparr>rij_direction := d\<rparr>)"
proof -
  have "key_sizes keyLen = Some (length key, length key div 4 + 6)"
    using assms(3,4) by (auto simp: key_sizes_def)
  moreover note key_matrix_wf [OF assms(3)]
  moreover have "length (key_matrix key) = length key div 4" by (simp add: key_matrix_def)
  ultimately show ?thesis
    using assms(1,2)
    by (auto simp: RijndaelInit_def Let_def key_matrix_def [symmetric] RijndaelKeySched_words aes_context_def RijndaelKeyEncToDec_def)
qed

lemma aes_context_wf:
  assumes "length key \<in> {16, 24, 32}"
  shows "expanded_key_wf (aes_context rij m key iv)"
proof -
  have "key_matrix key \<noteq> []" using key_matrix_wf(1) [OF assms] by auto
  then show ?thesis
    using assms key_matrix_wf(2) [OF assms] by (auto simp: expanded_key_wf_def aes_context_def)
qed

section \<open>The cipher of the standard\<close>

text \<open>
  FIPS 197, section 5.1. The matrix of MixColumns is written with the multiplication of the field of
  256 elements; \<open>aes_cipher\<close> is the pseudo code of the standard on columns.
\<close>

definition gf_mul :: "byte \<Rightarrow> byte \<Rightarrow> byte" where
  "gf_mul a b = foldr (\<lambda>i s. (if bit b i then (xtime ^^ i) a else 0) XOR s) [0..<8] 0"

definition SubBytes :: "bytes list \<Rightarrow> bytes list" where
  "SubBytes s = map (map sub_byte) s"

definition ShiftRows :: "bytes list \<Rightarrow> bytes list" where
  "ShiftRows s = map (\<lambda>j. map (\<lambda>i. s ! ((j + i) mod 4) ! i) [0, 1, 2, 3]) [0, 1, 2, 3]"

definition mix_matrix :: "byte list list" where
  "mix_matrix = [[2, 3, 1, 1], [1, 2, 3, 1], [1, 1, 2, 3], [3, 1, 1, 2]]"

definition MixColumns :: "bytes list \<Rightarrow> bytes list" where
  "MixColumns s = map (\<lambda>c. map (\<lambda>row. foldr (XOR) (map2 gf_mul c row) 0) mix_matrix) s"

definition aes_cipher :: "(nat \<Rightarrow> bytes) \<Rightarrow> nat \<Rightarrow> bytes \<Rightarrow> bytes" where
  "aes_cipher w nr a =
     (let keys = (\<lambda>r. map w [4 * r, 4 * r + 1, 4 * r + 2, 4 * r + 3]);
          s = add_round_key (columns a) (keys 0);
          s = foldl (\<lambda>s r. add_round_key (MixColumns (ShiftRows (SubBytes s))) (keys r)) s [1..<nr]
      in concat (add_round_key (ShiftRows (SubBytes s)) (keys nr)))"

lemma gf_mul_small: "gf_mul x 1 = x" "gf_mul x 2 = xtime x" "gf_mul x 3 = xtime x XOR x"
  by (simp_all add: gf_mul_def upt_rec xor.commute)

lemma enc_last_spec: "state_wf s \<Longrightarrow> enc_last s = ShiftRows (SubBytes s)"
  by (erule state_wfE) (simp add: enc_last_def ShiftRows_def SubBytes_def table_nth mix_column1_def)

lemma mix_column_spec: "length c = 4 \<Longrightarrow> mix_column c = map (\<lambda>row. foldr (XOR) (map2 gf_mul c row) 0) mix_matrix"
  by (erule length_4E)
    (simp add: mix_column_def mix_column1_def mix_matrix_def gf_mul_small xor.assoc xor.left_commute xor.commute)

lemma enc_columns_spec: "state_wf s \<Longrightarrow> enc_columns s = MixColumns (ShiftRows (SubBytes s))"
  using state_wf_steps(1) [of s] by (simp add: enc_columns_eq MixColumns_def mix_column_spec state_wf_def flip: enc_last_spec)

lemma round_key_context:
  assumes "r \<le> length key div 4 + 6"
  shows "round_key (aes_context rij m key iv) r = map (key_word (key_matrix key)) [4 * r, 4 * r + 1, 4 * r + 2, 4 * r + 3]"
proof -
  have "region (4 * r) 4 [0..<4 * (length key div 4 + 6 + 1)] = [4 * r..<4 * r + 4]"
    using assms by (simp add: region_def)
  also have "\<dots> = [4 * r, 4 * r + 1, 4 * r + 2, 4 * r + 3]" by (simp add: upt_rec)
  finally have r: "region (4 * r) 4 [0..<4 * (length key div 4 + 6 + 1)] = [4 * r, 4 * r + 1, 4 * r + 2, 4 * r + 3]" .
  have "round_key (aes_context rij m key iv) r = map (key_word (key_matrix key)) (region (4 * r) 4 [0..<4 * (length key div 4 + 6 + 1)])"
    by (simp add: round_key_def aes_context_def region_def take_map drop_map)
  then show ?thesis by (simp only: r)
qed

lemma foldl_rounds_spec:
  assumes "state_wf s" "\<forall>r \<in> set rs. state_wf (k r)"
  shows "foldl (\<lambda>s r. add_round_key (enc_columns s) (k r)) s rs = foldl (\<lambda>s r. add_round_key (MixColumns (ShiftRows (SubBytes s))) (k r)) s rs"
    and "state_wf (foldl (\<lambda>s r. add_round_key (enc_columns s) (k r)) s rs)"
  using assms by (induction rs arbitrary: s) (simp_all flip: enc_columns_spec)

text \<open>The context with its keys, as a function of the key only.\<close>

lemma RijndaelEncrypt_context:
  assumes "length key \<in> {16, 24, 32}" and "length a = 16"
  shows "RijndaelEncrypt (aes_context rij m key iv) a = aes_cipher (key_word (key_matrix key)) (length key div 4 + 6) a"
proof -
  define c where "c = aes_context rij m key iv"
  have wf: "expanded_key_wf c" unfolding c_def by (rule aes_context_wf [OF assms(1)])
  have N: "rij_uRounds c = length key div 4 + 6" by (simp add: c_def aes_context_def)
  have k: "state_wf (round_key c r)" if "r \<le> rij_uRounds c" for r using wf that by simp
  have s0: "state_wf (add_round_key (columns a) (round_key c 0))" using columns_wf [OF assms(2)] k by simp
  have "RijndaelEncrypt c a = concat (add_round_key (ShiftRows (SubBytes
    (foldl (\<lambda>s r. add_round_key (MixColumns (ShiftRows (SubBytes s))) (round_key c r)) (add_round_key (columns a) (round_key c 0)) [1..<rij_uRounds c])))
    (round_key c (rij_uRounds c)))"
    using N foldl_rounds_spec [OF s0, of "[1..<rij_uRounds c]" "round_key c"] k
    by (simp add: RijndaelEncrypt_rounds enc_last_spec)
  also have "\<dots> = aes_cipher (key_word (key_matrix key)) (length key div 4 + 6) a"
  proof -
    have rk: "round_key c r = map (key_word (key_matrix key)) [4 * r, 4 * r + 1, 4 * r + 2, 4 * r + 3]" if "r \<le> length key div 4 + 6" for r
      unfolding c_def by (rule round_key_context [OF that])
    have "foldl (\<lambda>s r. add_round_key (MixColumns (ShiftRows (SubBytes s))) (round_key c r)) s [1..<rij_uRounds c]
      = foldl (\<lambda>s r. add_round_key (MixColumns (ShiftRows (SubBytes s))) (map (key_word (key_matrix key)) [4 * r, 4 * r + 1, 4 * r + 2, 4 * r + 3])) s [1..<rij_uRounds c]" for s
      by (intro foldl_cong) (auto simp: rk N)
    then show ?thesis unfolding aes_cipher_def Let_def by (simp only: rk N le0 order_refl)
  qed
  finally show ?thesis by (simp add: c_def)
qed

text \<open>
  C15. The encryption of one block with the combined tables, on the expanded key of \<^verbatim>\<open>RijndaelInit\<close>, is the
  AES cipher of FIPS 197 for keys of 128, 192 and 256 bits: the round transformation with SubBytes, ShiftRows,
  MixColumns over the field of 256 elements and AddRoundKey, and the key expansion word by word.
\<close>

theorem rijndael_encrypt_is_aes:
  assumes "length key \<in> {16, 24, 32}" and "length a = 16"
    and "mode_of mode = Some m" and "keyLen = int (length key div 8) - 2"
  shows "fst (RijndaelInit rij mode 0 (Some key) keyLen iv) = 0
    \<and> RijndaelEncrypt (snd (RijndaelInit rij mode 0 (Some key) keyLen iv)) a
      = aes_cipher (key_word (key_matrix key)) (length key div 4 + 6) a"
proof -
  define c where "c = aes_context rij m key (case iv of Some v \<Rightarrow> take 16 v | None \<Rightarrow> replicate 16 0)"
  have init: "RijndaelInit rij mode 0 (Some key) keyLen iv = (0, c)"
    unfolding c_def by (subst RijndaelInit_eq [OF assms(3) _ assms(1,4)]) (cases rij; simp add: direction_of_def aes_context_def)+
  then show ?thesis by (simp add: c_def RijndaelEncrypt_context [OF assms(1,2)])
qed

theorem rijndael_encrypt_is_aes_witness:
  "RijndaelEncrypt (snd (RijndaelInit new_rijndael 1 0 (Some (replicate 32 7)) 2 None)) (replicate 16 1)
     = aes_cipher (key_word (key_matrix (replicate 32 7))) 14 (replicate 16 1)"
  using rijndael_encrypt_is_aes [of "replicate 32 7" "replicate 16 1" 1 Mode_CBC 2 new_rijndael None] by (simp add: mode_of_def)

section \<open>The substitution table\<close>

text \<open>
  The table \<^verbatim>\<open>S\<close> is the multiplicative inverse in the field followed by the affine map of the
  standard; \<open>inverses\<close> lists the inverses of all bytes, 0 for 0.
\<close>

definition rotl :: "nat \<Rightarrow> byte \<Rightarrow> byte" where
  "rotl n x = push_bit n x OR drop_bit (8 - n) x"

definition affine :: "byte \<Rightarrow> byte" where
  "affine y = y XOR rotl 1 y XOR rotl 2 y XOR rotl 3 y XOR rotl 4 y XOR 0x63"

definition inverses :: bytes where
  "inverses = [
    0x00, 0x01, 0x8d, 0xf6, 0xcb, 0x52, 0x7b, 0xd1, 0xe8, 0x4f, 0x29, 0xc0, 0xb0, 0xe1, 0xe5, 0xc7,
    0x74, 0xb4, 0xaa, 0x4b, 0x99, 0x2b, 0x60, 0x5f, 0x58, 0x3f, 0xfd, 0xcc, 0xff, 0x40, 0xee, 0xb2,
    0x3a, 0x6e, 0x5a, 0xf1, 0x55, 0x4d, 0xa8, 0xc9, 0xc1, 0x0a, 0x98, 0x15, 0x30, 0x44, 0xa2, 0xc2,
    0x2c, 0x45, 0x92, 0x6c, 0xf3, 0x39, 0x66, 0x42, 0xf2, 0x35, 0x20, 0x6f, 0x77, 0xbb, 0x59, 0x19,
    0x1d, 0xfe, 0x37, 0x67, 0x2d, 0x31, 0xf5, 0x69, 0xa7, 0x64, 0xab, 0x13, 0x54, 0x25, 0xe9, 0x09,
    0xed, 0x5c, 0x05, 0xca, 0x4c, 0x24, 0x87, 0xbf, 0x18, 0x3e, 0x22, 0xf0, 0x51, 0xec, 0x61, 0x17,
    0x16, 0x5e, 0xaf, 0xd3, 0x49, 0xa6, 0x36, 0x43, 0xf4, 0x47, 0x91, 0xdf, 0x33, 0x93, 0x21, 0x3b,
    0x79, 0xb7, 0x97, 0x85, 0x10, 0xb5, 0xba, 0x3c, 0xb6, 0x70, 0xd0, 0x06, 0xa1, 0xfa, 0x81, 0x82,
    0x83, 0x7e, 0x7f, 0x80, 0x96, 0x73, 0xbe, 0x56, 0x9b, 0x9e, 0x95, 0xd9, 0xf7, 0x02, 0xb9, 0xa4,
    0xde, 0x6a, 0x32, 0x6d, 0xd8, 0x8a, 0x84, 0x72, 0x2a, 0x14, 0x9f, 0x88, 0xf9, 0xdc, 0x89, 0x9a,
    0xfb, 0x7c, 0x2e, 0xc3, 0x8f, 0xb8, 0x65, 0x48, 0x26, 0xc8, 0x12, 0x4a, 0xce, 0xe7, 0xd2, 0x62,
    0x0c, 0xe0, 0x1f, 0xef, 0x11, 0x75, 0x78, 0x71, 0xa5, 0x8e, 0x76, 0x3d, 0xbd, 0xbc, 0x86, 0x57,
    0x0b, 0x28, 0x2f, 0xa3, 0xda, 0xd4, 0xe4, 0x0f, 0xa9, 0x27, 0x53, 0x04, 0x1b, 0xfc, 0xac, 0xe6,
    0x7a, 0x07, 0xae, 0x63, 0xc5, 0xdb, 0xe2, 0xea, 0x94, 0x8b, 0xc4, 0xd5, 0x9d, 0xf8, 0x90, 0x6b,
    0xb1, 0x0d, 0xd6, 0xeb, 0xc6, 0x0e, 0xcf, 0xad, 0x08, 0x4e, 0xd7, 0xe3, 0x5d, 0x50, 0x1e, 0xb3,
    0x5b, 0x23, 0x38, 0x34, 0x68, 0x46, 0x03, 0x8c, 0xdd, 0x9c, 0x7d, 0xa0, 0xcd, 0x1a, 0x41, 0x1c]"

lemma S_affine: "map affine inverses = rij_S"
  by (simp add: rij_S_def inverses_def affine_def rotl_def)

lemma gf_mul_horner:
  "gf_mul a b = foldl (\<lambda>s i. xtime s XOR (if bit b i then a else 0)) 0 [7, 6, 5, 4, 3, 2, 1, 0]"
proof -
  have [simp]: "xtime 0 = 0" "xtime (if c then x else y) = (if c then xtime x else xtime y)" for c x y
    by (simp_all add: xtime_def)
  show ?thesis by (simp add: gf_mul_def upt_rec numeral_eq_Suc xor.assoc xor.commute xor.left_commute)
qed

lemma gf_inverses_1: "list_all2 (\<lambda>x y. gf_mul x y = 1) (take 63 (drop 1 all_bytes)) (take 63 (drop 1 inverses))"
  by (simp add: gf_mul_horner all_bytes_def inverses_def xtime_def)

lemma gf_inverses_64: "list_all2 (\<lambda>x y. gf_mul x y = 1) (take 64 (drop 64 all_bytes)) (take 64 (drop 64 inverses))"
  by (simp add: gf_mul_horner all_bytes_def inverses_def xtime_def)

lemma gf_inverses_128: "list_all2 (\<lambda>x y. gf_mul x y = 1) (take 64 (drop 128 all_bytes)) (take 64 (drop 128 inverses))"
  by (simp add: gf_mul_horner all_bytes_def inverses_def xtime_def)

lemma gf_inverses_192: "list_all2 (\<lambda>x y. gf_mul x y = 1) (drop 192 all_bytes) (drop 192 inverses)"
  by (simp add: gf_mul_horner all_bytes_def inverses_def xtime_def)

lemma gf_inverses:
  assumes "x \<noteq> 0"
  shows "gf_mul x (inverses ! unat x) = 1"
proof -
  have n: "length inverses = 256" "1 \<le> unat x" using assms by (simp_all add: inverses_def unat_gt_0 Suc_leI)
  have last: "unat x - 192 < 64" using unat_byte [of x] by linarith
  consider "unat x < 64" | "64 \<le> unat x" "unat x < 128" | "128 \<le> unat x" "unat x < 192" | "192 \<le> unat x" by linarith
  then show ?thesis
    using n list_all2_nthD [OF gf_inverses_1, of "unat x - 1"] list_all2_nthD [OF gf_inverses_64, of "unat x - 64"]
      list_all2_nthD [OF gf_inverses_128, of "unat x - 128"] list_all2_nthD [OF gf_inverses_192, of "unat x - 192"] last
    by cases simp_all
qed

text \<open>
  The substitution that the tables of the code implement is the one of FIPS 197: the affine map
  applied to the inverse of the byte in the field of 256 elements (to 0 for the byte 0), and the table of the
  inverse substitution undoes it.
\<close>

theorem rijndael_sbox:
  "\<exists>y. sub_byte x = affine y \<and> gf_mul x y = (if x = 0 then y else 1) \<and> inv_sub_byte (sub_byte x) = x"
proof (intro exI conjI)
  have len: "length inverses = 256" by (simp add: inverses_def)
  have "map affine inverses ! unat x = rij_S ! unat x" by (simp only: S_affine)
  then show "sub_byte x = affine (inverses ! unat x)" using len by (simp add: sub_byte_def)
  have "inverses ! 0 = 0" by (simp add: inverses_def)
  then show "gf_mul x (inverses ! unat x) = (if x = 0 then inverses ! unat x else 1)"
    using gf_inverses [of x] by (auto simp: gf_mul_horner xtime_def)
  show "inv_sub_byte (sub_byte x) = x" by simp
qed

end
