(* ===== verification/Rijndael_Modes.thy ===== *)
theory Rijndael_Modes
  imports Rijndael
begin

text \<open>
  The modes of operation of \<^verbatim>\<open>src/src/rijndael.c\<close>: electronic code book, cipher block chaining with
  ciphertext stealing for a last partial block, one-bit cipher feedback, and the two functions with padding.
  An input that the code would read beyond its end gives \<open>None\<close>. The loops work block by block
  and read an input block before they write the output block at the same position, so that the
  list functions also describe the calls with the same buffer for input and output.
\<close>

unbundle bit_operations_syntax

definition blocks :: "nat \<Rightarrow> bytes \<Rightarrow> bytes list" where
  "blocks n xs = map (\<lambda>i. region (16 * i) 16 xs) [0..<n]"

section \<open>The loops\<close>

primrec cbc_encrypt_loop :: "(bytes \<Rightarrow> bytes) \<Rightarrow> bytes \<Rightarrow> bytes list \<Rightarrow> bytes list" where
  "cbc_encrypt_loop E prev [] = []"
| "cbc_encrypt_loop E prev (b # bs) = (let c = E (xor_bytes prev b) in c # cbc_encrypt_loop E c bs)"

primrec cbc_decrypt_loop :: "(bytes \<Rightarrow> bytes) \<Rightarrow> bytes \<Rightarrow> bytes list \<Rightarrow> bytes list" where
  "cbc_decrypt_loop D iv [] = []"
| "cbc_decrypt_loop D iv (b # bs) = xor_bytes (D b) iv # cbc_decrypt_loop D b bs"

text \<open>The last block of a list, or the initial vector before the first.\<close>

definition last_block :: "bytes \<Rightarrow> bytes list \<Rightarrow> bytes" where
  "last_block iv cs = (if cs = [] then iv else last cs)"

definition cbc_encrypt :: "(bytes \<Rightarrow> bytes) \<Rightarrow> bytes \<Rightarrow> bytes \<Rightarrow> bytes" where
  "cbc_encrypt E iv input =
     (let numBlocks = length input div 16; lenFrag = length input mod 16;
          cs = cbc_encrypt_loop E iv (blocks numBlocks input)
      in if lenFrag > 0 then
           let lastblock = take lenFrag (last cs);
               block = xor_bytes (take lenFrag (last cs)) (drop (16 * numBlocks) input) @ drop lenFrag (last cs)
           in concat (butlast cs) @ E block @ lastblock
         else concat cs)"

definition cbc_decrypt :: "(bytes \<Rightarrow> bytes) \<Rightarrow> bytes \<Rightarrow> bytes \<Rightarrow> bytes" where
  "cbc_decrypt D iv input =
     (let lenFrag = length input mod 16;
          numBlocks = (if lenFrag > 0 then length input div 16 - 1 else length input div 16);
          offset = 16 * numBlocks;
          fragment =
            (if lenFrag > 0 then
               let block = D (region offset 16 input);
                   lastblock = xor_bytes (take lenFrag block) (region (offset + 16) lenFrag input);
                   block = region (offset + 16) lenFrag input @ drop lenFrag block
               in xor_bytes (D block) (if offset = 0 then iv else region (offset - 16) 16 input) @ lastblock
             else [])
      in concat (cbc_decrypt_loop D iv (blocks numBlocks input)) @ fragment)"

text \<open>One-bit cipher feedback: the initial vector is shifted by one bit, with a ciphertext bit entering.\<close>

definition cfb_shift :: "bytes \<Rightarrow> byte \<Rightarrow> bytes" where
  "cfb_shift iv b = map (\<lambda>i. push_bit 1 (iv ! i) OR (if i < 15 then drop_bit 7 (iv ! (i + 1)) else b)) [0..<16]"

definition cfb_bit :: "bytes \<Rightarrow> nat \<Rightarrow> byte" where
  "cfb_bit block k = drop_bit (7 - k mod 8) (block ! (k div 8)) AND 1"

definition cfb_xor :: "bytes \<Rightarrow> nat \<Rightarrow> bytes \<Rightarrow> bytes" where
  "cfb_xor out k block = out[k div 8 := (out ! (k div 8)) XOR drop_bit (k mod 8) (block ! 0 AND 0x80)]"

definition cfb1_encrypt_bit :: "(bytes \<Rightarrow> bytes) \<Rightarrow> bytes \<times> bytes \<Rightarrow> nat \<Rightarrow> bytes \<times> bytes" where
  "cfb1_encrypt_bit E s k =
     (let (iv, out) = s; block = E iv; out = cfb_xor out k block in (cfb_shift iv (cfb_bit out k), out))"

definition cfb1_decrypt_bit :: "(bytes \<Rightarrow> bytes) \<Rightarrow> bytes \<Rightarrow> bytes \<times> bytes \<Rightarrow> nat \<Rightarrow> bytes \<times> bytes" where
  "cfb1_decrypt_bit E input s k =
     (let (iv, out) = s; block = E iv in (cfb_shift iv (cfb_bit input k), cfb_xor out k block))"

primrec cfb1_encrypt :: "(bytes \<Rightarrow> bytes) \<Rightarrow> bytes \<Rightarrow> bytes list \<Rightarrow> bytes list" where
  "cfb1_encrypt E iv [] = []"
| "cfb1_encrypt E iv (b # bs) =
     (let (iv, out) = foldl (cfb1_encrypt_bit E) (iv, b) [0..<128] in out # cfb1_encrypt E iv bs)"

primrec cfb1_decrypt :: "(bytes \<Rightarrow> bytes) \<Rightarrow> bytes \<Rightarrow> bytes list \<Rightarrow> bytes list" where
  "cfb1_decrypt E iv [] = []"
| "cfb1_decrypt E iv (b # bs) =
     (let (iv, out) = foldl (cfb1_decrypt_bit E b) (iv, b) [0..<128] in out # cfb1_decrypt E iv bs)"

section \<open>The functions\<close>

text \<open>
  The result is the code that is returned and the bytes that are written to \<^verbatim>\<open>outBuffer\<close>. \<^verbatim>\<open>inputLen\<close>
  counts bits; the code of ECB and CFB1 ignores a partial block, that of CBC reads a first block in
  every case.
\<close>

definition RijndaelBlockEncrypt :: "Rijndael \<Rightarrow> bytes option \<Rightarrow> int \<Rightarrow> (int \<times> bytes) option" where
  "RijndaelBlockEncrypt rij input inputLen =
     (if \<not> rij_valid rij then Some (-5, [])
      else if rij_direction rij \<noteq> Encrypt then Some (-6, [])
      else case input of None \<Rightarrow> Some (0, [])
       | Some input \<Rightarrow>
         if inputLen \<le> 0 then Some (0, [])
         else
           let numBlocks = nat inputLen div 128; n = nat inputLen div 8; result = 128 * int numBlocks
           in if length input < n then None
              else case rij_mode rij of
                Mode_ECB \<Rightarrow> Some (result, concat (map (RijndaelEncrypt rij) (blocks numBlocks input)))
              | Mode_CBC \<Rightarrow>
                  if n < 16 then None
                  else Some (result, cbc_encrypt (RijndaelEncrypt rij) (rij_initVector rij) (take n input))
              | Mode_CFB1 \<Rightarrow>
                  Some (result, concat (cfb1_encrypt (RijndaelEncrypt rij) (rij_initVector rij) (blocks numBlocks input))))"

definition RijndaelBlockDecrypt :: "Rijndael \<Rightarrow> bytes option \<Rightarrow> int \<Rightarrow> (int \<times> bytes) option" where
  "RijndaelBlockDecrypt rij input inputLen =
     (if \<not> rij_valid rij then Some (-5, [])
      else if rij_mode rij \<noteq> Mode_CFB1 \<and> rij_direction rij = Encrypt then Some (-6, [])
      else case input of None \<Rightarrow> Some (0, [])
       | Some input \<Rightarrow>
         if inputLen \<le> 0 then Some (0, [])
         else
           let numBlocks = nat inputLen div 128; n = nat inputLen div 8; lenFrag = nat inputLen mod 128 div 8
           in if length input < n then None
              else case rij_mode rij of
                Mode_ECB \<Rightarrow> Some (128 * int numBlocks, concat (map (RijndaelDecrypt rij) (blocks numBlocks input)))
              | Mode_CBC \<Rightarrow>
                  if lenFrag > 0 \<and> numBlocks = 0 then None
                  else Some (128 * int (if lenFrag > 0 then numBlocks - 1 else numBlocks),
                             cbc_decrypt (RijndaelDecrypt rij) (rij_initVector rij) (take n input))
              | Mode_CFB1 \<Rightarrow>
                  Some (128 * int numBlocks,
                        concat (cfb1_decrypt (RijndaelEncrypt rij) (rij_initVector rij) (blocks numBlocks input))))"

definition RijndaelPadEncrypt :: "Rijndael \<Rightarrow> bytes option \<Rightarrow> int \<Rightarrow> (int \<times> bytes) option" where
  "RijndaelPadEncrypt rij input inputOctets =
     (if \<not> rij_valid rij then Some (-5, [])
      else if rij_direction rij \<noteq> Encrypt then Some (-5, [])
      else case input of None \<Rightarrow> Some (0, [])
       | Some input \<Rightarrow>
         if inputOctets \<le> 0 then Some (0, [])
         else
           let n = nat inputOctets; numBlocks = n div 16; padLen = 16 - (n - 16 * numBlocks);
               block = region (16 * numBlocks) (16 - padLen) input @ replicate padLen (of_nat padLen)
           in if length input < n then None
              else case rij_mode rij of
                Mode_ECB \<Rightarrow> Some (16 * (int numBlocks + 1),
                  concat (map (RijndaelEncrypt rij) (blocks numBlocks input)) @ RijndaelEncrypt rij block)
              | Mode_CBC \<Rightarrow>
                  let cs = cbc_encrypt_loop (RijndaelEncrypt rij) (rij_initVector rij) (blocks numBlocks input)
                  in Some (16 * (int numBlocks + 1),
                       concat cs @ RijndaelEncrypt rij (xor_bytes block (last_block (rij_initVector rij) cs)))
              | Mode_CFB1 \<Rightarrow> Some (-1, []))"

text \<open>The block of a padding is checked from its last byte; \<open>lo\<close> and \<open>hi\<close> are the limits of the mode.\<close>

definition pad_ok :: "nat \<Rightarrow> nat \<Rightarrow> bytes \<Rightarrow> bool" where
  "pad_ok lo hi block \<longleftrightarrow>
     (let padLen = unat (block ! 15)
      in lo \<le> padLen \<and> padLen \<le> hi \<and> list_all (\<lambda>b. b = block ! 15) (drop (16 - padLen) block))"

definition RijndaelPadDecrypt :: "Rijndael \<Rightarrow> bytes option \<Rightarrow> int \<Rightarrow> (int \<times> bytes) option" where
  "RijndaelPadDecrypt rij input inputOctets =
     (if \<not> rij_valid rij then Some (-5, [])
      else if rij_direction rij \<noteq> Decrypt then Some (-6, [])
      else case input of None \<Rightarrow> Some (0, [])
       | Some input \<Rightarrow>
         if inputOctets \<le> 0 then Some (0, [])
         else if inputOctets mod 16 \<noteq> 0 then Some (-7, [])
         else
           let n = nat inputOctets; numBlocks = n div 16; bs = blocks (numBlocks - 1) input;
               lastblock = region (16 * (numBlocks - 1)) 16 input
           in if length input < n then None
              else case rij_mode rij of
                Mode_ECB \<Rightarrow>
                  let out = concat (map (RijndaelDecrypt rij) bs); block = RijndaelDecrypt rij lastblock; padLen = unat (block ! 15)
                  in if pad_ok 0 15 block
                     then Some (16 * int numBlocks - int padLen, out @ take (16 - padLen) block) else Some (-7, out)
              | Mode_CBC \<Rightarrow>
                  let out = concat (cbc_decrypt_loop (RijndaelDecrypt rij) (rij_initVector rij) bs);
                      block = xor_bytes (RijndaelDecrypt rij lastblock) (last_block (rij_initVector rij) bs);
                      padLen = unat (block ! 15)
                  in if pad_ok 1 16 block
                     then Some (16 * int numBlocks - int padLen, out @ take (16 - padLen) block) else Some (-7, out)
              | Mode_CFB1 \<Rightarrow> Some (-1, []))"

section \<open>Blocks\<close>

lemma length_blocks [simp]: "length (blocks n xs) = n"
  by (simp add: blocks_def)

lemma blocks_length: "16 * n \<le> length xs \<Longrightarrow> b \<in> set (blocks n xs) \<Longrightarrow> length b = 16"
  by (auto simp: blocks_def)

lemma blocks_Suc: "blocks (Suc n) xs = take 16 xs # blocks n (drop 16 xs)"
  by (simp add: blocks_def region_def upt_conv_Cons map_Suc_upt [symmetric] add.commute del: upt_Suc)

lemma blocks_0 [simp]: "blocks 0 xs = []"
  by (simp add: blocks_def)

lemma concat_blocks: "16 * n \<le> length xs \<Longrightarrow> concat (blocks n xs) = take (16 * n) xs"
  by (induction n arbitrary: xs) (simp_all add: blocks_Suc take_add [of 16, symmetric] flip: take_add)

lemma blocks_concat:
  "\<forall>c \<in> set cs. length c = 16 \<Longrightarrow> blocks (length cs) (concat cs @ rest) = cs"
  by (induction cs) (simp_all add: blocks_Suc)

lemma length_concat_blocks: "\<forall>c \<in> set cs. length c = 16 \<Longrightarrow> length (concat cs) = 16 * length cs"
  by (induction cs) simp_all

lemma blocks_take: "16 * n \<le> m \<Longrightarrow> blocks n (take m xs) = blocks n xs"
  by (auto simp: blocks_def intro!: region_take)

lemma xor_bytes_undo: "length xs = length ks \<Longrightarrow> xor_bytes (xor_bytes ks xs) ks = xs"
  by (simp add: xor_bytes_commute [of ks xs])

section \<open>Cipher block chaining over any block cipher\<close>

text \<open>The contract of a block cipher: decryption undoes encryption on blocks of 16 bytes.\<close>

locale block_cipher =
  fixes E :: "'k \<Rightarrow> bytes \<Rightarrow> bytes" and D :: "'k \<Rightarrow> bytes \<Rightarrow> bytes" and good :: "'k \<Rightarrow> bool"
  assumes length_E: "good k \<Longrightarrow> length b = 16 \<Longrightarrow> length (E k b) = 16"
    and D_E: "good k \<Longrightarrow> length b = 16 \<Longrightarrow> D k (E k b) = b"
begin

lemma cbc_loop_length:
  assumes "good k" "length iv = 16" "\<forall>b \<in> set bs. length b = 16"
  shows "length (cbc_encrypt_loop (E k) iv bs) = length bs" "list_all (\<lambda>c. length c = 16) (cbc_encrypt_loop (E k) iv bs)"
  using assms(2,3) by (induction bs arbitrary: iv) (simp_all add: Let_def length_E [OF assms(1)])

lemma cbc_loop_roundtrip:
  assumes "good k" "length iv = 16" "\<forall>b \<in> set bs. length b = 16"
  shows "cbc_decrypt_loop (D k) iv (cbc_encrypt_loop (E k) iv bs) = bs"
  using assms(2,3)
  by (induction bs arbitrary: iv) (simp_all add: Let_def length_E [OF assms(1)] D_E [OF assms(1)] xor_bytes_undo)

lemma cbc_loop_append:
  "cbc_encrypt_loop (E k) iv (bs @ bs') =
     (let cs = cbc_encrypt_loop (E k) iv bs in cs @ cbc_encrypt_loop (E k) (last_block iv cs) bs')"
  by (induction bs arbitrary: iv) (auto simp: Let_def last_block_def)

lemma cbc_decrypt_append:
  "cbc_decrypt_loop (D k) iv (cs @ cs') = cbc_decrypt_loop (D k) iv cs @ cbc_decrypt_loop (D k) (last_block iv cs) cs'"
  by (induction cs arbitrary: iv) (auto simp: last_block_def)

lemma ecb_roundtrip:
  assumes "good k" "\<forall>b \<in> set bs. length b = 16"
  shows "map (D k) (map (E k) bs) = bs"
  using assms by (simp add: map_idI D_E)

lemma cbc_roundtrip:
  assumes k: "good k" and iv: "length iv = 16" and len: "16 \<le> length input"
  shows "cbc_decrypt (D k) iv (cbc_encrypt (E k) iv input) = input \<and> length (cbc_encrypt (E k) iv input) = length input"
proof -
  define n where "n = length input div 16"
  define f where "f = length input mod 16"
  have nf: "length input = 16 * n + f" "f < 16" "1 \<le> n" using len by (auto simp: n_def f_def)
  define bs where "bs = blocks n input"
  have bs: "\<forall>b \<in> set bs. length b = 16" "length bs = n" "concat bs = take (16 * n) input"
    using nf blocks_length [of n input] by (auto simp: bs_def concat_blocks)
  define cs where "cs = cbc_encrypt_loop (E k) iv bs"
  have cs: "length cs = n" "\<forall>c \<in> set cs. length c = 16" "cbc_decrypt_loop (D k) iv cs = bs"
    using cbc_loop_length [OF k iv bs(1)] cbc_loop_roundtrip [OF k iv bs(1)] bs(2) by (simp_all add: cs_def list_all_iff)
  show ?thesis
  proof (cases "f = 0")
    case True
    then have "cbc_encrypt (E k) iv input = concat cs"
      by (simp add: cbc_encrypt_def Let_def flip: n_def f_def bs_def cs_def)
    moreover have "length (concat cs) = length input" using cs nf True by (simp add: length_concat_blocks)
    ultimately show ?thesis
      using True nf blocks_concat [OF cs(2), of "[]"] cs bs(3) by (simp add: cbc_decrypt_def Let_def flip: f_def)
  next
    case False
    obtain m where m: "n = Suc m" using nf(3) by (cases n) auto
    obtain cs0 c where c: "cs = cs0 @ [c]" using cs(1) nf(3) by (cases cs rule: rev_cases) auto
    have len_c: "length c = 16" "\<forall>c \<in> set cs0. length c = 16" "length cs0 = m" using cs(1,2) c m by auto
    define frag where "frag = drop (16 * n) input"
    have frag: "length frag = f" using nf by (simp add: frag_def)
    define x where "x = xor_bytes (take f c) frag @ drop f c"
    have x: "length x = 16" "length (E k x) = 16" "D k (E k x) = x"
      using len_c nf(2) frag by (simp_all add: x_def length_E [OF k] D_E [OF k])
    have x_parts: "take f x = xor_bytes (take f c) frag" "drop f x = drop f c"
      using frag len_c nf(2) by (simp_all add: x_def)
    define out where "out = concat cs0 @ E k x @ take f c"
    have enc: "cbc_encrypt (E k) iv input = out"
      using False c by (simp add: cbc_encrypt_def Let_def x_def frag_def out_def flip: n_def f_def bs_def cs_def)
    have len0: "length (concat cs0) = 16 * m" using len_c by (simp add: length_concat_blocks)
    have len_out: "length out = length input" using len0 nf len_c x by (simp add: out_def m)
    have r1: "region (16 * m) 16 out = E k x" and r2: "region (16 * m + 16) f out = take f c"
      using len0 x len_c by (simp_all add: region_def out_def)
    have prev: "(if 16 * m = 0 then iv else region (16 * m - 16) 16 out) = last_block iv cs0"
    proof (cases cs0 rule: rev_cases)
      case (snoc ys y)
      then have "length (concat ys) = 16 * m - 16" "length y = 16" "m \<noteq> 0"
        using len_c by (auto simp: length_concat_blocks)
      then show ?thesis by (simp add: snoc last_block_def region_def out_def)
    qed (use len_c(3) in \<open>simp add: last_block_def\<close>)
    have bs_parts: "bs = cbc_decrypt_loop (D k) iv cs0 @ [xor_bytes (D k c) (last_block iv cs0)]"
      using cs(3) by (simp add: c cbc_decrypt_append)
    have mods: "length out mod 16 = f" "length out div 16 = Suc m"
      using m by (simp_all add: len_out flip: n_def f_def)
    have "cbc_decrypt (D k) iv out = concat (cbc_decrypt_loop (D k) iv (blocks m out))
        @ xor_bytes (D k (region (16 * m + 16) f out @ drop f (D k (region (16 * m) 16 out))))
            (if 16 * m = 0 then iv else region (16 * m - 16) 16 out)
        @ xor_bytes (take f (D k (region (16 * m) 16 out))) (region (16 * m + 16) f out)"
      unfolding cbc_decrypt_def Let_def mods using False by simp
    also have "\<dots> = concat (cbc_decrypt_loop (D k) iv cs0) @ xor_bytes (D k (take f c @ drop f x)) (last_block iv cs0)
        @ xor_bytes (take f x) (take f c)"
      using blocks_concat [OF len_c(2), of "E k x @ take f c"] len_c(3) unfolding r1 r2 prev x(3) by (simp add: out_def)
    also have "\<dots> = concat bs @ frag"
      using frag len_c(1) nf(2) by (simp add: x_parts bs_parts xor_bytes_undo)
    also have "\<dots> = input" by (simp add: bs(3) frag_def)
    finally show ?thesis using len_out by (simp add: enc)
  qed
qed

lemma ecb_length:
  assumes "good k" "\<forall>b \<in> set bs. length b = 16"
  shows "\<forall>c \<in> set (map (E k) bs). length c = 16"
  using assms by (simp add: length_E)

end

section \<open>Padding\<close>

definition pad_block :: "bytes \<Rightarrow> bytes" where
  "pad_block rest = rest @ replicate (16 - length rest) (of_nat (16 - length rest))"

lemma pad_block:
  assumes "length rest < 16"
  shows "length (pad_block rest) = 16" "unat (pad_block rest ! 15) = 16 - length rest"
    "pad_ok lo hi (pad_block rest) \<longleftrightarrow> lo \<le> 16 - length rest \<and> 16 - length rest \<le> hi"
    "take (16 - unat (pad_block rest ! 15)) (pad_block rest) = rest"
proof -
  show 1: "length (pad_block rest) = 16" using assms by (simp add: pad_block_def)
  have last: "pad_block rest ! 15 = of_nat (16 - length rest)" using assms by (simp add: pad_block_def nth_append)
  have "(16 - length rest) mod 256 = 16 - length rest" by simp
  then show 2: "unat (pad_block rest ! 15) = 16 - length rest" unfolding last by (simp add: unsigned_of_nat take_bit_eq_mod)
  have "drop (length rest) (pad_block rest) = replicate (16 - length rest) (of_nat (16 - length rest))"
    by (simp add: pad_block_def)
  moreover have "16 - (16 - length rest) = length rest" using assms by simp
  moreover have "list_all (\<lambda>b. b = c) (replicate k c)" for k and c :: byte by (induction k) simp_all
  ultimately show "pad_ok lo hi (pad_block rest) \<longleftrightarrow> lo \<le> 16 - length rest \<and> 16 - length rest \<le> hi"
    unfolding pad_ok_def Let_def 2 by (simp add: last)
  show "take (16 - unat (pad_block rest ! 15)) (pad_block rest) = rest" using assms by (simp add: 2) (simp add: pad_block_def)
qed

section \<open>One-bit cipher feedback\<close>

lemma length_cfb_xor [simp]: "length (cfb_xor out k block) = length out"
  by (simp add: cfb_xor_def)

lemma bit_0x80: "bit (0x80 :: byte) i \<longleftrightarrow> i = 7"
proof (cases "i < 8")
  case True
  then have "i \<in> {0, 1, 2, 3, 4, 5, 6, 7}" by auto
  then show ?thesis by (elim insertE) simp_all
next
  case False
  then show ?thesis using bit_imp_le_length [of "0x80 :: byte" i] by auto
qed

lemma drop_bit_and_1: "\<not> bit x n \<Longrightarrow> drop_bit n (x :: byte) AND 1 = 0"
  by (rule bit_eqI) (auto simp: bit_simps bit_1_iff intro!: gr0I)

lemma cfb_bit_other:
  assumes "j \<noteq> k" "k < 128" "j < 128" "length out = 16"
  shows "cfb_bit (cfb_xor out j block) k = cfb_bit out k"
proof (cases "j div 8 = k div 8")
  case True
  then have jk: "j mod 8 \<noteq> k mod 8" using assms(1) by (metis div_mult_mod_eq)
  then have "\<not> bit (drop_bit (j mod 8) (block ! 0 AND 0x80)) (7 - k mod 8)"
    unfolding bit_drop_bit_eq bit_and_iff bit_0x80 comp_def by auto
  then have "drop_bit (7 - k mod 8) (drop_bit (j mod 8) (block ! 0 AND 0x80)) AND 1 = 0"
    by (rule drop_bit_and_1)
  then show ?thesis
    using assms True by (simp add: cfb_bit_def cfb_xor_def bit.conj_xor_distrib2 drop_bit_xor)
qed (use assms in \<open>simp add: cfb_bit_def cfb_xor_def\<close>)

lemma cfb_xor_xor:
  assumes "length a = 16" "length b = 16" "k < 128"
  shows "cfb_xor (xor_bytes a b) k block = xor_bytes a (cfb_xor b k block)"
  by (rule nth_equalityI) (use assms in \<open>auto simp: cfb_xor_def nth_list_update xor.assoc\<close>)

lemma cfb_bits:
  assumes "length P = 16" "n \<le> 128" "foldl (cfb1_encrypt_bit E) (iv, P) [0..<n] = (iv', out)"
  shows "length out = 16 \<and> (\<forall>C. length C = 16 \<and> (\<forall>k<n. cfb_bit C k = cfb_bit out k) \<longrightarrow>
    foldl (cfb1_decrypt_bit E C) (iv, C) [0..<n] = (iv', xor_bytes (xor_bytes C P) out))"
  using assms(2,3)
proof (induction n arbitrary: iv' out)
  case 0
  then show ?case using assms(1) by simp
next
  case (Suc n)
  obtain iv1 out1 where s: "foldl (cfb1_encrypt_bit E) (iv, P) [0..<n] = (iv1, out1)" by fastforce
  then have now: "out = cfb_xor out1 n (E iv1)" "iv' = cfb_shift iv1 (cfb_bit out n)"
    using Suc.prems(2) by (auto simp: cfb1_encrypt_bit_def [of E "(iv1, out1)"] Let_def)
  note IH = Suc.IH [OF _ s]
  have len: "length out1 = 16" using IH Suc.prems(1) by simp
  have "foldl (cfb1_decrypt_bit E C) (iv, C) [0..<Suc n] = (iv', xor_bytes (xor_bytes C P) out)"
    if C: "length C = 16" "\<forall>k<Suc n. cfb_bit C k = cfb_bit out k" for C
  proof -
    have "cfb_bit C k = cfb_bit out1 k" if "k < n" for k
      using that C(2) cfb_bit_other [of n k out1 "E iv1"] Suc.prems(1) len by (simp add: now(1))
    then have "foldl (cfb1_decrypt_bit E C) (iv, C) [0..<n] = (iv1, xor_bytes (xor_bytes C P) out1)"
      using IH C(1) Suc.prems(1) by simp
    then show ?thesis
      using C assms(1) len Suc.prems(1) by (simp add: cfb1_decrypt_bit_def [of E C "(iv1, x)" for x] Let_def now cfb_xor_xor)
  qed
  then show ?case using len by (simp add: now(1))
qed

lemma cfb1_roundtrip:
  assumes "\<forall>b \<in> set bs. length b = 16"
  shows "cfb1_decrypt E iv (cfb1_encrypt E iv bs) = bs \<and> length (cfb1_encrypt E iv bs) = length bs
    \<and> (\<forall>c \<in> set (cfb1_encrypt E iv bs). length c = 16)"
  using assms
proof (induction bs arbitrary: iv)
  case (Cons b bs)
  obtain iv' out where s: "foldl (cfb1_encrypt_bit E) (iv, b) [0..<128] = (iv', out)" by fastforce
  have b: "length b = 16" using Cons.prems by simp
  have "length out = 16" "foldl (cfb1_decrypt_bit E out) (iv, out) [0..<128] = (iv', xor_bytes (xor_bytes out b) out)"
    using cfb_bits [OF b _ s] by auto
  then show ?case using Cons s b by (simp add: xor_bytes_undo del: upt.simps)
qed simp

section \<open>The Rijndael contexts\<close>

text \<open>A context for encryption with one for decryption under the same key.\<close>

definition key_pair :: "Rijndael \<times> Rijndael \<Rightarrow> bool" where
  "key_pair k \<longleftrightarrow> expanded_key_wf (fst k) \<and> rij_uRounds (snd k) = rij_uRounds (fst k)
     \<and> rij_expandedKey (snd k) = rij_expandedKey (RijndaelKeyEncToDec (fst k))"

interpretation rijndael: block_cipher "\<lambda>k. RijndaelEncrypt (fst k)" "\<lambda>k. RijndaelDecrypt (snd k)" key_pair
proof unfold_locales
  fix k :: "Rijndael \<times> Rijndael" and b :: bytes assume k: "key_pair k" and b: "length b = 16"
  have wf: "expanded_key_wf (fst k)" using k by (simp add: key_pair_def)
  then have "2 \<le> rij_uRounds (fst k)" by (simp add: expanded_key_wf_def)
  then show "length (RijndaelEncrypt (fst k) b) = 16"
    using wf by (simp add: RijndaelEncrypt_rounds length_concat_state)
  show "RijndaelDecrypt (snd k) (RijndaelEncrypt (fst k) b) = b"
    by (rule RijndaelDecrypt_Encrypt [OF wf _ _ b]) (use k in \<open>simp_all add: key_pair_def round_key_def\<close>)
qed

text \<open>The contexts that \<^verbatim>\<open>RijndaelInit\<close> sets up.\<close>

definition init_vector :: "bytes option \<Rightarrow> bytes" where
  "init_vector iv = (case iv of Some v \<Rightarrow> take 16 v | None \<Rightarrow> replicate 16 0)"

lemma init_contexts:
  assumes "length key \<in> {16, 24, 32}" "mode_of mode = Some m" "keyLen = int (length key div 8) - 2"
  obtains e d where "\<And>rij. RijndaelInit rij mode 0 (Some key) keyLen iv = (0, e)"
    and "\<And>rij. RijndaelInit rij mode 1 (Some key) keyLen iv = (0, d)" and "key_pair (e, d)"
    and "rij_valid e" "rij_valid d" "rij_direction e = Encrypt" "rij_direction d = Decrypt" "rij_mode e = m" "rij_mode d = m"
    and "rij_initVector e = init_vector iv" "rij_initVector d = init_vector iv"
    and "\<And>b. length b = 16 \<Longrightarrow> RijndaelEncrypt e b = aes_cipher (key_word (key_matrix key)) (length key div 4 + 6) b"
proof
  define c where "c rij = aes_context rij m key (init_vector iv)" for rij
  have c: "c rij = c new_rijndael" for rij by (simp add: c_def aes_context_def)
  show "RijndaelInit rij mode 0 (Some key) keyLen iv = (0, c new_rijndael)" for rij
    unfolding c [of rij, symmetric] unfolding c_def init_vector_def
    by (subst RijndaelInit_eq [OF assms(2) _ assms(1,3)]) (cases rij; simp add: direction_of_def aes_context_def)+
  show "RijndaelInit rij mode 1 (Some key) keyLen iv = (0, (RijndaelKeyEncToDec (c new_rijndael))\<lparr>rij_direction := Decrypt\<rparr>)" for rij
    unfolding c [of rij, symmetric] unfolding c_def init_vector_def
    by (subst RijndaelInit_eq [OF assms(2) _ assms(1,3), where d = Decrypt]) (simp_all add: direction_of_def)
  show "key_pair (c new_rijndael, (RijndaelKeyEncToDec (c new_rijndael))\<lparr>rij_direction := Decrypt\<rparr>)"
    using aes_context_wf [OF assms(1)] by (simp add: key_pair_def c_def RijndaelKeyEncToDec_def)
  show "RijndaelEncrypt (c new_rijndael) b = aes_cipher (key_word (key_matrix key)) (length key div 4 + 6) b" if "length b = 16" for b
    unfolding c_def by (rule RijndaelEncrypt_context [OF assms(1) that])
qed (simp_all add: aes_context_def RijndaelKeyEncToDec_def)

lemma length_init_vector: "case iv of Some v \<Rightarrow> 16 \<le> length v | None \<Rightarrow> True \<Longrightarrow> length (init_vector iv) = 16"
  by (auto simp: init_vector_def split: option.splits)

lemma nat_bits: "nat (8 * int n) div 128 = n div 16" "nat (8 * int n) div 8 = n" "nat (8 * int n) mod 128 div 8 = n mod 16"
  using mult_mod_right [of 8 n 16] by (simp_all add: nat_mult_distrib)

lemma cbc_loop_cong:
  assumes "\<And>b. length b = 16 \<Longrightarrow> E b = F b \<and> length (F b) = 16" "length iv = 16" "\<forall>b \<in> set bs. length b = 16"
  shows "cbc_encrypt_loop E iv bs = cbc_encrypt_loop F iv bs \<and> list_all (\<lambda>c. length c = 16) (cbc_encrypt_loop F iv bs)
    \<and> length (cbc_encrypt_loop F iv bs) = length bs"
  using assms(2,3) by (induction bs arbitrary: iv) (simp_all add: Let_def assms(1))

lemma cbc_encrypt_cong:
  assumes "\<And>b. length b = 16 \<Longrightarrow> E b = F b \<and> length (F b) = 16" "length iv = 16" "16 \<le> length data"
  shows "cbc_encrypt E iv data = cbc_encrypt F iv data"
proof -
  define cs where "cs = cbc_encrypt_loop F iv (blocks (length data div 16) data)"
  have "\<forall>b \<in> set (blocks (length data div 16) data). length b = 16"
    by (intro ballI, rule blocks_length [of "length data div 16" data]) simp_all
  from cbc_loop_cong [OF assms(1,2) this]
  have cs: "cbc_encrypt_loop E iv (blocks (length data div 16) data) = cs" "list_all (\<lambda>c. length c = 16) cs" "length cs = length data div 16"
    by (simp_all add: cs_def)
  have "length (last cs) = 16" using cs(2,3) assms(3) by (auto simp: list_all_iff intro!: last_in_set)
  then have "length (xor_bytes (take (length data mod 16) (last cs)) (drop (16 * (length data div 16)) data) @ drop (length data mod 16) (last cs)) = 16"
    by (simp add: minus_mult_div_eq_mod)
  note last = assms(1) [OF this, THEN conjunct1]
  show ?thesis unfolding cbc_encrypt_def Let_def cs(1) cs_def [symmetric] by (simp only: last)
qed

text \<open>
  The contexts of a call in CBC mode: the result is that of the standard's cipher in CBC mode, and a context for
  decryption turns it back.
\<close>

lemma rijndael_cbc:
  assumes key: "length key \<in> {16, 24, 32}" "keyLength = int (length key div 8) - 2" and iv: "16 \<le> length iv" and len: "16 \<le> length data"
  shows "\<exists>e n m. e = cbc_encrypt (aes_cipher (key_word (key_matrix key)) (length key div 4 + 6)) (take 16 iv) data
    \<and> length e = length data \<and> \<not> n < 0 \<and> \<not> m < 0
    \<and> (\<forall>rij. RijndaelBlockEncrypt (snd (RijndaelInit rij 1 0 (Some key) keyLength (Some iv))) (Some data) (8 * int (length data)) = Some (n, e))
    \<and> (\<forall>rij. RijndaelBlockDecrypt (snd (RijndaelInit rij 1 1 (Some key) keyLength (Some iv))) (Some e) (8 * int (length data)) = Some (m, data))"
proof -
  obtain e d where init: "\<And>rij. RijndaelInit rij 1 0 (Some key) keyLength (Some iv) = (0, e)"
      "\<And>rij. RijndaelInit rij 1 1 (Some key) keyLength (Some iv) = (0, d)"
    and k: "key_pair (e, d)" and ed: "rij_valid e" "rij_valid d" "rij_direction e = Encrypt" "rij_direction d = Decrypt"
      "rij_mode e = Mode_CBC" "rij_mode d = Mode_CBC" "rij_initVector e = init_vector (Some iv)" "rij_initVector d = init_vector (Some iv)"
    and aes: "\<And>b. length b = 16 \<Longrightarrow> RijndaelEncrypt e b = aes_cipher (key_word (key_matrix key)) (length key div 4 + 6) b"
    using init_contexts [OF key(1) _ key(2), of 1 Mode_CBC "Some iv"] by (auto simp: mode_of_def)
  have iv16: "init_vector (Some iv) = take 16 iv" "length (take 16 iv) = 16" using iv by (simp_all add: init_vector_def)
  have same: "RijndaelEncrypt e b = aes_cipher (key_word (key_matrix key)) (length key div 4 + 6) b
      \<and> length (aes_cipher (key_word (key_matrix key)) (length key div 4 + 6) b) = 16"
    if "length b = 16" for b
    using aes [OF that] rijndael.length_E [OF k that] by simp
  define x where "x = cbc_encrypt (RijndaelEncrypt e) (take 16 iv) data"
  have x: "cbc_decrypt (RijndaelDecrypt d) (take 16 iv) x = data" "length x = length data"
    using rijndael.cbc_roundtrip [OF k iv16(2) len] by (simp_all add: x_def)
  have pos: "data \<noteq> []" "x \<noteq> []" "0 < length data div 16" using len x(2) by (auto simp: div_greater_zero_iff)
  have "x = cbc_encrypt (aes_cipher (key_word (key_matrix key)) (length key div 4 + 6)) (take 16 iv) data"
    unfolding x_def using same by (intro cbc_encrypt_cong) (simp_all only: iv16 len)
  moreover have "RijndaelBlockEncrypt e (Some data) (8 * int (length data)) = Some (128 * int (length data div 16), x)"
    using len pos by (simp add: RijndaelBlockEncrypt_def Let_def ed nat_bits iv16 x_def)
  moreover obtain m where "\<not> m < 0" "RijndaelBlockDecrypt d (Some x) (8 * int (length data)) = Some (m, data)"
    using len pos x by (auto simp: RijndaelBlockDecrypt_def Let_def ed nat_bits iv16)
  ultimately show ?thesis using x(2) by (intro exI [of _ x] exI [of _ "128 * int (length data div 16)"] exI [of _ m]) (simp add: init)
qed

text \<open>
  C16. The modes of operation: for every mode, what \<^verbatim>\<open>RijndaelBlockEncrypt\<close> produces has the length of its input and
  \<^verbatim>\<open>RijndaelBlockDecrypt\<close> with a second context of the same key turns it back, in CBC mode for every
  length from one block on (a partial block at the end steals ciphertext), in ECB and CFB1 mode for
  whole blocks. A CFB1 decryption needs a context for encryption. The lengths returned are those of the
  encrypted blocks, and one block less on decryption when there is a partial block. The comment in \<^verbatim>\<open>rijndael.h\<close>, by which
  the length has to be a multiple of 16 and the rest is discarded, is not true of CBC mode.
\<close>

theorem rijndael_modes_roundtrip:
  assumes "length key \<in> {16, 24, 32}" and "mode_of mode = Some m" and "keyLen = int (length key div 8) - 2"
    and "case iv of Some v \<Rightarrow> 16 \<le> length v | None \<Rightarrow> True"
    and "if m = Mode_CBC then 16 \<le> length data else length data mod 16 = 0 \<and> data \<noteq> []"
  shows "\<exists>c. RijndaelBlockEncrypt (snd (RijndaelInit rij mode 0 (Some key) keyLen iv)) (Some data) (8 * int (length data))
        = Some (128 * int (length data div 16), c)
    \<and> length c = length data
    \<and> RijndaelBlockDecrypt (snd (RijndaelInit rij' mode (if m = Mode_CFB1 then 0 else 1) (Some key) keyLen iv)) (Some c) (8 * int (length c))
        = Some (128 * int (if length data mod 16 = 0 then length data div 16 else length data div 16 - 1), data)"
proof -
  obtain e d where init: "\<And>rij. RijndaelInit rij mode 0 (Some key) keyLen iv = (0, e)"
      "\<And>rij. RijndaelInit rij mode 1 (Some key) keyLen iv = (0, d)"
    and k: "key_pair (e, d)" and ed: "rij_valid e" "rij_valid d" "rij_direction e = Encrypt" "rij_direction d = Decrypt"
      "rij_mode e = m" "rij_mode d = m" "rij_initVector e = init_vector iv" "rij_initVector d = init_vector iv"
    using init_contexts [OF assms(1-3), where ?iv = iv] by metis
  have iv: "length (init_vector iv) = 16" by (rule length_init_vector [OF assms(4)])
  define n where "n = length data div 16"
  have pos: "\<not> int (length data) \<le> 0" using assms(5) by (auto split: if_splits)
  have bs: "\<forall>b \<in> set (blocks n data). length b = 16" by (intro ballI, rule blocks_length [of n data]) (simp_all add: n_def)
  have whole: "16 * n = length data" "concat (blocks n data) = data" if "length data mod 16 = 0"
    using that concat_blocks [of n data] by (auto simp: n_def)
  have enc: "RijndaelBlockEncrypt e (Some data) (8 * int (length data)) =
     Some (128 * int n, case m of Mode_ECB \<Rightarrow> concat (map (RijndaelEncrypt e) (blocks n data))
       | Mode_CBC \<Rightarrow> cbc_encrypt (RijndaelEncrypt e) (init_vector iv) data
       | Mode_CFB1 \<Rightarrow> concat (cfb1_encrypt (RijndaelEncrypt e) (init_vector iv) (blocks n data)))"
    using assms(5) pos by (auto simp: RijndaelBlockEncrypt_def Let_def ed nat_bits n_def split: rij_mode.splits)
  show ?thesis
  proof (cases m)
    case Mode_CBC
    note r = rijndael.cbc_roundtrip [OF k iv, of data, simplified]
    show ?thesis using r assms(5) Mode_CBC pos
      by (simp add: init enc) (auto simp: RijndaelBlockDecrypt_def Let_def ed nat_bits n_def)
  next
    case Mode_ECB
    define cs where "cs = map (RijndaelEncrypt e) (blocks n data)"
    have cs: "\<forall>c \<in> set cs. length c = 16" "length cs = n" "map (RijndaelDecrypt d) cs = blocks n data"
      using rijndael.ecb_length [OF k bs] rijndael.ecb_roundtrip [OF k bs] by (simp_all add: cs_def)
    have "length (concat cs) = length data" using cs assms(5) Mode_ECB whole(1) by (simp add: length_concat_blocks)
    then show ?thesis using cs blocks_concat [OF cs(1), of "[]"] whole assms(5) Mode_ECB pos
      by (simp add: init enc flip: cs_def) (simp add: RijndaelBlockDecrypt_def Let_def ed nat_bits n_def)
  next
    case Mode_CFB1
    define cs where "cs = cfb1_encrypt (RijndaelEncrypt e) (init_vector iv) (blocks n data)"
    have cs: "\<forall>c \<in> set cs. length c = 16" "length cs = n" "cfb1_decrypt (RijndaelEncrypt e) (init_vector iv) cs = blocks n data"
      using cfb1_roundtrip [OF bs] by (simp_all add: cs_def)
    have "length (concat cs) = length data" using cs assms(5) Mode_CFB1 whole(1) by (simp add: length_concat_blocks)
    then show ?thesis using cs blocks_concat [OF cs(1), of "[]"] whole assms(5) Mode_CFB1 pos
      by (simp add: init enc flip: cs_def) (simp add: RijndaelBlockDecrypt_def Let_def ed nat_bits n_def)
  qed
qed

theorem rijndael_modes_roundtrip_witness:
  "\<exists>c. RijndaelBlockEncrypt (snd (RijndaelInit new_rijndael 1 0 (Some (replicate 32 7)) 2 None)) (Some (replicate 40 1)) 320 = Some (256, c)
     \<and> RijndaelBlockDecrypt (snd (RijndaelInit new_rijndael 1 1 (Some (replicate 32 7)) 2 None)) (Some c) 320 = Some (128, replicate 40 1)"
  using rijndael_modes_roundtrip [of "replicate 32 7" 1 Mode_CBC 2 None "replicate 40 1" new_rijndael new_rijndael]
  by (auto simp: mode_of_def)

text \<open>
  C17. Padding: what \<^verbatim>\<open>RijndaelPadEncrypt\<close> makes of some bytes, \<^verbatim>\<open>RijndaelPadDecrypt\<close> turns back in CBC
  mode. In ECB mode it does so only when the length is not a multiple of 16: a full block of padding, which the
  encryption appends to whole blocks, is refused by the decryption as corrupted data (-7).
\<close>

theorem rijndael_padding:
  assumes "length key \<in> {16, 24, 32}" and "mode_of mode = Some m" and "m \<noteq> Mode_CFB1" and "keyLen = int (length key div 8) - 2"
    and "case iv of Some v \<Rightarrow> 16 \<le> length v | None \<Rightarrow> True" and "data \<noteq> []"
  shows "\<exists>c. RijndaelPadEncrypt (snd (RijndaelInit rij mode 0 (Some key) keyLen iv)) (Some data) (int (length data))
        = Some (16 * (int (length data div 16) + 1), c)
    \<and> length c = 16 * (length data div 16 + 1)
    \<and> RijndaelPadDecrypt (snd (RijndaelInit rij' mode 1 (Some key) keyLen iv)) (Some c) (int (length c))
        = Some (if m = Mode_ECB \<and> length data mod 16 = 0 then -7 else int (length data), data)"
proof -
  obtain e d where init: "\<And>rij. RijndaelInit rij mode 0 (Some key) keyLen iv = (0, e)"
      "\<And>rij. RijndaelInit rij mode 1 (Some key) keyLen iv = (0, d)"
    and k: "key_pair (e, d)" and ed: "rij_valid e" "rij_valid d" "rij_direction e = Encrypt" "rij_direction d = Decrypt"
      "rij_mode e = m" "rij_mode d = m" "rij_initVector e = init_vector iv" "rij_initVector d = init_vector iv"
    using init_contexts [OF assms(1,2,4), where ?iv = iv] by metis
  have iv: "length (init_vector iv) = 16" by (rule length_init_vector [OF assms(5)])
  note E = rijndael.length_E [OF k, simplified] and D = rijndael.D_E [OF k, simplified]
  define n where "n = length data div 16"
  define rest where "rest = drop (16 * n) data"
  have len: "length data = 16 * n + length rest" "length rest < 16" "length rest = length data mod 16"
    by (simp_all add: n_def rest_def minus_mult_div_eq_mod)
  have bs: "\<forall>b \<in> set (blocks n data). length b = 16" by (intro ballI, rule blocks_length [of n data]) (simp_all add: n_def)
  have data: "concat (blocks n data) @ rest = data" by (simp add: concat_blocks n_def rest_def)
  have rest_region: "region (16 * n) (length rest) data = rest" using len(1) by (simp add: region_def rest_def)
  have pos: "\<not> int (length data) \<le> 0" using assms(6) by simp
  have pad: "region (16 * n) (16 - (16 - (length data - 16 * n))) data @ replicate (16 - (length data - 16 * n)) (of_nat (16 - (length data - 16 * n)))
    = pad_block rest"
  proof -
    have "length data - 16 * n = length rest" "16 - (16 - length rest) = length rest" using len(1,2) by simp_all
    then show ?thesis by (simp only: rest_region pad_block_def)
  qed
  note pb = pad_block [OF len(2)]
  define last where "last cs = (if m = Mode_ECB then pad_block rest else xor_bytes (pad_block rest) (last_block (init_vector iv) cs))" for cs
  define cs where "cs = (if m = Mode_ECB then map (RijndaelEncrypt e) (blocks n data)
    else cbc_encrypt_loop (RijndaelEncrypt e) (init_vector iv) (blocks n data))"
  have cs: "\<forall>c \<in> set cs. length c = 16" "length cs = n"
    using rijndael.ecb_length [OF k bs] rijndael.cbc_loop_length [OF k iv bs] by (simp_all add: cs_def list_all_iff)
  have last: "length (last cs) = 16"
    using cs(1) iv pb(1) by (auto simp: last_def last_block_def)
  define c where "c = concat cs @ RijndaelEncrypt e (last cs)"
  have enc: "RijndaelPadEncrypt e (Some data) (int (length data)) = Some (16 * (int n + 1), c)"
    using pos assms(3) unfolding RijndaelPadEncrypt_def Let_def
    by (cases m) (simp_all add: ed pad c_def cs_def last_def flip: n_def)
  have c: "length c = 16 * (n + 1)" "blocks n c = cs" "region (16 * n) 16 c = RijndaelEncrypt e (last cs)"
    using cs E [OF last] blocks_concat [OF cs(1), of "RijndaelEncrypt e (last cs)"]
    by (simp_all add: c_def length_concat_blocks region_def)
  have out: "(if m = Mode_ECB then map (RijndaelDecrypt d) cs else cbc_decrypt_loop (RijndaelDecrypt d) (init_vector iv) cs) = blocks n data"
    using rijndael.ecb_roundtrip [OF k bs] rijndael.cbc_loop_roundtrip [OF k iv bs] by (simp add: cs_def)
  have len_last: "length (last_block (init_vector iv) cs) = 16" using cs(1) iv by (simp add: last_block_def)
  have "RijndaelPadDecrypt d (Some c) (int (length c)) = Some (if m = Mode_ECB \<and> length data mod 16 = 0 then -7 else int (length data), data)"
  proof -
    have sizes: "nat (int (length c)) = 16 * Suc n" "16 * Suc n div 16 - 1 = n" "int (length c) mod 16 = 0" "\<not> int (length c) \<le> 0"
      using c(1) by simp_all
    have res: "16 * int (Suc n) - int (16 - length rest) = int (length data)" using len(1,2) by simp
    have take_rest: "take (16 - (16 - length rest)) (pad_block rest) = rest" using pb(4) by (simp only: pb(2))
    have "m = Mode_ECB \<or> m = Mode_CBC" using assms(3) by (cases m) simp_all
    then show ?thesis
    proof
      assume m: "m = Mode_ECB"
      have dec: "RijndaelDecrypt d (region (16 * n) 16 c) = pad_block rest" "map (RijndaelDecrypt d) (blocks n c) = blocks n data"
        using c(2,3) D [OF last] out by (simp_all add: m last_def)
      show ?thesis
        unfolding RijndaelPadDecrypt_def Let_def option.case sizes ed m rij_mode.case dec pb(2,3) take_rest
        using c(1) data len res by (auto simp: ed(2))
    next
      assume m: "m = Mode_CBC"
      have dec: "xor_bytes (RijndaelDecrypt d (region (16 * n) 16 c)) (last_block (init_vector iv) (blocks n c)) = pad_block rest"
          "cbc_decrypt_loop (RijndaelDecrypt d) (init_vector iv) (blocks n c) = blocks n data"
        using c(2,3) D [OF last] out len_last pb(1) by (simp_all add: m last_def)
      show ?thesis
        unfolding RijndaelPadDecrypt_def Let_def option.case sizes ed m rij_mode.case dec pb(2,3) take_rest
        using c(1) data len res by (auto simp: ed(2))
    qed
  qed
  then show ?thesis using enc c(1) by (simp add: init n_def)
qed

theorem rijndael_padding_witness:
  "\<exists>c. RijndaelPadEncrypt (snd (RijndaelInit new_rijndael 0 0 (Some (replicate 16 7)) 0 None)) (Some (replicate 16 1)) 16 = Some (32, c)
     \<and> RijndaelPadDecrypt (snd (RijndaelInit new_rijndael 0 1 (Some (replicate 16 7)) 0 None)) (Some c) 32 = Some (-7, replicate 16 1)"
  using rijndael_padding [of "replicate 16 7" 0 Mode_ECB 0 None "replicate 16 1" new_rijndael new_rijndael]
  by (auto simp: mode_of_def)

end
