(* ===== verification/Cipher_wxAES.thy ===== *)
theory Cipher_wxAES
  imports Page_Cipher Rijndael_Modes PBKDF2
begin

text \<open>
  The two AES ciphers of wxSQLite3, \<^verbatim>\<open>src/src/cipher_wxaes128.c\<close> and \<^verbatim>\<open>src/src/cipher_wxaes256.c\<close>, with the
  page encryption \<^verbatim>\<open>sqlite3mcAES128\<close> and \<^verbatim>\<open>sqlite3mcAES256\<close> of \<^verbatim>\<open>src/src/codec_algos.c\<close>. There are no reserved
  bytes: the key and the initial vector of a page come from its number. On page 1 the bytes 16 to
  23 of the database header stay readable, unless the legacy scheme is used.
\<close>

unbundle bit_operations_syntax

section \<open>The encryption of the data of a page\<close>

text \<open>
  The key of a page is a digest of the cipher key, the page number and the bytes of \<^verbatim>\<open>sAlT\<close>. The Rijndael
  context is returned with the code and the buffer. The functions are called with one buffer for input and output.
\<close>

definition page_key_material :: "bytes \<Rightarrow> int \<Rightarrow> bytes" where
  "page_key_material encryptionKey page = encryptionKey @ int_bytes_le page @ [0x73, 0x41, 0x6c, 0x54]"

definition page_aes :: "bytes \<Rightarrow> int \<Rightarrow> Rijndael \<Rightarrow> int \<Rightarrow> bool \<Rightarrow> bytes \<Rightarrow> (int \<times> bytes \<times> Rijndael) option" where
  "page_aes pagekey keyLength aesCtx page encrypt data =
     (let initial = sqlite3mcGenerateInitialVector page;
          aesCtx = snd (RijndaelInit aesCtx 1 (if encrypt then 0 else 1) (Some pagekey) keyLength (Some initial));
          result = (if encrypt then RijndaelBlockEncrypt aesCtx (Some data) (8 * int (length data))
                    else RijndaelBlockDecrypt aesCtx (Some data) (8 * int (length data)))
      in map_option (\<lambda>(len, out). (if len < 0 then SQLITE_ERROR else SQLITE_OK, memcpy_at data 0 out, aesCtx)) result)"

definition sqlite3mcAES128 :: "Rijndael \<Rightarrow> int \<Rightarrow> bool \<Rightarrow> bytes \<Rightarrow> bytes \<Rightarrow> (int \<times> bytes \<times> Rijndael) option" where
  "sqlite3mcAES128 aesCtx page encrypt encryptionKey data =
     (let nkey = page_key_material (take 16 encryptionKey) page
      in page_aes (sqlite3mcGetMD5Binary nkey) 0 aesCtx page encrypt data)"

definition sqlite3mcAES256 :: "Rijndael \<Rightarrow> int \<Rightarrow> bool \<Rightarrow> bytes \<Rightarrow> bytes \<Rightarrow> (int \<times> bytes \<times> Rijndael) option" where
  "sqlite3mcAES256 aesCtx page encrypt encryptionKey data =
     (let nkey = page_key_material (take 32 encryptionKey) page
      in page_aes (sqlite3mcGetSHABinary nkey) 2 aesCtx page encrypt data)"

section \<open>Page 1\<close>

text \<open>
  Both ciphers treat the pages in the same way; \<open>crypt\<close> is the call of \<^verbatim>\<open>sqlite3mcAES128\<close> or \<^verbatim>\<open>sqlite3mcAES256\<close>
  for the page, the direction and the key. A page 1 whose header is read must have 24 bytes.
\<close>

type_synonym crypt = "Rijndael \<Rightarrow> bytes \<Rightarrow> (int \<times> bytes \<times> Rijndael) option"

definition wx_encrypt_page :: "crypt \<Rightarrow> int \<Rightarrow> Rijndael \<Rightarrow> int \<Rightarrow> bytes \<Rightarrow> (int \<times> bytes) option" where
  "wx_encrypt_page crypt legacy aes page data =
     (if legacy \<noteq> 0 \<or> page \<noteq> 1 then map_option (\<lambda>(rc, data, aes). (rc, data)) (crypt aes data)
      else if length data < 24 then None
      else
        let dbHeader = region 16 8 data
        in case crypt aes (take 16 data) of None \<Rightarrow> None
         | Some (_, start, aes) \<Rightarrow>
             (case crypt aes (drop 16 data) of None \<Rightarrow> None
              | Some (rc, rest, aes) \<Rightarrow>
                  let data = start @ rest;
                      data = memcpy_at data 8 (region 16 8 data);
                      data = memcpy_at data 16 dbHeader
                  in Some (rc, data)))"

text \<open>The test of the header bytes of page 1: page size, payload fractions.\<close>

definition wx_header_page_size :: "bytes \<Rightarrow> int" where
  "wx_header_page_size dbHeader = push_bit 8 (uint (dbHeader ! 0)) OR push_bit 16 (uint (dbHeader ! 1))"

definition wx_header_valid :: "bytes \<Rightarrow> bool" where
  "wx_header_valid dbHeader \<longleftrightarrow>
     (let dbPageSize = wx_header_page_size dbHeader
      in dbPageSize \<ge> 512 \<and> dbPageSize \<le> SQLITE_MAX_PAGE_SIZE \<and> ((dbPageSize - 1) AND dbPageSize) = 0
         \<and> dbHeader ! 5 = 0x40 \<and> dbHeader ! 6 = 0x20 \<and> dbHeader ! 7 = 0x20)"

definition wx_decrypt_page :: "crypt \<Rightarrow> int \<Rightarrow> Rijndael \<Rightarrow> int \<Rightarrow> bytes \<Rightarrow> (int \<times> bytes) option" where
  "wx_decrypt_page crypt legacy aes page data =
     (if legacy \<noteq> 0 \<or> page \<noteq> 1 then map_option (\<lambda>(rc, data, aes). (rc, data)) (crypt aes data)
      else if length data < 24 then None
      else
        let dbHeader = region 16 8 data
        in if wx_header_valid dbHeader then
             let data = memcpy_at data 16 (region 8 8 data)
             in case crypt aes (drop 16 data) of None \<Rightarrow> None
              | Some (rc, rest, aes) \<Rightarrow>
                  let data = take 16 data @ rest
                  in Some (rc, if dbHeader = region 16 8 data then memcpy_at data 0 SQLITE_FILE_HEADER else data)
           else map_option (\<lambda>(rc, data, aes). (rc, data)) (crypt aes data))"

section \<open>The AES-128 cipher\<close>

record AES128Cipher =
  aes1_legacy :: int
  aes1_legacyPageSize :: int
  aes1_keyLength :: int
  aes1_key :: bytes
  aes1_aes :: Rijndael

definition AllocateAES128Cipher :: "bool \<Rightarrow> mc_config \<Rightarrow> (AES128Cipher option \<times> mc_config) option" where
  "AllocateAES128Cipher db s =
     (let (ok, s) = sqlite3_malloc s
      in if \<not> ok then Some (None, s)
         else let (ok, s) = sqlite3_malloc s
           in if \<not> ok then Some (None, s)
              else case read_parameters (sqlite3mcGetCipherParams db ''aes128cbc'' s) [''legacy'', ''legacy_page_size''] s of
                Some ([legacy, pageSize], s) \<Rightarrow>
                  Some (Some \<lparr>aes1_legacy = legacy, aes1_legacyPageSize = pageSize, aes1_keyLength = 16,
                              aes1_key = replicate 16 0, aes1_aes = RijndaelCreate new_rijndael\<rparr>, s)
              | _ \<Rightarrow> None)"

definition FreeAES128Cipher :: "AES128Cipher \<Rightarrow> AES128Cipher" where
  "FreeAES128Cipher c = \<lparr>aes1_legacy = 0, aes1_legacyPageSize = 0, aes1_keyLength = 0, aes1_key = replicate 16 0,
     aes1_aes = zero_rijndael\<rparr>"

text \<open>Cloning also invalidates the context of the original, which is initialised again before its next use.\<close>

definition CloneAES128Cipher :: "AES128Cipher \<Rightarrow> AES128Cipher \<Rightarrow> AES128Cipher" where
  "CloneAES128Cipher cipherTo cipherFrom =
     cipherTo\<lparr>aes1_legacy := aes1_legacy cipherFrom, aes1_legacyPageSize := aes1_legacyPageSize cipherFrom,
       aes1_keyLength := aes1_keyLength cipherFrom, aes1_key := memcpy_at (aes1_key cipherTo) 0 (take 16 (aes1_key cipherFrom)),
       aes1_aes := RijndaelInvalidate (aes1_aes cipherTo)\<rparr>"

definition GetLegacyAES128Cipher :: "AES128Cipher \<Rightarrow> int" where
  "GetLegacyAES128Cipher c = aes1_legacy c"

definition GetPageSizeAES128Cipher :: "AES128Cipher \<Rightarrow> int" where
  "GetPageSizeAES128Cipher c = (if aes1_legacy c \<noteq> 0 then legacy_page_size (aes1_legacyPageSize c) else 0)"

definition GetReservedAES128Cipher :: "AES128Cipher \<Rightarrow> int" where
  "GetReservedAES128Cipher c = 0"

definition GetSaltAES128Cipher :: "AES128Cipher \<Rightarrow> bytes option" where
  "GetSaltAES128Cipher c = None"

text \<open>The loop of 50 further MD5 passes, and that of 20 RC4 passes with the digest combined with the number of the pass.\<close>

definition md5_passes :: "bytes \<Rightarrow> bytes" where
  "md5_passes digest = ((\<lambda>digest. MD5_Final (MD5_Update MD5_Init digest)) ^^ 50) digest"

definition owner_key :: "bytes \<Rightarrow> bytes \<Rightarrow> bytes" where
  "owner_key digest userPad =
     foldl (\<lambda>ownerKey i. sqlite3mcRC4 (map (\<lambda>d. d XOR of_nat i) digest) ownerKey) userPad [0..<20]"

definition GenerateKeyAES128Cipher :: "AES128Cipher \<Rightarrow> bytes \<Rightarrow> int \<Rightarrow> bytes option \<Rightarrow> rng \<Rightarrow> (AES128Cipher \<times> rng) option" where
  "GenerateKeyAES128Cipher c userPassword rekey cipherSalt r =
     (let userPad = sqlite3mcPadPassword userPassword; ownerPad = sqlite3mcPadPassword [];
          digest = md5_passes (MD5_Final (MD5_Update MD5_Init ownerPad));
          ownerKey = owner_key digest userPad;
          digest = md5_passes (MD5_Final (MD5_Update (MD5_Update MD5_Init userPad) ownerKey))
      in Some (c\<lparr>aes1_key := memcpy_at (aes1_key c) 0 (take (nat (aes1_keyLength c)) digest)\<rparr>, r))"

definition EncryptPageAES128Cipher :: "AES128Cipher \<Rightarrow> int \<Rightarrow> bytes \<Rightarrow> int \<Rightarrow> rng \<Rightarrow> (int \<times> bytes \<times> rng) option" where
  "EncryptPageAES128Cipher c page data reserved r =
     map_option (\<lambda>(rc, data). (rc, data, r))
       (wx_encrypt_page (\<lambda>aes. sqlite3mcAES128 aes page True (aes1_key c)) (aes1_legacy c) (aes1_aes c) page data)"

definition DecryptPageAES128Cipher :: "AES128Cipher \<Rightarrow> int \<Rightarrow> bytes \<Rightarrow> int \<Rightarrow> bool \<Rightarrow> (int \<times> bytes) option" where
  "DecryptPageAES128Cipher c page data reserved hmacCheck =
     wx_decrypt_page (\<lambda>aes. sqlite3mcAES128 aes page False (aes1_key c)) (aes1_legacy c) (aes1_aes c) page data"

definition mcAES128Descriptor :: "AES128Cipher CipherDescriptor" where
  "mcAES128Descriptor = \<lparr>d_name = Some ''aes128cbc'', m_allocateCipher = Some AllocateAES128Cipher, m_freeCipher = Some FreeAES128Cipher,
     m_cloneCipher = Some CloneAES128Cipher, m_getLegacy = Some GetLegacyAES128Cipher, m_getPageSize = Some GetPageSizeAES128Cipher,
     m_getReserved = Some GetReservedAES128Cipher, m_getSalt = Some GetSaltAES128Cipher, m_generateKey = Some GenerateKeyAES128Cipher,
     m_encryptPage = Some EncryptPageAES128Cipher, m_decryptPage = Some DecryptPageAES128Cipher\<rparr>"

section \<open>The AES-256 cipher\<close>

record AES256Cipher =
  aes2_legacy :: int
  aes2_legacyPageSize :: int
  aes2_kdfIter :: int
  aes2_keyLength :: int
  aes2_key :: bytes
  aes2_aes :: Rijndael

definition AllocateAES256Cipher :: "bool \<Rightarrow> mc_config \<Rightarrow> (AES256Cipher option \<times> mc_config) option" where
  "AllocateAES256Cipher db s =
     (let (ok, s) = sqlite3_malloc s
      in if \<not> ok then Some (None, s)
         else let (ok, s) = sqlite3_malloc s
           in if \<not> ok then Some (None, s)
              else case read_parameters (sqlite3mcGetCipherParams db ''aes256cbc'' s) [''legacy'', ''legacy_page_size'', ''kdf_iter''] s of
                Some ([legacy, pageSize, kdfIter], s) \<Rightarrow>
                  Some (Some \<lparr>aes2_legacy = legacy, aes2_legacyPageSize = pageSize, aes2_kdfIter = kdfIter, aes2_keyLength = 32,
                              aes2_key = replicate 32 0, aes2_aes = RijndaelCreate new_rijndael\<rparr>, s)
              | _ \<Rightarrow> None)"

definition FreeAES256Cipher :: "AES256Cipher \<Rightarrow> AES256Cipher" where
  "FreeAES256Cipher c = \<lparr>aes2_legacy = 0, aes2_legacyPageSize = 0, aes2_kdfIter = 0, aes2_keyLength = 0, aes2_key = replicate 32 0,
     aes2_aes = zero_rijndael\<rparr>"

text \<open>As above, cloning also invalidates the context of the original, which is initialised again before its next use.\<close>

definition CloneAES256Cipher :: "AES256Cipher \<Rightarrow> AES256Cipher \<Rightarrow> AES256Cipher" where
  "CloneAES256Cipher cipherTo cipherFrom =
     cipherTo\<lparr>aes2_legacy := aes2_legacy cipherFrom, aes2_legacyPageSize := aes2_legacyPageSize cipherFrom,
       aes2_kdfIter := aes2_kdfIter cipherFrom,
       aes2_keyLength := aes2_keyLength cipherFrom, aes2_key := memcpy_at (aes2_key cipherTo) 0 (take 32 (aes2_key cipherFrom)),
       aes2_aes := RijndaelInvalidate (aes2_aes cipherTo)\<rparr>"

definition GetLegacyAES256Cipher :: "AES256Cipher \<Rightarrow> int" where
  "GetLegacyAES256Cipher c = aes2_legacy c"

definition GetPageSizeAES256Cipher :: "AES256Cipher \<Rightarrow> int" where
  "GetPageSizeAES256Cipher c = (if aes2_legacy c \<noteq> 0 then legacy_page_size (aes2_legacyPageSize c) else 0)"

definition GetReservedAES256Cipher :: "AES256Cipher \<Rightarrow> int" where
  "GetReservedAES256Cipher c = 0"

definition GetSaltAES256Cipher :: "AES256Cipher \<Rightarrow> bytes option" where
  "GetSaltAES256Cipher c = None"

text \<open>The number of passes is a constant of the code; \<^verbatim>\<open>m_kdfIter\<close> is not read.\<close>

definition CODEC_SHA_ITER :: nat where "CODEC_SHA_ITER = 4001"

definition GenerateKeyAES256Cipher :: "AES256Cipher \<Rightarrow> bytes \<Rightarrow> int \<Rightarrow> bytes option \<Rightarrow> rng \<Rightarrow> (AES256Cipher \<times> rng) option" where
  "GenerateKeyAES256Cipher c userPassword rekey cipherSalt r =
     (let userPad = sqlite3mcPadPassword userPassword;
          digest = (sha256 ^^ CODEC_SHA_ITER) (sha256 userPad)
      in Some (c\<lparr>aes2_key := memcpy_at (aes2_key c) 0 (take (nat (aes2_keyLength c)) digest)\<rparr>, r))"

definition EncryptPageAES256Cipher :: "AES256Cipher \<Rightarrow> int \<Rightarrow> bytes \<Rightarrow> int \<Rightarrow> rng \<Rightarrow> (int \<times> bytes \<times> rng) option" where
  "EncryptPageAES256Cipher c page data reserved r =
     map_option (\<lambda>(rc, data). (rc, data, r))
       (wx_encrypt_page (\<lambda>aes. sqlite3mcAES256 aes page True (aes2_key c)) (aes2_legacy c) (aes2_aes c) page data)"

definition DecryptPageAES256Cipher :: "AES256Cipher \<Rightarrow> int \<Rightarrow> bytes \<Rightarrow> int \<Rightarrow> bool \<Rightarrow> (int \<times> bytes) option" where
  "DecryptPageAES256Cipher c page data reserved hmacCheck =
     wx_decrypt_page (\<lambda>aes. sqlite3mcAES256 aes page False (aes2_key c)) (aes2_legacy c) (aes2_aes c) page data"

definition mcAES256Descriptor :: "AES256Cipher CipherDescriptor" where
  "mcAES256Descriptor = \<lparr>d_name = Some ''aes256cbc'', m_allocateCipher = Some AllocateAES256Cipher, m_freeCipher = Some FreeAES256Cipher,
     m_cloneCipher = Some CloneAES256Cipher, m_getLegacy = Some GetLegacyAES256Cipher, m_getPageSize = Some GetPageSizeAES256Cipher,
     m_getReserved = Some GetReservedAES256Cipher, m_getSalt = Some GetSaltAES256Cipher, m_generateKey = Some GenerateKeyAES256Cipher,
     m_encryptPage = Some EncryptPageAES256Cipher, m_decryptPage = Some DecryptPageAES256Cipher\<rparr>"

section \<open>Round trip\<close>

lemma sha256_digest: "length data < 2 ^ 29 \<Longrightarrow> sha256 data = sha256_spec data \<and> length (sha256_spec data) = 32"
  using sha256.st_final [OF sha256.st_update [OF sha256.st_init, of data], simplified] sha256.len_H [of data]
  by (simp add: sha256_def sha256_ops_simps)

text \<open>What \<open>page_aes\<close> computes: AES in CBC mode; and it undoes it.\<close>

lemma page_aes_correct:
  assumes key: "length pagekey \<in> {16, 24, 32}" "keyLength = int (length pagekey div 8) - 2" and len: "16 \<le> length data"
  shows "\<exists>e aes'. page_aes pagekey keyLength aes page True data = Some (SQLITE_OK, e, aes') \<and> length e = length data
    \<and> e = cbc_encrypt (aes_cipher (key_word (key_matrix pagekey)) (length pagekey div 4 + 6)) (sqlite3mcGenerateInitialVector page) data
    \<and> (\<forall>aes2. \<exists>aes''. page_aes pagekey keyLength aes2 page False e = Some (SQLITE_OK, data, aes''))"
proof -
  let ?iv = "sqlite3mcGenerateInitialVector page"
  obtain e n k where "e = cbc_encrypt (aes_cipher (key_word (key_matrix pagekey)) (length pagekey div 4 + 6)) (take 16 ?iv) data"
    "length e = length data" "\<not> n < 0" "\<not> k < 0"
    "\<And>rij. RijndaelBlockEncrypt (snd (RijndaelInit rij 1 0 (Some pagekey) keyLength (Some ?iv))) (Some data) (8 * int (length data)) = Some (n, e)"
    "\<And>rij. RijndaelBlockDecrypt (snd (RijndaelInit rij 1 1 (Some pagekey) keyLength (Some ?iv))) (Some e) (8 * int (length data)) = Some (k, data)"
    using rijndael_cbc [OF key, of ?iv data] len by auto
  then show ?thesis by (intro exI [of _ e]) (simp add: page_aes_def Let_def memcpy_at_def)
qed

text \<open>The contract of the encryption of page data, and the round trip of page 1 that it gives.\<close>

locale page_crypt =
  fixes C :: "Rijndael \<Rightarrow> int \<Rightarrow> bool \<Rightarrow> bytes \<Rightarrow> bytes \<Rightarrow> (int \<times> bytes \<times> Rijndael) option"
  assumes crypt: "16 \<le> length data \<Longrightarrow> \<exists>e aes'. C aes page True key data = Some (SQLITE_OK, e, aes') \<and> length e = length data
    \<and> (\<forall>aes2. \<exists>aes''. C aes2 page False key e = Some (SQLITE_OK, data, aes''))"
begin

definition usable :: "int \<Rightarrow> int \<Rightarrow> bytes \<Rightarrow> bool" where
  "usable legacy page data \<longleftrightarrow> 16 \<le> length data
     \<and> (legacy = 0 \<and> page = 1 \<longrightarrow> 32 \<le> length data \<and> take 16 data = SQLITE_FILE_HEADER \<and> wx_header_valid (region 16 8 data))"

lemma page_roundtrip:
  assumes "usable legacy page data"
  shows "\<exists>e. wx_encrypt_page (\<lambda>aes. C aes page True key) legacy aes page data = Some (SQLITE_OK, e) \<and> length e = length data
    \<and> wx_decrypt_page (\<lambda>aes. C aes page False key) legacy aes2 page e = Some (SQLITE_OK, data)
    \<and> (legacy = 0 \<and> page = 1 \<longrightarrow> region 16 8 e = region 16 8 data)"
proof (cases "legacy = 0 \<and> page = 1")
  case False
  have len: "16 \<le> length data" using assms by (simp add: usable_def)
  obtain e aes' where e: "C aes page True key data = Some (SQLITE_OK, e, aes')" "length e = length data"
    and undo0: "\<exists>aes''. C aes2 page False key e = Some (SQLITE_OK, data, aes'')"
    using crypt [OF len, of aes page key] by blast
  obtain aes'' where "C aes2 page False key e = Some (SQLITE_OK, data, aes'')" using undo0 by blast
  then show ?thesis using False e by (auto simp: wx_encrypt_page_def wx_decrypt_page_def)
next
  case True
  then have data: "32 \<le> length data" "take 16 data = SQLITE_FILE_HEADER" "wx_header_valid (region 16 8 data)"
    using assms by (simp_all add: usable_def)
  obtain start aes' where start: "C aes page True key (take 16 data) = Some (SQLITE_OK, start, aes')" "length start = 16"
    using crypt [of "take 16 data" aes page key] data(1) by auto
  obtain rest aes'' where rest: "C aes' page True key (drop 16 data) = Some (SQLITE_OK, rest, aes'')" "length rest = length data - 16"
    and undo1: "\<exists>aes3. C aes2 page False key rest = Some (SQLITE_OK, drop 16 data, aes3)"
    using crypt [of "drop 16 data" aes' page key] data(1) by (fastforce simp: le_diff_conv2)
  obtain aes3 where undo: "C aes2 page False key rest = Some (SQLITE_OK, drop 16 data, aes3)" using undo1 by blast
  define e where "e = memcpy_at (memcpy_at (start @ rest) 8 (region 16 8 (start @ rest))) 16 (region 16 8 data)"
  have len: "length e = length data" using data(1) start(2) rest(2) by (simp add: e_def)
  have enc: "wx_encrypt_page (\<lambda>aes. C aes page True key) legacy aes page data = Some (SQLITE_OK, e)"
    using True data(1) start(1) rest(1) by (simp add: wx_encrypt_page_def e_def Let_def)
  have header: "region 16 8 e = region 16 8 data"
    using data(1) start(2) rest(2) by (simp add: e_def region_memcpy_at_same_n)
  have "region 8 8 e = take 8 rest"
    using data(1) start(2) rest(2) by (simp add: e_def region_memcpy_at_before region_memcpy_at_same_n) (simp add: region_def)
  moreover have "drop 24 e = drop 8 rest"
    using data(1) start(2) rest(2) by (simp add: e_def drop_memcpy_at)
  ultimately have "drop 16 (memcpy_at e 16 (region 8 8 e)) = rest"
    using len data(1) rest(2) by (simp add: memcpy_at_def)
  moreover have "length (take 16 (memcpy_at e 16 (region 8 8 e))) = 16" using len data(1) by simp
  moreover have "memcpy_at (x @ drop 16 data) 0 SQLITE_FILE_HEADER = data" "region 16 8 (x @ drop 16 data) = region 16 8 data"
    if "length x = 16" for x
    using that data(1) by (simp_all add: memcpy_at_def region_def flip: data(2))
  ultimately have "wx_decrypt_page (\<lambda>aes. C aes page False key) legacy aes2 page e = Some (SQLITE_OK, data)"
    using True data len undo by (simp add: wx_decrypt_page_def header Let_def del: length_take)
  then show ?thesis using enc len header by blast
qed

end

lemma length_page_keys [simp]: "length (sqlite3mcGetMD5Binary x) = 16"
  by (simp add: sqlite3mcGetMD5Binary_def)

lemma length_sha256_final: "length data < 2 ^ 29 \<Longrightarrow> length (sqlite3mcGetSHABinary data) = 32"
  by (simp add: sqlite3mcGetSHABinary_def sha256_digest)

lemma page_aes_crypt:
  assumes "length pagekey \<in> {16, 24, 32}" "keyLength = int (length pagekey div 8) - 2" "16 \<le> length data"
  shows "\<exists>e aes'. page_aes pagekey keyLength aes page True data = Some (SQLITE_OK, e, aes') \<and> length e = length data
    \<and> (\<forall>aes2. \<exists>aes''. page_aes pagekey keyLength aes2 page False e = Some (SQLITE_OK, data, aes''))"
  using page_aes_correct [OF assms, of aes page] by blast

interpretation aes128: page_crypt sqlite3mcAES128
  by unfold_locales (unfold sqlite3mcAES128_def Let_def, rule page_aes_crypt, simp_all)

lemma length_page_key_material: "length (page_key_material key page) = length key + 8"
  by (simp add: page_key_material_def int_bytes_le_def)

interpretation aes256: page_crypt sqlite3mcAES256
  by unfold_locales (unfold sqlite3mcAES256_def Let_def, rule page_aes_crypt,
      simp_all add: length_sha256_final length_page_key_material)

interpretation aes128_pages: page_cipher EncryptPageAES128Cipher DecryptPageAES128Cipher
  "\<lambda>c page data reserved. aes128.usable (aes1_legacy c) page data"
proof
  fix c page data reserved r rc data' r'
  assume A: "aes128.usable (aes1_legacy c) page data" "EncryptPageAES128Cipher c page data reserved r = Some (rc, data', r')"
  note R = aes128.page_roundtrip [OF A(1), where key = "aes1_key c" and aes = "aes1_aes c" and ?aes2.0 = "aes1_aes c"]
  show "rc = SQLITE_OK \<and> length data' = length data \<and> rng_wf r'" if "rng_wf r"
    using A(2) R that by (auto simp: EncryptPageAES128Cipher_def)
  show "\<exists>d. DecryptPageAES128Cipher c page data' reserved check = Some (SQLITE_OK, d) \<and> length d = length data
      \<and> take (length data - nat reserved) d = take (length data - nat reserved) data" for check
    using A(2) R by (auto simp: EncryptPageAES128Cipher_def DecryptPageAES128Cipher_def)
qed

interpretation aes256_pages: page_cipher EncryptPageAES256Cipher DecryptPageAES256Cipher
  "\<lambda>c page data reserved. aes256.usable (aes2_legacy c) page data"
proof
  fix c page data reserved r rc data' r'
  assume A: "aes256.usable (aes2_legacy c) page data" "EncryptPageAES256Cipher c page data reserved r = Some (rc, data', r')"
  note R = aes256.page_roundtrip [OF A(1), where key = "aes2_key c" and aes = "aes2_aes c" and ?aes2.0 = "aes2_aes c"]
  show "rc = SQLITE_OK \<and> length data' = length data \<and> rng_wf r'" if "rng_wf r"
    using A(2) R that by (auto simp: EncryptPageAES256Cipher_def)
  show "\<exists>d. DecryptPageAES256Cipher c page data' reserved check = Some (SQLITE_OK, d) \<and> length d = length data
      \<and> take (length data - nat reserved) d = take (length data - nat reserved) data" for check
    using A(2) R by (auto simp: EncryptPageAES256Cipher_def DecryptPageAES256Cipher_def)
qed

section \<open>Properties\<close>

text \<open>
  C18. A database file encrypted with one of the two AES ciphers decrypts to the same bytes, with and without the
  legacy scheme: all pages of at least one AES block, and page 1 when it starts with the file header and its bytes
  16 to 23 hold a valid page size and the payload fractions; these eight bytes stay as they
  are in the encrypted page, and no entropy is used.
\<close>

theorem wxaes_pages_roundtrip:
  assumes "16 \<le> length data"
    and "legacy = 0 \<and> page = 1 \<Longrightarrow> 32 \<le> length data \<and> take 16 data = SQLITE_FILE_HEADER \<and> wx_header_valid (region 16 8 data)"
    and "aes1_legacy c1 = legacy" and "aes2_legacy c2 = legacy"
  shows "\<exists>e1 e2. EncryptPageAES128Cipher c1 page data reserved r = Some (SQLITE_OK, e1, r)
    \<and> EncryptPageAES256Cipher c2 page data reserved r = Some (SQLITE_OK, e2, r)
    \<and> length e1 = length data \<and> length e2 = length data
    \<and> DecryptPageAES128Cipher c1 page e1 reserved check = Some (SQLITE_OK, data)
    \<and> DecryptPageAES256Cipher c2 page e2 reserved check = Some (SQLITE_OK, data)
    \<and> (legacy = 0 \<and> page = 1 \<longrightarrow> region 16 8 e1 = region 16 8 data \<and> region 16 8 e2 = region 16 8 data)"
proof -
  have "aes128.usable legacy page data" "aes256.usable legacy page data"
    using assms(1,2) by (auto simp: aes128.usable_def aes256.usable_def)
  from aes128.page_roundtrip [OF this(1), where key = "aes1_key c1" and aes = "aes1_aes c1" and ?aes2.0 = "aes1_aes c1"]
    aes256.page_roundtrip [OF this(2), where key = "aes2_key c2" and aes = "aes2_aes c2" and ?aes2.0 = "aes2_aes c2"]
  show ?thesis
    by (elim exE conjE) (auto simp: EncryptPageAES128Cipher_def EncryptPageAES256Cipher_def DecryptPageAES128Cipher_def
        DecryptPageAES256Cipher_def assms(3,4))
qed

text \<open>Cipher objects with the default parameters and a page 1.\<close>

definition new_aes128 :: AES128Cipher where
  "new_aes128 = \<lparr>aes1_legacy = 0, aes1_legacyPageSize = 0, aes1_keyLength = 16, aes1_key = replicate 16 0, aes1_aes = new_rijndael\<rparr>"

definition new_aes256 :: AES256Cipher where
  "new_aes256 = \<lparr>aes2_legacy = 0, aes2_legacyPageSize = 0, aes2_kdfIter = 4001, aes2_keyLength = 32, aes2_key = replicate 32 0,
     aes2_aes = new_rijndael\<rparr>"

definition first_page :: bytes where
  "first_page = SQLITE_FILE_HEADER @ [0x10, 0, 1, 1, 0, 0x40, 0x20, 0x20] @ replicate 40 7"

lemma first_page: "length first_page = 64" "take 16 first_page = SQLITE_FILE_HEADER" "region 16 8 first_page = [0x10, 0, 1, 1, 0, 0x40, 0x20, 0x20]"
  "wx_header_valid [0x10, 0, 1, 1, 0, 0x40, 0x20, 0x20]"
  by (simp_all add: first_page_def region_def wx_header_valid_def wx_header_page_size_def)

theorem wxaes_pages_roundtrip_witness:
  "\<exists>e1 e2. EncryptPageAES128Cipher new_aes128 1 first_page 0 full_rng = Some (SQLITE_OK, e1, full_rng)
    \<and> EncryptPageAES256Cipher new_aes256 1 first_page 0 full_rng = Some (SQLITE_OK, e2, full_rng)
    \<and> DecryptPageAES128Cipher new_aes128 1 e1 0 True = Some (SQLITE_OK, first_page)
    \<and> DecryptPageAES256Cipher new_aes256 1 e2 0 True = Some (SQLITE_OK, first_page)"
proof -
  have "16 \<le> length first_page" "32 \<le> length first_page \<and> take 16 first_page = SQLITE_FILE_HEADER \<and> wx_header_valid (region 16 8 first_page)"
    by (simp_all add: first_page)
  from wxaes_pages_roundtrip [OF this, where legacy = 0 and page = 1 and ?c1.0 = new_aes128 and ?c2.0 = new_aes256 and reserved = 0 and r = full_rng and check = True] show ?thesis
    by (auto simp: new_aes128_def new_aes256_def)
qed

text \<open>
  The AES-256 cipher on pages other than the first, and on every page in the legacy scheme, is AES-256 of
  FIPS 197 in CBC mode, under the SHA-256 digest of the cipher key, the page number and
  the salt bytes, with the initial vector of the page. The cipher key is the result of 4002 passes of
  SHA-256 over the padded password: the parameter \<^verbatim>\<open>kdf_iter\<close> of the cipher object does not change it.
\<close>

theorem wxaes256_page_encryption:
  fixes password :: bytes and page :: int
  assumes "length (aes2_key c0) = 32" and "aes2_keyLength c0 = 32" and "16 \<le> length data" and "aes2_legacy c0 \<noteq> 0 \<or> page \<noteq> 1"
  defines "key \<equiv> (sha256_spec ^^ 4002) (take 32 (password @ padding))"
  defines "pagekey \<equiv> sha256_spec (key @ int_bytes_le page @ [0x73, 0x41, 0x6c, 0x54])"
  shows "\<exists>c. GenerateKeyAES256Cipher c0 password rekey salt r = Some (c, r)
    \<and> EncryptPageAES256Cipher c page data reserved r' = Some (SQLITE_OK,
        cbc_encrypt (aes_cipher (key_word (key_matrix pagekey)) 14) (sqlite3mcGenerateInitialVector page) data, r')"
proof -
  have step: "length x = 32 \<Longrightarrow> (sha256 ^^ n) x = (sha256_spec ^^ n) x \<and> length ((sha256_spec ^^ n) x) = 32" for n x
    by (induction n) (auto simp: sha256_digest)
  have pad: "length (take 32 (password @ padding)) = 32" by simp
  have n: "Suc CODEC_SHA_ITER = 4002" by (simp add: CODEC_SHA_ITER_def)
  have "(sha256 ^^ CODEC_SHA_ITER) (sha256 x) = (sha256 ^^ 4002) x" for x by (simp only: n [symmetric] funpow_Suc_right o_apply)
  then have key: "(sha256 ^^ CODEC_SHA_ITER) (sha256 (sqlite3mcPadPassword password)) = key" "length key = 32"
    using step [OF pad, of 4002] unfolding key_def sqlite3mcPadPassword_eq by simp_all
  define c where "c = c0\<lparr>aes2_key := key\<rparr>"
  have "GenerateKeyAES256Cipher c0 password rekey salt r = Some (c, r)"
    using assms(1,2) key by (simp add: GenerateKeyAES256Cipher_def Let_def c_def memcpy_at_def)
  moreover have pk: "sqlite3mcGetSHABinary (page_key_material (take 32 (aes2_key c)) page) = pagekey" "length pagekey = 32"
    using key(2) sha256_digest [of "key @ int_bytes_le page @ [0x73, 0x41, 0x6c, 0x54]"]
    by (simp_all add: c_def sqlite3mcGetSHABinary_def page_key_material_def pagekey_def int_bytes_le_def)
  moreover obtain e aes' where "page_aes pagekey 2 (aes2_aes c) page True data = Some (SQLITE_OK, e, aes')"
    "e = cbc_encrypt (aes_cipher (key_word (key_matrix pagekey)) 14) (sqlite3mcGenerateInitialVector page) data"
    using page_aes_correct [of pagekey 2 data "aes2_aes c" page] pk(2) assms(3) by auto
  ultimately show ?thesis
    using assms(4) by (auto simp: EncryptPageAES256Cipher_def wx_encrypt_page_def sqlite3mcAES256_def c_def)
qed

theorem wxaes256_page_encryption_witness:
  "\<exists>c pagekey. GenerateKeyAES256Cipher new_aes256 [0x70, 0x77] 0 None full_rng = Some (c, full_rng)
    \<and> EncryptPageAES256Cipher c 2 (replicate 32 7) 0 full_rng = Some (SQLITE_OK,
        cbc_encrypt (aes_cipher (key_word (key_matrix pagekey)) 14) (sqlite3mcGenerateInitialVector 2) (replicate 32 7), full_rng)"
  using wxaes256_page_encryption [of new_aes256 "replicate 32 7" 2 "[0x70, 0x77]" 0 None full_rng 0 full_rng]
  by (auto simp: new_aes256_def)

end
