(* ===== verification/Cipher_SQLCipher.thy ===== *)
theory Cipher_SQLCipher
  imports Page_Cipher Rijndael_Modes PBKDF2
begin

text \<open>
  The cipher of SQLCipher, versions 1 to 4, \<^verbatim>\<open>src/src/cipher_sqlcipher.c\<close>: AES-256 in CBC mode with a random
  initial vector in the reserved space of every page, and an HMAC of the encrypted part of the page, the
  vector and the page number. \<open>le\<close> is the byte order of the host, on which the SHA-1 code
  and the native storage of the page number depend.
\<close>

record SQLCipherCipher =
  sq_legacy :: int
  sq_legacyPageSize :: int
  sq_kdfIter :: int
  sq_fastKdfIter :: int
  sq_hmacUse :: int
  sq_hmacPgno :: int
  sq_hmacSaltMask :: int
  sq_kdfAlgorithm :: int
  sq_hmacAlgorithm :: int
  sq_hmacAlgorithmCompat :: int
  sq_plaintextHeaderSize :: int
  sq_keyLength :: int
  sq_key :: bytes
  sq_salt :: bytes
  sq_hmacKey :: bytes
  sq_aes :: Rijndael

definition sqlcipher_param_names :: "string list" where
  "sqlcipher_param_names = [''legacy'', ''legacy_page_size'', ''kdf_iter'', ''fast_kdf_iter'', ''hmac_use'', ''hmac_pgno'',
     ''hmac_salt_mask'', ''kdf_algorithm'', ''hmac_algorithm'', ''hmac_algorithm_compat'']"

text \<open>The size of the plaintext header is only read for version 4 and without a legacy version.\<close>

definition AllocateSQLCipherCipher :: "bool \<Rightarrow> mc_config \<Rightarrow> (SQLCipherCipher option \<times> mc_config) option" where
  "AllocateSQLCipherCipher db s =
     (let (ok, s) = sqlite3_malloc s
      in if \<not> ok then Some (None, s)
         else let (ok, s) = sqlite3_malloc s
           in if \<not> ok then Some (None, s)
              else let ref = sqlite3mcGetCipherParams db ''sqlcipher'' s
                in case read_parameters ref sqlcipher_param_names s of
                  Some ([legacy, pageSize, kdfIter, fastKdfIter, hmacUse, hmacPgno, saltMask, kdfAlg, hmacAlg, hmacCompat], s) \<Rightarrow>
                    (case read_parameters ref (if legacy = 0 \<or> legacy \<ge> 4 then [''plaintext_header_size''] else []) s of
                       None \<Rightarrow> None
                     | Some (header, s) \<Rightarrow>
                         Some (Some \<lparr>sq_legacy = legacy, sq_legacyPageSize = pageSize, sq_kdfIter = kdfIter, sq_fastKdfIter = fastKdfIter,
                           sq_hmacUse = hmacUse, sq_hmacPgno = hmacPgno, sq_hmacSaltMask = saltMask, sq_kdfAlgorithm = kdfAlg,
                           sq_hmacAlgorithm = hmacAlg, sq_hmacAlgorithmCompat = hmacCompat,
                           sq_plaintextHeaderSize = (case header of [h] \<Rightarrow> h | _ \<Rightarrow> 0), sq_keyLength = 32, sq_key = replicate 32 0,
                           sq_salt = replicate 16 0, sq_hmacKey = replicate 32 0, sq_aes = RijndaelCreate new_rijndael\<rparr>, s))
                | _ \<Rightarrow> None)"

text \<open>Released memory is set to zero, which is the value of a valid state of the block cipher.\<close>

definition FreeSQLCipherCipher :: "SQLCipherCipher \<Rightarrow> SQLCipherCipher" where
  "FreeSQLCipherCipher c = \<lparr>sq_legacy = 0, sq_legacyPageSize = 0, sq_kdfIter = 0, sq_fastKdfIter = 0, sq_hmacUse = 0, sq_hmacPgno = 0,
     sq_hmacSaltMask = 0, sq_kdfAlgorithm = 0, sq_hmacAlgorithm = 0, sq_hmacAlgorithmCompat = 0, sq_plaintextHeaderSize = 0,
     sq_keyLength = 0, sq_key = replicate 32 0, sq_salt = replicate 16 0, sq_hmacKey = replicate 32 0, sq_aes = zero_rijndael\<rparr>"

definition CloneSQLCipherCipher :: "SQLCipherCipher \<Rightarrow> SQLCipherCipher \<Rightarrow> SQLCipherCipher" where
  "CloneSQLCipherCipher cipherTo cipherFrom =
     cipherTo\<lparr>sq_legacy := sq_legacy cipherFrom, sq_legacyPageSize := sq_legacyPageSize cipherFrom, sq_kdfIter := sq_kdfIter cipherFrom,
       sq_fastKdfIter := sq_fastKdfIter cipherFrom, sq_hmacUse := sq_hmacUse cipherFrom, sq_hmacPgno := sq_hmacPgno cipherFrom,
       sq_hmacSaltMask := sq_hmacSaltMask cipherFrom, sq_kdfAlgorithm := sq_kdfAlgorithm cipherFrom,
       sq_hmacAlgorithm := sq_hmacAlgorithm cipherFrom, sq_hmacAlgorithmCompat := sq_hmacAlgorithmCompat cipherFrom,
       sq_plaintextHeaderSize := sq_plaintextHeaderSize cipherFrom, sq_keyLength := sq_keyLength cipherFrom,
       sq_key := memcpy_at (sq_key cipherTo) 0 (take 32 (sq_key cipherFrom)),
       sq_salt := memcpy_at (sq_salt cipherTo) 0 (take 16 (sq_salt cipherFrom)),
       sq_hmacKey := memcpy_at (sq_hmacKey cipherTo) 0 (take 32 (sq_hmacKey cipherFrom)),
       sq_aes := RijndaelInvalidate (sq_aes cipherTo)\<rparr>"

definition GetLegacySQLCipherCipher :: "SQLCipherCipher \<Rightarrow> int" where
  "GetLegacySQLCipherCipher c = sq_legacy c"

definition GetPageSizeSQLCipherCipher :: "SQLCipherCipher \<Rightarrow> int" where
  "GetPageSizeSQLCipherCipher c = (if sq_legacy c \<noteq> 0 then legacy_page_size (sq_legacyPageSize c) else 0)"

definition GetReservedSQLCipherCipher :: "SQLCipherCipher \<Rightarrow> int" where
  "GetReservedSQLCipherCipher c =
     (if sq_hmacUse c \<noteq> 0 then 16 + (if sq_hmacAlgorithm c = 0 \<or> sq_hmacAlgorithm c = 1 then 32 else 64) else 16)"

definition GetSaltSQLCipherCipher :: "SQLCipherCipher \<Rightarrow> bytes option" where
  "GetSaltSQLCipherCipher c = Some (sq_salt c)"

text \<open>The selection of the key derivation by the number of the algorithm.\<close>

definition sqlcipher_kdf :: "bool \<Rightarrow> int \<Rightarrow> bytes \<Rightarrow> bytes \<Rightarrow> int \<Rightarrow> bytes option" where
  "sqlcipher_kdf le algorithm password salt iter =
     (if algorithm = 0 then fastpbkdf2_hmac_sha1 le password salt (nat (iter mod 2 ^ 32)) 32
      else if algorithm = 1 then fastpbkdf2_hmac_sha256 password salt (nat (iter mod 2 ^ 32)) 32
      else fastpbkdf2_hmac_sha512 password salt (nat (iter mod 2 ^ 32)) 32)"

text \<open>The second half of the key generation: the key of the HMAC, from the key and the masked salt.\<close>

definition sqlcipher_hmac_key :: "bool \<Rightarrow> SQLCipherCipher \<Rightarrow> SQLCipherCipher option" where
  "sqlcipher_hmac_key le c =
     (if sq_hmacUse c \<noteq> 0 then
        let algorithm = (if sq_hmacAlgorithmCompat c \<noteq> 0 then sq_kdfAlgorithm c else sq_hmacAlgorithm c);
            hmacSalt = map (\<lambda>b. b XOR of_int (sq_hmacSaltMask c)) (take 16 (sq_salt c))
        in map_option (\<lambda>k. c\<lparr>sq_hmacKey := k\<rparr>) (sqlcipher_kdf le algorithm (take 32 (sq_key c)) hmacSalt (sq_fastKdfIter c))
      else Some c)"

definition GenerateKeySQLCipherCipher :: "bool \<Rightarrow> SQLCipherCipher \<Rightarrow> bytes \<Rightarrow> int \<Rightarrow> bytes option \<Rightarrow> rng \<Rightarrow> (SQLCipherCipher \<times> rng) option" where
  "GenerateKeySQLCipherCipher le c userPassword rekey cipherSalt r =
     (case new_salt (sq_plaintextHeaderSize c) rekey cipherSalt r of
        None \<Rightarrow> None
      | Some (salt, keyOnly, r) \<Rightarrow>
          let (bypass, key, salt) = sqlite3mcExtractRawKey userPassword keyOnly 32 16 (sq_key c) salt
          in case (if bypass then Some key else sqlcipher_kdf le (sq_kdfAlgorithm c) userPassword salt (sq_kdfIter c)) of
               None \<Rightarrow> None
             | Some key \<Rightarrow> map_option (\<lambda>c. (c, r)) (sqlcipher_hmac_key le (c\<lparr>sq_key := key, sq_salt := salt\<rparr>)))"

section \<open>Pages\<close>

definition GetHmacSizeSQLCipherCipher :: "int \<Rightarrow> nat" where
  "GetHmacSizeSQLCipherCipher algorithm = (if algorithm = 0 then 20 else if algorithm = 1 then 32 else 64)"

text \<open>\<^verbatim>\<open>usePlaintextHeader\<close> and the \<^verbatim>\<open>offset\<close> at which the encrypted part of a page starts.\<close>

definition sqlcipher_offset :: "SQLCipherCipher \<Rightarrow> int \<Rightarrow> bool \<times> int" where
  "sqlcipher_offset c page =
     (if page = 1 then
        let plaintextHeaderSize = sq_plaintextHeaderSize c;
            offset = (if sq_legacy c \<noteq> 0 then 16 else 24)
        in if plaintextHeaderSize > 0 then
             (True, if (sq_legacy c = 0 \<or> sq_legacy c \<ge> 4) \<and> plaintextHeaderSize > offset then plaintextHeaderSize else offset)
           else (False, offset)
      else (False, 0))"

definition sqlcipher_nReserved :: "SQLCipherCipher \<Rightarrow> int \<Rightarrow> int" where
  "sqlcipher_nReserved c reserved = (if reserved = 0 \<and> sq_legacy c = 0 then 0 else GetReservedSQLCipherCipher c)"

definition sqlcipher_mismatch :: "SQLCipherCipher \<Rightarrow> int \<Rightarrow> bool" where
  "sqlcipher_mismatch c reserved \<longleftrightarrow>
     (let legacy = sq_legacy c; nReserved = sqlcipher_nReserved c reserved
      in legacy = 0 \<and> nReserved > reserved \<or> legacy \<noteq> 0 \<and> nReserved \<noteq> reserved)"

definition sqlcipher_pgno :: "bool \<Rightarrow> SQLCipherCipher \<Rightarrow> int \<Rightarrow> bytes" where
  "sqlcipher_pgno le c page =
     (if sq_hmacPgno c = 1 then STORE32_LE (of_int page)
      else if sq_hmacPgno c = 2 then STORE32_BE (of_int page)
      else if le then STORE32_LE (of_int page) else STORE32_BE (of_int page))"

text \<open>The HMAC of a page: the part from \<open>offset\<close> up to the end of the initial vector, and the page number.\<close>

definition sqlcipher_page_hmac :: "bool \<Rightarrow> SQLCipherCipher \<Rightarrow> int \<Rightarrow> nat \<Rightarrow> nat \<Rightarrow> bytes \<Rightarrow> bytes" where
  "sqlcipher_page_hmac le c page offset n data =
     take (GetHmacSizeSQLCipherCipher (sq_hmacAlgorithm c))
       (sqlcipher_hmac le (sq_hmacAlgorithm c) (take 32 (sq_hmacKey c)) (region offset (n + 16 - offset) data)
          (Some (sqlcipher_pgno le c page)))"

text \<open>
  A page that is shorter than its reserved bytes and its plaintext part gives \<open>None\<close>, as does a partial AES block.
\<close>

definition EncryptPageSQLCipherCipher :: "bool \<Rightarrow> SQLCipherCipher \<Rightarrow> int \<Rightarrow> bytes \<Rightarrow> int \<Rightarrow> rng \<Rightarrow> (int \<times> bytes \<times> rng) option" where
  "EncryptPageSQLCipherCipher le c page data reserved r =
     (let nReserved = sqlcipher_nReserved c reserved;
          n = nat (int (length data) - nReserved);
          (usePlaintextHeader, offset) = sqlcipher_offset c page;
          offset = nat offset
      in if sqlcipher_mismatch c reserved then Some (SQLITE_CORRUPT, data, r)
         else if int (length data) < nReserved + int offset then None
         else case (if nReserved > 0 then chacha20_rng 128 r
                    else Some (sqlite3mcGenerateInitialVector page @ replicate 112 0, r)) of
           None \<Rightarrow> None
         | Some (iv, r) \<Rightarrow>
             let aes = snd (RijndaelInit (sq_aes c) 1 0 (Some (sq_key c)) 2 (Some iv))
             in case RijndaelBlockEncrypt aes (Some (region offset (n - offset) data)) (8 * int (n - offset)) of
               None \<Rightarrow> None
             | Some (blen, out) \<Rightarrow>
                 let data = memcpy_at data offset out;
                     data = (if nReserved > 0 then memcpy_at data n (take (nat nReserved) iv) else data);
                     data = (if page = 1 \<and> \<not> usePlaintextHeader then memcpy_at data 0 (take 16 (sq_salt c)) else data);
                     data = (if sq_hmacUse c = 1 \<and> nReserved > 0
                             then memcpy_at data (n + 16) (sqlcipher_page_hmac le c page offset n data) else data)
                 in Some (SQLITE_OK, data, r))"

definition DecryptPageSQLCipherCipher :: "bool \<Rightarrow> SQLCipherCipher \<Rightarrow> int \<Rightarrow> bytes \<Rightarrow> int \<Rightarrow> bool \<Rightarrow> (int \<times> bytes) option" where
  "DecryptPageSQLCipherCipher le c page data reserved hmacCheck =
     (let nReserved = sqlcipher_nReserved c reserved;
          n = nat (int (length data) - nReserved);
          (usePlaintextHeader, offset) = sqlcipher_offset c page;
          offset = nat offset
      in if sqlcipher_mismatch c reserved then Some (page_error page, data)
         else if int (length data) < nReserved + int offset then None
         else
           let iv = (if nReserved > 0 then region n (nat nReserved) data else sqlite3mcGenerateInitialVector page);
               hmacOk = (if sq_hmacUse c = 1 \<and> nReserved > 0 \<and> hmacCheck
                         then region (n + 16) (GetHmacSizeSQLCipherCipher (sq_hmacAlgorithm c)) data
                              = sqlcipher_page_hmac le c page offset n data
                         else True)
           in if hmacOk then
                let aes = snd (RijndaelInit (sq_aes c) 1 1 (Some (sq_key c)) 2 (Some iv))
                in case RijndaelBlockDecrypt aes (Some (region offset (n - offset) data)) (8 * int (n - offset)) of
                  None \<Rightarrow> None
                | Some (blen, out) \<Rightarrow>
                    let data = memcpy_at data offset out;
                        data = (if nReserved > 0 then memcpy_at data n iv else data);
                        data = (if page = 1 \<and> \<not> usePlaintextHeader then memcpy_at data 0 SQLITE_FILE_HEADER else data)
                    in Some (SQLITE_OK, data)
              else Some (page_error page, data))"

definition mcSQLCipherDescriptor :: "bool \<Rightarrow> SQLCipherCipher CipherDescriptor" where
  "mcSQLCipherDescriptor le = \<lparr>d_name = Some ''sqlcipher'', m_allocateCipher = Some AllocateSQLCipherCipher,
     m_freeCipher = Some FreeSQLCipherCipher, m_cloneCipher = Some CloneSQLCipherCipher, m_getLegacy = Some GetLegacySQLCipherCipher,
     m_getPageSize = Some GetPageSizeSQLCipherCipher, m_getReserved = Some GetReservedSQLCipherCipher,
     m_getSalt = Some GetSaltSQLCipherCipher, m_generateKey = Some (GenerateKeySQLCipherCipher le),
     m_encryptPage = Some (EncryptPageSQLCipherCipher le), m_decryptPage = Some (DecryptPageSQLCipherCipher le)\<rparr>"

section \<open>The round trip of a page\<close>

definition sqlcipher_usable :: "SQLCipherCipher \<Rightarrow> int \<Rightarrow> bytes \<Rightarrow> int \<Rightarrow> bool" where
  "sqlcipher_usable c page data reserved \<longleftrightarrow>
     length (sq_key c) = 32 \<and> length (sq_salt c) = 16 \<and> \<not> sqlcipher_mismatch c reserved
     \<and> sqlcipher_nReserved c reserved + snd (sqlcipher_offset c page) + 16 \<le> int (length data) \<and> length data \<le> 65536
     \<and> (page = 1 \<and> \<not> fst (sqlcipher_offset c page) \<longrightarrow> take 16 data = SQLITE_FILE_HEADER)"

lemma sqlcipher_offset_range: "0 \<le> snd (sqlcipher_offset c page)" "page = 1 \<Longrightarrow> 16 \<le> snd (sqlcipher_offset c page)"
  by (simp_all add: sqlcipher_offset_def Let_def)

lemma sqlcipher_nReserved_range: "0 \<le> sqlcipher_nReserved c reserved" "sqlcipher_nReserved c reserved \<le> 80"
  by (simp_all add: sqlcipher_nReserved_def GetReservedSQLCipherCipher_def)

lemma sqlcipher_nReserved_cases:
  "sqlcipher_nReserved c reserved = 0 \<or> sqlcipher_nReserved c reserved = 16
   \<or> sq_hmacUse c \<noteq> 0 \<and> sqlcipher_nReserved c reserved = (if sq_hmacAlgorithm c = 0 \<or> sq_hmacAlgorithm c = 1 then 48 else 80)"
  by (simp add: sqlcipher_nReserved_def GetReservedSQLCipherCipher_def)

lemma sqlcipher_match: "\<not> sqlcipher_mismatch c reserved \<Longrightarrow> sqlcipher_nReserved c reserved \<le> reserved"
  by (auto simp: sqlcipher_mismatch_def Let_def split: if_splits)

text \<open>The tag fits into the reserved space behind the initial vector.\<close>

lemma sqlcipher_hmac_fits:
  assumes "sq_hmacUse c = 1" "0 < sqlcipher_nReserved c reserved"
  shows "16 + int (GetHmacSizeSQLCipherCipher (sq_hmacAlgorithm c)) \<le> sqlcipher_nReserved c reserved"
  using assms by (auto simp: sqlcipher_nReserved_def GetReservedSQLCipherCipher_def GetHmacSizeSQLCipherCipher_def split: if_splits)

lemma length_sqlcipher_hmac:
  assumes "length key \<le> 32" "length m \<le> 65536" "length p = 4"
  shows "length (sqlcipher_hmac le alg key m (Some p)) = GetHmacSizeSQLCipherCipher alg"
  using sha1.hmac_with_correct [where key = key and ?in1.0 = m and ?in2.0 = "Some p" and le = le] sha256.hmac_with_correct [of key m "Some p"]
    sha512.hmac_with_correct [of key m "Some p"] assms sha1.len_H [where le = le] sha256.len_H sha512.len_H
  by (simp add: sqlcipher_hmac_def GetHmacSizeSQLCipherCipher_def sha1_ops_simps sha256_ops_simps sha512_ops_simps hmac_spec_def)

lemma length_sqlcipher_page_hmac:
  assumes "length data \<le> 65536"
  shows "length (sqlcipher_page_hmac le c page offset n data) = GetHmacSizeSQLCipherCipher (sq_hmacAlgorithm c)"
  using length_sqlcipher_hmac [of "take 32 (sq_hmacKey c)" "region offset (n + 16 - offset) data" "sqlcipher_pgno le c page" le "sq_hmacAlgorithm c"] assms
  by (simp add: sqlcipher_page_hmac_def sqlcipher_pgno_def)

lemma RijndaelInit_iv: "RijndaelInit rij m d k l (Some (take 16 iv)) = RijndaelInit rij m d k l (Some iv)"
  unfolding RijndaelInit_def option.case take_take min.idem ..

lemma sqlcipher_page_hmac_cong:
  "region offset (n + 16 - offset) data = region offset (n + 16 - offset) data' \<Longrightarrow>
     sqlcipher_page_hmac le c page offset n data = sqlcipher_page_hmac le c page offset n data'"
  by (simp add: sqlcipher_page_hmac_def)

text \<open>The bytes that the encryption writes behind and before the encrypted part do not disturb it.\<close>

lemma sqlcipher_page:
  assumes usable: "sqlcipher_usable c page data reserved" and r: "rng_wf r"
    and enc: "EncryptPageSQLCipherCipher le c page data reserved r = Some (rc, data', r')"
  defines "n \<equiv> nat (int (length data) - sqlcipher_nReserved c reserved)"
  shows "rc = SQLITE_OK \<and> length data' = length data \<and> rng_wf r' \<and>
    (\<exists>d. DecryptPageSQLCipherCipher le c page data' reserved check = Some (SQLITE_OK, d) \<and> length d = length data \<and> take n d = take n data)"
proof -
  obtain ph offset' where off: "sqlcipher_offset c page = (ph, offset')" by fastforce
  define offset where "offset = nat offset'"
  define page1 where "page1 \<longleftrightarrow> page = 1 \<and> \<not> ph"
  define R where "R = nat (sqlcipher_nReserved c reserved)"
  define mac where "mac \<longleftrightarrow> sq_hmacUse c = 1 \<and> 0 < R"
  define h where "h = GetHmacSizeSQLCipherCipher (sq_hmacAlgorithm c)"
  have R: "sqlcipher_nReserved c reserved = int R" "0 < R \<Longrightarrow> 16 \<le> R" "R \<le> 80"
    using sqlcipher_nReserved_cases [of c reserved] by (auto simp: R_def)
  have u: "length (sq_key c) = 32" "length (sq_salt c) = 16" "\<not> sqlcipher_mismatch c reserved"
    "int R + offset' + 16 \<le> int (length data)" "length data \<le> 65536" "page1 \<Longrightarrow> take 16 data = SQLITE_FILE_HEADER"
    using usable off R(1) by (auto simp: sqlcipher_usable_def page1_def)
  have bounds: "offset + 16 \<le> n" "n + R = length data" "page1 \<Longrightarrow> 16 \<le> offset" "offset' = int offset"
    using u(4) sqlcipher_offset_range(1) [of c page, unfolded off] sqlcipher_offset_range(2) [of page c, unfolded off]
    by (auto simp: n_def offset_def R(1) page1_def)
  have mac: "mac \<Longrightarrow> 16 + h \<le> R" using sqlcipher_hmac_fits [of c reserved] by (simp add: mac_def h_def R(1) flip: of_nat_add)
  obtain iv where iv: "(if 0 < R then chacha20_rng 128 r else Some (sqlite3mcGenerateInitialVector page @ replicate 112 0, r)) = Some (iv, r')"
    using enc u(3,4) bounds unfolding EncryptPageSQLCipherCipher_def Let_def off R(1) prod.case by (auto split: option.splits prod.splits)
  have iv_len: "length iv = 128" "rng_wf r'" using iv r chacha20_rng_length_wf [of 128 r iv r'] by (auto split: if_splits)
  define x where "x = region offset (n - offset) data"
  have x: "length x = n - offset" using bounds by (simp add: x_def)
  have cond: "length (sq_key c) \<in> {16, 24, 32}" "2 = int (length (sq_key c) div 8) - 2" "16 \<le> length iv" "16 \<le> length x"
    using u(1) iv_len(1) x bounds(1) by simp_all
  obtain out k1 k2 where out: "length out = n - offset"
    "\<And>rij. RijndaelBlockEncrypt (snd (RijndaelInit rij 1 0 (Some (sq_key c)) 2 (Some iv))) (Some x) (8 * int (n - offset)) = Some (k1, out)"
    "\<And>rij. RijndaelBlockDecrypt (snd (RijndaelInit rij 1 1 (Some (sq_key c)) 2 (Some iv))) (Some out) (8 * int (n - offset)) = Some (k2, x)"
    using rijndael_cbc [OF cond, unfolded x] by blast
  define d1 where "d1 = memcpy_at data offset out"
  define d2 where "d2 = (if 0 < R then memcpy_at d1 n (take R iv) else d1)"
  define d3 where "d3 = (if page1 then memcpy_at d2 0 (take 16 (sq_salt c)) else d2)"
  define tag where "tag = sqlcipher_page_hmac le c page offset n d3"
  define d4 where "d4 = (if mac then memcpy_at d3 (n + 16) tag else d3)"
  have len: "length d1 = length data" "length d2 = length data" "length d3 = length data" "length d4 = length data" "length tag = h"
  proof -
    show 1: "length d1 = length data" using out(1) bounds by (simp add: d1_def)
    show 2: "length d2 = length data" using 1 bounds R iv_len by (simp add: d2_def)
    show 3: "length d3 = length data" using 2 bounds u(2) by (simp add: d3_def)
    show 4: "length tag = h" using length_sqlcipher_page_hmac u(5) 3 by (simp add: tag_def h_def)
    show "length d4 = length data" using 3 4 mac bounds by (auto simp: d4_def)
  qed
  have guard: "\<not> int (length data) < int R + int offset" using bounds by simp
  have nat_off: "nat offset' = offset" by (simp add: offset_def)
  have n: "nat (int (length data) - int R) = n" by (simp add: n_def R(1))
  have e: "rc = SQLITE_OK" "data' = d4"
    using enc [unfolded EncryptPageSQLCipherCipher_def Let_def off prod.case R(1) nat_off n, folded page1_def] u(3) guard iv out(2)
    by (auto simp: d4_def d3_def d2_def d1_def tag_def mac_def x_def split: if_splits)
  have low: "d4 ! i = (if page1 \<and> i < 16 then take 16 (sq_salt c) ! i else d1 ! i)" if "i < n" for i
    using that len bounds R u(2) iv_len mac by (auto simp: d4_def d3_def d2_def nth_memcpy_at)
  have out': "region offset (n - offset) d4 = out"
  proof (rule nth_equalityI)
    show "length (region offset (n - offset) d4) = length out" using len bounds out(1) by simp
    fix i assume "i < length (region offset (n - offset) d4)"
    then have "i < n - offset" using len bounds by simp
    then show "region offset (n - offset) d4 ! i = out ! i"
      using len bounds out(1) low [of "offset + i"] by (auto simp: region_def d1_def nth_memcpy_at)
  qed
  have iv_bytes: "d4 ! (n + i) = iv ! i" if "0 < R" "i < 16" for i
    using that len bounds R(2) [OF that(1)] u(2) iv_len mac by (auto simp: d4_def d3_def d2_def nth_memcpy_at)
  define ivd where "ivd = (if 0 < int R then region n R d4 else sqlite3mcGenerateInitialVector page)"
  have "take 16 ivd = take 16 iv"
  proof (cases "0 < R")
    case True
    then show ?thesis
      using len bounds R(2) [OF True] iv_len iv_bytes [OF True]
      by (intro nth_equalityI) (auto simp: ivd_def region_def)
  qed (use iv in \<open>auto simp: ivd_def\<close>)
  then have init: "RijndaelInit rij 1 1 (Some (sq_key c)) 2 (Some ivd) = RijndaelInit rij 1 1 (Some (sq_key c)) 2 (Some iv)" for rij
    by (metis RijndaelInit_iv)
  have tag': "region (n + 16) h d4 = sqlcipher_page_hmac le c page offset n d4" if mac
  proof -
    have "region offset (n + 16 - offset) d4 = region offset (n + 16 - offset) d3"
      using that mac [OF that] len bounds by (auto simp: d4_def intro!: region_memcpy_at_before)
    moreover have "region (n + 16) h d4 = tag"
      using that mac [OF that] len bounds by (simp add: d4_def region_memcpy_at_same_n)
    ultimately show ?thesis using sqlcipher_page_hmac_cong [of offset n d3 d4] by (simp add: tag_def)
  qed
  define d where "d = (if page1 then memcpy_at (if 0 < R then memcpy_at (memcpy_at d4 offset x) n ivd else memcpy_at d4 offset x) 0 SQLITE_FILE_HEADER
    else if 0 < R then memcpy_at (memcpy_at d4 offset x) n ivd else memcpy_at d4 offset x)"
  have "DecryptPageSQLCipherCipher le c page d4 reserved check = Some (SQLITE_OK, d)"
    using u(3) guard out(3) tag' init
    unfolding DecryptPageSQLCipherCipher_def Let_def off prod.case R(1) nat_off n len(4) out' ivd_def [symmetric]
    by (auto simp: d_def page1_def mac_def h_def ivd_def)
  moreover have len_d: "length d = length data"
    using len bounds x R by (auto simp: d_def ivd_def)
  moreover have "take n d = take n data"
  proof (intro nth_equalityI)
    fix i assume "i < length (take n d)"
    then have i: "i < n" by simp
    show "take n d ! i = take n data ! i"
    proof (cases "page1 \<and> i < 16")
      case True
      then have "d ! i = take 16 data ! i" using i len bounds x R u(6) by (auto simp: d_def nth_memcpy_at ivd_def)
      then show ?thesis using True i by simp
    next
      case False
      then have "d ! i = memcpy_at d4 offset x ! i" using i len bounds x R by (auto simp: d_def nth_memcpy_at ivd_def)
      also have "\<dots> = data ! i"
        using i len bounds x low [OF i] False out(1) by (auto simp: nth_memcpy_at d1_def x_def region_def)
      finally show ?thesis using i by simp
    qed
  qed (use len_d in simp)
  ultimately have dec: "\<exists>d. DecryptPageSQLCipherCipher le c page d4 reserved check = Some (SQLITE_OK, d) \<and> length d = length data \<and> take n d = take n data"
    by blast
  show ?thesis using e len(4) iv_len(2) dec by simp
qed

interpretation sqlcipher: page_cipher "EncryptPageSQLCipherCipher le" "DecryptPageSQLCipherCipher le" sqlcipher_usable
proof
  fix c page data reserved r rc data' r'
  assume A: "sqlcipher_usable c page data reserved" "rng_wf r" "EncryptPageSQLCipherCipher le c page data reserved r = Some (rc, data', r')"
  show "rc = SQLITE_OK \<and> length data' = length data \<and> rng_wf r'" using sqlcipher_page [OF A] by blast
  fix check
  have le: "length data - nat reserved \<le> nat (int (length data) - sqlcipher_nReserved c reserved)"
    using sqlcipher_match [of c reserved] A(1) by (auto simp: sqlcipher_usable_def)
  obtain d where d: "DecryptPageSQLCipherCipher le c page data' reserved check = Some (SQLITE_OK, d)" "length d = length data"
    "take (nat (int (length data) - sqlcipher_nReserved c reserved)) d = take (nat (int (length data) - sqlcipher_nReserved c reserved)) data"
    using sqlcipher_page [OF A, of check] by blast
  moreover from arg_cong [OF d(3), of "take (length data - nat reserved)"] le
  have "take (length data - nat reserved) d = take (length data - nat reserved) data" by (simp add: min_absorb1)
  ultimately show "\<exists>d. DecryptPageSQLCipherCipher le c page data' reserved check = Some (SQLITE_OK, d) \<and> length d = length data
        \<and> take (length data - nat reserved) d = take (length data - nat reserved) data" by blast
qed

text \<open>
  C19. Encrypting the pages of a database in sequence with the SQLCipher cipher, each with a fresh initial vector,
  and decrypting them gives all pages back, with and without the check of the authentication codes, for every
  configuration of the cipher (hash functions, page number format, plaintext header, legacy version); only
  the reserved bytes at the end of the pages change.
\<close>

theorem sqlcipher_file_roundtrip:
  assumes "\<forall>p \<in> set ps. sqlcipher_usable c (fst p) (snd p) reserved" and "rng_wf r"
    and "sqlcipher.encrypt_file le c reserved ps r = Some (es, r')"
  shows "length es = length ps \<and> (\<forall>k < length ps. fst (es ! k) = fst (ps ! k) \<and>
    (\<exists>d. DecryptPageSQLCipherCipher le c (fst (ps ! k)) (snd (es ! k)) reserved check = Some (SQLITE_OK, d)
      \<and> take (length d - nat reserved) d = take (length (snd (ps ! k)) - nat reserved) (snd (ps ! k))))"
  using sqlcipher.file_roundtrip [OF assms, of check]
  by (auto simp: list_all2_conv_all_nth sqlcipher.decrypts_to_def)

text \<open>The defaults of version 4, for a new database.\<close>

definition new_sqlcipher :: SQLCipherCipher where
  "new_sqlcipher = \<lparr>sq_legacy = 0, sq_legacyPageSize = 4096, sq_kdfIter = 256000, sq_fastKdfIter = 2, sq_hmacUse = 1, sq_hmacPgno = 1,
     sq_hmacSaltMask = 0x3a, sq_kdfAlgorithm = 2, sq_hmacAlgorithm = 2, sq_hmacAlgorithmCompat = 1, sq_plaintextHeaderSize = 0,
     sq_keyLength = 32, sq_key = replicate 32 0, sq_salt = replicate 16 0, sq_hmacKey = replicate 32 0, sq_aes = new_rijndael\<rparr>"

text \<open>Encryption of an acceptable page never fails otherwise than by the entropy source.\<close>

lemma sqlcipher_encrypts:
  assumes u: "sqlcipher_usable c page data reserved" and r: "rng_wf r" and rng: "chacha20_rng 128 r = Some (iv, r')"
  obtains e s where "EncryptPageSQLCipherCipher le c page data reserved r = Some (SQLITE_OK, e, s)"
proof -
  obtain ph offset' where off: "sqlcipher_offset c page = (ph, offset')" by fastforce
  define n where "n = nat (int (length data) - sqlcipher_nReserved c reserved)"
  define x where "x = region (nat offset') (n - nat offset') data"
  have bounds: "nat offset' + 16 \<le> n" "n \<le> length data" "\<not> int (length data) < sqlcipher_nReserved c reserved + int (nat offset')"
    using u sqlcipher_offset_range(1) [of c page] sqlcipher_nReserved_range [of c reserved] by (auto simp: sqlcipher_usable_def off n_def)
  have x: "length x = n - nat offset'" using bounds by (simp add: x_def)
  have cond: "length (sq_key c) \<in> {16, 24, 32}" "2 = int (length (sq_key c) div 8) - 2" "16 \<le> length iv'" "16 \<le> length x" if "16 \<le> length iv'" for iv'
    using that u x bounds by (simp_all add: sqlcipher_usable_def)
  obtain iv' r1 where iv': "(if sqlcipher_nReserved c reserved > 0 then chacha20_rng 128 r
      else Some (sqlite3mcGenerateInitialVector page @ replicate 112 0, r)) = Some (iv', r1)" "16 \<le> length iv'"
    using rng chacha20_rng_length_wf [OF rng r] by (cases "sqlcipher_nReserved c reserved > 0") auto
  obtain out k where "RijndaelBlockEncrypt (snd (RijndaelInit (sq_aes c) 1 0 (Some (sq_key c)) 2 (Some iv'))) (Some x) (8 * int (n - nat offset')) = Some (k, out)"
    using rijndael_cbc [OF cond [OF iv'(2)], unfolded x] iv'(2) by blast
  then have "\<exists>e s. EncryptPageSQLCipherCipher le c page data reserved r = Some (SQLITE_OK, e, s)"
    unfolding EncryptPageSQLCipherCipher_def Let_def off prod.case n_def [symmetric] x_def [symmetric]
    using u bounds(3) iv'(1) by (simp add: sqlcipher_usable_def)
  then show thesis using that by blast
qed

text \<open>The generator of the witnesses has 64 bytes left and can be refilled.\<close>

lemma refillable_rng:
  obtains iv r' where "chacha20_rng 128 full_rng = Some (iv, r')"
proof -
  have "\<exists>x. chacha20_rng 128 full_rng = Some x"
    unfolding full_rng_def
    by (subst chacha20_rng.simps, simp add: rng_refill_def Let_def)
      (subst chacha20_rng.simps, simp add: rng_refill_def rng_seed_def Let_def chacha20_rng.simps [of 0])
  then show thesis using that by auto
qed

lemma new_sqlcipher_usable: "page \<noteq> 1 \<Longrightarrow> 96 \<le> length data \<Longrightarrow> length data \<le> 65536 \<Longrightarrow> sqlcipher_usable new_sqlcipher page data 80"
  by (simp add: sqlcipher_usable_def new_sqlcipher_def sqlcipher_mismatch_def sqlcipher_nReserved_def GetReservedSQLCipherCipher_def
      sqlcipher_offset_def)

theorem sqlcipher_file_roundtrip_witness:
  "\<exists>es r'. sqlcipher.encrypt_file True new_sqlcipher 80 [(2, replicate 112 7)] full_rng = Some (es, r')
    \<and> (\<exists>d. DecryptPageSQLCipherCipher True new_sqlcipher 2 (snd (es ! 0)) 80 True = Some (SQLITE_OK, d)
        \<and> take (length d - 80) d = replicate 32 7)"
proof -
  have u: "sqlcipher_usable new_sqlcipher 2 (replicate 112 7) 80" by (rule new_sqlcipher_usable) simp_all
  obtain iv r1 where "chacha20_rng 128 full_rng = Some (iv, r1)" by (rule refillable_rng)
  then obtain e s where "EncryptPageSQLCipherCipher True new_sqlcipher 2 (replicate 112 7) 80 full_rng = Some (SQLITE_OK, e, s)"
    by (rule sqlcipher_encrypts [OF u full_rng(1)])
  then have e: "sqlcipher.encrypt_file True new_sqlcipher 80 [(2, replicate 112 7)] full_rng = Some ([(2, e)], s)"
    by simp
  with sqlcipher_file_roundtrip [OF _ full_rng(1) e, of True] u show ?thesis by auto
qed

section \<open>Tampering\<close>

lemma rijndael_decrypts:
  assumes "length key \<in> {16, 24, 32}" "keyLength = int (length key div 8) - 2" "16 \<le> length data"
  shows "\<exists>m out. RijndaelBlockDecrypt (snd (RijndaelInit rij 1 1 (Some key) keyLength (Some iv))) (Some data) (8 * int (length data)) = Some (m, out)"
proof -
  obtain d where d: "RijndaelInit rij 1 1 (Some key) keyLength (Some iv) = (0, d)"
    "rij_valid d" "rij_direction d = Decrypt" "rij_mode d = Mode_CBC"
    using init_contexts [OF assms(1) _ assms(2), of 1 Mode_CBC "Some iv"] by (metis mode_of_def zero_neq_one)
  have "0 < length data div 16" using assms(3) by (simp add: div_greater_zero_iff)
  then show ?thesis using assms(3) d by (auto simp: RijndaelBlockDecrypt_def Let_def nat_bits)
qed

text \<open>Decryption of a page with an authentication code, whatever it contains.\<close>

lemma sqlcipher_decrypt_auth:
  assumes R: "sqlcipher_nReserved c reserved = int R" "0 < R" "\<not> sqlcipher_mismatch c reserved" "sq_hmacUse c = 1"
    and off: "sqlcipher_offset c page = (ph, int offset)" and len: "offset + 16 \<le> n" "length e = n + R" and key: "length (sq_key c) = 32"
  shows "\<exists>d. DecryptPageSQLCipherCipher le c page e reserved check =
    Some (if check \<and> region (n + 16) (GetHmacSizeSQLCipherCipher (sq_hmacAlgorithm c)) e \<noteq> sqlcipher_page_hmac le c page offset n e
          then page_error page else SQLITE_OK, d)"
proof -
  have guard: "\<not> int (length e) < int R + int offset" "nat (int (length e) - int R) = n" using len by simp_all
  have x: "length (region offset (n - offset) e) = n - offset" using len by simp
  have cond: "length (sq_key c) \<in> {16, 24, 32}" "2 = int (length (sq_key c) div 8) - 2" "16 \<le> length (region offset (n - offset) e)"
    using key x len(1) by simp_all
  obtain m out where "RijndaelBlockDecrypt (snd (RijndaelInit (sq_aes c) 1 1 (Some (sq_key c)) 2 (Some (region n R e))))
      (Some (region offset (n - offset) e)) (8 * int (n - offset)) = Some (m, out)"
    using rijndael_decrypts [OF cond, of "sq_aes c" "region n R e", unfolded x] by blast
  then show ?thesis
    using R guard unfolding DecryptPageSQLCipherCipher_def Let_def off prod.case R(1) nat_int guard(2)
    by (auto simp: R)
qed

text \<open>
  C20. Tampering with a page of a SQLCipher database: replace the encrypted part by anything of the same length,
  keeping the reserved bytes. The page is accepted exactly when the HMAC of the part from \<open>offset\<close> on with the page
  number is the stored one, and refused with SQLITE_NOTADB for page 1 and SQLITE_CORRUPT otherwise; in particular a
  change before \<open>offset\<close>, that is of the unencrypted bytes of page 1, is never noticed. Without the check,
  every page is accepted.
\<close>

theorem sqlcipher_tampering:
  assumes "sqlcipher_usable c page data reserved" and "sq_hmacUse c = 1" and "0 < reserved" and "rng_wf r"
    and "EncryptPageSQLCipherCipher le c page data reserved r = Some (rc, e, r')"
    and "length e' = length e" and "drop n e' = drop n e" and "n = length e - nat (GetReservedSQLCipherCipher c)"
    and "sqlcipher_offset c page = (ph, int offset)"
  shows "\<exists>d d'. DecryptPageSQLCipherCipher le c page e' reserved True =
      Some (if sqlcipher_page_hmac le c page offset n e' = sqlcipher_page_hmac le c page offset n e then SQLITE_OK
            else if page = 1 then SQLITE_NOTADB else SQLITE_CORRUPT, d)
    \<and> DecryptPageSQLCipherCipher le c page e' reserved False = Some (SQLITE_OK, d')
    \<and> (drop offset e' = drop offset e \<longrightarrow> fst (the (DecryptPageSQLCipherCipher le c page e' reserved True)) = SQLITE_OK)"
proof -
  define R where "R = nat (GetReservedSQLCipherCipher c)"
  define h where "h = GetHmacSizeSQLCipherCipher (sq_hmacAlgorithm c)"
  have pos: "sqlcipher_nReserved c reserved = int R" "0 < R" "16 + h \<le> R"
    using assms(2,3) by (auto simp: sqlcipher_nReserved_def R_def h_def GetReservedSQLCipherCipher_def GetHmacSizeSQLCipherCipher_def)
  have m: "\<not> sqlcipher_mismatch c reserved" "length (sq_key c) = 32" using assms(1) by (simp_all add: sqlcipher_usable_def)
  have len_e: "length e = length data" using sqlcipher.enc_ok [OF assms(1,4,5)] by blast
  have "int R + int offset + 16 \<le> int (length data)" using assms(1,9) pos(1) by (simp add: sqlcipher_usable_def)
  then have len: "offset + 16 \<le> n" "length e = n + R" "length e' = n + R" using assms(6,8) by (simp_all add: len_e R_def [symmetric])
  have dec: "\<exists>d. DecryptPageSQLCipherCipher le c page x reserved check =
    Some (if check \<and> region (n + 16) h x \<noteq> sqlcipher_page_hmac le c page offset n x then page_error page else SQLITE_OK, d)"
    if "length x = n + R" for x check
    using sqlcipher_decrypt_auth [OF pos(1,2) m(1) assms(2,9) len(1) that m(2), of le check] by (simp add: h_def)
  have tail: "region (n + 16) h e' = region (n + 16) h e"
    using arg_cong [OF assms(7), of "\<lambda>x. take h (drop 16 x)"] by (simp add: region_def add.commute)
  have "fst (the (DecryptPageSQLCipherCipher le c page e reserved True)) = SQLITE_OK"
    using sqlcipher.dec_enc [OF assms(1,4,5), of True] by auto
  then have tag: "region (n + 16) h e = sqlcipher_page_hmac le c page offset n e"
    using dec [OF len(2), of True] by (auto split: if_splits)
  have same: "sqlcipher_page_hmac le c page offset n e' = sqlcipher_page_hmac le c page offset n e" if "drop offset e' = drop offset e"
    using that by (intro sqlcipher_page_hmac_cong) (simp add: region_def)
  obtain d where d: "DecryptPageSQLCipherCipher le c page e' reserved True =
      Some (if sqlcipher_page_hmac le c page offset n e' = sqlcipher_page_hmac le c page offset n e then SQLITE_OK else page_error page, d)"
    using dec [OF len(3), of True] unfolding tail tag by (auto split: if_splits)
  moreover obtain d' where "DecryptPageSQLCipherCipher le c page e' reserved False = Some (SQLITE_OK, d')"
    using dec [OF len(3), of False] by auto
  ultimately show ?thesis using same by (simp add: page_error_def)
qed

theorem sqlcipher_tampering_witness:
  "\<exists>e s d. EncryptPageSQLCipherCipher True new_sqlcipher 2 (replicate 112 7) 80 full_rng = Some (SQLITE_OK, e, s)
    \<and> DecryptPageSQLCipherCipher True new_sqlcipher 2 e 80 True = Some (SQLITE_OK, d)"
proof -
  have u: "sqlcipher_usable new_sqlcipher 2 (replicate 112 7) 80" by (rule new_sqlcipher_usable) simp_all
  obtain iv r1 where "chacha20_rng 128 full_rng = Some (iv, r1)" by (rule refillable_rng)
  then obtain e s where e: "EncryptPageSQLCipherCipher True new_sqlcipher 2 (replicate 112 7) 80 full_rng = Some (SQLITE_OK, e, s)"
    by (rule sqlcipher_encrypts [OF u full_rng(1)])
  have "sq_hmacUse new_sqlcipher = 1" "sqlcipher_offset new_sqlcipher 2 = (False, int 0)"
    by (simp_all add: new_sqlcipher_def sqlcipher_offset_def)
  from sqlcipher_tampering [OF u this(1) _ full_rng(1) e, of e _ False 0] this(2)
  have "\<exists>d. DecryptPageSQLCipherCipher True new_sqlcipher 2 e 80 True = Some (SQLITE_OK, d)" by auto
  with e show ?thesis by blast
qed

section \<open>The key\<close>

lemma sqlcipher_derive:
  assumes "new_salt (sq_plaintextHeaderSize c) rekey cipherSalt r = Some (salt, keyOnly, r')" "length (sq_key c) = 32" "length salt = 16"
  shows "GenerateKeySQLCipherCipher le c pw rekey cipherSalt r =
    (case (case raw_key pw of None \<Rightarrow> map_option (\<lambda>k. (k, salt)) (sqlcipher_kdf le (sq_kdfAlgorithm c) pw salt (sq_kdfIter c))
           | Some (k, s) \<Rightarrow> Some (k, if keyOnly then salt else case s of None \<Rightarrow> salt | Some t \<Rightarrow> t)) of
       None \<Rightarrow> None
     | Some (k, s) \<Rightarrow> map_option (\<lambda>c. (c, r')) (sqlcipher_hmac_key le (c\<lparr>sq_key := k, sq_salt := s\<rparr>)))"
  using assms
  by (auto simp: GenerateKeySQLCipherCipher_def sqlite3mcExtractRawKey_raw use_raw_key_def split: option.splits)

lemma sqlcipher_hmac_key_keep: "sqlcipher_hmac_key le x = Some y \<Longrightarrow> sq_salt y = sq_salt x \<and> sq_key y = sq_key x"
  by (auto simp: sqlcipher_hmac_key_def Let_def split: if_splits)

lemma sqlcipher_hmac_key_again:
  "sqlcipher_hmac_key le x = Some y \<Longrightarrow>
     sqlcipher_hmac_key le (x\<lparr>sq_hmacKey := h\<rparr>) = Some (if sq_hmacUse x = 0 then x\<lparr>sq_hmacKey := h\<rparr> else y)"
  by (cases x) (auto simp: sqlcipher_hmac_key_def Let_def)

text \<open>
  Whoever opens a SQLCipher database with the same passphrase and the same configuration gets the keys with which
  it was encrypted: after the generation of a key in any mode, the generation for reading with the salt that page 1
  then holds yields the same key, the same salt and the same HMAC key, for every choice of the hash functions.
\<close>

theorem sqlcipher_key_agreement:
  assumes "rng_wf r" and "length (sq_key c) = 32" and "length k = 32" and "\<forall>s. cipherSalt = Some s \<longrightarrow> 16 \<le> length s"
    and "GenerateKeySQLCipherCipher le c password rekey cipherSalt r = Some (c1, r1)"
    and "c' = c\<lparr>sq_key := k, sq_salt := s, sq_hmacKey := h\<rparr>"
  shows "\<exists>c2. GenerateKeySQLCipherCipher le c' password 0 (Some (sq_salt c1)) r2 = Some (c2, r2)
    \<and> sq_key c2 = sq_key c1 \<and> sq_salt c2 = sq_salt c1 \<and> sq_hmacKey c2 = (if sq_hmacUse c = 0 then h else sq_hmacKey c1)"
proof -
  obtain salt keyOnly r' where s: "new_salt (sq_plaintextHeaderSize c) rekey cipherSalt r = Some (salt, keyOnly, r')"
    using assms(5) by (auto simp: GenerateKeySQLCipherCipher_def split: option.splits)
  note salt = new_salt_cases [OF s assms(1,4)]
  note first = assms(5) [unfolded sqlcipher_derive [OF s assms(2) salt [THEN conjunct1]]]
  obtain K S where ks: "sqlcipher_hmac_key le (c\<lparr>sq_key := K, sq_salt := S\<rparr>) = Some c1"
    and source: "(case raw_key password of None \<Rightarrow> map_option (\<lambda>k. (k, salt)) (sqlcipher_kdf le (sq_kdfAlgorithm c) password salt (sq_kdfIter c))
      | Some (k, s) \<Rightarrow> Some (k, if keyOnly then salt else case s of None \<Rightarrow> salt | Some t \<Rightarrow> t)) = Some (K, S)"
    using first by (auto split: option.splits)
  have S: "sq_key c1 = K" "sq_salt c1 = S" using sqlcipher_hmac_key_keep [OF ks] by simp_all
  have len: "length (sq_salt c1) = 16"
    using source salt raw_key_length [of password] by (auto simp: S split: option.splits)
  have s2: "new_salt (sq_plaintextHeaderSize c') 0 (Some (sq_salt c1)) r2 = Some (sq_salt c1, \<not> sq_plaintextHeaderSize c > 0, r2)"
    using len by (simp add: new_salt_def salt_rekey_def assms(6))
  have key: "length (sq_key c') = 32" by (simp add: assms(3,6))
  have "(case raw_key password of None \<Rightarrow> map_option (\<lambda>k. (k, sq_salt c1)) (sqlcipher_kdf le (sq_kdfAlgorithm c') password (sq_salt c1) (sq_kdfIter c'))
      | Some (k, s) \<Rightarrow> Some (k, if \<not> sq_plaintextHeaderSize c > 0 then sq_salt c1 else case s of None \<Rightarrow> sq_salt c1 | Some t \<Rightarrow> t)) = Some (K, S)"
    using source salt by (auto simp: S assms(6) split: option.splits)
  moreover have "c'\<lparr>sq_key := K, sq_salt := S\<rparr> = c\<lparr>sq_key := K, sq_salt := S\<rparr>\<lparr>sq_hmacKey := h\<rparr>"
    by (cases c) (simp add: assms(6))
  ultimately show ?thesis
    unfolding sqlcipher_derive [OF s2 key len] using sqlcipher_hmac_key_again [OF ks, of h] by (simp add: S)
qed

theorem sqlcipher_key_agreement_witness:
  "\<exists>c1 r1 c2. GenerateKeySQLCipherCipher True (new_sqlcipher\<lparr>sq_hmacUse := 0\<rparr>) ([0x72, 0x61, 0x77, 0x3a] @ replicate 32 5) 1 None full_rng = Some (c1, r1)
    \<and> GenerateKeySQLCipherCipher True (new_sqlcipher\<lparr>sq_hmacUse := 0\<rparr>) ([0x72, 0x61, 0x77, 0x3a] @ replicate 32 5) 0 (Some (sq_salt c1)) full_rng
        = Some (c2, full_rng)
    \<and> sq_key c2 = replicate 32 5"
proof -
  define pw :: bytes where "pw = [0x72, 0x61, 0x77, 0x3a] @ replicate 32 5"
  define c where "c = new_sqlcipher\<lparr>sq_hmacUse := 0\<rparr>"
  have raw: "raw_key pw = Some (replicate 32 5, None)" by (simp add: raw_key_def Let_def pw_def)
  have key: "length (sq_key c) = 32" by (simp add: c_def new_sqlcipher_def)
  have "new_salt (sq_plaintextHeaderSize c) 1 None full_rng =
      Some (map of_nat [0..<16], False, full_rng\<lparr>rng_available := 48\<rparr>)" by (simp add: new_salt_def)
  from sqlcipher_derive [OF this key, of True pw] obtain c1 r1 where c1:
    "GenerateKeySQLCipherCipher True c pw 1 None full_rng = Some (c1, r1)" "sq_key c1 = replicate 32 5"
    by (auto simp: raw sqlcipher_hmac_key_def c_def)
  have "c = c\<lparr>sq_key := replicate 32 0, sq_salt := replicate 16 0, sq_hmacKey := replicate 32 0\<rparr>"
    by (simp add: c_def new_sqlcipher_def)
  from sqlcipher_key_agreement [OF full_rng(1) key _ _ c1(1) this, of full_rng] c1 show ?thesis
    unfolding pw_def [symmetric] c_def [symmetric] by auto
qed

end
