(* ===== verification/Ascon.thy ===== *)
theory Ascon
  imports PBKDF2
begin

text \<open>
  The cipher and hash function Ascon in the version 1.2 with the modifications of this project, \<^verbatim>\<open>src/src/ascon\<close>: the permutation
  in its variants for 64- and 32-bit machines, the authenticated encryption Ascon-128, the hash function, and the
  key derivation that is built on it. As configured there, the permutations are unrolled, the rate is 8 bytes and the key has 16.
\<close>

unbundle bit_operations_syntax

section \<open>Words\<close>

text \<open>\<^verbatim>\<open>word.h\<close>: the words are loaded and stored in big-endian order on every machine (\<^verbatim>\<open>bendian.h\<close>).\<close>

definition LOAD64_BE :: "bytes \<Rightarrow> u64" where
  "LOAD64_BE p = foldl (\<lambda>w b. push_bit 8 w OR ucast b) 0 (take 8 p)"

definition ASCON_LOADBYTES :: "bytes \<Rightarrow> nat \<Rightarrow> u64" where
  "ASCON_LOADBYTES b n = LOAD64_BE (take n b @ replicate (8 - n) 0)"

definition ASCON_STOREBYTES :: "u64 \<Rightarrow> nat \<Rightarrow> bytes" where
  "ASCON_STOREBYTES w n = take n (STORE64_BE w)"

definition ASCON_ROR :: "u64 \<Rightarrow> nat \<Rightarrow> u64" where
  "ASCON_ROR x n = drop_bit n x OR push_bit (nat (- int n mod 64)) x"

text \<open>The int of the macro \<^verbatim>\<open>ASCON_NOTZERO\<close>: 0 when both words are zero, and -1 otherwise.\<close>

definition ASCON_NOTZERO :: "u64 \<Rightarrow> u64 \<Rightarrow> int" where
  "ASCON_NOTZERO a b =
     (let r = a OR b; r = r OR drop_bit 32 r; r = r OR drop_bit 16 r; r = r OR drop_bit 8 r
      in (drop_bit 8 (uint (r AND 0xff) - 1) AND 1) - 1)"

definition ASCON_PAD :: "nat \<Rightarrow> u64" where
  "ASCON_PAD i = push_bit (56 - 8 * i) 0x80"

definition ASCON_DSEP :: u64 where "ASCON_DSEP = 1"

definition ASCON_CLEAR :: "u64 \<Rightarrow> nat \<Rightarrow> u64" where
  "ASCON_CLEAR w n = w AND drop_bit (8 * n) (NOT 0)"

section \<open>The permutation\<close>

record ascon_state =
  x0 :: u64
  x1 :: u64
  x2 :: u64
  x3 :: u64
  x4 :: u64

text \<open>\<^verbatim>\<open>round64.h\<close>\<close>

definition ASCON_ROUND :: "ascon_state \<Rightarrow> u64 \<Rightarrow> ascon_state" where
  "ASCON_ROUND s C =
     (let s2 = x2 s XOR C;
          s0 = x0 s XOR x4 s; s4 = x4 s XOR x3 s; s2 = s2 XOR x1 s; s1 = x1 s; s3 = x3 s;
          t0 = s0 XOR (NOT s1 AND s2);
          t2 = s2 XOR (NOT s3 AND s4);
          t4 = s4 XOR (NOT s0 AND s1);
          t1 = s1 XOR (NOT s2 AND s3);
          t3 = s3 XOR (NOT s4 AND s0);
          t1 = t1 XOR t0; t3 = t3 XOR t2; t0 = t0 XOR t4;
          s2 = t2 XOR ASCON_ROR t2 (6 - 1);
          s3 = t3 XOR ASCON_ROR t3 (17 - 10);
          s4 = t4 XOR ASCON_ROR t4 (41 - 7);
          s0 = t0 XOR ASCON_ROR t0 (28 - 19);
          s1 = t1 XOR ASCON_ROR t1 (61 - 39);
          s2 = t2 XOR ASCON_ROR s2 1;
          s3 = t3 XOR ASCON_ROR s3 10;
          s4 = t4 XOR ASCON_ROR s4 7;
          s0 = t0 XOR ASCON_ROR s0 19;
          s1 = t1 XOR ASCON_ROR s1 39
      in \<lparr>x0 = s0, x1 = s1, x2 = NOT s2, x3 = s3, x4 = s4\<rparr>)"

text \<open>\<^verbatim>\<open>round32.h\<close>\<close>

definition ASCON_ROUND32 :: "ascon_state \<Rightarrow> u64 \<Rightarrow> ascon_state" where
  "ASCON_ROUND32 s C =
     (let s2 = x2 s XOR C;
          s0 = x0 s XOR x4 s; s4 = x4 s XOR x3 s; s2 = s2 XOR x1 s; s1 = x1 s; s3 = x3 s;
          xtemp = s0 AND NOT s4;
          s0 = s0 XOR (s2 AND NOT s1);
          s2 = s2 XOR (s4 AND NOT s3);
          s4 = s4 XOR (s1 AND NOT s0);
          s1 = s1 XOR (s3 AND NOT s2);
          s3 = s3 XOR xtemp;
          s1 = s1 XOR s0; s3 = s3 XOR s2; s0 = s0 XOR s4; s2 = NOT s2;
          s0 = s0 XOR (drop_bit 19 s0 XOR push_bit 45 s0 XOR drop_bit 28 s0 XOR push_bit 36 s0);
          s1 = s1 XOR (drop_bit 61 s1 XOR push_bit 3 s1 XOR drop_bit 39 s1 XOR push_bit 25 s1);
          s2 = s2 XOR (drop_bit 1 s2 XOR push_bit 63 s2 XOR drop_bit 6 s2 XOR push_bit 58 s2);
          s3 = s3 XOR (drop_bit 10 s3 XOR push_bit 54 s3 XOR drop_bit 17 s3 XOR push_bit 47 s3);
          s4 = s4 XOR (drop_bit 7 s4 XOR push_bit 57 s4 XOR drop_bit 41 s4 XOR push_bit 23 s4)
      in \<lparr>x0 = s0, x1 = s1, x2 = s2, x3 = s3, x4 = s4\<rparr>)"

definition ASCON_RCS :: "u64 list" where
  "ASCON_RCS = [0xf0, 0xe1, 0xd2, 0xc3, 0xb4, 0xa5, 0x96, 0x87, 0x78, 0x69, 0x5a, 0x4b]"

definition ASCON_P :: "nat \<Rightarrow> ascon_state \<Rightarrow> ascon_state" where
  "ASCON_P nr s =
     (if nr = 12 then foldl ASCON_ROUND s ASCON_RCS
      else if nr = 8 then foldl ASCON_ROUND s (drop 4 ASCON_RCS)
      else if nr = 6 then foldl ASCON_ROUND s (drop 6 ASCON_RCS)
      else s)"

section \<open>Authenticated encryption\<close>

definition ASCON_128_IV :: u64 where "ASCON_128_IV = 0x80400c0600000000"

definition ascon_loadkey :: "bytes \<Rightarrow> u64 \<times> u64" where
  "ascon_loadkey k = (ASCON_LOADBYTES k 8, ASCON_LOADBYTES (drop 8 k) 8)"

definition ascon_initaead :: "u64 \<times> u64 \<Rightarrow> bytes \<Rightarrow> ascon_state" where
  "ascon_initaead key npub =
     (let s = ASCON_P 12 \<lparr>x0 = ASCON_128_IV, x1 = fst key, x2 = snd key,
                          x3 = ASCON_LOADBYTES npub 8, x4 = ASCON_LOADBYTES (drop 8 npub) 8\<rparr>
      in s\<lparr>x3 := x3 s XOR fst key, x4 := x4 s XOR snd key\<rparr>)"

fun ascon_adata_blocks :: "ascon_state \<Rightarrow> bytes \<Rightarrow> ascon_state" where
  "ascon_adata_blocks s ad =
     (if length ad \<ge> 8 then ascon_adata_blocks (ASCON_P 6 (s\<lparr>x0 := x0 s XOR ASCON_LOADBYTES ad 8\<rparr>)) (drop 8 ad)
      else
        let s = s\<lparr>x0 := x0 s XOR ASCON_PAD (length ad)\<rparr>;
            s = (if ad \<noteq> [] then s\<lparr>x0 := x0 s XOR ASCON_LOADBYTES ad (length ad)\<rparr> else s)
        in ASCON_P 6 s)"

declare ascon_adata_blocks.simps [simp del]

definition ascon_adata :: "ascon_state \<Rightarrow> bytes \<Rightarrow> ascon_state" where
  "ascon_adata s ad =
     (let s = (if ad \<noteq> [] then ascon_adata_blocks s ad else s)
      in s\<lparr>x4 := x4 s XOR ASCON_DSEP\<rparr>)"

fun ascon_encrypt :: "ascon_state \<Rightarrow> bytes \<Rightarrow> ascon_state \<times> bytes" where
  "ascon_encrypt s m =
     (if length m \<ge> 8 then
        let s = s\<lparr>x0 := x0 s XOR ASCON_LOADBYTES m 8\<rparr>;
            c = ASCON_STOREBYTES (x0 s) 8;
            (s, cs) = ascon_encrypt (ASCON_P 6 s) (drop 8 m)
        in (s, c @ cs)
      else
        let px = x0 s XOR ASCON_PAD (length m)
        in if m \<noteq> [] then
             let px = px XOR ASCON_LOADBYTES m (length m)
             in (s\<lparr>x0 := px\<rparr>, ASCON_STOREBYTES px (length m))
           else (s\<lparr>x0 := px\<rparr>, []))"

declare ascon_encrypt.simps [simp del]

fun ascon_decrypt :: "ascon_state \<Rightarrow> bytes \<Rightarrow> ascon_state \<times> bytes" where
  "ascon_decrypt s c =
     (if length c \<ge> 8 then
        let cx = ASCON_LOADBYTES c 8;
            m = ASCON_STOREBYTES (x0 s XOR cx) 8;
            (s, ms) = ascon_decrypt (ASCON_P 6 (s\<lparr>x0 := cx\<rparr>)) (drop 8 c)
        in (s, m @ ms)
      else
        let px = x0 s XOR ASCON_PAD (length c)
        in if c \<noteq> [] then
             let cx = ASCON_LOADBYTES c (length c);
                 px = px XOR cx
             in (s\<lparr>x0 := ASCON_CLEAR px (length c) XOR cx\<rparr>, ASCON_STOREBYTES px (length c))
           else (s\<lparr>x0 := px\<rparr>, []))"

declare ascon_decrypt.simps [simp del]

definition ascon_final :: "ascon_state \<Rightarrow> u64 \<times> u64 \<Rightarrow> ascon_state" where
  "ascon_final s key =
     (let s = ASCON_P 12 (s\<lparr>x1 := x1 s XOR fst key, x2 := x2 s XOR snd key\<rparr>)
      in s\<lparr>x3 := x3 s XOR fst key, x4 := x4 s XOR snd key\<rparr>)"

definition ascon_aead_encrypt :: "bytes \<Rightarrow> bytes \<Rightarrow> bytes \<Rightarrow> bytes \<Rightarrow> bytes \<times> bytes" where
  "ascon_aead_encrypt mtext ad nonce k =
     (let key = ascon_loadkey k;
          (s, ctext) = ascon_encrypt (ascon_adata (ascon_initaead key nonce) ad) mtext;
          s = ascon_final s key
      in (ctext, ASCON_STOREBYTES (x3 s) 8 @ ASCON_STOREBYTES (x4 s) 8))"

definition ascon_aead_decrypt :: "bytes \<Rightarrow> bytes \<Rightarrow> bytes \<Rightarrow> bytes \<Rightarrow> bytes \<Rightarrow> bytes \<times> int" where
  "ascon_aead_decrypt ctext ad tag nonce k =
     (let key = ascon_loadkey k;
          (s, mtext) = ascon_decrypt (ascon_adata (ascon_initaead key nonce) ad) ctext;
          s = ascon_final s key
      in (mtext, ASCON_NOTZERO (x3 s XOR ASCON_LOADBYTES tag 8) (x4 s XOR ASCON_LOADBYTES (drop 8 tag) 8)))"

section \<open>The hash function\<close>

definition ascon_inithash :: ascon_state where
  "ascon_inithash = \<lparr>x0 = 0xee9398aadb67f03d, x1 = 0x8bb21831c60f1002, x2 = 0xb48a92db98d5da62,
     x3 = 0x43189921b8f8e3e8, x4 = 0x348fa5c9d525e140\<rparr>"

fun ascon_absorb :: "ascon_state \<Rightarrow> bytes \<Rightarrow> ascon_state" where
  "ascon_absorb s inp =
     (if length inp \<ge> 8 then ascon_absorb (ASCON_P 12 (s\<lparr>x0 := x0 s XOR ASCON_LOADBYTES inp 8\<rparr>)) (drop 8 inp)
      else s\<lparr>x0 := x0 s XOR ASCON_LOADBYTES inp (length inp) XOR ASCON_PAD (length inp)\<rparr>)"

declare ascon_absorb.simps [simp del]

fun ascon_squeeze_blocks :: "ascon_state \<Rightarrow> nat \<Rightarrow> bytes" where
  "ascon_squeeze_blocks s outlen =
     (if outlen > 8 then ASCON_STOREBYTES (x0 s) 8 @ ascon_squeeze_blocks (ASCON_P 12 s) (outlen - 8)
      else ASCON_STOREBYTES (x0 s) outlen)"

declare ascon_squeeze_blocks.simps [simp del]

definition ascon_squeeze :: "ascon_state \<Rightarrow> nat \<Rightarrow> bytes" where
  "ascon_squeeze s outlen = ascon_squeeze_blocks (ASCON_P 12 s) outlen"

definition ascon_hash :: "bytes \<Rightarrow> bytes" where
  "ascon_hash inp = ascon_squeeze (ascon_absorb ascon_inithash inp) 32"

section \<open>Key derivation\<close>

definition ASCON_HASH_IV :: u64 where "ASCON_HASH_IV = 0x00400c0000000100"

definition ascon_pbkdf2_init :: "bytes \<Rightarrow> bytes \<Rightarrow> ascon_state" where
  "ascon_pbkdf2_init functionName custom =
     (let initial = (if functionName = [] then replicate 32 0
                     else if length functionName \<le> 32 then functionName @ replicate (32 - length functionName) 0
                     else ascon_hash functionName);
          s = ASCON_P 12 \<lparr>x0 = ASCON_HASH_IV, x1 = ASCON_LOADBYTES initial 8, x2 = ASCON_LOADBYTES (drop 8 initial) 8,
                          x3 = ASCON_LOADBYTES (drop 16 initial) 8, x4 = ASCON_LOADBYTES (drop 24 initial) 8\<rparr>
      in if length custom > 0 then let s = ASCON_P 12 (ascon_absorb s custom) in s\<lparr>x4 := x4 s XOR 1\<rparr> else s)"

text \<open>The loop that adds \<open>U\<close> to \<open>T\<close>, with \<open>count\<close> passes left.\<close>

primrec ascon_pbkdf2_loop :: "ascon_state \<Rightarrow> nat \<Rightarrow> bytes \<Rightarrow> bytes \<Rightarrow> bytes" where
  "ascon_pbkdf2_loop s 0 T U = T"
| "ascon_pbkdf2_loop s (Suc n) T U =
     (let U = ascon_squeeze (ascon_absorb s U) 32 in ascon_pbkdf2_loop s n (xor_bytes T U) U)"

definition ascon_pbkdf2_f :: "ascon_state \<Rightarrow> bytes \<Rightarrow> nat \<Rightarrow> u32 \<Rightarrow> bytes" where
  "ascon_pbkdf2_f s salt count blocknum =
     (let asconSaltLen = (if length salt < 16 then length salt else 16);
          temp = take asconSaltLen salt @ replicate (16 - asconSaltLen) 0 @ STORE32_BE blocknum;
          T = ascon_squeeze (ascon_absorb s temp) 32
      in ascon_pbkdf2_loop s (count - 1) T T)"

fun ascon_pbkdf2_blocks :: "ascon_state \<Rightarrow> nat \<Rightarrow> bytes \<Rightarrow> nat \<Rightarrow> u32 \<Rightarrow> bytes" where
  "ascon_pbkdf2_blocks s outlen salt count blocknum =
     (if outlen = 0 then []
      else if outlen \<ge> 32 then ascon_pbkdf2_f s salt count blocknum @ ascon_pbkdf2_blocks s (outlen - 32) salt count (blocknum + 1)
      else take outlen (ascon_pbkdf2_f s salt count blocknum))"

declare ascon_pbkdf2_blocks.simps [simp del]

definition PBKDF2_name :: bytes where
  "PBKDF2_name = map (of_nat \<circ> of_char) ''PBKDF2''"

definition ascon_pbkdf2 :: "nat \<Rightarrow> bytes \<Rightarrow> bytes \<Rightarrow> nat \<Rightarrow> bytes" where
  "ascon_pbkdf2 outlen password salt count =
     ascon_pbkdf2_blocks (ascon_pbkdf2_init PBKDF2_name password) outlen salt count 1"


section \<open>The permutation is Ascon's\<close>

text \<open>
  The round as the specification of Ascon has it: the addition of a constant, the substitution of every column of five bits by a table, and
  the linear layer.
\<close>

definition ascon_sbox :: "nat list" where
  "ascon_sbox = [4, 11, 31, 20, 26, 21, 9, 2, 27, 5, 8, 18, 29, 3, 6, 28, 30, 19, 7, 14, 0, 13, 17, 24, 16, 12, 1, 25, 22, 10, 15, 23]"

definition five_bits :: "bool \<Rightarrow> bool \<Rightarrow> bool \<Rightarrow> bool \<Rightarrow> bool \<Rightarrow> nat" where
  "five_bits a b c d e = 16 * of_bool a + 8 * of_bool b + 4 * of_bool c + 2 * of_bool d + of_bool e"

definition ascon_column :: "ascon_state \<Rightarrow> nat \<Rightarrow> nat" where
  "ascon_column s i = five_bits (bit (x0 s) i) (bit (x1 s) i) (bit (x2 s) i) (bit (x3 s) i) (bit (x4 s) i)"

definition ascon_substitute :: "ascon_state \<Rightarrow> nat \<Rightarrow> u64" where
  "ascon_substitute s j = horner_sum of_bool 2 (map (\<lambda>i. bit (ascon_sbox ! ascon_column s i) (4 - j)) [0..<64])"

definition ascon_linear :: "nat \<Rightarrow> nat \<Rightarrow> u64 \<Rightarrow> u64" where
  "ascon_linear a b x = x XOR word_rotr a x XOR word_rotr b x"

definition ascon_round_spec :: "ascon_state \<Rightarrow> u64 \<Rightarrow> ascon_state" where
  "ascon_round_spec s C =
     (let s = s\<lparr>x2 := x2 s XOR C\<rparr>
      in \<lparr>x0 = ascon_linear 19 28 (ascon_substitute s 0), x1 = ascon_linear 61 39 (ascon_substitute s 1),
          x2 = ascon_linear 1 6 (ascon_substitute s 2), x3 = ascon_linear 10 17 (ascon_substitute s 3),
          x4 = ascon_linear 7 41 (ascon_substitute s 4)\<rparr>)"

lemma bit_substitute: "i < 64 \<Longrightarrow> bit (ascon_substitute s j) i = bit (ascon_sbox ! ascon_column s i) (4 - j)"
  by (simp add: ascon_substitute_def bit_horner_sum_bit_iff)

text \<open>The bits of an entry of the table, one by one.\<close>

lemma ascon_sbox_bits:
  fixes a b c d e :: bool
  defines "v \<equiv> ascon_sbox ! five_bits a b c d e"
  shows "bit v 4 = (((a \<noteq> e) \<noteq> (\<not> b \<and> (c \<noteq> b))) \<noteq> ((e \<noteq> d) \<noteq> (\<not> (a \<noteq> e) \<and> b)))"
    and "bit v 3 = ((b \<noteq> (\<not> (c \<noteq> b) \<and> d)) \<noteq> ((a \<noteq> e) \<noteq> (\<not> b \<and> (c \<noteq> b))))"
    and "bit v 2 = (\<not> ((c \<noteq> b) \<noteq> (\<not> d \<and> (e \<noteq> d))))"
    and "bit v (Suc 0) = ((d \<noteq> (\<not> (e \<noteq> d) \<and> (a \<noteq> e))) \<noteq> ((c \<noteq> b) \<noteq> (\<not> d \<and> (e \<noteq> d))))"
    and "bit v 0 = ((e \<noteq> d) \<noteq> (\<not> (a \<noteq> e) \<and> b))"
  unfolding v_def by (cases a; cases b; cases c; cases d; cases e; simp add: five_bits_def ascon_sbox_def bit_iff_odd)+

lemma ascon_substitute_words:
  defines "s0 \<equiv> \<lambda>s. x0 s XOR x4 s" and "s4 \<equiv> \<lambda>s. x4 s XOR x3 s" and "s2 \<equiv> \<lambda>s. x2 s XOR x1 s"
  shows "ascon_substitute s 0 = (s0 s XOR (NOT (x1 s) AND s2 s)) XOR (s4 s XOR (NOT (s0 s) AND x1 s))"
    and "ascon_substitute s (Suc 0) = (x1 s XOR (NOT (s2 s) AND x3 s)) XOR (s0 s XOR (NOT (x1 s) AND s2 s))"
    and "ascon_substitute s 2 = NOT (s2 s XOR (NOT (x3 s) AND s4 s))"
    and "ascon_substitute s 3 = (x3 s XOR (NOT (s4 s) AND s0 s)) XOR (s2 s XOR (NOT (x3 s) AND s4 s))"
    and "ascon_substitute s 4 = s4 s XOR (NOT (s0 s) AND x1 s)"
proof -
  have bits: "bit (ascon_substitute s j) i = bit (ascon_sbox ! five_bits (bit (x0 s) i) (bit (x1 s) i) (bit (x2 s) i) (bit (x3 s) i) (bit (x4 s) i)) (4 - j)"
    if "i < 64" for i j
    using that by (simp add: bit_substitute ascon_column_def)
  show "ascon_substitute s 0 = (s0 s XOR (NOT (x1 s) AND s2 s)) XOR (s4 s XOR (NOT (s0 s) AND x1 s))"
    by (rule bit_word_eqI)
      (simp add: bits ascon_sbox_bits s0_def s2_def s4_def bit_simps)
  show "ascon_substitute s (Suc 0) = (x1 s XOR (NOT (s2 s) AND x3 s)) XOR (s0 s XOR (NOT (x1 s) AND s2 s))"
    by (rule bit_word_eqI) (simp add: bits ascon_sbox_bits s0_def s2_def s4_def bit_simps)
  show "ascon_substitute s 2 = NOT (s2 s XOR (NOT (x3 s) AND s4 s))"
    by (rule bit_word_eqI) (simp add: bits ascon_sbox_bits s0_def s2_def s4_def bit_simps)
  show "ascon_substitute s 3 = (x3 s XOR (NOT (s4 s) AND s0 s)) XOR (s2 s XOR (NOT (x3 s) AND s4 s))"
    by (rule bit_word_eqI) (simp add: bits ascon_sbox_bits s0_def s2_def s4_def bit_simps)
  show "ascon_substitute s 4 = s4 s XOR (NOT (s0 s) AND x1 s)"
    by (rule bit_word_eqI) (simp add: bits ascon_sbox_bits s0_def s2_def s4_def bit_simps)
qed

lemma bit_word_rotr: "bit (word_rotr n (x :: u64)) i \<longleftrightarrow> i < 64 \<and> bit x ((i + n) mod 64)"
  by (simp add: bit_word_rotr_iff)

lemma shifts_rotr: "0 < n \<Longrightarrow> n < 64 \<Longrightarrow> drop_bit n x XOR push_bit (64 - n) x = word_rotr n x" for x :: u64
  by (rule bit_word_eqI) (auto simp: add.commute [of n] bit_word_rotr bit_simps mod_if dest: bit_imp_le_length)

lemma ASCON_ROR_rotr: "0 < n \<Longrightarrow> n < 64 \<Longrightarrow> ASCON_ROR x n = word_rotr n x"
  by (rule bit_word_eqI)
    (auto simp: add.commute [of n] ASCON_ROR_def bit_word_rotr bit_simps mod_if zmod_zminus1_eq_if nat_diff_distrib dest: bit_imp_le_length)

lemma rotr_rotr: "x XOR word_rotr a (x XOR word_rotr b x) = ascon_linear a (a + b) x"
  by (rule bit_word_eqI) (simp add: ascon_linear_def bit_word_rotr bit_simps mod_simps ac_simps)

lemma rotr_not: "NOT (ascon_linear a b x) = ascon_linear a b (NOT x)"
  by (rule bit_word_eqI) (auto simp: ascon_linear_def bit_word_rotr bit_simps)

lemma linear_shifts:
  "0 < a \<Longrightarrow> a < 64 \<Longrightarrow> 0 < b \<Longrightarrow> b < 64 \<Longrightarrow>
     x XOR (drop_bit a x XOR push_bit (64 - a) x XOR drop_bit b x XOR push_bit (64 - b) x) = ascon_linear a b x"
  by (simp add: ascon_linear_def shifts_rotr [symmetric] ac_simps)

lemma linear_commute: "ascon_linear 39 61 = ascon_linear 61 39"
  by (simp add: ascon_linear_def fun_eq_iff ac_simps)

lemma ASCON_ROUND_spec: "ASCON_ROUND s C = ascon_round_spec s C"
  by (simp add: ASCON_ROUND_def ascon_round_spec_def Let_def ascon_substitute_words ASCON_ROR_rotr rotr_rotr linear_commute rotr_not [symmetric])

lemma and_not_xor: "a AND NOT (b XOR (c AND NOT a)) = NOT b AND a" for a b c :: u64
  by (rule bit_word_eqI) (auto simp: bit_simps)

lemma ASCON_ROUND32_spec: "ASCON_ROUND32 s C = ascon_round_spec s C"
proof -
  note linear = linear_shifts [of 19 28] linear_shifts [of 61 39] linear_shifts [of 1 6] linear_shifts [of 10 17] linear_shifts [of 7 41]
  show ?thesis
    by (simp add: ASCON_ROUND32_def ascon_round_spec_def Let_def linear [simplified] ascon_substitute_words and_not_xor and.commute)
qed

section \<open>Loading and storing\<close>

lemma ascon_list_8: "length xs = 8 \<Longrightarrow> \<exists>a b c d e f g h. xs = [a, b, c, d, e, f, g, h]"
  by (simp add: numeral_eq_Suc length_Suc_conv) blast

lemma less_64_parts:
  "n < 64 \<Longrightarrow> n < 8 \<or> (\<exists>k<8. n = 8 + k) \<or> (\<exists>k<8. n = 16 + k) \<or> (\<exists>k<8. n = 24 + k)
     \<or> (\<exists>k<8. n = 32 + k) \<or> (\<exists>k<8. n = 40 + k) \<or> (\<exists>k<8. n = 48 + k) \<or> (\<exists>k<8. n = 56 + k)"
  for n :: nat
  by presburger

lemma STORE64_LOAD64:
  assumes "length p = 8"
  shows "STORE64_BE (LOAD64_BE p) = p"
proof -
  obtain a b c d e f g h where p: "p = [a, b, c, d, e, f, g, h]" using ascon_list_8 [OF assms] by blast
  show ?thesis
    by (auto simp: p STORE64_BE_def LOAD64_BE_def bit_simps intro!: bit_word_eqI)
qed

lemma LOAD64_STORE64: "LOAD64_BE (STORE64_BE w) = w"
proof (rule bit_word_eqI)
  fix n assume "n < LENGTH(64)"
  then have "n < 64" by simp
  from less_64_parts [OF this]
  show "bit (LOAD64_BE (STORE64_BE w)) n = bit w n"
    by (elim disjE exE conjE) (simp_all add: LOAD64_BE_def STORE64_BE_def bit_simps)
qed

lemma STORE64_xor: "STORE64_BE (a XOR b) = xor_bytes (STORE64_BE a) (STORE64_BE b)"
  by (simp add: STORE64_BE_def unsigned_xor_eq)

lemma STORE64_inject: "STORE64_BE a = STORE64_BE b \<longleftrightarrow> a = b"
  by (metis LOAD64_STORE64)

lemma STORE64_LOADBYTES: "n \<le> length b \<Longrightarrow> n \<le> 8 \<Longrightarrow> STORE64_BE (ASCON_LOADBYTES b n) = take n b @ replicate (8 - n) 0"
  by (simp add: ASCON_LOADBYTES_def STORE64_LOAD64)

lemma LOADBYTES_STORE: "ASCON_LOADBYTES (ASCON_STOREBYTES w 8 @ rest) 8 = w"
  by (simp add: ASCON_LOADBYTES_def ASCON_STOREBYTES_def LOAD64_STORE64)

lemma length_STOREBYTES [bytes_len, simp]: "n \<le> 8 \<Longrightarrow> length (ASCON_STOREBYTES w n) = n"
  by (simp add: ASCON_STOREBYTES_def)

lemma less_8_cases: "n < 8 \<Longrightarrow> n = 0 \<or> n = 1 \<or> n = 2 \<or> n = 3 \<or> n = 4 \<or> n = 5 \<or> n = 6 \<or> n = (7 :: nat)"
  by presburger

lemma STORE64_PAD: "n < 8 \<Longrightarrow> STORE64_BE (ASCON_PAD n) = replicate n 0 @ [0x80] @ replicate (7 - n) 0"
  by (drule less_8_cases, elim disjE; hypsubst, code_simp)

lemma STORE64_CLEAR: "n < 8 \<Longrightarrow> STORE64_BE (ASCON_CLEAR w n) = replicate n 0 @ drop n (STORE64_BE w)"
proof (rule nth_equalityI)
  fix i assume n: "n < 8" and "i < length (STORE64_BE (ASCON_CLEAR w n))"
  then have i: "i < 8" by simp
  have nth: "STORE64_BE v ! i = ucast (drop_bit (56 - 8 * i) v)" for v
    using i by (drule_tac less_8_cases) (auto simp: STORE64_BE_def)
  show "STORE64_BE (ASCON_CLEAR w n) ! i = (replicate n 0 @ drop n (STORE64_BE w)) ! i"
    using n i by (auto simp: nth_append nth ASCON_CLEAR_def bit_simps intro!: bit_word_eqI)
qed simp

section \<open>Decryption undoes encryption\<close>

lemma xor_bytes_zeros: "length xs = n \<Longrightarrow> xor_bytes xs (replicate n 0) = xs" "length xs = n \<Longrightarrow> xor_bytes (replicate n 0) xs = xs"
  by (rule nth_equalityI, simp_all)+

lemma ascon_partial_block:
  fixes x :: u64 and m :: bytes
  defines "px \<equiv> (x XOR ASCON_PAD (length m)) XOR ASCON_LOADBYTES m (length m)"
  defines "c \<equiv> ASCON_STOREBYTES px (length m)"
  defines "py \<equiv> (x XOR ASCON_PAD (length m)) XOR ASCON_LOADBYTES c (length m)"
  assumes len: "length m < 8"
  shows "ASCON_STOREBYTES py (length m) = m" and "ASCON_CLEAR py (length m) XOR ASCON_LOADBYTES c (length m) = px"
proof -
  define l where "l = length m"
  define X where "X = take l (STORE64_BE x)"
  define Y where "Y = drop l (STORE64_BE x)"
  have XY: "STORE64_BE x = X @ Y" "length X = l" "length Y = 8 - l" using len by (simp_all add: X_def Y_def l_def)
  define P where "P = [0x80] @ replicate (7 - l) (0 :: byte)"
  have P: "STORE64_BE (ASCON_PAD l) = replicate l 0 @ P" "length P = 8 - l" using len by (simp_all add: STORE64_PAD P_def l_def)
  have XP: "STORE64_BE (x XOR ASCON_PAD l) = X @ xor_bytes Y P"
    by (simp add: STORE64_xor XY P xor_bytes_append xor_bytes_zeros)
  have px: "STORE64_BE px = xor_bytes X m @ xor_bytes Y P"
    using len by (simp add: px_def STORE64_xor XP [unfolded STORE64_xor] l_def [symmetric] STORE64_LOADBYTES xor_bytes_append XY P xor_bytes_zeros)
  then have c: "c = xor_bytes X m" using len XY by (simp add: c_def ASCON_STOREBYTES_def l_def)
  have lc: "length c = l" using XY by (simp add: c l_def)
  have C: "STORE64_BE (ASCON_LOADBYTES c l) = c @ replicate (8 - l) 0" using lc len by (simp add: STORE64_LOADBYTES l_def)
  have py: "STORE64_BE py = xor_bytes X c @ xor_bytes Y P"
    by (simp add: py_def STORE64_xor XP [unfolded STORE64_xor] l_def [symmetric] C xor_bytes_append XY P lc xor_bytes_zeros)
  have "xor_bytes X c = m"
    using XY(2) by (simp add: c l_def xor_bytes_commute [of X] xor_bytes_commute [of X "xor_bytes m X"])
  then show "ASCON_STOREBYTES py (length m) = m" by (simp add: ASCON_STOREBYTES_def py)
  have "STORE64_BE (ASCON_CLEAR py l XOR ASCON_LOADBYTES c l) = STORE64_BE px"
    using len XY lc P(2) by (simp add: STORE64_xor STORE64_CLEAR l_def [symmetric] py C px c [symmetric] xor_bytes_append xor_bytes_zeros)
  then show "ASCON_CLEAR py (length m) XOR ASCON_LOADBYTES c (length m) = px" by (simp add: STORE64_inject l_def)
qed

lemma length_ascon_encrypt: "length (snd (ascon_encrypt s m)) = length m"
proof (induction s m rule: ascon_encrypt.induct)
  case (1 s m)
  then show ?case
    by (subst ascon_encrypt.simps) (auto simp: Let_def split: prod.splits)
qed

lemma LOADBYTES_0 [simp]: "ASCON_LOADBYTES b 0 = 0"
  by (simp add: ASCON_LOADBYTES_def LOAD64_BE_def numeral_eq_Suc)

lemma ascon_encrypt_short:
  "length m < 8 \<Longrightarrow> ascon_encrypt s m =
     (let px = (x0 s XOR ASCON_PAD (length m)) XOR ASCON_LOADBYTES m (length m)
      in (s\<lparr>x0 := px\<rparr>, ASCON_STOREBYTES px (length m)))"
  by (cases "m = []") (simp_all add: ascon_encrypt.simps Let_def ASCON_STOREBYTES_def)

lemma ascon_decrypt_short:
  "length c < 8 \<Longrightarrow> ascon_decrypt s c =
     (let cx = ASCON_LOADBYTES c (length c); px = (x0 s XOR ASCON_PAD (length c)) XOR cx
      in (s\<lparr>x0 := ASCON_CLEAR px (length c) XOR cx\<rparr>, ASCON_STOREBYTES px (length c)))"
  by (cases "c = []") (simp_all add: ascon_decrypt.simps Let_def ASCON_STOREBYTES_def ASCON_CLEAR_def)

lemma ascon_decrypt_encrypt: "ascon_decrypt s (snd (ascon_encrypt s m)) = (fst (ascon_encrypt s m), m)"
proof (induction s m rule: ascon_encrypt.induct)
  case (1 s m)
  show ?case
  proof (cases "length m \<ge> 8")
    case True
    define s' where "s' = s\<lparr>x0 := x0 s XOR ASCON_LOADBYTES m 8\<rparr>"
    have enc: "ascon_encrypt s m = (fst (ascon_encrypt (ASCON_P 6 s') (drop 8 m)), ASCON_STOREBYTES (x0 s') 8 @ snd (ascon_encrypt (ASCON_P 6 s') (drop 8 m)))"
      using True by (subst ascon_encrypt.simps) (simp add: Let_def s'_def split_beta)
    have "ASCON_STOREBYTES (ASCON_LOADBYTES m 8) 8 = take 8 m"
      using True by (simp add: ASCON_STOREBYTES_def STORE64_LOADBYTES)
    moreover have "x0 s XOR x0 s' = ASCON_LOADBYTES m 8" by (simp add: s'_def xor.assoc [symmetric])
    moreover have "s\<lparr>x0 := x0 s'\<rparr> = s'" by (simp add: s'_def)
    ultimately show ?thesis
      using 1 [OF True s'_def refl] True
      by (subst ascon_decrypt.simps) (simp add: enc Let_def LOADBYTES_STORE)
  next
    case False
    then have m: "length m < 8" by simp
    then have "length (ASCON_STOREBYTES px (length m)) = length m" for px by simp
    with ascon_partial_block [OF m, of "x0 s"] m show ?thesis
      by (simp add: ascon_encrypt_short ascon_decrypt_short Let_def)
  qed
qed

lemma fold_low_byte:
  defines "f \<equiv> \<lambda>r :: u64. let r = r OR drop_bit 32 r; r = r OR drop_bit 16 r in r OR drop_bit 8 r"
  shows "f r AND 0xff = 0 \<longleftrightarrow> r = 0"
proof
  assume low: "f r AND 0xff = 0"
  have mask: "(0xff :: u64) = mask 8" by (simp add: mask_eq_exp_minus_1)
  have "\<not> bit (f r) i" if "i < 8" for i
  proof -
    have "bit (f r AND 0xff) i = bit (f r) i" using that by (simp add: mask bit_and_iff bit_mask_iff)
    then show ?thesis by (simp add: low)
  qed
  then have "\<not> bit r n" if "n < 64" for n
    using less_64_parts [OF that] by (auto simp: f_def Let_def bit_simps)
  then show "r = 0" by (intro bit_word_eqI) simp
qed (simp add: f_def)

lemma ASCON_NOTZERO: "ASCON_NOTZERO a b = (if a = 0 \<and> b = 0 then 0 else -1)"
proof -
  define w where "w = (let r = a OR b; r = r OR drop_bit 32 r; r = r OR drop_bit 16 r in r OR drop_bit 8 r) AND 0xff"
  define u where "u = uint w"
  have nz: "ASCON_NOTZERO a b = (drop_bit 8 (u - 1) AND 1) - 1" by (simp add: ASCON_NOTZERO_def u_def w_def Let_def)
  have "w = 0 \<longleftrightarrow> a OR b = 0" using fold_low_byte [of "a OR b"] by (simp only: w_def Let_def)
  then have "u = 0 \<longleftrightarrow> a OR b = 0" by (metis u_def uint_0_iff)
  moreover have "a OR b = 0 \<longleftrightarrow> a = 0 \<and> b = 0" by (metis or.right_neutral or_eq_0_iff)
  moreover have "w AND mask 8 = w" by (simp add: w_def mask_eq_exp_minus_1 and.assoc)
  then have "u < 256" using and_mask_lt_2p [of w 8] by (simp add: u_def)
  moreover have "0 \<le> u" by (simp add: u_def)
  moreover have "drop_bit 8 (u - 1) = 0" if "0 < u" "u < 256"
    using that by (simp add: drop_bit_eq_div)
  ultimately show ?thesis using nz by (cases "u = 0") auto
qed

text \<open>A ciphertext is the encryption of what it is decrypted to.\<close>

lemma length_ascon_decrypt: "length (snd (ascon_decrypt s c)) = length c"
proof (induction s c rule: ascon_decrypt.induct)
  case (1 s c)
  then show ?case
    by (subst ascon_decrypt.simps) (auto simp: Let_def split: prod.splits)
qed

lemma ascon_encrypt_decrypt: "ascon_encrypt s (snd (ascon_decrypt s c)) = (fst (ascon_decrypt s c), c)"
proof (induction s c rule: ascon_decrypt.induct)
  case (1 s c)
  show ?case
  proof (cases "length c \<ge> 8")
    case True
    define cx where "cx = ASCON_LOADBYTES c 8"
    define s' where "s' = s\<lparr>x0 := cx\<rparr>"
    have dec: "ascon_decrypt s c = (fst (ascon_decrypt (ASCON_P 6 s') (drop 8 c)),
        ASCON_STOREBYTES (x0 s XOR cx) 8 @ snd (ascon_decrypt (ASCON_P 6 s') (drop 8 c)))"
      using True by (subst ascon_decrypt.simps) (simp add: Let_def s'_def cx_def split_beta)
    have "ASCON_STOREBYTES cx 8 = take 8 c"
      using True by (simp add: cx_def ASCON_STOREBYTES_def STORE64_LOADBYTES)
    moreover have "x0 s XOR (x0 s XOR cx) = cx" by (simp add: xor.assoc [symmetric])
    moreover have "x0 s' = cx" by (simp add: s'_def)
    ultimately show ?thesis
      using 1 [OF True cx_def refl] True
      by (subst ascon_encrypt.simps) (simp add: dec Let_def LOADBYTES_STORE s'_def [symmetric])
  next
    case False
    define l where "l = length c"
    have l: "l < 8" using False by (simp add: l_def)
    define y where "y = x0 s XOR ASCON_PAD l"
    define m where "m = xor_bytes (take l (STORE64_BE y)) c"
    have m: "length m = l" using l by (simp add: m_def l_def)
    have "ASCON_STOREBYTES (y XOR ASCON_LOADBYTES m l) l = xor_bytes (take l (STORE64_BE y)) m"
      using l m by (simp add: ASCON_STOREBYTES_def STORE64_xor STORE64_LOADBYTES xor_bytes_def take_map take_zip)
    also have "\<dots> = c"
      using l by (simp add: m_def l_def xor_bytes_commute [of "take l (STORE64_BE y)"] xor_bytes_commute [of "take (length c) (STORE64_BE y)"]
          xor_bytes_commute [of "take (length c) (STORE64_BE y)" "xor_bytes c (take (length c) (STORE64_BE y))"])
    finally have c: "ASCON_STOREBYTES (y XOR ASCON_LOADBYTES m l) l = c" .
    from ascon_partial_block [of m "x0 s"] l
    show ?thesis
      using False by (simp add: m y_def [symmetric] c ascon_decrypt_short ascon_encrypt_short Let_def l_def [symmetric])
  qed
qed

text \<open>The authenticated encryption: a message is recovered, and exactly what was encrypted is accepted.\<close>

lemma ascon_aead_roundtrip:
  "ascon_aead_encrypt m ad nonce k = (c, tag) \<Longrightarrow> length c = length m \<and> length tag = 16 \<and> ascon_aead_decrypt c ad tag nonce k = (m, 0)"
  using ascon_decrypt_encrypt [of "ascon_adata (ascon_initaead (ascon_loadkey k) nonce) ad" m]
    length_ascon_encrypt [of "ascon_adata (ascon_initaead (ascon_loadkey k) nonce) ad" m]
  by (auto simp: ascon_aead_encrypt_def ascon_aead_decrypt_def Let_def split_beta ASCON_NOTZERO LOADBYTES_STORE
      LOADBYTES_STORE [of _ "[]", simplified])

lemma ascon_aead_accepts:
  assumes "ascon_aead_decrypt c ad tag nonce k = (m, rc)" and "length tag = 16"
  shows "rc = 0 \<longleftrightarrow> ascon_aead_encrypt m ad nonce k = (c, tag)"
proof -
  define s where "s = ascon_adata (ascon_initaead (ascon_loadkey k) nonce) ad"
  define f where "f = ascon_final (fst (ascon_decrypt s c)) (ascon_loadkey k)"
  have m: "m = snd (ascon_decrypt s c)"
    and rc: "rc = ASCON_NOTZERO (x3 f XOR ASCON_LOADBYTES tag 8) (x4 f XOR ASCON_LOADBYTES (drop 8 tag) 8)"
    using assms(1) by (simp_all add: ascon_aead_decrypt_def s_def f_def Let_def split_beta)
  have enc: "ascon_aead_encrypt m ad nonce k = (c, STORE64_BE (x3 f) @ STORE64_BE (x4 f))"
    using ascon_encrypt_decrypt [of s c]
    by (simp add: ascon_aead_encrypt_def m s_def [symmetric] f_def Let_def ASCON_STOREBYTES_def)
  have eq0: "a XOR b = 0 \<longleftrightarrow> a = b" for a b :: u64
  proof
    assume "a XOR b = 0"
    then have "(a XOR b) XOR b = 0 XOR b" by simp
    then show "a = b" by (simp add: xor.assoc)
  qed simp
  have parts: "w = ASCON_LOADBYTES p 8 \<longleftrightarrow> STORE64_BE w = take 8 p" if "8 \<le> length p" for w p
    using that STORE64_LOADBYTES [of 8 p] STORE64_inject [of w "ASCON_LOADBYTES p 8"] by simp
  have "STORE64_BE (x3 f) @ STORE64_BE (x4 f) = tag \<longleftrightarrow> STORE64_BE (x3 f) = take 8 tag \<and> STORE64_BE (x4 f) = drop 8 tag"
    by (simp add: append_eq_conv_conj)
  moreover have "take 8 (drop 8 tag) = drop 8 tag" using assms(2) by simp
  ultimately show ?thesis
    using assms(2) by (auto simp: rc enc ASCON_NOTZERO eq0 parts split: if_splits)
qed

section \<open>The hash function and the key derivation\<close>

text \<open>The pseudorandom function: the extendable output of Ascon, customised by the password.\<close>

definition ascon_prf :: "bytes \<Rightarrow> bytes \<Rightarrow> bytes" where
  "ascon_prf password x =
     ascon_squeeze (ascon_absorb (ascon_pbkdf2_init PBKDF2_name password) x) 32"

lemma length_squeeze_blocks: "length (ascon_squeeze_blocks s n) = n"
proof (induction s n rule: ascon_squeeze_blocks.induct)
  case (1 s n)
  then show ?case by (subst ascon_squeeze_blocks.simps) auto
qed

lemma length_ascon_prf [bytes_len, simp]: "length (ascon_prf pw x) = 32"
  by (simp add: ascon_prf_def ascon_squeeze_def length_squeeze_blocks)

lemma ascon_pbkdf2_loop_T:
  "ascon_pbkdf2_loop (ascon_pbkdf2_init PBKDF2_name pw) n
     (pbkdf2_T (ascon_prf pw) x j) (pbkdf2_U (ascon_prf pw) x j) = pbkdf2_T (ascon_prf pw) x (j + n)"
proof (induction n arbitrary: j)
  case (Suc n)
  from Suc.IH [of "Suc j"] show ?case by (simp add: Let_def ascon_prf_def [symmetric])
qed simp

lemma ascon_pbkdf2_f_T:
  assumes "length salt = 16"
  shows "ascon_pbkdf2_f (ascon_pbkdf2_init PBKDF2_name pw) salt c (of_nat i)
    = pbkdf2_T (ascon_prf pw) (salt @ STORE32_BE (of_nat i)) (c - 1)"
  using assms ascon_pbkdf2_loop_T [of pw "c - 1" "salt @ STORE32_BE (of_nat i)" 0]
  by (simp add: ascon_pbkdf2_f_def Let_def ascon_prf_def)

lemma length_ascon_T: "length (pbkdf2_T (ascon_prf pw) x n) = 32"
proof (induction n)
  case 0
  then show ?case by (cases n) simp_all
next
  case (Suc n)
  then show ?case by simp
qed

lemma ascon_pbkdf2_blocks_eq:
  assumes "length salt = 16"
  shows "ascon_pbkdf2_blocks (ascon_pbkdf2_init PBKDF2_name pw) n salt c (of_nat i)
    = take n (concat (map (\<lambda>i. pbkdf2_T (ascon_prf pw) (salt @ STORE32_BE (of_nat i)) (c - 1)) [i ..< (n + 31) div 32 + i]))"
proof -
  define T where "T i = pbkdf2_T (ascon_prf pw) (salt @ STORE32_BE (of_nat i)) (c - 1)" for i
  have T: "length (T i) = 32" for i by (simp add: T_def length_ascon_T)
  have f: "ascon_pbkdf2_f (ascon_pbkdf2_init PBKDF2_name pw) salt c (of_nat i) = T i" for i
    by (simp only: ascon_pbkdf2_f_T [OF assms] T_def)
  have "ascon_pbkdf2_blocks (ascon_pbkdf2_init PBKDF2_name pw) n salt c (of_nat i) = take n (concat (map T [i ..< (n + 31) div 32 + i]))"
  proof (induction n arbitrary: i rule: less_induct)
    case (less n)
    consider "n = 0" | "0 < n" "n < 32" | "32 \<le> n" by linarith
    then show ?case
    proof cases
      case 1
      then show ?thesis by (simp add: ascon_pbkdf2_blocks.simps)
    next
      case 2
      then have "(n + 31) div 32 = 1" by simp
      then show ?thesis using 2 by (simp add: ascon_pbkdf2_blocks.simps f)
    next
      case 3
      then obtain k where k: "n = 32 + k" using le_Suc_ex by blast
      have upt: "[i ..< (n + 31) div 32 + i] = i # [Suc i ..< (k + 31) div 32 + Suc i]"
      proof -
        have "(n + 31) div 32 + i = (k + 31) div 32 + Suc i" by (simp add: k)
        then show ?thesis by (simp del: upt_Suc add: upt_conv_Cons)
      qed
      have i: "of_nat i + 1 = (of_nat (Suc i) :: u32)" by simp
      show ?thesis
        unfolding upt using 3 less.IH [of k "Suc i"] T [of i] by (subst ascon_pbkdf2_blocks.simps) (simp del: of_nat_Suc upt_Suc add: f k i)
    qed
  qed
  moreover have "T = (\<lambda>i. pbkdf2_T (ascon_prf pw) (salt @ STORE32_BE (of_nat i)) (c - 1))" by (rule ext) (rule T_def)
  ultimately show ?thesis by simp
qed

lemma ascon_pbkdf2_eq:
  assumes "length salt = 16"
  shows "ascon_pbkdf2 n pw salt c = pbkdf2_spec (ascon_prf pw) 32 salt c n"
proof -
  have n: "n + 32 - 1 = n + 31" by simp
  show ?thesis
    unfolding ascon_pbkdf2_def pbkdf2_spec_def n using ascon_pbkdf2_blocks_eq [OF assms, of pw n c 1]
    by (simp only: of_nat_1)
qed

section \<open>The properties\<close>

text \<open>
  C21. both implementations of a round of the permutation, for 64-bit and for 32-bit machines, are the round of the specification of Ascon: the
  addition of the constant, the substitution of the 64 columns by the table of the S-box, and the linear layer.
\<close>

theorem ascon_rounds: "ASCON_ROUND s C = ascon_round_spec s C \<and> ASCON_ROUND32 s C = ascon_round_spec s C"
  by (simp add: ASCON_ROUND_spec ASCON_ROUND32_spec)

text \<open>
  C22. decryption accepts exactly what encryption produces, and gives back the message: for every key, nonce and associated data, whatever their length.
\<close>

theorem ascon_aead:
  "length tag = 16 \<Longrightarrow> ascon_aead_decrypt c ad tag nonce k = (m, 0) \<longleftrightarrow> ascon_aead_encrypt m ad nonce k = (c, tag)"
  using ascon_aead_roundtrip ascon_aead_accepts by blast

theorem ascon_aead_witness:
  "let (c, tag) = ascon_aead_encrypt [1, 2, 3] [] (replicate 16 7) (replicate 16 9)
   in length tag = 16 \<and> ascon_aead_decrypt c [] tag (replicate 16 7) (replicate 16 9) = ([1, 2, 3], 0)"
proof -
  obtain c tag where e: "ascon_aead_encrypt [1, 2, 3] [] (replicate 16 7) (replicate 16 9) = (c, tag)" by fastforce
  then have "length tag = 16" by (auto simp: ascon_aead_encrypt_def Let_def split: prod.splits)
  with e show ?thesis using ascon_aead [of tag c "[]" "replicate 16 7" "replicate 16 9" "[1, 2, 3]"] by simp
qed

text \<open>the key derivation is PBKDF2 with the customised extendable output of Ascon as its pseudorandom function.\<close>

theorem ascon_pbkdf2_correct: "length salt = 16 \<Longrightarrow> ascon_pbkdf2 n pw salt c = pbkdf2_spec (ascon_prf pw) 32 salt c n"
  by (rule ascon_pbkdf2_eq)

theorem ascon_pbkdf2_correct_witness:
  "ascon_pbkdf2 40 [0x70, 0x77] (replicate 16 1) 3 = pbkdf2_spec (ascon_prf [0x70, 0x77]) 32 (replicate 16 1) 3 40"
  by (rule ascon_pbkdf2_correct) simp

end
