(* ===== verification/Cipher_Ascon.thy ===== *)
theory Cipher_Ascon
  imports Page_Cipher Ascon
begin

text \<open>
  The page cipher with Ascon-128, \<^verbatim>\<open>src/src/cipher_ascon.c\<close>. A page ends with a tag of 16 and a nonce of 16 bytes; the key of a
  page is the Ascon hash of the key, the nonce and the page number, of which the encryption uses the first 16 bytes.
\<close>

record Ascon128Cipher =
  asc_kdfIter :: int
  asc_plaintextHeaderSize :: int
  asc_keyLength :: int
  asc_key :: bytes
  asc_salt :: bytes

definition AllocateAscon128Cipher :: "bool \<Rightarrow> mc_config \<Rightarrow> (Ascon128Cipher option \<times> mc_config) option" where
  "AllocateAscon128Cipher db s =
     (let (ok, s) = sqlite3_malloc s
      in if \<not> ok then Some (None, s)
         else case read_parameters (sqlite3mcGetCipherParams db ''ascon128'' s) [''kdf_iter'', ''plaintext_header_size''] s of
           Some ([kdfIter, headerSize], s) \<Rightarrow>
             Some (Some \<lparr>asc_kdfIter = kdfIter, asc_plaintextHeaderSize = headerSize, asc_keyLength = 32,
                         asc_key = replicate 32 0, asc_salt = replicate 16 0\<rparr>, s)
         | _ \<Rightarrow> None)"

definition FreeAscon128Cipher :: "Ascon128Cipher \<Rightarrow> Ascon128Cipher" where
  "FreeAscon128Cipher c = \<lparr>asc_kdfIter = 0, asc_plaintextHeaderSize = 0, asc_keyLength = 0, asc_key = replicate 32 0, asc_salt = replicate 16 0\<rparr>"

definition CloneAscon128Cipher :: "Ascon128Cipher \<Rightarrow> Ascon128Cipher \<Rightarrow> Ascon128Cipher" where
  "CloneAscon128Cipher cipherTo cipherFrom =
     cipherTo\<lparr>asc_kdfIter := asc_kdfIter cipherFrom, asc_plaintextHeaderSize := asc_plaintextHeaderSize cipherFrom,
       asc_keyLength := asc_keyLength cipherFrom, asc_key := memcpy_at (asc_key cipherTo) 0 (take 32 (asc_key cipherFrom)),
       asc_salt := memcpy_at (asc_salt cipherTo) 0 (take 16 (asc_salt cipherFrom))\<rparr>"

definition GetLegacyAscon128Cipher :: "Ascon128Cipher \<Rightarrow> int" where
  "GetLegacyAscon128Cipher c = 0"

definition GetPageSizeAscon128Cipher :: "Ascon128Cipher \<Rightarrow> int" where
  "GetPageSizeAscon128Cipher c = 0"

definition GetReservedAscon128Cipher :: "Ascon128Cipher \<Rightarrow> int" where
  "GetReservedAscon128Cipher c = 16 + 16"

definition GetSaltAscon128Cipher :: "Ascon128Cipher \<Rightarrow> bytes option" where
  "GetSaltAscon128Cipher c = Some (asc_salt c)"

definition GenerateKeyAscon128Cipher :: "Ascon128Cipher \<Rightarrow> bytes \<Rightarrow> int \<Rightarrow> bytes option \<Rightarrow> rng \<Rightarrow> (Ascon128Cipher \<times> rng) option" where
  "GenerateKeyAscon128Cipher c userPassword rekey cipherSalt r =
     (case new_salt (asc_plaintextHeaderSize c) rekey cipherSalt r of
        None \<Rightarrow> None
      | Some (salt, keyOnly, r) \<Rightarrow>
          let (bypass, key, salt) = sqlite3mcExtractRawKey userPassword keyOnly 32 16 (asc_key c) salt;
              key = (if bypass then key else ascon_pbkdf2 32 userPassword salt (nat (asc_kdfIter c mod 2 ^ 32)))
          in Some (c\<lparr>asc_key := key, asc_salt := salt\<rparr>, r))"

section \<open>Pages\<close>

definition ascon_offset :: "Ascon128Cipher \<Rightarrow> int \<Rightarrow> bool \<times> int" where
  "ascon_offset c page =
     (if page = 1 then
        let plaintextHeaderSize = asc_plaintextHeaderSize c
        in if plaintextHeaderSize > 0 then (True, if plaintextHeaderSize > 24 then plaintextHeaderSize else 24) else (False, 24)
      else (False, 0))"

definition ascon_nReserved :: "Ascon128Cipher \<Rightarrow> int \<Rightarrow> int" where
  "ascon_nReserved c reserved = (if reserved = 0 then 0 else GetReservedAscon128Cipher c)"

definition AsconGenOtk :: "bytes \<Rightarrow> bytes \<Rightarrow> int \<Rightarrow> bytes" where
  "AsconGenOtk key nonce page = ascon_hash (take 32 key @ take 16 nonce @ STORE32_BE (of_int page))"

definition EncryptPageAscon128Cipher :: "Ascon128Cipher \<Rightarrow> int \<Rightarrow> bytes \<Rightarrow> int \<Rightarrow> rng \<Rightarrow> (int \<times> bytes \<times> rng) option" where
  "EncryptPageAscon128Cipher c page data reserved r =
     (let nReserved = ascon_nReserved c reserved;
          n = nat (int (length data) - nReserved);
          (usePlaintextHeader, offset) = ascon_offset c page;
          offset = nat offset;
          add_salt = (\<lambda>data. if page = 1 \<and> \<not> usePlaintextHeader then memcpy_at data 0 (take 16 (asc_salt c)) else data)
      in if nReserved > reserved then Some (SQLITE_CORRUPT, data, r)
         else if int (length data) < nReserved + int offset then None
         else if nReserved > 0 then
           (case chacha20_rng 16 r of
              None \<Rightarrow> None
            | Some (nonce, r) \<Rightarrow>
                let data = memcpy_at data (n + 16) nonce;
                    otk = AsconGenOtk (asc_key c) (region (n + 16) 16 data) page;
                    (ctext, tag) = ascon_aead_encrypt (region offset (n - offset) data) [] (region (n + 16) 16 data) otk
                in Some (SQLITE_OK, add_salt (memcpy_at (memcpy_at data offset ctext) n tag), r))
         else
           let nonce = sqlite3mcGenerateInitialVector page;
               otk = AsconGenOtk (asc_key c) nonce page;
               (ctext, dummyTag) = ascon_aead_encrypt (region offset (n - offset) data) [] nonce otk
           in Some (SQLITE_OK, add_salt (memcpy_at data offset ctext), r))"

definition DecryptPageAscon128Cipher :: "Ascon128Cipher \<Rightarrow> int \<Rightarrow> bytes \<Rightarrow> int \<Rightarrow> bool \<Rightarrow> (int \<times> bytes) option" where
  "DecryptPageAscon128Cipher c page data reserved hmacCheck =
     (let nReserved = ascon_nReserved c reserved;
          n = nat (int (length data) - nReserved);
          (usePlaintextHeader, offset) = ascon_offset c page;
          offset = nat offset;
          add_header = (\<lambda>data. if page = 1 \<and> \<not> usePlaintextHeader then memcpy_at data 0 SQLITE_FILE_HEADER else data)
      in if nReserved > reserved then Some (page_error page, data)
         else if int (length data) < nReserved + int offset then None
         else if nReserved > 0 then
           let otk = AsconGenOtk (asc_key c) (region (n + 16) 16 data) page;
               (mtext, tagOk) = ascon_aead_decrypt (region offset (n - offset) data) [] (region n 16 data) (region (n + 16) 16 data) otk;
               data = memcpy_at data offset mtext;
               rc = (if hmacCheck \<and> tagOk \<noteq> 0 then page_error page else SQLITE_OK)
           in Some (rc, if rc = SQLITE_OK then add_header data else data)
         else
           let nonce = sqlite3mcGenerateInitialVector page;
               otk = AsconGenOtk (asc_key c) nonce page;
               (mtext, tagOk) = ascon_aead_decrypt (region offset (n - offset) data) [] (replicate 16 0) nonce otk
           in Some (SQLITE_OK, add_header (memcpy_at data offset mtext)))"

definition mcAscon128Descriptor :: "Ascon128Cipher CipherDescriptor" where
  "mcAscon128Descriptor = \<lparr>d_name = Some ''ascon128'', m_allocateCipher = Some AllocateAscon128Cipher, m_freeCipher = Some FreeAscon128Cipher,
     m_cloneCipher = Some CloneAscon128Cipher, m_getLegacy = Some GetLegacyAscon128Cipher, m_getPageSize = Some GetPageSizeAscon128Cipher,
     m_getReserved = Some GetReservedAscon128Cipher, m_getSalt = Some GetSaltAscon128Cipher, m_generateKey = Some GenerateKeyAscon128Cipher,
     m_encryptPage = Some EncryptPageAscon128Cipher, m_decryptPage = Some DecryptPageAscon128Cipher\<rparr>"

section \<open>The round trip of a page\<close>

definition ascon_usable :: "Ascon128Cipher \<Rightarrow> int \<Rightarrow> bytes \<Rightarrow> int \<Rightarrow> bool" where
  "ascon_usable c page data reserved \<longleftrightarrow>
     length (asc_salt c) = 16 \<and> ascon_nReserved c reserved \<le> reserved
     \<and> ascon_nReserved c reserved + snd (ascon_offset c page) \<le> int (length data)
     \<and> (page = 1 \<and> \<not> fst (ascon_offset c page) \<longrightarrow> take 16 data = SQLITE_FILE_HEADER)"

lemma ascon_offset_range: "0 \<le> snd (ascon_offset c page)" "page = 1 \<Longrightarrow> 24 \<le> snd (ascon_offset c page)"
  by (auto simp: ascon_offset_def Let_def)

lemma ascon_nReserved_cases: "ascon_nReserved c reserved = 0 \<or> ascon_nReserved c reserved = 32"
  by (simp add: ascon_nReserved_def GetReservedAscon128Cipher_def)

lemma ascon_aead_fst: "fst (ascon_aead_decrypt c ad tag nonce k) = fst (ascon_aead_decrypt c ad tag' nonce k)"
  by (simp add: ascon_aead_decrypt_def Let_def split_beta)

lemma length_aead_decrypt [bytes_len, simp]: "length (fst (ascon_aead_decrypt c ad tag nonce k)) = length c"
  by (simp add: ascon_aead_decrypt_def Let_def split_beta length_ascon_decrypt)

lemma ascon_restore:
  assumes bounds: "offset \<le> n" "n \<le> length data" "length x = length data" and page1: "page1 \<Longrightarrow> 16 \<le> offset \<and> take 16 data = SQLITE_FILE_HEADER"
    and x: "\<And>i. i < offset \<Longrightarrow> \<not> (page1 \<and> i < 16) \<Longrightarrow> x ! i = data ! i"
  defines "y \<equiv> memcpy_at x offset (region offset (n - offset) data)"
  shows "take n (if page1 then memcpy_at y 0 SQLITE_FILE_HEADER else y) = take n data"
proof (intro nth_equalityI)
  have len: "length y = length data" using bounds by (simp add: y_def)
  then show "length (take n (if page1 then memcpy_at y 0 SQLITE_FILE_HEADER else y)) = length (take n data)" using bounds page1 by auto
  fix i assume "i < length (take n (if page1 then memcpy_at y 0 SQLITE_FILE_HEADER else y))"
  then have i: "i < n" "i < length data" using bounds len page1 by auto
  have y: "y ! i = (if i < offset then x ! i else data ! i)"
    using i bounds by (auto simp: y_def nth_memcpy_at region_def)
  show "take n (if page1 then memcpy_at y 0 SQLITE_FILE_HEADER else y) ! i = take n data ! i"
  proof (cases "page1 \<and> i < 16")
    case True
    then have "SQLITE_FILE_HEADER ! i = data ! i" using page1 by (metis nth_take)
    then show ?thesis using True i len page1 bounds by (simp add: nth_memcpy_at)
  next
    case False
    then show ?thesis using x [of i] i y len page1 bounds by (auto simp: nth_memcpy_at)
  qed
qed

lemma ascon_page:
  assumes usable: "ascon_usable c page data reserved" and r: "rng_wf r"
    and enc: "EncryptPageAscon128Cipher c page data reserved r = Some (rc, data', r')"
  defines "n \<equiv> nat (int (length data) - ascon_nReserved c reserved)"
  shows "rc = SQLITE_OK \<and> length data' = length data \<and> rng_wf r' \<and>
    (\<exists>d. DecryptPageAscon128Cipher c page data' reserved check = Some (SQLITE_OK, d) \<and> length d = length data \<and> take n d = take n data)"
proof -
  obtain ph offset' where off: "ascon_offset c page = (ph, offset')" by fastforce
  define offset where "offset = nat offset'"
  define page1 where "page1 \<longleftrightarrow> page = 1 \<and> \<not> ph"
  have u: "length (asc_salt c) = 16" "\<not> ascon_nReserved c reserved > reserved"
    "ascon_nReserved c reserved + offset' \<le> int (length data)" "page1 \<Longrightarrow> take 16 data = SQLITE_FILE_HEADER"
    using usable off by (auto simp: ascon_usable_def page1_def)
  have o: "0 \<le> offset'" "page1 \<Longrightarrow> 24 \<le> offset" using ascon_offset_range [where c = c and page = page, unfolded off snd_conv] by (auto simp: page1_def offset_def)
  have bounds: "offset \<le> n" "n \<le> length data" "page1 \<Longrightarrow> 24 \<le> n"
    using u(3) o ascon_nReserved_cases [of c reserved] by (auto simp: n_def offset_def)
  have p16: "page1 \<Longrightarrow> 16 \<le> n" "page1 \<Longrightarrow> 16 \<le> offset" "page1 \<Longrightarrow> 16 \<le> length data" using bounds o by linarith+
  have guard: "\<not> int (length data) < ascon_nReserved c reserved + int offset" using u(3) o by (simp add: offset_def)
  define m where "m = region offset (n - offset) data"
  have lm: "length m = n - offset" using bounds by (simp add: m_def)
  define add_salt where "add_salt = (\<lambda>data. if page1 then memcpy_at data 0 (take 16 (asc_salt c)) else data)"
  have nth_salt: "add_salt x ! i = x ! i" if "i < length x" "\<not> (page1 \<and> i < 16)" "page1 \<Longrightarrow> 16 \<le> length x" for x i
    using that u(1) by (auto simp: add_salt_def nth_memcpy_at)
  have len_salt: "length (add_salt x) = length x" if "page1 \<Longrightarrow> 16 \<le> length x" for x
    using that u(1) by (auto simp: add_salt_def)
  have reg_salt: "region k l (add_salt x) = region k l x" if "page1 \<Longrightarrow> 16 \<le> k" "k + l \<le> length x" for k l x
    using that u(1) by (auto simp: add_salt_def region_memcpy_at_after)
  note run = enc [unfolded EncryptPageAscon128Cipher_def Let_def off prod.case, folded n_def offset_def page1_def, folded m_def]
  have dec: "DecryptPageAscon128Cipher c page x reserved check =
      (if ascon_nReserved c reserved > 0 then
        (case ascon_aead_decrypt (region offset (n - offset) x) [] (region n 16 x) (region (n + 16) 16 x)
            (AsconGenOtk (asc_key c) (region (n + 16) 16 x) page) of (mt, ok) \<Rightarrow>
          if check \<and> ok \<noteq> 0 then Some (page_error page, memcpy_at x offset mt)
          else Some (SQLITE_OK, if page1 then memcpy_at (memcpy_at x offset mt) 0 SQLITE_FILE_HEADER else memcpy_at x offset mt))
       else let mt = fst (ascon_aead_decrypt (region offset (n - offset) x) [] (replicate 16 0) (sqlite3mcGenerateInitialVector page)
            (AsconGenOtk (asc_key c) (sqlite3mcGenerateInitialVector page) page))
         in Some (SQLITE_OK, if page1 then memcpy_at (memcpy_at x offset mt) 0 SQLITE_FILE_HEADER else memcpy_at x offset mt))"
    if "length x = length data" for x
    using that u(2) guard unfolding DecryptPageAscon128Cipher_def Let_def off prod.case
    by (auto simp: n_def [symmetric] offset_def [symmetric] page1_def split: prod.splits)
  have restore: "take n (if page1 then memcpy_at (memcpy_at x offset m) 0 SQLITE_FILE_HEADER else memcpy_at x offset m) = take n data"
    if "length x = length data" "\<And>i. i < offset \<Longrightarrow> \<not> (page1 \<and> i < 16) \<Longrightarrow> x ! i = data ! i" for x
    using ascon_restore [of offset n data x page1] that bounds(1,2) o(2) u(4) by (fastforce simp: m_def)
  show ?thesis
  proof (cases "ascon_nReserved c reserved = 0")
    case True
    then have n: "n = length data" by (simp add: n_def)
    define iv where "iv = sqlite3mcGenerateInitialVector page"
    define otk where "otk = AsconGenOtk (asc_key c) iv page"
    obtain ct tag where ct: "ascon_aead_encrypt m [] iv otk = (ct, tag)" by fastforce
    have lct: "length ct = n - offset" using ascon_aead_roundtrip [OF ct] lm by simp
    have e: "rc = SQLITE_OK" "r' = r" "data' = add_salt (memcpy_at data offset ct)"
      using run u(2) guard True ct by (simp_all add: iv_def [symmetric] otk_def [symmetric] add_salt_def)
    have len: "length data' = length data" using bounds lct n p16 by (simp add: e len_salt)
    have "region offset (n - offset) data' = ct"
      using bounds lct n p16 by (simp add: e reg_salt region_memcpy_at_same_n)
    moreover have "fst (ascon_aead_decrypt ct [] (replicate 16 0) iv otk) = m"
      using ascon_aead_roundtrip [OF ct] ascon_aead_fst [of ct "[]" "replicate 16 0" iv otk tag] by simp
    moreover have "data' ! i = data ! i" if "i < offset" "\<not> (page1 \<and> i < 16)" for i
      using that bounds lct n p16 nth_salt [of i "memcpy_at data offset ct"] by (simp add: e nth_memcpy_at)
    ultimately have "DecryptPageAscon128Cipher c page data' reserved check = Some (SQLITE_OK,
        if page1 then memcpy_at (memcpy_at data' offset m) 0 SQLITE_FILE_HEADER else memcpy_at data' offset m)"
      and "take n (if page1 then memcpy_at (memcpy_at data' offset m) 0 SQLITE_FILE_HEADER else memcpy_at data' offset m) = take n data"
      using dec [OF len] restore [OF len] True by (simp_all add: iv_def otk_def Let_def)
    then show ?thesis using e(1,2) r len bounds lm n by auto
  next
    case False
    then have R: "ascon_nReserved c reserved = 32" using ascon_nReserved_cases [of c reserved] by simp
    then have n: "n + 32 = length data" using u(3) o(1) by (auto simp: n_def)
    obtain nonce where nonce: "chacha20_rng 16 r = Some (nonce, r')" "length nonce = 16" "rng_wf r'"
      using run u(2) guard chacha20_rng_length_wf [OF _ r] by (auto simp: R split: option.splits prod.splits)
    define d0 where "d0 = memcpy_at data (n + 16) nonce"
    define otk where "otk = AsconGenOtk (asc_key c) nonce page"
    obtain ct tag where ct: "ascon_aead_encrypt m [] nonce otk = (ct, tag)" by fastforce
    have lct: "length ct = n - offset" "length tag = 16" using ascon_aead_roundtrip [OF ct] lm by simp_all
    have d0: "length d0 = length data" "region (n + 16) 16 d0 = nonce" "region offset (n - offset) d0 = m"
      using n nonce bounds by (simp_all add: d0_def region_memcpy_at_same_n region_memcpy_at_before m_def)
    have e: "rc = SQLITE_OK" "data' = add_salt (memcpy_at (memcpy_at d0 offset ct) n tag)"
      using run u(2) guard nonce(1) ct d0(2) [unfolded d0_def] d0(3) [unfolded d0_def]
      by (cases page1; simp add: R d0_def otk_def [symmetric] add_salt_def)+
    have len: "length data' = length data" using bounds lct n p16 d0 by (simp add: e len_salt)
    have "region offset (n - offset) data' = ct" "region n 16 data' = tag" "region (n + 16) 16 data' = nonce"
      using bounds lct n p16 d0
      by (simp_all add: e reg_salt region_memcpy_at_same_n region_memcpy_at_before region_memcpy_at_after)
    moreover have "ascon_aead_decrypt ct [] tag nonce otk = (m, 0)" using ascon_aead_roundtrip [OF ct] by simp
    moreover have "data' ! i = data ! i" if "i < offset" "\<not> (page1 \<and> i < 16)" for i
      using that bounds lct n p16 d0(1) nonce(2) nth_salt [of i "memcpy_at (memcpy_at d0 offset ct) n tag"]
      by (simp add: e nth_memcpy_at d0_def)
    ultimately have "DecryptPageAscon128Cipher c page data' reserved check = Some (SQLITE_OK,
        if page1 then memcpy_at (memcpy_at data' offset m) 0 SQLITE_FILE_HEADER else memcpy_at data' offset m)"
      and "take n (if page1 then memcpy_at (memcpy_at data' offset m) 0 SQLITE_FILE_HEADER else memcpy_at data' offset m) = take n data"
      using dec [OF len] restore [OF len] by (simp_all add: R otk_def)
    then show ?thesis using e(1) nonce(3) len bounds lm n by auto
  qed
qed

interpretation ascon: page_cipher EncryptPageAscon128Cipher DecryptPageAscon128Cipher ascon_usable
proof
  fix c page data reserved r rc data' r'
  assume A: "ascon_usable c page data reserved" "rng_wf r" "EncryptPageAscon128Cipher c page data reserved r = Some (rc, data', r')"
  show "rc = SQLITE_OK \<and> length data' = length data \<and> rng_wf r'" using ascon_page [OF A] by blast
  fix check
  have le: "length data - nat reserved \<le> nat (int (length data) - ascon_nReserved c reserved)"
    using A(1) by (auto simp: ascon_usable_def)
  obtain d where d: "DecryptPageAscon128Cipher c page data' reserved check = Some (SQLITE_OK, d)" "length d = length data"
    "take (nat (int (length data) - ascon_nReserved c reserved)) d = take (nat (int (length data) - ascon_nReserved c reserved)) data"
    using ascon_page [OF A, of check] by blast
  moreover from arg_cong [OF d(3), of "take (length data - nat reserved)"] le
  have "take (length data - nat reserved) d = take (length data - nat reserved) data" by (simp add: min_absorb1)
  ultimately show "\<exists>d. DecryptPageAscon128Cipher c page data' reserved check = Some (SQLITE_OK, d) \<and> length d = length data
        \<and> take (length data - nat reserved) d = take (length data - nat reserved) data" by blast
qed

definition new_ascon :: Ascon128Cipher where
  "new_ascon = \<lparr>asc_kdfIter = 64007, asc_plaintextHeaderSize = 0, asc_keyLength = 32, asc_key = replicate 32 0, asc_salt = replicate 16 0\<rparr>"

text \<open>
  C23. Encrypting the pages of a database in sequence with Ascon, each with a fresh nonce, and decrypting
  them gives all pages back, with and without the check of the authentication codes; only the reserved
  bytes at the end of the pages change.
\<close>

theorem ascon_file_roundtrip:
  assumes "\<forall>p \<in> set ps. ascon_usable c (fst p) (snd p) reserved" and "rng_wf r"
    and "ascon.encrypt_file c reserved ps r = Some (es, r')"
  shows "length es = length ps \<and> (\<forall>k < length ps. fst (es ! k) = fst (ps ! k) \<and>
    (\<exists>d. DecryptPageAscon128Cipher c (fst (ps ! k)) (snd (es ! k)) reserved check = Some (SQLITE_OK, d)
      \<and> take (length d - nat reserved) d = take (length (snd (ps ! k)) - nat reserved) (snd (ps ! k))))"
  using ascon.file_roundtrip [OF assms, of check]
  by (auto simp: list_all2_conv_all_nth ascon.decrypts_to_def)

theorem ascon_file_roundtrip_witness:
  "\<exists>es r'. ascon.encrypt_file new_ascon 32 [(2, replicate 64 7)] full_rng = Some (es, r')
    \<and> (\<exists>d. DecryptPageAscon128Cipher new_ascon 2 (snd (es ! 0)) 32 True = Some (SQLITE_OK, d)
        \<and> take (length d - 32) d = replicate 32 7)"
proof -
  have usable: "ascon_usable new_ascon 2 (replicate 64 7) 32"
    by (simp add: ascon_usable_def new_ascon_def ascon_nReserved_def GetReservedAscon128Cipher_def ascon_offset_def)
  obtain rc e s where e: "EncryptPageAscon128Cipher new_ascon 2 (replicate 64 7) 32 full_rng = Some (rc, e, s)"
    by (simp add: EncryptPageAscon128Cipher_def Let_def ascon_nReserved_def GetReservedAscon128Cipher_def ascon_offset_def split_beta)
  then have "rc = SQLITE_OK" using ascon.enc_ok [OF usable full_rng(1) e] by simp
  with e have f: "ascon.encrypt_file new_ascon 32 [(2, replicate 64 7)] full_rng = Some ([(2, e)], s)" by simp
  from ascon_file_roundtrip [OF _ full_rng(1) f, of True] usable f show ?thesis by auto
qed

end
