(* ===== verification/Codec.thy ===== *)
theory Codec
  imports Page_Cipher "HOL-Library.Monad_Syntax"
begin

text \<open>
  The codec of a database file, \<^verbatim>\<open>struct _Codec\<close> with its operations in \<^verbatim>\<open>src/src/cipher_common.c\<close>, and the
  function \<^verbatim>\<open>sqlite3mcCodec\<close> of \<^verbatim>\<open>src/src/codecext.c\<close> that encrypts and decrypts the pages. A codec holds
  two cipher objects, one for reading and one for writing, each with the number of its cipher; all calls
  of cipher methods go through \<^verbatim>\<open>globalCodecDescriptorTable\<close> at that number.

  An operation gives \<open>None\<close> when it runs into undefined behaviour: an index outside of the descriptor table, a
  method that is NULL, a NULL object, or a method that itself gives \<open>None\<close>.
\<close>

section \<open>State\<close>

text \<open>
  The page buffer \<^verbatim>\<open>m_page\<close> is not part of the state: no content is left in it from one call to the next.
  \<open>m_btShared\<close> is the index of an entry of \<open>e_bts\<close>.
\<close>

record 'c Codec =
  m_isEncrypted :: bool
  m_hmacCheck :: int
  m_walLegacy :: int
  m_hasReadCipher :: bool
  m_readCipherType :: int
  m_readCipher :: "'c option"
  m_readReserved :: int
  m_hasWriteCipher :: bool
  m_writeCipherType :: int
  m_writeCipher :: "'c option"
  m_writeReserved :: int
  m_db :: bool
  m_btShared :: "nat option"
  m_pageSize :: int
  m_reserved :: int
  m_lastError :: int
  m_hasKeySalt :: bool
  m_keySalt :: bytes

text \<open>
  What the code uses of a \<^verbatim>\<open>BtShared\<close> and of its pager: the page sizes, the error state, the number of times the cache was
  cleared, and the first bytes of the file as the pager reads them (\<open>None\<close> when it is not open or shorter).
\<close>

record BtShared =
  bt_pageSize :: int
  bt_usableSize :: int
  bt_nReserveWanted :: int
  bt_pageSizeFixed :: bool
  pg_pageSize :: int
  pg_nReserve :: int
  pg_header :: "bytes option"
  pg_errCode :: int
  pg_error :: bool
  pg_cacheClears :: nat

text \<open>
  The environment of the codecs of a connection: the cipher tables, the random number generator, the B-trees and the error code of the
  connection. \<open>e_released\<close> collects the contents of the cipher objects that were given back to the allocator.
\<close>

record 'c mc_env =
  e_reg :: "'c mc_registry"
  e_rng :: rng
  e_bts :: "BtShared list"
  e_errCode :: int
  e_released :: "'c list"

section \<open>Calls of the methods of a cipher\<close>

definition descriptor :: "'c mc_env \<Rightarrow> int \<Rightarrow> 'c CipherDescriptor option" where
  "descriptor e cipherType =
     (if 1 \<le> cipherType \<and> cipherType \<le> int (length (reg_desc (e_reg e)))
      then Some (reg_desc (e_reg e) ! nat (cipherType - 1)) else None)"

definition cipher_method :: "('c CipherDescriptor \<Rightarrow> 'm option) \<Rightarrow> 'c mc_env \<Rightarrow> int \<Rightarrow> 'm option" where
  "cipher_method m e cipherType = descriptor e cipherType \<bind> m"

definition allocate_cipher :: "int \<Rightarrow> bool \<Rightarrow> 'c mc_env \<Rightarrow> ('c option \<times> 'c mc_env) option" where
  "allocate_cipher cipherType db e = do {
     allocate \<leftarrow> cipher_method m_allocateCipher e cipherType;
     (c, s) \<leftarrow> allocate db (reg_cfg (e_reg e));
     Some (c, e\<lparr>e_reg := (e_reg e)\<lparr>reg_cfg := s\<rparr>\<rparr>)
   }"

definition free_cipher :: "int \<Rightarrow> 'c \<Rightarrow> 'c mc_env \<Rightarrow> 'c mc_env option" where
  "free_cipher cipherType c e = do {
     free \<leftarrow> cipher_method m_freeCipher e cipherType;
     Some (e\<lparr>e_released := free c # e_released e\<rparr>)
   }"

definition clone_cipher :: "int \<Rightarrow> 'c option \<Rightarrow> 'c option \<Rightarrow> 'c mc_env \<Rightarrow> 'c option" where
  "clone_cipher cipherType cipherTo cipherFrom e = do {
     clone \<leftarrow> cipher_method m_cloneCipher e cipherType;
     to \<leftarrow> cipherTo;
     from' \<leftarrow> cipherFrom;
     Some (clone to from')
   }"

text \<open>The salt of the key derivation: the given one, or that of the database file.\<close>

definition mcReadDatabaseHeader :: "'c Codec \<Rightarrow> 'c mc_env \<Rightarrow> bytes option option" where
  "mcReadDatabaseHeader codec e =
     (case m_btShared codec of
        None \<Rightarrow> None
      | Some b \<Rightarrow> if b < length (e_bts e) then Some (pg_header (e_bts e ! b)) else None)"

definition generate_key :: "int \<Rightarrow> 'c option \<Rightarrow> bytes \<Rightarrow> int \<Rightarrow> bytes option \<Rightarrow> 'c Codec \<Rightarrow> 'c mc_env \<Rightarrow> ('c \<times> 'c mc_env) option" where
  "generate_key cipherType cipher userPassword rekey cipherSalt codec e = do {
     dbHeader \<leftarrow> (if cipherSalt = None then mcReadDatabaseHeader codec e else Some cipherSalt);
     generate \<leftarrow> cipher_method m_generateKey e cipherType;
     c \<leftarrow> cipher;
     (c, r) \<leftarrow> generate c userPassword rekey dbHeader (e_rng e);
     Some (c, e\<lparr>e_rng := r\<rparr>)
   }"

section \<open>Operations on codecs\<close>

text \<open>\<^verbatim>\<open>sqlite3mcCodecInit\<close> sets every field; its argument is NULL when \<^verbatim>\<open>sqlite3_malloc\<close> failed.\<close>

definition new_codec :: "'c Codec" where
  "new_codec = \<lparr>m_isEncrypted = False, m_hmacCheck = 1, m_walLegacy = 0, m_hasReadCipher = False, m_readCipherType = 0,
     m_readCipher = None, m_readReserved = -1, m_hasWriteCipher = False, m_writeCipherType = 0, m_writeCipher = None,
     m_writeReserved = -1, m_db = False, m_btShared = None, m_pageSize = 0, m_reserved = 0, m_lastError = SQLITE_OK,
     m_hasKeySalt = False, m_keySalt = replicate 16 0\<rparr>"

definition sqlite3mcCodecInit :: "'c Codec option \<Rightarrow> int \<times> 'c Codec option" where
  "sqlite3mcCodecInit codec = (case codec of None \<Rightarrow> (SQLITE_NOMEM, None) | Some _ \<Rightarrow> (SQLITE_OK, Some new_codec))"

definition free_opt :: "int \<Rightarrow> 'c option \<Rightarrow> 'c mc_env \<Rightarrow> 'c mc_env option" where
  "free_opt cipherType cipher e = (case cipher of None \<Rightarrow> Some e | Some c \<Rightarrow> free_cipher cipherType c e)"

text \<open>After \<^verbatim>\<open>sqlite3mcCodecTerm\<close> all bytes of the structure are zero.\<close>

definition zero_codec :: "'c Codec" where
  "zero_codec = \<lparr>m_isEncrypted = False, m_hmacCheck = 0, m_walLegacy = 0, m_hasReadCipher = False, m_readCipherType = 0,
     m_readCipher = None, m_readReserved = 0, m_hasWriteCipher = False, m_writeCipherType = 0, m_writeCipher = None,
     m_writeReserved = 0, m_db = False, m_btShared = None, m_pageSize = 0, m_reserved = 0, m_lastError = SQLITE_OK,
     m_hasKeySalt = False, m_keySalt = replicate 16 0\<rparr>"

definition sqlite3mcCodecTerm :: "'c Codec \<Rightarrow> 'c mc_env \<Rightarrow> ('c Codec \<times> 'c mc_env) option" where
  "sqlite3mcCodecTerm codec e = do {
     e \<leftarrow> free_opt (m_readCipherType codec) (m_readCipher codec) e;
     e \<leftarrow> free_opt (m_writeCipherType codec) (m_writeCipher codec) e;
     Some (zero_codec, e)
   }"

definition sqlite3mcClearKeySalt :: "'c Codec \<Rightarrow> 'c Codec" where
  "sqlite3mcClearKeySalt codec = codec\<lparr>m_hasKeySalt := False, m_keySalt := replicate 16 0\<rparr>"

definition key_salt :: "'c Codec \<Rightarrow> bytes option" where
  "key_salt codec = (if m_hasKeySalt codec then Some (m_keySalt codec) else None)"

definition sqlite3mcGenerateReadKey :: "'c Codec \<Rightarrow> bytes \<Rightarrow> bytes option \<Rightarrow> 'c mc_env \<Rightarrow> ('c Codec \<times> 'c mc_env) option" where
  "sqlite3mcGenerateReadKey codec userPassword cipherSalt e = do {
     (c, e) \<leftarrow> generate_key (m_readCipherType codec) (m_readCipher codec) userPassword 0 cipherSalt codec e;
     Some (codec\<lparr>m_readCipher := Some c\<rparr>, e)
   }"

definition sqlite3mcGenerateWriteKey :: "'c Codec \<Rightarrow> bytes \<Rightarrow> bytes option \<Rightarrow> bool \<Rightarrow> 'c mc_env \<Rightarrow> ('c Codec \<times> 'c mc_env) option" where
  "sqlite3mcGenerateWriteKey codec userPassword cipherSalt usesWal e = do {
     (c, e) \<leftarrow> generate_key (m_writeCipherType codec) (m_writeCipher codec) userPassword (if usesWal then 2 else 1) cipherSalt codec e;
     Some (codec\<lparr>m_writeCipher := Some c\<rparr>, e)
   }"

text \<open>
  \<^verbatim>\<open>sqlite3mcCopyCipher\<close>; the flag says that the read cipher is copied to the write cipher. Both directions take the same steps:
  an object of another cipher is released, a missing one allocated, and the contents are cloned.
\<close>

definition copy_slot :: "int \<Rightarrow> 'c option \<Rightarrow> int \<Rightarrow> 'c option \<Rightarrow> bool \<Rightarrow> 'c mc_env \<Rightarrow> (int \<times> int \<times> 'c option \<times> 'c mc_env) option" where
  "copy_slot toType to fromType from' db e = do {
     (to, e) \<leftarrow> (if to \<noteq> None \<and> toType \<noteq> fromType then do { e \<leftarrow> free_opt toType to e; Some (None, e) } else Some (to, e));
     (toType, to, e) \<leftarrow> (if to = None then do { (c, e) \<leftarrow> allocate_cipher fromType db e; Some (fromType, c, e) } else Some (toType, to, e));
     if to \<noteq> None then do { c \<leftarrow> clone_cipher toType to from' e; Some (SQLITE_OK, toType, Some c, e) }
     else Some (SQLITE_NOMEM, toType, None, e)
   }"

definition sqlite3mcCopyCipher :: "'c Codec \<Rightarrow> bool \<Rightarrow> 'c mc_env \<Rightarrow> (int \<times> 'c Codec \<times> 'c mc_env) option" where
  "sqlite3mcCopyCipher codec read2write e =
     (if read2write then do {
        (rc, ty, c, e) \<leftarrow> copy_slot (m_writeCipherType codec) (m_writeCipher codec) (m_readCipherType codec) (m_readCipher codec) (m_db codec) e;
        Some (rc, codec\<lparr>m_writeCipherType := ty, m_writeCipher := c\<rparr>, e)
      } else do {
        (rc, ty, c, e) \<leftarrow> copy_slot (m_readCipherType codec) (m_readCipher codec) (m_writeCipherType codec) (m_writeCipher codec) (m_db codec) e;
        Some (rc, codec\<lparr>m_readCipherType := ty, m_readCipher := c\<rparr>, e)
      })"

text \<open>One parameter of the global entry.\<close>

definition global_parameter :: "bool \<Rightarrow> string \<Rightarrow> 'c mc_env \<Rightarrow> (int \<times> 'c mc_env) option" where
  "global_parameter db name e = do {
     (v, s) \<leftarrow> read_parameter (sqlite3mcGetCipherParams db ''global'' (reg_cfg (e_reg e))) name (reg_cfg (e_reg e));
     Some (v, e\<lparr>e_reg := (e_reg e)\<lparr>reg_cfg := s\<rparr>\<rparr>)
   }"

definition sqlite3mcCodecSetup :: "'c Codec \<Rightarrow> int \<Rightarrow> bytes \<Rightarrow> 'c mc_env \<Rightarrow> (int \<times> 'c Codec \<times> 'c mc_env) option" where
  "sqlite3mcCodecSetup codec cipherType userPassword e =
     (if cipherType \<le> 0 then Some (SQLITE_ERROR, codec, e)
      else do {
        (hmacCheck, e) \<leftarrow> global_parameter (m_db codec) ''hmac_check'' e;
        (walLegacy, e) \<leftarrow> global_parameter (m_db codec) ''mc_legacy_wal'' e;
        (c, e) \<leftarrow> allocate_cipher cipherType (m_db codec) e;
        let codec = codec\<lparr>m_isEncrypted := True, m_hmacCheck := hmacCheck, m_walLegacy := walLegacy, m_hasReadCipher := True,
                          m_hasWriteCipher := True, m_readCipherType := cipherType, m_readCipher := c\<rparr>;
        if c \<noteq> None then do {
          (codec, e) \<leftarrow> sqlite3mcGenerateReadKey codec userPassword (key_salt codec) e;
          sqlite3mcCopyCipher codec True e
        } else Some (SQLITE_NOMEM, codec, e)
      })"

definition sqlite3mcSetupWriteCipher :: "'c Codec \<Rightarrow> int \<Rightarrow> bytes \<Rightarrow> bool \<Rightarrow> 'c mc_env \<Rightarrow> (int \<times> 'c Codec \<times> 'c mc_env) option" where
  "sqlite3mcSetupWriteCipher codec cipherType userPassword usesWal e =
     (if cipherType \<le> 0 then Some (SQLITE_ERROR, codec, e)
      else do {
        e \<leftarrow> free_opt (m_writeCipherType codec) (m_writeCipher codec) e;
        (hmacCheck, e) \<leftarrow> global_parameter (m_db codec) ''hmac_check'' e;
        (walLegacy, e) \<leftarrow> global_parameter (m_db codec) ''mc_legacy_wal'' e;
        (c, e) \<leftarrow> allocate_cipher cipherType (m_db codec) e;
        let codec = codec\<lparr>m_isEncrypted := True, m_hmacCheck := hmacCheck, m_walLegacy := walLegacy,
                          m_hasWriteCipher := True, m_writeCipherType := cipherType, m_writeCipher := c\<rparr>;
        if c \<noteq> None then do {
          (codec, e) \<leftarrow> sqlite3mcGenerateWriteKey codec userPassword (key_salt codec) usesWal e;
          Some (SQLITE_OK, codec, e)
        } else Some (SQLITE_NOMEM, codec, e)
      })"

text \<open>\<^verbatim>\<open>sqlite3mcCodecCopy\<close>: the cipher objects are allocated for the connection of the target, before its \<^verbatim>\<open>m_db\<close> is overwritten.\<close>

definition copy_object :: "bool \<Rightarrow> int \<Rightarrow> bool \<Rightarrow> 'c option \<Rightarrow> 'c mc_env \<Rightarrow> (int \<times> 'c option \<times> 'c mc_env) option" where
  "copy_object has cipherType db cipherFrom e =
     (if has then do {
        (c, e) \<leftarrow> allocate_cipher cipherType db e;
        if c \<noteq> None then do { c \<leftarrow> clone_cipher cipherType c cipherFrom e; Some (SQLITE_OK, Some c, e) }
        else Some (SQLITE_NOMEM, None, e)
      } else Some (SQLITE_OK, None, e))"

definition sqlite3mcCodecCopy :: "'c Codec \<Rightarrow> 'c Codec \<Rightarrow> 'c mc_env \<Rightarrow> (int \<times> 'c Codec \<times> 'c mc_env) option" where
  "sqlite3mcCodecCopy codec other e = do {
     (rc1, r, e) \<leftarrow> copy_object (m_hasReadCipher other) (m_readCipherType other) (m_db codec) (m_readCipher other) e;
     (rc2, w, e) \<leftarrow> copy_object (m_hasWriteCipher other) (m_writeCipherType other) (m_db codec) (m_writeCipher other) e;
     Some (if rc2 \<noteq> SQLITE_OK then rc2 else rc1,
       codec\<lparr>m_isEncrypted := m_isEncrypted other, m_hmacCheck := m_hmacCheck other, m_walLegacy := m_walLegacy other,
         m_hasReadCipher := m_hasReadCipher other, m_hasWriteCipher := m_hasWriteCipher other,
         m_readCipherType := m_readCipherType other, m_writeCipherType := m_writeCipherType other,
         m_readCipher := r, m_writeCipher := w, m_readReserved := m_readReserved other, m_writeReserved := m_writeReserved other,
         m_db := m_db other, m_btShared := m_btShared other, m_lastError := SQLITE_OK\<rparr>, e)
   }"

text \<open>The functions that ask a cipher object; \<open>absent\<close> is the result when the codec has none.\<close>

definition ask_cipher :: "('c CipherDescriptor \<Rightarrow> ('c \<Rightarrow> 'a) option) \<Rightarrow> 'a \<Rightarrow> bool \<Rightarrow> int \<Rightarrow> 'c option \<Rightarrow> 'c mc_env \<Rightarrow> 'a option" where
  "ask_cipher m absent has cipherType cipher e =
     (case cipher of
        Some c \<Rightarrow> if has then map_option (\<lambda>f. f c) (cipher_method m e cipherType) else Some absent
      | None \<Rightarrow> Some absent)"

definition ask_read :: "('c CipherDescriptor \<Rightarrow> ('c \<Rightarrow> 'a) option) \<Rightarrow> 'a \<Rightarrow> 'c Codec \<Rightarrow> 'c mc_env \<Rightarrow> 'a option" where
  "ask_read m absent codec = ask_cipher m absent (m_hasReadCipher codec) (m_readCipherType codec) (m_readCipher codec)"

definition ask_write :: "('c CipherDescriptor \<Rightarrow> ('c \<Rightarrow> 'a) option) \<Rightarrow> 'a \<Rightarrow> 'c Codec \<Rightarrow> 'c mc_env \<Rightarrow> 'a option" where
  "ask_write m absent codec = ask_cipher m absent (m_hasWriteCipher codec) (m_writeCipherType codec) (m_writeCipher codec)"

definition sqlite3mcGetLegacyReadCipher :: "'c Codec \<Rightarrow> 'c mc_env \<Rightarrow> int option" where
  "sqlite3mcGetLegacyReadCipher = ask_read m_getLegacy 0"

definition sqlite3mcGetLegacyWriteCipher :: "'c Codec \<Rightarrow> 'c mc_env \<Rightarrow> int option" where
  "sqlite3mcGetLegacyWriteCipher = ask_write m_getLegacy (-1)"

definition sqlite3mcGetPageSizeReadCipher :: "'c Codec \<Rightarrow> 'c mc_env \<Rightarrow> int option" where
  "sqlite3mcGetPageSizeReadCipher = ask_read m_getPageSize (-1)"

definition sqlite3mcGetPageSizeWriteCipher :: "'c Codec \<Rightarrow> 'c mc_env \<Rightarrow> int option" where
  "sqlite3mcGetPageSizeWriteCipher = ask_write m_getPageSize (-1)"

definition sqlite3mcGetReservedReadCipher :: "'c Codec \<Rightarrow> 'c mc_env \<Rightarrow> int option" where
  "sqlite3mcGetReservedReadCipher = ask_read m_getReserved (-1)"

definition sqlite3mcGetReservedWriteCipher :: "'c Codec \<Rightarrow> 'c mc_env \<Rightarrow> int option" where
  "sqlite3mcGetReservedWriteCipher = ask_write m_getReserved (-1)"

definition sqlite3mcReservedEqual :: "'c Codec \<Rightarrow> 'c mc_env \<Rightarrow> bool option" where
  "sqlite3mcReservedEqual codec e = do {
     readReserved \<leftarrow> sqlite3mcGetReservedReadCipher codec e;
     writeReserved \<leftarrow> sqlite3mcGetReservedWriteCipher codec e;
     Some (readReserved = writeReserved)
   }"

definition sqlite3mcGetSaltWriteCipher :: "'c Codec \<Rightarrow> 'c mc_env \<Rightarrow> bytes option option" where
  "sqlite3mcGetSaltWriteCipher = ask_write m_getSalt None"

section \<open>Pages\<close>

definition bt_shared :: "'c Codec \<Rightarrow> 'c mc_env \<Rightarrow> BtShared option" where
  "bt_shared codec e =
     (case m_btShared codec of None \<Rightarrow> None | Some b \<Rightarrow> if b < length (e_bts e) then Some (e_bts e ! b) else None)"

definition sqlite3mcGetPageSize :: "'c Codec \<Rightarrow> 'c mc_env \<Rightarrow> int option" where
  "sqlite3mcGetPageSize codec e = map_option bt_pageSize (bt_shared codec e)"

definition write_reserved :: "'c Codec \<Rightarrow> int" where
  "write_reserved codec = (if m_writeReserved codec \<ge> 0 then m_writeReserved codec else m_reserved codec)"

definition read_reserved :: "'c Codec \<Rightarrow> int" where
  "read_reserved codec = (if m_readReserved codec \<ge> 0 then m_readReserved codec else m_reserved codec)"

definition sqlite3mcEncrypt :: "'c Codec \<Rightarrow> int \<Rightarrow> bytes \<Rightarrow> bool \<Rightarrow> 'c mc_env \<Rightarrow> (int \<times> bytes \<times> 'c mc_env) option" where
  "sqlite3mcEncrypt codec page data useWriteKey e = do {
     let cipherType = (if useWriteKey then m_writeCipherType codec else m_readCipherType codec);
     let reserved = (if useWriteKey then write_reserved codec else read_reserved codec);
     encryptPage \<leftarrow> cipher_method m_encryptPage e cipherType;
     cipher \<leftarrow> (if useWriteKey then m_writeCipher codec else m_readCipher codec);
     (rc, data, r) \<leftarrow> encryptPage cipher page data reserved (e_rng e);
     Some (rc, data, e\<lparr>e_rng := r\<rparr>)
   }"

definition sqlite3mcDecrypt :: "'c Codec \<Rightarrow> int \<Rightarrow> bytes \<Rightarrow> 'c mc_env \<Rightarrow> (int \<times> bytes) option" where
  "sqlite3mcDecrypt codec page data e = do {
     decryptPage \<leftarrow> cipher_method m_decryptPage e (m_readCipherType codec);
     cipher \<leftarrow> m_readCipher codec;
     decryptPage cipher page data (read_reserved codec) (m_hmacCheck codec \<noteq> 0)
   }"

definition mcReportCodecError :: "nat option \<Rightarrow> int \<Rightarrow> 'c mc_env \<Rightarrow> 'c mc_env option" where
  "mcReportCodecError bt error e =
     (case bt of
        None \<Rightarrow> None
      | Some b \<Rightarrow>
          if b < length (e_bts e) then
            let p = (e_bts e ! b)\<lparr>pg_errCode := error\<rparr>;
                p = (if error \<noteq> SQLITE_OK then p\<lparr>pg_error := True\<rparr> else p\<lparr>pg_cacheClears := pg_cacheClears p + 1\<rparr>)
            in Some (e\<lparr>e_errCode := error, e_bts := (e_bts e)[b := p]\<rparr>)
          else None)"

definition report_failure :: "'c Codec \<Rightarrow> int \<Rightarrow> 'c mc_env \<Rightarrow> 'c mc_env option" where
  "report_failure codec rc e = (if rc \<noteq> SQLITE_OK then mcReportCodecError (m_btShared codec) rc e else Some e)"

text \<open>
  The two cases of \<^verbatim>\<open>sqlite3mcCodec\<close> that work on a page. Loading changes the buffer of the caller in place; a page that
  cannot be decrypted is set to zero. Storing works on a copy in the page buffer of the codec, whose size limits the page.
\<close>

definition codec_load :: "'c Codec \<Rightarrow> bytes \<Rightarrow> int \<Rightarrow> nat \<Rightarrow> 'c mc_env \<Rightarrow> (bytes \<times> 'c Codec \<times> 'c mc_env) option" where
  "codec_load codec data page n e =
     (if length data < n then None
      else do {
        (rc, d) \<leftarrow> sqlite3mcDecrypt codec page (take n data) e;
        e \<leftarrow> report_failure codec rc e;
        Some (memcpy_at data 0 (if rc \<noteq> SQLITE_OK then replicate n 0 else d), codec\<lparr>m_lastError := rc\<rparr>, e)
      })"

definition codec_store :: "'c Codec \<Rightarrow> bytes \<Rightarrow> int \<Rightarrow> nat \<Rightarrow> bool \<Rightarrow> 'c mc_env \<Rightarrow> (bytes \<times> 'c Codec \<times> 'c mc_env) option" where
  "codec_store codec data page n useWriteKey e =
     (if length data < n \<or> n > 65536 + 20 then None
      else do {
        (rc, d, e) \<leftarrow> sqlite3mcEncrypt codec page (take n data) useWriteKey e;
        e \<leftarrow> report_failure codec rc e;
        Some (d, codec\<lparr>m_lastError := rc\<rparr>, e)
      })"

text \<open>\<^verbatim>\<open>sqlite3mcCodec\<close> gives the content that the caller finds at the returned address.\<close>

definition sqlite3mcCodec :: "'c Codec option \<Rightarrow> bytes \<Rightarrow> int \<Rightarrow> nat \<Rightarrow> 'c mc_env \<Rightarrow> (bytes \<times> 'c Codec option \<times> 'c mc_env) option" where
  "sqlite3mcCodec codecArg data page mode e =
     (case codecArg of
        None \<Rightarrow> Some (data, None, e)
      | Some codec \<Rightarrow>
          map_option (\<lambda>(d, codec, e). (d, Some codec, e))
            (if \<not> m_isEncrypted codec then Some (data, codec\<lparr>m_lastError := SQLITE_OK\<rparr>, e)
             else case sqlite3mcGetPageSize codec e of
               None \<Rightarrow> None
             | Some pageSize \<Rightarrow>
                 if (mode = 0 \<or> mode = 2 \<or> mode = 3) \<and> m_hasReadCipher codec then codec_load codec data page (nat pageSize) e
                 else if mode = 6 \<and> m_hasWriteCipher codec then codec_store codec data page (nat pageSize) True e
                 else if mode = 7 \<and> m_hasReadCipher codec then codec_store codec data page (nat pageSize) False e
                 else Some (data, codec\<lparr>m_lastError := SQLITE_OK\<rparr>, e)))"

section \<open>What the codec relies on\<close>

text \<open>
  The contract of the ciphers in a descriptor table \<open>ds\<close>, of which the first \<open>count\<close> entries are in use, besides that of
  their pages: \<open>tag c\<close> is the number of the cipher whose objects look like \<open>c\<close>, \<open>obj_ok c\<close> that its arrays have their size, and
  \<open>wiped c\<close> that it holds no key.
\<close>

locale cipher_table = page_cipher enc dec usable
  for enc :: "'c \<Rightarrow> int \<Rightarrow> bytes \<Rightarrow> int \<Rightarrow> rng \<Rightarrow> (int \<times> bytes \<times> rng) option"
    and dec :: "'c \<Rightarrow> int \<Rightarrow> bytes \<Rightarrow> int \<Rightarrow> bool \<Rightarrow> (int \<times> bytes) option"
    and usable :: "'c \<Rightarrow> int \<Rightarrow> bytes \<Rightarrow> int \<Rightarrow> bool" +
  fixes ds :: "'c CipherDescriptor list"
    and count :: int
    and tag :: "'c \<Rightarrow> int"
    and obj_ok :: "'c \<Rightarrow> bool"
    and wiped :: "'c \<Rightarrow> bool"
  assumes count_ds: "count \<le> int (length ds)"
    and registered: "1 \<le> ty \<Longrightarrow> ty \<le> count \<Longrightarrow> all_methods (ds ! nat (ty - 1))"
    and unregistered: "count < ty \<Longrightarrow> ty \<le> int (length ds) \<Longrightarrow> ds ! nat (ty - 1) = mcSentinelDescriptor"
    and allocated: "1 \<le> ty \<Longrightarrow> ty \<le> count \<Longrightarrow> m_allocateCipher (ds ! nat (ty - 1)) = Some alloc \<Longrightarrow>
      alloc db s = Some (Some c, s') \<Longrightarrow> tag c = ty \<and> obj_ok c"
    and released: "tag c = ty \<Longrightarrow> 1 \<le> ty \<Longrightarrow> ty \<le> count \<Longrightarrow> m_freeCipher (ds ! nat (ty - 1)) = Some free \<Longrightarrow> wiped (free c)"
    and cloned: "tag to = ty \<Longrightarrow> tag fro = ty \<Longrightarrow> 1 \<le> ty \<Longrightarrow> ty \<le> count \<Longrightarrow> obj_ok to \<Longrightarrow> obj_ok fro \<Longrightarrow>
      m_cloneCipher (ds ! nat (ty - 1)) = Some clone \<Longrightarrow>
      tag (clone to fro) = ty \<and> obj_ok (clone to fro) \<and> enc (clone to fro) = enc fro \<and> dec (clone to fro) = dec fro
        \<and> usable (clone to fro) = usable fro"
    and keyed: "tag c = ty \<Longrightarrow> 1 \<le> ty \<Longrightarrow> ty \<le> count \<Longrightarrow> obj_ok c \<Longrightarrow> m_generateKey (ds ! nat (ty - 1)) = Some generate \<Longrightarrow>
      rng_wf r \<Longrightarrow> (\<forall>s. salt = Some s \<longrightarrow> 16 \<le> length s) \<Longrightarrow> generate c password rekey salt r = Some (c', r') \<Longrightarrow>
      tag c' = ty \<and> obj_ok c' \<and> rng_wf r'"
    and encrypts: "tag c = ty \<Longrightarrow> 1 \<le> ty \<Longrightarrow> ty \<le> count \<Longrightarrow> m_encryptPage (ds ! nat (ty - 1)) = Some f \<Longrightarrow> f c = enc c"
    and generator: "rng_wf r \<Longrightarrow> enc c page data reserved r = Some (rc, data', r') \<Longrightarrow> rng_wf r'"
    and decrypts: "tag c = ty \<Longrightarrow> 1 \<le> ty \<Longrightarrow> ty \<le> count \<Longrightarrow> m_decryptPage (ds ! nat (ty - 1)) = Some g \<Longrightarrow> g c = dec c"
begin

text \<open>The invariant of the environment and that of a codec: a cipher object has the type that the number next to it says.\<close>

definition env_ok :: "'c mc_env \<Rightarrow> bool" where
  "env_ok e \<longleftrightarrow> reg_desc (e_reg e) = ds \<and> rng_wf (e_rng e) \<and> (\<forall>c \<in> set (e_released e). wiped c)
     \<and> (\<forall>b \<in> set (e_bts e). \<forall>h. pg_header b = Some h \<longrightarrow> 16 \<le> length h)"

definition slot_ok :: "int \<Rightarrow> 'c option \<Rightarrow> bool" where
  "slot_ok ty cipher \<longleftrightarrow> (\<forall>c. cipher = Some c \<longrightarrow> 1 \<le> ty \<and> ty \<le> count \<and> tag c = ty \<and> obj_ok c)"

definition codec_ok :: "'c Codec \<Rightarrow> bool" where
  "codec_ok codec \<longleftrightarrow> slot_ok (m_readCipherType codec) (m_readCipher codec)
     \<and> slot_ok (m_writeCipherType codec) (m_writeCipher codec) \<and> length (m_keySalt codec) = 16"

lemma slot_ok_simps [simp]:
  "slot_ok ty None"
  "slot_ok ty (Some c) \<longleftrightarrow> 1 \<le> ty \<and> ty \<le> count \<and> tag c = ty \<and> obj_ok c"
  by (auto simp: slot_ok_def)

lemma methodD:
  assumes "cipher_method m e ty = Some f" and "env_ok e" and "m mcSentinelDescriptor = None"
  shows "1 \<le> ty \<and> ty \<le> count \<and> m (ds ! nat (ty - 1)) = Some f"
proof -
  have "1 \<le> ty" "ty \<le> int (length ds)" "m (ds ! nat (ty - 1)) = Some f"
    using assms(1,2) by (auto simp: cipher_method_def descriptor_def env_ok_def split: if_splits)
  moreover have "ty \<le> count" using calculation unregistered [of ty] assms(3) by (cases "count < ty") auto
  ultimately show ?thesis by blast
qed

lemma sentinel_methods [simp]:
  "m_allocateCipher mcSentinelDescriptor = None" "m_freeCipher mcSentinelDescriptor = None"
  "m_cloneCipher mcSentinelDescriptor = None" "m_generateKey mcSentinelDescriptor = None"
  "m_encryptPage mcSentinelDescriptor = None" "m_decryptPage mcSentinelDescriptor = None"
  "m_getReserved mcSentinelDescriptor = None" "m_getPageSize mcSentinelDescriptor = None"
  "m_getLegacy mcSentinelDescriptor = None" "m_getSalt mcSentinelDescriptor = None"
  by (simp_all add: mcSentinelDescriptor_def)

lemma allocate_ok:
  assumes "allocate_cipher ty db e = Some (c, e')" and "env_ok e"
  shows "slot_ok ty c \<and> env_ok e'"
  using assms methodD [of m_allocateCipher e ty] allocated [of ty]
  by (auto simp: allocate_cipher_def env_ok_def slot_ok_def bind_eq_Some_conv)

lemma free_ok:
  assumes "free_opt ty c e = Some e'" and "slot_ok ty c" and "env_ok e"
  shows "env_ok e'"
  using assms methodD [of m_freeCipher e ty] released
  by (auto simp: free_opt_def free_cipher_def env_ok_def bind_eq_Some_conv split: option.splits)

lemma clone_ok:
  assumes "clone_cipher ty to fro e = Some c" and "slot_ok ty to" and "slot_ok ty fro" and "env_ok e"
  shows "slot_ok ty (Some c) \<and> (\<exists>c0. fro = Some c0 \<and> enc c = enc c0 \<and> dec c = dec c0 \<and> usable c = usable c0)"
  using assms methodD [of m_cloneCipher e ty] cloned
  by (auto simp: clone_cipher_def bind_eq_Some_conv)

lemma generate_ok:
  assumes "generate_key ty c password rekey salt codec e = Some (c', e')" and "slot_ok ty c" and "env_ok e"
    and "\<forall>s. salt = Some s \<longrightarrow> 16 \<le> length s"
  shows "slot_ok ty (Some c') \<and> env_ok e'"
proof -
  obtain hdr generate c0 r where h: "(if salt = None then mcReadDatabaseHeader codec e else Some salt) = Some hdr"
    "cipher_method m_generateKey e ty = Some generate" "c = Some c0" "generate c0 password rekey hdr (e_rng e) = Some (c', r)"
    "e' = e\<lparr>e_rng := r\<rparr>"
    using assms(1) by (auto simp: generate_key_def bind_eq_Some_conv)
  have "\<forall>s. hdr = Some s \<longrightarrow> 16 \<le> length s"
    using h(1) assms(3,4) by (auto simp: mcReadDatabaseHeader_def env_ok_def split: if_splits option.splits)
  moreover have "1 \<le> ty" "ty \<le> count" "m_generateKey (ds ! nat (ty - 1)) = Some generate" "rng_wf (e_rng e)"
    using methodD [OF h(2) assms(3)] assms(3) by (simp_all add: env_ok_def)
  ultimately show ?thesis
    using keyed [of c0 ty generate "e_rng e" hdr password rekey c' r] assms(2,3) h by (auto simp: env_ok_def)
qed

lemma parameter_ok: "global_parameter db name e = Some (v, e') \<Longrightarrow> env_ok e \<Longrightarrow> env_ok e'"
  by (auto simp: global_parameter_def env_ok_def bind_eq_Some_conv)

lemma report_ok: "mcReportCodecError bt error e = Some e' \<Longrightarrow> env_ok e \<Longrightarrow> env_ok e'"
  by (auto simp: mcReportCodecError_def env_ok_def Let_def all_set_conv_all_nth nth_list_update split: option.splits if_splits)

text \<open>Every operation keeps the invariants.\<close>

lemma new_codec_ok: "codec_ok new_codec"
  by (simp add: codec_ok_def new_codec_def)

lemma CodecTerm_ok:
  "sqlite3mcCodecTerm codec e = Some (codec', e') \<Longrightarrow> codec_ok codec \<Longrightarrow> env_ok e \<Longrightarrow> codec_ok codec' \<and> env_ok e'"
  by (auto simp: sqlite3mcCodecTerm_def codec_ok_def zero_codec_def bind_eq_Some_conv dest: free_ok)

lemma ClearKeySalt_ok: "codec_ok codec \<Longrightarrow> codec_ok (sqlite3mcClearKeySalt codec)"
  by (simp add: codec_ok_def sqlite3mcClearKeySalt_def)

lemma GenerateReadKey_ok:
  assumes "sqlite3mcGenerateReadKey codec pw salt e = Some (codec', e')" and "codec_ok codec" and "env_ok e"
    and "\<forall>s. salt = Some s \<longrightarrow> 16 \<le> length s"
  shows "codec_ok codec' \<and> env_ok e'"
  using assms generate_ok [of "m_readCipherType codec" "m_readCipher codec" pw 0 salt codec e]
  by (auto simp: sqlite3mcGenerateReadKey_def codec_ok_def bind_eq_Some_conv)

lemma GenerateWriteKey_ok:
  assumes "sqlite3mcGenerateWriteKey codec pw salt wal e = Some (codec', e')" and "codec_ok codec" and "env_ok e"
    and "\<forall>s. salt = Some s \<longrightarrow> 16 \<le> length s"
  shows "codec_ok codec' \<and> env_ok e'"
  using assms generate_ok [of "m_writeCipherType codec" "m_writeCipher codec" pw "if wal then 2 else 1" salt codec e]
  by (auto simp: sqlite3mcGenerateWriteKey_def codec_ok_def bind_eq_Some_conv)

definition same_cipher :: "'c option \<Rightarrow> 'c option \<Rightarrow> bool" where
  "same_cipher a b \<longleftrightarrow> (\<exists>c d. a = Some c \<and> b = Some d \<and> enc c = enc d \<and> dec c = dec d \<and> usable c = usable d)"

lemma copy_slot_ok:
  assumes "copy_slot toType to fromType fro db e = Some (rc, ty, c, e')" and "slot_ok toType to" and "slot_ok fromType fro" and "env_ok e"
  shows "slot_ok ty c \<and> env_ok e' \<and> (rc = SQLITE_OK \<longleftrightarrow> c \<noteq> None) \<and> (c \<noteq> None \<longrightarrow> ty = fromType \<and> same_cipher c fro)"
proof -
  define freed where "freed \<longleftrightarrow> to \<noteq> None \<and> toType \<noteq> fromType"
  obtain to1 e1 where 1: "(if freed then do { e \<leftarrow> free_opt toType to e; Some (None, e) } else Some (to, e)) = Some (to1, e1)"
    and rest: "do { (toType, to, e) \<leftarrow> (if to1 = None then do { (c, e) \<leftarrow> allocate_cipher fromType db e1; Some (fromType, c, e) } else Some (toType, to1, e1));
     if to \<noteq> None then do { c \<leftarrow> clone_cipher toType to fro e; Some (SQLITE_OK, toType, Some c, e) }
     else Some (SQLITE_NOMEM, toType, None, e) } = Some (rc, ty, c, e')"
    using assms(1) unfolding copy_slot_def freed_def by (auto simp: bind_eq_Some_conv)
  have e1: "env_ok e1" and to1: "to1 = None \<or> to1 = to \<and> toType = fromType"
    using 1 assms(2,4) free_ok [OF _ assms(2,4)] by (auto simp: freed_def bind_eq_Some_conv split: if_splits)
  obtain ty2 to2 e2 where 2: "(if to1 = None then do { (c, e) \<leftarrow> allocate_cipher fromType db e1; Some (fromType, c, e) } else Some (toType, to1, e1))
      = Some (ty2, to2, e2)"
    and rest: "(if to2 \<noteq> None then do { c \<leftarrow> clone_cipher ty2 to2 fro e2; Some (SQLITE_OK, ty2, Some c, e2) }
     else Some (SQLITE_NOMEM, ty2, None, e2)) = Some (rc, ty, c, e')"
    using rest by (auto simp: bind_eq_Some_conv)
  have ty2: "ty2 = fromType" "env_ok e2" "slot_ok ty2 to2"
    using 2 to1 e1 assms(2) allocate_ok [OF _ e1] by (auto simp: bind_eq_Some_conv split: if_splits)
  show ?thesis
  proof (cases to2)
    case None
    then show ?thesis using rest ty2 by auto
  next
    case (Some c2)
    then obtain c3 where "clone_cipher ty2 to2 fro e2 = Some c3" "rc = SQLITE_OK" "ty = ty2" "c = Some c3" "e' = e2"
      using rest by (auto simp: bind_eq_Some_conv)
    with clone_ok [of ty2 to2 fro e2 c3] ty2 assms(3) show ?thesis by (auto simp: same_cipher_def)
  qed
qed

lemma CopyCipher_cases:
  assumes "sqlite3mcCopyCipher codec r2w e = Some (rc, codec', e')" and "codec_ok codec" and "env_ok e"
  obtains (to_write) ty c where "r2w" "codec' = codec\<lparr>m_writeCipherType := ty, m_writeCipher := c\<rparr>" "slot_ok ty c" "env_ok e'"
      "rc = SQLITE_OK \<longleftrightarrow> c \<noteq> None" "c \<noteq> None \<longrightarrow> ty = m_readCipherType codec \<and> same_cipher c (m_readCipher codec)"
  | (to_read) ty c where "\<not> r2w" "codec' = codec\<lparr>m_readCipherType := ty, m_readCipher := c\<rparr>" "slot_ok ty c" "env_ok e'"
      "rc = SQLITE_OK \<longleftrightarrow> c \<noteq> None" "c \<noteq> None \<longrightarrow> ty = m_writeCipherType codec \<and> same_cipher c (m_writeCipher codec)"
proof (cases r2w)
  case True
  then obtain ty c where "copy_slot (m_writeCipherType codec) (m_writeCipher codec) (m_readCipherType codec) (m_readCipher codec) (m_db codec) e
      = Some (rc, ty, c, e')" "codec' = codec\<lparr>m_writeCipherType := ty, m_writeCipher := c\<rparr>"
    using assms(1) by (auto simp: sqlite3mcCopyCipher_def bind_eq_Some_conv)
  with copy_slot_ok [OF this(1)] assms(2,3) True show thesis by (intro to_write [where ty = ty and c = c]) (simp_all add: codec_ok_def)
next
  case False
  then obtain ty c where "copy_slot (m_readCipherType codec) (m_readCipher codec) (m_writeCipherType codec) (m_writeCipher codec) (m_db codec) e
      = Some (rc, ty, c, e')" "codec' = codec\<lparr>m_readCipherType := ty, m_readCipher := c\<rparr>"
    using assms(1) by (auto simp: sqlite3mcCopyCipher_def bind_eq_Some_conv)
  with copy_slot_ok [OF this(1)] assms(2,3) False show thesis by (intro to_read [where ty = ty and c = c]) (simp_all add: codec_ok_def)
qed

lemma CopyCipher_ok:
  assumes "sqlite3mcCopyCipher codec r2w e = Some (rc, codec', e')" and "codec_ok codec" and "env_ok e"
  shows "codec_ok codec' \<and> env_ok e'"
  using CopyCipher_cases [OF assms] by cases (use assms(2) in \<open>simp_all add: codec_ok_def\<close>)

text \<open>A codec that reads with the cipher with which it writes.\<close>

definition matched :: "'c Codec \<Rightarrow> bool" where
  "matched codec \<longleftrightarrow> m_hasReadCipher codec \<and> m_hasWriteCipher codec \<and> m_readCipherType codec = m_writeCipherType codec
     \<and> same_cipher (m_readCipher codec) (m_writeCipher codec)"

lemma same_cipher_sym: "same_cipher a b \<Longrightarrow> same_cipher b a"
  by (auto simp: same_cipher_def)

lemma CopyCipher_matched:
  assumes "sqlite3mcCopyCipher codec r2w e = Some (SQLITE_OK, codec', e')" and "codec_ok codec" and "env_ok e"
    and "m_hasReadCipher codec" "m_hasWriteCipher codec"
  shows "matched codec'"
  using CopyCipher_cases [OF assms(1-3)]
  by cases (use assms(4,5) in \<open>simp_all add: matched_def same_cipher_sym\<close>)

lemma key_salt_length: "codec_ok codec \<Longrightarrow> \<forall>s. key_salt codec = Some s \<longrightarrow> 16 \<le> length s"
  by (simp add: key_salt_def codec_ok_def)

text \<open>A successful setup gives a codec with equal ciphers; what it does not set stays.\<close>

definition frame :: "'c Codec \<Rightarrow> 'c Codec \<Rightarrow> bool" where
  "frame codec codec' \<longleftrightarrow> m_db codec' = m_db codec \<and> m_btShared codec' = m_btShared codec \<and> m_pageSize codec' = m_pageSize codec
     \<and> m_reserved codec' = m_reserved codec \<and> m_readReserved codec' = m_readReserved codec
     \<and> m_writeReserved codec' = m_writeReserved codec \<and> m_keySalt codec' = m_keySalt codec \<and> m_hasKeySalt codec' = m_hasKeySalt codec"

lemma CodecSetup_ok:
  assumes "sqlite3mcCodecSetup codec ty pw e = Some (rc, codec', e')" and "codec_ok codec" and "env_ok e"
  shows "codec_ok codec' \<and> env_ok e' \<and> frame codec codec'
    \<and> (rc = SQLITE_OK \<longrightarrow> m_isEncrypted codec' \<and> matched codec' \<and> m_readCipherType codec' = ty)"
proof (cases "ty \<le> 0")
  case True
  then show ?thesis using assms by (simp add: sqlite3mcCodecSetup_def frame_def)
next
  case False
  define upd where "upd h w c = codec\<lparr>m_isEncrypted := True, m_hmacCheck := h, m_walLegacy := w, m_hasReadCipher := True,
    m_hasWriteCipher := True, m_readCipherType := ty, m_readCipher := c\<rparr>" for h w c
  obtain h e1 w e2 c e3 where g: "global_parameter (m_db codec) ''hmac_check'' e = Some (h, e1)"
    "global_parameter (m_db codec) ''mc_legacy_wal'' e1 = Some (w, e2)" "allocate_cipher ty (m_db codec) e2 = Some (c, e3)"
    and rest: "(if c \<noteq> None then do { (codec, e) \<leftarrow> sqlite3mcGenerateReadKey (upd h w c) pw (key_salt (upd h w c)) e3;
          sqlite3mcCopyCipher codec True e } else Some (SQLITE_NOMEM, upd h w c, e3)) = Some (rc, codec', e')"
    using assms(1) False unfolding sqlite3mcCodecSetup_def upd_def
    by (auto simp: bind_eq_Some_conv Let_def)
  have ok: "slot_ok ty c" "env_ok e3"
    using allocate_ok [OF g(3)] parameter_ok [OF g(2)] parameter_ok [OF g(1)] assms(3) by simp_all
  then have u: "codec_ok (upd h w c)" using assms(2) by (simp add: upd_def codec_ok_def)
  show ?thesis
  proof (cases "c = None")
    case True
    then show ?thesis using rest u ok by (auto simp: upd_def frame_def)
  next
    case False
    then obtain k e4 where k: "sqlite3mcGenerateReadKey (upd h w c) pw (key_salt (upd h w c)) e3 = Some (k, e4)"
      and copy: "sqlite3mcCopyCipher k True e4 = Some (rc, codec', e')"
      using rest by (auto simp: bind_eq_Some_conv)
    have k_ok: "codec_ok k" "env_ok e4" using GenerateReadKey_ok [OF k u ok(2) key_salt_length [OF u]] by simp_all
    have k_upd: "\<exists>c. k = upd h w c" using k by (auto simp: sqlite3mcGenerateReadKey_def bind_eq_Some_conv upd_def)
    then have flags: "m_isEncrypted k" "m_hasReadCipher k" "m_hasWriteCipher k" "m_readCipherType k = ty" "frame codec k"
      by (auto simp: upd_def frame_def)
    have m: "rc = SQLITE_OK \<longrightarrow> matched codec'"
      using CopyCipher_matched [OF _ k_ok] copy flags by blast
    from CopyCipher_cases [OF copy k_ok] m CopyCipher_ok [OF copy k_ok] flags
    show ?thesis by cases (auto simp: frame_def)
  qed
qed

lemma SetupWriteCipher_ok:
  assumes "sqlite3mcSetupWriteCipher codec ty pw wal e = Some (rc, codec', e')" and "codec_ok codec" and "env_ok e"
  shows "codec_ok codec' \<and> env_ok e' \<and> frame codec codec' \<and> m_hasReadCipher codec' = m_hasReadCipher codec
    \<and> m_readCipher codec' = m_readCipher codec \<and> m_readCipherType codec' = m_readCipherType codec
    \<and> (rc = SQLITE_OK \<longrightarrow> m_isEncrypted codec' \<and> m_hasWriteCipher codec' \<and> m_writeCipherType codec' = ty \<and> m_writeCipher codec' \<noteq> None)"
proof (cases "ty \<le> 0")
  case True
  then show ?thesis using assms by (simp add: sqlite3mcSetupWriteCipher_def frame_def)
next
  case False
  define upd where "upd h w c = codec\<lparr>m_isEncrypted := True, m_hmacCheck := h, m_walLegacy := w, m_hasWriteCipher := True,
    m_writeCipherType := ty, m_writeCipher := c\<rparr>" for h w c
  obtain e0 h e1 w e2 c e3 where g: "free_opt (m_writeCipherType codec) (m_writeCipher codec) e = Some e0"
    "global_parameter (m_db codec) ''hmac_check'' e0 = Some (h, e1)"
    "global_parameter (m_db codec) ''mc_legacy_wal'' e1 = Some (w, e2)" "allocate_cipher ty (m_db codec) e2 = Some (c, e3)"
    and rest: "(if c \<noteq> None then do { (codec, e) \<leftarrow> sqlite3mcGenerateWriteKey (upd h w c) pw (key_salt (upd h w c)) wal e3;
          Some (SQLITE_OK, codec, e) } else Some (SQLITE_NOMEM, upd h w c, e3)) = Some (rc, codec', e')"
    using assms(1) False unfolding sqlite3mcSetupWriteCipher_def upd_def
    by (auto simp: bind_eq_Some_conv Let_def)
  have "env_ok e0" using free_ok [OF g(1)] assms(2,3) by (simp add: codec_ok_def)
  then have ok: "slot_ok ty c" "env_ok e3"
    using allocate_ok [OF g(4)] parameter_ok [OF g(2)] parameter_ok [OF g(3)] by simp_all
  then have u: "codec_ok (upd h w c)" using assms(2) by (simp add: upd_def codec_ok_def)
  show ?thesis
  proof (cases "c = None")
    case True
    then show ?thesis using rest u ok by (auto simp: upd_def frame_def)
  next
    case False
    then obtain k e4 where k: "sqlite3mcGenerateWriteKey (upd h w c) pw (key_salt (upd h w c)) wal e3 = Some (k, e4)"
      and eq: "rc = SQLITE_OK" "codec' = k" "e' = e4"
      using rest by (auto simp: bind_eq_Some_conv)
    have "\<exists>c. k = upd h w (Some c)" using k by (auto simp: sqlite3mcGenerateWriteKey_def bind_eq_Some_conv upd_def)
    then show ?thesis using GenerateWriteKey_ok [OF k u ok(2) key_salt_length [OF u]]
      by (auto simp: eq upd_def frame_def)
  qed
qed

text \<open>A copied codec works with the same ciphers as the original.\<close>

lemma copy_object_ok:
  assumes "copy_object has ty db fro e = Some (rc, c, e')" and "slot_ok ty fro" and "env_ok e"
  shows "slot_ok ty c \<and> env_ok e' \<and> (rc = SQLITE_OK \<and> has \<longrightarrow> same_cipher c fro)"
proof (cases has)
  case True
  then obtain c1 e1 where a: "allocate_cipher ty db e = Some (c1, e1)"
    and rest: "(if c1 \<noteq> None then do { c \<leftarrow> clone_cipher ty c1 fro e1; Some (SQLITE_OK, Some c, e1) } else Some (SQLITE_NOMEM, None, e1))
      = Some (rc, c, e')"
    using assms(1) by (auto simp: copy_object_def bind_eq_Some_conv)
  note ok = allocate_ok [OF a assms(3)]
  show ?thesis
  proof (cases "c1 = None")
    case False
    then obtain d where "clone_cipher ty c1 fro e1 = Some d" "rc = SQLITE_OK" "c = Some d" "e' = e1"
      using rest by (auto simp: bind_eq_Some_conv)
    with clone_ok [of ty c1 fro e1 d] ok assms(2) show ?thesis by (auto simp: same_cipher_def)
  qed (use rest ok in auto)
qed (use assms in \<open>auto simp: copy_object_def\<close>)

lemma CodecCopy_ok:
  assumes "sqlite3mcCodecCopy codec other e = Some (rc, codec', e')" and "codec_ok codec" and "codec_ok other" and "env_ok e"
  shows "codec_ok codec' \<and> env_ok e' \<and> m_isEncrypted codec' = m_isEncrypted other
    \<and> (rc = SQLITE_OK \<and> matched other \<longrightarrow> matched codec' \<and> same_cipher (m_writeCipher codec') (m_writeCipher other))"
proof -
  obtain rc1 r e1 rc2 w where c: "copy_object (m_hasReadCipher other) (m_readCipherType other) (m_db codec) (m_readCipher other) e = Some (rc1, r, e1)"
    "copy_object (m_hasWriteCipher other) (m_writeCipherType other) (m_db codec) (m_writeCipher other) e1 = Some (rc2, w, e')"
    and codec': "rc = (if rc2 \<noteq> SQLITE_OK then rc2 else rc1)"
      "m_isEncrypted codec' = m_isEncrypted other" "m_hasReadCipher codec' = m_hasReadCipher other"
      "m_hasWriteCipher codec' = m_hasWriteCipher other" "m_readCipherType codec' = m_readCipherType other"
      "m_writeCipherType codec' = m_writeCipherType other" "m_readCipher codec' = r" "m_writeCipher codec' = w"
      "m_keySalt codec' = m_keySalt codec"
    using assms(1) unfolding sqlite3mcCodecCopy_def by (auto simp: bind_eq_Some_conv)
  have 1: "slot_ok (m_readCipherType other) r" "env_ok e1" "rc1 = SQLITE_OK \<and> m_hasReadCipher other \<longrightarrow> same_cipher r (m_readCipher other)"
    using copy_object_ok [OF c(1)] assms(3,4) by (simp_all add: codec_ok_def)
  have 2: "slot_ok (m_writeCipherType other) w" "env_ok e'" "rc2 = SQLITE_OK \<and> m_hasWriteCipher other \<longrightarrow> same_cipher w (m_writeCipher other)"
    using copy_object_ok [OF c(2)] assms(3) 1(2) by (simp_all add: codec_ok_def)
  have trans: "same_cipher r w" if "same_cipher r (m_readCipher other)" "same_cipher w (m_writeCipher other)"
    "same_cipher (m_readCipher other) (m_writeCipher other)"
    using that by (auto simp: same_cipher_def)
  have "matched codec' \<and> same_cipher (m_writeCipher codec') (m_writeCipher other)" if "rc = SQLITE_OK" "matched other"
    using that 1(3) 2(3) trans by (simp add: matched_def codec' split: if_splits)
  then show ?thesis using 1 2 assms(2) by (simp add: codec_ok_def codec')
qed

text \<open>A page operation changes nothing of a codec but its last error.\<close>

lemma report_failure_ok: "report_failure codec rc e = Some e' \<Longrightarrow> env_ok e \<Longrightarrow> env_ok e'"
  by (auto simp: report_failure_def report_ok split: if_splits)

lemma Encrypt_ok:
  assumes "sqlite3mcEncrypt codec page data w e = Some (rc, d, e')" and "codec_ok codec" and "env_ok e"
  shows "\<exists>c r. (if w then m_writeCipher codec else m_readCipher codec) = Some c \<and> e' = e\<lparr>e_rng := r\<rparr>
    \<and> enc c page data (if w then write_reserved codec else read_reserved codec) (e_rng e) = Some (rc, d, r)"
proof -
  obtain f c r where f: "cipher_method m_encryptPage e (if w then m_writeCipherType codec else m_readCipherType codec) = Some f"
    "(if w then m_writeCipher codec else m_readCipher codec) = Some c"
    "f c page data (if w then write_reserved codec else read_reserved codec) (e_rng e) = Some (rc, d, r)" "e' = e\<lparr>e_rng := r\<rparr>"
    using assms(1) by (auto simp: sqlite3mcEncrypt_def bind_eq_Some_conv Let_def)
  moreover have "f c = enc c"
    using encrypts [of c _ f] methodD [OF f(1) assms(3)] f(2) assms(2) by (auto simp: codec_ok_def split: if_splits)
  ultimately show ?thesis by auto
qed

lemma Decrypt_eq:
  assumes "m_readCipher codec = Some c" and "codec_ok codec" and "env_ok e"
  shows "sqlite3mcDecrypt codec page data e = dec c page data (read_reserved codec) (m_hmacCheck codec \<noteq> 0)"
proof -
  have ty: "1 \<le> m_readCipherType codec" "m_readCipherType codec \<le> count" "tag c = m_readCipherType codec"
    using assms(1,2) by (simp_all add: codec_ok_def)
  obtain g where g: "m_decryptPage (ds ! nat (m_readCipherType codec - 1)) = Some g"
    using registered [OF ty(1,2)] by (auto simp: all_methods_def)
  then have "cipher_method m_decryptPage e (m_readCipherType codec) = Some g"
    using ty count_ds assms(3) by (simp add: cipher_method_def descriptor_def env_ok_def)
  moreover have "g c = dec c" by (rule decrypts [OF ty(3,1,2) g])
  ultimately show ?thesis by (simp add: sqlite3mcDecrypt_def assms(1))
qed

lemma codec_load_ok:
  assumes "codec_load codec data page n e = Some (d, codec', e')" and "env_ok e"
  shows "\<exists>rc. codec' = codec\<lparr>m_lastError := rc\<rparr> \<and> env_ok e'"
  using assms report_failure_ok by (auto simp: codec_load_def bind_eq_Some_conv split: if_splits)

lemma codec_store_ok:
  assumes "codec_store codec data page n w e = Some (d, codec', e')" and "codec_ok codec" and "env_ok e"
  shows "\<exists>rc. codec' = codec\<lparr>m_lastError := rc\<rparr> \<and> env_ok e'"
proof -
  obtain rc e1 where e: "sqlite3mcEncrypt codec page (take n data) w e = Some (rc, d, e1)" "report_failure codec rc e1 = Some e'"
    "codec' = codec\<lparr>m_lastError := rc\<rparr>"
    using assms(1) by (auto simp: codec_store_def bind_eq_Some_conv split: if_splits)
  obtain c r where "e1 = e\<lparr>e_rng := r\<rparr>" "rng_wf r"
    using Encrypt_ok [OF e(1) assms(2,3)] generator assms(3) unfolding env_ok_def by blast
  then have "env_ok e1" using assms(3) by (simp add: env_ok_def)
  then show ?thesis using e report_failure_ok by blast
qed

lemma Codec_ok:
  assumes "sqlite3mcCodec (Some codec) data page mode e = Some (d, codec', e')" and "codec_ok codec" and "env_ok e"
  shows "\<exists>rc. codec' = Some (codec\<lparr>m_lastError := rc\<rparr>) \<and> env_ok e'"
proof -
  obtain k where k: "codec' = Some k" using assms(1) by (auto simp: sqlite3mcCodec_def)
  show ?thesis
    using assms(1) codec_load_ok [OF _ assms(3)] codec_store_ok [OF _ assms(2,3)] assms(3)
    by (auto simp: sqlite3mcCodec_def k split: if_splits option.splits)
qed

section \<open>Pages written and read\<close>

text \<open>A page that the codec stores, with its write or with its read cipher.\<close>

lemma codec_store_page:
  assumes codec: "codec_ok codec" "env_ok e" and c: "(if w then m_writeCipher codec else m_readCipher codec) = Some c"
    and usable: "usable c page (take n data) (if w then write_reserved codec else read_reserved codec)"
    and store: "codec_store codec data page n w e = Some (x, codec', e')"
  shows "n \<le> length data \<and> length x = n \<and> codec' = codec\<lparr>m_lastError := SQLITE_OK\<rparr> \<and> (\<exists>r. e' = e\<lparr>e_rng := r\<rparr> \<and> rng_wf r
    \<and> enc c page (take n data) (if w then write_reserved codec else read_reserved codec) (e_rng e) = Some (SQLITE_OK, x, r))"
proof -
  have wf: "rng_wf (e_rng e)" using codec(2) by (simp add: env_ok_def)
  obtain rc e1 where e: "sqlite3mcEncrypt codec page (take n data) w e = Some (rc, x, e1)" "report_failure codec rc e1 = Some e'"
    "codec' = codec\<lparr>m_lastError := rc\<rparr>" and n: "n \<le> length data"
    using store by (auto simp: codec_store_def bind_eq_Some_conv split: if_splits)
  obtain r where r: "e1 = e\<lparr>e_rng := r\<rparr>"
    "enc c page (take n data) (if w then write_reserved codec else read_reserved codec) (e_rng e) = Some (rc, x, r)"
    using Encrypt_ok [OF e(1) codec] c by auto
  with enc_ok [OF usable wf r(2)] e n show ?thesis by (auto simp: report_failure_def)
qed

text \<open>Any codec that reads with the same cipher gets the page back.\<close>

lemma codec_load_page:
  assumes codec: "codec_ok codec" "env_ok e" and c: "m_readCipher codec = Some c'" and same: "dec c' = dec c"
    and usable: "usable c page data (read_reserved codec)" and wf: "rng_wf r"
    and store: "enc c page data (read_reserved codec) r = Some (SQLITE_OK, x, r')"
  shows "\<exists>d. codec_load codec x page (length data) e = Some (d, codec\<lparr>m_lastError := SQLITE_OK\<rparr>, e)
    \<and> length d = length data \<and> take (length data - nat (read_reserved codec)) d = take (length data - nat (read_reserved codec)) data"
proof -
  have len: "length x = length data" using enc_ok [OF usable wf store] by simp
  obtain d where "dec c page x (read_reserved codec) (m_hmacCheck codec \<noteq> 0) = Some (SQLITE_OK, d)" and d: "length d = length data"
      "take (length data - nat (read_reserved codec)) d = take (length data - nat (read_reserved codec)) data"
    using dec_enc [OF usable wf store] by blast
  then have "sqlite3mcDecrypt codec page x e = Some (SQLITE_OK, d)"
    using Decrypt_eq [OF c codec, of page x] same by simp
  then show ?thesis using d len by (simp add: codec_load_def report_failure_def memcpy_at_all)
qed

lemma write_read:
  assumes codec: "codec_ok codec" "env_ok e" "m_isEncrypted codec"
    and c: "(if mode = 6 then m_writeCipher codec else m_readCipher codec) = Some c"
    and flags: "mode = 6 \<and> m_hasWriteCipher codec \<and> res = write_reserved codec \<or> mode = 7 \<and> m_hasReadCipher codec \<and> res = read_reserved codec"
    and size: "sqlite3mcGetPageSize codec e = Some n"
    and usable: "usable c page (take (nat n) data) res"
    and written: "sqlite3mcCodec (Some codec) data page mode e = Some (x, codec', e')"
    and k: "codec_ok k" "env_ok e2" "m_isEncrypted k" "m_hasReadCipher k" "same_cipher (m_readCipher k) (Some c)" "read_reserved k = res"
      "sqlite3mcGetPageSize k e2 = Some n" "mode' = 0 \<or> mode' = 2 \<or> mode' = 3"
  shows "length x = nat n \<and> codec' = Some (codec\<lparr>m_lastError := SQLITE_OK\<rparr>) \<and> env_ok e' \<and> e_bts e' = e_bts e \<and> e_errCode e' = e_errCode e
    \<and> (\<exists>d. sqlite3mcCodec (Some k) x page mode' e2 = Some (d, Some (k\<lparr>m_lastError := SQLITE_OK\<rparr>), e2)
         \<and> length d = nat n \<and> take (nat n - nat res) d = take (nat n - nat res) data)"
proof -
  define w where "w = (mode = 6)"
  have c: "(if w then m_writeCipher codec else m_readCipher codec) = Some c" using c by (simp add: w_def)
  have res: "(if w then write_reserved codec else read_reserved codec) = res" using flags by (auto simp: w_def)
  obtain codec1 where store: "codec_store codec data page (nat n) w e = Some (x, codec1, e')" "codec' = Some codec1"
    using written flags codec(3) size by (auto simp: sqlite3mcCodec_def w_def)
  note s = codec_store_page [OF codec(1,2) c _ store(1), unfolded res, OF usable]
  then obtain r where r: "e' = e\<lparr>e_rng := r\<rparr>" "rng_wf r" "enc c page (take (nat n) data) res (e_rng e) = Some (SQLITE_OK, x, r)"
    by blast
  have n: "nat n \<le> length data" "length x = nat n" "codec1 = codec\<lparr>m_lastError := SQLITE_OK\<rparr>" using s by auto
  obtain c' where c': "m_readCipher k = Some c'" "dec c' = dec c" using k(5) by (auto simp: same_cipher_def)
  have wf: "rng_wf (e_rng e)" using codec(2) by (simp add: env_ok_def)
  have tn: "length (take (nat n) data) = nat n" "take (nat n - nat res) (take (nat n) data) = take (nat n - nat res) data"
    using n(1) by simp_all
  obtain d where "codec_load k x page (nat n) e2 = Some (d, k\<lparr>m_lastError := SQLITE_OK\<rparr>, e2)"
    "length d = nat n" "take (nat n - nat res) d = take (nat n - nat res) data"
    using codec_load_page [OF k(1,2) c', unfolded k(6), OF usable wf r(3), unfolded tn] by blast
  then have "sqlite3mcCodec (Some k) x page mode' e2 = Some (d, Some (k\<lparr>m_lastError := SQLITE_OK\<rparr>), e2)"
    using k(3,4,7,8) by (auto simp: sqlite3mcCodec_def)
  then show ?thesis
    using n store(2) r codec(2) \<open>length d = nat n\<close> \<open>take (nat n - nat res) d = take (nat n - nat res) data\<close>
    by (auto simp: env_ok_def)
qed

section \<open>Calls through the table\<close>

text \<open>Every number that stands next to an object leads to a descriptor with all methods, and no number behind the registered ones to any method.\<close>

lemma registered_descriptor:
  assumes "1 \<le> ty" and "ty \<le> count" and "env_ok e"
  shows "descriptor e ty = Some (ds ! nat (ty - 1))" and "all_methods (ds ! nat (ty - 1))"
  using assms count_ds registered by (simp_all add: descriptor_def env_ok_def)

lemma unregistered_method:
  assumes "count < ty" and "env_ok e" and "m mcSentinelDescriptor = None"
  shows "cipher_method m e ty = None"
  using methodD [where m = m and e = e and ty = ty] assms by (cases "cipher_method m e ty") auto

lemma free_defined:
  assumes "slot_ok ty c" and "env_ok e"
  obtains e' where "free_opt ty c e = Some e'" "env_ok e'"
proof (cases c)
  case None
  then show thesis using that assms(2) by (simp add: free_opt_def)
next
  case (Some a)
  then have "1 \<le> ty" "ty \<le> count" using assms(1) by simp_all
  note d = registered_descriptor [OF this assms(2)]
  obtain f where "m_freeCipher (ds ! nat (ty - 1)) = Some f" using d(2) by (auto simp: all_methods_def)
  then have "free_opt ty c e \<noteq> None" by (simp add: Some free_opt_def free_cipher_def cipher_method_def d(1))
  then show thesis using that free_ok [OF _ assms] by blast
qed

lemma CodecTerm_defined:
  assumes "codec_ok codec" and "env_ok e"
  shows "sqlite3mcCodecTerm codec e \<noteq> None"
proof -
  have slots: "slot_ok (m_readCipherType codec) (m_readCipher codec)" "slot_ok (m_writeCipherType codec) (m_writeCipher codec)"
    using assms(1) by (simp_all add: codec_ok_def)
  obtain e1 where e1: "free_opt (m_readCipherType codec) (m_readCipher codec) e = Some e1" "env_ok e1" by (rule free_defined [OF slots(1) assms(2)])
  obtain e2 where "free_opt (m_writeCipherType codec) (m_writeCipher codec) e1 = Some e2" by (rule free_defined [OF slots(2) e1(2)])
  with e1 show ?thesis by (simp add: sqlite3mcCodecTerm_def)
qed

lemma clone_defined:
  assumes "slot_ok ty (Some to)" and "env_ok e"
  shows "clone_cipher ty (Some to) (Some fro) e \<noteq> None"
proof -
  have "1 \<le> ty" "ty \<le> count" using assms(1) by simp_all
  note d = registered_descriptor [OF this assms(2)]
  obtain f where "m_cloneCipher (ds ! nat (ty - 1)) = Some f" using d(2) by (auto simp: all_methods_def)
  then show ?thesis by (simp add: clone_cipher_def cipher_method_def d(1))
qed

lemma CopyCipher_defined:
  assumes "codec_ok codec" and "env_ok e" and "m_readCipher codec \<noteq> None" "m_writeCipher codec \<noteq> None"
    and "m_writeCipherType codec = m_readCipherType codec"
  shows "\<exists>codec'. sqlite3mcCopyCipher codec r2w e = Some (SQLITE_OK, codec', e)"
proof -
  obtain r w where "m_readCipher codec = Some r" "m_writeCipher codec = Some w" using assms(3,4) by auto
  then show ?thesis
    using clone_defined [of "m_readCipherType codec" w e r] clone_defined [of "m_readCipherType codec" r e w] assms(1,2,5)
    by (auto simp: sqlite3mcCopyCipher_def copy_slot_def codec_ok_def)
qed

lemma ask_defined:
  assumes "slot_ok ty c" and "env_ok e" and "\<And>d. all_methods d \<Longrightarrow> m d \<noteq> None"
  shows "ask_cipher m absent has ty c e \<noteq> None"
proof (cases c)
  case (Some a)
  then have "1 \<le> ty" "ty \<le> count" using assms(1) by simp_all
  note d = registered_descriptor [OF this assms(2)]
  then show ?thesis using assms(3) [OF d(2)] by (simp add: Some ask_cipher_def cipher_method_def)
qed (simp add: ask_cipher_def)

lemma queries_defined:
  assumes "codec_ok codec" and "env_ok e"
  shows "sqlite3mcGetLegacyReadCipher codec e \<noteq> None" "sqlite3mcGetLegacyWriteCipher codec e \<noteq> None"
    "sqlite3mcGetPageSizeReadCipher codec e \<noteq> None" "sqlite3mcGetPageSizeWriteCipher codec e \<noteq> None"
    "sqlite3mcGetReservedReadCipher codec e \<noteq> None" "sqlite3mcGetReservedWriteCipher codec e \<noteq> None"
    "sqlite3mcGetSaltWriteCipher codec e \<noteq> None"
proof -
  have slots: "slot_ok (m_readCipherType codec) (m_readCipher codec)" "slot_ok (m_writeCipherType codec) (m_writeCipher codec)"
    using assms(1) by (simp_all add: codec_ok_def)
  note defined = ask_defined [OF slots(1) assms(2)] ask_defined [OF slots(2) assms(2)]
  show "sqlite3mcGetLegacyReadCipher codec e \<noteq> None" "sqlite3mcGetPageSizeReadCipher codec e \<noteq> None" "sqlite3mcGetReservedReadCipher codec e \<noteq> None"
    unfolding sqlite3mcGetLegacyReadCipher_def sqlite3mcGetPageSizeReadCipher_def sqlite3mcGetReservedReadCipher_def ask_read_def
    by (rule defined(1), simp add: all_methods_def)+
  show "sqlite3mcGetLegacyWriteCipher codec e \<noteq> None" "sqlite3mcGetPageSizeWriteCipher codec e \<noteq> None"
    "sqlite3mcGetReservedWriteCipher codec e \<noteq> None" "sqlite3mcGetSaltWriteCipher codec e \<noteq> None"
    unfolding sqlite3mcGetLegacyWriteCipher_def sqlite3mcGetPageSizeWriteCipher_def sqlite3mcGetReservedWriteCipher_def
      sqlite3mcGetSaltWriteCipher_def ask_write_def
    by (rule defined(2), simp add: all_methods_def)+
qed

lemma Encrypt_eq:
  assumes "(if w then m_writeCipher codec else m_readCipher codec) = Some c" and "codec_ok codec" and "env_ok e"
  shows "sqlite3mcEncrypt codec page data w e = map_option (\<lambda>(rc, d, r). (rc, d, e\<lparr>e_rng := r\<rparr>))
    (enc c page data (if w then write_reserved codec else read_reserved codec) (e_rng e))"
proof -
  define ty where "ty = (if w then m_writeCipherType codec else m_readCipherType codec)"
  have ty: "1 \<le> ty" "ty \<le> count" "tag c = ty" using assms(1,2) by (auto simp: codec_ok_def ty_def split: if_splits)
  note d = registered_descriptor [OF ty(1,2) assms(3)]
  obtain f where f: "m_encryptPage (ds ! nat (ty - 1)) = Some f" using d(2) by (auto simp: all_methods_def)
  then have "cipher_method m_encryptPage e ty = Some f" by (simp add: cipher_method_def d(1))
  moreover have "f c = enc c" by (rule encrypts [OF ty(3,1,2) f])
  ultimately show ?thesis
    using assms(1) unfolding sqlite3mcEncrypt_def ty_def [symmetric] Let_def
    by (cases "enc c page data (if w then write_reserved codec else read_reserved codec) (e_rng e)") auto
qed

lemma Setup_unregistered:
  assumes "count < ty" and "0 < ty" and "env_ok e"
  shows "sqlite3mcCodecSetup codec ty pw e = None" and "sqlite3mcSetupWriteCipher codec ty pw wal e = None"
proof -
  have allocate: "allocate_cipher ty db e' = None" if "reg_desc (e_reg e') = reg_desc (e_reg e)" for db e'
  proof -
    have "cipher_method m_allocateCipher e' ty = cipher_method m_allocateCipher e ty"
      using that by (simp add: cipher_method_def descriptor_def)
    also have "\<dots> = None" by (rule unregistered_method [OF assms(1,3)]) simp
    finally show ?thesis by (simp add: allocate_cipher_def)
  qed
  have param: "global_parameter db n e1 = Some (v, e2) \<Longrightarrow> reg_desc (e_reg e2) = reg_desc (e_reg e1)" for db n e1 v e2
    by (auto simp: global_parameter_def bind_eq_Some_conv)
  have free: "free_opt t c e1 = Some e2 \<Longrightarrow> reg_desc (e_reg e2) = reg_desc (e_reg e1)" for t c e1 e2
    by (auto simp: free_opt_def free_cipher_def bind_eq_Some_conv split: option.splits)
  show "sqlite3mcCodecSetup codec ty pw e = None"
    using assms(2) by (cases "sqlite3mcCodecSetup codec ty pw e") (auto simp: sqlite3mcCodecSetup_def bind_eq_Some_conv allocate dest!: param)
  show "sqlite3mcSetupWriteCipher codec ty pw wal e = None"
    using assms(2) by (cases "sqlite3mcSetupWriteCipher codec ty pw wal e")
      (auto simp: sqlite3mcSetupWriteCipher_def bind_eq_Some_conv allocate dest!: param free)
qed

end
end
