(* ===== verification/Cipher_Table.thy ===== *)
theory Cipher_Table
  imports Codec Cipher_ChaCha20 Cipher_RC4 Cipher_wxAES Cipher_SQLCipher Cipher_Ascon
begin

text \<open>
  The descriptor table with the ciphers that are modelled, \<^verbatim>\<open>globalCodecDescriptorTable\<close> after the registrations in
  \<^verbatim>\<open>sqlite3mc_initialize\<close> (\<^verbatim>\<open>src/src/sqlite3mc.c\<close>) of a build without AEGIS, and the proof that it fulfils the contract on which the codec relies.
  \<open>le\<close> is the byte order of the host.
\<close>

section \<open>Cipher objects\<close>

text \<open>What the \<^verbatim>\<open>void*\<close> of a codec points to.\<close>

datatype any_cipher =
    Obj_AES128 AES128Cipher
  | Obj_AES256 AES256Cipher
  | Obj_ChaCha20 ChaCha20Cipher
  | Obj_SQLCipher SQLCipherCipher
  | Obj_RC4 RC4Cipher
  | Obj_Ascon128 Ascon128Cipher

text \<open>
  The methods of one cipher on all objects. Every method casts its pointer to the type of its own objects; applied to an object of
  another type it gives no result, or an arbitrary one where the interface has no option. The invariant of the codec shows that this never happens.
\<close>

definition lift_cipher :: "('a \<Rightarrow> 'b) \<Rightarrow> ('b \<Rightarrow> 'a option) \<Rightarrow> 'a CipherDescriptor \<Rightarrow> 'b CipherDescriptor" where
  "lift_cipher obj cast d = \<lparr>d_name = d_name d,
     m_allocateCipher = map_option (\<lambda>f db s. map_option (map_prod (map_option obj) id) (f db s)) (m_allocateCipher d),
     m_freeCipher = map_option (\<lambda>f c. case cast c of Some a \<Rightarrow> obj (f a) | None \<Rightarrow> c) (m_freeCipher d),
     m_cloneCipher = map_option (\<lambda>f to fro. case (cast to, cast fro) of (Some a, Some b) \<Rightarrow> obj (f a b) | _ \<Rightarrow> to) (m_cloneCipher d),
     m_getLegacy = map_option (\<lambda>f c. case cast c of Some a \<Rightarrow> f a | None \<Rightarrow> 0) (m_getLegacy d),
     m_getPageSize = map_option (\<lambda>f c. case cast c of Some a \<Rightarrow> f a | None \<Rightarrow> 0) (m_getPageSize d),
     m_getReserved = map_option (\<lambda>f c. case cast c of Some a \<Rightarrow> f a | None \<Rightarrow> 0) (m_getReserved d),
     m_getSalt = map_option (\<lambda>f c. cast c \<bind> f) (m_getSalt d),
     m_generateKey = map_option (\<lambda>f c pw rekey salt r. cast c \<bind> (\<lambda>a. map_option (map_prod obj id) (f a pw rekey salt r))) (m_generateKey d),
     m_encryptPage = map_option (\<lambda>f c page data res r. cast c \<bind> (\<lambda>a. f a page data res r)) (m_encryptPage d),
     m_decryptPage = map_option (\<lambda>f c page data res check. cast c \<bind> (\<lambda>a. f a page data res check)) (m_decryptPage d)\<rparr>"

definition any_descriptors :: "bool \<Rightarrow> any_cipher CipherDescriptor list" where
  "any_descriptors le =
     [lift_cipher Obj_AES128 (\<lambda>c. case c of Obj_AES128 a \<Rightarrow> Some a | _ \<Rightarrow> None) mcAES128Descriptor,
      lift_cipher Obj_AES256 (\<lambda>c. case c of Obj_AES256 a \<Rightarrow> Some a | _ \<Rightarrow> None) mcAES256Descriptor,
      lift_cipher Obj_ChaCha20 (\<lambda>c. case c of Obj_ChaCha20 a \<Rightarrow> Some a | _ \<Rightarrow> None) mcChaCha20Descriptor,
      lift_cipher Obj_SQLCipher (\<lambda>c. case c of Obj_SQLCipher a \<Rightarrow> Some a | _ \<Rightarrow> None) (mcSQLCipherDescriptor le),
      lift_cipher Obj_RC4 (\<lambda>c. case c of Obj_RC4 a \<Rightarrow> Some a | _ \<Rightarrow> None) (mcRC4Descriptor le),
      lift_cipher Obj_Ascon128 (\<lambda>c. case c of Obj_Ascon128 a \<Rightarrow> Some a | _ \<Rightarrow> None) mcAscon128Descriptor]
     @ replicate 11 mcSentinelDescriptor"

text \<open>The number of the cipher of an object, and its functions on pages.\<close>

fun cipher_number :: "any_cipher \<Rightarrow> int" where
  "cipher_number (Obj_AES128 _) = 1"
| "cipher_number (Obj_AES256 _) = 2"
| "cipher_number (Obj_ChaCha20 _) = 3"
| "cipher_number (Obj_SQLCipher _) = 4"
| "cipher_number (Obj_RC4 _) = 5"
| "cipher_number (Obj_Ascon128 _) = 6"

fun encrypt_page :: "bool \<Rightarrow> any_cipher \<Rightarrow> int \<Rightarrow> bytes \<Rightarrow> int \<Rightarrow> rng \<Rightarrow> (int \<times> bytes \<times> rng) option" where
  "encrypt_page le (Obj_AES128 a) = EncryptPageAES128Cipher a"
| "encrypt_page le (Obj_AES256 a) = EncryptPageAES256Cipher a"
| "encrypt_page le (Obj_ChaCha20 a) = EncryptPageChaCha20Cipher a"
| "encrypt_page le (Obj_SQLCipher a) = EncryptPageSQLCipherCipher le a"
| "encrypt_page le (Obj_RC4 a) = EncryptPageRC4Cipher a"
| "encrypt_page le (Obj_Ascon128 a) = EncryptPageAscon128Cipher a"

fun decrypt_page :: "bool \<Rightarrow> any_cipher \<Rightarrow> int \<Rightarrow> bytes \<Rightarrow> int \<Rightarrow> bool \<Rightarrow> (int \<times> bytes) option" where
  "decrypt_page le (Obj_AES128 a) = DecryptPageAES128Cipher a"
| "decrypt_page le (Obj_AES256 a) = DecryptPageAES256Cipher a"
| "decrypt_page le (Obj_ChaCha20 a) = DecryptPageChaCha20Cipher a"
| "decrypt_page le (Obj_SQLCipher a) = DecryptPageSQLCipherCipher le a"
| "decrypt_page le (Obj_RC4 a) = DecryptPageRC4Cipher a"
| "decrypt_page le (Obj_Ascon128 a) = DecryptPageAscon128Cipher a"

text \<open>The pages that an object accepts.\<close>

fun page_ok :: "any_cipher \<Rightarrow> int \<Rightarrow> bytes \<Rightarrow> int \<Rightarrow> bool" where
  "page_ok (Obj_AES128 a) page data reserved = aes128.usable (aes1_legacy a) page data"
| "page_ok (Obj_AES256 a) page data reserved = aes256.usable (aes2_legacy a) page data"
| "page_ok (Obj_ChaCha20 a) page data reserved = chacha20_usable a page data reserved"
| "page_ok (Obj_SQLCipher a) page data reserved = sqlcipher_usable a page data reserved"
| "page_ok (Obj_RC4 a) page data reserved = True"
| "page_ok (Obj_Ascon128 a) page data reserved = ascon_usable a page data reserved"

text \<open>The arrays of an object have their size; an object that was released holds no key and no salt.\<close>

fun object_ok :: "any_cipher \<Rightarrow> bool" where
  "object_ok (Obj_AES128 a) \<longleftrightarrow> length (aes1_key a) = 16 \<and> aes1_keyLength a = 16"
| "object_ok (Obj_AES256 a) \<longleftrightarrow> length (aes2_key a) = 32 \<and> aes2_keyLength a = 32"
| "object_ok (Obj_ChaCha20 a) \<longleftrightarrow> length (cc_key a) = 32 \<and> length (cc_salt a) = 16"
| "object_ok (Obj_SQLCipher a) \<longleftrightarrow> length (sq_key a) = 32 \<and> length (sq_salt a) = 16 \<and> length (sq_hmacKey a) = 32"
| "object_ok (Obj_RC4 a) \<longleftrightarrow> length (rc4_key a) = 16"
| "object_ok (Obj_Ascon128 a) \<longleftrightarrow> length (asc_key a) = 32 \<and> length (asc_salt a) = 16"

fun object_secrets :: "any_cipher \<Rightarrow> bytes" where
  "object_secrets (Obj_AES128 a) = aes1_key a @ concat (rij_expandedKey (aes1_aes a))"
| "object_secrets (Obj_AES256 a) = aes2_key a @ concat (rij_expandedKey (aes2_aes a))"
| "object_secrets (Obj_ChaCha20 a) = cc_key a @ cc_salt a"
| "object_secrets (Obj_SQLCipher a) = sq_key a @ sq_salt a @ sq_hmacKey a @ concat (rij_expandedKey (sq_aes a))"
| "object_secrets (Obj_RC4 a) = rc4_key a"
| "object_secrets (Obj_Ascon128 a) = asc_key a @ asc_salt a"

definition object_wiped :: "any_cipher \<Rightarrow> bool" where
  "object_wiped c \<longleftrightarrow> (\<forall>b \<in> set (object_secrets c). b = 0)"

section \<open>Cloned objects\<close>

text \<open>The initialisation of a Rijndael context leaves nothing of its former state.\<close>

lemma RijndaelInit_any:
  assumes "mode_of mode = Some m" "direction_of dir = Some d" "length key \<in> {16, 24, 32}" "keyLen = int (length key div 8) - 2"
  shows "RijndaelInit rij mode dir (Some key) keyLen iv = RijndaelInit rij' mode dir (Some key) keyLen iv"
proof -
  have "aes_context rij m key iv = aes_context rij' m key iv" for iv by (cases rij; cases rij') (simp add: aes_context_def)
  then show ?thesis by (simp add: RijndaelInit_eq [OF assms])
qed

lemma page_aes_any:
  assumes "length pagekey \<in> {16, 24, 32}" "keyLength = int (length pagekey div 8) - 2"
  shows "page_aes pagekey keyLength aes page encrypt = page_aes pagekey keyLength aes' page encrypt"
proof -
  have m: "mode_of 1 = Some Mode_CBC" "direction_of (if encrypt then 0 else 1) = Some (if encrypt then Encrypt else Decrypt)"
    by (simp_all add: mode_of_def direction_of_def)
  show ?thesis
    unfolding page_aes_def Let_def RijndaelInit_any [OF m assms, of aes _ aes'] by (rule refl)
qed

lemma AES128_any: "sqlite3mcAES128 aes page encrypt key = sqlite3mcAES128 aes' page encrypt key"
  unfolding sqlite3mcAES128_def Let_def by (subst page_aes_any [of _ _ aes _ _ aes']) (simp_all add: fun_eq_iff)

lemma AES256_any: "sqlite3mcAES256 aes page encrypt key = sqlite3mcAES256 aes' page encrypt key"
  unfolding sqlite3mcAES256_def Let_def
  by (subst page_aes_any [of _ _ aes _ _ aes']) (simp_all add: fun_eq_iff length_sha256_final length_page_key_material)

lemma wx_any:
  assumes "\<And>aes aes'. crypt aes = crypt aes'"
  shows "wx_encrypt_page crypt legacy aes = wx_encrypt_page crypt legacy aes'"
    and "wx_decrypt_page crypt legacy aes = wx_decrypt_page crypt legacy aes'"
  unfolding fun_eq_iff wx_encrypt_page_def wx_decrypt_page_def assms [of aes aes'] by simp_all

lemma clone_AES128:
  assumes "object_ok (Obj_AES128 to)" "object_ok (Obj_AES128 fro)"
  shows "EncryptPageAES128Cipher (CloneAES128Cipher to fro) = EncryptPageAES128Cipher fro
    \<and> DecryptPageAES128Cipher (CloneAES128Cipher to fro) = DecryptPageAES128Cipher fro"
proof -
  have c: "CloneAES128Cipher to fro = fro\<lparr>aes1_aes := RijndaelInvalidate (aes1_aes to)\<rparr>"
    using assms by (cases to; cases fro) (simp add: CloneAES128Cipher_def memcpy_at_all)
  note any = wx_any [of "\<lambda>aes. sqlite3mcAES128 aes page b (aes1_key fro)" "aes1_legacy fro" "RijndaelInvalidate (aes1_aes to)" "aes1_aes fro"
    for page b, OF AES128_any]
  show ?thesis
    unfolding c by (simp add: fun_eq_iff EncryptPageAES128Cipher_def DecryptPageAES128Cipher_def any)
qed

lemma clone_AES256:
  assumes "object_ok (Obj_AES256 to)" "object_ok (Obj_AES256 fro)"
  shows "EncryptPageAES256Cipher (CloneAES256Cipher to fro) = EncryptPageAES256Cipher fro
    \<and> DecryptPageAES256Cipher (CloneAES256Cipher to fro) = DecryptPageAES256Cipher fro"
proof -
  have c: "CloneAES256Cipher to fro = fro\<lparr>aes2_aes := RijndaelInvalidate (aes2_aes to)\<rparr>"
    using assms by (cases to; cases fro) (simp add: CloneAES256Cipher_def memcpy_at_all)
  note any = wx_any [of "\<lambda>aes. sqlite3mcAES256 aes page b (aes2_key fro)" "aes2_legacy fro" "RijndaelInvalidate (aes2_aes to)" "aes2_aes fro"
    for page b, OF AES256_any]
  show ?thesis
    unfolding c by (simp add: fun_eq_iff EncryptPageAES256Cipher_def DecryptPageAES256Cipher_def any)
qed

lemma clone_ChaCha20:
  "object_ok (Obj_ChaCha20 to) \<Longrightarrow> object_ok (Obj_ChaCha20 fro) \<Longrightarrow> CloneChaCha20Cipher to fro = fro"
  by (cases to; cases fro) (simp add: CloneChaCha20Cipher_def memcpy_at_all)

lemma clone_RC4: "object_ok (Obj_RC4 to) \<Longrightarrow> object_ok (Obj_RC4 fro) \<Longrightarrow> CloneRC4Cipher to fro = fro"
  by (cases to; cases fro) (simp add: CloneRC4Cipher_def memcpy_at_all)

lemma clone_Ascon128: "object_ok (Obj_Ascon128 to) \<Longrightarrow> object_ok (Obj_Ascon128 fro) \<Longrightarrow> CloneAscon128Cipher to fro = fro"
  by (cases to; cases fro) (simp add: CloneAscon128Cipher_def memcpy_at_all)

lemma clone_SQLCipher:
  assumes "object_ok (Obj_SQLCipher to)" "object_ok (Obj_SQLCipher fro)"
  shows "EncryptPageSQLCipherCipher le (CloneSQLCipherCipher to fro) = EncryptPageSQLCipherCipher le fro
    \<and> DecryptPageSQLCipherCipher le (CloneSQLCipherCipher to fro) = DecryptPageSQLCipherCipher le fro
    \<and> sqlcipher_usable (CloneSQLCipherCipher to fro) = sqlcipher_usable fro"
proof -
  let ?aes = "RijndaelInvalidate (sq_aes to)"
  have c: "CloneSQLCipherCipher to fro = fro\<lparr>sq_aes := ?aes\<rparr>"
    using assms by (cases to; cases fro) (simp add: CloneSQLCipherCipher_def memcpy_at_all)
  have m: "mode_of 1 = Some Mode_CBC" "direction_of 0 = Some Encrypt" "direction_of 1 = Some Decrypt"
    by (simp_all add: mode_of_def direction_of_def)
  have key: "length (sq_key fro) \<in> {16, 24, 32}" "2 = int (length (sq_key fro) div 8) - 2" using assms(2) by simp_all
  note init = RijndaelInit_any [OF m(1,2) key, of ?aes _ "sq_aes fro"] RijndaelInit_any [OF m(1,3) key, of ?aes _ "sq_aes fro"]
  have same: "sqlcipher_nReserved (fro\<lparr>sq_aes := a\<rparr>) = sqlcipher_nReserved fro" "sqlcipher_offset (fro\<lparr>sq_aes := a\<rparr>) = sqlcipher_offset fro"
    "sqlcipher_mismatch (fro\<lparr>sq_aes := a\<rparr>) = sqlcipher_mismatch fro" "sqlcipher_page_hmac le (fro\<lparr>sq_aes := a\<rparr>) = sqlcipher_page_hmac le fro"
    "sq_key (fro\<lparr>sq_aes := a\<rparr>) = sq_key fro" "sq_salt (fro\<lparr>sq_aes := a\<rparr>) = sq_salt fro" "sq_hmacUse (fro\<lparr>sq_aes := a\<rparr>) = sq_hmacUse fro"
    "sq_hmacAlgorithm (fro\<lparr>sq_aes := a\<rparr>) = sq_hmacAlgorithm fro" "sq_aes (fro\<lparr>sq_aes := a\<rparr>) = a" for a
    by (simp_all add: fun_eq_iff sqlcipher_nReserved_def GetReservedSQLCipherCipher_def sqlcipher_offset_def sqlcipher_mismatch_def
        sqlcipher_page_hmac_def sqlcipher_pgno_def Let_def)
  show ?thesis
    unfolding c fun_eq_iff EncryptPageSQLCipherCipher_def DecryptPageSQLCipherCipher_def sqlcipher_usable_def same init by (intro conjI allI refl)
qed

section \<open>Lengths of the keys\<close>

lemma length_PBKDF2:
  assumes "PBKDF2 A pw salt iterations nout = Some key"
  shows "length key = nout"
proof -
  define step where "step = (\<lambda>out counter. memcpy_at out ((counter - 1) * hashsz A)
    (take (min (nout - (counter - 1) * hashsz A) (hashsz A)) (PBKDF2_F A (HMAC_INIT A pw) (of_nat counter) salt iterations)))"
  have fold: "\<forall>c \<in> set cs. (c - 1) * hashsz A \<le> nout \<Longrightarrow> length out = nout \<Longrightarrow> length (foldl step out cs) = nout" for cs out
    by (induction cs arbitrary: out) (auto simp: step_def)
  have "(c - 1) * hashsz A \<le> nout" if "c \<in> set [1 ..< (nout + hashsz A - 1) mod 2 ^ 32 div hashsz A + 1]" for c
  proof -
    have "c \<le> (nout + hashsz A - 1) mod 2 ^ 32 div hashsz A" using that by auto
    also have "\<dots> \<le> (nout + hashsz A - 1) div hashsz A" by (intro div_le_mono mod_less_eq_dividend)
    finally have "c \<le> (nout + hashsz A - 1) div hashsz A" .
    then have "c * hashsz A \<le> nout + hashsz A - 1" by (meson div_times_less_eq_dividend le_trans mult_le_mono1)
    moreover have "(c - 1) * hashsz A = c * hashsz A - hashsz A" by (simp add: diff_mult_distrib)
    ultimately show ?thesis by linarith
  qed
  then have all: "\<forall>c \<in> set [1 ..< (nout + hashsz A - 1) mod 2 ^ 32 div hashsz A + 1]. (c - 1) * hashsz A \<le> nout" by blast
  have "key = foldl step (replicate nout 0) [1 ..< (nout + hashsz A - 1) mod 2 ^ 32 div hashsz A + 1]"
    using assms by (simp add: PBKDF2_def Let_def step_def split: if_splits)
  then show ?thesis using fold [OF all length_replicate] by simp
qed

lemma length_sqlcipher_kdf: "sqlcipher_kdf le algorithm pw salt iter = Some key \<Longrightarrow> length key = 32"
  by (auto simp: sqlcipher_kdf_def fastpbkdf2_hmac_sha1_def fastpbkdf2_hmac_sha256_def fastpbkdf2_hmac_sha512_def
      dest: length_PBKDF2 split: if_splits)

lemma length_ascon_loop: "length T = 32 \<Longrightarrow> length (ascon_pbkdf2_loop s n T U) = 32"
  by (induction n arbitrary: T U) (simp_all add: Let_def ascon_squeeze_def length_squeeze_blocks)

lemma length_ascon_f: "length (ascon_pbkdf2_f s salt count b) = 32"
  by (simp add: ascon_pbkdf2_f_def Let_def length_ascon_loop ascon_squeeze_def length_squeeze_blocks)

lemma length_ascon_pbkdf2: "length (ascon_pbkdf2 n pw salt count) = n"
proof -
  have "length (ascon_pbkdf2_blocks s n salt count b) = n" for s b
  proof (induction s n salt count b rule: ascon_pbkdf2_blocks.induct)
    case (1 s n salt count b)
    then show ?case by (subst ascon_pbkdf2_blocks.simps) (auto simp: length_ascon_f)
  qed
  then show ?thesis by (simp add: ascon_pbkdf2_def)
qed

lemma new_salt_wf:
  assumes "new_salt h rekey salt r = Some (s, k, r')" "rng_wf r"
  shows "rng_wf r'"
  using assms by (auto simp: new_salt_def split: option.splits if_splits dest: chacha20_rng_length_wf)

text \<open>The generation of a key leaves an object with arrays of the right size, and the generator usable.\<close>

lemma keyed_AES128:
  "object_ok (Obj_AES128 c) \<Longrightarrow> GenerateKeyAES128Cipher c pw rekey salt r = Some (c', r') \<Longrightarrow> object_ok (Obj_AES128 c') \<and> r' = r"
  using length_memcpy_at [of 0 "take 16 d" "aes1_key c" for d]
  by (auto simp: GenerateKeyAES128Cipher_def Let_def)

lemma keyed_AES256:
  "object_ok (Obj_AES256 c) \<Longrightarrow> GenerateKeyAES256Cipher c pw rekey salt r = Some (c', r') \<Longrightarrow> object_ok (Obj_AES256 c') \<and> r' = r"
  by (auto simp: GenerateKeyAES256Cipher_def Let_def)

lemma keyed_RC4:
  "object_ok (Obj_RC4 c) \<Longrightarrow> GenerateKeyRC4Cipher le c pw rekey salt r = Some (c', r') \<Longrightarrow> object_ok (Obj_RC4 c') \<and> r' = r"
  by (auto simp: GenerateKeyRC4Cipher_def Let_def)

lemma keyed_ChaCha20:
  assumes "object_ok (Obj_ChaCha20 c)" "rng_wf r" "\<forall>s. salt = Some s \<longrightarrow> 16 \<le> length s"
    and "GenerateKeyChaCha20Cipher c pw rekey salt r = Some (c', r')"
  shows "object_ok (Obj_ChaCha20 c') \<and> rng_wf r'"
proof -
  obtain s k r1 where s: "new_salt (cc_plaintextHeaderSize c) rekey salt r = Some (s, k, r1)"
    using assms(4) by (auto simp: GenerateKeyChaCha20Cipher_def split: option.splits)
  have l: "length s = 16" using new_salt_cases [OF s assms(2,3)] by simp
  have c: "length (cc_key c) = 32" using assms(1) by simp
  show ?thesis
    using assms(4) new_salt_wf [OF s assms(2)] l raw_key_length [of pw] unfolding chacha20_derive [OF s c l]
    by (auto simp: fastpbkdf2_hmac_sha256_def dest: length_PBKDF2 split: option.splits)
qed

lemma keyed_SQLCipher:
  assumes "object_ok (Obj_SQLCipher c)" "rng_wf r" "\<forall>s. salt = Some s \<longrightarrow> 16 \<le> length s"
    and "GenerateKeySQLCipherCipher le c pw rekey salt r = Some (c', r')"
  shows "object_ok (Obj_SQLCipher c') \<and> rng_wf r'"
proof -
  obtain s k r1 where s: "new_salt (sq_plaintextHeaderSize c) rekey salt r = Some (s, k, r1)"
    using assms(4) by (auto simp: GenerateKeySQLCipherCipher_def split: option.splits)
  have l: "length s = 16" using new_salt_cases [OF s assms(2,3)] by simp
  have c: "length (sq_key c) = 32" "length (sq_hmacKey c) = 32" using assms(1) by simp_all
  obtain key t where t: "sqlcipher_hmac_key le (c\<lparr>sq_key := key, sq_salt := t\<rparr>) = Some c'" "r' = r1" "length key = 32" "length t = 16"
    using assms(4) l raw_key_length [of pw] length_sqlcipher_kdf unfolding sqlcipher_derive [OF s c(1) l]
    by (auto split: option.splits)
  show ?thesis
    using t c new_salt_wf [OF s assms(2)]
    by (auto simp: sqlcipher_hmac_key_def Let_def dest: length_sqlcipher_kdf split: if_splits)
qed

lemma keyed_Ascon128:
  assumes "object_ok (Obj_Ascon128 c)" "rng_wf r" "\<forall>s. salt = Some s \<longrightarrow> 16 \<le> length s"
    and "GenerateKeyAscon128Cipher c pw rekey salt r = Some (c', r')"
  shows "object_ok (Obj_Ascon128 c') \<and> rng_wf r'"
proof -
  obtain s k r1 where s: "new_salt (asc_plaintextHeaderSize c) rekey salt r = Some (s, k, r1)"
    using assms(4) by (auto simp: GenerateKeyAscon128Cipher_def split: option.splits)
  have l: "length s = 16" using new_salt_cases [OF s assms(2,3)] by simp
  have c: "length (asc_key c) = 32" using assms(1) by simp
  show ?thesis
    using assms(4) new_salt_wf [OF s assms(2)] l raw_key_length [of pw] s
    unfolding GenerateKeyAscon128Cipher_def s option.case prod.case sqlite3mcExtractRawKey_raw [OF c l] use_raw_key_def
    by (auto simp: length_ascon_pbkdf2 split: option.splits)
qed
section \<open>The contract of the table\<close>

lemma free_wiped:
  "object_wiped (Obj_AES128 (FreeAES128Cipher a1))" "object_wiped (Obj_AES256 (FreeAES256Cipher a2))"
  "object_wiped (Obj_ChaCha20 (FreeChaCha20Cipher a3))" "object_wiped (Obj_SQLCipher (FreeSQLCipherCipher a4))"
  "object_wiped (Obj_RC4 (FreeRC4Cipher a5))" "object_wiped (Obj_Ascon128 (FreeAscon128Cipher a6))"
  by (auto simp: object_wiped_def FreeAES128Cipher_def FreeAES256Cipher_def FreeChaCha20Cipher_def FreeSQLCipherCipher_def
      FreeRC4Cipher_def FreeAscon128Cipher_def zero_rijndael_def)

lemma allocated_AES128: "AllocateAES128Cipher db s = Some (Some c, s') \<Longrightarrow> object_ok (Obj_AES128 c)"
  by (auto simp: AllocateAES128Cipher_def Let_def split: prod.splits if_splits option.splits list.splits)

lemma allocated_AES256: "AllocateAES256Cipher db s = Some (Some c, s') \<Longrightarrow> object_ok (Obj_AES256 c)"
  by (auto simp: AllocateAES256Cipher_def Let_def split: prod.splits if_splits option.splits list.splits)

lemma allocated_ChaCha20: "AllocateChaCha20Cipher db s = Some (Some c, s') \<Longrightarrow> object_ok (Obj_ChaCha20 c)"
  by (auto simp: AllocateChaCha20Cipher_def Let_def split: prod.splits if_splits option.splits list.splits)

lemma allocated_SQLCipher: "AllocateSQLCipherCipher db s = Some (Some c, s') \<Longrightarrow> object_ok (Obj_SQLCipher c)"
  by (auto simp: AllocateSQLCipherCipher_def Let_def split: prod.splits if_splits option.splits list.splits)

lemma allocated_RC4: "AllocateRC4Cipher db s = Some (Some c, s') \<Longrightarrow> object_ok (Obj_RC4 c)"
  by (auto simp: AllocateRC4Cipher_def Let_def split: prod.splits if_splits option.splits list.splits)

lemma allocated_Ascon128: "AllocateAscon128Cipher db s = Some (Some c, s') \<Longrightarrow> object_ok (Obj_Ascon128 c)"
  by (auto simp: AllocateAscon128Cipher_def Let_def split: prod.splits if_splits option.splits list.splits)

lemmas allocated_objects = allocated_AES128 allocated_AES256 allocated_ChaCha20 allocated_SQLCipher allocated_RC4 allocated_Ascon128

text \<open>The generator stays usable, whatever the page.\<close>

lemma encrypt_page_rng:
  assumes "encrypt_page le c page data reserved r = Some (rc, data', r')" "rng_wf r"
  shows "rng_wf r'"
  using assms
  by (cases c)
    (auto simp: EncryptPageAES128Cipher_def EncryptPageAES256Cipher_def EncryptPageChaCha20Cipher_def EncryptPageSQLCipherCipher_def
      EncryptPageRC4Cipher_def EncryptPageAscon128Cipher_def Let_def dest: chacha20_rng_length_wf
      split: if_splits option.splits prod.splits)

lemma number_cases:
  fixes ty :: int
  assumes "1 \<le> ty" "ty \<le> 6"
  obtains "ty = 1" | "ty = 2" | "ty = 3" | "ty = 4" | "ty = 5" | "ty = 6"
  using assms by linarith

lemma lift_methods [simp]:
  "all_methods (lift_cipher obj cast d) = all_methods d"
  "m_allocateCipher (lift_cipher obj cast d) = map_option (\<lambda>f db s. map_option (map_prod (map_option obj) id) (f db s)) (m_allocateCipher d)"
  "m_freeCipher (lift_cipher obj cast d) = map_option (\<lambda>f c. case cast c of Some a \<Rightarrow> obj (f a) | None \<Rightarrow> c) (m_freeCipher d)"
  "m_cloneCipher (lift_cipher obj cast d) =
     map_option (\<lambda>f to fro. case (cast to, cast fro) of (Some a, Some b) \<Rightarrow> obj (f a b) | _ \<Rightarrow> to) (m_cloneCipher d)"
  "m_getReserved (lift_cipher obj cast d) = map_option (\<lambda>f c. case cast c of Some a \<Rightarrow> f a | None \<Rightarrow> 0) (m_getReserved d)"
  "m_getPageSize (lift_cipher obj cast d) = map_option (\<lambda>f c. case cast c of Some a \<Rightarrow> f a | None \<Rightarrow> 0) (m_getPageSize d)"
  "m_getLegacy (lift_cipher obj cast d) = map_option (\<lambda>f c. case cast c of Some a \<Rightarrow> f a | None \<Rightarrow> 0) (m_getLegacy d)"
  "m_generateKey (lift_cipher obj cast d) =
     map_option (\<lambda>f c pw rekey salt r. cast c \<bind> (\<lambda>a. map_option (map_prod obj id) (f a pw rekey salt r))) (m_generateKey d)"
  "m_encryptPage (lift_cipher obj cast d) = map_option (\<lambda>f c page data res r. cast c \<bind> (\<lambda>a. f a page data res r)) (m_encryptPage d)"
  "m_decryptPage (lift_cipher obj cast d) = map_option (\<lambda>f c page data res check. cast c \<bind> (\<lambda>a. f a page data res check)) (m_decryptPage d)"
  by (simp_all add: lift_cipher_def all_methods_def)

text \<open>The entry of the table for an object.\<close>

lemma entries [simp]:
  "any_descriptors le ! 0 = lift_cipher Obj_AES128 (\<lambda>c. case c of Obj_AES128 a \<Rightarrow> Some a | _ \<Rightarrow> None) mcAES128Descriptor"
  "any_descriptors le ! 1 = lift_cipher Obj_AES256 (\<lambda>c. case c of Obj_AES256 a \<Rightarrow> Some a | _ \<Rightarrow> None) mcAES256Descriptor"
  "any_descriptors le ! Suc 0 = lift_cipher Obj_AES256 (\<lambda>c. case c of Obj_AES256 a \<Rightarrow> Some a | _ \<Rightarrow> None) mcAES256Descriptor"
  "any_descriptors le ! 2 = lift_cipher Obj_ChaCha20 (\<lambda>c. case c of Obj_ChaCha20 a \<Rightarrow> Some a | _ \<Rightarrow> None) mcChaCha20Descriptor"
  "any_descriptors le ! 3 = lift_cipher Obj_SQLCipher (\<lambda>c. case c of Obj_SQLCipher a \<Rightarrow> Some a | _ \<Rightarrow> None) (mcSQLCipherDescriptor le)"
  "any_descriptors le ! 4 = lift_cipher Obj_RC4 (\<lambda>c. case c of Obj_RC4 a \<Rightarrow> Some a | _ \<Rightarrow> None) (mcRC4Descriptor le)"
  "any_descriptors le ! 5 = lift_cipher Obj_Ascon128 (\<lambda>c. case c of Obj_Ascon128 a \<Rightarrow> Some a | _ \<Rightarrow> None) mcAscon128Descriptor"
  by (simp_all add: any_descriptors_def)

lemmas descriptor_defs = mcAES128Descriptor_def mcAES256Descriptor_def mcChaCha20Descriptor_def mcSQLCipherDescriptor_def
  mcRC4Descriptor_def mcAscon128Descriptor_def

lemma length_any_descriptors [simp]: "length (any_descriptors le) = 17"
  by (simp add: any_descriptors_def)

text \<open>The pages of all ciphers fulfil the contract of page encryption.\<close>

interpretation any_pages: page_cipher "encrypt_page le" "decrypt_page le" page_ok
proof
  fix c page data reserved r rc data' r' check
  assume A: "page_ok c page data reserved" "rng_wf r" "encrypt_page le c page data reserved r = Some (rc, data', r')"
  show "rc = SQLITE_OK \<and> length data' = length data \<and> rng_wf r'"
    using A
    by (cases c; simp only: page_ok.simps encrypt_page.simps)
      (elim aes128_pages.enc_ok aes256_pages.enc_ok chacha20.enc_ok sqlcipher.enc_ok rc4.enc_ok ascon.enc_ok; assumption)+
  show "\<exists>d. decrypt_page le c page data' reserved check = Some (SQLITE_OK, d) \<and> length d = length data
      \<and> take (length data - nat reserved) d = take (length data - nat reserved) data"
    using A
    by (cases c; simp only: page_ok.simps encrypt_page.simps decrypt_page.simps)
      (elim aes128_pages.dec_enc aes256_pages.dec_enc chacha20.dec_enc sqlcipher.dec_enc rc4.dec_enc ascon.dec_enc; assumption)+
qed

lemma all_methods_builtin [simp]:
  "all_methods mcAES128Descriptor" "all_methods mcAES256Descriptor" "all_methods mcChaCha20Descriptor"
  "all_methods (mcSQLCipherDescriptor le)" "all_methods (mcRC4Descriptor le)" "all_methods mcAscon128Descriptor"
  by (simp_all add: all_methods_def descriptor_defs)

lemma clone_keeps:
  "object_ok (Obj_AES128 to1) \<Longrightarrow> object_ok (Obj_AES128 fro1) \<Longrightarrow> object_ok (Obj_AES128 (CloneAES128Cipher to1 fro1))
     \<and> aes1_legacy (CloneAES128Cipher to1 fro1) = aes1_legacy fro1"
  "object_ok (Obj_AES256 to2) \<Longrightarrow> object_ok (Obj_AES256 fro2) \<Longrightarrow> object_ok (Obj_AES256 (CloneAES256Cipher to2 fro2))
     \<and> aes2_legacy (CloneAES256Cipher to2 fro2) = aes2_legacy fro2"
  "object_ok (Obj_SQLCipher to3) \<Longrightarrow> object_ok (Obj_SQLCipher fro3) \<Longrightarrow> object_ok (Obj_SQLCipher (CloneSQLCipherCipher to3 fro3))"
  by (simp_all add: CloneAES128Cipher_def CloneAES256Cipher_def CloneSQLCipherCipher_def)

lemma cloned_any:
  assumes "cipher_number to = cipher_number fro" "object_ok to" "object_ok fro"
    and "m_cloneCipher (any_descriptors le ! nat (cipher_number to - 1)) = Some clone"
  shows "cipher_number (clone to fro) = cipher_number to \<and> object_ok (clone to fro) \<and> encrypt_page le (clone to fro) = encrypt_page le fro
    \<and> decrypt_page le (clone to fro) = decrypt_page le fro \<and> page_ok (clone to fro) = page_ok fro"
proof (cases to)
  case (Obj_AES128 a)
  then obtain b where b: "fro = Obj_AES128 b" using assms(1) by (cases fro) simp_all
  with Obj_AES128 assms(4) have "clone to fro = Obj_AES128 (CloneAES128Cipher a b)" by (auto simp: descriptor_defs)
  with Obj_AES128 b clone_AES128 [of a b] clone_keeps(1) [of a b] assms(2,3) show ?thesis by (simp add: fun_eq_iff)
next
  case (Obj_AES256 a)
  then obtain b where b: "fro = Obj_AES256 b" using assms(1) by (cases fro) simp_all
  with Obj_AES256 assms(4) have "clone to fro = Obj_AES256 (CloneAES256Cipher a b)" by (auto simp: descriptor_defs)
  with Obj_AES256 b clone_AES256 [of a b] clone_keeps(2) [of a b] assms(2,3) show ?thesis by (simp add: fun_eq_iff)
next
  case (Obj_ChaCha20 a)
  then obtain b where b: "fro = Obj_ChaCha20 b" using assms(1) by (cases fro) simp_all
  with Obj_ChaCha20 assms(4) have "clone to fro = Obj_ChaCha20 (CloneChaCha20Cipher a b)" by (auto simp: descriptor_defs)
  with Obj_ChaCha20 b clone_ChaCha20 [of a b] assms(2,3) show ?thesis by (simp add: fun_eq_iff)
next
  case (Obj_SQLCipher a)
  then obtain b where b: "fro = Obj_SQLCipher b" using assms(1) by (cases fro) simp_all
  with Obj_SQLCipher assms(4) have "clone to fro = Obj_SQLCipher (CloneSQLCipherCipher a b)" by (auto simp: descriptor_defs)
  with Obj_SQLCipher b clone_SQLCipher [of a b le] clone_keeps(3) [of a b] assms(2,3) show ?thesis by (simp add: fun_eq_iff)
next
  case (Obj_RC4 a)
  then obtain b where b: "fro = Obj_RC4 b" using assms(1) by (cases fro) simp_all
  with Obj_RC4 assms(4) have "clone to fro = Obj_RC4 (CloneRC4Cipher a b)" by (auto simp: descriptor_defs)
  with Obj_RC4 b clone_RC4 [of a b] assms(2,3) show ?thesis by (simp add: fun_eq_iff)
next
  case (Obj_Ascon128 a)
  then obtain b where b: "fro = Obj_Ascon128 b" using assms(1) by (cases fro) simp_all
  with Obj_Ascon128 assms(4) have "clone to fro = Obj_Ascon128 (CloneAscon128Cipher a b)" by (auto simp: descriptor_defs)
  with Obj_Ascon128 b clone_Ascon128 [of a b] assms(2,3) show ?thesis by (simp add: fun_eq_iff)
qed

lemma keyed_any:
  assumes "object_ok c" "rng_wf r" "\<forall>s. salt = Some s \<longrightarrow> 16 \<le> length s"
    and "m_generateKey (any_descriptors le ! nat (cipher_number c - 1)) = Some generate"
    and "generate c pw rekey salt r = Some (c', r')"
  shows "cipher_number c' = cipher_number c \<and> object_ok c' \<and> rng_wf r'"
proof (cases c)
  case (Obj_AES128 a)
  then obtain b where "c' = Obj_AES128 b" "GenerateKeyAES128Cipher a pw rekey salt r = Some (b, r')"
    using assms(4,5) by (auto simp: descriptor_defs)
  then show ?thesis using keyed_AES128 [of a pw rekey salt r b r'] assms(1,2) Obj_AES128 by auto
next
  case (Obj_AES256 a)
  then obtain b where "c' = Obj_AES256 b" "GenerateKeyAES256Cipher a pw rekey salt r = Some (b, r')"
    using assms(4,5) by (auto simp: descriptor_defs)
  then show ?thesis using keyed_AES256 [of a pw rekey salt r b r'] assms(1,2) Obj_AES256 by auto
next
  case (Obj_ChaCha20 a)
  then obtain b where "c' = Obj_ChaCha20 b" "GenerateKeyChaCha20Cipher a pw rekey salt r = Some (b, r')"
    using assms(4,5) by (auto simp: descriptor_defs)
  then show ?thesis using keyed_ChaCha20 [of a r salt pw rekey b r'] assms(1-3) Obj_ChaCha20 by auto
next
  case (Obj_SQLCipher a)
  then obtain b where "c' = Obj_SQLCipher b" "GenerateKeySQLCipherCipher le a pw rekey salt r = Some (b, r')"
    using assms(4,5) by (auto simp: descriptor_defs)
  then show ?thesis using keyed_SQLCipher [of a r salt le pw rekey b r'] assms(1-3) Obj_SQLCipher by auto
next
  case (Obj_RC4 a)
  then obtain b where "c' = Obj_RC4 b" "GenerateKeyRC4Cipher le a pw rekey salt r = Some (b, r')"
    using assms(4,5) by (auto simp: descriptor_defs)
  then show ?thesis using keyed_RC4 [of a le pw rekey salt r b r'] assms(1,2) Obj_RC4 by auto
next
  case (Obj_Ascon128 a)
  then obtain b where "c' = Obj_Ascon128 b" "GenerateKeyAscon128Cipher a pw rekey salt r = Some (b, r')"
    using assms(4,5) by (auto simp: descriptor_defs)
  then show ?thesis using keyed_Ascon128 [of a r salt pw rekey b r'] assms(1-3) Obj_Ascon128 by auto
qed

lemma allocated_any:
  assumes "1 \<le> ty" "ty \<le> 6" "m_allocateCipher (any_descriptors le ! nat (ty - 1)) = Some alloc" "alloc db s = Some (Some c, s')"
  shows "cipher_number c = ty \<and> object_ok c"
  using assms(1,2)
  by (rule number_cases) (use assms(3,4) allocated_objects in \<open>auto simp: descriptor_defs\<close>)

interpretation builtin: cipher_table "encrypt_page le" "decrypt_page le" page_ok "any_descriptors le" 6 cipher_number object_ok object_wiped
proof
  fix ty :: int
  show "6 \<le> int (length (any_descriptors le))" by simp
  show "all_methods (any_descriptors le ! nat (ty - 1))" if "1 \<le> ty" "ty \<le> 6"
    using that by (rule number_cases) simp_all
  show "any_descriptors le ! nat (ty - 1) = mcSentinelDescriptor" if "6 < ty" "ty \<le> int (length (any_descriptors le))"
    using that by (simp add: any_descriptors_def nth_append)
  show "cipher_number c = ty \<and> object_ok c"
    if "1 \<le> ty" "ty \<le> 6" "m_allocateCipher (any_descriptors le ! nat (ty - 1)) = Some alloc" "alloc db s = Some (Some c, s')"
    for alloc db s c s' using that by (rule allocated_any)
  show "object_wiped (free c)"
    if "cipher_number c = ty" "1 \<le> ty" "ty \<le> 6" "m_freeCipher (any_descriptors le ! nat (ty - 1)) = Some free" for c free
    using that free_wiped by (cases c) (auto simp: descriptor_defs)
  show "cipher_number (clone to fro) = ty \<and> object_ok (clone to fro) \<and> encrypt_page le (clone to fro) = encrypt_page le fro
      \<and> decrypt_page le (clone to fro) = decrypt_page le fro \<and> page_ok (clone to fro) = page_ok fro"
    if "cipher_number to = ty" "cipher_number fro = ty" "1 \<le> ty" "ty \<le> 6" "object_ok to" "object_ok fro"
      "m_cloneCipher (any_descriptors le ! nat (ty - 1)) = Some clone" for to fro clone
    using cloned_any [of to fro le clone] that by simp
  show "cipher_number c' = ty \<and> object_ok c' \<and> rng_wf r'"
    if "cipher_number c = ty" "1 \<le> ty" "ty \<le> 6" "object_ok c" "m_generateKey (any_descriptors le ! nat (ty - 1)) = Some generate"
      "rng_wf r" "\<forall>s. salt = Some s \<longrightarrow> 16 \<le> length s" "generate c password rekey salt r = Some (c', r')"
    for c generate r salt password rekey c' r'
    using keyed_any [of c r salt le generate password rekey c' r'] that by simp
  show "f c = encrypt_page le c"
    if "cipher_number c = ty" "1 \<le> ty" "ty \<le> 6" "m_encryptPage (any_descriptors le ! nat (ty - 1)) = Some f" for c f
    using that by (cases c) (auto simp: descriptor_defs)
  show "rng_wf r'" if "rng_wf r" "encrypt_page le c page data reserved r = Some (rc, data', r')" for r c page data reserved rc data' r'
    using encrypt_page_rng [OF that(2,1)] .
  show "g c = decrypt_page le c"
    if "cipher_number c = ty" "1 \<le> ty" "ty \<le> 6" "m_decryptPage (any_descriptors le ! nat (ty - 1)) = Some g" for c g
    using that by (cases c) (auto simp: descriptor_defs)
qed
section \<open>The table after the initialisation\<close>

text \<open>In a build without AEGIS the initialisation registers six descriptors.\<close>

lemma register_all_desc:
  assumes "register_all ty ds pss (SQLITE_OK, r) = Some (SQLITE_OK, r')" and "length ds \<le> length pss"
    and "globalCipherCount (reg_cfg r) + length ds \<le> length (reg_desc r)"
  shows "reg_desc r' = take (globalCipherCount (reg_cfg r)) (reg_desc r) @ ds @ drop (globalCipherCount (reg_cfg r) + length ds) (reg_desc r)"
  using assms
proof (induction ds arbitrary: ty pss r)
  case (Cons d ds)
  let ?n = "globalCipherCount (reg_cfg r)"
  obtain ps pss' where pss: "pss = ps # pss'" using Cons.prems(2) by (cases pss) auto
  obtain rc1 r1 where r1: "sqlite3mcRegisterCipher (Some d) (Some (with_sentinel ps)) (ty = 3) r = Some (rc1, r1)"
    "register_all (ty + 1) ds pss' (rc1, r1) = Some (SQLITE_OK, r')"
    using Cons.prems(1) by (auto simp: pss split: option.splits)
  have "rc1 = SQLITE_OK" using r1(2) by (rule register_all_failed)
  with sqlite3mcRegisterCipher_cases [OF r1(1)]
  have desc: "reg_desc r1 = (reg_desc r)[?n := d]" and count: "globalCipherCount (reg_cfg r1) = ?n + 1"
    by (auto simp: enter_cipher_def Let_def)
  have "reg_desc r' = take (?n + 1) (reg_desc r1) @ ds @ drop (?n + 1 + length ds) (reg_desc r1)"
    using Cons.IH [of "ty + 1" pss' r1] r1(2) \<open>rc1 = SQLITE_OK\<close> Cons.prems(2,3) by (simp add: pss desc count)
  moreover have "take (?n + 1) (reg_desc r1) = take ?n (reg_desc r) @ [d]"
    using Cons.prems(3) by (simp add: desc take_Suc_conv_app_nth)
  ultimately show ?case by (simp add: desc)
qed (simp add: register_all.simps)

definition start_registry_cfg :: mc_config where
  "start_registry_cfg = snd (the (register_all_cfg 1 (map fst (take 6 builtin_ciphers)) (map snd builtin_ciphers) (SQLITE_OK, start_cfg)))"

lemma start_registry_cfg:
  "register_all_cfg 1 (map fst (take 6 builtin_ciphers)) (map snd builtin_ciphers) (SQLITE_OK, start_cfg) = Some (SQLITE_OK, start_registry_cfg)"
proof -
  have "map_option fst (register_all_cfg 1 (map fst (take 6 builtin_ciphers)) (map snd builtin_ciphers) (SQLITE_OK, start_cfg))
    = Some SQLITE_OK"
    by code_simp
  then show ?thesis unfolding start_registry_cfg_def by auto
qed

lemma start_names: "map fst (take 6 builtin_ciphers) = [''aes128cbc'', ''aes256cbc'', ''chacha20'', ''sqlcipher'', ''rc4'', ''ascon128'']"
  by (simp add: builtin_ciphers_def)

lemma lifted_names:
  "d_name (lift_cipher obj cast d) = d_name d"
  "d_name mcAES128Descriptor = Some ''aes128cbc''" "d_name mcAES256Descriptor = Some ''aes256cbc''"
  "d_name mcChaCha20Descriptor = Some ''chacha20''" "d_name (mcSQLCipherDescriptor le) = Some ''sqlcipher''"
  "d_name (mcRC4Descriptor le) = Some ''rc4''" "d_name mcAscon128Descriptor = Some ''ascon128''"
  by (simp_all add: lift_cipher_def descriptor_defs)

lemma start_descriptors:
  "list_all2 (\<lambda>d n. all_methods d \<and> d_name d = Some n) (take 6 (any_descriptors le)) (map fst (take 6 builtin_ciphers))"
  unfolding start_names any_descriptors_def by (simp add: lifted_names)

lemma initialized:
  assumes "globalCipherCount (reg_cfg r0) = 0" "clientParams (reg_cfg r0) = None" "allocs (reg_cfg r0) = []"
  obtains r where "sqlite3mc_initialize (take 6 (any_descriptors le)) vfs_rc commonParams r0 = Some (vfs_rc, r)"
    "reg_cfg r = start_registry_cfg" "reg_desc r = any_descriptors le"
proof -
  let ?ds = "take 6 (any_descriptors le)"
  define r1 where "r1 = snd (sqlite3mcInitCipherTables commonParams r0)"
  have r1: "sqlite3mcInitCipherTables commonParams r0 = (SQLITE_OK, r1)"
    by (simp add: r1_def sqlite3mcInitCipherTables_def)
  have cfg: "reg_cfg r1 = start_cfg"
    using assms by (cases "reg_cfg r0") (simp add: r1_def sqlite3mcInitCipherTables_def start_cfg_def globalCommonParams_def)
  have desc: "reg_desc r1 = replicate 17 mcSentinelDescriptor" by (simp add: r1_def sqlite3mcInitCipherTables_def CODEC_COUNT_MAX_def)
  from register_all_with_cfg [OF start_descriptors [of le], of 1 "map snd builtin_ciphers" SQLITE_OK r1]
  have "map_option (\<lambda>(rc, r). (rc, reg_cfg r)) (register_all 1 ?ds (map snd builtin_ciphers) (SQLITE_OK, r1))
    = Some (SQLITE_OK, start_registry_cfg)"
    unfolding cfg start_registry_cfg .
  then obtain r where r: "register_all 1 ?ds (map snd builtin_ciphers) (SQLITE_OK, r1) = Some (SQLITE_OK, r)"
    "reg_cfg r = start_registry_cfg" by auto
  have "reg_desc r = ?ds @ replicate 11 mcSentinelDescriptor"
    using register_all_desc [OF r(1)] by (simp add: cfg desc start_cfg_def builtin_ciphers_def any_descriptors_def)
  then have "reg_desc r = any_descriptors le" by (simp add: any_descriptors_def)
  then show ?thesis using r by (intro that [of r]) (simp_all add: sqlite3mc_initialize_def r1)
qed
section \<open>The codecs of a process\<close>

text \<open>
  All codecs of a process with their environment: after the initialisation, codecs are created, set up with a cipher and a password, get a
  new write cipher, are copied, exchange their ciphers, encrypt and decrypt pages, and are terminated, in any order; in between, the rest of the library changes
  the settings of the codecs, the configuration, the B-trees and the random number generator. A step exists
  only when the operation does not run into undefined behaviour.
\<close>

inductive codec_system :: "bool \<Rightarrow> any_cipher Codec list \<Rightarrow> any_cipher mc_env \<Rightarrow> bool" for le where
  start: "sqlite3mc_initialize (take 6 (any_descriptors le)) SQLITE_OK commonParams r0 = Some (SQLITE_OK, e_reg e) \<Longrightarrow>
    globalCipherCount (reg_cfg r0) = 0 \<Longrightarrow> clientParams (reg_cfg r0) = None \<Longrightarrow> allocs (reg_cfg r0) = [] \<Longrightarrow>
    rng_wf (e_rng e) \<Longrightarrow> e_released e = [] \<Longrightarrow> e_bts e = [] \<Longrightarrow> codec_system le [] e"
| environment: "codec_system le cs e \<Longrightarrow> reg_desc (e_reg e') = reg_desc (e_reg e) \<Longrightarrow> e_released e' = e_released e \<Longrightarrow>
    rng_wf (e_rng e') \<Longrightarrow> \<forall>b \<in> set (e_bts e'). \<forall>h. pg_header b = Some h \<longrightarrow> 16 \<le> length h \<Longrightarrow> codec_system le cs e'"
| new: "codec_system le cs e \<Longrightarrow> sqlite3mcCodecInit (Some codec) = (SQLITE_OK, Some codec') \<Longrightarrow> codec_system le (codec' # cs) e"
| configure: "codec_system le cs e \<Longrightarrow> k < length cs \<Longrightarrow>
    m_readCipher codec = m_readCipher (cs ! k) \<Longrightarrow> m_readCipherType codec = m_readCipherType (cs ! k) \<Longrightarrow>
    m_writeCipher codec = m_writeCipher (cs ! k) \<Longrightarrow> m_writeCipherType codec = m_writeCipherType (cs ! k) \<Longrightarrow>
    length (m_keySalt codec) = 16 \<Longrightarrow> codec_system le (cs[k := codec]) e"
| set_up: "codec_system le cs e \<Longrightarrow> k < length cs \<Longrightarrow> sqlite3mcCodecSetup (cs ! k) ty pw e = Some (rc, codec, e') \<Longrightarrow>
    codec_system le (cs[k := codec]) e'"
| set_up_write: "codec_system le cs e \<Longrightarrow> k < length cs \<Longrightarrow> sqlite3mcSetupWriteCipher (cs ! k) ty pw wal e = Some (rc, codec, e') \<Longrightarrow>
    codec_system le (cs[k := codec]) e'"
| copy: "codec_system le cs e \<Longrightarrow> k < length cs \<Longrightarrow> j < length cs \<Longrightarrow> sqlite3mcCodecCopy (cs ! k) (cs ! j) e = Some (rc, codec, e') \<Longrightarrow>
    codec_system le (cs[k := codec]) e'"
| copy_cipher: "codec_system le cs e \<Longrightarrow> k < length cs \<Longrightarrow> sqlite3mcCopyCipher (cs ! k) r2w e = Some (rc, codec, e') \<Longrightarrow>
    codec_system le (cs[k := codec]) e'"
| read_key: "codec_system le cs e \<Longrightarrow> k < length cs \<Longrightarrow>
    sqlite3mcGenerateReadKey (cs ! k) pw (key_salt (cs ! k)) e = Some (codec, e') \<Longrightarrow> codec_system le (cs[k := codec]) e'"
| clear_salt: "codec_system le cs e \<Longrightarrow> k < length cs \<Longrightarrow> codec_system le (cs[k := sqlite3mcClearKeySalt (cs ! k)]) e"
| page: "codec_system le cs e \<Longrightarrow> k < length cs \<Longrightarrow> sqlite3mcCodec (Some (cs ! k)) data pg mode e = Some (d, Some codec, e') \<Longrightarrow>
    codec_system le (cs[k := codec]) e'"
| terminate: "codec_system le cs e \<Longrightarrow> k < length cs \<Longrightarrow> sqlite3mcCodecTerm (cs ! k) e = Some (codec, e') \<Longrightarrow>
    codec_system le (cs[k := codec]) e'"

lemma codec_system_invariant:
  "codec_system le cs e \<Longrightarrow> builtin.env_ok le e \<and> (\<forall>codec \<in> set cs. builtin.codec_ok codec)"
proof (induction rule: codec_system.induct)
  case (start r0 e)
  obtain r where "sqlite3mc_initialize (take 6 (any_descriptors le)) SQLITE_OK commonParams r0 = Some (SQLITE_OK, r)"
    "reg_desc r = any_descriptors le"
    using initialized [OF start(2-4)] by blast
  then show ?case using start by (simp add: builtin.env_ok_def)
next
  case (environment cs e e')
  then show ?case by (simp add: builtin.env_ok_def)
next
  case (new cs e codec codec')
  then show ?case using builtin.new_codec_ok by (simp add: sqlite3mcCodecInit_def)
next
  case (configure cs e k codec)
  then show ?case by (auto simp: builtin.codec_ok_def set_update_subset_insert dest!: subsetD [OF set_update_subset_insert])
next
  case (set_up cs e k ty pw rc codec e')
  then show ?case using builtin.CodecSetup_ok [OF set_up(3)] by (auto dest!: subsetD [OF set_update_subset_insert])
next
  case (set_up_write cs e k ty pw wal rc codec e')
  then show ?case using builtin.SetupWriteCipher_ok [OF set_up_write(3)] by (auto dest!: subsetD [OF set_update_subset_insert])
next
  case (copy cs e k j rc codec e')
  then show ?case using builtin.CodecCopy_ok [OF copy(4)] by (auto dest!: subsetD [OF set_update_subset_insert])
next
  case (copy_cipher cs e k r2w rc codec e')
  then show ?case using builtin.CopyCipher_ok [OF copy_cipher(3)] by (auto dest!: subsetD [OF set_update_subset_insert])
next
  case (read_key cs e k pw codec e')
  then show ?case using builtin.GenerateReadKey_ok [OF read_key(3) _ _ builtin.key_salt_length] by (auto dest!: subsetD [OF set_update_subset_insert])
next
  case (clear_salt cs e k)
  then show ?case using builtin.ClearKeySalt_ok by (auto dest!: subsetD [OF set_update_subset_insert])
next
  case (page cs e k data pg mode d codec e')
  then obtain rc where "codec = (cs ! k)\<lparr>m_lastError := rc\<rparr>" "builtin.env_ok le e'"
    using builtin.Codec_ok [OF page(3)] by auto
  then show ?case using page by (auto simp: builtin.codec_ok_def dest!: subsetD [OF set_update_subset_insert])
next
  case (terminate cs e k codec e')
  then show ?case using builtin.CodecTerm_ok [OF terminate(3)] by (auto dest!: subsetD [OF set_update_subset_insert])
qed

text \<open>
  What type safety means for one codec. Its objects are those of the ciphers whose numbers stand next to them, with arrays of the right size. And
  no call goes through NULL: pages are encrypted and decrypted by exactly the functions of the cipher of the object, and releasing, asking and
  copying between objects of one cipher are defined.
\<close>

definition well_typed :: "any_cipher Codec \<Rightarrow> bool" where
  "well_typed codec \<longleftrightarrow>
     (\<forall>c. m_readCipher codec = Some c \<longrightarrow> m_readCipherType codec = cipher_number c \<and> object_ok c)
   \<and> (\<forall>c. m_writeCipher codec = Some c \<longrightarrow> m_writeCipherType codec = cipher_number c \<and> object_ok c)"

definition calls_own_cipher :: "bool \<Rightarrow> any_cipher Codec \<Rightarrow> any_cipher mc_env \<Rightarrow> bool" where
  "calls_own_cipher le codec e \<longleftrightarrow>
     (\<forall>c page data. m_readCipher codec = Some c \<longrightarrow>
        sqlite3mcDecrypt codec page data e = decrypt_page le c page data (read_reserved codec) (m_hmacCheck codec \<noteq> 0))
   \<and> (\<forall>w c page data. (if w then m_writeCipher codec else m_readCipher codec) = Some c \<longrightarrow>
        sqlite3mcEncrypt codec page data w e = map_option (\<lambda>(rc, d, r). (rc, d, e\<lparr>e_rng := r\<rparr>))
          (encrypt_page le c page data (if w then write_reserved codec else read_reserved codec) (e_rng e)))"

definition calls_defined :: "any_cipher Codec \<Rightarrow> any_cipher mc_env \<Rightarrow> bool" where
  "calls_defined codec e \<longleftrightarrow> sqlite3mcCodecTerm codec e \<noteq> None
     \<and> sqlite3mcGetLegacyReadCipher codec e \<noteq> None \<and> sqlite3mcGetLegacyWriteCipher codec e \<noteq> None
     \<and> sqlite3mcGetPageSizeReadCipher codec e \<noteq> None \<and> sqlite3mcGetPageSizeWriteCipher codec e \<noteq> None
     \<and> sqlite3mcGetReservedReadCipher codec e \<noteq> None \<and> sqlite3mcGetReservedWriteCipher codec e \<noteq> None
     \<and> sqlite3mcGetSaltWriteCipher codec e \<noteq> None
     \<and> (m_readCipher codec \<noteq> None \<and> m_writeCipher codec \<noteq> None \<and> m_writeCipherType codec = m_readCipherType codec \<longrightarrow>
          (\<forall>r2w. sqlite3mcCopyCipher codec r2w e \<noteq> None))"

text \<open>
  C24. The codec casts its cipher objects by a number that it keeps next to them, and calls methods through a table of function pointers. In every state that the
  operations on codecs reach, each codec is well typed, its calls on its own objects are defined and are those of the cipher of the object, and objects given back to the allocator hold no byte of a key or salt.
  The descriptors of the six registered ciphers have all methods. A setup with a number up to 0 is refused; one with a number that is not registered
  is undefined (\<open>None\<close>): it calls NULL, which the code does not check.
\<close>

theorem codec_type_safety:
  assumes "codec_system le cs e" and "codec \<in> set cs"
  shows "well_typed codec \<and> calls_own_cipher le codec e \<and> calls_defined codec e \<and> (\<forall>b \<in> set (e_released e). object_wiped b)
    \<and> (\<forall>ty \<in> {1..6}. \<exists>d. descriptor e ty = Some d \<and> all_methods d)
    \<and> (\<forall>ty pw. ty \<le> 0 \<longrightarrow> sqlite3mcCodecSetup codec ty pw e = Some (SQLITE_ERROR, codec, e))
    \<and> (\<forall>ty pw. 6 < ty \<longrightarrow> sqlite3mcCodecSetup codec ty pw e = None)"
proof -
  have inv: "builtin.env_ok le e" "builtin.codec_ok codec" using codec_system_invariant [OF assms(1)] assms(2) by simp_all
  have "well_typed codec" using inv(2) by (auto simp: well_typed_def builtin.codec_ok_def)
  moreover have "calls_own_cipher le codec e"
    unfolding calls_own_cipher_def using builtin.Decrypt_eq [OF _ inv(2,1)] builtin.Encrypt_eq [OF _ inv(2,1)] by blast
  moreover have "calls_defined codec e"
    unfolding calls_defined_def
    using builtin.CodecTerm_defined [OF inv(2,1)] builtin.queries_defined [OF inv(2,1)] builtin.CopyCipher_defined [OF inv(2,1)] by fastforce
  moreover have "\<exists>d. descriptor e ty = Some d \<and> all_methods d" if "ty \<in> {1..6}" for ty
    using builtin.registered_descriptor [of ty le e] that inv(1) by auto
  moreover have "sqlite3mcCodecSetup codec ty pw e = Some (SQLITE_ERROR, codec, e)" if "ty \<le> 0" for ty pw
    using that by (simp add: sqlite3mcCodecSetup_def)
  ultimately show ?thesis using builtin.Setup_unregistered(1) [OF _ _ inv(1)] inv(1) by (simp add: builtin.env_ok_def)
qed

text \<open>A codec that is set up with RC4, in the state after the initialisation with one B-tree.\<close>

definition page_tree :: "int \<Rightarrow> BtShared" where
  "page_tree n = \<lparr>bt_pageSize = n, bt_usableSize = n, bt_nReserveWanted = 0, bt_pageSizeFixed = True, pg_pageSize = n,
     pg_nReserve = 0, pg_header = None, pg_errCode = SQLITE_OK, pg_error = False, pg_cacheClears = 0\<rparr>"

definition start_registry :: "bool \<Rightarrow> any_cipher mc_registry" where
  "start_registry le = snd (the (sqlite3mc_initialize (take 6 (any_descriptors le)) SQLITE_OK commonParams
     \<lparr>reg_cfg = start_cfg, reg_desc = []\<rparr>))"

lemma start_registry:
  "sqlite3mc_initialize (take 6 (any_descriptors le)) SQLITE_OK commonParams \<lparr>reg_cfg = start_cfg, reg_desc = []\<rparr>
     = Some (SQLITE_OK, start_registry le)"
  "reg_cfg (start_registry le) = start_registry_cfg" "reg_desc (start_registry le) = any_descriptors le"
proof -
  obtain r where r: "sqlite3mc_initialize (take 6 (any_descriptors le)) SQLITE_OK commonParams \<lparr>reg_cfg = start_cfg, reg_desc = []\<rparr>
      = Some (SQLITE_OK, r)" "reg_cfg r = start_registry_cfg" "reg_desc r = any_descriptors le"
    by (rule initialized [of "\<lparr>reg_cfg = start_cfg, reg_desc = []\<rparr>" le SQLITE_OK]) (simp_all add: start_cfg_def)
  then have "start_registry le = r" by (simp add: start_registry_def)
  with r show "sqlite3mc_initialize (take 6 (any_descriptors le)) SQLITE_OK commonParams \<lparr>reg_cfg = start_cfg, reg_desc = []\<rparr>
     = Some (SQLITE_OK, start_registry le)"
    "reg_cfg (start_registry le) = start_registry_cfg" "reg_desc (start_registry le) = any_descriptors le" by simp_all
qed

definition start_env :: "bool \<Rightarrow> any_cipher mc_env" where
  "start_env le = \<lparr>e_reg = start_registry le, e_rng = full_rng, e_bts = [page_tree 512], e_errCode = SQLITE_OK, e_released = []\<rparr>"

lemma start_cfg_fields: "globalCipherCount start_cfg = 0" "clientParams start_cfg = None" "allocs start_cfg = []"
  by (simp_all add: start_cfg_def)

lemma start_system: "codec_system le [] (start_env le)"
proof -
  have "codec_system le [] ((start_env le)\<lparr>e_bts := []\<rparr>)"
    by (rule codec_system.start [of le "\<lparr>reg_cfg = start_cfg, reg_desc = []\<rparr>"])
      (simp_all add: start_env_def start_registry(1) start_cfg_fields)
  then show ?thesis by (rule codec_system.environment) (simp_all add: start_env_def page_tree_def)
qed

text \<open>What a setup reads from the configuration.\<close>

definition setup_reads :: "mc_config \<Rightarrow> (int \<times> int \<times> RC4Cipher option \<times> RC4Cipher option) option" where
  "setup_reads s = do {
     (h, s) \<leftarrow> read_parameter (sqlite3mcGetCipherParams False ''global'' s) ''hmac_check'' s;
     (w, s) \<leftarrow> read_parameter (sqlite3mcGetCipherParams False ''global'' s) ''mc_legacy_wal'' s;
     (c, s) \<leftarrow> AllocateRC4Cipher False s;
     (d, s) \<leftarrow> AllocateRC4Cipher False s;
     Some (h, w, c, d)
   }"

definition fresh_rc4 :: RC4Cipher where
  "fresh_rc4 = \<lparr>rc4_legacy = 1, rc4_legacyPageSize = 0, rc4_keyLength = 16, rc4_key = replicate 16 0\<rparr>"

lemma setup_reads: "setup_reads start_registry_cfg = Some (1, 0, Some fresh_rc4, Some fresh_rc4)"
  by code_simp

definition open_codec :: "any_cipher Codec" where
  "open_codec = new_codec\<lparr>m_btShared := Some 0, m_pageSize := 512\<rparr>"

lemma setup_rc4:
  "\<exists>codec e a. sqlite3mcCodecSetup open_codec 5 pw (start_env le) = Some (SQLITE_OK, codec, e) \<and> m_readCipher codec = Some (Obj_RC4 a)
     \<and> m_writeCipher codec = Some (Obj_RC4 a) \<and> m_btShared codec = Some 0 \<and> write_reserved codec = 0 \<and> read_reserved codec = 0
     \<and> m_walLegacy codec = 0 \<and> e_bts e = [page_tree 512]"
proof -
  obtain s1 s2 s3 s4 where r:
    "read_parameter (sqlite3mcGetCipherParams False ''global'' start_registry_cfg) ''hmac_check'' start_registry_cfg = Some (1, s1)"
    "read_parameter (sqlite3mcGetCipherParams False ''global'' s1) ''mc_legacy_wal'' s1 = Some (0, s2)"
    "AllocateRC4Cipher False s2 = Some (Some fresh_rc4, s3)" "AllocateRC4Cipher False s3 = Some (Some fresh_rc4, s4)"
    using setup_reads by (auto simp: setup_reads_def bind_eq_Some_conv)
  show ?thesis
    by (simp add: sqlite3mcCodecSetup_def global_parameter_def open_codec_def new_codec_def start_env_def start_registry r
      allocate_cipher_def cipher_method_def descriptor_def descriptor_defs Let_def
      sqlite3mcGenerateReadKey_def key_salt_def generate_key_def mcReadDatabaseHeader_def page_tree_def sqlite3mcCopyCipher_def copy_slot_def
      clone_cipher_def GenerateKeyRC4Cipher_def CloneRC4Cipher_def fresh_rc4_def memcpy_at_def write_reserved_def read_reserved_def)
qed

theorem codec_type_safety_witness:
  "\<exists>cs e codec c. codec_system True cs e \<and> codec \<in> set cs \<and> m_readCipher codec = Some c \<and> m_readCipherType codec = 5 \<and> cipher_number c = 5
     \<and> (\<forall>page data. sqlite3mcDecrypt codec page data e = decrypt_page True c page data (read_reserved codec) (m_hmacCheck codec \<noteq> 0))
     \<and> sqlite3mcCodecSetup codec 7 [] e = None"
proof -
  obtain codec e where set_up: "sqlite3mcCodecSetup open_codec 5 [0x70, 0x77] (start_env True) = Some (SQLITE_OK, codec, e)"
    using setup_rc4 by blast
  have "codec_system True [new_codec] (start_env True)"
    by (rule codec_system.new [OF start_system, where codec = new_codec]) (simp add: sqlite3mcCodecInit_def)
  from codec_system.configure [OF this, of 0 open_codec] have "codec_system True [open_codec] (start_env True)"
    by (simp add: open_codec_def new_codec_def)
  moreover from this have "builtin.codec_ok open_codec" "builtin.env_ok True (start_env True)" using codec_system_invariant by force+
  ultimately have "codec_system True [codec] e" "builtin.matched True codec" "m_readCipherType codec = 5"
    using codec_system.set_up [of True "[open_codec]" "start_env True" 0 5] set_up builtin.CodecSetup_ok [OF set_up, of True] by auto
  then obtain c where "codec_system True [codec] e" "m_readCipherType codec = 5" "m_readCipher codec = Some c"
    by (auto simp: builtin.matched_def builtin.same_cipher_def)
  moreover from this(1) have "well_typed codec \<and> calls_own_cipher True codec e \<and> sqlite3mcCodecSetup codec 7 [] e = None"
    using codec_type_safety [of True "[codec]" e codec] by simp
  ultimately show ?thesis
    by (intro exI [of _ "[codec]"] exI [of _ e] exI [of _ codec] exI [of _ c]) (simp add: well_typed_def calls_own_cipher_def)
qed

end
