(* ===== verification/VFS.thy ===== *)
theory VFS
  imports Cipher_Table
begin

text \<open>
  The VFS shim of \<^verbatim>\<open>src/src/sqlite3mc_vfs.c\<close>: reading and writing the files of a database through the codec. The underlying
  VFS is a parameter, a record of its two methods; \<open>'f\<close> is the type of its open files. As in the code, a main database file owns a
  codec, and journal files use that of the main database file that they belong to; the functions below get this codec
  and give it back. \<open>None\<close> is undefined behaviour.
\<close>

unbundle bit_operations_syntax

section \<open>Files\<close>

text \<open>
  \<^verbatim>\<open>xRead\<close> fills a buffer of the given size, with its result code and the new state of the file; \<^verbatim>\<open>xWrite\<close> gets the
  bytes and the offset.
\<close>

record 'f io_methods =
  xRead :: "'f \<Rightarrow> nat \<Rightarrow> int \<Rightarrow> int \<times> bytes \<times> 'f"
  xWrite :: "'f \<Rightarrow> bytes \<Rightarrow> int \<Rightarrow> int \<times> 'f"

text \<open>\<^verbatim>\<open>struct sqlite3mc_file\<close>, without the pointers that connect it to other files.\<close>

record 'f mc_file =
  f_real :: 'f
  f_openFlags :: int
  f_pageNo :: int

definition SQLITE_OPEN_MAIN_DB :: int where "SQLITE_OPEN_MAIN_DB = 0x100"
definition SQLITE_OPEN_MAIN_JOURNAL :: int where "SQLITE_OPEN_MAIN_JOURNAL = 0x800"
definition SQLITE_OPEN_SUBJOURNAL :: int where "SQLITE_OPEN_SUBJOURNAL = 0x2000"
definition SQLITE_OPEN_WAL :: int where "SQLITE_OPEN_WAL = 0x80000"

definition walFrameHeaderSize :: int where "walFrameHeaderSize = 24"

definition INT_MAX :: int where "INT_MAX = 2 ^ 31 - 1"

definition sqlite3Get4byte :: "bytes \<Rightarrow> int" where
  "sqlite3Get4byte p = sint (LOAD32_BE p)"

text \<open>The result of an operation on a file.\<close>

type_synonym ('a, 'f, 'c) io = "('a \<times> 'f mc_file \<times> 'c Codec option \<times> 'c mc_env) option"

definition encrypted :: "'c Codec option \<Rightarrow> bool" where
  "encrypted codec = (case codec of None \<Rightarrow> False | Some c \<Rightarrow> m_isEncrypted c)"

definition sqlite3mcGetCodecLastError :: "'c Codec option \<Rightarrow> int" where
  "sqlite3mcGetCodecLastError codec = (case codec of None \<Rightarrow> SQLITE_OK | Some c \<Rightarrow> m_lastError c)"

definition page_size :: "'c Codec option \<Rightarrow> 'c mc_env \<Rightarrow> int option" where
  "page_size codec e = (case codec of None \<Rightarrow> None | Some c \<Rightarrow> sqlite3mcGetPageSize c e)"

section \<open>Reading\<close>

text \<open>
  The loop over full pages: every page of the buffer is decrypted in place, the error of the last one remains. The page number is an
  \<^verbatim>\<open>int\<close>, so that incrementing the largest one is undefined.
\<close>

fun read_pages :: "nat \<Rightarrow> nat \<Rightarrow> int \<Rightarrow> int \<Rightarrow> bytes \<Rightarrow> 'c Codec option \<Rightarrow> 'c mc_env \<Rightarrow> (int \<times> bytes \<times> 'c Codec option \<times> 'c mc_env) option" where
  "read_pages 0 n pageNo rc data codec e = Some (rc, data, codec, e)"
| "read_pages (Suc k) n pageNo rc data codec e = do {
     (d, codec, e) \<leftarrow> sqlite3mcCodec codec (take n data) pageNo 3 e;
     (rc, rest, codec, e) \<leftarrow> (if pageNo = INT_MAX then None
       else read_pages k n (pageNo + 1) (sqlite3mcGetCodecLastError codec) (drop n data) codec e);
     Some (rc, d @ rest, codec, e)
   }"

text \<open>
  \<^verbatim>\<open>mcReadMainDb\<close>, called when the buffer has been read. A part of a page is cut out of the whole page, which is read and decrypted
  in the page buffer of the codec; only requests inside one page are defined. The number of the page, a 64-bit quotient, is converted to an \<^verbatim>\<open>int\<close>.
\<close>

definition mcReadMainDb :: "'f io_methods \<Rightarrow> 'f mc_file \<Rightarrow> bytes \<Rightarrow> int \<Rightarrow> 'c Codec option \<Rightarrow> 'c mc_env \<Rightarrow> (int \<times> bytes, 'f, 'c) io" where
  "mcReadMainDb io file buffer offset codec e =
     (let count = length buffer in
      if offset = 0 \<and> count = 16 then Some ((SQLITE_OK, buffer), file, codec, e)
      else if encrypted codec then do {
        pageSize \<leftarrow> page_size codec e;
        if pageSize \<le> 0 then None
        else
          let n = nat pageSize; deltaOffset = offset mod pageSize; deltaCount = int count mod pageSize in
          if deltaOffset \<noteq> 0 \<or> deltaCount \<noteq> 0 then
            let prevOffset = offset - deltaOffset;
                (rc, pageBuffer, f) = xRead io (f_real file) n prevOffset;
                file = file\<lparr>f_real := f\<rparr>
            in if n > 65536 + 20 \<or> length pageBuffer \<noteq> n then None
               else if rc = SQLITE_IOERR_SHORT_READ then Some ((rc, buffer), file, codec, e)
               else do {
                 (d, codec, e) \<leftarrow> sqlite3mcCodec codec pageBuffer (as_int32 (prevOffset div pageSize + 1)) 3 e;
                 if nat deltaOffset + count > n then None
                 else Some ((sqlite3mcGetCodecLastError codec, region (nat deltaOffset) count d), file, codec, e)
               }
          else do {
            (rc, d, codec, e) \<leftarrow> read_pages (count div n) n (as_int32 (offset div pageSize + 1)) SQLITE_OK buffer codec e;
            Some ((rc, d), file, codec, e)
          }
      } else Some ((SQLITE_OK, buffer), file, codec, e))"

text \<open>The page number of a journal is the last four-byte value read before the page; \<open>resets\<close> says whether it is forgotten afterwards.\<close>

definition read_journal :: "bool \<Rightarrow> 'f mc_file \<Rightarrow> bytes \<Rightarrow> 'c Codec option \<Rightarrow> 'c mc_env \<Rightarrow> (int \<times> bytes, 'f, 'c) io" where
  "read_journal resets file buffer codec e =
     (let count = length buffer in
      if encrypted codec then do {
        pageSize \<leftarrow> page_size codec e;
        if int count = pageSize \<and> f_pageNo file \<noteq> 0 then do {
          (d, codec, e) \<leftarrow> sqlite3mcCodec codec buffer (f_pageNo file) 3 e;
          Some ((sqlite3mcGetCodecLastError codec, d), if resets then file\<lparr>f_pageNo := 0\<rparr> else file, codec, e)
        }
        else if count = 4 then Some ((SQLITE_OK, buffer), file\<lparr>f_pageNo := sqlite3Get4byte buffer\<rparr>, codec, e)
        else Some ((SQLITE_OK, buffer), file, codec, e)
      } else Some ((SQLITE_OK, buffer), file, codec, e))"

definition mcReadMainJournal :: "'f mc_file \<Rightarrow> bytes \<Rightarrow> 'c Codec option \<Rightarrow> 'c mc_env \<Rightarrow> (int \<times> bytes, 'f, 'c) io" where
  "mcReadMainJournal = read_journal True"

definition mcReadSubJournal :: "'f mc_file \<Rightarrow> bytes \<Rightarrow> 'c Codec option \<Rightarrow> 'c mc_env \<Rightarrow> (int \<times> bytes, 'f, 'c) io" where
  "mcReadSubJournal = read_journal False"

text \<open>The page number of a frame of the WAL is read from its header; 0 means that it is not known.\<close>

definition wal_page_no :: "'f io_methods \<Rightarrow> 'f mc_file \<Rightarrow> int \<Rightarrow> int \<times> int \<times> 'f mc_file" where
  "wal_page_no io file offset =
     (let (rc, ac, f) = xRead io (f_real file) 4 (offset - walFrameHeaderSize)
      in (rc, if rc = SQLITE_OK then sqlite3Get4byte ac else 0, file\<lparr>f_real := f\<rparr>))"

definition mcReadWal :: "'f io_methods \<Rightarrow> 'f mc_file \<Rightarrow> bytes \<Rightarrow> int \<Rightarrow> 'c Codec option \<Rightarrow> 'c mc_env \<Rightarrow> (int \<times> bytes, 'f, 'c) io" where
  "mcReadWal io file buffer offset codec e =
     (let count = length buffer in
      if encrypted codec then do {
        pageSize \<leftarrow> page_size codec e;
        walLegacy \<leftarrow> map_option m_walLegacy codec;
        if int count = pageSize then
          let (rc, pageNo, file) = wal_page_no io file offset in
          if pageNo \<noteq> 0 then do {
            (d, codec, e) \<leftarrow> sqlite3mcCodec codec buffer pageNo 3 e;
            Some ((sqlite3mcGetCodecLastError codec, d), file, codec, e)
          } else Some ((rc, buffer), file, codec, e)
        else if walLegacy \<noteq> 0 \<and> int count = pageSize + walFrameHeaderSize then
          let pageNo = sqlite3Get4byte buffer in
          if pageNo \<noteq> 0 then do {
            (d, codec, e) \<leftarrow> sqlite3mcCodec codec (drop 24 buffer) pageNo 3 e;
            Some ((sqlite3mcGetCodecLastError codec, take 24 buffer @ d), file, codec, e)
          } else Some ((SQLITE_OK, buffer), file, codec, e)
        else Some ((SQLITE_OK, buffer), file, codec, e)
      } else Some ((SQLITE_OK, buffer), file, codec, e))"

definition mcIoRead :: "'f io_methods \<Rightarrow> 'f mc_file \<Rightarrow> nat \<Rightarrow> int \<Rightarrow> 'c Codec option \<Rightarrow> 'c mc_env \<Rightarrow> (int \<times> bytes, 'f, 'c) io" where
  "mcIoRead io file count offset codec e =
     (let (rc, buffer, f) = xRead io (f_real file) count offset; file = file\<lparr>f_real := f\<rparr>
      in if rc = SQLITE_IOERR_SHORT_READ then Some ((rc, buffer), file, codec, e)
         else if f_openFlags file AND SQLITE_OPEN_MAIN_DB \<noteq> 0 then mcReadMainDb io file buffer offset codec e
         else if f_openFlags file AND SQLITE_OPEN_MAIN_JOURNAL \<noteq> 0 then mcReadMainJournal file buffer codec e
         else if f_openFlags file AND SQLITE_OPEN_SUBJOURNAL \<noteq> 0 then mcReadSubJournal file buffer codec e
         else if f_openFlags file AND SQLITE_OPEN_WAL \<noteq> 0 then mcReadWal io file buffer offset codec e
         else Some ((rc, buffer), file, codec, e))"

section \<open>Writing\<close>

definition real_write :: "'f io_methods \<Rightarrow> 'f mc_file \<Rightarrow> bytes \<Rightarrow> int \<Rightarrow> int \<times> 'f mc_file" where
  "real_write io file data offset = (let (rc, f) = xWrite io (f_real file) data offset in (rc, file\<lparr>f_real := f\<rparr>))"

text \<open>Full pages: the content that \<^verbatim>\<open>sqlite3mcCodec\<close> returns is written, whatever its error; the result of the last page remains.\<close>

fun write_pages :: "'f io_methods \<Rightarrow> nat \<Rightarrow> nat \<Rightarrow> int \<Rightarrow> int \<Rightarrow> int \<Rightarrow> bytes \<Rightarrow> 'f mc_file \<Rightarrow> 'c Codec option \<Rightarrow> 'c mc_env \<Rightarrow> (int, 'f, 'c) io" where
  "write_pages io 0 n pageNo offset rc data file codec e = Some (rc, file, codec, e)"
| "write_pages io (Suc k) n pageNo offset rc data file codec e = do {
     (d, codec, e) \<leftarrow> sqlite3mcCodec codec (take n data) pageNo 6 e;
     let (rc, file) = real_write io file (take n d) offset;
     if pageNo = INT_MAX then None else write_pages io k n (pageNo + 1) (offset + int n) rc (drop n data) file codec e
   }"

definition mcWriteMainDb :: "'f io_methods \<Rightarrow> 'f mc_file \<Rightarrow> bytes \<Rightarrow> int \<Rightarrow> 'c Codec option \<Rightarrow> 'c mc_env \<Rightarrow> (int, 'f, 'c) io" where
  "mcWriteMainDb io file buffer offset codec e =
     (let count = length buffer; plain = (let (rc, file) = real_write io file buffer offset in Some (rc, file, codec, e)) in
      if encrypted codec then do {
        pageSize \<leftarrow> page_size codec e;
        if pageSize \<le> 0 then None
        else
          let n = nat pageSize; deltaOffset = offset mod pageSize; deltaCount = int count mod pageSize in
          if deltaOffset \<noteq> 0 \<or> deltaCount \<noteq> 0 then plain
          else write_pages io (count div n) n (as_int32 (offset div pageSize + 1)) offset SQLITE_OK buffer file codec e
      } else plain)"

text \<open>\<^verbatim>\<open>mcWriteMainJournal\<close> and \<^verbatim>\<open>mcWriteSubJournal\<close> do the same; the page number stays after a page has been written.\<close>

definition write_journal :: "'f io_methods \<Rightarrow> 'f mc_file \<Rightarrow> bytes \<Rightarrow> int \<Rightarrow> 'c Codec option \<Rightarrow> 'c mc_env \<Rightarrow> (int, 'f, 'c) io" where
  "write_journal io file buffer offset codec e =
     (let count = length buffer in
      if encrypted codec then do {
        pageSize \<leftarrow> page_size codec e;
        if int count = pageSize \<and> f_pageNo file \<noteq> 0 then do {
          (d, codec, e) \<leftarrow> sqlite3mcCodec codec buffer (f_pageNo file) 7 e;
          let (rc, file) = real_write io file (take count d) offset;
          Some (rc, file, codec, e)
        } else
          let (rc, file) = real_write io file buffer offset
          in Some (rc, if count = 4 then file\<lparr>f_pageNo := (if rc = SQLITE_OK then sqlite3Get4byte buffer else 0)\<rparr> else file, codec, e)
      } else let (rc, file) = real_write io file buffer offset in Some (rc, file, codec, e))"

definition mcWriteMainJournal :: "'f io_methods \<Rightarrow> 'f mc_file \<Rightarrow> bytes \<Rightarrow> int \<Rightarrow> 'c Codec option \<Rightarrow> 'c mc_env \<Rightarrow> (int, 'f, 'c) io" where
  "mcWriteMainJournal = write_journal"

definition mcWriteSubJournal :: "'f io_methods \<Rightarrow> 'f mc_file \<Rightarrow> bytes \<Rightarrow> int \<Rightarrow> 'c Codec option \<Rightarrow> 'c mc_env \<Rightarrow> (int, 'f, 'c) io" where
  "mcWriteSubJournal = write_journal"

text \<open>Only the legacy mode encrypts here; otherwise \<^verbatim>\<open>sqlite3mcPagerCodec\<close> has encrypted the page before.\<close>

definition mcWriteWal :: "'f io_methods \<Rightarrow> 'f mc_file \<Rightarrow> bytes \<Rightarrow> int \<Rightarrow> 'c Codec option \<Rightarrow> 'c mc_env \<Rightarrow> (int, 'f, 'c) io" where
  "mcWriteWal io file buffer offset codec e =
     (let count = length buffer; plain = (\<lambda>file. let (rc, file) = real_write io file buffer offset in Some (rc, file, codec, e));
          legacy = (case codec of None \<Rightarrow> False | Some c \<Rightarrow> m_walLegacy c \<noteq> 0 \<and> m_isEncrypted c) in
      if legacy then do {
        pageSize \<leftarrow> page_size codec e;
        if int count = pageSize then
          let (rc, pageNo, file) = wal_page_no io file offset in
          if pageNo \<noteq> 0 then do {
            (d, codec, e) \<leftarrow> sqlite3mcCodec codec buffer pageNo 7 e;
            let (rc, file) = real_write io file (take count d) offset;
            Some (rc, file, codec, e)
          } else plain file
        else if int count = pageSize + walFrameHeaderSize then
          let pageNo = sqlite3Get4byte buffer in
          if pageNo \<noteq> 0 then do {
            (d, codec, e) \<leftarrow> sqlite3mcCodec codec (drop 24 buffer) pageNo 7 e;
            let (rc, file) = real_write io file (take 24 buffer) offset;
            let (rc, file) = real_write io file (take (count - 24) d) (offset + walFrameHeaderSize);
            Some (rc, file, codec, e)
          } else plain file
        else plain file
      } else plain file)"

definition mcIoWrite :: "'f io_methods \<Rightarrow> 'f mc_file \<Rightarrow> bytes \<Rightarrow> int \<Rightarrow> 'c Codec option \<Rightarrow> 'c mc_env \<Rightarrow> (int, 'f, 'c) io" where
  "mcIoWrite io file buffer offset codec e =
     (if f_openFlags file AND SQLITE_OPEN_MAIN_DB \<noteq> 0 then mcWriteMainDb io file buffer offset codec e
      else if f_openFlags file AND SQLITE_OPEN_MAIN_JOURNAL \<noteq> 0 then mcWriteMainJournal io file buffer offset codec e
      else if f_openFlags file AND SQLITE_OPEN_SUBJOURNAL \<noteq> 0 then mcWriteSubJournal io file buffer offset codec e
      else if f_openFlags file AND SQLITE_OPEN_WAL \<noteq> 0 then mcWriteWal io file buffer offset codec e
      else let (rc, file) = real_write io file buffer offset in Some (rc, file, codec, e))"

text \<open>The content of a page for the WAL; \<open>isMc\<close> says that the file of the pager is one of this VFS.\<close>

definition sqlite3mcPagerCodec :: "bool \<Rightarrow> bytes \<Rightarrow> int \<Rightarrow> 'c Codec option \<Rightarrow> 'c mc_env \<Rightarrow> (bytes \<times> 'c Codec option \<times> 'c mc_env) option" where
  "sqlite3mcPagerCodec isMc data pgno codec e =
     (if isMc \<and> encrypted codec \<and> map_option m_walLegacy codec = Some 0 then sqlite3mcCodec codec data pgno 6 e
      else Some (data, codec, e))"

section \<open>The underlying files\<close>

text \<open>
  What \<^verbatim>\<open>sqlite3_io_methods\<close> documents of a file with the content \<open>content f\<close>: a successful \<^verbatim>\<open>xWrite\<close> puts the bytes in their place and
  changes no others, extending the file as needed; \<^verbatim>\<open>xRead\<close> leaves the file as it is and fills the buffer, with the bytes of the file when it is successful.
\<close>

definition storage :: "'f io_methods \<Rightarrow> ('f \<Rightarrow> bytes) \<Rightarrow> bool" where
  "storage io content \<longleftrightarrow>
     (\<forall>f data off f'. 0 \<le> off \<longrightarrow> xWrite io f data off = (SQLITE_OK, f') \<longrightarrow>
        length (content f) \<le> length (content f') \<and> nat off + length data \<le> length (content f')
        \<and> region (nat off) (length data) (content f') = data
        \<and> (\<forall>k m. k + m \<le> length (content f) \<longrightarrow> k + m \<le> nat off \<or> nat off + length data \<le> k \<longrightarrow>
             region k m (content f') = region k m (content f)))
   \<and> (\<forall>f n off rc d f'. 0 \<le> off \<longrightarrow> xRead io f n off = (rc, d, f') \<longrightarrow>
        length d = n \<and> content f' = content f \<and> (rc = SQLITE_OK \<longrightarrow> nat off + n \<le> length (content f) \<and> d = region (nat off) n (content f)))"

lemma storage_write:
  assumes "storage io content" "0 \<le> off" "xWrite io f data off = (SQLITE_OK, f')"
  shows "length (content f) \<le> length (content f')" "nat off + length data \<le> length (content f')"
    "region (nat off) (length data) (content f') = data"
    "k + m \<le> length (content f) \<Longrightarrow> k + m \<le> nat off \<or> nat off + length data \<le> k \<Longrightarrow> region k m (content f') = region k m (content f)"
  using assms unfolding storage_def by blast+

lemma storage_read:
  assumes "storage io content" "0 \<le> off" "xRead io f n off = (rc, d, f')"
  shows "length d = n" "content f' = content f" "rc = SQLITE_OK \<Longrightarrow> nat off + n \<le> length (content f) \<and> d = region (nat off) n (content f)"
  using assms unfolding storage_def by blast+

text \<open>Files in memory are such files.\<close>

definition memory_write :: "bytes \<Rightarrow> nat \<Rightarrow> bytes \<Rightarrow> bytes" where
  "memory_write f off data = memcpy_at (f @ replicate (off + length data - length f) 0) off data"

definition memory_io :: "bytes io_methods" where
  "memory_io = \<lparr>xRead = (\<lambda>f n off. if nat off + n \<le> length f then (SQLITE_OK, region (nat off) n f, f)
                  else (SQLITE_IOERR_SHORT_READ, take n (drop (nat off) f @ replicate n 0), f)),
     xWrite = (\<lambda>f data off. (SQLITE_OK, memory_write f (nat off) data))\<rparr>"

lemma region_append_left: "k + m \<le> length xs \<Longrightarrow> region k m (xs @ ys) = region k m xs"
  by (simp add: region_def)

lemma memory_write:
  "length f \<le> length (memory_write f off d)" "off + length d \<le> length (memory_write f off d)"
  "region off (length d) (memory_write f off d) = d"
  "k + m \<le> length f \<Longrightarrow> k + m \<le> off \<or> off + length d \<le> k \<Longrightarrow> region k m (memory_write f off d) = region k m f"
  by (auto simp: memory_write_def region_memcpy_at_before region_memcpy_at_after region_append_left)

lemma memory_storage: "storage memory_io id"
  unfolding storage_def memory_io_def using memory_write by (auto split: if_splits)

section \<open>The pages of a database file\<close>

text \<open>
  The page number \<open>p\<close> has the bytes from \<open>page_offset n p\<close> on. The numbers below are those that the code can keep in an
  \<^verbatim>\<open>int\<close> and increment.
\<close>

definition int_page :: "int \<Rightarrow> bool" where
  "int_page p \<longleftrightarrow> 1 \<le> p \<and> p < INT_MAX"

lemma int_page_conversion: "int_page p \<Longrightarrow> as_int32 p = p \<and> p \<noteq> INT_MAX \<and> 1 \<le> p"
  by (simp add: int_page_def INT_MAX_def as_int32_def)

definition page_offset :: "int \<Rightarrow> int \<Rightarrow> int" where
  "page_offset n p = (p - 1) * n"

lemma page_offset_simps:
  assumes "0 < n" "1 \<le> p"
  shows "0 \<le> page_offset n p" "page_offset n p mod n = 0" "page_offset n p div n + 1 = p"
  using assms by (simp_all add: page_offset_def)

lemma page_offset_disjoint:
  assumes "0 < n" "1 \<le> p" "1 \<le> q" "p \<noteq> q"
  shows "nat (page_offset n p) + nat n \<le> nat (page_offset n q) \<or> nat (page_offset n q) + nat n \<le> nat (page_offset n p)"
proof -
  have step: "nat (page_offset n a) + nat n \<le> nat (page_offset n b)" if "1 \<le> a" "a < b" for a b
  proof -
    have "a * n \<le> (b - 1) * n" using that assms(1) by (intro mult_right_mono) simp_all
    then have "page_offset n a + n \<le> page_offset n b" by (simp add: page_offset_def algebra_simps)
    moreover have "0 \<le> page_offset n a" using that assms(1) by (simp add: page_offset_def)
    ultimately show ?thesis using assms(1) by linarith
  qed
  show ?thesis using step [of p q] step [of q p] assms by linarith
qed

text \<open>Writing one page with a file of the main database.\<close>

lemma mcIoWrite_page:
  assumes "f_openFlags file AND SQLITE_OPEN_MAIN_DB \<noteq> 0" and "m_isEncrypted codec" "m_hasWriteCipher codec"
    and "sqlite3mcGetPageSize codec e = Some n" "0 < n" "length data = nat n" "int_page p"
  shows "mcIoWrite io file data (page_offset n p) (Some codec) e =
    (case codec_store codec data p (nat n) True e of
       None \<Rightarrow> None
     | Some (x, codec', e') \<Rightarrow>
         (case xWrite io (f_real file) (take (nat n) x) (page_offset n p) of (rc, f) \<Rightarrow> Some (rc, file\<lparr>f_real := f\<rparr>, Some codec', e')))"
proof -
  have p: "page_offset n p mod n = 0" "as_int32 (page_offset n p div n + 1) = p" "p \<noteq> INT_MAX"
    using page_offset_simps [of n p] int_page_conversion [of p] assms by simp_all
  have one: "nat n div nat n = Suc 0" using assms(5) by simp
  show ?thesis
    using assms p
    by (simp add: mcIoWrite_def mcWriteMainDb_def encrypted_def page_size_def one Let_def sqlite3mcCodec_def real_write_def
        split: option.splits prod.splits)
qed

lemma mcIoRead_page:
  assumes "f_openFlags file AND SQLITE_OPEN_MAIN_DB \<noteq> 0" and "m_isEncrypted codec" "m_hasReadCipher codec"
    and "sqlite3mcGetPageSize codec e = Some n" "16 < n" "int_page p"
    and "xRead io (f_real file) (nat n) (page_offset n p) = (rc, x, f)" "rc \<noteq> SQLITE_IOERR_SHORT_READ" "length x = nat n"
  shows "mcIoRead io file (nat n) (page_offset n p) (Some codec) e =
    map_option (\<lambda>(d, codec', e'). ((m_lastError codec', d), file\<lparr>f_real := f\<rparr>, Some codec', e')) (codec_load codec x p (nat n) e)"
proof -
  have p: "page_offset n p mod n = 0" "as_int32 (page_offset n p div n + 1) = p" "p \<noteq> INT_MAX"
    using page_offset_simps [of n p] int_page_conversion [of p] assms by simp_all
  have one: "nat n div nat n = Suc 0" and n: "nat n \<noteq> 16" using assms(5) by simp_all
  show ?thesis
    using assms p
    by (cases "codec_load codec x p (nat n) e")
      (auto simp: mcIoRead_def mcReadMainDb_def encrypted_def page_size_def one n Let_def sqlite3mcCodec_def sqlite3mcGetCodecLastError_def)
qed

text \<open>
  A sequence of writes of whole pages, all of them successful. The plain contents of the pages, a map from page
  numbers, is what the encrypted file stands for.
\<close>

fun write_all :: "'f io_methods \<Rightarrow> int \<Rightarrow> (int \<times> bytes) list \<Rightarrow> 'f mc_file \<Rightarrow> 'c Codec option \<Rightarrow> 'c mc_env \<Rightarrow> ('f mc_file \<times> 'c Codec option \<times> 'c mc_env) option" where
  "write_all io n [] file codec e = Some (file, codec, e)"
| "write_all io n ((p, data) # ws) file codec e =
     (case mcIoWrite io file data (page_offset n p) codec e of
        None \<Rightarrow> None
      | Some (rc, file, codec, e) \<Rightarrow> if rc = SQLITE_OK then write_all io n ws file codec e else None)"

text \<open>
  A page of a journal: its number is written before it and read before it; both directions use the cipher for reading. \<open>kind\<close> is
  the flag of a journal or of a subjournal.
\<close>

definition journal :: "'f mc_file \<Rightarrow> bool" where
  "journal file \<longleftrightarrow> f_openFlags file AND SQLITE_OPEN_MAIN_DB = 0
     \<and> (f_openFlags file AND SQLITE_OPEN_MAIN_JOURNAL \<noteq> 0 \<or> f_openFlags file AND SQLITE_OPEN_SUBJOURNAL \<noteq> 0)"

lemma journal_write:
  assumes "journal file" "m_isEncrypted codec" "m_hasReadCipher codec" "sqlite3mcGetPageSize codec e = Some n" "4 < n"
  shows "length number = 4 \<Longrightarrow> mcIoWrite io file number off (Some codec) e =
      (case xWrite io (f_real file) number off of (rc, f) \<Rightarrow>
         Some (rc, file\<lparr>f_real := f, f_pageNo := (if rc = SQLITE_OK then sqlite3Get4byte number else 0)\<rparr>, Some codec, e))"
    and "length data = nat n \<Longrightarrow> f_pageNo file \<noteq> 0 \<Longrightarrow> mcIoWrite io file data off (Some codec) e =
      (case codec_store codec data (f_pageNo file) (nat n) False e of None \<Rightarrow> None
       | Some (x, codec', e') \<Rightarrow>
           (case xWrite io (f_real file) (take (nat n) x) off of (rc, f) \<Rightarrow> Some (rc, file\<lparr>f_real := f\<rparr>, Some codec', e')))"
  using assms
  by (auto simp: journal_def mcIoWrite_def mcWriteMainJournal_def mcWriteSubJournal_def write_journal_def encrypted_def page_size_def Let_def
      sqlite3mcCodec_def real_write_def split: option.splits prod.splits)

lemma journal_read:
  assumes "journal file" "m_isEncrypted codec" "m_hasReadCipher codec" "sqlite3mcGetPageSize codec e = Some n" "4 < n"
    and "rc \<noteq> SQLITE_IOERR_SHORT_READ"
  shows "xRead io (f_real file) 4 off = (rc, number, f) \<Longrightarrow> length number = 4 \<Longrightarrow> mcIoRead io file 4 off (Some codec) e =
      Some ((SQLITE_OK, number), file\<lparr>f_real := f, f_pageNo := sqlite3Get4byte number\<rparr>, Some codec, e)"
    and "xRead io (f_real file) (nat n) off = (rc, x, f) \<Longrightarrow> length x = nat n \<Longrightarrow> f_pageNo file \<noteq> 0 \<Longrightarrow>
      codec_load codec x (f_pageNo file) (nat n) e = Some (d, codec', e') \<Longrightarrow>
      \<exists>file'. mcIoRead io file (nat n) off (Some codec) e = Some ((m_lastError codec', d), file', Some codec', e')"
  using assms
  by (auto simp: journal_def mcIoRead_def mcReadMainJournal_def mcReadSubJournal_def read_journal_def encrypted_def page_size_def Let_def
      sqlite3mcCodec_def sqlite3mcGetCodecLastError_def)

text \<open>Frames of the write-ahead log, which \<^verbatim>\<open>sqlite3mcPagerCodec\<close> has encrypted.\<close>

definition wal :: "'f mc_file \<Rightarrow> bool" where
  "wal file \<longleftrightarrow> f_openFlags file AND SQLITE_OPEN_MAIN_DB = 0 \<and> f_openFlags file AND SQLITE_OPEN_MAIN_JOURNAL = 0
     \<and> f_openFlags file AND SQLITE_OPEN_SUBJOURNAL = 0 \<and> f_openFlags file AND SQLITE_OPEN_WAL \<noteq> 0"

lemma wal_write:
  assumes "wal file" "m_walLegacy codec = 0"
  shows "mcIoWrite io file data off (Some codec) e =
    (case xWrite io (f_real file) data off of (rc, f) \<Rightarrow> Some (rc, file\<lparr>f_real := f\<rparr>, Some codec, e))"
  using assms by (simp add: wal_def mcIoWrite_def mcWriteWal_def real_write_def split: prod.splits)

lemma wal_read:
  assumes "wal file" "m_isEncrypted codec" "m_hasReadCipher codec" "sqlite3mcGetPageSize codec e = Some n" "0 < n"
    and "xRead io (f_real file) (nat n) off = (rc, x, f)" "rc \<noteq> SQLITE_IOERR_SHORT_READ" "length x = nat n"
    and "xRead io f 4 (off - walFrameHeaderSize) = (SQLITE_OK, number, f2)" "sqlite3Get4byte number \<noteq> 0"
    and "codec_load codec x (sqlite3Get4byte number) (nat n) e = Some (d, codec', e')"
  shows "\<exists>file'. mcIoRead io file (nat n) off (Some codec) e = Some ((m_lastError codec', d), file', Some codec', e')"
  using assms
  by (auto simp: wal_def mcIoRead_def mcReadWal_def wal_page_no_def encrypted_def page_size_def Let_def
      sqlite3mcCodec_def sqlite3mcGetCodecLastError_def)

context cipher_table
begin

definition pages_stored :: "'c \<Rightarrow> int \<Rightarrow> int \<Rightarrow> bytes \<Rightarrow> (int \<rightharpoonup> bytes) \<Rightarrow> bool" where
  "pages_stored c res n content pages \<longleftrightarrow>
     (\<forall>p data. pages p = Some data \<longrightarrow> int_page p \<and> length data = nat n \<and> usable c p data res
        \<and> nat (page_offset n p) + nat n \<le> length content
        \<and> (\<exists>r r'. rng_wf r \<and> enc c p data res r = Some (SQLITE_OK, region (nat (page_offset n p)) (nat n) content, r')))"

text \<open>A codec that writes with the cipher object \<open>c\<close>, on pages of \<open>n\<close> bytes.\<close>

definition writes_with :: "'c Codec \<Rightarrow> 'c mc_env \<Rightarrow> 'c \<Rightarrow> int \<Rightarrow> int \<Rightarrow> bool" where
  "writes_with codec e c n res \<longleftrightarrow> codec_ok codec \<and> env_ok e \<and> m_isEncrypted codec \<and> m_hasWriteCipher codec
     \<and> m_writeCipher codec = Some c \<and> write_reserved codec = res \<and> sqlite3mcGetPageSize codec e = Some n"

definition reads_with :: "'c Codec \<Rightarrow> 'c mc_env \<Rightarrow> 'c \<Rightarrow> int \<Rightarrow> int \<Rightarrow> bool" where
  "reads_with codec e c n res \<longleftrightarrow> codec_ok codec \<and> env_ok e \<and> m_isEncrypted codec \<and> m_hasReadCipher codec
     \<and> (\<exists>c'. m_readCipher codec = Some c' \<and> dec c' = dec c) \<and> read_reserved codec = res \<and> sqlite3mcGetPageSize codec e = Some n"

lemma codec_ok_lastError [simp]: "codec_ok (codec\<lparr>m_lastError := rc\<rparr>) = codec_ok codec"
  by (simp add: codec_ok_def)

lemma reserved_lastError [simp]:
  "write_reserved (codec\<lparr>m_lastError := rc\<rparr>) = write_reserved codec" "read_reserved (codec\<lparr>m_lastError := rc\<rparr>) = read_reserved codec"
  by (simp_all add: write_reserved_def read_reserved_def)

lemma page_size_frame [simp]:
  "sqlite3mcGetPageSize (codec\<lparr>m_lastError := rc\<rparr>) e = sqlite3mcGetPageSize codec e"
  "sqlite3mcGetPageSize codec (e\<lparr>e_rng := r\<rparr>) = sqlite3mcGetPageSize codec e"
  by (simp_all add: sqlite3mcGetPageSize_def bt_shared_def split: option.splits)

lemma write_page:
  assumes io: "storage io content" and flags: "f_openFlags file AND SQLITE_OPEN_MAIN_DB \<noteq> 0"
    and codec: "writes_with codec e c n res" and n: "0 < n" and p: "int_page p" and data: "length data = nat n" "usable c p data res"
    and written: "mcIoWrite io file data (page_offset n p) (Some codec) e = Some (SQLITE_OK, file', codec', e')"
    and stored: "pages_stored c res n (content (f_real file)) pages"
  shows "\<exists>codec1. codec' = Some codec1 \<and> writes_with codec1 e' c n res \<and> f_openFlags file' = f_openFlags file
    \<and> e_bts e' = e_bts e \<and> reg_desc (e_reg e') = reg_desc (e_reg e) \<and> pages_stored c res n (content (f_real file')) (pages(p \<mapsto> data))"
proof -
  have w: "codec_ok codec" "env_ok e" "m_isEncrypted codec" "m_hasWriteCipher codec" "m_writeCipher codec = Some c"
    "write_reserved codec = res" "sqlite3mcGetPageSize codec e = Some n"
    using codec by (simp_all add: writes_with_def)
  obtain x codec1 f where store: "codec_store codec data p (nat n) True e = Some (x, codec1, e')"
    and x: "xWrite io (f_real file) (take (nat n) x) (page_offset n p) = (SQLITE_OK, f)" "file' = file\<lparr>f_real := f\<rparr>" "codec' = Some codec1"
    using written mcIoWrite_page [OF flags w(3,4,7) n data(1) p, of io] by (auto split: option.splits prod.splits)
  have "length x = nat n \<and> codec1 = codec\<lparr>m_lastError := SQLITE_OK\<rparr> \<and> (\<exists>r. e' = e\<lparr>e_rng := r\<rparr> \<and> rng_wf r
      \<and> enc c p data res (e_rng e) = Some (SQLITE_OK, x, r))"
    using codec_store_page [OF w(1,2) _ _ store, of c] w(5,6) data by simp
  then obtain r where r: "length x = nat n" "codec1 = codec\<lparr>m_lastError := SQLITE_OK\<rparr>" "e' = e\<lparr>e_rng := r\<rparr>" "rng_wf r"
      "enc c p data res (e_rng e) = Some (SQLITE_OK, x, r)" by blast
  have wx: "xWrite io (f_real file) x (page_offset n p) = (SQLITE_OK, f)" using x(1) r(1) by simp
  have off: "0 \<le> page_offset n p" using page_offset_simps [OF n] p  by (simp add: int_page_def)
  note W = storage_write [OF io off wx]
  have "pages_stored c res n (content f) (pages(p \<mapsto> data))"
    unfolding pages_stored_def
  proof (intro allI impI)
    fix q d assume q: "(pages(p \<mapsto> data)) q = Some d"
    show "int_page q \<and> length d = nat n \<and> usable c q d res \<and> nat (page_offset n q) + nat n \<le> length (content f)
        \<and> (\<exists>r r'. rng_wf r \<and> enc c q d res r = Some (SQLITE_OK, region (nat (page_offset n q)) (nat n) (content f), r'))"
    proof (cases "q = p")
      case True
      then show ?thesis using q p data r W(2,3) w(2) by (auto simp: env_ok_def)
    next
      case False
      then have "pages q = Some d" using q by simp
      with stored have s: "int_page q" "length d = nat n" "usable c q d res" "nat (page_offset n q) + nat n \<le> length (content (f_real file))"
        "\<exists>r r'. rng_wf r \<and> enc c q d res r = Some (SQLITE_OK, region (nat (page_offset n q)) (nat n) (content (f_real file)), r')"
        by (auto simp: pages_stored_def)
      moreover have "region (nat (page_offset n q)) (nat n) (content f) = region (nat (page_offset n q)) (nat n) (content (f_real file))"
        using W(4) [OF s(4)] page_offset_disjoint [OF n _ _ False] s(1) p r(1) by (simp add: int_page_def)
      ultimately show ?thesis using W(1) by auto
    qed
  qed
  then show ?thesis using r x w by (simp add: writes_with_def env_ok_def)
qed

lemma write_all_stored:
  assumes io: "storage io content" and n: "0 < n"
    and ws: "\<forall>(p, data) \<in> set ws. int_page p \<and> length data = nat n \<and> usable c p data res"
    and flags: "f_openFlags file AND SQLITE_OPEN_MAIN_DB \<noteq> 0" and codec: "writes_with codec e c n res"
    and written: "write_all io n ws file (Some codec) e = Some (file', codec', e')"
    and stored: "pages_stored c res n (content (f_real file)) pages"
  shows "f_openFlags file' = f_openFlags file \<and> env_ok e' \<and> e_bts e' = e_bts e
    \<and> pages_stored c res n (content (f_real file')) (pages ++ map_of (rev ws))"
  using ws flags codec written stored
proof (induction ws arbitrary: "file" codec e pages)
  case Nil
  then show ?case by (auto simp: writes_with_def)
next
  case (Cons w ws)
  obtain p data where w: "w = (p, data)" by fastforce
  obtain file1 codec1 e1 where first: "mcIoWrite io file data (page_offset n p) (Some codec) e = Some (SQLITE_OK, file1, codec1, e1)"
    and rest: "write_all io n ws file1 codec1 e1 = Some (file', codec', e')"
    using Cons.prems(4) by (auto simp: w split: option.splits if_splits)
  have pd: "int_page p" "length data = nat n" "usable c p data res" using Cons.prems(1) by (simp_all add: w)
  obtain k where k: "codec1 = Some k" "writes_with k e1 c n res" "f_openFlags file1 = f_openFlags file" "e_bts e1 = e_bts e"
      "pages_stored c res n (content (f_real file1)) (pages(p \<mapsto> data))"
    using write_page [OF io Cons.prems(2,3) n pd first Cons.prems(5)] by blast
  have ws': "\<forall>(p, data) \<in> set ws. int_page p \<and> length data = nat n \<and> usable c p data res" using Cons.prems(1) by simp
  have flags1: "f_openFlags file1 AND SQLITE_OPEN_MAIN_DB \<noteq> 0" using Cons.prems(2) k(3) by simp
  have "f_openFlags file' = f_openFlags file1 \<and> env_ok e' \<and> e_bts e' = e_bts e1
      \<and> pages_stored c res n (content (f_real file')) (pages(p \<mapsto> data) ++ map_of (rev ws))"
    by (rule Cons.IH [OF ws' flags1 k(2) rest [unfolded k(1)] k(5)])
  moreover have "pages(p \<mapsto> data) ++ map_of (rev ws) = pages ++ map_of (rev (w # ws))"
    by (simp add: w map_add_assoc)
  ultimately show ?case using k(3,4) by simp
qed

lemma read_page:
  assumes io: "storage io content" and flags: "f_openFlags file AND SQLITE_OPEN_MAIN_DB \<noteq> 0"
    and codec: "reads_with k e c n res" and n: "16 < n"
    and stored: "pages_stored c res n (content (f_real file)) pages" and p: "pages p = Some data"
    and read: "xRead io (f_real file) (nat n) (page_offset n p) = (SQLITE_OK, x, f)"
  shows "\<exists>d. mcIoRead io file (nat n) (page_offset n p) (Some k) e
      = Some ((SQLITE_OK, d), file\<lparr>f_real := f\<rparr>, Some (k\<lparr>m_lastError := SQLITE_OK\<rparr>), e)
    \<and> length d = nat n \<and> take (nat n - nat res) d = take (nat n - nat res) data"
proof -
  have k: "codec_ok k" "env_ok e" "m_isEncrypted k" "m_hasReadCipher k" "read_reserved k = res" "sqlite3mcGetPageSize k e = Some n"
    using codec by (simp_all add: reads_with_def)
  obtain c' where c': "m_readCipher k = Some c'" "dec c' = dec c" using codec by (auto simp: reads_with_def)
  obtain r r' where s: "int_page p" "length data = nat n" "usable c p data res" "rng_wf r"
    "enc c p data res r = Some (SQLITE_OK, region (nat (page_offset n p)) (nat n) (content (f_real file)), r')"
    using stored p unfolding pages_stored_def by blast
  have off: "0 \<le> page_offset n p" using page_offset_simps [of n p] n s(1) by (simp add: int_page_def)
  have x: "x = region (nat (page_offset n p)) (nat n) (content (f_real file))" "length x = nat n"
    using storage_read [OF io off read] by auto
  obtain d where "codec_load k x p (nat n) e = Some (d, k\<lparr>m_lastError := SQLITE_OK\<rparr>, e)"
    "length d = nat n" "take (nat n - nat res) d = take (nat n - nat res) data"
    using codec_load_page [OF k(1,2) c', unfolded k(5), OF s(3,4), unfolded s(2), of x r'] s(5) x(1) by auto
  then show ?thesis
    using mcIoRead_page [OF flags k(3,4,6) n s(1) read _ x(2)] by simp
qed

text \<open>What the codec stores, every codec loads that reads with the same cipher.\<close>

lemma stored_loads:
  assumes codec: "codec_ok codec" "env_ok e" and c: "(if w then m_writeCipher codec else m_readCipher codec) = Some c"
    and res: "(if w then write_reserved codec else read_reserved codec) = res"
    and data: "usable c p data res" "length data = nat n"
    and store: "codec_store codec data p (nat n) w e = Some (x, codec', e')"
    and k: "reads_with k e2 c n res"
  shows "length x = nat n \<and> (\<exists>d. codec_load k x p (nat n) e2 = Some (d, k\<lparr>m_lastError := SQLITE_OK\<rparr>, e2)
    \<and> length d = nat n \<and> take (nat n - nat res) d = take (nat n - nat res) data)"
proof -
  have u: "usable c p (take (nat n) data) (if w then write_reserved codec else read_reserved codec)"
    using data by (simp add: res)
  obtain r where x: "length x = nat n" "enc c p data res (e_rng e) = Some (SQLITE_OK, x, r)"
    using codec_store_page [OF codec c u store] data(2) by (auto simp: res)
  have kk: "codec_ok k" "env_ok e2" "read_reserved k = res" using k by (simp_all add: reads_with_def)
  obtain c' where c': "m_readCipher k = Some c'" "dec c' = dec c" using k by (auto simp: reads_with_def)
  have "rng_wf (e_rng e)" using codec(2) by (simp add: env_ok_def)
  then show ?thesis
    using codec_load_page [OF kk(1,2) c', unfolded kk(3), OF data(1), unfolded data(2)] x by blast
qed

end
section \<open>Properties\<close>

text \<open>
  The codecs that the operations of a process produce, and what such a codec encrypts and decrypts with: \<open>c\<close> is a cipher object, \<open>n\<close>
  the size of the pages and \<open>res\<close> that of their reserved space.
\<close>

definition process_codec :: "bool \<Rightarrow> any_cipher Codec \<Rightarrow> any_cipher mc_env \<Rightarrow> bool" where
  "process_codec le codec e \<longleftrightarrow> (\<exists>cs. codec_system le cs e \<and> codec \<in> set cs)"

definition encrypts_with :: "bool \<Rightarrow> any_cipher Codec \<Rightarrow> any_cipher mc_env \<Rightarrow> any_cipher \<Rightarrow> int \<Rightarrow> int \<Rightarrow> bool" where
  "encrypts_with le codec e c n res \<longleftrightarrow> process_codec le codec e \<and> m_isEncrypted codec \<and> m_hasWriteCipher codec
     \<and> m_writeCipher codec = Some c \<and> write_reserved codec = res \<and> sqlite3mcGetPageSize codec e = Some n"

definition decrypts_with :: "bool \<Rightarrow> any_cipher Codec \<Rightarrow> any_cipher mc_env \<Rightarrow> any_cipher \<Rightarrow> int \<Rightarrow> int \<Rightarrow> bool" where
  "decrypts_with le codec e c n res \<longleftrightarrow> process_codec le codec e \<and> m_isEncrypted codec \<and> m_hasReadCipher codec
     \<and> (\<exists>c'. m_readCipher codec = Some c' \<and> decrypt_page le c' = decrypt_page le c) \<and> read_reserved codec = res
     \<and> sqlite3mcGetPageSize codec e = Some n"

lemma process_codec_ok: "process_codec le codec e \<Longrightarrow> builtin.codec_ok codec \<and> builtin.env_ok le e"
  using codec_system_invariant by (auto simp: process_codec_def)

lemma encrypts_with: "encrypts_with le codec e c n res \<Longrightarrow> builtin.writes_with le codec e c n res"
  by (auto simp: encrypts_with_def builtin.writes_with_def dest: process_codec_ok)

lemma decrypts_with: "decrypts_with le codec e c n res \<Longrightarrow> builtin.reads_with le codec e c n res"
  by (auto simp: decrypts_with_def builtin.reads_with_def dest: process_codec_ok)

text \<open>
  C25. An encrypted database file behaves as a store of plain pages: after any sequence of successful page writes through the
  file of the VFS, with any of the modelled ciphers, a page that can be read from the underlying file is
  returned with the content that was written last under its number, up to the reserved bytes at its end, whatever other pages were written before and after. The
  reading codec may be another one, in a later state of the process, that decrypts with the same key. The page numbers are below
  2^31 - 1, since the code keeps them in an \<^verbatim>\<open>int\<close>.
\<close>

theorem database_file_refines_pages:
  assumes "storage io content" and "f_openFlags file AND SQLITE_OPEN_MAIN_DB \<noteq> 0" and "16 < n"
    and "encrypts_with le codec e c n res"
    and "\<forall>(p, data) \<in> set ws. int_page p \<and> length data = nat n \<and> page_ok c p data res"
    and "write_all io n ws file (Some codec) e = Some (file', codec', e')"
    and "decrypts_with le k e2 c n res" and "f_openFlags file2 AND SQLITE_OPEN_MAIN_DB \<noteq> 0" and "f_real file2 = f_real file'"
    and "map_of (rev ws) p = Some data" and "xRead io (f_real file2) (nat n) (page_offset n p) = (SQLITE_OK, x, f)"
  shows "\<exists>d. mcIoRead io file2 (nat n) (page_offset n p) (Some k) e2
      = Some ((SQLITE_OK, d), file2\<lparr>f_real := f\<rparr>, Some (k\<lparr>m_lastError := SQLITE_OK\<rparr>), e2)
    \<and> length d = nat n \<and> take (nat n - nat res) d = take (nat n - nat res) data"
proof -
  have n: "0 < n" using assms(3) by simp
  have empty: "builtin.pages_stored le c res n (content (f_real file)) Map.empty" by (simp add: builtin.pages_stored_def)
  have "builtin.pages_stored le c res n (content (f_real file2)) (map_of (rev ws))"
    using builtin.write_all_stored [OF assms(1) n assms(5,2) encrypts_with [OF assms(4)] assms(6) empty] by (simp add: assms(9))
  from builtin.read_page [OF assms(1,8) decrypts_with [OF assms(7)] assms(3) this assms(10,11)] show ?thesis .
qed

text \<open>
  C26. A page in a rollback journal or a subjournal: its number is written first, then its content, which the codec encrypts with the cipher for
  reading, so that the journal of a database whose key is being changed still belongs to the old key. Whoever reads the
  number and then the content gets both back, when the handle is another one that starts without a page number and when the codec is another one that decrypts with the same key.
\<close>

theorem journal_page_roundtrip:
  assumes "storage io content" and "journal file" and "0 \<le> off" and "4 < n"
    and "process_codec le codec e" "m_isEncrypted codec" "m_hasReadCipher codec" "m_readCipher codec = Some c" "sqlite3mcGetPageSize codec e = Some n"
    and "length number = 4" "sqlite3Get4byte number \<noteq> 0" "length data = nat n" "page_ok c (sqlite3Get4byte number) data (read_reserved codec)"
    and "mcIoWrite io file number off (Some codec) e = Some (SQLITE_OK, file1, codec1, e1)"
    and "mcIoWrite io file1 data (off + 4) codec1 e1 = Some (SQLITE_OK, file2, codec2, e2)"
    and "decrypts_with le k e3 c n (read_reserved codec)" and "journal file3" and "f_real file3 = f_real file2"
    and "xRead io (f_real file3) 4 off = (SQLITE_OK, number', f)" and "xRead io f (nat n) (off + 4) = (SQLITE_OK, x, f')"
  shows "number' = number \<and> (\<exists>file4 d file5. mcIoRead io file3 4 off (Some k) e3 = Some ((SQLITE_OK, number), file4, Some k, e3)
    \<and> mcIoRead io file4 (nat n) (off + 4) (Some k) e3 = Some ((SQLITE_OK, d), file5, Some (k\<lparr>m_lastError := SQLITE_OK\<rparr>), e3)
    \<and> length d = nat n \<and> take (nat n - nat (read_reserved codec)) d = take (nat n - nat (read_reserved codec)) data)"
proof -
  define p where "p = sqlite3Get4byte number"
  obtain f1 where f1: "xWrite io (f_real file) number off = (SQLITE_OK, f1)" "file1 = file\<lparr>f_real := f1, f_pageNo := p\<rparr>"
      "codec1 = Some codec" "e1 = e"
    using assms(14) journal_write(1) [OF assms(2,6,7,9,4,10), of io off] by (auto simp: p_def split: prod.splits)
  have j1: "journal file1" and p: "f_pageNo file1 = p" "p \<noteq> 0"
    using assms(2,11) f1(2) by (simp_all add: journal_def p_def)
  obtain y codec3 f2 where store: "codec_store codec data p (nat n) False e = Some (y, codec3, e2)"
    and f2: "xWrite io f1 (take (nat n) y) (off + 4) = (SQLITE_OK, f2)" "file2 = file1\<lparr>f_real := f2\<rparr>"
    using assms(15) journal_write(2) [OF j1 assms(6,7,9,4,12), of io "off + 4"] p f1
    by (auto split: option.splits prod.splits)
  have ok: "builtin.codec_ok codec" "builtin.env_ok le e" using process_codec_ok [OF assms(5)] by simp_all
  obtain d where y: "length y = nat n" and d: "codec_load k y p (nat n) e3 = Some (d, k\<lparr>m_lastError := SQLITE_OK\<rparr>, e3)"
      "length d = nat n" "take (nat n - nat (read_reserved codec)) d = take (nat n - nat (read_reserved codec)) data"
    using builtin.stored_loads [OF ok, where w = False, OF _ _ _ assms(12) store decrypts_with [OF assms(16)]] assms(8,13) by (auto simp: p_def)
  have off: "nat (off + 4) = nat off + 4" "0 \<le> off + 4" using assms(3) by simp_all
  have y2: "xWrite io f1 y (off + 4) = (SQLITE_OK, f2)" using f2(1) y by simp
  note W1 = storage_write [OF assms(1,3) f1(1)] and W2 = storage_write [OF assms(1) off(2) y2]
  have num: "region (nat off) 4 (content f2) = number"
    using W1(3) W2(4) [of "nat off" 4] W1(2) assms(10) by (simp add: off(1))
  have f3: "f_real file3 = f2" using assms(18) f2(2) by simp
  have n1: "number' = number" "length number' = 4" "content f = content f2"
    using storage_read [OF assms(1,3) assms(19)] num by (simp_all add: f3)
  have x: "x = y" "length x = nat n"
    using storage_read [OF assms(1) off(2) assms(20)] W2(3) y by (simp_all add: n1(3))
  have k: "m_isEncrypted k" "m_hasReadCipher k" "sqlite3mcGetPageSize k e3 = Some n" using assms(16) by (simp_all add: decrypts_with_def)
  define file4 where "file4 = file3\<lparr>f_real := f, f_pageNo := p\<rparr>"
  have j4: "journal file4" using assms(17) by (simp add: journal_def file4_def)
  have "mcIoRead io file3 4 off (Some k) e3 = Some ((SQLITE_OK, number), file4, Some k, e3)"
    using journal_read(1) [OF assms(17) k assms(4) _ assms(19) n1(2)] n1(1) by (simp add: file4_def p_def)
  moreover have "\<exists>file5. mcIoRead io file4 (nat n) (off + 4) (Some k) e3 = Some ((SQLITE_OK, d), file5, Some (k\<lparr>m_lastError := SQLITE_OK\<rparr>), e3)"
    using journal_read(2) [OF j4 k assms(4), where rc = SQLITE_OK and io = io and off = "off + 4" and x = x and f = f']
      assms(20) x d(1) p by (simp add: file4_def)
  ultimately show ?thesis using d(2,3) n1(1) by blast
qed

text \<open>
  C27. A page in the write-ahead log: the pager encrypts it with the cipher for writing, its number stands in the header of its frame. Whoever reads it
  with a codec that decrypts with the same key gets it back, on the same or on another handle of the log.
\<close>

theorem wal_page_roundtrip:
  assumes "storage io content" and "wal file" and "24 \<le> off" and "0 < n"
    and "encrypts_with le codec e c n res" and "m_walLegacy codec = 0"
    and "length header = 24" "sqlite3Get4byte header \<noteq> 0" "length data = nat n" "page_ok c (sqlite3Get4byte header) data res"
    and "mcIoWrite io file header (off - walFrameHeaderSize) (Some codec) e = Some (SQLITE_OK, file1, codec1, e1)"
    and "sqlite3mcPagerCodec True data (sqlite3Get4byte header) codec1 e1 = Some (x, codec2, e2)"
    and "mcIoWrite io file1 x off codec2 e2 = Some (SQLITE_OK, file2, codec3, e3)"
    and "decrypts_with le k e4 c n res" and "wal file3" and "f_real file3 = f_real file2"
    and "xRead io (f_real file3) (nat n) off = (SQLITE_OK, y, f)" and "xRead io f 4 (off - walFrameHeaderSize) = (SQLITE_OK, number, f')"
  shows "\<exists>d file4. mcIoRead io file3 (nat n) off (Some k) e4 = Some ((SQLITE_OK, d), file4, Some (k\<lparr>m_lastError := SQLITE_OK\<rparr>), e4)
    \<and> length d = nat n \<and> take (nat n - nat res) d = take (nat n - nat res) data"
proof -
  define p where "p = sqlite3Get4byte header"
  have codec: "m_isEncrypted codec" "m_hasWriteCipher codec" "m_writeCipher codec = Some c" "write_reserved codec = res"
    "sqlite3mcGetPageSize codec e = Some n"
    using assms(5) by (simp_all add: encrypts_with_def)
  have ok: "builtin.codec_ok codec" "builtin.env_ok le e" using process_codec_ok assms(5) by (auto simp: encrypts_with_def)
  have off: "0 \<le> off - walFrameHeaderSize" "0 \<le> off" "nat off = nat (off - walFrameHeaderSize) + 24"
    using assms(3) by (simp_all add: walFrameHeaderSize_def)
  obtain f1 where f1: "xWrite io (f_real file) header (off - walFrameHeaderSize) = (SQLITE_OK, f1)" "file1 = file\<lparr>f_real := f1\<rparr>"
      "codec1 = Some codec" "e1 = e"
    using assms(11) wal_write [OF assms(2,6), of io header "off - walFrameHeaderSize" e] by (auto split: prod.splits)
  obtain codec4 where store: "codec_store codec data p (nat n) True e = Some (x, codec4, e2)" "codec2 = Some codec4"
    using assms(12) codec assms(6) f1 by (auto simp: sqlite3mcPagerCodec_def encrypted_def sqlite3mcCodec_def p_def)
  then obtain rc where codec4: "codec4 = codec\<lparr>m_lastError := rc\<rparr>" using builtin.codec_store_ok [OF store(1) ok] by blast
  have w1: "wal file1" using assms(2) f1(2) by (simp add: wal_def)
  obtain f2 where f2: "xWrite io f1 x off = (SQLITE_OK, f2)" "file2 = file1\<lparr>f_real := f2\<rparr>"
    using assms(13) wal_write [OF w1, of codec4 io x off e2] assms(6) store(2) codec4 f1(2) by (auto split: prod.splits)
  obtain d where x: "length x = nat n" and d: "codec_load k x p (nat n) e4 = Some (d, k\<lparr>m_lastError := SQLITE_OK\<rparr>, e4)"
      "length d = nat n" "take (nat n - nat res) d = take (nat n - nat res) data"
    using builtin.stored_loads [OF ok, where w = True, OF _ _ _ assms(9) store(1) decrypts_with [OF assms(14)]] codec assms(10) by (auto simp: p_def)
  note W1 = storage_write [OF assms(1) off(1) f1(1)] and W2 = storage_write [OF assms(1) off(2) f2(1)]
  have hdr: "region (nat (off - walFrameHeaderSize)) 24 (content f2) = header"
    using W1(3) W2(4) [of "nat (off - walFrameHeaderSize)" 24] W1(2) assms(7) off(3) by simp
  have f3: "f_real file3 = f2" using assms(16) f2(2) by simp
  have y: "y = x" "length y = nat n" "content f = content f2"
    using storage_read [OF assms(1) off(2) assms(17)] W2(3) x by (simp_all add: f3)
  have "number = take 4 header"
    using storage_read [OF assms(1) off(1) assms(18)] hdr y(3) by (auto simp: region_def)
  then have number: "sqlite3Get4byte number = p"
    using assms(7) by (simp add: p_def sqlite3Get4byte_def LOAD32_BE_def)
  have k: "m_isEncrypted k" "m_hasReadCipher k" "sqlite3mcGetPageSize k e4 = Some n" using assms(14) by (simp_all add: decrypts_with_def)
  have "\<exists>file4. mcIoRead io file3 (nat n) off (Some k) e4 = Some ((SQLITE_OK, d), file4, Some (k\<lparr>m_lastError := SQLITE_OK\<rparr>), e4)"
    using wal_read [OF assms(15) k assms(4,17) _ y(2) assms(18)] assms(8) number d(1) y(1) by (simp add: p_def)
  then show ?thesis using d(2,3) by blast
qed

text \<open>
  C28. What the read method returns for a file without encryption: of the results of the underlying \<^verbatim>\<open>xRead\<close> only the short read comes through,
  for a database, a journal, a subjournal and a log. An input/output error is reported as success, with whatever the buffer then holds.
\<close>

theorem io_error_masked:
  assumes "f_openFlags file AND SQLITE_OPEN_MAIN_DB \<noteq> 0 \<or> journal file \<or> wal file" and "\<not> encrypted codec"
    and "xRead io (f_real file) count off = (rc, buffer, f)"
  shows "mcIoRead io file count off codec e =
    Some ((if rc = SQLITE_IOERR_SHORT_READ then SQLITE_IOERR_SHORT_READ else SQLITE_OK, buffer), file\<lparr>f_real := f\<rparr>, codec, e)"
  using assms
  by (auto simp: mcIoRead_def journal_def wal_def mcReadMainDb_def mcReadMainJournal_def mcReadSubJournal_def read_journal_def mcReadWal_def Let_def)

theorem io_error_masked_witness:
  "mcIoRead (memory_io\<lparr>xRead := \<lambda>f n off. (10, replicate n 0, f)\<rparr>) \<lparr>f_real = [], f_openFlags = SQLITE_OPEN_MAIN_DB, f_pageNo = 0\<rparr> 512 512
     None (start_env True) = Some ((SQLITE_OK, replicate 512 0), \<lparr>f_real = [], f_openFlags = SQLITE_OPEN_MAIN_DB, f_pageNo = 0\<rparr>, None, start_env True)"
  by (subst io_error_masked [where rc = 10 and buffer = "replicate 512 0" and f = "[]"]) (simp_all add: encrypted_def SQLITE_OPEN_MAIN_DB_def)

text \<open>The codec of a database with RC4 and pages of 512 bytes, for the witnesses.\<close>

lemma rc4_database:
  obtains codec e a where "encrypts_with le codec e (Obj_RC4 a) 512 0" "decrypts_with le codec e (Obj_RC4 a) 512 0"
    "m_readCipher codec = Some (Obj_RC4 a)" "m_walLegacy codec = 0" "builtin.codec_ok codec" "builtin.env_ok le e"
proof -
  obtain codec e a where s: "sqlite3mcCodecSetup open_codec 5 [0x70, 0x77] (start_env le) = Some (SQLITE_OK, codec, e)"
    and c: "m_readCipher codec = Some (Obj_RC4 a)" "m_writeCipher codec = Some (Obj_RC4 a)" "m_btShared codec = Some 0"
      "write_reserved codec = 0" "read_reserved codec = 0" "m_walLegacy codec = 0" "e_bts e = [page_tree 512]"
    using setup_rc4 by blast
  have new: "codec_system le [new_codec] (start_env le)"
    by (rule codec_system.new [OF start_system, where codec = new_codec]) (simp add: sqlite3mcCodecInit_def)
  from codec_system.configure [OF new, of 0 open_codec] have "codec_system le [open_codec] (start_env le)"
    by (simp add: open_codec_def new_codec_def)
  moreover from this have ok: "builtin.codec_ok open_codec" "builtin.env_ok le (start_env le)" using codec_system_invariant by force+
  ultimately have sys: "codec_system le [codec] e" and m: "builtin.matched le codec" "m_isEncrypted codec"
    using codec_system.set_up [of le "[open_codec]" "start_env le" 0 5] s builtin.CodecSetup_ok [OF s ok] by auto
  then have "process_codec le codec e" by (auto simp: process_codec_def)
  then show thesis
    using that [of codec e a] process_codec_ok m c
    by (simp add: encrypts_with_def decrypts_with_def builtin.matched_def sqlite3mcGetPageSize_def bt_shared_def page_tree_def)
qed

lemma rc4_store:
  assumes "builtin.codec_ok codec" "builtin.env_ok le e" "(if w then m_writeCipher codec else m_readCipher codec) = Some (Obj_RC4 a)"
    and "length data = 512"
  shows "\<exists>x. codec_store codec data p 512 w e = Some (x, codec\<lparr>m_lastError := SQLITE_OK\<rparr>, e) \<and> length x = 512"
proof -
  have "(if w then m_writeCipherType codec else m_readCipherType codec) = 5" "reg_desc (e_reg e) = any_descriptors le"
    using assms(1-3) by (auto simp: builtin.codec_ok_def builtin.env_ok_def split: if_splits)
  then show ?thesis
    using assms(3,4) by (simp add: codec_store_def sqlite3mcEncrypt_def cipher_method_def descriptor_def descriptor_defs
        EncryptPageRC4Cipher_def report_failure_def length_sqlite3mcRC4 Let_def split: if_splits)
qed

definition new_file :: "int \<Rightarrow> bytes mc_file" where
  "new_file flags = \<lparr>f_real = [], f_openFlags = flags, f_pageNo = 0\<rparr>"

lemma rc4_write_all:
  assumes "builtin.codec_ok codec" "builtin.env_ok le e" "m_isEncrypted codec" "m_hasWriteCipher codec" "m_writeCipher codec = Some (Obj_RC4 a)"
    "sqlite3mcGetPageSize codec e = Some 512" "f_openFlags file AND SQLITE_OPEN_MAIN_DB \<noteq> 0" "\<forall>(p, data) \<in> set ws. int_page p \<and> length data = 512"
  shows "\<exists>f rc. write_all memory_io 512 ws file (Some codec) e = Some (file\<lparr>f_real := f\<rparr>, Some (codec\<lparr>m_lastError := rc\<rparr>), e)
    \<and> length (f_real file) \<le> length f \<and> (\<forall>(p, data) \<in> set ws. nat (page_offset 512 p) + 512 \<le> length f)"
  using assms
proof (induction ws arbitrary: "file" codec)
  case Nil
  then show ?case by (intro exI [of _ "f_real file"] exI [of _ "m_lastError codec"]) simp
next
  case (Cons w ws)
  obtain p data where w: "w = (p, data)" by fastforce
  have pd: "int_page p" "length data = nat 512" using Cons.prems(8) by (simp_all add: w)
  obtain x where x: "codec_store codec data p 512 True e = Some (x, codec\<lparr>m_lastError := SQLITE_OK\<rparr>, e)" "length x = 512"
    using rc4_store [OF Cons.prems(1,2), where w = True and data = data and p = p] Cons.prems(5) pd by auto
  define f1 where "f1 = memory_write (f_real file) (nat (page_offset 512 p)) x"
  have f1: "length (f_real file) \<le> length f1" "nat (page_offset 512 p) + 512 \<le> length f1"
    using memory_write(1,2) [where f = "f_real file" and off = "nat (page_offset 512 p)" and d = x] x(2) by (simp_all add: f1_def)
  have "mcIoWrite memory_io file data (page_offset 512 p) (Some codec) e
      = Some (SQLITE_OK, file\<lparr>f_real := f1\<rparr>, Some (codec\<lparr>m_lastError := SQLITE_OK\<rparr>), e)"
    using mcIoWrite_page [OF Cons.prems(7,3,4,6) _ pd(2,1), of memory_io] x by (simp add: memory_io_def f1_def)
  moreover obtain f rc where "write_all memory_io 512 ws (file\<lparr>f_real := f1\<rparr>) (Some (codec\<lparr>m_lastError := SQLITE_OK\<rparr>)) e
      = Some (file\<lparr>f_real := f\<rparr>, Some (codec\<lparr>m_lastError := rc\<rparr>), e)" "length f1 \<le> length f"
      "\<forall>(p, data) \<in> set ws. nat (page_offset 512 p) + 512 \<le> length f"
    using Cons.IH [of "codec\<lparr>m_lastError := SQLITE_OK\<rparr>" "file\<lparr>f_real := f1\<rparr>"] Cons.prems by auto
  ultimately show ?case using f1 by (intro exI [of _ f] exI [of _ rc]) (simp add: w)
qed

theorem database_file_refines_pages_witness:
  "\<exists>codec e file' codec' e' d. write_all memory_io 512 [(1, replicate 512 7), (2, replicate 512 8), (1, replicate 512 9)]
        (new_file SQLITE_OPEN_MAIN_DB) (Some (codec :: any_cipher Codec)) e = Some (file', codec', e')
    \<and> mcIoRead memory_io file' 512 0 (Some codec) e = Some ((SQLITE_OK, d), file', Some (codec\<lparr>m_lastError := SQLITE_OK\<rparr>), e)
    \<and> take 512 d = replicate 512 9"
proof -
  obtain codec e a where c: "encrypts_with True codec e (Obj_RC4 a) 512 0" "decrypts_with True codec e (Obj_RC4 a) 512 0"
    "builtin.codec_ok codec" "builtin.env_ok True e"
    by (rule rc4_database)
  have w: "m_isEncrypted codec" "m_hasWriteCipher codec" "m_writeCipher codec = Some (Obj_RC4 a)" "sqlite3mcGetPageSize codec e = Some 512"
    using c(1) by (simp_all add: encrypts_with_def)
  let ?ws = "[(1, replicate 512 7), (2, replicate 512 8), (1, replicate 512 9)] :: (int \<times> bytes) list"
  have flags: "f_openFlags (new_file SQLITE_OPEN_MAIN_DB) AND SQLITE_OPEN_MAIN_DB \<noteq> 0" by (simp add: new_file_def SQLITE_OPEN_MAIN_DB_def)
  obtain f rc where f: "write_all memory_io 512 ?ws (new_file SQLITE_OPEN_MAIN_DB) (Some codec) e
      = Some ((new_file SQLITE_OPEN_MAIN_DB)\<lparr>f_real := f\<rparr>, Some (codec\<lparr>m_lastError := rc\<rparr>), e)" "512 \<le> length f"
    using rc4_write_all [OF c(3,4) w flags, of ?ws] by (auto simp: page_offset_def int_page_def INT_MAX_def)
  let ?file = "(new_file SQLITE_OPEN_MAIN_DB)\<lparr>f_real := f\<rparr>"
  have flags': "f_openFlags ?file AND SQLITE_OPEN_MAIN_DB \<noteq> 0" using flags by simp
  have read: "xRead memory_io (f_real ?file) (nat 512) (page_offset 512 1) = (SQLITE_OK, region 0 512 f, f)"
    using f(2) by (simp add: memory_io_def page_offset_def)
  have ws: "\<forall>(p, data) \<in> set ?ws. int_page p \<and> length data = nat 512 \<and> page_ok (Obj_RC4 a) p data 0"
    by (simp add: int_page_def INT_MAX_def)
  have last: "map_of (rev ?ws) 1 = Some (replicate 512 9)" by simp
  obtain d where "mcIoRead memory_io ?file (nat 512) (page_offset 512 1) (Some codec) e
      = Some ((SQLITE_OK, d), ?file\<lparr>f_real := f\<rparr>, Some (codec\<lparr>m_lastError := SQLITE_OK\<rparr>), e)"
      "take (nat 512 - nat 0) d = take (nat 512 - nat 0) (replicate 512 9)"
    using database_file_refines_pages [OF memory_storage flags _ c(1) ws f(1) c(2) flags' refl last read] by auto
  with f(1) show ?thesis by (intro exI [of _ codec] exI [of _ e] exI [of _ ?file]) (auto simp: page_offset_def)
qed

lemma memory_simps:
  "xWrite memory_io f data off = (SQLITE_OK, memory_write f (nat off) data)"
  "nat off + n \<le> length f \<Longrightarrow> xRead memory_io f n off = (SQLITE_OK, region (nat off) n f, f)"
  by (simp_all add: memory_io_def)

theorem journal_page_roundtrip_witness:
  "\<exists>codec e file2 codec2 file4 d file5. mcIoRead memory_io (file2 :: bytes mc_file) 4 0 (Some (codec :: any_cipher Codec)) e = Some ((SQLITE_OK, [0, 0, 0, 2]), file4, Some codec, e)
    \<and> mcIoRead memory_io file4 512 4 (Some codec) e = Some ((SQLITE_OK, d), file5, codec2, e) \<and> take 512 d = replicate 512 7"
proof -
  obtain codec e a where c: "encrypts_with True codec e (Obj_RC4 a) 512 0" "decrypts_with True codec e (Obj_RC4 a) 512 0"
    "m_readCipher codec = Some (Obj_RC4 a)" "builtin.codec_ok codec" "builtin.env_ok True e"
    by (rule rc4_database)
  have w: "process_codec True codec e" "m_isEncrypted codec" "m_hasReadCipher codec" "sqlite3mcGetPageSize codec e = Some 512" "read_reserved codec = 0"
    using c(2) by (simp_all add: decrypts_with_def)
  let ?data = "replicate 512 7 :: bytes" and ?number = "[0, 0, 0, 2] :: bytes" and ?file = "new_file SQLITE_OPEN_MAIN_JOURNAL"
  have j: "journal ?file" by (simp add: journal_def new_file_def SQLITE_OPEN_MAIN_DB_def SQLITE_OPEN_MAIN_JOURNAL_def)
  have number: "sqlite3Get4byte ?number = 2" by (simp add: sqlite3Get4byte_def LOAD32_BE_def)
  define file1 where "file1 = ?file\<lparr>f_real := memory_write [] 0 ?number, f_pageNo := 2\<rparr>"
  have w1: "mcIoWrite memory_io ?file ?number 0 (Some codec) e = Some (SQLITE_OK, file1, Some codec, e)"
    using journal_write(1) [OF j w(2,3,4), of ?number memory_io 0] number by (simp add: memory_simps file1_def new_file_def)
  obtain x where x: "codec_store codec ?data 2 512 False e = Some (x, codec\<lparr>m_lastError := SQLITE_OK\<rparr>, e)" "length x = 512"
    using rc4_store [OF c(4,5), where w = False and data = ?data and p = 2] c(3) by auto
  define f2 where "f2 = memory_write (memory_write [] 0 ?number) 4 x"
  have j1: "journal file1" "f_pageNo file1 = 2" "f_real file1 = memory_write [] 0 ?number" using j by (simp_all add: journal_def file1_def)
  have w2: "mcIoWrite memory_io file1 ?data (0 + 4) (Some codec) e
      = Some (SQLITE_OK, file1\<lparr>f_real := f2\<rparr>, Some (codec\<lparr>m_lastError := SQLITE_OK\<rparr>), e)"
    using journal_write(2) [OF j1(1) w(2,3,4), of ?data memory_io 4] j1 x by (simp add: memory_simps f2_def)
  let ?file3 = "file1\<lparr>f_real := f2\<rparr>"
  have j3: "journal ?file3" using j1(1) by (simp add: journal_def)
  have len: "516 \<le> length f2" using memory_write(2) [of 4 x "memory_write [] 0 ?number"] x(2) by (simp add: f2_def)
  have r: "xRead memory_io (f_real ?file3) 4 0 = (SQLITE_OK, region 0 4 f2, f2)" "xRead memory_io f2 (nat 512) (0 + 4) = (SQLITE_OK, region 4 512 f2, f2)"
    using len by (simp_all add: memory_simps)
  have k: "decrypts_with True codec e (Obj_RC4 a) 512 (read_reserved codec)" using c(2) w(5) by simp
  obtain file4 d file5 where "mcIoRead memory_io ?file3 4 0 (Some codec) e = Some ((SQLITE_OK, ?number), file4, Some codec, e)"
      "mcIoRead memory_io file4 (nat 512) (0 + 4) (Some codec) e = Some ((SQLITE_OK, d), file5, Some (codec\<lparr>m_lastError := SQLITE_OK\<rparr>), e)"
      "take (nat 512 - nat (read_reserved codec)) d = take (nat 512 - nat (read_reserved codec)) ?data"
    using journal_page_roundtrip [OF memory_storage j _ _ w(1,2,3) c(3) w(4) _ _ _ _ w1 w2 k j3 refl r] number by auto
  then show ?thesis
    by (intro exI [of _ codec] exI [of _ e] exI [of _ ?file3] exI [of _ "Some (codec\<lparr>m_lastError := SQLITE_OK\<rparr>)"] exI [of _ file4] exI [of _ d] exI [of _ file5])
      (simp add: w(5))
qed

theorem wal_page_roundtrip_witness:
  "\<exists>codec e file2 codec2 d file4. mcIoRead memory_io (file2 :: bytes mc_file) 512 56 (Some (codec :: any_cipher Codec)) e
      = Some ((SQLITE_OK, d), file4, codec2, e) \<and> take 512 d = replicate 512 7"
proof -
  obtain codec e a where c: "encrypts_with True codec e (Obj_RC4 a) 512 0" "decrypts_with True codec e (Obj_RC4 a) 512 0"
    "m_walLegacy codec = 0" "builtin.codec_ok codec" "builtin.env_ok True e"
    by (rule rc4_database)
  have w: "m_isEncrypted codec" "m_hasWriteCipher codec" "m_writeCipher codec = Some (Obj_RC4 a)" "sqlite3mcGetPageSize codec e = Some 512"
    using c(1) by (simp_all add: encrypts_with_def)
  let ?data = "replicate 512 7 :: bytes" and ?header = "[0, 0, 0, 2] @ replicate 20 5 :: bytes" and ?file = "new_file SQLITE_OPEN_WAL"
  have wal: "wal ?file"
    by (simp add: wal_def new_file_def SQLITE_OPEN_MAIN_DB_def SQLITE_OPEN_MAIN_JOURNAL_def SQLITE_OPEN_SUBJOURNAL_def SQLITE_OPEN_WAL_def)
  have number: "sqlite3Get4byte ?header = 2" by (simp add: sqlite3Get4byte_def LOAD32_BE_def)
  define f1 where "f1 = memory_write [] 32 ?header"
  have w1: "mcIoWrite memory_io ?file ?header (56 - walFrameHeaderSize) (Some codec) e = Some (SQLITE_OK, ?file\<lparr>f_real := f1\<rparr>, Some codec, e)"
    using wal_write [OF wal c(3), of memory_io ?header 32 e] by (simp add: memory_simps f1_def new_file_def walFrameHeaderSize_def)
  obtain x where x: "codec_store codec ?data 2 512 True e = Some (x, codec\<lparr>m_lastError := SQLITE_OK\<rparr>, e)" "length x = 512"
    using rc4_store [OF c(4,5), where w = True and data = ?data and p = 2] w(3) by auto
  have pager: "sqlite3mcPagerCodec True ?data (sqlite3Get4byte ?header) (Some codec) e = Some (x, Some (codec\<lparr>m_lastError := SQLITE_OK\<rparr>), e)"
    unfolding number using x w c(3) by (simp add: sqlite3mcPagerCodec_def encrypted_def sqlite3mcCodec_def)
  define f2 where "f2 = memory_write f1 56 x"
  have wal1: "wal (?file\<lparr>f_real := f\<rparr>)" for f using wal by (simp add: wal_def)
  have w2: "mcIoWrite memory_io (?file\<lparr>f_real := f1\<rparr>) x 56 (Some (codec\<lparr>m_lastError := SQLITE_OK\<rparr>)) e
      = Some (SQLITE_OK, ?file\<lparr>f_real := f2\<rparr>, Some (codec\<lparr>m_lastError := SQLITE_OK\<rparr>), e)"
    using wal_write [OF wal1 [of f1], of "codec\<lparr>m_lastError := SQLITE_OK\<rparr>" memory_io x 56 e] c(3) by (simp add: memory_simps f2_def)
  have len: "568 \<le> length f2" using memory_write(2) [of 56 x f1] x(2) by (simp add: f2_def)
  have r: "xRead memory_io (f_real (?file\<lparr>f_real := f2\<rparr>)) (nat 512) 56 = (SQLITE_OK, region 56 512 f2, f2)"
    "xRead memory_io f2 4 (56 - walFrameHeaderSize) = (SQLITE_OK, region 32 4 f2, f2)"
    using len by (simp_all add: memory_simps walFrameHeaderSize_def)
  have nz: "sqlite3Get4byte ?header \<noteq> 0" unfolding number by simp
  have hyps: "length ?header = 24" "length ?data = nat 512" "page_ok (Obj_RC4 a) (sqlite3Get4byte ?header) ?data 0" by simp_all
  obtain d file4 where "mcIoRead memory_io (?file\<lparr>f_real := f2\<rparr>) (nat 512) 56 (Some codec) e
      = Some ((SQLITE_OK, d), file4, Some (codec\<lparr>m_lastError := SQLITE_OK\<rparr>), e)" "take (nat 512 - nat 0) d = take (nat 512 - nat 0) ?data"
    using wal_page_roundtrip [OF memory_storage wal _ _ c(1,3) hyps(1) nz hyps(2,3) w1 pager w2 c(2) wal1 refl r] by auto
  then show ?thesis
    by (intro exI [of _ codec] exI [of _ e] exI [of _ "?file\<lparr>f_real := f2\<rparr>"] exI [of _ "Some (codec\<lparr>m_lastError := SQLITE_OK\<rparr>)"] exI [of _ d] exI [of _ file4])
      simp
qed

end
