(* ===== verification/VFS_Files.thy ===== *)
theory VFS_Files
  imports VFS
begin

text \<open>
  The open files of the VFS shim, \<^verbatim>\<open>src/src/sqlite3mc_vfs.c\<close>: opening and closing, the list of the main database files, which is
  linked through the file objects, and the codecs that they own. The objects are in an explicit store, because the code changes them through
  pointers; the addresses of objects, of file names (which are compared as pointers) and of codecs are natural numbers. The result \<open>None\<close> of an operation is
  the use of a pointer to no object, a second release of a codec, a failed assertion, or a loop that does not end.
\<close>

unbundle bit_operations_syntax

section \<open>The store\<close>

record mc_handle =
  h_zFileName :: "nat option"
  h_openFlags :: int
  h_pMainNext :: "nat option"
  h_pMainDb :: "nat option"
  h_codec :: "nat option"
  h_pageNo :: int

text \<open>The VFS with the open files and the codecs that are allocated.\<close>

record mc_vfs =
  vfs_pMain :: "nat option"
  vfs_files :: "nat \<Rightarrow> mc_handle option"
  vfs_codecs :: "nat set"

definition no_files :: mc_vfs where
  "no_files = \<lparr>vfs_pMain = None, vfs_files = (\<lambda>_. None), vfs_codecs = {}\<rparr>"

definition update_file :: "nat \<Rightarrow> (mc_handle \<Rightarrow> mc_handle) \<Rightarrow> mc_vfs \<Rightarrow> mc_vfs option" where
  "update_file p f w = map_option (\<lambda>h. w\<lparr>vfs_files := (vfs_files w)(p \<mapsto> f h)\<rparr>) (vfs_files w p)"

section \<open>The list of main database files\<close>

definition mcMainListAdd :: "nat \<Rightarrow> mc_vfs \<Rightarrow> mc_vfs option" where
  "mcMainListAdd p w =
     map_option (\<lambda>w'. w'\<lparr>vfs_pMain := Some p\<rparr>) (update_file p (\<lambda>h. h\<lparr>h_pMainNext := vfs_pMain w\<rparr>) w)"

text \<open>
  \<^verbatim>\<open>pMainPrev\<close> is the address of a link: that of \<^verbatim>\<open>pMain\<close> (\<open>None\<close>) or of the field \<^verbatim>\<open>pMainNext\<close> of an object. The loop stops at the
  link that is null or points to the file.
\<close>

definition link :: "mc_vfs \<Rightarrow> nat option \<Rightarrow> nat option option" where
  "link w prev = (case prev of None \<Rightarrow> Some (vfs_pMain w) | Some q \<Rightarrow> map_option h_pMainNext (vfs_files w q))"

definition set_link :: "nat option \<Rightarrow> nat option \<Rightarrow> mc_vfs \<Rightarrow> mc_vfs option" where
  "set_link prev c w = (case prev of None \<Rightarrow> Some (w\<lparr>vfs_pMain := c\<rparr>) | Some q \<Rightarrow> update_file q (\<lambda>h. h\<lparr>h_pMainNext := c\<rparr>) w)"

partial_function (option) find_link :: "mc_vfs \<Rightarrow> nat \<Rightarrow> nat option \<Rightarrow> nat option option" where
  "find_link w p prev =
     (case link w prev of
        None \<Rightarrow> None
      | Some c \<Rightarrow> if c = None \<or> c = Some p then Some prev else find_link w p c)"

definition mcMainListRemove :: "nat \<Rightarrow> mc_vfs \<Rightarrow> mc_vfs option" where
  "mcMainListRemove p w = do {
     prev \<leftarrow> find_link w p None;
     c \<leftarrow> link w prev;
     h \<leftarrow> vfs_files w p;
     w \<leftarrow> (if c \<noteq> None then set_link prev (h_pMainNext h) w else Some w);
     update_file p (\<lambda>h. h\<lparr>h_pMainNext := None\<rparr>) w
   }"

partial_function (option) search_files :: "(nat \<Rightarrow> mc_handle option) \<Rightarrow> nat option \<Rightarrow> nat option \<Rightarrow> nat option option" where
  "search_files files zFileName pDb =
     (case pDb of
        None \<Rightarrow> Some None
      | Some p \<Rightarrow>
          (case files p of
             None \<Rightarrow> None
           | Some h \<Rightarrow> if h_zFileName h = zFileName then Some (Some p) else search_files files zFileName (h_pMainNext h)))"

definition mcFindDbMainFileName :: "nat option \<Rightarrow> mc_vfs \<Rightarrow> nat option option" where
  "mcFindDbMainFileName zFileName w = search_files (vfs_files w) zFileName (vfs_pMain w)"

section \<open>Opening, closing, and the codec of a file\<close>

definition SQLITE_OPEN_TEMP_DB :: int where "SQLITE_OPEN_TEMP_DB = 0x200"

text \<open>
  \<open>p\<close> is the memory for the object, \<open>dbName\<close> what \<^verbatim>\<open>sqlite3_filename_database\<close> gives for the name of a journal, \<open>realOk\<close> the success
  of the underlying \<^verbatim>\<open>xOpen\<close>; without it the object is not used any further.
\<close>

definition mcVfsOpen :: "nat \<Rightarrow> nat option \<Rightarrow> nat option \<Rightarrow> int \<Rightarrow> bool \<Rightarrow> mc_vfs \<Rightarrow> mc_vfs option" where
  "mcVfsOpen p zName dbName flags realOk w = do {
     pMainDb \<leftarrow>
       (if zName = None \<or> flags AND SQLITE_OPEN_MAIN_DB \<noteq> 0 \<or> flags AND SQLITE_OPEN_TEMP_DB \<noteq> 0 then Some None
        else if flags AND SQLITE_OPEN_MAIN_JOURNAL \<noteq> 0 \<or> flags AND SQLITE_OPEN_SUBJOURNAL \<noteq> 0 \<or> flags AND SQLITE_OPEN_WAL \<noteq> 0
        then mcFindDbMainFileName dbName w
        else Some None);
     let w' = w\<lparr>vfs_files := (vfs_files w)(p \<mapsto> \<lparr>h_zFileName = zName, h_openFlags = flags, h_pMainNext = None,
                 h_pMainDb = pMainDb, h_codec = None, h_pageNo = 0\<rparr>)\<rparr>;
     if \<not> realOk then Some w
     else if flags AND SQLITE_OPEN_MAIN_DB \<noteq> 0 then mcMainListAdd p w' else Some w'
   }"

definition sqlite3mcCodecFree :: "nat option \<Rightarrow> mc_vfs \<Rightarrow> mc_vfs option" where
  "sqlite3mcCodecFree codec w =
     (case codec of
        None \<Rightarrow> Some w
      | Some c \<Rightarrow> if c \<in> vfs_codecs w then Some (w\<lparr>vfs_codecs := vfs_codecs w - {c}\<rparr>) else None)"

text \<open>After the underlying \<^verbatim>\<open>xClose\<close> the object is released.\<close>

definition mcIoClose :: "nat \<Rightarrow> mc_vfs \<Rightarrow> mc_vfs option" where
  "mcIoClose p w = do {
     h \<leftarrow> vfs_files w p;
     w \<leftarrow> (if h_openFlags h AND SQLITE_OPEN_MAIN_DB \<noteq> 0 then mcMainListRemove p w else Some w);
     w \<leftarrow> sqlite3mcCodecFree (h_codec h) w;
     h \<leftarrow> vfs_files w p;
     if h_pMainNext h \<noteq> None \<or> vfs_pMain w = Some p then None
     else Some (w\<lparr>vfs_files := (vfs_files w)(p := None)\<rparr>)
   }"

text \<open>\<open>isMc\<close> says that \<^verbatim>\<open>mcFindVfs\<close> finds this VFS for the connection. The error state of the pager, which is reset, is not part of the store.\<close>

definition sqlite3mcGetCodec :: "bool \<Rightarrow> nat option \<Rightarrow> mc_vfs \<Rightarrow> nat option option" where
  "sqlite3mcGetCodec isMc dbFileName w =
     (if isMc then
        do {
          found \<leftarrow> mcFindDbMainFileName dbFileName w;
          case found of None \<Rightarrow> Some None | Some p \<Rightarrow> map_option h_codec (vfs_files w p)
        }
      else Some None)"

definition sqlite3mcSetCodec :: "bool \<Rightarrow> nat option \<Rightarrow> nat option \<Rightarrow> mc_vfs \<Rightarrow> mc_vfs option" where
  "sqlite3mcSetCodec isMc zFileName codec w = do {
     found \<leftarrow> (if isMc then mcFindDbMainFileName zFileName w else Some None);
     case found of
       None \<Rightarrow> sqlite3mcCodecFree codec w
     | Some p \<Rightarrow> do {
         h \<leftarrow> vfs_files w p;
         w \<leftarrow> update_file p (\<lambda>h. h\<lparr>h_codec := codec\<rparr>) w;
         sqlite3mcCodecFree (h_codec h) w
       }
   }"

section \<open>What can happen\<close>

text \<open>
  The steps: SQLite opens a file in fresh memory, closes an open one, or sets the codec of a database to a
  new codec or to none.
\<close>

inductive vfs_step :: "mc_vfs \<Rightarrow> mc_vfs \<Rightarrow> bool" where
  open_file: "vfs_files w p = None \<Longrightarrow> mcVfsOpen p zName dbName flags realOk w = Some w' \<Longrightarrow> vfs_step w w'"
| close_file: "vfs_files w p \<noteq> None \<Longrightarrow> mcIoClose p w = Some w' \<Longrightarrow> vfs_step w w'"
| set_codec: "c \<notin> vfs_codecs w \<Longrightarrow> sqlite3mcSetCodec isMc zFileName (Some c) (w\<lparr>vfs_codecs := insert c (vfs_codecs w)\<rparr>) = Some w' \<Longrightarrow> vfs_step w w'"
| remove_codec: "sqlite3mcSetCodec isMc zFileName None w = Some w' \<Longrightarrow> vfs_step w w'"

inductive vfs_reachable :: "mc_vfs \<Rightarrow> bool" where
  reach_start: "vfs_reachable no_files"
| reach_step: "vfs_reachable w \<Longrightarrow> vfs_step w w' \<Longrightarrow> vfs_reachable w'"


section \<open>The list as a list\<close>

fun chain :: "(nat \<Rightarrow> mc_handle option) \<Rightarrow> nat option \<Rightarrow> nat list \<Rightarrow> bool" where
  "chain files c [] \<longleftrightarrow> c = None"
| "chain files c (p # ps) \<longleftrightarrow> c = Some p \<and> (case files p of None \<Rightarrow> False | Some h \<Rightarrow> chain files (h_pMainNext h) ps)"

lemma chain_files: "chain files c ps \<Longrightarrow> p \<in> set ps \<Longrightarrow> files p \<noteq> None"
  by (induction ps arbitrary: c) (auto split: option.splits)

lemma chain_other: "p \<notin> set ps \<Longrightarrow> chain (files(p := x)) c ps = chain files c ps"
  by (induction ps arbitrary: c) (auto split: option.splits)

lemma chain_same_next:
  "files p = Some h \<Longrightarrow> h_pMainNext h' = h_pMainNext h \<Longrightarrow> chain (files(p \<mapsto> h')) c ps = chain files c ps"
  by (induction ps arbitrary: c) (auto split: option.splits)

lemma chain_head: "chain files (Some p) ps \<Longrightarrow> p \<in> set ps"
  by (cases ps) auto

lemma chain_distinct: "chain files c ps \<Longrightarrow> distinct ps"
proof -
  have same: "chain files c ps \<Longrightarrow> chain files c qs \<Longrightarrow> ps = qs" for c ps qs
    by (induction ps arbitrary: c qs) (case_tac [!] qs, auto split: option.splits)
  have tail: "chain files c (as @ bs) \<Longrightarrow> \<exists>d. chain files d bs \<and> (bs \<noteq> [] \<longrightarrow> d = Some (hd bs))" for c as bs
    by (induction as arbitrary: c) (auto split: option.splits, cases bs, auto split: option.splits)
  assume ch: "chain files c ps"
  show ?thesis
  proof (rule ccontr)
    assume "\<not> distinct ps"
    then obtain as bs cs p where ps: "ps = as @ [p] @ bs @ [p] @ cs" using not_distinct_decomp by blast
    have "chain files (Some p) (p # bs @ [p] @ cs)" using tail [of c as "p # bs @ [p] @ cs"] ch ps by auto
    moreover have "chain files (Some p) (p # cs)" using tail [of c "as @ [p] @ bs" "p # cs"] ch ps by auto
    ultimately have "p # bs @ [p] @ cs = p # cs" by (rule same)
    then have "length (bs @ [p] @ cs) = length cs" by simp
    then show False by simp
  qed
qed

lemma search_chain:
  "chain files c ps \<Longrightarrow> search_files files zName c = Some (List.find (\<lambda>p. map_option h_zFileName (files p) = Some zName) ps)"
  by (induction ps arbitrary: c) (subst search_files.simps, auto split: option.splits)+

text \<open>The link that \<^verbatim>\<open>pMainPrev\<close> has after the objects \<open>as\<close>.\<close>

definition link_after :: "nat option \<Rightarrow> nat list \<Rightarrow> nat option" where
  "link_after prev as = (if as = [] then prev else Some (last as))"

lemma find_link_chain:
  assumes "link w prev = Some c" and "chain (vfs_files w) c (as @ p # bs)" and "p \<notin> set as"
  shows "find_link w p prev = Some (link_after prev as)" and "link w (link_after prev as) = Some (Some p)"
proof -
  have "find_link w p prev = Some (link_after prev as) \<and> link w (link_after prev as) = Some (Some p)"
    using assms
  proof (induction as arbitrary: prev c)
    case Nil
    then show ?case by (subst find_link.simps) (auto simp: link_after_def)
  next
    case (Cons q as)
    then obtain h where h: "c = Some q" "vfs_files w q = Some h" "chain (vfs_files w) (h_pMainNext h) (as @ p # bs)"
      by (auto split: option.splits)
    have "link w (Some q) = Some (h_pMainNext h)" by (simp add: link_def h)
    from Cons.IH [OF this h(3)] Cons.prems(3)
    have "find_link w p (Some q) = Some (link_after (Some q) as) \<and> link w (link_after (Some q) as) = Some (Some p)" by simp
    moreover have "link_after (Some q) as = link_after prev (q # as)" by (simp add: link_after_def)
    ultimately show ?case using Cons.prems h(1) by (subst find_link.simps) simp
  qed
  then show "find_link w p prev = Some (link_after prev as)" "link w (link_after prev as) = Some (Some p)" by simp_all
qed

lemma find_link_missing:
  assumes "link w prev = Some c" and "chain (vfs_files w) c as" and "p \<notin> set as"
  shows "find_link w p prev = Some (link_after prev as) \<and> link w (link_after prev as) = Some None"
  using assms
proof (induction as arbitrary: prev c)
  case Nil
  then show ?case by (subst find_link.simps) (auto simp: link_after_def)
next
  case (Cons q as)
  then obtain h where h: "c = Some q" "vfs_files w q = Some h" "chain (vfs_files w) (h_pMainNext h) as"
    by (auto split: option.splits)
  have "link w (Some q) = Some (h_pMainNext h)" by (simp add: link_def h)
  from Cons.IH [OF this h(3)] Cons.prems(3)
  have "find_link w p (Some q) = Some (link_after (Some q) as) \<and> link w (link_after (Some q) as) = Some None" by simp
  moreover have "link_after (Some q) as = link_after prev (q # as)" by (simp add: link_after_def)
  ultimately show ?case using Cons.prems h(1) by (subst find_link.simps) simp
qed

lemma chain_split: "chain files c (as @ bs) \<Longrightarrow> \<exists>d. chain files d bs"
  by (induction as arbitrary: c) (auto split: option.splits)

text \<open>Unlinking a file.\<close>

lemma chain_relink:
  assumes "chain files c (as @ p # bs)" and "distinct (as @ p # bs)" and "files p = Some h" and "as \<noteq> []" and "files (last as) = Some k"
  shows "chain (files(last as \<mapsto> k\<lparr>h_pMainNext := h_pMainNext h\<rparr>)) c (as @ bs)"
  using assms
proof (induction as arbitrary: c)
  case (Cons q as)
  then obtain g where g: "c = Some q" "files q = Some g" "chain files (h_pMainNext g) (as @ p # bs)" by (auto split: option.splits)
  show ?case
  proof (cases "as = []")
    case True
    then have "chain files (h_pMainNext h) bs" using g(3) Cons.prems(3) by simp
    then have "chain (files(q \<mapsto> k\<lparr>h_pMainNext := h_pMainNext h\<rparr>)) (h_pMainNext h) bs" using Cons.prems(2) by (simp add: chain_other)
    then show ?thesis using Cons.prems(5) g(1,2) True by (simp add: fun_upd_def)
  next
    case False
    then have "last as \<noteq> q" using Cons.prems(2) last_in_set by fastforce
    then show ?thesis using Cons.IH [OF g(3) _ Cons.prems(3) False] Cons.prems(2,5) g(1,2) False by auto
  qed
qed simp

definition without_next :: "mc_vfs \<Rightarrow> nat \<Rightarrow> mc_handle option" where
  "without_next w q = map_option (\<lambda>h. h\<lparr>h_pMainNext := None\<rparr>) (vfs_files w q)"

lemma mcMainListRemove_chain:
  assumes ch: "chain (vfs_files w) (vfs_pMain w) (as @ p # bs)" and h: "vfs_files w p = Some h"
  shows "\<exists>w'. mcMainListRemove p w = Some w' \<and> chain (vfs_files w') (vfs_pMain w') (as @ bs) \<and> vfs_codecs w' = vfs_codecs w
    \<and> vfs_files w' p = Some (h\<lparr>h_pMainNext := None\<rparr>) \<and> without_next w' = without_next w
    \<and> (\<forall>q. q \<notin> set (as @ p # bs) \<longrightarrow> vfs_files w' q = vfs_files w q)"
proof -
  have d: "distinct (as @ p # bs)" by (rule chain_distinct [OF ch])
  have start: "link w None = Some (vfs_pMain w)" by (simp add: link_def)
  have l: "find_link w p None = Some (link_after None as)" "link w (link_after None as) = Some (Some p)"
    using find_link_chain [OF start ch] d by auto
  show ?thesis
  proof (cases "as = []")
    case True
    have "chain (vfs_files w) (h_pMainNext h) bs" using ch h by (simp add: True)
    then have "chain ((vfs_files w)(p \<mapsto> h\<lparr>h_pMainNext := None\<rparr>)) (h_pMainNext h) bs" using d by (simp add: True chain_other)
    then show ?thesis using l h
      by (auto simp: mcMainListRemove_def link_after_def True set_link_def update_file_def without_next_def)
  next
    case False
    let ?q = "last as"
    have q: "?q \<in> set as" "?q \<noteq> p" using False d by auto
    obtain k where k: "vfs_files w ?q = Some k" using chain_files [OF ch, of ?q] q(1) by auto
    have "chain ((vfs_files w)(?q \<mapsto> k\<lparr>h_pMainNext := h_pMainNext h\<rparr>)) (vfs_pMain w) (as @ bs)"
      by (rule chain_relink [OF ch d h False k])
    then have "chain ((vfs_files w)(?q \<mapsto> k\<lparr>h_pMainNext := h_pMainNext h\<rparr>, p \<mapsto> h\<lparr>h_pMainNext := None\<rparr>)) (vfs_pMain w) (as @ bs)"
      using d by (simp add: chain_other del: fun_upd_apply)
    moreover have "mcMainListRemove p w =
        Some (w\<lparr>vfs_files := (vfs_files w)(?q \<mapsto> k\<lparr>h_pMainNext := h_pMainNext h\<rparr>, p \<mapsto> h\<lparr>h_pMainNext := None\<rparr>)\<rparr>)"
      using l h k q(2) by (simp add: mcMainListRemove_def link_after_def False set_link_def update_file_def)
    ultimately show ?thesis using h k q by (auto simp: without_next_def)
  qed
qed

section \<open>The invariant\<close>

definition owns :: "mc_vfs \<Rightarrow> nat \<Rightarrow> nat \<Rightarrow> bool" where
  "owns w p c \<longleftrightarrow> (\<exists>h. vfs_files w p = Some h \<and> h_codec h = Some c)"

definition is_main :: "mc_vfs \<Rightarrow> nat \<Rightarrow> bool" where
  "is_main w p \<longleftrightarrow> (\<exists>h. vfs_files w p = Some h \<and> h_openFlags h AND SQLITE_OPEN_MAIN_DB \<noteq> 0)"

text \<open>
  The list holds the open main database files, each once; only they own a codec, every allocated codec has one owner, and the files
  that are not in the list have no successor.
\<close>

definition files_inv :: "mc_vfs \<Rightarrow> nat list \<Rightarrow> bool" where
  "files_inv w ps \<longleftrightarrow> chain (vfs_files w) (vfs_pMain w) ps \<and> (\<forall>p. p \<in> set ps \<longleftrightarrow> is_main w p)
     \<and> (\<forall>p h. vfs_files w p = Some h \<longrightarrow> p \<notin> set ps \<longrightarrow> h_pMainNext h = None \<and> h_codec h = None)
     \<and> (\<forall>c. c \<in> vfs_codecs w \<longleftrightarrow> (\<exists>p. owns w p c)) \<and> (\<forall>p q c. owns w p c \<longrightarrow> owns w q c \<longrightarrow> p = q)"

lemma files_inv_start: "files_inv no_files []"
  by (simp add: files_inv_def no_files_def is_main_def owns_def)

lemma find_main:
  "files_inv w ps \<Longrightarrow> mcFindDbMainFileName zName w = Some (List.find (\<lambda>p. map_option h_zFileName (vfs_files w p) = Some zName) ps)"
  unfolding mcFindDbMainFileName_def files_inv_def by (rule search_chain, erule conjunct1)

lemma mcVfsOpen_inv:
  assumes "files_inv w ps" and "vfs_files w p = None"
  shows "\<exists>w'. mcVfsOpen p zName dbName flags realOk w = Some w'
    \<and> files_inv w' (if realOk \<and> flags AND SQLITE_OPEN_MAIN_DB \<noteq> 0 then p # ps else ps)"
proof -
  note inv = assms(1) [unfolded files_inv_def]
  have p: "p \<notin> set ps" using inv assms(2) by (auto simp: is_main_def)
  have "\<exists>m. (if zName = None \<or> flags AND SQLITE_OPEN_MAIN_DB \<noteq> 0 \<or> flags AND SQLITE_OPEN_TEMP_DB \<noteq> 0 then Some None
        else if flags AND SQLITE_OPEN_MAIN_JOURNAL \<noteq> 0 \<or> flags AND SQLITE_OPEN_SUBJOURNAL \<noteq> 0 \<or> flags AND SQLITE_OPEN_WAL \<noteq> 0
        then mcFindDbMainFileName dbName w else Some None) = Some m"
    by (simp only: find_main [OF assms(1)] split: if_split) blast
  then obtain pMainDb where db: "(if zName = None \<or> flags AND SQLITE_OPEN_MAIN_DB \<noteq> 0 \<or> flags AND SQLITE_OPEN_TEMP_DB \<noteq> 0 then Some None
        else if flags AND SQLITE_OPEN_MAIN_JOURNAL \<noteq> 0 \<or> flags AND SQLITE_OPEN_SUBJOURNAL \<noteq> 0 \<or> flags AND SQLITE_OPEN_WAL \<noteq> 0
        then mcFindDbMainFileName dbName w else Some None) = Some pMainDb" ..
  define h where "h = \<lparr>h_zFileName = zName, h_openFlags = flags, h_pMainNext = None, h_pMainDb = pMainDb, h_codec = None, h_pageNo = 0\<rparr>"
  have run: "mcVfsOpen p zName dbName flags realOk w =
      (if \<not> realOk then Some w else if flags AND SQLITE_OPEN_MAIN_DB \<noteq> 0 then mcMainListAdd p (w\<lparr>vfs_files := (vfs_files w)(p \<mapsto> h)\<rparr>)
       else Some (w\<lparr>vfs_files := (vfs_files w)(p \<mapsto> h)\<rparr>))"
    unfolding mcVfsOpen_def db by (simp add: h_def)
  have owns: "owns (w\<lparr>vfs_files := (vfs_files w)(p \<mapsto> k), vfs_pMain := m\<rparr>) q c \<longleftrightarrow> owns w q c" if "h_codec k = None" for q c k m
    using assms(2) that by (auto simp: owns_def)
  show ?thesis
  proof (cases "realOk \<and> flags AND SQLITE_OPEN_MAIN_DB \<noteq> 0")
    case True
    define w' where "w' = w\<lparr>vfs_files := (vfs_files w)(p \<mapsto> h\<lparr>h_pMainNext := vfs_pMain w\<rparr>), vfs_pMain := Some p\<rparr>"
    have "mcVfsOpen p zName dbName flags realOk w = Some w'"
      unfolding run using True by (simp add: mcMainListAdd_def update_file_def w'_def)
    moreover have "chain (vfs_files w') (vfs_pMain w') (p # ps)" using inv p by (simp add: w'_def chain_other)
    moreover have "is_main w' q \<longleftrightarrow> q = p \<or> is_main w q" for q using True assms(2) by (auto simp: w'_def is_main_def h_def)
    moreover have "owns w' q c \<longleftrightarrow> owns w q c" for q c unfolding w'_def by (rule owns) (simp add: h_def)
    moreover have "vfs_codecs w' = vfs_codecs w" by (simp add: w'_def)
    moreover have "vfs_files w' q = vfs_files w q" if "q \<noteq> p" for q using that by (simp add: w'_def)
    ultimately show ?thesis using inv True unfolding files_inv_def by (intro exI [of _ w']) auto
  next
    case False
    define w' where "w' = (if realOk then w\<lparr>vfs_files := (vfs_files w)(p \<mapsto> h)\<rparr> else w)"
    have "mcVfsOpen p zName dbName flags realOk w = Some w'" unfolding run using False by (auto simp: w'_def)
    moreover have "chain (vfs_files w') (vfs_pMain w') ps" using inv p by (simp add: w'_def chain_other)
    moreover have "is_main w' q \<longleftrightarrow> is_main w q" for q using False assms(2) by (auto simp: w'_def is_main_def h_def)
    moreover have "owns w' q c \<longleftrightarrow> owns w q c" for q c using owns [of h "vfs_pMain w" q c] by (simp add: w'_def h_def)
    moreover have "vfs_codecs w' = vfs_codecs w" by (simp add: w'_def)
    moreover have "vfs_files w' q = Some k \<Longrightarrow> vfs_files w q = Some k \<or> k = h" for q k by (auto simp: w'_def split: if_splits)
    moreover have "h_pMainNext h = None" "h_codec h = None" by (simp_all add: h_def)
    ultimately show ?thesis using inv False unfolding files_inv_def by (intro exI [of _ w']) (auto; blast)
  qed
qed

text \<open>Without the links the store is the same before and after \<^verbatim>\<open>mcMainListRemove\<close>.\<close>

lemma without_next_eq:
  assumes "without_next w' = without_next w"
  shows "owns w' q c \<longleftrightarrow> owns w q c" and "is_main w' q \<longleftrightarrow> is_main w q" and "vfs_files w' q = None \<longleftrightarrow> vfs_files w q = None"
proof -
  have e: "map_option (\<lambda>h. h\<lparr>h_pMainNext := None\<rparr>) (vfs_files w' q) = map_option (\<lambda>h. h\<lparr>h_pMainNext := None\<rparr>) (vfs_files w q)"
    using fun_cong [OF assms, of q] by (simp add: without_next_def)
  have sel: "h_codec h = h_codec k" "h_openFlags h = h_openFlags k" if "h\<lparr>h_pMainNext := None\<rparr> = k\<lparr>h_pMainNext := None\<rparr>" for h k :: mc_handle
    using arg_cong [OF that, of h_codec] arg_cong [OF that, of h_openFlags] by simp_all
  show "owns w' q c \<longleftrightarrow> owns w q c" "is_main w' q \<longleftrightarrow> is_main w q" "vfs_files w' q = None \<longleftrightarrow> vfs_files w q = None"
    using e by (cases "vfs_files w' q"; cases "vfs_files w q"; auto simp: owns_def is_main_def dest: sel)+
qed

lemma free_owned:
  assumes "files_inv w ps" and "vfs_files w p = Some h"
  shows "sqlite3mcCodecFree (h_codec h) w = Some (w\<lparr>vfs_codecs := vfs_codecs w - set_option (h_codec h)\<rparr>)"
  using assms by (cases "h_codec h") (auto simp: sqlite3mcCodecFree_def files_inv_def owns_def)

text \<open>Removing a file from the store, with its codec, when it is not in the list any more.\<close>

lemma release_inv:
  assumes inv: "files_inv w ps" and h: "vfs_files w p = Some h"
    and ch: "chain (vfs_files w') (vfs_pMain w') (removeAll p ps)" and same: "without_next w' = without_next w"
    and others: "\<And>q. q \<notin> set ps \<Longrightarrow> vfs_files w' q = vfs_files w q" and codecs: "vfs_codecs w' = vfs_codecs w - set_option (h_codec h)"
  shows "files_inv (w'\<lparr>vfs_files := (vfs_files w')(p := None)\<rparr>) (removeAll p ps)"
proof -
  let ?w = "w'\<lparr>vfs_files := (vfs_files w')(p := None)\<rparr>"
  note inv = inv [unfolded files_inv_def]
  note eq = without_next_eq [OF same]
  have owns: "owns ?w q c \<longleftrightarrow> q \<noteq> p \<and> owns w q c" for q c using eq(1) [of q c] by (auto simp: owns_def)
  have main: "is_main ?w q \<longleftrightarrow> q \<noteq> p \<and> is_main w q" for q using eq(2) [of q] by (auto simp: is_main_def)
  have mine: "owns w p c \<longleftrightarrow> c \<in> set_option (h_codec h)" for c using h by (auto simp: owns_def)
  have "chain (vfs_files ?w) (vfs_pMain ?w) (removeAll p ps)" using ch by (simp add: chain_other)
  moreover have "c \<in> vfs_codecs ?w \<longleftrightarrow> (\<exists>q. owns ?w q c)" for c
  proof -
    have live: "c \<in> vfs_codecs w \<longleftrightarrow> (\<exists>q. owns w q c)" and unique: "\<And>q. owns w p c \<Longrightarrow> owns w q c \<Longrightarrow> q = p"
      using inv by blast+
    have "c \<in> vfs_codecs ?w \<longleftrightarrow> c \<in> vfs_codecs w \<and> \<not> owns w p c" by (simp add: codecs mine)
    also have "\<dots> \<longleftrightarrow> (\<exists>q. q \<noteq> p \<and> owns w q c)" using live unique by metis
    finally show ?thesis by (simp add: owns)
  qed
  moreover have "h_pMainNext k = None \<and> h_codec k = None" if "vfs_files ?w q = Some k" "q \<notin> set (removeAll p ps)" for q k
    using that inv others by (auto split: if_splits)
  ultimately show ?thesis using inv unfolding files_inv_def by (auto simp: owns main)
qed

lemma mcIoClose_inv:
  assumes inv: "files_inv w ps" and p: "vfs_files w p \<noteq> None"
  shows "\<exists>w'. mcIoClose p w = Some w' \<and> vfs_files w' p = None \<and> files_inv w' (removeAll p ps)"
proof -
  obtain h where h: "vfs_files w p = Some h" using p by auto
  note i = inv [unfolded files_inv_def]
  have d: "distinct ps" using i chain_distinct by blast
  show ?thesis
  proof (cases "p \<in> set ps")
    case True
    then obtain as bs where ps: "ps = as @ p # bs" using split_list by fastforce
    have r: "removeAll p ps = as @ bs" using d by (simp add: ps removeAll_id)
    have main: "h_openFlags h AND SQLITE_OPEN_MAIN_DB \<noteq> 0" using True i h by (auto simp: is_main_def)
    obtain w1 where w1: "mcMainListRemove p w = Some w1" "chain (vfs_files w1) (vfs_pMain w1) (as @ bs)" "vfs_codecs w1 = vfs_codecs w"
      "vfs_files w1 p = Some (h\<lparr>h_pMainNext := None\<rparr>)" "without_next w1 = without_next w"
      "\<And>q. q \<notin> set ps \<Longrightarrow> vfs_files w1 q = vfs_files w q"
      using mcMainListRemove_chain [of w as p bs h] i h ps by auto
    define w2 where "w2 = w1\<lparr>vfs_codecs := vfs_codecs w - set_option (h_codec h)\<rparr>"
    have free: "sqlite3mcCodecFree (h_codec h) w1 = Some w2"
      using free_owned [OF inv h] w1(3) by (cases "h_codec h") (auto simp: sqlite3mcCodecFree_def w2_def split: if_splits)
    have "p \<notin> set (as @ bs)" using d by (simp add: ps)
    then have "vfs_pMain w2 \<noteq> Some p" using chain_head [of _ p "as @ bs"] w1(2) by (auto simp: w2_def)
    then have "mcIoClose p w = Some (w2\<lparr>vfs_files := (vfs_files w2)(p := None)\<rparr>)"
      by (simp add: mcIoClose_def h main w1(1) free w2_def w1(4))
    moreover have "files_inv (w2\<lparr>vfs_files := (vfs_files w2)(p := None)\<rparr>) (removeAll p ps)"
      by (rule release_inv [OF inv h]) (use w1 in \<open>simp_all add: w2_def r without_next_def fun_eq_iff\<close>)
    ultimately show ?thesis by simp
  next
    case False
    have nmain: "\<not> h_openFlags h AND SQLITE_OPEN_MAIN_DB \<noteq> 0" and nx: "h_pMainNext h = None" "h_codec h = None"
      using False i h by (auto simp: is_main_def)
    have "vfs_pMain w \<noteq> Some p" using False chain_head [of "vfs_files w" p ps] i by auto
    then have "mcIoClose p w = Some (w\<lparr>vfs_files := (vfs_files w)(p := None)\<rparr>)"
      using nmain by (simp add: mcIoClose_def h nx sqlite3mcCodecFree_def)
    moreover have "files_inv (w\<lparr>vfs_files := (vfs_files w)(p := None)\<rparr>) (removeAll p ps)"
      by (rule release_inv [OF inv h]) (use i False nx in \<open>simp_all\<close>)
    ultimately show ?thesis by simp
  qed
qed

text \<open>Setting the codec of a file: only its field and the allocated codecs change.\<close>

lemma sqlite3mcSetCodec_inv:
  assumes inv: "files_inv w ps" and new: "\<And>c. codec = Some c \<Longrightarrow> c \<notin> vfs_codecs w"
  shows "\<exists>w'. sqlite3mcSetCodec isMc zFileName codec (w\<lparr>vfs_codecs := vfs_codecs w \<union> set_option codec\<rparr>) = Some w' \<and> files_inv w' ps"
proof -
  let ?w = "w\<lparr>vfs_codecs := vfs_codecs w \<union> set_option codec\<rparr>"
  let ?found = "if isMc then List.find (\<lambda>p. map_option h_zFileName (vfs_files w p) = Some zFileName) ps else None"
  note i = inv [unfolded files_inv_def]
  have "mcFindDbMainFileName zFileName ?w = mcFindDbMainFileName zFileName w" by (simp add: mcFindDbMainFileName_def)
  then have found: "(if isMc then mcFindDbMainFileName zFileName ?w else Some None) = Some ?found"
    by (simp add: find_main [OF inv] del: map_option_eq_Some)
  show ?thesis
  proof (cases ?found)
    case None
    have "sqlite3mcCodecFree codec ?w = Some w" using new by (cases codec) (auto simp: sqlite3mcCodecFree_def)
    then show ?thesis unfolding sqlite3mcSetCodec_def found using None inv by simp
  next
    case (Some p)
    then have p: "p \<in> set ps" by (auto simp: find_Some_iff split: if_splits)
    then obtain h where h: "vfs_files w p = Some h" using chain_files [OF conjunct1 [OF i]] by auto
    define w' where "w' = w\<lparr>vfs_files := (vfs_files w)(p \<mapsto> h\<lparr>h_codec := codec\<rparr>), vfs_codecs := vfs_codecs w \<union> set_option codec - set_option (h_codec h)\<rparr>"
    have old: "c \<in> vfs_codecs w" if "h_codec h = Some c" for c using i h that by (auto simp: owns_def)
    have run: "sqlite3mcSetCodec isMc zFileName codec ?w = Some w'"
      unfolding sqlite3mcSetCodec_def found using Some old
      by (cases "h_codec h") (simp_all add: h update_file_def sqlite3mcCodecFree_def w'_def)
    have 1: "chain (vfs_files w') (vfs_pMain w') ps" using i h by (simp add: w'_def chain_same_next [of "vfs_files w" p h])
    have 2: "is_main w' q \<longleftrightarrow> is_main w q" for q using h by (auto simp: w'_def is_main_def)
    have owns: "owns w' q c \<longleftrightarrow> (if q = p then codec = Some c else owns w q c)" for q c by (auto simp: w'_def owns_def)
    have 3: "c \<in> vfs_codecs w' \<longleftrightarrow> (\<exists>q. owns w' q c)" for c
    proof -
      have mine: "owns w p c \<longleftrightarrow> h_codec h = Some c" for c using h by (auto simp: owns_def)
      have "(\<exists>q. owns w' q c) \<longleftrightarrow> codec = Some c \<or> (\<exists>q. q \<noteq> p \<and> owns w q c)" by (auto simp: owns)
      also have "\<dots> \<longleftrightarrow> codec = Some c \<or> c \<in> vfs_codecs w \<and> h_codec h \<noteq> Some c" using i mine by metis
      also have "\<dots> \<longleftrightarrow> c \<in> vfs_codecs w'" using new old by (auto simp: w'_def)
      finally show ?thesis by simp
    qed
    have 4: "x = y" if "owns w' x c" "owns w' y c" for x y c
    proof -
      have "\<not> owns w q c" if "codec = Some c" for q using new that i by blast
      then show ?thesis using that i unfolding owns by (auto split: if_splits)
    qed
    have 5: "vfs_files w' q = vfs_files w q" if "q \<notin> set ps" for q using that p by (auto simp: w'_def)
    have 6: "\<forall>q h. vfs_files w' q = Some h \<longrightarrow> q \<notin> set ps \<longrightarrow> h_pMainNext h = None \<and> h_codec h = None"
      using i 5 by metis
    have 7: "\<forall>q. q \<in> set ps \<longleftrightarrow> is_main w' q" using i 2 by simp
    have "files_inv w' ps" unfolding files_inv_def using 1 3 4 6 7 by blast
    with run show ?thesis by blast
  qed
qed

section \<open>Properties\<close>

lemma reachable_inv: "vfs_reachable w \<Longrightarrow> \<exists>ps. files_inv w ps"
proof (induction rule: vfs_reachable.induct)
  case reach_start
  show ?case using files_inv_start by blast
next
  case (reach_step w w')
  then obtain ps where inv: "files_inv w ps" by blast
  show ?case using reach_step.hyps(2)
  proof (cases rule: vfs_step.cases)
    case (open_file p zName dbName flags realOk)
    then show ?thesis using mcVfsOpen_inv [OF inv, of p zName dbName flags realOk] by auto
  next
    case (close_file p)
    then show ?thesis using mcIoClose_inv [OF inv, of p] by auto
  next
    case (set_codec c isMc zFileName)
    then show ?thesis using sqlite3mcSetCodec_inv [OF inv, of "Some c" isMc zFileName] by auto
  next
    case (remove_codec isMc zFileName)
    then show ?thesis using sqlite3mcSetCodec_inv [OF inv, of None isMc zFileName] by auto
  qed
qed

lemma files_progress:
  assumes inv: "files_inv w ps"
  shows "(vfs_files w p = None \<longrightarrow> (\<exists>w'. mcVfsOpen p zName dbName flags realOk w = Some w'))
    \<and> (vfs_files w p \<noteq> None \<longrightarrow> (\<exists>w'. mcIoClose p w = Some w' \<and> vfs_files w' p = None))
    \<and> (\<exists>r. sqlite3mcGetCodec isMc zName w = Some r)
    \<and> (c \<notin> vfs_codecs w \<longrightarrow> (\<exists>w'. sqlite3mcSetCodec isMc zName (Some c) (w\<lparr>vfs_codecs := insert c (vfs_codecs w)\<rparr>) = Some w'))
    \<and> (\<exists>w'. sqlite3mcSetCodec isMc zName None w = Some w')"
proof (intro conjI impI)
  show "\<exists>w'. mcVfsOpen p zName dbName flags realOk w = Some w'" if "vfs_files w p = None" using mcVfsOpen_inv [OF inv that] by blast
  show "\<exists>w'. mcIoClose p w = Some w' \<and> vfs_files w' p = None" if "vfs_files w p \<noteq> None" using mcIoClose_inv [OF inv that] by blast
  show "\<exists>w'. sqlite3mcSetCodec isMc zName (Some c) (w\<lparr>vfs_codecs := insert c (vfs_codecs w)\<rparr>) = Some w'" if "c \<notin> vfs_codecs w"
    using sqlite3mcSetCodec_inv [OF inv, of "Some c" isMc zName] that by auto
  show "\<exists>w'. sqlite3mcSetCodec isMc zName None w = Some w'" using sqlite3mcSetCodec_inv [OF inv, of None isMc zName] by auto
  have "vfs_files w q \<noteq> None" if "List.find (\<lambda>p. map_option h_zFileName (vfs_files w p) = Some zName) ps = Some q" for q
    using that by (auto simp: find_Some_iff)
  then show "\<exists>r. sqlite3mcGetCodec isMc zName w = Some r"
    by (auto simp: sqlite3mcGetCodec_def find_main [OF inv] split: option.split simp del: map_option_eq_Some)
qed

text \<open>
  C36. Whatever files are opened and closed and whatever codecs are set, no operation of the shim gets stuck: the loops over the
  linked list end, no pointer to a closed file is followed, no codec is released twice and the assertion on closing holds.
\<close>

theorem vfs_operations_return:
  assumes "vfs_reachable w"
  shows "(vfs_files w p = None \<longrightarrow> (\<exists>w'. mcVfsOpen p zName dbName flags realOk w = Some w'))
    \<and> (vfs_files w p \<noteq> None \<longrightarrow> (\<exists>w'. mcIoClose p w = Some w' \<and> vfs_files w' p = None))
    \<and> (\<exists>r. sqlite3mcGetCodec isMc zName w = Some r)
    \<and> (c \<notin> vfs_codecs w \<longrightarrow> (\<exists>w'. sqlite3mcSetCodec isMc zName (Some c) (w\<lparr>vfs_codecs := insert c (vfs_codecs w)\<rparr>) = Some w'))
    \<and> (\<exists>w'. sqlite3mcSetCodec isMc zName None w = Some w')"
  using reachable_inv [OF assms] files_progress by blast

text \<open>An example: two files, one of them with a codec.\<close>

definition two_files :: mc_vfs where
  "two_files = the (do { w \<leftarrow> mcVfsOpen 3 (Some 10) None 0x100 True no_files; w \<leftarrow> mcVfsOpen 2 (Some 20) None 0x100 True w;
     sqlite3mcSetCodec True (Some 10) (Some 7) (w\<lparr>vfs_codecs := insert 7 (vfs_codecs w)\<rparr>) })"

lemma two_files: "vfs_reachable two_files" "vfs_files two_files 3 \<noteq> None" "vfs_pMain two_files = Some 2"
proof -
  define w1 where "w1 = the (mcVfsOpen 3 (Some 10) None 0x100 True no_files)"
  have 1: "mcVfsOpen 3 (Some 10) None 0x100 True no_files = Some w1"
    by (simp add: w1_def mcVfsOpen_def mcMainListAdd_def update_file_def SQLITE_OPEN_MAIN_DB_def)
  have f1: "vfs_files w1 2 = None" "vfs_codecs w1 = {}" "vfs_files w1 3 = Some \<lparr>h_zFileName = Some 10, h_openFlags = 256, h_pMainNext = None, h_pMainDb = None, h_codec = None, h_pageNo = 0\<rparr>"
    "vfs_pMain w1 = Some 3"
    by (simp_all add: w1_def mcVfsOpen_def mcMainListAdd_def update_file_def SQLITE_OPEN_MAIN_DB_def no_files_def)
  define w2 where "w2 = the (mcVfsOpen 2 (Some 20) None 0x100 True w1)"
  have 2: "mcVfsOpen 2 (Some 20) None 0x100 True w1 = Some w2"
    by (simp add: w2_def mcVfsOpen_def mcMainListAdd_def update_file_def SQLITE_OPEN_MAIN_DB_def)
  have f2: "vfs_codecs w2 = {}" "vfs_files w2 3 = vfs_files w1 3" "vfs_pMain w2 = Some 2"
    "vfs_files w2 2 = Some \<lparr>h_zFileName = Some 20, h_openFlags = 256, h_pMainNext = Some 3, h_pMainDb = None, h_codec = None, h_pageNo = 0\<rparr>"
    by (simp_all add: w2_def mcVfsOpen_def mcMainListAdd_def update_file_def SQLITE_OPEN_MAIN_DB_def f1)
  have find: "mcFindDbMainFileName (Some 10) (w2\<lparr>vfs_codecs := {7}\<rparr>) = Some (Some 3)"
    by (simp add: mcFindDbMainFileName_def search_files.simps [of _ _ "Some _"] f2 f1)
  have 3: "sqlite3mcSetCodec True (Some 10) (Some 7) (w2\<lparr>vfs_codecs := insert 7 (vfs_codecs w2)\<rparr>) = Some two_files"
    "vfs_files two_files 3 \<noteq> None" "vfs_pMain two_files = Some 2"
    using 1 2 by (simp_all add: two_files_def sqlite3mcSetCodec_def find f1 f2 update_file_def sqlite3mcCodecFree_def)
  have r1: "vfs_reachable w1" by (rule reach_step [OF reach_start open_file [OF _ 1]]) (simp add: no_files_def)
  have r2: "vfs_reachable w2" by (rule reach_step [OF r1 open_file [OF f1(1) 2]])
  show "vfs_reachable two_files" by (rule reach_step [OF r2 set_codec [OF _ 3(1)]]) (simp add: f2)
  show "vfs_files two_files 3 \<noteq> None" "vfs_pMain two_files = Some 2" using 3 by simp_all
qed

theorem vfs_operations_return_witness: "\<exists>w'. mcIoClose 3 two_files = Some w' \<and> vfs_files w' 3 = None"
  using vfs_operations_return [OF two_files(1), of 3] two_files(2) by blast

text \<open>
  C37. In every reachable state the linked list consists of the open main database files, each once and the one opened last first; a name is
  looked up in this order; and the allocated codecs are those of the open files, each with one owner, so that none is lost.
\<close>

theorem vfs_list_and_codecs:
  assumes "vfs_reachable w"
  shows "\<exists>ps. chain (vfs_files w) (vfs_pMain w) ps \<and> distinct ps \<and> (\<forall>p. p \<in> set ps \<longleftrightarrow> is_main w p)
    \<and> (\<forall>zName. mcFindDbMainFileName zName w = Some (List.find (\<lambda>p. map_option h_zFileName (vfs_files w p) = Some zName) ps))
    \<and> (\<forall>p zName dbName flags w'. vfs_files w p = None \<and> flags AND SQLITE_OPEN_MAIN_DB \<noteq> 0 \<and> mcVfsOpen p zName dbName flags True w = Some w' \<longrightarrow>
          chain (vfs_files w') (vfs_pMain w') (p # ps))
    \<and> (\<forall>p w'. mcIoClose p w = Some w' \<longrightarrow> chain (vfs_files w') (vfs_pMain w') (removeAll p ps))
    \<and> (\<forall>c. c \<in> vfs_codecs w \<longleftrightarrow> (\<exists>!p. owns w p c))"
proof -
  obtain ps where inv: "files_inv w ps" using reachable_inv [OF assms] by blast
  note i = inv [unfolded files_inv_def]
  have opened: "chain (vfs_files w') (vfs_pMain w') (p # ps)"
    if "vfs_files w p = None" "flags AND SQLITE_OPEN_MAIN_DB \<noteq> 0" "mcVfsOpen p zName dbName flags True w = Some w'" for p zName dbName flags w'
    using mcVfsOpen_inv [OF inv that(1), of zName dbName flags True] that(2,3) by (auto simp: files_inv_def)
  have closed: "chain (vfs_files w') (vfs_pMain w') (removeAll p ps)" if "mcIoClose p w = Some w'" for p w'
  proof -
    have "vfs_files w p \<noteq> None" using that by (cases "vfs_files w p") (simp_all add: mcIoClose_def)
    from mcIoClose_inv [OF inv this] that show ?thesis by (auto simp: files_inv_def)
  qed
  show ?thesis
    using i chain_distinct [OF conjunct1 [OF i]] find_main [OF inv] opened closed by (intro exI [of _ ps]) blast
qed

theorem vfs_list_and_codecs_witness:
  "\<exists>ps. chain (vfs_files two_files) (vfs_pMain two_files) ps \<and> distinct ps \<and> 2 \<in> set ps"
proof -
  obtain ps where "chain (vfs_files two_files) (vfs_pMain two_files) ps" "distinct ps"
    using vfs_list_and_codecs [OF two_files(1)] by blast
  moreover from this have "2 \<in> set ps" using chain_head by (simp add: two_files(3))
  ultimately show ?thesis by blast
qed

end
