(* ===== verification/VLE.thy ===== *)
theory VLE
  imports Cipher_Ascon Cipher_ChaCha20 "HOL-Library.Monad_Syntax"
begin

text \<open>
  The extension for the encryption of single values, \<^verbatim>\<open>src/src/sqlite3mc_vle.c\<close>: the options of the key function and their parser, the
  format of an encrypted value, and the three SQL functions. What the extension uses of the SQLite core, the comparison of
  strings and the conversion of numbers, is translated from \<^verbatim>\<open>src/src/sqlite3patched.c\<close>. \<open>None\<close> is undefined behaviour.
\<close>

unbundle bit_operations_syntax

section \<open>What is used of the SQLite core\<close>

text \<open>The \<open>i\<close>th byte of a zero-terminated string, the byte values of a text constant.\<close>

definition at :: "bytes \<Rightarrow> nat \<Rightarrow> byte" where
  "at s i = (if i < length s then s ! i else 0)"

definition ascii :: "string \<Rightarrow> bytes" where
  "ascii s = map of_char s"

definition to_lower :: "byte \<Rightarrow> byte" where
  "to_lower c = (if 65 \<le> c \<and> c \<le> 90 then c + 32 else c)"

text \<open>\<^verbatim>\<open>sqlite3_strnicmp(a, b, n) == 0\<close> for zero-terminated strings.\<close>

fun strnicmp_eq :: "bytes \<Rightarrow> bytes \<Rightarrow> nat \<Rightarrow> bool" where
  "strnicmp_eq a b 0 = True"
| "strnicmp_eq a b (Suc n) =
     (if at a 0 \<noteq> 0 \<and> to_lower (at a 0) = to_lower (at b 0) then strnicmp_eq (tl a) (tl b) n
      else to_lower (at a 0) = to_lower (at b 0))"

definition is_space :: "byte \<Rightarrow> bool" where
  "is_space c \<longleftrightarrow> c \<in> {9, 10, 11, 12, 13, 32}"

definition is_digit :: "byte \<Rightarrow> bool" where
  "is_digit c \<longleftrightarrow> 48 \<le> c \<and> c \<le> 57"

definition is_xdigit :: "byte \<Rightarrow> bool" where
  "is_xdigit c \<longleftrightarrow> is_digit c \<or> 65 \<le> c \<and> c \<le> 70 \<or> 97 \<le> c \<and> c \<le> 102"

text \<open>\<^verbatim>\<open>sqlite3HexToInt\<close>: nine is added to the code of a letter, then the low four bits count.\<close>

definition hex_to_int :: "byte \<Rightarrow> u64" where
  "hex_to_int h = ucast ((h + 9 * (1 AND drop_bit 6 h)) AND 0xf)"

definition pow63_digits :: bytes where
  "pow63_digits = ascii ''922337203685477580''"

text \<open>The loop stops at the first difference, which is multiplied by ten.\<close>

fun compare_digits :: "bytes \<Rightarrow> bytes \<Rightarrow> int" where
  "compare_digits zs [] = 0"
| "compare_digits zs (p # ps) = (let c = (sint (at zs 0) - sint p) * 10 in if c = 0 then compare_digits (tl zs) ps else c)"

definition compare2pow63 :: "bytes \<Rightarrow> int" where
  "compare2pow63 zNum =
     (let c = compare_digits zNum pow63_digits in if c = 0 then sint (at zNum 18) - 56 else c)"

text \<open>\<^verbatim>\<open>sqlite3Atoi64\<close> for UTF-8: the return code and the number, whose bits are those of \<^verbatim>\<open>*pNum\<close>.\<close>

definition LARGEST_INT64 :: u64 where "LARGEST_INT64 = 0x7fffffffffffffff"
definition SMALLEST_INT64 :: u64 where "SMALLEST_INT64 = 0x8000000000000000"

definition sqlite3Atoi64 :: "bytes \<Rightarrow> int \<times> u64" where
  "sqlite3Atoi64 z =
     (let z = dropWhile is_space z;
          neg = (z \<noteq> [] \<and> hd z = 45);
          z = (if z \<noteq> [] \<and> (hd z = 45 \<or> hd z = 43) then tl z else z);
          zNum = dropWhile (\<lambda>c. c = 48) z;
          digits = takeWhile is_digit zNum;
          i = length digits;
          u = foldl (\<lambda>u c. u * 10 + ucast (c - 48)) 0 digits;
          num = (if LARGEST_INT64 < u then if neg then SMALLEST_INT64 else LARGEST_INT64 else if neg then - u else u);
          rc = (if i = 0 \<and> length zNum = length z then -1
                else if \<exists>c \<in> set (drop i zNum). \<not> is_space c then 1 else 0)
      in if i < 19 then (rc, num)
         else
           let j = (if 19 < i then 1 else compare2pow63 zNum)
           in if j < 0 then (rc, num)
              else (if 0 < j then 2 else if neg then rc else 3, if neg then SMALLEST_INT64 else LARGEST_INT64))"

definition sqlite3DecOrHexToI64 :: "bytes \<Rightarrow> int \<times> u64" where
  "sqlite3DecOrHexToI64 z =
     (if at z 0 = 48 \<and> (at z 1 = 120 \<or> at z 1 = 88) then
        let rest = dropWhile (\<lambda>c. c = 48) (drop 2 z);
            hex = takeWhile is_xdigit rest;
            u = foldl (\<lambda>u c. u * 16 + hex_to_int c) 0 hex
        in (if 16 < length hex then 2 else if length hex < length rest then 1 else 0, u)
      else
        let n = length (takeWhile (\<lambda>c. c \<in> set (ascii ''+- 0123456789'') \<union> {9, 10}) z);
            n = (if n < length z then n + 1 else n)
        in sqlite3Atoi64 (take n z))"

section \<open>Values and results\<close>

text \<open>A value is an integer of 64 bits, a number of 64 bits in the IEEE format, a text in UTF-8, a blob or NULL.\<close>

datatype sql_value = Integer u64 | Float u64 | Text bytes | Blob bytes | Null

definition value_type :: "sql_value \<Rightarrow> byte" where
  "value_type v = (case v of Integer _ \<Rightarrow> 1 | Float _ \<Rightarrow> 2 | Text _ \<Rightarrow> 3 | Blob _ \<Rightarrow> 4 | Null \<Rightarrow> 5)"

text \<open>The bytes of a text or a blob, which is what the two value functions are called for.\<close>

definition value_bytes :: "sql_value \<Rightarrow> bytes option" where
  "value_bytes v = (case v of Text b \<Rightarrow> Some b | Blob b \<Rightarrow> Some b | _ \<Rightarrow> None)"

text \<open>
  \<^verbatim>\<open>sqlite3_context\<close>: setting a result does not reset an error that was set before; when the function returns with an
  error, the statement fails and the text of the result is its message.
\<close>

record sql_context =
  c_isError :: int
  c_out :: sql_value

definition new_context :: sql_context where
  "new_context = \<lparr>c_isError = 0, c_out = Null\<rparr>"

definition result_error :: "string \<Rightarrow> sql_context \<Rightarrow> sql_context" where
  "result_error msg c = c\<lparr>c_isError := SQLITE_ERROR, c_out := Text (ascii msg)\<rparr>"

definition result_error_nomem :: "sql_context \<Rightarrow> sql_context" where
  "result_error_nomem c = c\<lparr>c_isError := SQLITE_NOMEM, c_out := Null\<rparr>"

definition result_value :: "sql_value \<Rightarrow> sql_context \<Rightarrow> sql_context" where
  "result_value v c = c\<lparr>c_out := v\<rparr>"

text \<open>A number that is not a number becomes NULL.\<close>

definition is_nan :: "u64 \<Rightarrow> bool" where
  "is_nan bits \<longleftrightarrow> bits AND 0x7ff0000000000000 = 0x7ff0000000000000 \<and> bits AND 0xfffffffffffff \<noteq> 0"

definition result_double :: "u64 \<Rightarrow> sql_context \<Rightarrow> sql_context" where
  "result_double bits = result_value (if is_nan bits then Null else Float bits)"

section \<open>The state of a connection\<close>

record VleContext =
  v_key :: bytes
  v_salt :: bytes
  v_keyLen :: nat
  v_algorithm :: byte
  v_flags :: byte
  v_nonceLen :: nat
  v_tagLen :: nat

text \<open>
  What the functions find and change: the context that is registered with the connection, the generator of random numbers, which
  allocations succeed, and what memory that was not written contains.
\<close>

record vle_db =
  v_context :: "VleContext option"
  v_rng :: rng
  v_alloc :: "nat \<Rightarrow> bool"
  v_allocs :: nat
  v_garbage :: "nat \<Rightarrow> byte"

definition vle_malloc :: "nat \<Rightarrow> vle_db \<Rightarrow> bool \<times> vle_db" where
  "vle_malloc n db = (if n = 0 then (False, db) else (v_alloc db (v_allocs db), db\<lparr>v_allocs := v_allocs db + 1\<rparr>))"

definition VLE_MAGIC_NUM :: u32 where "VLE_MAGIC_NUM = 0x1CAFEBA9"
definition VLE_MAGIC :: byte where "VLE_MAGIC = 0xEC"
definition VLE_VERSION :: byte where "VLE_VERSION = 1"
definition VLE_CHACHA20 :: byte where "VLE_CHACHA20 = 3"
definition VLE_ASCON128 :: byte where "VLE_ASCON128 = 6"
definition VLE_KDF_ITER :: int where "VLE_KDF_ITER = 64007"

definition new_vle :: VleContext where
  "new_vle = \<lparr>v_key = replicate 32 0, v_salt = replicate 16 0, v_keyLen = 0, v_algorithm = VLE_CHACHA20, v_flags = 0,
     v_nonceLen = 16, v_tagLen = 16\<rparr>"

text \<open>
  The context is made when it is asked for the first time. A failed allocation is not checked; when the context cannot be
  registered it has been released.
\<close>

definition vle_getContext :: "vle_db \<Rightarrow> (VleContext \<times> vle_db) option" where
  "vle_getContext db =
     (case v_context db of
        Some vle \<Rightarrow> Some (vle, db)
      | None \<Rightarrow>
          let (ok, db) = vle_malloc 64 db; (registered, db) = vle_malloc 1 db
          in if ok \<and> registered then Some (new_vle, db\<lparr>v_context := Some new_vle\<rparr>) else None)"

section \<open>Options of the key function\<close>

text \<open>A table of options: the name and the integer that \<^verbatim>\<open>target\<close> points to; every option has the setter for integers.\<close>

type_synonym option_table = "(bytes \<times> int) list"

fun vle_findOption :: "option_table \<Rightarrow> bytes \<Rightarrow> nat option" where
  "vle_findOption [] name = None"
| "vle_findOption (opt # table) name =
     (if strnicmp_eq (fst opt) name (length name) then Some 0 else map_option Suc (vle_findOption table name))"

definition vle_optionSetInt :: "bytes \<Rightarrow> int \<Rightarrow> int \<times> int" where
  "vle_optionSetInt val target =
     (if 64 \<le> length val then (SQLITE_ERROR, target)
      else
        let (rc, v) = sqlite3DecOrHexToI64 (takeWhile (\<lambda>c. c \<noteq> 0) val)
        in if rc \<noteq> 0 then (SQLITE_ERROR, target) else (SQLITE_OK, sint (ucast v :: u32)))"

definition vle_set_option :: "bytes \<Rightarrow> bytes \<Rightarrow> option_table \<Rightarrow> int \<times> option_table" where
  "vle_set_option name val table =
     (case vle_findOption table name of
        None \<Rightarrow> (SQLITE_OK, table)
      | Some i \<Rightarrow> let (rc, v) = vle_optionSetInt val (snd (table ! i)) in (rc, table[i := (fst (table ! i), v)]))"

text \<open>The loop over \<^verbatim>\<open>name=value,name=value,...\<close>; \<open>tl\<close> of the rest skips a comma, if there is one.\<close>

partial_function (option) vle_parseOptions :: "bytes \<Rightarrow> option_table \<Rightarrow> (int \<times> option_table) option" where
  "vle_parseOptions p table =
     (if p = [] then Some (SQLITE_OK, table)
      else
        let name = takeWhile (\<lambda>c. c \<noteq> 61 \<and> c \<noteq> 44) p;
            q = drop (length name) p
        in if q = [] \<or> hd q \<noteq> 61 then Some (SQLITE_ERROR, table)
           else
             let val = takeWhile (\<lambda>c. c \<noteq> 44) (tl q);
                 rest = drop (length val) (tl q);
                 res = vle_set_option name val table
             in if fst res \<noteq> SQLITE_OK then Some res else vle_parseOptions (tl rest) (snd res))"

section \<open>Authenticated encryption\<close>

definition vle_readU32BE :: "bytes \<Rightarrow> u32" where
  "vle_readU32BE p = ucast (p ! 3) OR push_bit 8 (ucast (p ! 2)) OR push_bit 16 (ucast (p ! 1)) OR push_bit 24 (ucast (p ! 0))"

definition vle_writeU64BE :: "u64 \<Rightarrow> bytes" where
  "vle_writeU64BE v = map (\<lambda>k. ucast (drop_bit k v AND 0xFF)) [56, 48, 40, 32, 24, 16, 8, 0]"

definition vle_readU64BE :: "bytes \<Rightarrow> u64" where
  "vle_readU64BE p = ucast (p ! 7) OR push_bit 8 (ucast (p ! 6)) OR push_bit 16 (ucast (p ! 5)) OR push_bit 24 (ucast (p ! 4))
     OR push_bit 32 (ucast (p ! 3)) OR push_bit 40 (ucast (p ! 2)) OR push_bit 48 (ucast (p ! 1)) OR push_bit 56 (ucast (p ! 0))"

text \<open>
  The test for the default scope in \<^verbatim>\<open>vle_getScope\<close> compares the pointer \<^verbatim>\<open>scopeLen\<close> with 0, so it is never used:
  without a scope the scope is empty.
\<close>

definition vle_getScope :: "sql_value option \<Rightarrow> bytes" where
  "vle_getScope arg = (case Option.bind arg value_bytes of None \<Rightarrow> [] | Some b \<Rightarrow> b)"

text \<open>
  The pointers of the two functions point into one buffer: \<open>dataLen\<close> bytes of associated data that end with the nonce, the
  text, and the tag.
\<close>

definition vle_counter :: "bytes \<Rightarrow> nat \<Rightarrow> u32" where
  "vle_counter nonce nonceLen = vle_readU32BE (drop (nonceLen - 4) nonce) XOR VLE_MAGIC_NUM"

definition vle_aeadEncrypt :: "VleContext \<Rightarrow> bytes \<Rightarrow> nat \<Rightarrow> nat \<Rightarrow> bytes \<Rightarrow> rng \<Rightarrow> (bytes \<times> rng) option" where
  "vle_aeadEncrypt vle buffer dataLen ctextLen scope r = do {
     let nonceLen = v_nonceLen vle;
     (nonce, r) \<leftarrow> chacha20_rng nonceLen r;
     let buffer = memcpy_at buffer (dataLen - nonceLen) nonce;
     let text = region dataLen ctextLen buffer;
     if v_algorithm vle = VLE_ASCON128 then
       let otk = AsconGenOtk (v_key vle) nonce (uint VLE_MAGIC_NUM);
           (ctext, tag) = ascon_aead_encrypt text (take dataLen buffer) nonce otk
       in Some (memcpy_at (memcpy_at buffer dataLen ctext) (dataLen + ctextLen) tag, r)
     else
       let counter = vle_counter nonce nonceLen;
           otk = chacha20_xor (sha512 scope) (v_key vle) nonce counter;
           buffer = memcpy_at buffer dataLen (chacha20_xor text (drop 32 otk) nonce (counter + 1))
       in Some (memcpy_at buffer (dataLen + ctextLen) (poly1305 (take (dataLen + ctextLen) buffer) otk), r)
   }"

text \<open>
  The length of the text is an \<^verbatim>\<open>int\<close> that the called functions get as a \<^verbatim>\<open>size_t\<close>, where a negative number becomes a huge one. An access
  outside of the buffer is undefined (\<open>None\<close>).
\<close>

definition as_size :: "int \<Rightarrow> nat" where
  "as_size n = nat (if n < 0 then n + 2 ^ 64 else n)"

lemma as_size_int [simp]: "as_size (int n) = n"
  by (simp add: as_size_def)

definition access :: "bytes \<Rightarrow> int \<Rightarrow> nat \<Rightarrow> bytes option" where
  "access buffer off n = (if 0 \<le> off \<and> nat off + n \<le> length buffer then Some (region (nat off) n buffer) else None)"

lemma access_int: "off + n \<le> length buffer \<Longrightarrow> access buffer (int off) n = Some (region off n buffer)"
  by (simp add: access_def)

definition vle_aeadDecrypt :: "VleContext \<Rightarrow> bytes \<Rightarrow> nat \<Rightarrow> int \<Rightarrow> bytes \<Rightarrow> (int \<times> bytes) option" where
  "vle_aeadDecrypt vle buffer dataLen ctextLen scope =
     (let nonceLen = v_nonceLen vle
      in if v_algorithm vle = VLE_ASCON128 then do {
           nonce \<leftarrow> access buffer (int dataLen - int nonceLen) nonceLen;
           text \<leftarrow> access buffer (int dataLen) (as_size ctextLen);
           data \<leftarrow> access buffer 0 dataLen;
           tag \<leftarrow> access buffer (int dataLen + ctextLen) (v_tagLen vle);
           let otk = AsconGenOtk (v_key vle) nonce (uint VLE_MAGIC_NUM);
           let (mtext, tagOk) = ascon_aead_decrypt text data tag nonce otk;
           Some (if tagOk \<noteq> 0 then SQLITE_CORRUPT else SQLITE_OK, memcpy_at buffer dataLen mtext)
         }
         else if v_algorithm vle = VLE_CHACHA20 then do {
           nonce \<leftarrow> access buffer (int dataLen - int nonceLen) nonceLen;
           let counter = vle_counter nonce nonceLen;
           let otk = chacha20_xor (sha512 scope) (v_key vle) nonce counter;
           message \<leftarrow> access buffer 0 (as_size (int dataLen + ctextLen));
           let tagCalc = poly1305 message otk;
           text \<leftarrow> access buffer (int dataLen) (as_size ctextLen);
           let buffer = memcpy_at buffer dataLen (chacha20_xor text (drop 32 otk) nonce (counter + 1));
           tag \<leftarrow> access buffer (int dataLen + ctextLen) (v_tagLen vle);
           Some (if poly1305_tagcmp tag tagCalc \<noteq> 0 then SQLITE_CORRUPT else SQLITE_OK, buffer)
         }
         else Some (SQLITE_ERROR, buffer))"

section \<open>The SQL functions\<close>

text \<open>The bytes of a value; an allocation of no bytes gives a null pointer, which counts as a failure.\<close>

definition value_payload :: "sql_value \<Rightarrow> bytes" where
  "value_payload v = (case v of Integer i \<Rightarrow> vle_writeU64BE i | Float d \<Rightarrow> vle_writeU64BE d | Text b \<Rightarrow> b | Blob b \<Rightarrow> b | Null \<Rightarrow> [])"

definition vle_packValue :: "sql_value \<Rightarrow> vle_db \<Rightarrow> (int + bytes) \<times> vle_db" where
  "vle_packValue val db =
     (let payload = value_payload val; (ok, db) = vle_malloc (length payload) db
      in (if ok then Inr payload else Inl SQLITE_NOMEM, db))"

text \<open>\<^verbatim>\<open>vle_unpackValue\<close> on the buffer from the type byte on; a negative length of a text or a blob is undefined.\<close>

definition vle_unpackValue :: "sql_context \<Rightarrow> bytes \<Rightarrow> int \<Rightarrow> vle_db \<Rightarrow> (int \<times> sql_context \<times> vle_db) option" where
  "vle_unpackValue c buffer len db =
     (let type = hd buffer; payload = tl buffer;
          copied = (\<lambda>v. if len < 0 then None
                        else let (ok, db) = vle_malloc 1 db
                             in Some (SQLITE_OK, if ok then result_value (v (take (nat len) payload)) c else result_error_nomem c, db))
      in if type = 5 then Some (SQLITE_OK, result_value Null c, db)
         else if type = 1 then Some (SQLITE_OK, result_value (Integer (vle_readU64BE payload)) c, db)
         else if type = 2 then Some (SQLITE_OK, result_double (vle_readU64BE payload) c, db)
         else if type = 3 then copied Text
         else if type = 4 then copied Blob
         else Some (SQLITE_CORRUPT, c, db))"

text \<open>The arguments of the key function; \<open>None\<close> and \<open>Inl\<close> are errors.\<close>

definition vle_saltArg :: "sql_value list \<Rightarrow> bytes option" where
  "vle_saltArg argv =
     (let default_salt = ascii ''vle:default-salt'' in
      if length argv < 2 then Some default_salt
      else case argv ! 1 of
             Text b \<Rightarrow> Some (if b = [] then default_salt else b)
           | Blob b \<Rightarrow> Some (if b = [] then default_salt else b)
           | Null \<Rightarrow> Some default_salt
           | _ \<Rightarrow> None)"

definition vle_algorithmArg :: "sql_value list \<Rightarrow> string + byte" where
  "vle_algorithmArg argv =
     (if length argv < 3 then Inr VLE_CHACHA20
      else case argv ! 2 of
             Text b \<Rightarrow>
               if strnicmp_eq b (ascii ''chacha20'') (length b) then Inr VLE_CHACHA20
               else if strnicmp_eq b (ascii ''ascon128'') (length b) then Inr VLE_ASCON128
               else Inl ''Unsupported cipher type''
           | _ \<Rightarrow> Inl ''The algorithm parameter must have type TEXT'')"

definition vle_optionsArg :: "sql_value list \<Rightarrow> bytes option" where
  "vle_optionsArg argv = (if length argv < 4 then Some [] else case argv ! 3 of Text b \<Rightarrow> Some b | _ \<Rightarrow> None)"

fun decimal :: "nat \<Rightarrow> bytes" where
  "decimal n = (if n < 10 then [48 + of_nat n] else decimal (n div 10) @ [48 + of_nat (n mod 10)])"

declare decimal.simps [simp del]

text \<open>The two cases of the cipher: the options, whose errors are ignored, and the key.\<close>

definition vle_deriveKey :: "VleContext \<Rightarrow> bytes \<Rightarrow> bytes \<Rightarrow> (VleContext \<times> int) option" where
  "vle_deriveKey vle pswd options = do {
     (rc, table) \<leftarrow> vle_parseOptions options [(ascii ''kdf_iter'', VLE_KDF_ITER)];
     let kdfIter = snd (hd table);
     let kdfIter = (if kdfIter < 1 then VLE_KDF_ITER else kdfIter);
     key \<leftarrow> (if v_algorithm vle = VLE_CHACHA20 then fastpbkdf2_hmac_sha256 pswd (v_salt vle) (nat kdfIter) 32
             else Some (ascon_pbkdf2 32 pswd (v_salt vle) (nat kdfIter)));
     Some (vle\<lparr>v_key := key, v_keyLen := 32\<rparr>, kdfIter)
   }"

definition vle_setKey :: "sql_value list \<Rightarrow> vle_db \<Rightarrow> (sql_context \<times> vle_db) option" where
  "vle_setKey argv db = do {
     (vle, db) \<leftarrow> vle_getContext db;
     let fail = (\<lambda>msg vle db. Some (result_error msg new_context, db\<lparr>v_context := Some vle\<rparr>));
     if argv = [] then fail ''The key parameter is required'' vle db
     else case value_bytes (argv ! 0) of
       None \<Rightarrow> fail ''The passphrase parameter must have type TEXT or BLOB'' vle db
     | Some pswd \<Rightarrow>
       (case vle_saltArg argv of
          None \<Rightarrow> fail ''The salt parameter must have type TEXT or BLOB, but can be NULL'' vle db
        | Some salt \<Rightarrow>
          let vle = vle\<lparr>v_salt := take 16 (sha256 salt), v_algorithm := VLE_CHACHA20\<rparr> in
          (case vle_algorithmArg argv of
             Inl msg \<Rightarrow> fail msg vle db
           | Inr algorithm \<Rightarrow>
             let vle = vle\<lparr>v_algorithm := algorithm\<rparr> in
             (case vle_optionsArg argv of
                None \<Rightarrow> fail ''The options parameter must have type TEXT'' vle db
              | Some options \<Rightarrow>
                let (ok, db) = vle_malloc (length options) db in
                if options \<noteq> [] \<and> \<not> ok then Some (result_error_nomem new_context, db\<lparr>v_context := Some vle\<rparr>)
                else do {
                  (vle, kdfIter) \<leftarrow> vle_deriveKey vle pswd options;
                  let (ok, db) = vle_malloc 1 db;
                  let answer = ascii ''Ok. Options(kdf_iter='' @ decimal (nat kdfIter) @ ascii '')'';
                  Some (result_value (if ok then Text answer else Null) new_context, db\<lparr>v_context := Some vle\<rparr>)
                })))
   }"

text \<open>
  The bytes of \<^verbatim>\<open>buffer\<close> are those of fresh memory until they are written; the \<^verbatim>\<open>memcpy\<close> of the payload copies one byte too many,
  which is behind the allocation of the payload.
\<close>

definition vle_encryptPayload :: "VleContext \<Rightarrow> sql_value \<Rightarrow> bytes \<Rightarrow> bytes \<Rightarrow> vle_db \<Rightarrow> (sql_context \<times> vle_db) option" where
  "vle_encryptPayload vle val payload scope db =
     (let nonceLen = v_nonceLen vle; payloadLen = length payload;
          totalLen = 4 + nonceLen + 1 + payloadLen + v_tagLen vle;
          (ok, db) = vle_malloc totalLen db;
          buffer = map (v_garbage db) [0..<totalLen];
          buffer = memcpy_at buffer 0 [VLE_MAGIC, VLE_VERSION, v_algorithm vle, v_flags vle];
          buffer = memcpy_at buffer (4 + nonceLen) [value_type val];
          buffer = memcpy_at buffer (4 + nonceLen + 1) (payload @ [v_garbage db totalLen])
      in if \<not> ok then Some (result_error_nomem new_context, db)
         else map_option (\<lambda>(buffer, r). (result_value (Blob buffer) new_context, db\<lparr>v_rng := r\<rparr>))
           (vle_aeadEncrypt vle buffer (4 + nonceLen) (payloadLen + 1) scope (v_rng db)))"

definition vle_encrypt :: "sql_value list \<Rightarrow> vle_db \<Rightarrow> (sql_context \<times> vle_db) option" where
  "vle_encrypt argv db = do {
     (vle, db) \<leftarrow> vle_getContext db;
     if argv = [] then Some (result_error ''sqlite3mc_vle_encrypt requires a value'' new_context, db)
     else if v_keyLen vle = 0 then Some (result_error ''VLE key not set'' new_context, db)
     else
       let scope = vle_getScope (if 1 < length argv then Some (argv ! 1) else None)
       in case vle_packValue (argv ! 0) db of
            (Inl rc, db) \<Rightarrow> Some (result_error ''sqlite3mc_vle_encrypt: Failed to pack value'' new_context, db)
          | (Inr payload, db) \<Rightarrow> vle_encryptPayload vle (argv ! 0) payload scope db
   }"

text \<open>When the authentication fails the error is set, but the value is unpacked nevertheless.\<close>

definition vle_decryptBlob :: "VleContext \<Rightarrow> bytes \<Rightarrow> bytes \<Rightarrow> vle_db \<Rightarrow> (sql_context \<times> vle_db) option" where
  "vle_decryptBlob vle blob scope db =
     (let (ok, db) = vle_malloc (length blob) db;
          nonceLen = v_nonceLen vle;
          payloadLen = int (length blob) - 4 - int nonceLen - int (v_tagLen vle) - 1
      in if \<not> ok then Some (result_error_nomem new_context, db)
         else if blob ! 0 \<noteq> VLE_MAGIC then Some (result_error ''Invalid VLE header in encrypted value'' new_context, db)
         else do {
           (rc, buffer) \<leftarrow> vle_aeadDecrypt vle blob (4 + nonceLen) (payloadLen + 1) scope;
           let c = (if rc \<noteq> SQLITE_OK then result_error ''AEAD authentication failed'' new_context else new_context);
           map_option snd (vle_unpackValue c (drop (4 + nonceLen) buffer) payloadLen db)
         })"

definition vle_decrypt :: "sql_value list \<Rightarrow> vle_db \<Rightarrow> (sql_context \<times> vle_db) option" where
  "vle_decrypt argv db = do {
     (vle, db) \<leftarrow> vle_getContext db;
     case argv of
       Blob blob # args \<Rightarrow>
         if v_keyLen vle = 0 then Some (result_error ''VLE key not set'' new_context, db)
         else
           let scope = vle_getScope (if args \<noteq> [] then Some (hd args) else None)
           in if length blob < 4 then Some (result_error ''Encrypted content too short'' new_context, db)
              else vle_decryptBlob vle blob scope db
     | _ \<Rightarrow> Some (result_error ''sqlite3mc_vle_decrypt requires a BLOB'' new_context, db)
   }"


section \<open>The format of an encrypted value\<close>

lemma byte_of_low: "(ucast (x AND 0xFF) :: byte) = ucast (x :: u64)"
proof -
  have m: "(0xFF :: u64) = mask 8" by (simp add: mask_eq_exp_minus_1)
  show ?thesis unfolding m by (auto simp: bit_simps intro!: bit_word_eqI)
qed

lemma readU64_writeU64: "vle_readU64BE (vle_writeU64BE v @ rest) = v"
proof (rule bit_word_eqI)
  fix n assume "n < LENGTH(64)"
  then have "n < 64" by simp
  from less_64_parts [OF this]
  show "bit (vle_readU64BE (vle_writeU64BE v @ rest)) n = bit v n"
    by (elim disjE exE conjE) (simp_all add: vle_readU64BE_def vle_writeU64BE_def byte_of_low bit_simps)
qed

lemma length_writeU64 [bytes_len, simp]: "length (vle_writeU64BE v) = 8"
  by (simp add: vle_writeU64BE_def)

lemma length_ascon_aead [bytes_len]:
  "length (fst (ascon_aead_encrypt m ad nonce k)) = length m" "length (snd (ascon_aead_encrypt m ad nonce k)) = 16"
  using ascon_aead_roundtrip [of m ad nonce k "fst (ascon_aead_encrypt m ad nonce k)" "snd (ascon_aead_encrypt m ad nonce k)"] by simp_all

text \<open>What the two functions compute, without the buffer: the associated data are the header and the nonce.\<close>

definition vle_seal :: "VleContext \<Rightarrow> bytes \<Rightarrow> bytes \<Rightarrow> bytes \<Rightarrow> bytes \<Rightarrow> bytes \<times> bytes" where
  "vle_seal vle scope header nonce text =
     (if v_algorithm vle = VLE_ASCON128 then
        ascon_aead_encrypt text (header @ nonce) nonce (AsconGenOtk (v_key vle) nonce (uint VLE_MAGIC_NUM))
      else
        let counter = vle_counter nonce 16;
            otk = chacha20_xor (sha512 scope) (v_key vle) nonce counter;
            ctext = chacha20_xor text (drop 32 otk) nonce (counter + 1)
        in (ctext, poly1305 (header @ nonce @ ctext) otk))"

definition vle_open :: "VleContext \<Rightarrow> bytes \<Rightarrow> bytes \<Rightarrow> bytes \<Rightarrow> bytes \<Rightarrow> bytes \<Rightarrow> bool \<times> bytes" where
  "vle_open vle scope header nonce ctext tag =
     (if v_algorithm vle = VLE_ASCON128 then
        let (text, rc) = ascon_aead_decrypt ctext (header @ nonce) tag nonce (AsconGenOtk (v_key vle) nonce (uint VLE_MAGIC_NUM))
        in (rc = 0, text)
      else
        let counter = vle_counter nonce 16;
            otk = chacha20_xor (sha512 scope) (v_key vle) nonce counter
        in (tag = poly1305 (header @ nonce @ ctext) otk, chacha20_xor ctext (drop 32 otk) nonce (counter + 1)))"

lemma length_vle_seal [bytes_len]:
  "length (fst (vle_seal vle scope header nonce text)) = length text" "length (snd (vle_seal vle scope header nonce text)) = 16"
  by (simp_all add: vle_seal_def Let_def length_ascon_aead)

lemma length_vle_open [bytes_len]: "length (snd (vle_open vle scope header nonce ctext tag)) = length ctext"
  using length_aead_decrypt [of ctext "header @ nonce" tag nonce]
  by (simp add: vle_open_def Let_def split_beta)

lemma vle_open_seal:
  assumes "length tag = 16"
  shows "fst (vle_open vle scope header nonce ctext tag)
    \<longleftrightarrow> vle_seal vle scope header nonce (snd (vle_open vle scope header nonce ctext tag)) = (ctext, tag)"
proof (cases "v_algorithm vle = VLE_ASCON128")
  case True
  then show ?thesis using ascon_aead_accepts [OF prod.collapse [symmetric] assms]
    by (simp add: vle_open_def vle_seal_def Let_def split_beta)
next
  case False
  then show ?thesis by (auto simp: vle_open_def vle_seal_def Let_def)
qed

lemma vle_seal_open:
  "vle_seal vle scope header nonce text = (ctext, tag) \<Longrightarrow> vle_open vle scope header nonce ctext tag = (True, text)"
  by (cases "v_algorithm vle = VLE_ASCON128")
     (auto simp: vle_seal_def vle_open_def Let_def dest: ascon_aead_roundtrip)

lemma vle_open_tag: "snd (vle_open vle scope header nonce ctext tag) = snd (vle_open vle scope header nonce ctext tag')"
  using ascon_aead_fst [of ctext "header @ nonce" tag nonce _ tag']
  by (simp add: vle_open_def Let_def split_beta)

definition vle_wf :: "VleContext \<Rightarrow> bool" where
  "vle_wf vle \<longleftrightarrow> v_nonceLen vle = 16 \<and> v_tagLen vle = 16 \<and> v_algorithm vle \<in> {VLE_CHACHA20, VLE_ASCON128}"

lemma region_append_mid: "length a = n \<Longrightarrow> length b = m \<Longrightarrow> region n m (a @ b @ c) = b"
  by (simp add: region_def)

lemma memcpy_mid: "length a = n \<Longrightarrow> length b = length b' \<Longrightarrow> memcpy_at (a @ b @ c) n b' = a @ b' @ c"
  by (auto simp: memcpy_at_def)

lemma vle_aeadEncrypt_eq:
  assumes "vle_wf vle" "length header = 4" "length x = 16" "length y = 16" "rng_wf r"
  shows "vle_aeadEncrypt vle (header @ x @ text @ y) 20 (length text) scope r =
    map_option (\<lambda>(nonce, r). (header @ nonce @ fst (vle_seal vle scope header nonce text) @ snd (vle_seal vle scope header nonce text), r))
      (chacha20_rng 16 r)"
proof (cases "chacha20_rng 16 r")
  case None
  moreover have "v_nonceLen vle = 16" using assms(1) unfolding vle_wf_def by blast
  ultimately show ?thesis by (simp add: vle_aeadEncrypt_def)
next
  case (Some p)
  obtain nonce r' where p: "p = (nonce, r')" by fastforce
  have w: "v_nonceLen vle = 16" "v_tagLen vle = 16" using assms(1) unfolding vle_wf_def by blast+
  have n: "length nonce = 16" using chacha20_rng_length_wf [of 16 r nonce r'] Some assms(5) by (simp add: p)
  have b1: "memcpy_at (header @ x @ text @ y) 4 nonce = header @ nonce @ text @ y"
    by (rule memcpy_mid) (simp_all add: assms n)
  have b2: "region 20 (length text) (header @ nonce @ text @ y) = text"
    using region_append_mid [of "header @ nonce" 20 "text"] by (simp add: assms n)
  have b3: "memcpy_at (header @ nonce @ text @ y) 20 t = header @ nonce @ t @ y" if "length t = length text" for t
    using memcpy_mid [of "header @ nonce" 20 "text" t y] that by (simp add: assms n)
  have b4: "memcpy_at (header @ nonce @ t @ y) (20 + length text) z = header @ nonce @ t @ z"
    if "length t = length text" "length z = 16" for t z
    using memcpy_mid [of "header @ nonce @ t" "20 + length text" y z "[]"] that by (simp add: assms n)
  show ?thesis
  proof (cases "v_algorithm vle = VLE_ASCON128")
    case True
    then show ?thesis
      by (simp add: w vle_aeadEncrypt_def Some p b1 b2 b3 b4 vle_seal_def Let_def split_beta length_ascon_aead assms(2) n)
  next
    case False
    then show ?thesis
      by (simp add: w vle_aeadEncrypt_def Some p b1 b2 b3 b4 vle_seal_def Let_def assms(2) n)
  qed
qed

lemma vle_aeadDecrypt_eq:
  assumes "vle_wf vle" "length header = 4" "length nonce = 16" "length tag = 16"
  shows "vle_aeadDecrypt vle (header @ nonce @ ctext @ tag) 20 (int (length ctext)) scope =
    Some (if fst (vle_open vle scope header nonce ctext tag) then SQLITE_OK else SQLITE_CORRUPT,
     header @ nonce @ snd (vle_open vle scope header nonce ctext tag) @ tag)"
proof -
  let ?b = "header @ nonce @ ctext @ tag"
  have w: "v_nonceLen vle = 16" "v_tagLen vle = 16" using assms(1) unfolding vle_wf_def by blast+
  have b1: "access ?b (int 20 - int 16) 16 = Some nonce"
    using access_int [of 4 16 ?b] region_append_mid [of header 4 nonce 16 "ctext @ tag"] by (simp add: assms)
  have b2: "access ?b (int 20) (length ctext) = Some ctext"
    using access_int [of 20 "length ctext" ?b] region_append_mid [of "header @ nonce" 20 ctext] by (simp add: assms)
  have b3: "access ?b (int 20 + int (length ctext)) 16 = Some tag"
    using access_int [of "20 + length ctext" 16 ?b] region_append_mid [of "header @ nonce @ ctext" "20 + length ctext" tag 16 "[]"] by (simp add: assms)
  have b4: "memcpy_at ?b 20 t = header @ nonce @ t @ tag" if "length t = length ctext" for t
    using memcpy_mid [of "header @ nonce" 20 ctext t tag] that by (simp add: assms)
  have b5: "access ?b 0 k = Some (take k ?b)" if "k \<le> length ?b" for k
    using that by (simp add: access_def region_def)
  have b6: "access (header @ nonce @ t @ tag) (20 + int (length ctext)) 16 = Some tag" if "length t = length ctext" for t
    using access_int [of "20 + length ctext" 16 "header @ nonce @ t @ tag"]
      region_append_mid [of "header @ nonce @ t" "20 + length ctext" tag 16 "[]"] that by (simp add: assms)
  have size: "as_size (int 20 + int (length ctext)) = 20 + length ctext" using as_size_int [of "20 + length ctext"] by simp
  show ?thesis
  proof (cases "v_algorithm vle = VLE_ASCON128")
    case True
    then show ?thesis
      unfolding vle_aeadDecrypt_def w Let_def as_size_int b1 b2 b3
      by (simp add: b4 b5 vle_open_def Let_def split_beta assms(2,3))
  next
    case False
    then have "v_algorithm vle = VLE_CHACHA20" using assms(1) unfolding vle_wf_def by blast
    with False show ?thesis
      unfolding vle_aeadDecrypt_def w Let_def as_size_int b1 b2 size
      by (simp add: b4 b5 b6 vle_open_def Let_def assms(2,3,4) poly1305_tagcmp_eq_0)
  qed
qed

section \<open>The SQL functions on a context with a key\<close>

definition vle_header :: "VleContext \<Rightarrow> bytes" where
  "vle_header vle = [VLE_MAGIC, VLE_VERSION, v_algorithm vle, v_flags vle]"

definition scope_of :: "sql_value list \<Rightarrow> bytes" where
  "scope_of args = vle_getScope (if args \<noteq> [] then Some (hd args) else None)"

definition vle_ready :: "vle_db \<Rightarrow> VleContext \<Rightarrow> bool" where
  "vle_ready db vle \<longleftrightarrow> v_context db = Some vle \<and> vle_wf vle \<and> v_keyLen vle \<noteq> 0 \<and> rng_wf (v_rng db)"

lemma new_buffer:
  assumes "length g = 4 + 16 + 1 + n + 16" "length h = 4" "length p = n"
  shows "\<exists>x y. length x = 16 \<and> length y = 16 \<and>
    memcpy_at (memcpy_at (memcpy_at g 0 h) (4 + 16) [t]) (4 + 16 + 1) (p @ [b]) = h @ x @ (t # p) @ y"
proof -
  define g0 g1 g2 g3 g4 where "g0 = take 4 g" and "g1 = region 4 16 g" and "g2 = region 20 1 g" and "g3 = region 21 n g" and "g4 = drop (21 + n) g"
  have "drop 4 g = g1 @ drop 20 g" "drop 20 g = g2 @ drop 21 g" "drop 21 g = g3 @ g4"
    using append_take_drop_id [of 16 "drop 4 g"] append_take_drop_id [of 1 "drop 20 g"] append_take_drop_id [of n "drop 21 g"]
    by (simp_all add: g1_def g2_def g3_def g4_def region_def add.commute)
  then have g: "g = g0 @ g1 @ g2 @ g3 @ g4" using append_take_drop_id [of 4 g] by (simp add: g0_def)
  have l: "length g0 = 4" "length g1 = 16" "length g2 = 1" "length g3 = n" "length g4 = 16"
    using assms(1) by (simp_all add: g0_def g1_def g2_def g3_def g4_def)
  have 1: "memcpy_at g 0 h = h @ g1 @ g2 @ g3 @ g4" using memcpy_mid [of "[]" 0 g0 h] by (simp add: g l assms(2))
  have 2: "memcpy_at (h @ g1 @ g2 @ g3 @ g4) 20 [t] = h @ g1 @ [t] @ g3 @ g4"
    using memcpy_mid [of "h @ g1" 20 g2 "[t]" "g3 @ g4"] by (simp add: l assms(2))
  have 3: "memcpy_at (h @ g1 @ [t] @ g3 @ g4) 21 (p @ [b]) = h @ g1 @ [t] @ (p @ [b]) @ drop 1 g4"
    using memcpy_mid [of "h @ g1 @ [t]" 21 "g3 @ take 1 g4" "p @ [b]" "drop 1 g4"] by (simp add: l assms)
  show ?thesis
    by (rule exI [of _ g1], rule exI [of _ "b # drop 1 g4"]) (use 1 2 3 l in simp)
qed

lemma vle_encryptPayload_eq:
  assumes wf: "vle_wf vle" and rng: "rng_wf (v_rng db)" and run: "vle_encryptPayload vle v p scope db = Some (c, db')" and ok: "c_isError c = 0"
  shows "\<exists>nonce ctext tag. length nonce = 16 \<and> vle_seal vle scope (vle_header vle) nonce (value_type v # p) = (ctext, tag)
    \<and> c = \<lparr>c_isError = 0, c_out = Blob (vle_header vle @ nonce @ ctext @ tag)\<rparr>"
proof -
  have w: "v_nonceLen vle = 16" "v_tagLen vle = 16" using wf unfolding vle_wf_def by blast+
  obtain ok2 db2 where alloc: "vle_malloc (4 + 16 + 1 + length p + 16) db = (ok2, db2)" by fastforce
  have rng2: "v_rng db2 = v_rng db" using alloc by (auto simp: vle_malloc_def split: if_splits)
  define g where "g = map (v_garbage db2) [0 ..< 4 + 16 + 1 + length p + 16]"
  define last where "last = v_garbage db2 (4 + 16 + 1 + length p + 16)"
  have lh: "length (vle_header vle) = 4" by (simp add: vle_header_def)
  obtain x y where xy: "length x = 16" "length y = 16"
    "memcpy_at (memcpy_at (memcpy_at g 0 (vle_header vle)) (4 + 16) [value_type v]) (4 + 16 + 1) (p @ [last]) = vle_header vle @ x @ (value_type v # p) @ y"
  proof -
    have "length g = 4 + 16 + 1 + length p + 16" by (simp add: g_def)
    from new_buffer [where p = p and t = "value_type v" and b = last, OF this lh refl] show thesis using that by blast
  qed
  have "(if \<not> ok2 then Some (result_error_nomem new_context, db2)
         else map_option (\<lambda>(buffer, r). (result_value (Blob buffer) new_context, db2\<lparr>v_rng := r\<rparr>))
           (vle_aeadEncrypt vle (vle_header vle @ x @ (value_type v # p) @ y) (4 + 16) (length p + 1) scope (v_rng db2))) = Some (c, db')"
    using run unfolding vle_encryptPayload_def Let_def w alloc prod.case g_def [symmetric] last_def [symmetric] vle_header_def [symmetric] xy(3) .
  then have "map_option (\<lambda>(buffer, r). (result_value (Blob buffer) new_context, db2\<lparr>v_rng := r\<rparr>))
           (vle_aeadEncrypt vle (vle_header vle @ x @ (value_type v # p) @ y) 20 (length (value_type v # p)) scope (v_rng db2)) = Some (c, db')"
    using ok by (auto simp: result_error_nomem_def new_context_def split: if_splits)
  moreover have "rng_wf (v_rng db2)" using rng by (simp add: rng2)
  ultimately obtain nonce r' where e: "chacha20_rng 16 (v_rng db2) = Some (nonce, r')"
    "c = result_value (Blob (vle_header vle @ nonce @ fst (vle_seal vle scope (vle_header vle) nonce (value_type v # p))
            @ snd (vle_seal vle scope (vle_header vle) nonce (value_type v # p)))) new_context"
    unfolding vle_aeadEncrypt_eq [OF wf lh xy(1,2) \<open>rng_wf (v_rng db2)\<close>] by auto
  moreover have "length nonce = 16" using chacha20_rng_length_wf [OF e(1)] rng by (simp add: rng2)
  ultimately show ?thesis
    by (intro exI [of _ nonce] exI [of _ "fst (vle_seal vle scope (vle_header vle) nonce (value_type v # p))"]
        exI [of _ "snd (vle_seal vle scope (vle_header vle) nonce (value_type v # p))"]) (simp add: result_value_def new_context_def)
qed

lemma vle_getContext_ready:
  "vle_ready db vle \<Longrightarrow> vle_getContext db = Some (vle, db)" "vle_ready db vle \<Longrightarrow> v_keyLen vle \<noteq> 0"
  by (simp_all add: vle_ready_def vle_getContext_def)

lemma vle_scope_args: "vle_getScope (if 1 < length (v # args) then Some ((v # args) ! 1) else None) = scope_of args"
  by (cases args) (simp_all add: scope_of_def)

lemma vle_encrypt_eq:
  assumes ready: "vle_ready db vle" and run: "vle_encrypt (v # args) db = Some (c, db')" and ok: "c_isError c = 0"
  shows "\<exists>nonce ctext tag. length nonce = 16 \<and> value_payload v \<noteq> [] \<and>
    vle_seal vle (scope_of args) (vle_header vle) nonce (value_type v # value_payload v) = (ctext, tag)
    \<and> c = \<lparr>c_isError = 0, c_out = Blob (vle_header vle @ nonce @ ctext @ tag)\<rparr>"
proof -
  note get = vle_getContext_ready [OF ready]
  have step: "(case vle_packValue v db of
       (Inl rc, db) \<Rightarrow> Some (result_error ''sqlite3mc_vle_encrypt: Failed to pack value'' new_context, db)
     | (Inr payload, db) \<Rightarrow> vle_encryptPayload vle v payload (scope_of args) db) = Some (c, db')"
    using run unfolding vle_encrypt_def get(1) Let_def vle_scope_args nth_Cons_0 by (simp add: get(2))
  obtain db1 where pack: "vle_packValue v db = (Inr (value_payload v), db1)" "value_payload v \<noteq> []" "v_rng db1 = v_rng db"
    using step ok by (auto simp: vle_packValue_def vle_malloc_def Let_def result_error_def new_context_def split: if_splits)
  have "vle_wf vle" "rng_wf (v_rng db1)" using ready pack(3) by (simp_all add: vle_ready_def)
  moreover have "vle_encryptPayload vle v (value_payload v) (scope_of args) db1 = Some (c, db')" using step by (simp add: pack(1))
  ultimately show ?thesis using vle_encryptPayload_eq [OF _ _ _ ok] pack(2) by blast
qed

text \<open>A text of negative length is not inside any buffer.\<close>

lemma short_access:
  assumes "vle_ready db vle" and "length blob < 36"
  shows "vle_aeadDecrypt vle blob (4 + 16) (int (length blob) - 4 - int 16 - int 16 - 1 + 1) scope = None"
proof -
  define n where "n = int (length blob) - 4 - int 16 - int 16 - 1 + 1"
  have "n < 0" and "- 36 \<le> n" using assms(2) by (simp_all add: n_def)
  then have "length blob < as_size n" using assms(2) by (simp add: as_size_def)
  then have "access blob (int (4 + 16)) (as_size n) = None" by (simp add: access_def)
  moreover have "v_algorithm vle = VLE_ASCON128 \<or> v_algorithm vle = VLE_CHACHA20"
    using assms(1) unfolding vle_ready_def vle_wf_def by blast
  ultimately show ?thesis
    unfolding n_def [symmetric] vle_aeadDecrypt_def Let_def by (auto simp: bind_eq_None_conv VLE_ASCON128_def VLE_CHACHA20_def)
qed

text \<open>The parts of a blob that has room for all of them.\<close>

lemma blob_parts:
  assumes "36 \<le> length (blob :: bytes)" and "blob ! 0 = VLE_MAGIC"
  obtains header nonce ctext tag where "blob = header @ nonce @ ctext @ tag" "length header = 4" "hd header = VLE_MAGIC" "length nonce = 16"
    "length tag = 16" "length ctext = length blob - 36"
proof -
  have "drop 4 blob = region 4 16 blob @ drop 20 blob" "drop 20 blob = region 20 (length blob - 36) blob @ drop (length blob - 16) blob"
    using append_take_drop_id [of 16 "drop 4 blob"] append_take_drop_id [of "length blob - 36" "drop 20 blob"] assms(1)
    by (simp_all add: region_def add.commute)
  then have blob: "blob = take 4 blob @ region 4 16 blob @ region 20 (length blob - 36) blob @ drop (length blob - 16) blob"
    using append_take_drop_id [of 4 blob] by simp
  have hd: "hd (take 4 blob) = VLE_MAGIC" using assms by (cases blob) simp_all
  show thesis
    by (rule that [of "take 4 blob" "region 4 16 blob" "region 20 (length blob - 36) blob" "drop (length blob - 16) blob"], rule blob,
        use hd assms(1) in \<open>simp_all\<close>)
qed

text \<open>Decryption: whatever the tag is, the bytes are decrypted and unpacked.\<close>

lemma vle_decrypt_eq:
  assumes ready: "vle_ready db vle" and l: "length header = 4" "hd header = VLE_MAGIC" "length nonce = 16" "length tag = 16"
    and alloc: "v_alloc db (v_allocs db)"
  shows "vle_decrypt (Blob (header @ nonce @ ctext @ tag) # args) db =
    map_option snd (vle_unpackValue (if fst (vle_open vle (scope_of args) header nonce ctext tag) then new_context
         else result_error ''AEAD authentication failed'' new_context)
      (snd (vle_open vle (scope_of args) header nonce ctext tag) @ tag) (int (length ctext) - 1) (db\<lparr>v_allocs := v_allocs db + 1\<rparr>))"
proof -
  note get = vle_getContext_ready [OF ready]
  have wf: "vle_wf vle" using ready by (simp add: vle_ready_def)
  have w: "v_nonceLen vle = 16" "v_tagLen vle = 16" using wf unfolding vle_wf_def by blast+
  define blob where "blob = header @ nonce @ ctext @ tag"
  have lb: "length blob = 36 + length ctext" by (simp add: blob_def l)
  have b0: "blob ! 0 = VLE_MAGIC" using l(1,2) by (cases header) (simp_all add: blob_def)
  have m: "vle_malloc (length blob) db = (True, db\<lparr>v_allocs := v_allocs db + 1\<rparr>)" using alloc by (simp add: vle_malloc_def lb)
  have n: "int (length blob) - 4 - int 16 - int 16 - 1 + 1 = int (length ctext)" "int (length blob) - 4 - int 16 - int 16 - 1 = int (length ctext) - 1"
    "4 + 16 = (20 :: nat)" by (simp_all add: lb)
  have dec: "vle_aeadDecrypt vle blob 20 (int (length ctext)) (scope_of args) =
      Some (if fst (vle_open vle (scope_of args) header nonce ctext tag) then SQLITE_OK else SQLITE_CORRUPT,
       header @ nonce @ snd (vle_open vle (scope_of args) header nonce ctext tag) @ tag)"
    unfolding blob_def by (rule vle_aeadDecrypt_eq [OF wf l(1,3,4)])
  have "vle_decrypt (Blob blob # args) db = vle_decryptBlob vle blob (scope_of args) db"
    unfolding vle_decrypt_def get(1) scope_of_def by (simp add: get(2) lb)
  also have "\<dots> = map_option snd (vle_unpackValue (if fst (vle_open vle (scope_of args) header nonce ctext tag) then new_context
         else result_error ''AEAD authentication failed'' new_context)
      (drop 20 (header @ nonce @ snd (vle_open vle (scope_of args) header nonce ctext tag) @ tag)) (int (length ctext) - 1) (db\<lparr>v_allocs := v_allocs db + 1\<rparr>))"
    unfolding vle_decryptBlob_def Let_def m prod.case w n b0 by (simp add: dec l)
  finally show ?thesis by (simp add: blob_def l)
qed

lemma vle_unpack_pack:
  assumes "v_alloc db (v_allocs db)" and "\<And>bits. v = Float bits \<Longrightarrow> \<not> is_nan bits"
  shows "\<exists>db'. vle_unpackValue c ((value_type v # value_payload v) @ tag) (int (length (value_type v # value_payload v)) - 1) db
    = Some (SQLITE_OK, result_value v c, db')"
  using assms
  by (cases v) (simp_all add: vle_unpackValue_def value_type_def value_payload_def readU64_writeU64 result_double_def vle_malloc_def)

section \<open>The option parser\<close>

text \<open>The reference: the text is cut at the commas, and the pieces are set one by one until the first error.\<close>

function pieces :: "bytes \<Rightarrow> bytes list" where
  "pieces p = (if p = [] then [] else takeWhile (\<lambda>c. c \<noteq> 44) p # pieces (tl (dropWhile (\<lambda>c. c \<noteq> 44) p)))"
  by pat_completeness auto
termination
proof (relation "measure length")
  fix p :: bytes assume "p \<noteq> []"
  then have "length (tl (dropWhile (\<lambda>c. c \<noteq> 44) p)) < length p" using length_dropWhile_le [of "\<lambda>c. c \<noteq> 44" p] by (cases p) auto
  then show "(tl (dropWhile (\<lambda>c. c \<noteq> 44) p), p) \<in> measure length" by simp
qed simp

declare pieces.simps [simp del]

fun set_pieces :: "bytes list \<Rightarrow> option_table \<Rightarrow> int \<times> option_table" where
  "set_pieces [] table = (SQLITE_OK, table)"
| "set_pieces (e # es) table =
     (if 61 \<notin> set e then (SQLITE_ERROR, table)
      else let res = vle_set_option (takeWhile (\<lambda>c. c \<noteq> 61) e) (tl (dropWhile (\<lambda>c. c \<noteq> 61) e)) table
           in if fst res \<noteq> SQLITE_OK then res else set_pieces es (snd res))"

lemma scan_name: "takeWhile (\<lambda>c. c \<noteq> 61 \<and> c \<noteq> 44) p = takeWhile (\<lambda>c. c \<noteq> 61) (takeWhile (\<lambda>c. c \<noteq> (44 :: byte)) p)"
  by (induction p) auto

lemma scan_value:
  "61 \<in> set (takeWhile (\<lambda>c. c \<noteq> 44) p) \<Longrightarrow>
    \<exists>w. dropWhile (\<lambda>c. c \<noteq> 61 \<and> c \<noteq> 44) p = 61 # w \<and> takeWhile (\<lambda>c. c \<noteq> 44) w = tl (dropWhile (\<lambda>c. c \<noteq> 61) (takeWhile (\<lambda>c. c \<noteq> (44 :: byte)) p))
        \<and> dropWhile (\<lambda>c. c \<noteq> 44) w = dropWhile (\<lambda>c. c \<noteq> 44) p"
  by (induction p) (auto split: if_splits)

lemma scan_missing:
  "61 \<notin> set (takeWhile (\<lambda>c. c \<noteq> 44) p) \<Longrightarrow>
    dropWhile (\<lambda>c. c \<noteq> 61 \<and> c \<noteq> 44) p = [] \<or> hd (dropWhile (\<lambda>c. c \<noteq> 61 \<and> c \<noteq> (44 :: byte)) p) \<noteq> 61"
  by (induction p) (auto split: if_splits)

lemma vle_parseOptions_eq: "vle_parseOptions p table = Some (set_pieces (pieces p) table)"
proof (induction p arbitrary: table rule: pieces.induct)
  case (1 p)
  show ?case
  proof (cases "p = []")
    case True
    then show ?thesis by (simp add: vle_parseOptions.simps [of "[]"] pieces.simps [of "[]"])
  next
    case False
    let ?e = "takeWhile (\<lambda>c. c \<noteq> 44) p" and ?rest = "tl (dropWhile (\<lambda>c. c \<noteq> 44) p)"
    have q: "drop (length (takeWhile (\<lambda>c. c \<noteq> 61 \<and> c \<noteq> 44) p)) p = dropWhile (\<lambda>c. c \<noteq> 61 \<and> c \<noteq> 44) p"
      by (simp add: dropWhile_eq_drop)
    show ?thesis
    proof (cases "61 \<in> set ?e")
      case True
      obtain w where w: "dropWhile (\<lambda>c. c \<noteq> 61 \<and> c \<noteq> 44) p = 61 # w"
        "takeWhile (\<lambda>c. c \<noteq> 44) w = tl (dropWhile (\<lambda>c. c \<noteq> 61) ?e)" "dropWhile (\<lambda>c. c \<noteq> 44) w = dropWhile (\<lambda>c. c \<noteq> 44) p"
        using scan_value [OF True] by blast
      have rest: "drop (length (tl (dropWhile (\<lambda>c. c \<noteq> 61) ?e))) w = dropWhile (\<lambda>c. c \<noteq> 44) p"
        using w(2,3) dropWhile_eq_drop [of "\<lambda>c. c \<noteq> 44" w] by simp
      show ?thesis using False True 1 [OF False]
        unfolding vle_parseOptions.simps [of p] pieces.simps [of p] Let_def q w(1)
        by (simp add: w(2) rest scan_name Let_def del: length_tl)
    next
      case no: False
      show ?thesis using False no scan_missing [OF no]
        unfolding vle_parseOptions.simps [of p] pieces.simps [of p] Let_def q by simp
    qed
  qed
qed

section \<open>Properties\<close>

lemma vle_decrypt_encrypted:
  assumes "vle_ready db vle" and "vle_encrypt (v # args) db = Some (c, db1)" and "c_isError c = 0"
    and "\<And>bits. v = Float bits \<Longrightarrow> \<not> is_nan bits"
    and "vle_ready db2 vle" and "v_alloc db2 = (\<lambda>_. True)"
  shows "\<exists>blob db3. c_out c = Blob blob \<and> vle_decrypt (Blob blob # args) db2 = Some (\<lparr>c_isError = 0, c_out = v\<rparr>, db3)"
proof -
  obtain nonce ctext tag where e: "length nonce = 16" "vle_seal vle (scope_of args) (vle_header vle) nonce (value_type v # value_payload v) = (ctext, tag)"
    "c = \<lparr>c_isError = 0, c_out = Blob (vle_header vle @ nonce @ ctext @ tag)\<rparr>"
    using vle_encrypt_eq [OF assms(1-3)] by blast
  have l: "length tag = 16" "length ctext = length (value_type v # value_payload v)"
    using length_vle_seal [of vle "scope_of args" "vle_header vle" nonce "value_type v # value_payload v"] e(2) by simp_all
  have h: "length (vle_header vle) = 4" "hd (vle_header vle) = VLE_MAGIC" by (simp_all add: vle_header_def)
  have a: "v_alloc db2 (v_allocs db2)" by (simp add: assms(6))
  obtain db3 where "vle_unpackValue new_context ((value_type v # value_payload v) @ tag) (int (length (value_type v # value_payload v)) - 1)
      (db2\<lparr>v_allocs := v_allocs db2 + 1\<rparr>) = Some (SQLITE_OK, result_value v new_context, db3)"
    using vle_unpack_pack [of "db2\<lparr>v_allocs := v_allocs db2 + 1\<rparr>" v new_context tag] assms(4,6) by auto
  then have "vle_decrypt (Blob (vle_header vle @ nonce @ ctext @ tag) # args) db2 = Some (\<lparr>c_isError = 0, c_out = v\<rparr>, db3)"
    unfolding vle_decrypt_eq [OF assms(5) h e(1) l(1) a] vle_seal_open [OF e(2)] l(2) by (simp add: result_value_def new_context_def)
  then show ?thesis using e(3) by auto
qed

text \<open>An example for the witnesses: a connection with a key, and a generator with bytes left.\<close>

definition example_db :: "byte \<Rightarrow> vle_db" where
  "example_db algorithm = \<lparr>v_context = Some (new_vle\<lparr>v_keyLen := 32, v_algorithm := algorithm\<rparr>), v_rng = full_rng,
     v_alloc = (\<lambda>_. True), v_allocs = 0, v_garbage = (\<lambda>_. 0)\<rparr>"

lemma example_ready:
  "algorithm \<in> {VLE_CHACHA20, VLE_ASCON128} \<Longrightarrow> vle_ready (example_db algorithm) (new_vle\<lparr>v_keyLen := 32, v_algorithm := algorithm\<rparr>)"
  "v_alloc (example_db algorithm) = (\<lambda>_. True)"
  by (simp_all add: vle_ready_def vle_wf_def example_db_def new_vle_def)

lemma example_encrypts: "\<exists>c db'. vle_encrypt [Integer 77] (example_db algorithm) = Some (c, db') \<and> c_isError c = 0"
  by (simp add: vle_encrypt_def vle_getContext_def example_db_def new_vle_def vle_packValue_def vle_malloc_def value_payload_def vle_encryptPayload_def
      vle_aeadEncrypt_def result_value_def new_context_def Let_def split_beta vle_writeU64BE_def)

text \<open>
  C29. An encrypted value decrypts to itself, without an error, with the same key, algorithm and scope, if it is not empty; a number must not be a NaN, which
  no SQL value is.
\<close>

theorem vle_roundtrip:
  assumes "vle_ready db vle" and "vle_encrypt (v # args) db = Some (c, db1)" and "c_isError c = 0"
    and "\<And>bits. v = Float bits \<Longrightarrow> \<not> is_nan bits"
    and "vle_ready db2 vle" and "v_alloc db2 = (\<lambda>_. True)"
  shows "\<exists>blob db3. c_out c = Blob blob \<and> vle_decrypt (Blob blob # args) db2 = Some (\<lparr>c_isError = 0, c_out = v\<rparr>, db3)"
  using assms by (rule vle_decrypt_encrypted)

theorem vle_roundtrip_witness:
  "\<exists>c db1 blob db3. vle_encrypt [Integer 77] (example_db VLE_CHACHA20) = Some (c, db1) \<and> c_out c = Blob blob
    \<and> vle_decrypt [Blob blob] (example_db VLE_CHACHA20) = Some (\<lparr>c_isError = 0, c_out = Integer 77\<rparr>, db3)"
proof -
  obtain c db1 where e: "vle_encrypt [Integer 77] (example_db VLE_CHACHA20) = Some (c, db1)" "c_isError c = 0" using example_encrypts by blast
  have r: "vle_ready (example_db VLE_CHACHA20) (new_vle\<lparr>v_keyLen := 32, v_algorithm := VLE_CHACHA20\<rparr>)" by (simp add: example_ready)
  show ?thesis using vle_roundtrip [OF r e(1,2) _ r example_ready(2)] e(1) by fastforce
qed

text \<open>
  C30. A blob is decrypted without an error only if its tag is the one that the key, the scope, the header and the nonce give for its text: no other
  blob is accepted.
\<close>

theorem vle_decrypt_authentic:
  assumes "vle_ready db vle" and "vle_decrypt (Blob blob # args) db = Some (c, db')" and "c_isError c = 0"
  shows "\<exists>nonce plain ctext tag. length nonce = 16 \<and> vle_seal vle (scope_of args) (take 4 blob) nonce plain = (ctext, tag)
    \<and> blob = take 4 blob @ nonce @ ctext @ tag"
proof -
  note get = vle_getContext_ready [OF assms(1)]
  have w: "v_nonceLen vle = 16" "v_tagLen vle = 16" using assms(1) unfolding vle_ready_def vle_wf_def by blast+
  have long: "4 \<le> length blob"
    using assms(2,3) unfolding vle_decrypt_def get(1) by (auto simp: get(2) result_error_def new_context_def split: if_splits)
  then have run: "vle_decryptBlob vle blob (scope_of args) db = Some (c, db')"
    using assms(2) unfolding vle_decrypt_def get(1) scope_of_def by (simp add: get(2))
  obtain ok db1 where m: "vle_malloc (length blob) db = (ok, db1)" by fastforce
  have ok: "ok" "blob ! 0 = VLE_MAGIC"
      and decrypted: "vle_aeadDecrypt vle blob (4 + 16) (int (length blob) - 4 - int 16 - int 16 - 1 + 1) (scope_of args) \<noteq> None"
    using run assms(3) unfolding vle_decryptBlob_def Let_def m w prod.case
    by (auto simp: result_error_nomem_def result_error_def new_context_def bind_eq_Some_conv split: if_splits)
  have "36 \<le> length blob" using decrypted short_access [OF assms(1), of blob "scope_of args"] by (meson not_le)
  have alloc: "v_alloc db (v_allocs db)" using m ok(1) long by (auto simp: vle_malloc_def split: if_splits)
  from \<open>36 \<le> length blob\<close> ok(2) obtain header nonce ctext tag where blob: "blob = header @ nonce @ ctext @ tag"
    and l: "length header = 4" "hd header = VLE_MAGIC" "length nonce = 16" "length tag = 16" by (rule blob_parts)
  have "fst (vle_open vle (scope_of args) header nonce ctext tag)"
  proof (rule ccontr)
    assume bad: "\<not> fst (vle_open vle (scope_of args) header nonce ctext tag)"
    have "c_isError c \<noteq> 0"
      using assms(2) unfolding blob vle_decrypt_eq [OF assms(1) l alloc]
      by (auto simp: bad vle_unpackValue_def vle_malloc_def Let_def result_error_def result_value_def result_double_def result_error_nomem_def split: if_splits)
    then show False using assms(3) by simp
  qed
  then have "vle_seal vle (scope_of args) header nonce (snd (vle_open vle (scope_of args) header nonce ctext tag)) = (ctext, tag)"
    using vle_open_seal [OF l(4)] by blast
  moreover have "take 4 blob = header" by (simp add: blob l(1))
  ultimately show ?thesis using blob l(3) by auto
qed

theorem vle_decrypt_authentic_witness:
  "\<exists>blob nonce plain ctext tag. length nonce = 16 \<and> blob = take 4 blob @ nonce @ ctext @ tag
    \<and> vle_seal (new_vle\<lparr>v_keyLen := 32, v_algorithm := VLE_ASCON128\<rparr>) (scope_of []) (take 4 blob) nonce plain = (ctext, tag)"
proof -
  obtain c db1 where e: "vle_encrypt [Integer 77] (example_db VLE_ASCON128) = Some (c, db1)" "c_isError c = 0" using example_encrypts by blast
  have r: "vle_ready (example_db VLE_ASCON128) (new_vle\<lparr>v_keyLen := 32, v_algorithm := VLE_ASCON128\<rparr>)" by (simp add: example_ready)
  obtain blob db3 where d: "vle_decrypt [Blob blob] (example_db VLE_ASCON128) = Some (\<lparr>c_isError = 0, c_out = Integer 77\<rparr>, db3)"
    using vle_decrypt_encrypted [OF r e(1,2) _ r example_ready(2)] by fastforce
  show ?thesis using vle_decrypt_authentic [OF r d] by fastforce
qed

text \<open>
  C31. A wrong tag is reported as an error, but the decrypted value is still made the result: it becomes the message of
  the error, so that the plaintext is disclosed although the authentication failed.
\<close>

theorem vle_tampered_value_disclosed:
  assumes "vle_ready db vle" and "vle_encrypt (v # args) db = Some (c, db1)" and "c_out c = Blob blob" and "c_isError c = 0"
    and "\<And>bits. v = Float bits \<Longrightarrow> \<not> is_nan bits"
    and "length tag' = 16" and "tag' \<noteq> drop (length blob - 16) blob"
    and "vle_ready db2 vle" and "v_alloc db2 = (\<lambda>_. True)"
  shows "\<exists>db3. vle_decrypt (Blob (take (length blob - 16) blob @ tag') # args) db2 = Some (\<lparr>c_isError = SQLITE_ERROR, c_out = v\<rparr>, db3)"
proof -
  obtain nonce ctext tag where e: "length nonce = 16" "vle_seal vle (scope_of args) (vle_header vle) nonce (value_type v # value_payload v) = (ctext, tag)"
    "blob = vle_header vle @ nonce @ ctext @ tag"
    using vle_encrypt_eq [OF assms(1,2,4)] assms(3) by auto
  have l: "length tag = 16" "length ctext = length (value_type v # value_payload v)"
    using length_vle_seal [of vle "scope_of args" "vle_header vle" nonce "value_type v # value_payload v"] e(2) by simp_all
  have h: "length (vle_header vle) = 4" "hd (vle_header vle) = VLE_MAGIC" by (simp_all add: vle_header_def)
  have blob: "take (length blob - 16) blob @ tag' = vle_header vle @ nonce @ ctext @ tag'" "tag' \<noteq> tag"
    using assms(7) by (simp_all add: e(3) l(1))
  have a: "v_alloc db2 (v_allocs db2)" by (simp add: assms(9))
  have plain: "snd (vle_open vle (scope_of args) (vle_header vle) nonce ctext tag') = value_type v # value_payload v"
    using vle_open_tag [of vle "scope_of args" "vle_header vle" nonce ctext tag' tag] vle_seal_open [OF e(2)] by simp
  then have bad: "\<not> fst (vle_open vle (scope_of args) (vle_header vle) nonce ctext tag')"
    using vle_open_seal [OF assms(6), of vle "scope_of args" "vle_header vle" nonce ctext] e(2) blob(2) by simp
  obtain db3 where "vle_unpackValue (result_error ''AEAD authentication failed'' new_context) ((value_type v # value_payload v) @ tag')
      (int (length (value_type v # value_payload v)) - 1) (db2\<lparr>v_allocs := v_allocs db2 + 1\<rparr>)
      = Some (SQLITE_OK, result_value v (result_error ''AEAD authentication failed'' new_context), db3)"
    using vle_unpack_pack [of "db2\<lparr>v_allocs := v_allocs db2 + 1\<rparr>" v _ tag'] assms(5,9) by fastforce
  then show ?thesis
    unfolding blob(1) vle_decrypt_eq [OF assms(8) h e(1) assms(6) a] l(2) plain
    by (simp add: bad result_value_def result_error_def)
qed

theorem vle_tampered_value_disclosed_witness:
  "\<exists>blob tag' db3. tag' \<noteq> drop (length blob - 16) blob
    \<and> vle_decrypt [Blob (take (length blob - 16) blob @ tag')] (example_db VLE_CHACHA20) = Some (\<lparr>c_isError = SQLITE_ERROR, c_out = Integer 77\<rparr>, db3)"
proof -
  obtain c db1 where e: "vle_encrypt [Integer 77] (example_db VLE_CHACHA20) = Some (c, db1)" "c_isError c = 0" using example_encrypts by blast
  have r: "vle_ready (example_db VLE_CHACHA20) (new_vle\<lparr>v_keyLen := 32, v_algorithm := VLE_CHACHA20\<rparr>)" by (simp add: example_ready)
  obtain blob where b: "c_out c = Blob blob" using vle_encrypt_eq [OF r e] by auto
  obtain tag' :: bytes where t: "length tag' = 16" "tag' \<noteq> drop (length blob - 16) blob"
  proof -
    have "replicate 16 (0 :: byte) \<noteq> replicate 16 1" by simp
    then show thesis using that [of "replicate 16 0"] that [of "replicate 16 1"] by fastforce
  qed
  show ?thesis using vle_tampered_value_disclosed [OF r e(1) b e(2) _ t r example_ready(2)] t(2) by fastforce
qed

text \<open>
  C32. With the algorithm Ascon-128 the scope has no influence: a value that was encrypted for one scope is decrypted for
  every other, because the digest of the scope is overwritten by the one-time key.
\<close>

theorem vle_ascon_ignores_scope:
  assumes "v_context db = Some vle" and "v_algorithm vle = VLE_ASCON128"
  shows "vle_encrypt (v # args) db = vle_encrypt (v # args') db \<and> vle_decrypt (v # args) db = vle_decrypt (v # args') db"
proof -
  have get: "vle_getContext db = Some (vle, db)" by (simp add: vle_getContext_def assms(1))
  have enc: "vle_encryptPayload vle v p scope db' = vle_encryptPayload vle v p scope' db'" for p scope scope' db'
  proof -
    have ae: "vle_aeadEncrypt vle b d n scope r = vle_aeadEncrypt vle b d n scope' r" for b d n r
      by (simp add: vle_aeadEncrypt_def assms(2))
    show ?thesis unfolding vle_encryptPayload_def Let_def ae ..
  qed
  have one: "vle_encrypt (v # args) db = vle_encrypt (v # args') db"
    unfolding vle_encrypt_def get bind.simps prod.case Let_def nth_Cons_0
    using enc [where scope = "vle_getScope (if 1 < length (v # args) then Some ((v # args) ! 1) else None)"
        and scope' = "vle_getScope (if 1 < length (v # args') then Some ((v # args') ! 1) else None)"]
    by (simp only: list.distinct HOL.simp_thms)
  have dec: "vle_decryptBlob vle b scope db = vle_decryptBlob vle b scope' db" for b scope scope'
  proof -
    have ad: "vle_aeadDecrypt vle b d n scope = vle_aeadDecrypt vle b d n scope'" for d n
      by (simp add: vle_aeadDecrypt_def assms(2))
    show ?thesis unfolding vle_decryptBlob_def Let_def ad ..
  qed
  have "vle_decrypt (v # args) db = vle_decrypt (v # args') db"
    unfolding vle_decrypt_def get bind.simps prod.case Let_def
    using dec [where scope = "vle_getScope (if args \<noteq> [] then Some (hd args) else None)"
        and scope' = "vle_getScope (if args' \<noteq> [] then Some (hd args') else None)"]
    by (auto split: sql_value.splits)
  with one show ?thesis ..
qed

theorem vle_ascon_ignores_scope_witness:
  "vle_encrypt [Integer 77, Text [1]] (example_db VLE_ASCON128) = vle_encrypt [Integer 77, Text [2]] (example_db VLE_ASCON128)"
proof -
  have "v_context (example_db VLE_ASCON128) = Some (new_vle\<lparr>v_keyLen := 32, v_algorithm := VLE_ASCON128\<rparr>)" by (simp add: example_db_def)
  from vle_ascon_ignores_scope [OF this, of "Integer 77" "[Text [1]]" "[Text [2]]"] show ?thesis by simp
qed

text \<open>
  C33. The loop over the options ends for every text and every table; its result is that of cutting the text at the commas and setting the
  options one by one until the first error.
\<close>

theorem vle_options_terminate: "vle_parseOptions p table = Some (set_pieces (pieces p) table)"
  by (rule vle_parseOptions_eq)

text \<open>
  C34. NULL, the empty text and the empty blob cannot be encrypted although the format has a type for them: the allocation
  of no bytes counts as a failure.
\<close>

theorem vle_empty_values_refused:
  assumes "v \<in> {Null, Text [], Blob []}" and "vle_encrypt (v # args) db = Some (c, db')"
  shows "c_isError c = SQLITE_ERROR"
proof -
  have "vle_packValue v db1 = (Inl SQLITE_NOMEM, db1)" for db1
    using assms(1) by (auto simp: vle_packValue_def vle_malloc_def value_payload_def)
  then show ?thesis using assms(2)
    unfolding vle_encrypt_def Let_def nth_Cons_0
    by (cases "vle_getContext db") (auto simp: result_error_def split: if_splits prod.splits)
qed

theorem vle_empty_values_refused_witness:
  "\<exists>c db'. vle_encrypt [Null] (example_db VLE_CHACHA20) = Some (c, db') \<and> c_isError c = SQLITE_ERROR"
proof -
  obtain c db' where "vle_encrypt [Null] (example_db VLE_CHACHA20) = Some (c, db')"
    by (simp add: vle_encrypt_def vle_getContext_def example_db_def new_vle_def vle_packValue_def vle_malloc_def value_payload_def)
  then show ?thesis using vle_empty_values_refused [of Null "[]" "example_db VLE_CHACHA20" c db'] by simp
qed

text \<open>
  C35. The length of a blob is only compared with that of the header: for a blob of 4 to 35 bytes that starts with the magic byte the length of the
  ciphertext is negative, it becomes huge as a size, and the decryption leaves the buffer. A longer blob with at least one byte of
  ciphertext is always decrypted inside the buffer, to a result or an error.
\<close>

theorem vle_short_blob_undefined:
  assumes "vle_ready db vle" and "v_alloc db (v_allocs db)" and "4 \<le> length blob" and "blob ! 0 = VLE_MAGIC"
  shows "(length blob < 36 \<longrightarrow> vle_decrypt (Blob blob # args) db = None) \<and> (36 < length blob \<longrightarrow> vle_decrypt (Blob blob # args) db \<noteq> None)"
proof (intro conjI impI)
  assume short: "length blob < 36"
  note get = vle_getContext_ready [OF assms(1)]
  have w: "v_nonceLen vle = 16" "v_tagLen vle = 16" using assms(1) unfolding vle_ready_def vle_wf_def by blast+
  have m: "vle_malloc (length blob) db = (True, db\<lparr>v_allocs := v_allocs db + 1\<rparr>)" using assms(2,3) by (auto simp: vle_malloc_def)
  have "vle_decryptBlob vle blob (scope_of args) db = None"
    unfolding vle_decryptBlob_def Let_def m w prod.case short_access [OF assms(1) short] using assms(4) by simp
  then show "vle_decrypt (Blob blob # args) db = None" using assms(3) unfolding vle_decrypt_def get(1) scope_of_def by (simp add: get(2))
next
  assume long: "36 < length blob"
  then obtain header nonce ctext tag where b: "blob = header @ nonce @ ctext @ tag" "length header = 4" "hd header = VLE_MAGIC" "length nonce = 16"
    "length tag = 16" "length ctext = length blob - 36"
    by (rule blob_parts [OF less_imp_le assms(4)])
  show "vle_decrypt (Blob blob # args) db \<noteq> None"
    unfolding b(1) vle_decrypt_eq [OF assms(1) b(2-5) assms(2)]
    using long b(6) by (simp add: vle_unpackValue_def Let_def split: prod.split)
qed

theorem vle_short_blob_undefined_witness: "vle_decrypt [Blob (VLE_MAGIC # replicate 9 0)] (example_db VLE_CHACHA20) = None"
proof -
  have r: "vle_ready (example_db VLE_CHACHA20) (new_vle\<lparr>v_keyLen := 32, v_algorithm := VLE_CHACHA20\<rparr>)" by (simp add: example_ready)
  show ?thesis using vle_short_blob_undefined [OF r, of "VLE_MAGIC # replicate 9 0" "[]"] by (simp add: example_ready)
qed

text \<open>
  A call of the key function with an unknown algorithm is refused, but it has already changed the salt and set the algorithm to
  ChaCha20, while the key of the earlier algorithm stays in use.
\<close>

lemma vle_setKey_refused:
  assumes "v_context db = Some vle" and "value_bytes pswd = Some p" and "vle_saltArg (pswd # args) = Some salt"
    and "vle_algorithmArg (pswd # args) = Inl msg"
  shows "vle_setKey (pswd # args) db =
    Some (\<lparr>c_isError = SQLITE_ERROR, c_out = Text (ascii msg)\<rparr>,
      db\<lparr>v_context := Some (vle\<lparr>v_salt := take 16 (sha256 salt), v_algorithm := VLE_CHACHA20\<rparr>)\<rparr>)"
  using assms by (simp add: vle_setKey_def vle_getContext_def result_error_def new_context_def Let_def)

lemma vle_setKey_refused_witness:
  "vle_setKey [Text [1], Null, Text (ascii ''aes'')] (example_db VLE_ASCON128) =
    Some (\<lparr>c_isError = SQLITE_ERROR, c_out = Text (ascii ''Unsupported cipher type'')\<rparr>,
      (example_db VLE_ASCON128)\<lparr>v_context := Some (new_vle\<lparr>v_keyLen := 32, v_salt := take 16 (sha256 (ascii ''vle:default-salt'')), v_algorithm := VLE_CHACHA20\<rparr>)\<rparr>)"
proof -
  have "vle_algorithmArg [Text [1], Null, Text (ascii ''aes'')] = Inl ''Unsupported cipher type''" by code_simp
  moreover have "vle_saltArg [Text [1], Null, Text (ascii ''aes'')] = Some (ascii ''vle:default-salt'')" by (simp add: vle_saltArg_def)
  ultimately show ?thesis
    using vle_setKey_refused [of "example_db VLE_ASCON128" "new_vle\<lparr>v_keyLen := 32, v_algorithm := VLE_ASCON128\<rparr>" "Text [1]" "[1]"]
    by (simp add: example_db_def value_bytes_def)
qed

section \<open>Contexts with a key\<close>

text \<open>A successful call of the key function leaves a usable context, which depends on the arguments alone when the connection had none.\<close>

lemma vle_deriveKey_salt:
  "vle_deriveKey vle pswd options = Some (vle', k) \<Longrightarrow> \<exists>key. vle' = vle\<lparr>v_key := key, v_keyLen := 32\<rparr>"
  by (auto simp: vle_deriveKey_def vle_parseOptions_eq Let_def bind_eq_Some_conv split: prod.splits)

lemma vle_algorithmArg_cases: "vle_algorithmArg argv = Inr a \<Longrightarrow> a \<in> {VLE_CHACHA20, VLE_ASCON128}"
  by (auto simp: vle_algorithmArg_def split: if_splits sql_value.splits)

lemma vle_setKey_success:
  assumes run: "vle_setKey argv db = Some (c, db')" and ok: "c_isError c = 0" and new: "v_context db = None"
  shows "\<exists>pswd salt algorithm options k vle. value_bytes (argv ! 0) = Some pswd \<and> vle_saltArg argv = Some salt \<and> vle_algorithmArg argv = Inr algorithm
    \<and> vle_optionsArg argv = Some options \<and> v_context db' = Some vle
    \<and> vle_deriveKey (new_vle\<lparr>v_salt := take 16 (sha256 salt), v_algorithm := algorithm\<rparr>) pswd options = Some (vle, k)"
proof -
  obtain db1 where get: "vle_getContext db = Some (new_vle, db1)"
    using run by (cases "vle_getContext db") (auto simp: vle_setKey_def vle_getContext_def new Let_def split: prod.splits if_splits)
  note run = run [unfolded vle_setKey_def get bind.simps prod.case Let_def]
  have argv: "argv \<noteq> []"
  proof
    assume "argv = []"
    then show False using run ok by (simp only: if_True refl option.inject prod.inject) (auto simp: result_error_def)
  qed
  obtain pswd where pswd: "value_bytes (argv ! 0) = Some pswd"
    using run ok argv by (cases "value_bytes (argv ! 0)") (simp_all add: result_error_def, auto)
  obtain salt where salt: "vle_saltArg argv = Some salt"
    using run ok argv pswd by (cases "vle_saltArg argv") (simp_all add: result_error_def, auto)
  obtain alg where alg: "vle_algorithmArg argv = Inr alg"
    using run ok argv pswd salt by (cases "vle_algorithmArg argv") (simp_all add: result_error_def, auto)
  obtain options where options: "vle_optionsArg argv = Some options"
    using run ok argv pswd salt alg by (cases "vle_optionsArg argv") (simp_all add: result_error_def, auto)
  obtain ok2 db2 where m: "vle_malloc (length options) db1 = (ok2, db2)" by fastforce
  show ?thesis
  proof (cases "vle_deriveKey (new_vle\<lparr>v_salt := take 16 (sha256 salt), v_algorithm := alg\<rparr>) pswd options")
    case None
    then show ?thesis using run ok argv pswd salt alg options m by (auto simp: result_error_nomem_def new_vle_def split: if_splits)
  next
    case (Some d)
    obtain vle k where d: "d = (vle, k)" by fastforce
    obtain ok3 db3 where m3: "vle_malloc 1 db2 = (ok3, db3)" by fastforce
    show ?thesis using run ok argv pswd salt alg options m m3 Some d
      by (auto simp: result_error_nomem_def split: if_splits)
  qed
qed

lemma vle_key_agreement:
  assumes "v_context db1 = None" "vle_setKey argv db1 = Some (c1, db1')" "c_isError c1 = 0"
    and "v_context db2 = None" "vle_setKey argv db2 = Some (c2, db2')" "c_isError c2 = 0"
  shows "v_context db1' = v_context db2' \<and> (\<exists>vle. v_context db1' = Some vle \<and> vle_wf vle \<and> v_keyLen vle = 32)"
proof -
  obtain pswd salt alg options k vle where
    a: "value_bytes (argv ! 0) = Some pswd" "vle_saltArg argv = Some salt" "vle_algorithmArg argv = Inr alg" "vle_optionsArg argv = Some options"
      "v_context db1' = Some vle" "vle_deriveKey (new_vle\<lparr>v_salt := take 16 (sha256 salt), v_algorithm := alg\<rparr>) pswd options = Some (vle, k)"
    using vle_setKey_success [OF assms(2,3,1)] by blast
  have "v_context db2' = Some vle" using vle_setKey_success [OF assms(5,6,4)] a by auto
  moreover have "vle_wf vle" "v_keyLen vle = 32"
    using vle_deriveKey_salt [OF a(6)] vle_algorithmArg_cases [OF a(3)] by (auto simp: vle_wf_def new_vle_def)
  ultimately show ?thesis using a(5) by simp
qed

end
