(* ===== verification/Codec_Ext.thy ===== *)
theory Codec_Ext
  imports Cipher_Table
begin

text \<open>
  The functions of \<^verbatim>\<open>src/src/codecext.c\<close> that give a database a key and change or remove it: \<^verbatim>\<open>sqlite3_key_v2\<close> with
  \<^verbatim>\<open>sqlite3mcCodecAttach\<close>, and \<^verbatim>\<open>sqlite3_rekey_v2\<close>. They work on the codec that is attached to the file of the database. What they call of the SQLite core
  (resolving the name of the database, the B-tree, the pager and the VACUUM) is a parameter, which gets the codec because it calls \<^verbatim>\<open>sqlite3mcCodec\<close>.
  \<open>None\<close> is undefined behaviour, as in the theory Codec.
\<close>

section \<open>The SQLite core\<close>

type_synonym 'c core_call = "'c Codec \<Rightarrow> 'c mc_env \<Rightarrow> int \<times> 'c Codec \<times> 'c mc_env"

text \<open>
  The database that a name stands for: whether its VFS is one of this library, whether the name is known, the number of the
  database and of its B-tree; the file name with its URI parameters (\<open>None\<close> when there is no file); and the text of a key salt, from the connection or the URI.
\<close>

record db_name =
  n_supported :: bool
  n_found :: bool
  n_index :: int
  n_bt :: nat
  n_file :: "uri option"
  n_cipherSalt :: "bytes option"

record 'c core =
  x_malloc :: bool
  x_usesWal :: bool
  x_pageCount :: nat
  x_setPageSize :: "int \<Rightarrow> int \<Rightarrow> BtShared \<Rightarrow> int \<times> BtShared"
  x_runVacuum :: "int \<Rightarrow> 'c core_call"
  x_beginTrans :: "'c core_call"
  x_rewritePage :: "nat \<Rightarrow> 'c core_call"
  x_commit :: "'c core_call"
  x_rollback :: "'c core_call"

section \<open>Auxiliary operations\<close>

definition sqlite3mcCodecFree :: "'c Codec option \<Rightarrow> 'c mc_env \<Rightarrow> 'c mc_env option" where
  "sqlite3mcCodecFree codec e = (case codec of None \<Rightarrow> Some e | Some c \<Rightarrow> map_option snd (sqlite3mcCodecTerm c e))"

definition sqlite3mcCodecSizeChange :: "int \<Rightarrow> int \<Rightarrow> 'c Codec \<Rightarrow> 'c Codec" where
  "sqlite3mcCodecSizeChange pageSize reservedSize codec = codec\<lparr>m_pageSize := pageSize, m_reserved := reservedSize\<rparr>"

text \<open>The flag for secure deletion, which is set too, has no counterpart in the model of a B-tree.\<close>

definition mcAdjustBtree :: "'c core \<Rightarrow> nat \<Rightarrow> int \<Rightarrow> int \<Rightarrow> int \<Rightarrow> 'c mc_env \<Rightarrow> (int \<times> 'c mc_env) option" where
  "mcAdjustBtree core bt nPageSize nReserved isLegacy e =
     (if length (e_bts e) \<le> bt then None
      else
        let b = e_bts e ! bt; pagesize = (if nPageSize > 0 then nPageSize else bt_pageSize b)
        in if pg_pageSize b \<noteq> pagesize \<or> pg_nReserve b \<noteq> nReserved then
             let reserved = (if nReserved \<ge> 0 then nReserved else 0);
                 b = (if isLegacy \<noteq> 0 then b\<lparr>bt_pageSizeFixed := False\<rparr> else b);
                 (rc, b) = x_setPageSize core pagesize reserved b
             in Some (rc, e\<lparr>e_bts := (e_bts e)[bt := b]\<rparr>)
           else Some (SQLITE_OK, e))"

text \<open>
  \<^verbatim>\<open>sqlite3mcSetCodec\<close> for a database whose file is open: the new codec is attached, the error state of the pager is reset through it (or through the
  previous one), and the previous codec is released.
\<close>

definition set_codec :: "'c Codec option \<Rightarrow> 'c Codec option \<Rightarrow> 'c mc_env \<Rightarrow> ('c Codec option \<times> 'c mc_env) option" where
  "set_codec codec prevCodec e = do {
     e \<leftarrow> (case (if codec \<noteq> None then codec else prevCodec) of
             None \<Rightarrow> Some e
           | Some msgCodec \<Rightarrow> mcReportCodecError (m_btShared msgCodec) SQLITE_OK e);
     e \<leftarrow> sqlite3mcCodecFree prevCodec e;
     Some (codec, e)
   }"

text \<open>The page size and the reserved bytes of the write cipher are those of the database from now on.\<close>

definition enforce_sizes :: "'c core \<Rightarrow> nat \<Rightarrow> 'c Codec \<Rightarrow> 'c mc_env \<Rightarrow> ('c Codec \<times> 'c mc_env) option" where
  "enforce_sizes core bt codec e = do {
     pageSize \<leftarrow> sqlite3mcGetPageSizeWriteCipher codec e;
     reserved \<leftarrow> sqlite3mcGetReservedWriteCipher codec e;
     legacy \<leftarrow> sqlite3mcGetLegacyWriteCipher codec e;
     (rc, e) \<leftarrow> mcAdjustBtree core bt pageSize reserved legacy e;
     Some (sqlite3mcCodecSizeChange pageSize reserved codec, e)
   }"

definition cipher_type :: "'c mc_env \<Rightarrow> int \<times> 'c mc_env" where
  "cipher_type e = (let (ty, s) = sqlite3mcGetCipherType True (reg_cfg (e_reg e)) in (ty, e\<lparr>e_reg := (e_reg e)\<lparr>reg_cfg := s\<rparr>\<rparr>))"

section \<open>Setting a key\<close>

text \<open>A key salt in hexadecimal spelling; anything else is ignored.\<close>

definition set_key_salt :: "bytes option \<Rightarrow> 'c Codec \<Rightarrow> 'c Codec" where
  "set_key_salt cipherSalt codec =
     (case cipherSalt of
        Some s \<Rightarrow>
          if 32 \<le> length s \<and> sqlite3mcIsHexKey (take 32 s)
          then codec\<lparr>m_hasKeySalt := True, m_keySalt := sqlite3mcConvertHex2Bin (take 32 s)\<rparr> else codec
      | None \<Rightarrow> codec)"

text \<open>
  \<^verbatim>\<open>sqlite3mcCodecAttach\<close>: \<open>mainCodec\<close> is the codec of the main database, \<open>attached\<close> the one of this database, which the
  result replaces. \<open>zKey = None\<close> is a null pointer.
\<close>

definition attach_main_key :: "'c core \<Rightarrow> nat \<Rightarrow> 'c Codec option \<Rightarrow> 'c Codec option \<Rightarrow> 'c Codec \<Rightarrow> 'c mc_env \<Rightarrow> (int \<times> 'c Codec option \<times> 'c mc_env) option" where
  "attach_main_key core bt mainCodec attached codec e =
     (case mainCodec of
        Some main \<Rightarrow>
          if m_isEncrypted main then do {
            (rc, codec, e) \<leftarrow> sqlite3mcCodecCopy codec main e;
            if rc = SQLITE_OK then do {
              (codec, e) \<leftarrow> enforce_sizes core bt (codec\<lparr>m_btShared := Some bt\<rparr>) e;
              (attached, e) \<leftarrow> set_codec (Some codec) attached e;
              Some (SQLITE_OK, attached, e)
            } else do { e \<leftarrow> sqlite3mcCodecFree (Some codec) e; Some (rc, attached, e) }
          } else do { e \<leftarrow> sqlite3mcCodecFree (Some codec) e; Some (SQLITE_OK, attached, e) }
      | None \<Rightarrow> do { e \<leftarrow> sqlite3mcCodecFree (Some codec) e; Some (SQLITE_OK, attached, e) })"

definition attach_own_key :: "'c core \<Rightarrow> db_name \<Rightarrow> bytes \<Rightarrow> 'c Codec option \<Rightarrow> 'c Codec \<Rightarrow> 'c mc_env \<Rightarrow> (int \<times> 'c Codec option \<times> 'c mc_env) option" where
  "attach_own_key core nm key attached codec e = do {
     let codec = (if n_file nm \<noteq> None then set_key_salt (n_cipherSalt nm) codec else codec);
     let (rc, s) = (if n_index nm > 0 then sqlite3mcConfigureFromUri (n_file nm) False (reg_cfg (e_reg e)) else (SQLITE_OK, reg_cfg (e_reg e)));
     let e = e\<lparr>e_reg := (e_reg e)\<lparr>reg_cfg := s\<rparr>\<rparr>;
     (rc, codec, e) \<leftarrow>
       (if rc = SQLITE_OK then do {
          let (ty, e) = cipher_type e;
          (rc, codec, e) \<leftarrow> sqlite3mcCodecSetup (codec\<lparr>m_btShared := Some (n_bt nm)\<rparr>) ty key e;
          Some (rc, sqlite3mcClearKeySalt codec, e)
        } else Some (rc, codec, e));
     if rc = SQLITE_OK then do {
       (codec, e) \<leftarrow> enforce_sizes core (n_bt nm) codec e;
       (attached, e) \<leftarrow> set_codec (Some codec) attached e;
       Some (SQLITE_OK, attached, e)
     } else do { e \<leftarrow> sqlite3mcCodecFree (Some codec) e; Some (rc, attached, e) }
   }"

definition sqlite3mcCodecAttach :: "'c core \<Rightarrow> db_name \<Rightarrow> bytes option \<Rightarrow> int \<Rightarrow> 'c Codec option \<Rightarrow> 'c Codec option \<Rightarrow> 'c mc_env
    \<Rightarrow> (int \<times> 'c Codec option \<times> 'c mc_env) option" where
  "sqlite3mcCodecAttach core nm zKey nKey mainCodec attached e =
     (if \<not> x_malloc core then Some (SQLITE_NOMEM, attached, e)
      else
        let codec = new_codec\<lparr>m_db := True\<rparr>
        in if zKey = None \<or> nKey \<le> 0 then
             (if n_index nm \<noteq> 0 \<and> nKey > 0 then attach_main_key core (n_bt nm) mainCodec attached codec e
              else do {
                e \<leftarrow> sqlite3mcCodecFree (Some codec) e;
                (attached, e) \<leftarrow> (if n_index nm = 0 \<and> nKey = 0 then set_codec None attached e else Some (attached, e));
                Some (SQLITE_OK, attached, e)
              })
           else attach_own_key core nm (take (nat nKey) (the zKey)) attached codec e)"

text \<open>The result is the length of the key; the key itself is not kept.\<close>

definition sqlite3mcCodecGetKey :: "'c Codec option \<Rightarrow> bytes option \<times> int" where
  "sqlite3mcCodecGetKey codec = (None, case codec of None \<Rightarrow> 0 | Some c \<Rightarrow> if m_isEncrypted c then 1 else 0)"

text \<open>A negative length stands for a zero-terminated key.\<close>

definition key_length :: "bytes option \<Rightarrow> int \<Rightarrow> int" where
  "key_length zKey nKey = (case zKey of Some z \<Rightarrow> if nKey < 0 then int (length (takeWhile (\<lambda>c. c \<noteq> 0) z)) else nKey | None \<Rightarrow> nKey)"

definition sqlite3_key_v2 :: "'c core \<Rightarrow> db_name \<Rightarrow> bytes option \<Rightarrow> int \<Rightarrow> 'c Codec option \<Rightarrow> 'c Codec option \<Rightarrow> 'c mc_env
    \<Rightarrow> (int \<times> 'c Codec option \<times> 'c mc_env) option" where
  "sqlite3_key_v2 core nm zKey nKey mainCodec attached e =
     (let nKey = key_length zKey nKey in
      if \<not> n_supported nm then Some (SQLITE_ERROR, attached, e)
      else if zKey \<noteq> None \<and> nKey \<ge> 0 then
        if n_file nm = None then Some (SQLITE_ERROR, attached, e)
        else
          let s = (if clientParams (reg_cfg (e_reg e)) = None then snd (sqlite3mcConfigureFromUri (n_file nm) False (reg_cfg (e_reg e)))
                   else reg_cfg (e_reg e));
              e = e\<lparr>e_reg := (e_reg e)\<lparr>reg_cfg := s\<rparr>\<rparr>
          in if n_found nm then sqlite3mcCodecAttach core nm zKey nKey mainCodec attached e else Some (SQLITE_ERROR, attached, e)
      else Some (SQLITE_ERROR, attached, e))"

section \<open>Changing the key\<close>

text \<open>The page that holds the locking byte is never written.\<close>

definition WX_PAGER_MJ_PGNO :: "int \<Rightarrow> nat" where
  "WX_PAGER_MJ_PGNO pageSize = nat (0x40000000 div pageSize + 1)"

fun rewrite_pages :: "'c core \<Rightarrow> nat \<Rightarrow> nat list \<Rightarrow> int \<Rightarrow> 'c core_call" where
  "rewrite_pages core nSkip [] rc codec e = (rc, codec, e)"
| "rewrite_pages core nSkip (n # ns) rc codec e =
     (if rc \<noteq> SQLITE_OK then (rc, codec, e)
      else if n = nSkip then rewrite_pages core nSkip ns rc codec e
      else let (rc, codec, e) = x_rewritePage core n codec e in rewrite_pages core nSkip ns rc codec e)"

text \<open>All pages are rewritten in one transaction.\<close>

definition rekey_pages :: "'c core \<Rightarrow> nat \<Rightarrow> 'c core_call" where
  "rekey_pages core bt codec e =
     (let (rc, codec, e) = x_beginTrans core codec e;
          (rc, codec, e) =
            (if rc = SQLITE_OK then rewrite_pages core (WX_PAGER_MJ_PGNO (bt_pageSize (e_bts e ! bt))) [1..<x_pageCount core + 1] rc codec e
             else (rc, codec, e));
          (rc, codec, e) = (if rc = SQLITE_OK then x_commit core codec e else (rc, codec, e))
      in if rc \<noteq> SQLITE_OK then let (_, codec, e) = x_rollback core codec e in (rc, codec, e) else (rc, codec, e))"

text \<open>The VACUUM that changes the number of reserved bytes, and the transaction when they stay.\<close>

definition rekey_content :: "'c core \<Rightarrow> nat \<Rightarrow> int \<Rightarrow> int \<Rightarrow> 'c core_call" where
  "rekey_content core bt nReserved nReservedNew codec e =
     (if nReserved \<noteq> nReservedNew
      then x_runVacuum core nReservedNew (codec\<lparr>m_readReserved := nReserved, m_writeReserved := nReservedNew\<rparr>) e
      else rekey_pages core bt codec e)"

text \<open>
  The three cases. An unencrypted database has got a new codec with a write cipher: it is attached, unless the cipher wants another page size. An encrypted one is
  decrypted with the read cipher alone, or rewritten with a new write cipher. The flag of the result says whether the codec is attached.
\<close>

definition rekey_encrypt :: "'c core \<Rightarrow> nat \<Rightarrow> int \<Rightarrow> int \<Rightarrow> 'c Codec \<Rightarrow> 'c mc_env \<Rightarrow> (int \<times> bool \<times> 'c Codec \<times> 'c mc_env) option" where
  "rekey_encrypt core bt nPagesize nReserved codec e = do {
     pageSize \<leftarrow> sqlite3mcGetPageSizeWriteCipher codec e;
     if pageSize \<le> 0 \<or> nPagesize = pageSize then do {
       let codec = codec\<lparr>m_hasReadCipher := False\<rparr>;
       reserved \<leftarrow> sqlite3mcGetReservedWriteCipher codec e;
       legacy \<leftarrow> sqlite3mcGetLegacyWriteCipher codec e;
       (_, e) \<leftarrow> mcAdjustBtree core bt pageSize reserved legacy e;
       (_, e) \<leftarrow> set_codec (Some codec) None e;
       let (rc, codec, e) = rekey_content core bt nReserved reserved (sqlite3mcCodecSizeChange nPagesize reserved codec) e;
       Some (rc, True, codec, e)
     } else Some (SQLITE_ERROR, False, codec, e)
   }"

definition rekey_decrypt :: "'c core \<Rightarrow> nat \<Rightarrow> int \<Rightarrow> 'c core_call" where
  "rekey_decrypt core bt nReserved codec e =
     (let codec = codec\<lparr>m_hasWriteCipher := False\<rparr>
      in if nReserved > 0 then x_runVacuum core 0 (codec\<lparr>m_readReserved := nReserved, m_writeReserved := 0\<rparr>) e
         else rekey_pages core bt codec e)"

definition rekey_reencrypt :: "'c core \<Rightarrow> nat \<Rightarrow> int \<Rightarrow> int \<Rightarrow> 'c Codec \<Rightarrow> 'c mc_env \<Rightarrow> (int \<times> 'c Codec \<times> 'c mc_env) option" where
  "rekey_reencrypt core bt nPagesize nReserved codec e = do {
     pageSize \<leftarrow> sqlite3mcGetPageSizeWriteCipher codec e;
     if pageSize \<le> 0 \<or> nPagesize = pageSize then do {
       reserved \<leftarrow> sqlite3mcGetReservedWriteCipher codec e;
       Some (rekey_content core bt nReserved reserved codec e)
     } else Some (SQLITE_ERROR, codec, e)
   }"

text \<open>
  What follows \<^verbatim>\<open>leave_rekey\<close>: after a success the read cipher becomes the write cipher, or there is no codec any more; after a
  failure the write cipher becomes the read cipher, when there is one. A codec that is not attached in the end is lost; it is the third part of the result.
\<close>

definition rekey_settle :: "'c core \<Rightarrow> nat \<Rightarrow> int \<Rightarrow> 'c Codec \<Rightarrow> 'c mc_env \<Rightarrow> ('c Codec \<times> 'c mc_env) option" where
  "rekey_settle core bt rc codec e =
     (if rc = SQLITE_OK then
        if m_hasWriteCipher codec then do {
          (_, codec, e) \<leftarrow> sqlite3mcCopyCipher codec False e;
          enforce_sizes core bt (codec\<lparr>m_hasReadCipher := True\<rparr>) e
        } else Some (codec\<lparr>m_isEncrypted := False\<rparr>, e)
      else if m_hasReadCipher codec then do {
        (_, codec, e) \<leftarrow> sqlite3mcCopyCipher codec True e;
        Some (codec, e)
      } else Some (codec\<lparr>m_isEncrypted := False\<rparr>, e))"

definition rekey_finish :: "'c core \<Rightarrow> nat \<Rightarrow> int \<Rightarrow> bool \<Rightarrow> 'c Codec \<Rightarrow> 'c mc_env \<Rightarrow> (int \<times> 'c Codec option \<times> 'c Codec option \<times> 'c mc_env) option" where
  "rekey_finish core bt rc isAttached codec e = do {
     (codec, e) \<leftarrow> rekey_settle core bt rc codec e;
     let codec = codec\<lparr>m_readReserved := -1, m_writeReserved := -1\<rparr>;
     let attached = (if isAttached then Some codec else None);
     let lost = (if isAttached then None else Some codec);
     (attached, e) \<leftarrow> (if m_isEncrypted codec then Some (attached, e) else set_codec None attached e);
     Some (rc, attached, lost, e)
   }"

definition sqlite3_rekey_v2 :: "'c core \<Rightarrow> db_name \<Rightarrow> bytes option \<Rightarrow> int \<Rightarrow> 'c Codec option \<Rightarrow> 'c mc_env
    \<Rightarrow> (int \<times> 'c Codec option \<times> 'c Codec option \<times> 'c mc_env) option" where
  "sqlite3_rekey_v2 core nm zKey nKey attached e =
     (let nKey = key_length zKey nKey; noKey = (zKey = None \<or> nKey = 0); key = take (nat nKey) (case zKey of None \<Rightarrow> [] | Some z \<Rightarrow> z);
          isEncrypted = (case attached of None \<Rightarrow> False | Some c \<Rightarrow> m_isEncrypted c);
          bt = n_bt nm; b = e_bts e ! bt; nPagesize = bt_pageSize b; nReserved = bt_pageSize b - bt_usableSize b
      in if \<not> n_supported nm \<or> \<not> n_found nm \<or> n_file nm = None then Some (SQLITE_ERROR, attached, None, e)
         else if length (e_bts e) \<le> bt then None
         else if x_usesWal core \<and> zKey \<noteq> None \<and> nKey > 0 \<and> \<not> isEncrypted then Some (SQLITE_ERROR, attached, None, e)
         else if noKey \<and> \<not> isEncrypted then Some (SQLITE_OK, attached, None, e)
         else if \<not> isEncrypted then
           if attached \<noteq> None then Some (SQLITE_ERROR, attached, None, e)
           else if \<not> x_malloc core then Some (SQLITE_NOMEM, None, None, e)
           else do {
             let (ty, e) = cipher_type e;
             (rc, codec, e) \<leftarrow> sqlite3mcSetupWriteCipher (new_codec\<lparr>m_db := True, m_btShared := Some bt\<rparr>) ty key (x_usesWal core) e;
             if rc \<noteq> SQLITE_OK then do { e \<leftarrow> sqlite3mcCodecFree (Some codec) e; Some (rc, None, None, e) }
             else do {
               (rc, isAttached, codec, e) \<leftarrow> rekey_encrypt core bt nPagesize nReserved codec e;
               rekey_finish core bt rc isAttached codec e
             }
           }
         else if noKey then
           (case rekey_decrypt core bt nReserved (the attached) e of (rc, codec, e) \<Rightarrow> rekey_finish core bt rc True codec e)
         else do {
           let (ty, e) = cipher_type e;
           (rc, codec, e) \<leftarrow> sqlite3mcSetupWriteCipher (the attached) ty key (x_usesWal core) e;
           (rc, codec, e) \<leftarrow> (if rc = SQLITE_OK then rekey_reencrypt core bt nPagesize nReserved codec e else Some (rc, codec, e));
           rekey_finish core bt rc True codec e
         })"


section \<open>What is relied on\<close>

text \<open>
  The SQLite core touches a codec through \<^verbatim>\<open>sqlite3mcCodec\<close> only, which changes the last error of the codec and the random number generator; it
  does not touch the cipher tables, and what it knows of the beginning of a file has at least 16 bytes.
\<close>

definition trees_ok :: "'c mc_env \<Rightarrow> bool" where
  "trees_ok e \<longleftrightarrow> (\<forall>b \<in> set (e_bts e). \<forall>h. pg_header b = Some h \<longrightarrow> 16 \<le> length h)"

definition env_keeps :: "'c mc_env \<Rightarrow> 'c mc_env \<Rightarrow> bool" where
  "env_keeps e e' \<longleftrightarrow> reg_desc (e_reg e') = reg_desc (e_reg e) \<and> e_released e' = e_released e
     \<and> (rng_wf (e_rng e) \<longrightarrow> rng_wf (e_rng e')) \<and> (trees_ok e \<longrightarrow> trees_ok e')"

definition call_keeps :: "'c core_call \<Rightarrow> bool" where
  "call_keeps f \<longleftrightarrow> (\<forall>codec e rc codec' e'. f codec e = (rc, codec', e') \<longrightarrow> (\<exists>x. codec' = codec\<lparr>m_lastError := x\<rparr>) \<and> env_keeps e e')"

definition core_keeps :: "'c core \<Rightarrow> bool" where
  "core_keeps core \<longleftrightarrow> (\<forall>n. call_keeps (x_runVacuum core n)) \<and> call_keeps (x_beginTrans core) \<and> (\<forall>n. call_keeps (x_rewritePage core n))
     \<and> call_keeps (x_commit core) \<and> call_keeps (x_rollback core)
     \<and> (\<forall>n r b. pg_header (snd (x_setPageSize core n r b)) = pg_header b)"

lemma env_keeps_refl [simp]: "env_keeps e e"
  by (simp add: env_keeps_def)

lemma env_keeps_trans: "env_keeps e e' \<Longrightarrow> env_keeps e' e'' \<Longrightarrow> env_keeps e e''"
  by (simp add: env_keeps_def)

lemma call_keepsD:
  assumes "call_keeps f" and "f codec e = (rc, codec', e')"
  shows "\<exists>x. codec' = codec\<lparr>m_lastError := x\<rparr>" and "env_keeps e e'"
  using assms by (auto simp: call_keeps_def)

lemma last_error_trans:
  "\<exists>x. codec' = codec\<lparr>m_lastError := x\<rparr> \<Longrightarrow> \<exists>x. codec'' = codec'\<lparr>m_lastError := x\<rparr> \<Longrightarrow> \<exists>x. codec'' = codec\<lparr>m_lastError := x\<rparr>"
  by auto

lemma call_keeps_skip: "call_keeps (\<lambda>codec e. (rc, codec, e))"
proof -
  have same: "\<exists>x. codec = codec\<lparr>m_lastError := x\<rparr>" for codec :: "'c Codec" by (rule exI [of _ "m_lastError codec"]) simp
  show ?thesis unfolding call_keeps_def prod.inject by (intro allI impI, elim conjE, hypsubst) (intro conjI same env_keeps_refl)
qed

text \<open>One call after the other keeps what both keep.\<close>

lemma call_keeps_seq:
  assumes "call_keeps f" and "\<And>rc. call_keeps (g rc)"
  shows "call_keeps (\<lambda>codec e. case f codec e of (rc, codec, e) \<Rightarrow> g rc codec e)"
  unfolding call_keeps_def
proof (intro allI impI)
  fix codec e rc codec' e'
  assume run: "(case f codec e of (rc, codec, e) \<Rightarrow> g rc codec e) = (rc, codec', e')"
  obtain rc1 codec1 e1 where f: "f codec e = (rc1, codec1, e1)" using prod_cases3 by blast
  then have g: "g rc1 codec1 e1 = (rc, codec', e')" using run by simp
  show "(\<exists>x. codec' = codec\<lparr>m_lastError := x\<rparr>) \<and> env_keeps e e'"
    using last_error_trans [OF call_keepsD(1) [OF assms(1) f] call_keepsD(1) [OF assms(2) g]]
      env_keeps_trans [OF call_keepsD(2) [OF assms(1) f] call_keepsD(2) [OF assms(2) g]] by blast
qed

lemma call_keeps_if: "call_keeps f \<Longrightarrow> call_keeps g \<Longrightarrow> call_keeps (\<lambda>codec e. if b then f codec e else g codec e)"
  by (cases b) simp_all

lemma rewrite_pages_keeps: "core_keeps core \<Longrightarrow> call_keeps (rewrite_pages core nSkip ns rc)"
proof (induction ns arbitrary: rc)
  case Nil
  have "rewrite_pages core nSkip [] rc = (\<lambda>codec e. (rc, codec, e))" by (intro ext) simp
  then show ?case by (simp add: call_keeps_skip)
next
  case (Cons n ns)
  have "rewrite_pages core nSkip (n # ns) rc =
      (if rc \<noteq> SQLITE_OK then (\<lambda>codec e. (rc, codec, e)) else if n = nSkip then rewrite_pages core nSkip ns rc
       else (\<lambda>codec e. case x_rewritePage core n codec e of (rc, codec, e) \<Rightarrow> rewrite_pages core nSkip ns rc codec e))"
    by (intro ext) simp
  moreover have "call_keeps (\<lambda>codec e. case x_rewritePage core n codec e of (rc, codec, e) \<Rightarrow> rewrite_pages core nSkip ns rc codec e)"
    using Cons by (intro call_keeps_seq) (simp_all add: core_keeps_def)
  ultimately show ?case using Cons by (simp add: call_keeps_skip)
qed

lemma rekey_pages_keeps:
  assumes "core_keeps core"
  shows "call_keeps (rekey_pages core bt)"
  unfolding call_keeps_def
proof (intro allI impI)
  fix codec e rc codec' e'
  assume run: "rekey_pages core bt codec e = (rc, codec', e')"
  note core = assms [unfolded core_keeps_def]
  obtain rc1 codec1 e1 where 1: "x_beginTrans core codec e = (rc1, codec1, e1)" using prod_cases3 by blast
  let ?loop = "\<lambda>codec e. if rc1 = SQLITE_OK then rewrite_pages core (WX_PAGER_MJ_PGNO (bt_pageSize (e_bts e1 ! bt))) [1..<x_pageCount core + 1] rc1 codec e else (rc1, codec, e)"
  obtain rc2 codec2 e2 where 2: "?loop codec1 e1 = (rc2, codec2, e2)" using prod_cases3 by blast
  let ?commit = "\<lambda>codec e. if rc2 = SQLITE_OK then x_commit core codec e else (rc2, codec, e)"
  obtain rc3 codec3 e3 where 3: "?commit codec2 e2 = (rc3, codec3, e3)" using prod_cases3 by blast
  let ?undo = "\<lambda>codec e. if rc3 \<noteq> SQLITE_OK then (case x_rollback core codec e of (_, codec, e) \<Rightarrow> (rc3, codec, e)) else (rc3, codec, e)"
  have 4: "?undo codec3 e3 = (rc, codec', e')"
    using run unfolding rekey_pages_def Let_def 1 prod.case 2 3 by (simp add: split_def split: if_splits)
  have k1: "call_keeps (x_beginTrans core)" using core by blast
  have k2: "call_keeps ?loop" by (rule call_keeps_if [OF rewrite_pages_keeps [OF assms] call_keeps_skip])
  have k3: "call_keeps ?commit" using core by (intro call_keeps_if call_keeps_skip) blast
  have k4: "call_keeps ?undo" using core by (intro call_keeps_if call_keeps_skip call_keeps_seq) (simp_all add: call_keeps_skip)
  show "(\<exists>x. codec' = codec\<lparr>m_lastError := x\<rparr>) \<and> env_keeps e e'"
    using last_error_trans [OF call_keepsD(1) [OF k1 1] last_error_trans [OF call_keepsD(1) [OF k2 2]
        last_error_trans [OF call_keepsD(1) [OF k3 3] call_keepsD(1) [OF k4 4]]]]
      env_keeps_trans [OF call_keepsD(2) [OF k1 1] env_keeps_trans [OF call_keepsD(2) [OF k2 2]
        env_keeps_trans [OF call_keepsD(2) [OF k3 3] call_keepsD(2) [OF k4 4]]]] by blast
qed

section \<open>The outcome of a change of the key\<close>

context cipher_table
begin

lemma env_ok_keeps: "env_keeps e e' \<Longrightarrow> env_ok e \<Longrightarrow> env_ok e'"
  by (simp add: env_keeps_def env_ok_def trees_ok_def)

lemma codec_ok_fields [simp]:
  "codec_ok (codec\<lparr>m_lastError := x\<rparr>) = codec_ok codec" "codec_ok (codec\<lparr>m_readReserved := r\<rparr>) = codec_ok codec"
  "codec_ok (codec\<lparr>m_writeReserved := r\<rparr>) = codec_ok codec" "codec_ok (codec\<lparr>m_hasWriteCipher := b\<rparr>) = codec_ok codec"
  "codec_ok (codec\<lparr>m_hasReadCipher := b\<rparr>) = codec_ok codec" "codec_ok (codec\<lparr>m_isEncrypted := b\<rparr>) = codec_ok codec"
  "codec_ok (codec\<lparr>m_pageSize := p\<rparr>) = codec_ok codec" "codec_ok (codec\<lparr>m_reserved := p\<rparr>) = codec_ok codec"
  "codec_ok (codec\<lparr>m_btShared := t\<rparr>) = codec_ok codec"
  by (simp_all add: codec_ok_def)

lemma mcAdjustBtree_ok:
  assumes "core_keeps core" "mcAdjustBtree core bt n r l e = Some (rc, e')" "env_ok e"
  shows "env_ok e'"
proof -
  have header: "pg_header (snd (x_setPageSize core n r b)) = pg_header b" for n r b using assms(1) by (simp add: core_keeps_def)
  have "\<exists>b. e' = e\<lparr>e_bts := (e_bts e)[bt := b]\<rparr> \<and> bt < length (e_bts e) \<and> pg_header b = pg_header (e_bts e ! bt)"
  proof (cases "e' = e")
    case True
    then show ?thesis using assms(2) by (intro exI [of _ "e_bts e ! bt"]) (auto simp: mcAdjustBtree_def split: if_splits)
  next
    case False
    then show ?thesis using assms(2) header
      by (auto simp: mcAdjustBtree_def Let_def split_def split: if_splits)
  qed
  then obtain b where e': "e' = e\<lparr>e_bts := (e_bts e)[bt := b]\<rparr>" "bt < length (e_bts e)" "pg_header b = pg_header (e_bts e ! bt)" by blast
  have "\<forall>h. pg_header b = Some h \<longrightarrow> 16 \<le> length h" using assms(3) nth_mem [OF e'(2)] e'(3) unfolding env_ok_def by metis
  then show ?thesis using assms(3) set_update_subset_insert [of "e_bts e" bt b] by (auto simp: e'(1) env_ok_def)
qed

lemma enforce_sizes_ok:
  assumes "core_keeps core" "enforce_sizes core bt codec e = Some (codec', e')" "env_ok e"
  shows "env_ok e' \<and> (\<exists>p r. codec' = codec\<lparr>m_pageSize := p, m_reserved := r\<rparr>)"
  using assms(2) mcAdjustBtree_ok [OF assms(1) _ assms(3)]
  by (auto simp: enforce_sizes_def bind_eq_Some_conv sqlite3mcCodecSizeChange_def)

lemma settled_codec:
  assumes core: "core_keeps core" and run: "rekey_settle core bt rc codec e = Some (codec', e')" and ok: "codec_ok codec" "env_ok e"
  shows "codec_ok codec' \<and> env_ok e'
    \<and> (rc = SQLITE_OK \<longrightarrow> m_hasWriteCipher codec \<longrightarrow> m_isEncrypted codec' = m_isEncrypted codec \<and> m_hasReadCipher codec' \<and> m_hasWriteCipher codec'
        \<and> m_writeCipherType codec' = m_writeCipherType codec \<and> m_writeCipher codec' = m_writeCipher codec
        \<and> (m_readCipher codec' \<noteq> None \<longrightarrow> matched codec'))
    \<and> (rc = SQLITE_OK \<longrightarrow> \<not> m_hasWriteCipher codec \<longrightarrow> \<not> m_isEncrypted codec')
    \<and> (rc \<noteq> SQLITE_OK \<longrightarrow> m_hasReadCipher codec \<longrightarrow> m_isEncrypted codec' = m_isEncrypted codec \<and> m_hasReadCipher codec'
        \<and> m_hasWriteCipher codec' = m_hasWriteCipher codec \<and> m_readCipher codec' = m_readCipher codec \<and> m_readCipherType codec' = m_readCipherType codec
        \<and> (m_writeCipher codec' \<noteq> None \<longrightarrow> m_writeCipherType codec' = m_readCipherType codec \<and> same_cipher (m_writeCipher codec') (m_readCipher codec)))
    \<and> (rc \<noteq> SQLITE_OK \<longrightarrow> \<not> m_hasReadCipher codec \<longrightarrow> \<not> m_isEncrypted codec')"
proof -
  consider (success) "rc = SQLITE_OK" "m_hasWriteCipher codec" | (failure) "rc \<noteq> SQLITE_OK" "m_hasReadCipher codec"
    | (off) "rc = SQLITE_OK \<and> \<not> m_hasWriteCipher codec \<or> rc \<noteq> SQLITE_OK \<and> \<not> m_hasReadCipher codec" by blast
  then show ?thesis
  proof cases
    case success
    then obtain rc1 codec1 e1 where c: "sqlite3mcCopyCipher codec False e = Some (rc1, codec1, e1)"
      "enforce_sizes core bt (codec1\<lparr>m_hasReadCipher := True\<rparr>) e1 = Some (codec', e')"
      using run by (auto simp: rekey_settle_def bind_eq_Some_conv)
    note ok1 = CopyCipher_ok [OF c(1) ok]
    obtain p r where p: "codec' = codec1\<lparr>m_hasReadCipher := True, m_pageSize := p, m_reserved := r\<rparr>" "env_ok e'"
      using enforce_sizes_ok [OF core c(2)] ok1 by auto
    from c(1) ok show ?thesis
    proof (cases rule: CopyCipher_cases)
      case (to_read ty k)
      then show ?thesis using success p ok1 by (auto simp: codec_ok_def matched_def)
    qed simp
  next
    case failure
    then obtain rc1 where c: "sqlite3mcCopyCipher codec True e = Some (rc1, codec', e')"
      using run by (auto simp: rekey_settle_def bind_eq_Some_conv)
    from c ok show ?thesis
    proof (cases rule: CopyCipher_cases)
      case (to_write ty k)
      then show ?thesis using failure CopyCipher_ok [OF c ok] by auto
    qed simp
  next
    case off
    then show ?thesis using run ok by (auto simp: rekey_settle_def)
  qed
qed

end

text \<open>What the rewriting of the content leaves of a codec: its ciphers and flags.\<close>

definition same_keys :: "'c Codec \<Rightarrow> 'c Codec \<Rightarrow> bool" where
  "same_keys codec codec' \<longleftrightarrow> m_isEncrypted codec' = m_isEncrypted codec \<and> m_hasReadCipher codec' = m_hasReadCipher codec
     \<and> m_readCipherType codec' = m_readCipherType codec \<and> m_readCipher codec' = m_readCipher codec
     \<and> m_hasWriteCipher codec' = m_hasWriteCipher codec \<and> m_writeCipherType codec' = m_writeCipherType codec
     \<and> m_writeCipher codec' = m_writeCipher codec \<and> m_keySalt codec' = m_keySalt codec"

lemma same_keys_last_error: "\<exists>x. codec' = codec\<lparr>m_readReserved := a, m_writeReserved := b\<rparr>\<lparr>m_lastError := x\<rparr> \<Longrightarrow> same_keys codec codec'"
  "\<exists>x. codec' = codec\<lparr>m_lastError := x\<rparr> \<Longrightarrow> same_keys codec codec'"
  by (auto simp: same_keys_def)

lemma vacuum_keys:
  assumes "core_keeps core" and "x_runVacuum core n (codec\<lparr>m_readReserved := a, m_writeReserved := b\<rparr>) e = (rc, codec', e')"
  shows "same_keys codec codec'" and "env_keeps e e'"
proof -
  have "call_keeps (x_runVacuum core n)" using assms(1) by (simp add: core_keeps_def)
  from call_keepsD [OF this assms(2)] show "same_keys codec codec'" "env_keeps e e'" using same_keys_last_error(1) by blast+
qed

lemma rekey_content_keys:
  assumes "core_keeps core" and "rekey_content core bt n r codec e = (rc, codec', e')"
  shows "same_keys codec codec' \<and> env_keeps e e'"
proof (cases "n = r")
  case True
  then have "rekey_pages core bt codec e = (rc, codec', e')" using assms(2) by (simp add: rekey_content_def)
  from call_keepsD [OF rekey_pages_keeps [OF assms(1)] this] show ?thesis using same_keys_last_error(2) by blast
next
  case False
  then have "x_runVacuum core r (codec\<lparr>m_readReserved := n, m_writeReserved := r\<rparr>) e = (rc, codec', e')" using assms(2) by (simp add: rekey_content_def)
  then show ?thesis using vacuum_keys [OF assms(1)] by blast
qed

lemma rekey_decrypt_keys:
  assumes "core_keeps core" and "rekey_decrypt core bt n codec e = (rc, codec', e')"
  shows "same_keys (codec\<lparr>m_hasWriteCipher := False\<rparr>) codec' \<and> env_keeps e e'"
proof (cases "0 < n")
  case True
  then have "x_runVacuum core 0 ((codec\<lparr>m_hasWriteCipher := False\<rparr>)\<lparr>m_readReserved := n, m_writeReserved := 0\<rparr>) e = (rc, codec', e')"
    using assms(2) by (simp add: rekey_decrypt_def)
  then show ?thesis using vacuum_keys [OF assms(1)] by blast
next
  case False
  then have "rekey_pages core bt (codec\<lparr>m_hasWriteCipher := False\<rparr>) e = (rc, codec', e')" using assms(2) by (simp add: rekey_decrypt_def)
  from call_keepsD [OF rekey_pages_keeps [OF assms(1)] this] show ?thesis using same_keys_last_error(2) by blast
qed

lemma rekey_reencrypt_keys:
  assumes "core_keeps core" and "rekey_reencrypt core bt p n codec e = Some (rc, codec', e')"
  shows "same_keys codec codec' \<and> env_keeps e e'"
proof -
  have "same_keys codec codec" by (simp add: same_keys_def)
  then show ?thesis using assms(2) rekey_content_keys [OF assms(1)]
    by (auto simp: rekey_reencrypt_def bind_eq_Some_conv split: if_splits)
qed

text \<open>The result for an encrypted database.\<close>

definition key_replaced :: "('c option \<Rightarrow> 'c option \<Rightarrow> bool) \<Rightarrow> 'c Codec option \<Rightarrow> bool" where
  "key_replaced same attached \<longleftrightarrow> (\<exists>k. attached = Some k \<and> m_isEncrypted k \<and> m_hasReadCipher k \<and> m_hasWriteCipher k
     \<and> (m_readCipher k \<noteq> None \<longrightarrow> m_readCipherType k = m_writeCipherType k \<and> same (m_readCipher k) (m_writeCipher k)))"

definition key_kept :: "('c option \<Rightarrow> 'c option \<Rightarrow> bool) \<Rightarrow> 'c Codec \<Rightarrow> 'c Codec option \<Rightarrow> bool" where
  "key_kept same codec attached \<longleftrightarrow> (\<exists>k. attached = Some k \<and> m_isEncrypted k \<and> m_hasReadCipher k
     \<and> m_readCipher k = m_readCipher codec \<and> m_readCipherType k = m_readCipherType codec
     \<and> (m_writeCipher k \<noteq> None \<longrightarrow> m_writeCipherType k = m_readCipherType codec \<and> same (m_writeCipher k) (m_readCipher codec)))"

text \<open>
  The codec \<open>k\<close> writes with the key: its cipher object, of the type that the connection selects, has been allocated with the parameters
  of the connection and has got the key by the method of its descriptor, with the key salt of the codec or that of the database file.
\<close>

definition cipher_parameters :: "'c Codec \<Rightarrow> 'c mc_env \<Rightarrow> mc_config option" where
  "cipher_parameters codec e = do {
     (_, e) \<leftarrow> global_parameter (m_db codec) ''hmac_check'' e;
     (_, e) \<leftarrow> global_parameter (m_db codec) ''mc_legacy_wal'' e;
     Some (reg_cfg (e_reg e))
   }"

definition made_with :: "bytes \<Rightarrow> int \<Rightarrow> 'c Codec \<Rightarrow> 'c mc_env \<Rightarrow> int \<Rightarrow> 'c option \<Rightarrow> bool" where
  "made_with key rekey codec e ty cipher \<longleftrightarrow>
     (\<exists>allocate s c0 s' generate salt c r. cipher_method m_allocateCipher e ty = Some allocate \<and> cipher_method m_generateKey e ty = Some generate
        \<and> cipher_parameters codec e = Some s \<and> allocate (m_db codec) s = Some (Some c0, s')
        \<and> (if m_hasKeySalt codec then Some (Some (m_keySalt codec)) else mcReadDatabaseHeader codec e) = Some salt
        \<and> generate c0 key rekey salt (e_rng e) = Some (c, r) \<and> cipher = Some c)"

definition keyed_with :: "'c core \<Rightarrow> bytes \<Rightarrow> 'c Codec \<Rightarrow> 'c mc_env \<Rightarrow> 'c Codec \<Rightarrow> bool" where
  "keyed_with core key codec e k \<longleftrightarrow> m_writeCipherType k = fst (cipher_type e)
     \<and> made_with key (if x_usesWal core then 2 else 1) codec (snd (cipher_type e)) (m_writeCipherType k) (m_writeCipher k)"

lemma global_parameter_released:
  "global_parameter db n (e\<lparr>e_released := x\<rparr>) = map_option (\<lambda>(v, e'). (v, e'\<lparr>e_released := x\<rparr>)) (global_parameter db n e)"
  by (auto simp: global_parameter_def split: bind_splits)

lemma global_parameter_frame:
  "global_parameter db n e = Some (v, e') \<Longrightarrow> \<exists>s. e' = e\<lparr>e_reg := (e_reg e)\<lparr>reg_cfg := s\<rparr>\<rparr>"
  by (auto simp: global_parameter_def bind_eq_Some_conv)

lemma free_opt_frame: "free_opt ty c e = Some e' \<Longrightarrow> \<exists>x. e' = e\<lparr>e_released := x\<rparr>"
proof -
  have "\<exists>x. e = e\<lparr>e_released := x\<rparr>" by (rule exI [of _ "e_released e"]) simp
  moreover assume "free_opt ty c e = Some e'"
  ultimately show ?thesis by (cases c) (auto simp: free_opt_def free_cipher_def bind_eq_Some_conv)
qed

lemma SetupWriteCipher_made:
  assumes "sqlite3mcSetupWriteCipher codec ty key wal e = Some (SQLITE_OK, codec', e')"
  shows "m_writeCipherType codec' = ty \<and> made_with key (if wal then 2 else 1) codec e ty (m_writeCipher codec')"
proof -
  have ty: "\<not> ty \<le> 0" using assms by (auto simp: sqlite3mcSetupWriteCipher_def)
  obtain e1 h e2 w e3 c e4 codec1 where steps: "free_opt (m_writeCipherType codec) (m_writeCipher codec) e = Some e1"
      "global_parameter (m_db codec) ''hmac_check'' e1 = Some (h, e2)" "global_parameter (m_db codec) ''mc_legacy_wal'' e2 = Some (w, e3)"
      "allocate_cipher ty (m_db codec) e3 = Some (Some c, e4)"
      "codec1 = codec\<lparr>m_isEncrypted := True, m_hmacCheck := h, m_walLegacy := w, m_hasWriteCipher := True, m_writeCipherType := ty, m_writeCipher := Some c\<rparr>"
      "sqlite3mcGenerateWriteKey codec1 key (key_salt codec1) wal e4 = Some (codec', e')"
    using assms ty by (auto simp: sqlite3mcSetupWriteCipher_def bind_eq_Some_conv Let_def split: if_splits)
  obtain x where x: "e1 = e\<lparr>e_released := x\<rparr>" using free_opt_frame [OF steps(1)] ..
  obtain e2' where e2: "global_parameter (m_db codec) ''hmac_check'' e = Some (h, e2')" "e2 = e2'\<lparr>e_released := x\<rparr>"
    using steps(2) by (auto simp: x global_parameter_released)
  obtain e3' where e3: "global_parameter (m_db codec) ''mc_legacy_wal'' e2' = Some (w, e3')" "e3 = e3'\<lparr>e_released := x\<rparr>"
    using steps(3) by (auto simp: e2(2) global_parameter_released)
  obtain s where s: "e3' = e\<lparr>e_reg := (e_reg e)\<lparr>reg_cfg := s\<rparr>\<rparr>"
    using global_parameter_frame [OF e2(1)] global_parameter_frame [OF e3(1)] by auto
  have params: "cipher_parameters codec e = Some s" by (simp add: cipher_parameters_def e2(1) e3(1) s)
  obtain allocate s' where a: "cipher_method m_allocateCipher e ty = Some allocate" "allocate (m_db codec) s = Some (Some c, s')"
      "e4 = e3\<lparr>e_reg := (e_reg e3)\<lparr>reg_cfg := s'\<rparr>\<rparr>"
    using steps(4) by (auto simp: allocate_cipher_def e3(2) s bind_eq_Some_conv cipher_method_def descriptor_def split: if_splits)
  have frame: "cipher_method m_generateKey e4 (m_writeCipherType codec1) = cipher_method m_generateKey e ty" "e_rng e4 = e_rng e"
      "mcReadDatabaseHeader codec1 e4 = mcReadDatabaseHeader codec e"
    by (simp_all add: a(3) e3(2) s steps(5) cipher_method_def descriptor_def mcReadDatabaseHeader_def split: option.split)
  obtain generate salt c' r where g: "cipher_method m_generateKey e ty = Some generate"
      "(if m_hasKeySalt codec then Some (Some (m_keySalt codec)) else mcReadDatabaseHeader codec e) = Some salt"
      "generate c key (if wal then 2 else 1) salt (e_rng e) = Some (c', r)" "codec' = codec1\<lparr>m_writeCipher := Some c'\<rparr>"
    using steps(6) unfolding sqlite3mcGenerateWriteKey_def generate_key_def key_salt_def frame bind_eq_Some_conv
    by (auto simp: steps(5) split: if_splits)
  show ?thesis
    unfolding made_with_def using params a(1,2) g by (simp add: steps(5))
qed

context cipher_table
begin

lemma same_keys_ok: "same_keys codec codec' \<Longrightarrow> codec_ok codec \<Longrightarrow> codec_ok codec'"
  by (simp add: same_keys_def codec_ok_def)

lemma finished_codec:
  assumes core: "core_keeps core" and run: "rekey_finish core bt rc True codec e = Some (rc', att, lost, e')" and ok: "codec_ok codec" "env_ok e"
    and codec: "m_isEncrypted codec" "m_hasReadCipher codec"
  shows "rc' = rc \<and> lost = None \<and> (rc = SQLITE_OK \<longrightarrow> m_hasWriteCipher codec \<longrightarrow> key_replaced same_cipher att
        \<and> (\<exists>k. att = Some k \<and> m_writeCipherType k = m_writeCipherType codec \<and> m_writeCipher k = m_writeCipher codec))
    \<and> (rc = SQLITE_OK \<longrightarrow> \<not> m_hasWriteCipher codec \<longrightarrow> att = None)
    \<and> (rc \<noteq> SQLITE_OK \<longrightarrow> key_kept same_cipher codec att \<and> (\<exists>k. att = Some k \<and> m_hasWriteCipher k = m_hasWriteCipher codec))"
proof -
  obtain k e1 where settle: "rekey_settle core bt rc codec e = Some (k, e1)" using run by (auto simp: rekey_finish_def bind_eq_Some_conv)
  note s = settled_codec [OF core settle ok]
  define k' where "k' = k\<lparr>m_readReserved := -1, m_writeReserved := -1\<rparr>"
  have rest: "(if m_isEncrypted k' then Some (Some k', e1) else set_codec None (Some k') e1) = Some (att, e')" "rc' = rc" "lost = None"
    using run by (auto simp: rekey_finish_def settle k'_def Let_def bind_eq_Some_conv split: if_splits)
  have off: "att = None" if "\<not> m_isEncrypted k'" using rest(1) that by (auto simp: set_codec_def bind_eq_Some_conv)
  have on: "att = Some k'" if "m_isEncrypted k'" using rest(1) that by simp
  show ?thesis
    using s codec off on rest(2,3) by (auto simp: key_replaced_def key_kept_def k'_def matched_def)
qed

lemma rekey_encrypted:
  assumes core: "core_keeps core" and ok: "codec_ok codec" "env_ok e" and codec: "m_isEncrypted codec" "m_hasReadCipher codec"
    and nm: "n_supported nm" "n_found nm" "n_file nm \<noteq> None"
    and run: "sqlite3_rekey_v2 core nm zKey nKey (Some codec) e = Some (rc, att, lost, e')"
  defines "noKey \<equiv> zKey = None \<or> key_length zKey nKey = 0"
  shows "lost = None \<and> (rc = SQLITE_OK \<longrightarrow> (if noKey then att = None else key_replaced same_cipher att
        \<and> (\<exists>k. att = Some k \<and> keyed_with core (take (nat (key_length zKey nKey)) (the zKey)) codec e k)))
    \<and> (rc \<noteq> SQLITE_OK \<longrightarrow> key_kept same_cipher codec att \<and> (noKey \<longrightarrow> (\<exists>k. att = Some k \<and> \<not> m_hasWriteCipher k)))"
proof (cases noKey)
  case True
  let ?b = "e_bts e ! n_bt nm"
  obtain rc1 codec1 e1 where d: "rekey_decrypt core (n_bt nm) (bt_pageSize ?b - bt_usableSize ?b) codec e = (rc1, codec1, e1)" using prod_cases3 by blast
  have fin: "rekey_finish core (n_bt nm) rc1 True codec1 e1 = Some (rc, att, lost, e')"
    using run nm codec True by (auto simp: sqlite3_rekey_v2_def Let_def d noKey_def split: if_splits)
  have keys: "same_keys (codec\<lparr>m_hasWriteCipher := False\<rparr>) codec1" "env_ok e1" using rekey_decrypt_keys [OF core d] env_ok_keeps ok(2) by blast+
  have ok1: "codec_ok codec1" using same_keys_ok [OF keys(1)] ok(1) by simp
  have f: "m_isEncrypted codec1" "m_hasReadCipher codec1" "\<not> m_hasWriteCipher codec1" "m_readCipher codec1 = m_readCipher codec"
    "m_readCipherType codec1 = m_readCipherType codec" using keys(1) codec by (simp_all add: same_keys_def)
  show ?thesis using finished_codec [OF core fin ok1 keys(2) f(1,2)] f(3-5) True by (auto simp: key_kept_def)
next
  case False
  let ?b = "e_bts e ! n_bt nm"
  obtain ty e0 where ty: "cipher_type e = (ty, e0)" by fastforce
  have e0: "env_ok e0" "e_bts e0 = e_bts e" using ty ok(2) by (auto simp: cipher_type_def env_ok_def split_beta)
  obtain z where z: "zKey = Some z" using False by (auto simp: noKey_def)
  obtain rc1 codec1 e1 where set_up: "sqlite3mcSetupWriteCipher codec ty (take (nat (key_length zKey nKey)) z) (x_usesWal core) e0 = Some (rc1, codec1, e1)"
    and more: "do { (rc, codec, e') \<leftarrow> (if rc1 = SQLITE_OK then rekey_reencrypt core (n_bt nm) (bt_pageSize ?b) (bt_pageSize ?b - bt_usableSize ?b) codec1 e1 else Some (rc1, codec1, e1));
      rekey_finish core (n_bt nm) rc True codec e' } = Some (rc, att, lost, e')"
    using run nm codec False z by (auto simp: sqlite3_rekey_v2_def Let_def ty noKey_def bind_eq_Some_conv split: if_splits)
  obtain rc2 codec2 e2 where re: "(if rc1 = SQLITE_OK then rekey_reencrypt core (n_bt nm) (bt_pageSize ?b) (bt_pageSize ?b - bt_usableSize ?b) codec1 e1 else Some (rc1, codec1, e1))
      = Some (rc2, codec2, e2)" and fin: "rekey_finish core (n_bt nm) rc2 True codec2 e2 = Some (rc, att, lost, e')"
    using more by (auto simp: bind_eq_Some_conv)
  note ok1 = SetupWriteCipher_ok [OF set_up ok(1) e0(1)]
  have f1: "m_isEncrypted codec1" "rc1 = SQLITE_OK \<Longrightarrow> m_hasWriteCipher codec1"
    using set_up codec by (auto simp: sqlite3mcSetupWriteCipher_def sqlite3mcGenerateWriteKey_def Let_def bind_eq_Some_conv split: if_splits)
  have keys: "same_keys codec1 codec2 \<and> env_keeps e1 e2"
    using re rekey_reencrypt_keys [OF core] by (cases "rc1 = SQLITE_OK") (auto simp: same_keys_def)
  have ok2: "codec_ok codec2" "env_ok e2" using keys ok1 same_keys_ok env_ok_keeps by blast+
  have f2: "m_isEncrypted codec2" "m_hasReadCipher codec2" "m_readCipher codec2 = m_readCipher codec" "m_readCipherType codec2 = m_readCipherType codec"
    using keys f1 ok1 codec by (simp_all add: same_keys_def)
  have w: "rc2 = SQLITE_OK \<Longrightarrow> m_hasWriteCipher codec2" using keys f1(2) re by (auto simp: same_keys_def split: if_splits)
  have new: "keyed_with core (take (nat (key_length zKey nKey)) (the zKey)) codec e k"
    if "rc2 = SQLITE_OK" "m_writeCipherType k = m_writeCipherType codec2" "m_writeCipher k = m_writeCipher codec2" for k
  proof -
    have rc1: "rc1 = SQLITE_OK" using re that(1) by (auto split: if_splits)
    have "m_writeCipherType codec2 = m_writeCipherType codec1" "m_writeCipher codec2 = m_writeCipher codec1"
      using keys by (simp_all add: same_keys_def)
    then show ?thesis
      using SetupWriteCipher_made [OF set_up [unfolded rc1]] that(2,3) by (simp add: keyed_with_def ty z)
  qed
  show ?thesis using finished_codec [OF core fin ok2 f2(1,2)] f2(3,4) w new False by (auto simp: key_kept_def)
qed

end

section \<open>The outcome of setting a key\<close>

context cipher_table
begin

lemma freed_ok: "sqlite3mcCodecFree codec e = Some e' \<Longrightarrow> (\<forall>c. codec = Some c \<longrightarrow> codec_ok c) \<Longrightarrow> env_ok e \<Longrightarrow> env_ok e'"
  by (auto simp: sqlite3mcCodecFree_def dest: CodecTerm_ok split: option.splits)

lemma set_codec_ok:
  "set_codec codec prev e = Some (att, e') \<Longrightarrow> (\<forall>c. prev = Some c \<longrightarrow> codec_ok c) \<Longrightarrow> env_ok e \<Longrightarrow> att = codec \<and> env_ok e'"
  by (auto simp: set_codec_def bind_eq_Some_conv split: option.splits if_splits dest: report_ok freed_ok)

lemma env_ok_cfg [simp]: "env_ok (e\<lparr>e_reg := (e_reg e)\<lparr>reg_cfg := s\<rparr>\<rparr>) = env_ok e"
  by (simp add: env_ok_def)

lemma cipher_type_ok: "cipher_type e = (ty, e') \<Longrightarrow> env_ok e \<Longrightarrow> env_ok e'"
  by (auto simp: cipher_type_def split_beta)

lemma set_key_salt_ok: "codec_ok codec \<Longrightarrow> codec_ok (set_key_salt salt codec)"
  by (auto simp: set_key_salt_def codec_ok_def sqlite3mcConvertHex2Bin_def split: option.splits)

lemma attach_own_key_ok:
  assumes core: "core_keeps core" and run: "attach_own_key core nm key attached codec e = Some (rc, att, e')"
    and ok: "codec_ok codec" "env_ok e" "\<And>c. attached = Some c \<Longrightarrow> codec_ok c"
  shows "env_ok e' \<and> (rc \<noteq> SQLITE_OK \<longrightarrow> att = attached)
    \<and> (rc = SQLITE_OK \<longrightarrow> (\<exists>k. att = Some k \<and> codec_ok k \<and> m_isEncrypted k \<and> matched k \<and> \<not> m_hasKeySalt k \<and> m_keySalt k = replicate 16 0))"
proof -
  define codec0 where "codec0 = (if n_file nm \<noteq> None then set_key_salt (n_cipherSalt nm) codec else codec)"
  obtain rc0 s where s: "(if n_index nm > 0 then sqlite3mcConfigureFromUri (n_file nm) False (reg_cfg (e_reg e)) else (SQLITE_OK, reg_cfg (e_reg e))) = (rc0, s)" by fastforce
  define e0 where "e0 = e\<lparr>e_reg := (e_reg e)\<lparr>reg_cfg := s\<rparr>\<rparr>"
  obtain ty e1 where ty: "cipher_type e0 = (ty, e1)" by fastforce
  have ok0: "codec_ok (codec0\<lparr>m_btShared := Some (n_bt nm)\<rparr>)" "codec_ok codec0" "env_ok e1" "env_ok e0"
    using ok set_key_salt_ok cipher_type_ok [OF ty] by (auto simp: codec0_def e0_def)
  obtain rc2 codec2 e2 where mid: "(if rc0 = SQLITE_OK then do {
          (rc, codec, e) \<leftarrow> sqlite3mcCodecSetup (codec0\<lparr>m_btShared := Some (n_bt nm)\<rparr>) ty key e1;
          Some (rc, sqlite3mcClearKeySalt codec, e)
        } else Some (rc0, codec0, e0)) = Some (rc2, codec2, e2)"
    and last: "(if rc2 = SQLITE_OK then do {
       (codec, e) \<leftarrow> enforce_sizes core (n_bt nm) codec2 e2;
       (attached, e) \<leftarrow> set_codec (Some codec) attached e;
       Some (SQLITE_OK, attached, e)
     } else do { e \<leftarrow> sqlite3mcCodecFree (Some codec2) e2; Some (rc2, attached, e) }) = Some (rc, att, e')"
    using run unfolding attach_own_key_def Let_def codec0_def [symmetric] s prod.case e0_def [symmetric] ty
    by (auto simp: bind_eq_Some_conv)
  have 2: "codec_ok codec2 \<and> env_ok e2 \<and> (rc2 = SQLITE_OK \<longrightarrow> m_isEncrypted codec2 \<and> matched codec2 \<and> \<not> m_hasKeySalt codec2 \<and> m_keySalt codec2 = replicate 16 0)"
  proof (cases "rc0 = SQLITE_OK")
    case True
    then obtain codec3 where set_up: "sqlite3mcCodecSetup (codec0\<lparr>m_btShared := Some (n_bt nm)\<rparr>) ty key e1 = Some (rc2, codec3, e2)" "codec2 = sqlite3mcClearKeySalt codec3"
      using mid by (auto simp: bind_eq_Some_conv)
    from CodecSetup_ok [OF set_up(1) ok0(1,3)] show ?thesis
      by (auto simp: set_up(2) ClearKeySalt_ok sqlite3mcClearKeySalt_def codec_ok_def matched_def)
  next
    case False
    then show ?thesis using mid ok0 by auto
  qed
  show ?thesis
  proof (cases "rc2 = SQLITE_OK")
    case True
    then obtain codec3 e3 where 3: "enforce_sizes core (n_bt nm) codec2 e2 = Some (codec3, e3)" "set_codec (Some codec3) attached e3 = Some (att, e')" "rc = SQLITE_OK"
      using last by (auto simp: bind_eq_Some_conv)
    obtain p r where k: "codec3 = codec2\<lparr>m_pageSize := p, m_reserved := r\<rparr>" "env_ok e3"
      using enforce_sizes_ok [OF core 3(1)] 2 by blast
    then show ?thesis using set_codec_ok [OF 3(2)] ok(3) 2 True 3(3) by (auto simp: matched_def)
  next
    case False
    then show ?thesis using last 2 by (auto simp: bind_eq_Some_conv dest: freed_ok)
  qed
qed

lemma key_v2_ok:
  assumes core: "core_keeps core" and ok: "env_ok e" "\<And>c. attached = Some c \<Longrightarrow> codec_ok c"
    and run: "sqlite3_key_v2 core nm zKey nKey mainCodec attached e = Some (rc, att, e')" and key: "zKey \<noteq> None" "0 < key_length zKey nKey"
  shows "env_ok e' \<and> (rc \<noteq> SQLITE_OK \<longrightarrow> att = attached)
    \<and> (rc = SQLITE_OK \<longrightarrow> (\<exists>k. att = Some k \<and> codec_ok k \<and> m_isEncrypted k \<and> matched k \<and> \<not> m_hasKeySalt k \<and> m_keySalt k = replicate 16 0))"
proof -
  have new: "codec_ok (new_codec\<lparr>m_db := True\<rparr>)" using new_codec_ok by (simp add: codec_ok_def)
  define s where "s = (if clientParams (reg_cfg (e_reg e)) = None then snd (sqlite3mcConfigureFromUri (n_file nm) False (reg_cfg (e_reg e))) else reg_cfg (e_reg e))"
  have e0: "env_ok (e\<lparr>e_reg := (e_reg e)\<lparr>reg_cfg := s\<rparr>\<rparr>)" using ok by simp
  note attach = attach_own_key_ok [OF core _ new e0 ok(2)]
  show ?thesis
    using run key ok(1) attach e0
    by (auto simp: sqlite3_key_v2_def sqlite3mcCodecAttach_def Let_def s_def [symmetric] split: if_splits)
qed

end

text \<open>A decryption that fails on a codec with one cipher for both directions.\<close>

context cipher_table
begin

lemma failed_decryption:
  assumes core: "core_keeps core" and ok: "codec_ok codec" "env_ok e"
    and codec: "m_isEncrypted codec" "m_hasReadCipher codec" "m_readCipher codec \<noteq> None" "m_writeCipher codec \<noteq> None"
      "m_writeCipherType codec = m_readCipherType codec"
    and nm: "n_supported nm" "n_found nm" "n_file nm \<noteq> None" "n_bt nm < length (e_bts e)"
    and noKey: "zKey = None \<or> key_length zKey nKey = 0"
    and fails: "rekey_decrypt core (n_bt nm) (bt_pageSize (e_bts e ! n_bt nm) - bt_usableSize (e_bts e ! n_bt nm)) codec e = (rc, codec1, e1)" "rc \<noteq> SQLITE_OK"
  shows "\<exists>k e'. sqlite3_rekey_v2 core nm zKey nKey (Some codec) e = Some (rc, Some k, None, e')"
proof -
  have keys: "same_keys (codec\<lparr>m_hasWriteCipher := False\<rparr>) codec1" "env_ok e1"
    using rekey_decrypt_keys [OF core fails(1)] env_ok_keeps ok(2) by blast+
  have ok1: "codec_ok codec1" using same_keys_ok [OF keys(1)] ok(1) by simp
  have f: "m_isEncrypted codec1" "m_hasReadCipher codec1" "m_readCipher codec1 \<noteq> None" "m_writeCipher codec1 \<noteq> None"
    "m_writeCipherType codec1 = m_readCipherType codec1" using keys(1) codec by (simp_all add: same_keys_def)
  obtain k where copy: "sqlite3mcCopyCipher codec1 True e1 = Some (SQLITE_OK, k, e1)" using CopyCipher_defined [OF ok1 keys(2) f(3-5)] by blast
  have k: "m_isEncrypted k" using f(1) copy by (auto simp: sqlite3mcCopyCipher_def bind_eq_Some_conv)
  have fin: "rekey_finish core (n_bt nm) rc True codec1 e1 = Some (rc, Some (k\<lparr>m_readReserved := -1, m_writeReserved := -1\<rparr>), None, e1)"
    using fails(2) f(2) k by (simp add: rekey_finish_def rekey_settle_def copy)
  show ?thesis using nm codec(1) noKey fin by (auto simp: sqlite3_rekey_v2_def Let_def fails(1))
qed

text \<open>A decryption that succeeds: the codec is detached and released.\<close>

lemma detach_defined:
  assumes "codec_ok codec" and "env_ok e" and "m_btShared codec = Some b" "b < length (e_bts e)"
  shows "\<exists>e'. set_codec None (Some codec) e = Some (None, e')"
proof -
  obtain e1 where e1: "mcReportCodecError (m_btShared codec) SQLITE_OK e = Some e1" using assms(3,4) by (simp add: mcReportCodecError_def Let_def)
  then have "sqlite3mcCodecTerm codec e1 \<noteq> None" using CodecTerm_defined report_ok assms(1,2) by blast
  with e1 show ?thesis by (auto simp: set_codec_def sqlite3mcCodecFree_def)
qed

lemma successful_decryption:
  assumes core: "core_keeps core" and ok: "codec_ok codec" "env_ok e"
    and codec: "m_isEncrypted codec"
    and nm: "n_supported nm" "n_found nm" "n_file nm \<noteq> None" "n_bt nm < length (e_bts e)"
    and noKey: "zKey = None \<or> key_length zKey nKey = 0"
    and works: "rekey_decrypt core (n_bt nm) (bt_pageSize (e_bts e ! n_bt nm) - bt_usableSize (e_bts e ! n_bt nm)) codec e = (SQLITE_OK, codec1, e1)"
      "m_btShared codec1 = Some b" "b < length (e_bts e1)"
  shows "\<exists>e'. sqlite3_rekey_v2 core nm zKey nKey (Some codec) e = Some (SQLITE_OK, None, None, e')"
proof -
  have keys: "same_keys (codec\<lparr>m_hasWriteCipher := False\<rparr>) codec1" "env_ok e1"
    using rekey_decrypt_keys [OF core works(1)] env_ok_keeps ok(2) by blast+
  have ok1: "codec_ok codec1" using same_keys_ok [OF keys(1)] ok(1) by simp
  define k where "k = codec1\<lparr>m_isEncrypted := False, m_readReserved := -1, m_writeReserved := -1\<rparr>"
  have k: "codec_ok k" "m_btShared k = Some b" using ok1 works(2) by (simp_all add: k_def)
  obtain e2 where "set_codec None (Some k) e1 = Some (None, e2)" using detach_defined [OF k(1) keys(2) k(2) works(3)] by blast
  then have fin: "rekey_finish core (n_bt nm) SQLITE_OK True codec1 e1 = Some (SQLITE_OK, None, None, e2)"
    using keys(1) by (simp add: rekey_finish_def rekey_settle_def same_keys_def k_def)
  show ?thesis using nm codec noKey fin by (auto simp: sqlite3_rekey_v2_def Let_def works(1))
qed

end

section \<open>The built-in ciphers\<close>

definition equal_ciphers :: "bool \<Rightarrow> any_cipher option \<Rightarrow> any_cipher option \<Rightarrow> bool" where
  "equal_ciphers le a b \<longleftrightarrow>
     (\<exists>c d. a = Some c \<and> b = Some d \<and> encrypt_page le c = encrypt_page le d \<and> decrypt_page le c = decrypt_page le d)"

lemma same_equal_ciphers: "builtin.same_cipher le a b \<Longrightarrow> equal_ciphers le a b"
  by (auto simp: builtin.same_cipher_def equal_ciphers_def)

definition no_key :: "bytes option \<Rightarrow> int \<Rightarrow> bool" where
  "no_key zKey nKey \<longleftrightarrow> zKey = None \<or> key_length zKey nKey = 0"

text \<open>The database that the name stands for has a file and a B-tree, and its VFS supports encryption.\<close>

definition usable_name :: "db_name \<Rightarrow> 'c mc_env \<Rightarrow> bool" where
  "usable_name nm e \<longleftrightarrow> n_supported nm \<and> n_found nm \<and> n_file nm \<noteq> None \<and> n_bt nm < length (e_bts e)"


text \<open>
  C39. When the decryption of a database fails and is rolled back, the attached codec still counts as encrypted and decrypts what is read, but it has no
  write cipher any more: a page that is written from then on reaches the file as plaintext.
\<close>

theorem failed_decryption_writes_plaintext:
  assumes "codec_system le cs e" and "codec \<in> set cs" and "core_keeps core"
    and "m_isEncrypted codec" and "builtin.matched le codec" and "usable_name nm e" and "no_key zKey nKey"
    and "rekey_decrypt core (n_bt nm) (bt_pageSize (e_bts e ! n_bt nm) - bt_usableSize (e_bts e ! n_bt nm)) codec e = (rc, codec1, e1)"
    and "rc \<noteq> SQLITE_OK"
  shows "\<exists>k e'. sqlite3_rekey_v2 core nm zKey nKey (Some codec) e = Some (rc, Some k, None, e') \<and> m_isEncrypted k
    \<and> m_hasReadCipher k \<and> m_readCipher k = m_readCipher codec
    \<and> (\<forall>data page n e2. sqlite3mcGetPageSize k e2 = Some n \<longrightarrow>
         sqlite3mcCodec (Some k) data page 6 e2 = Some (data, Some (k\<lparr>m_lastError := SQLITE_OK\<rparr>), e2))"
proof -
  have inv: "builtin.env_ok le e" "builtin.codec_ok codec" using codec_system_invariant [OF assms(1)] assms(2) by simp_all
  have nm: "n_supported nm" "n_found nm" "n_file nm \<noteq> None" "n_bt nm < length (e_bts e)" using assms(6) by (simp_all add: usable_name_def)
  have m: "m_hasReadCipher codec" "m_readCipher codec \<noteq> None" "m_writeCipher codec \<noteq> None" "m_writeCipherType codec = m_readCipherType codec"
    using assms(5) by (auto simp: builtin.matched_def builtin.same_cipher_def)
  obtain k e' where run: "sqlite3_rekey_v2 core nm zKey nKey (Some codec) e = Some (rc, Some k, None, e')"
    using builtin.failed_decryption [OF assms(3) inv(2,1) assms(4) m nm assms(7) [unfolded no_key_def] assms(8,9)] by blast
  have "key_kept (builtin.same_cipher le) codec (Some k) \<and> \<not> m_hasWriteCipher k"
    using builtin.rekey_encrypted [OF assms(3) inv(2,1) assms(4) m(1) nm(1-3) run] assms(7,9) by (auto simp: no_key_def)
  then show ?thesis using run by (auto simp: key_kept_def sqlite3mcCodec_def)
qed

text \<open>
  C40. Setting a key: after a success the attached codec is encrypted and reads and writes with one cipher, the new key, and it keeps no key salt;
  after a failure the codec that was attached is attached still.
\<close>

theorem key_outcome:
  assumes "codec_system le cs e" and "core_keeps core" and "\<forall>c. attached = Some c \<longrightarrow> c \<in> set cs"
    and "zKey \<noteq> None" and "0 < key_length zKey nKey"
    and "sqlite3_key_v2 core nm zKey nKey mainCodec attached e = Some (rc, att, e')"
  shows "(rc \<noteq> SQLITE_OK \<longrightarrow> att = attached)
    \<and> (rc = SQLITE_OK \<longrightarrow> (\<exists>k. att = Some k \<and> m_isEncrypted k \<and> m_hasReadCipher k \<and> m_hasWriteCipher k
          \<and> m_readCipherType k = m_writeCipherType k \<and> equal_ciphers le (m_readCipher k) (m_writeCipher k)
          \<and> \<not> m_hasKeySalt k \<and> m_keySalt k = replicate 16 0))"
proof -
  have inv: "builtin.env_ok le e" "\<And>c. attached = Some c \<Longrightarrow> builtin.codec_ok c"
    using codec_system_invariant [OF assms(1)] assms(3) by auto
  show ?thesis
    using builtin.key_v2_ok [OF assms(2) inv assms(6,4,5)] by (auto simp: builtin.matched_def dest: same_equal_ciphers)
qed

section \<open>Examples\<close>

text \<open>A core where no transaction can be started, and one where everything succeeds.\<close>

definition example_core :: "int \<Rightarrow> any_cipher core" where
  "example_core rc = \<lparr>x_malloc = True, x_usesWal = False, x_pageCount = 1, x_setPageSize = (\<lambda>n r b. (SQLITE_OK, b)),
     x_runVacuum = (\<lambda>_ codec e. (rc, codec, e)), x_beginTrans = (\<lambda>codec e. (rc, codec, e)),
     x_rewritePage = (\<lambda>_ codec e. (rc, codec, e)), x_commit = (\<lambda>codec e. (rc, codec, e)), x_rollback = (\<lambda>codec e. (rc, codec, e))\<rparr>"

definition main_name :: db_name where
  "main_name = \<lparr>n_supported = True, n_found = True, n_index = 0, n_bt = 0,
     n_file = Some \<lparr>uri_parameter = (\<lambda>_. None), uri_boolean = (\<lambda>_ b. b), uri_int64 = (\<lambda>_ n. n), GetInt32 = (\<lambda>_. None)\<rparr>,
     n_cipherSalt = None\<rparr>"

lemma example_core: "core_keeps (example_core rc)"
  by (simp add: core_keeps_def example_core_def call_keeps_skip)

lemma usable_main: "usable_name main_name e \<longleftrightarrow> e_bts e \<noteq> []"
  by (simp add: usable_name_def main_name_def)

text \<open>An open database that is encrypted with RC4.\<close>

lemma rc4_example:
  obtains cs e codec where "codec_system True cs e" "codec \<in> set cs" "m_isEncrypted codec" "builtin.matched True codec"
    "e_bts e = [page_tree 512]" "m_btShared codec = Some 0"
proof -
  obtain codec e where set_up: "sqlite3mcCodecSetup open_codec 5 [0x70, 0x77] (start_env True) = Some (SQLITE_OK, codec, e)"
    "e_bts e = [page_tree 512]" "m_btShared codec = Some 0"
    using setup_rc4 by blast
  have "codec_system True [new_codec] (start_env True)"
    by (rule codec_system.new [OF start_system, where codec = new_codec]) (simp add: sqlite3mcCodecInit_def)
  from codec_system.configure [OF this, of 0 open_codec] have sys: "codec_system True [open_codec] (start_env True)"
    by (simp add: open_codec_def new_codec_def)
  moreover from this have "builtin.codec_ok open_codec" "builtin.env_ok True (start_env True)" using codec_system_invariant by force+
  ultimately have "codec_system True [codec] e" "m_isEncrypted codec" "builtin.matched True codec"
    using codec_system.set_up [of True "[open_codec]" "start_env True" 0 5] set_up builtin.CodecSetup_ok [OF set_up(1), of True] by auto
  with set_up(2,3) show thesis by (intro that [of "[codec]" e codec]) simp_all
qed

lemma example_decryption:
  assumes "e_bts e = [page_tree 512]"
  shows "rekey_decrypt (example_core 1) 0 (bt_pageSize (e_bts e ! 0) - bt_usableSize (e_bts e ! 0)) codec e = (1, codec\<lparr>m_hasWriteCipher := False\<rparr>, e)"
  by (simp add: assms page_tree_def rekey_decrypt_def rekey_pages_def example_core_def)

theorem failed_decryption_writes_plaintext_witness:
  "\<exists>codec e k e'. sqlite3_rekey_v2 (example_core 1) main_name None 0 (Some codec) e = Some (1, Some k, None, e') \<and> m_isEncrypted k"
proof -
  obtain cs e codec where db: "codec_system True cs e" "codec \<in> set cs" "m_isEncrypted codec" "builtin.matched True codec" "e_bts e = [page_tree 512]"
    by (rule rc4_example)
  have "usable_name main_name e" "no_key None 0" by (simp_all add: usable_main no_key_def db(5))
  from failed_decryption_writes_plaintext [OF db(1,2) example_core db(3,4) this] example_decryption [OF db(5)]
  show ?thesis by (fastforce simp: main_name_def)
qed

text \<open>A connection whose tables select RC4.\<close>

definition rc4_cfg :: mc_config where
  "rc4_cfg = snd (sqlite3mc_config True (Some ''cipher'') 5
     (start_registry_cfg\<lparr>clientParams := Some (globalCodecParameterTable start_registry_cfg)\<rparr>))"

definition key_reads :: "mc_config \<Rightarrow> (int \<times> int \<times> int \<times> RC4Cipher option \<times> RC4Cipher option) option" where
  "key_reads s = (case sqlite3mcGetCipherType True s of (ty, s) \<Rightarrow> do {
     (h, s) \<leftarrow> read_parameter (sqlite3mcGetCipherParams True ''global'' s) ''hmac_check'' s;
     (w, s) \<leftarrow> read_parameter (sqlite3mcGetCipherParams True ''global'' s) ''mc_legacy_wal'' s;
     (c, s) \<leftarrow> AllocateRC4Cipher True s;
     (d, s) \<leftarrow> AllocateRC4Cipher True s;
     Some (ty, h, w, c, d)
   })"

lemma key_reads: "key_reads rc4_cfg = Some (5, 1, 0, Some fresh_rc4, Some fresh_rc4)" "clientParams rc4_cfg \<noteq> None"
  by code_simp+

definition rc4_env :: "any_cipher mc_env" where
  "rc4_env = (start_env True)\<lparr>e_reg := (e_reg (start_env True))\<lparr>reg_cfg := rc4_cfg\<rparr>\<rparr>"

lemma rc4_env: "codec_system True [] rc4_env"
  by (rule codec_system.environment [OF start_system]) (simp_all add: rc4_env_def start_env_def page_tree_def)

lemma key_rc4: "\<exists>k e'. sqlite3_key_v2 (example_core 0) main_name (Some [0x70, 0x77]) 2 None None rc4_env = Some (SQLITE_OK, Some k, e')"
proof -
  obtain s0 s1 s2 s3 s4 where r: "sqlite3mcGetCipherType True rc4_cfg = (5, s0)"
    "read_parameter (sqlite3mcGetCipherParams True ''global'' s0) ''hmac_check'' s0 = Some (1, s1)"
    "read_parameter (sqlite3mcGetCipherParams True ''global'' s1) ''mc_legacy_wal'' s1 = Some (0, s2)"
    "AllocateRC4Cipher True s2 = Some (Some fresh_rc4, s3)" "AllocateRC4Cipher True s3 = Some (Some fresh_rc4, s4)"
    using key_reads(1) by (auto simp: key_reads_def bind_eq_Some_conv split: prod.splits)
  show ?thesis
    by (simp add: sqlite3_key_v2_def main_name_def key_length_def sqlite3mcCodecAttach_def example_core_def attach_own_key_def
      set_key_salt_def cipher_type_def rc4_env_def key_reads(2)
      sqlite3mcCodecSetup_def global_parameter_def new_codec_def start_env_def start_registry r
      allocate_cipher_def cipher_method_def descriptor_def descriptor_defs Let_def
      sqlite3mcGenerateReadKey_def key_salt_def generate_key_def mcReadDatabaseHeader_def page_tree_def sqlite3mcCopyCipher_def copy_slot_def
      clone_cipher_def GenerateKeyRC4Cipher_def CloneRC4Cipher_def fresh_rc4_def memcpy_at_def
      enforce_sizes_def sqlite3mcGetPageSizeWriteCipher_def sqlite3mcGetReservedWriteCipher_def sqlite3mcGetLegacyWriteCipher_def ask_write_def ask_cipher_def
      sqlite3mcClearKeySalt_def mcAdjustBtree_def sqlite3mcCodecSizeChange_def set_codec_def mcReportCodecError_def sqlite3mcCodecFree_def)
qed

theorem key_outcome_witness:
  "\<exists>k e'. sqlite3_key_v2 (example_core 0) main_name (Some [0x70, 0x77]) 2 None None rc4_env = Some (SQLITE_OK, Some k, e')
     \<and> m_isEncrypted k \<and> equal_ciphers True (m_readCipher k) (m_writeCipher k)"
proof -
  obtain k e' where run: "sqlite3_key_v2 (example_core 0) main_name (Some [0x70, 0x77]) 2 None None rc4_env = Some (SQLITE_OK, Some k, e')"
    using key_rc4 by blast
  from key_outcome [OF rc4_env example_core _ _ _ this] run show ?thesis by (auto simp: key_length_def)
qed





section \<open>Backups\<close>

text \<open>
  \<^verbatim>\<open>sqlite3mcIsBackupSupported\<close> of \<^verbatim>\<open>src/src/sqlite3mc_vfs.c\<close> for the codecs of the two databases. Outside of a change of the key the fields
  that it compares for the reserved bytes are both -1, so that only the page sizes count.
\<close>

definition sqlite3mcIsBackupSupported :: "bool \<Rightarrow> 'c Codec option \<Rightarrow> 'c Codec option \<Rightarrow> 'c mc_env \<Rightarrow> bool option" where
  "sqlite3mcIsBackupSupported sameConnection codecSrc codecDest e =
     (if sameConnection then Some True
      else case (codecSrc, codecDest) of
        (Some src, Some dest) \<Rightarrow>
          if m_isEncrypted src \<and> m_isEncrypted dest then do {
            readSize \<leftarrow> sqlite3mcGetPageSizeReadCipher src e;
            writeSize \<leftarrow> sqlite3mcGetPageSizeWriteCipher dest e;
            Some (readSize = writeSize \<and> m_readReserved src = m_writeReserved dest)
          } else Some False
      | _ \<Rightarrow> Some (codecSrc = None \<and> codecDest = None))"

lemma backup_reserved_unchecked:
  assumes "m_isEncrypted src" "m_isEncrypted dest" "m_readReserved src = -1" "m_writeReserved dest = -1"
  shows "sqlite3mcIsBackupSupported False (Some src) (Some dest) e = do {
    readSize \<leftarrow> sqlite3mcGetPageSizeReadCipher src e;
    writeSize \<leftarrow> sqlite3mcGetPageSizeWriteCipher dest e;
    Some (readSize = writeSize)
  }"
  using assms by (simp add: sqlite3mcIsBackupSupported_def)

end
