(* ===== verification/Pragma.thy ===== *)
theory Pragma
  imports Codec_Ext VLE
begin

text \<open>
  The ways in which SQL and file names reach the keys and the parameters, the rest of \<^verbatim>\<open>src/src/cipher_config.c\<close>: the salt of a database as data,
  the PRAGMA statements of the extension, the key parameters of a URI, and the keys of the main database and of an attached one. The name of
  the database is a \<open>db_name\<close>; what a PRAGMA or a key changes of a connection is the record \<open>conn\<close>. What is used of the conversion of numbers
  is translated from \<^verbatim>\<open>src/src/sqlite3patched.c\<close>. Texts are the bytes before the terminating zero; \<^verbatim>\<open>sqlite3_mprintf\<close> is taken to
  succeed. \<open>None\<close> is undefined behaviour.
\<close>

unbundle bit_operations_syntax

section \<open>Numbers and truth values\<close>

text \<open>\<^verbatim>\<open>sqlite3GetInt32\<close>: the number, if the text begins with one that fits.\<close>

definition decimal_int32 :: "bool \<Rightarrow> bytes \<Rightarrow> int option" where
  "decimal_int32 neg z =
     (if \<not> is_digit (at z 0) then None
      else
        let digits = takeWhile is_digit (take 11 (dropWhile (\<lambda>c. c = 48) z));
            v = foldl (\<lambda>v c. v * 10 + (uint c - 48)) 0 digits
        in if length digits > 10 then None
           else if v - (if neg then 1 else 0) > 2147483647 then None
           else Some (if neg then - v else v))"

definition sqlite3GetInt32 :: "bytes \<Rightarrow> int option" where
  "sqlite3GetInt32 z =
     (if at z 0 = 45 then decimal_int32 True (drop 1 z)
      else if at z 0 = 43 then decimal_int32 False (drop 1 z)
      else if at z 0 = 48 \<and> (at z 1 = 120 \<or> at z 1 = 88) \<and> is_xdigit (at z 2) then
        let rest = dropWhile (\<lambda>c. c = 48) (drop 2 z);
            digits = takeWhile is_xdigit (take 8 rest);
            u = foldl (\<lambda>u c. u * 16 + ucast (hex_to_int c)) (0 :: u32) digits
        in if u AND 0x80000000 = 0 \<and> \<not> is_xdigit (at rest (length digits)) then Some (uint u) else None
      else decimal_int32 False z)"

definition sqlite3Atoi :: "bytes \<Rightarrow> int" where
  "sqlite3Atoi z = (case sqlite3GetInt32 z of None \<Rightarrow> 0 | Some x \<Rightarrow> x)"

definition safety_words :: "(string \<times> byte) list" where
  "safety_words = [(''on'', 1), (''no'', 0), (''off'', 0), (''false'', 0), (''yes'', 1), (''true'', 1), (''extra'', 3), (''full'', 2)]"

definition getSafetyLevel :: "bytes \<Rightarrow> bool \<Rightarrow> byte \<Rightarrow> byte" where
  "getSafetyLevel z omitFull dflt =
     (if is_digit (at z 0) then of_int (sqlite3Atoi z)
      else case List.find (\<lambda>(w, v). length w = length z \<and> strnicmp_eq (ascii w) z (length z) \<and> (\<not> omitFull \<or> v \<le> 1)) safety_words of
        Some (_, v) \<Rightarrow> v
      | None \<Rightarrow> dflt)"

definition sqlite3GetBoolean :: "bytes \<Rightarrow> byte \<Rightarrow> int" where
  "sqlite3GetBoolean z dflt = (if getSafetyLevel z True dflt \<noteq> 0 then 1 else 0)"

text \<open>The format \<open>%d\<close>.\<close>

fun nat_text :: "nat \<Rightarrow> bytes" where
  "nat_text n = (if n < 10 then [of_nat (48 + n)] else nat_text (n div 10) @ [of_nat (48 + n mod 10)])"

declare nat_text.simps [simp del]

definition int_text :: "int \<Rightarrow> bytes" where
  "int_text v = (if v < 0 then 45 # nat_text (nat (- v)) else nat_text (nat v))"

section \<open>The salt of a database\<close>

definition hexdigits :: bytes where
  "hexdigits = ascii ''0123456789ABCDEF''"

definition salt_text :: "bytes \<Rightarrow> bytes" where
  "salt_text salt = concat (map (\<lambda>b. [hexdigits ! unat (drop_bit 4 b AND 0xf), hexdigits ! unat (b AND 0xf)]) salt)"

text \<open>
  \<^verbatim>\<open>sqlite3mc_codec_data\<close> for a connection and a database that is or is not \<open>found\<close>; the result is \<open>None\<close> for a null pointer. An
  allocation that fails is not noticed.
\<close>

definition salt_data :: "bool \<Rightarrow> bytes \<Rightarrow> 'c mc_env \<Rightarrow> (bytes option \<times> 'c mc_env) option" where
  "salt_data toRaw salt e =
     (let (ok, s) = sqlite3_malloc (reg_cfg (e_reg e))
      in if \<not> ok \<or> length salt < 16 then None
         else Some (Some (if toRaw then take 16 salt else salt_text (take 16 salt)), e\<lparr>e_reg := (e_reg e)\<lparr>reg_cfg := s\<rparr>\<rparr>))"

definition sqlite3mc_codec_data :: "bool \<Rightarrow> 'c Codec option \<Rightarrow> string option \<Rightarrow> 'c mc_env \<Rightarrow> (bytes option \<times> 'c mc_env) option" where
  "sqlite3mc_codec_data found codec paramName e =
     (case paramName of
        None \<Rightarrow> Some (None, e)
      | Some paramName \<Rightarrow>
          let (toRaw, paramName) = strip ''raw:'' paramName
          in if stricmp paramName ''cipher_salt'' \<and> found then
               (case codec of
                  None \<Rightarrow> Some (None, e)
                | Some codec \<Rightarrow>
                    if m_isEncrypted codec \<and> m_hasWriteCipher codec then do {
                      salt \<leftarrow> sqlite3mcGetSaltWriteCipher codec e;
                      case salt of None \<Rightarrow> Some (None, e) | Some salt \<Rightarrow> salt_data toRaw salt e
                    } else Some (None, e))
             else Some (None, e))"

text \<open>
  The SQL function \<^verbatim>\<open>sqlite3mc_codec_data\<close>: the arguments are texts or NULL, the second one may be missing. The codec is that of the database
  that the second argument names.
\<close>

definition sqlite3mcCodecDataSql :: "bool \<Rightarrow> 'c Codec option \<Rightarrow> string option \<Rightarrow> string option option \<Rightarrow> 'c mc_env \<Rightarrow> (sql_value \<times> 'c mc_env) option" where
  "sqlite3mcCodecDataSql found codec nameParam1 nameParam2 e =
     (case nameParam1 of
        None \<Rightarrow> Some (Null, e)
      | Some name \<Rightarrow>
          if nameParam2 = Some None then Some (Null, e)
          else if stricmp name ''cipher_salt'' then do {
            (salt, e) \<leftarrow> sqlite3mc_codec_data found codec (Some ''cipher_salt'') e;
            Some (case salt of Some z \<Rightarrow> Text z | None \<Rightarrow> Null, e)
          } else Some (Null, e))"

section \<open>The connection\<close>

text \<open>What is attached to the database, the salt that the connection has been given, and the state of the process.\<close>

record 'c conn =
  cn_attached :: "'c Codec option"
  cn_salt :: "bytes option"
  cn_env :: "'c mc_env"

definition cn_cfg :: "'c conn \<Rightarrow> mc_config" where
  "cn_cfg c = reg_cfg (e_reg (cn_env c))"

definition with_cfg :: "mc_config \<Rightarrow> 'c conn \<Rightarrow> 'c conn" where
  "with_cfg s c = c\<lparr>cn_env := (cn_env c)\<lparr>e_reg := (e_reg (cn_env c))\<lparr>reg_cfg := s\<rparr>\<rparr>\<rparr>"

text \<open>The salt for a new key: that of the connection, or of the URI.\<close>

definition named :: "db_name \<Rightarrow> 'c conn \<Rightarrow> db_name" where
  "named nm c = nm\<lparr>n_cipherSalt :=
     (case cn_salt c of
        Some s \<Rightarrow> Some s
      | None \<Rightarrow> (case n_file nm of None \<Rightarrow> None | Some u \<Rightarrow> map_option ascii (uri_parameter u ''cipher_salt'')))\<rparr>"

definition conn_key :: "'c core \<Rightarrow> db_name \<Rightarrow> bytes option \<Rightarrow> int \<Rightarrow> 'c Codec option \<Rightarrow> 'c conn \<Rightarrow> (int \<times> 'c conn) option" where
  "conn_key core nm zKey nKey mainCodec c = do {
     (rc, att, e) \<leftarrow> sqlite3_key_v2 core (named nm c) zKey nKey mainCodec (cn_attached c) (cn_env c);
     Some (rc, c\<lparr>cn_attached := att, cn_env := e\<rparr>)
   }"

definition conn_rekey :: "'c core \<Rightarrow> db_name \<Rightarrow> bytes option \<Rightarrow> int \<Rightarrow> 'c conn \<Rightarrow> (int \<times> 'c conn) option" where
  "conn_rekey core nm zKey nKey c = do {
     (rc, att, _, e) \<leftarrow> sqlite3_rekey_v2 core nm zKey nKey (cn_attached c) (cn_env c);
     Some (rc, c\<lparr>cn_attached := att, cn_env := e\<rparr>)
   }"


section \<open>The PRAGMA statements\<close>

text \<open>
  The result is the code, the text (\<open>None\<close> for a null pointer) and the connection. The texts of a failed key or rekey, which come from the error
  state of the connection, are not in the model.
\<close>

type_synonym 'c pragma_result = "(int \<times> bytes option \<times> 'c conn) option"

abbreviation (input) SQLITE_NOTFOUND :: int where "SQLITE_NOTFOUND \<equiv> 12"

definition quoted :: "string \<Rightarrow> string \<Rightarrow> string \<Rightarrow> bytes" where
  "quoted before v after = ascii before @ [0x27] @ ascii v @ [0x27] @ ascii after"

definition pragma_cipher :: "bool \<Rightarrow> string option \<Rightarrow> 'c conn \<Rightarrow> 'c pragma_result" where
  "pragma_cipher configDefault pragmaValue c =
     (let t = globalCodecParameterTable (cn_cfg c);
          shown = (case pragmaValue of None \<Rightarrow> [] | Some v \<Rightarrow> v);
          cipherId = (case pragmaValue of
              None \<Rightarrow> -1
            | Some v \<Rightarrow> (case find_entry c_name v (drop 1 t) of Some j \<Rightarrow> c_id (t ! (j + 1)) | None \<Rightarrow> 0))
      in if cipherId = -1 \<or> cipherId > 0 \<and> cipherId \<le> int CODEC_COUNT_MAX then
           let (v, s) = sqlite3mc_config True (Some (if configDefault then ''default:cipher'' else ''cipher'')) cipherId (cn_cfg c)
           in if v > 0 then do {
                d \<leftarrow> descriptor (cn_env c) v;
                Some (SQLITE_OK, Some (case d_name d of None \<Rightarrow> [] | Some name \<Rightarrow> ascii name), with_cfg s c)
              }
              else Some (SQLITE_ERROR, Some (quoted ''Cipher '' shown '' could not be located.''), with_cfg s c)
         else Some (SQLITE_ERROR, Some (quoted ''Cipher '' shown '' unknown.''), c))"

definition pragma_flag :: "string \<Rightarrow> byte \<Rightarrow> string option \<Rightarrow> 'c conn \<Rightarrow> 'c pragma_result" where
  "pragma_flag name dflt pragmaValue c =
     (let (v, s) = sqlite3mc_config True (Some name) (case pragmaValue of None \<Rightarrow> -1 | Some z \<Rightarrow> sqlite3GetBoolean (ascii z) dflt) (cn_cfg c)
      in Some (SQLITE_OK, Some (int_text v), with_cfg s c))"

text \<open>A salt is kept by the connection until there is a codec. The query of a salt that was kept leaves the result code as it is.\<close>

definition pragma_cipher_salt :: "bool \<Rightarrow> string option \<Rightarrow> 'c conn \<Rightarrow> 'c pragma_result" where
  "pragma_cipher_salt found pragmaValue c =
     (case cn_attached c of
        None \<Rightarrow>
          (case pragmaValue of
             Some (z # zs) \<Rightarrow>
               let v = ascii (z # zs)
               in if 32 \<le> length v \<and> sqlite3mcIsHexKey (take 32 v) then
                    let (ok, s) = sqlite3_malloc (cn_cfg c)
                    in if ok then Some (SQLITE_OK, Some (ascii ''ok''), (with_cfg s c)\<lparr>cn_salt := Some v\<rparr>)
                       else Some (SQLITE_ERROR, Some (ascii ''Out of memory. Cipher salt not saved.''), with_cfg s c)
                  else Some (SQLITE_ERROR, Some (ascii ''Invalid cipher salt. Length < 32 or invalid hex digits.''), c)
           | _ \<Rightarrow> Some (SQLITE_NOTFOUND, cn_salt c, c))
      | Some codec \<Rightarrow>
          if m_isEncrypted codec \<and> m_hasWriteCipher codec then
            (if pragmaValue \<noteq> None \<and> pragmaValue \<noteq> Some [] then Some (SQLITE_ERROR, Some (ascii ''Cipher salt can't be changed.''), c)
             else do {
               (salt, e) \<leftarrow> sqlite3mc_codec_data found (cn_attached c) (Some ''cipher_salt'') (cn_env c);
               Some (SQLITE_OK, salt, c\<lparr>cn_env := e\<rparr>)
             })
          else Some (SQLITE_ERROR, Some (ascii ''Database not encrypted.''), c))"

definition key_result :: "(int \<times> 'c conn) option \<Rightarrow> 'c pragma_result" where
  "key_result r = map_option (\<lambda>(rc, c). (rc, if rc = SQLITE_OK then Some (ascii ''ok'') else None, c)) r"

text \<open>
  The two PRAGMAs with a hexadecimal key. Without a value the length of the text is 0 and the check succeeds; \<^verbatim>\<open>sqlite3_malloc(0)\<close> is NULL, and
  so is a failed allocation, which the conversion does not notice.
\<close>

definition pragma_hex :: "(bytes option \<Rightarrow> int \<Rightarrow> 'c conn \<Rightarrow> (int \<times> 'c conn) option) \<Rightarrow> string option \<Rightarrow> 'c conn \<Rightarrow> 'c pragma_result" where
  "pragma_hex set_key pragmaValue c =
     (let v = (case pragmaValue of None \<Rightarrow> [] | Some z \<Rightarrow> ascii z)
      in if even (length v) \<and> sqlite3mcIsHexKey v then
           (if v = [] then key_result (set_key None 0 c)
            else
              let (ok, s) = sqlite3_malloc (cn_cfg c)
              in if ok then key_result (set_key (Some (sqlite3mcConvertHex2Bin v)) (int (length v div 2)) (with_cfg s c)) else None)
         else Some (SQLITE_ERROR, Some (ascii ''Malformed hex string''), c))"

text \<open>A parameter of the cipher that is selected. A name that is not known is left to SQLite.\<close>

definition pragma_parameter :: "bool \<Rightarrow> string \<Rightarrow> string option \<Rightarrow> 'c conn \<Rightarrow> 'c pragma_result" where
  "pragma_parameter configDefault pragmaName pragmaValue c =
     (let intValue = (case pragmaValue of None \<Rightarrow> Some (-1) | Some z \<Rightarrow> sqlite3GetInt32 (ascii z));
          (cipher, s) = sqlite3mc_config True (Some ''cipher'') (-1) (cn_cfg c);
          t = drop 1 (globalCodecParameterTable s)
      in case List.find (\<lambda>x. c_name x = [] \<or> cipher = c_id x) t of
           None \<Rightarrow> None
         | Some entry \<Rightarrow>
             if c_name entry = [] then Some (SQLITE_NOTFOUND, None, with_cfg s c)
             else (case c_params entry of
                     None \<Rightarrow> Some (SQLITE_NOTFOUND, None, with_cfg s c)
                   | Some ps \<Rightarrow>
                       if find_entry p_name pragmaName ps = None then Some (SQLITE_NOTFOUND, None, with_cfg s c)
                       else (case intValue of
                               None \<Rightarrow> Some (SQLITE_ERROR,
                                         Some (quoted ''Malformed integer value '' (case pragmaValue of None \<Rightarrow> [] | Some z \<Rightarrow> z) ''.''), with_cfg s c)
                             | Some n \<Rightarrow>
                                 let (v, s) = sqlite3mc_config_cipher True (Some (c_name entry))
                                       (Some (if configDefault then ''default:'' @ pragmaName else pragmaName)) n s
                                 in Some (SQLITE_OK, Some (int_text v), with_cfg s c))))"

text \<open>
  \<open>schema\<close> says that the statement names a schema, \<open>fc\<close> is the result of the file control of the VFS, which is asked first. A build without
  the options for secure memory is modelled.
\<close>

definition sqlite3mcFileControlPragma :: "'c core \<Rightarrow> db_name \<Rightarrow> bool \<Rightarrow> int \<Rightarrow> string \<Rightarrow> string option \<Rightarrow> 'c Codec option \<Rightarrow> 'c conn \<Rightarrow> 'c pragma_result" where
  "sqlite3mcFileControlPragma core nm schema fc pragmaName pragmaValue mainCodec c =
     (if fc \<noteq> SQLITE_NOTFOUND then Some (fc, None, c)
      else if schema \<and> \<not> n_found nm then Some (SQLITE_NOTFOUND, None, c)
      else
        let configDefault = (\<not> schema \<or> n_index nm \<le> 0) in
        if stricmp pragmaName ''cipher'' then pragma_cipher configDefault pragmaValue c
        else if stricmp pragmaName ''hmac_check'' then pragma_flag ''hmac_check'' 1 pragmaValue c
        else if stricmp pragmaName ''mc_legacy_wal'' then pragma_flag ''mc_legacy_wal'' 0 pragmaValue c
        else if stricmp pragmaName ''cipher_salt'' then pragma_cipher_salt (n_found nm) pragmaValue c
        else if stricmp pragmaName ''key'' then key_result (conn_key core nm (map_option ascii pragmaValue) (-1) mainCodec c)
        else if stricmp pragmaName ''hexkey'' then pragma_hex (\<lambda>z n. conn_key core nm z n mainCodec) pragmaValue c
        else if stricmp pragmaName ''rekey'' then key_result (conn_rekey core nm (map_option ascii pragmaValue) (-1) c)
        else if stricmp pragmaName ''hexrekey'' then pragma_hex (conn_rekey core nm) pragmaValue c
        else pragma_parameter configDefault pragmaName pragmaValue c)"

section \<open>Keys in URIs, and the keys of databases\<close>

text \<open>The loop over a hexadecimal key: the digits that were read, and the bytes; it stops at the first other character.\<close>

fun hexkey_loop :: "bytes \<Rightarrow> nat \<Rightarrow> byte \<Rightarrow> bytes \<Rightarrow> bytes \<times> nat" where
  "hexkey_loop [] i iByte zDecoded = (zDecoded, i)"
| "hexkey_loop (z # zs) i iByte zDecoded =
     (if is_xdigit z then
        let iByte = push_bit 4 iByte + ucast (hex_to_int z)
        in hexkey_loop zs (Suc i) iByte (if odd i then zDecoded @ [iByte] else zDecoded)
      else (zDecoded, i))"

definition uri_hexkey :: "'c core \<Rightarrow> db_name \<Rightarrow> bytes \<Rightarrow> 'c Codec option \<Rightarrow> 'c conn \<Rightarrow> (int \<times> 'c conn) option" where
  "uri_hexkey core nm zKey mainCodec c =
     (let (ok, s) = sqlite3_malloc (cn_cfg c);
          (zDecoded, i) = hexkey_loop zKey 0 0 []
      in if ok then conn_key core nm (Some zDecoded) (int (i div 2)) mainCodec (with_cfg s c)
         else if i < 2 then conn_key core nm None (int (i div 2)) mainCodec (with_cfg s c)
         else None)"

text \<open>The code of setting the key is not looked at.\<close>

definition sqlite3mcCodecQueryParameters :: "'c core \<Rightarrow> db_name \<Rightarrow> 'c Codec option \<Rightarrow> 'c conn \<Rightarrow> (int \<times> 'c conn) option" where
  "sqlite3mcCodecQueryParameters core nm mainCodec c =
     (let param = (\<lambda>p. case n_file nm of None \<Rightarrow> None | Some u \<Rightarrow> map_option ascii (uri_parameter u p)) in
      case param ''hexkey'' of
        Some (z # zs) \<Rightarrow> do { (_, c) \<leftarrow> uri_hexkey core nm (z # zs) mainCodec c; Some (1, c) }
      | _ \<Rightarrow>
          (case param ''key'' of
             Some zKey \<Rightarrow> do { (_, c) \<leftarrow> conn_key core nm (Some zKey) (int (length zKey)) mainCodec c; Some (1, c) }
           | None \<Rightarrow>
               (case param ''textkey'' of
                  Some zKey \<Rightarrow> do { (_, c) \<leftarrow> conn_key core nm (Some zKey) (-1) mainCodec c; Some (1, c) }
                | None \<Rightarrow> Some (0, c))))"

definition conn_attach :: "'c core \<Rightarrow> db_name \<Rightarrow> bytes option \<Rightarrow> int \<Rightarrow> 'c Codec option \<Rightarrow> 'c conn \<Rightarrow> (int \<times> 'c conn) option" where
  "conn_attach core nm zKey nKey mainCodec c = do {
     (rc, att, e) \<leftarrow> sqlite3mcCodecAttach core (named nm c) zKey nKey mainCodec (cn_attached c) (cn_env c);
     Some (rc, c\<lparr>cn_attached := att, cn_env := e\<rparr>)
   }"

text \<open>The key of an ATTACH statement; the pointer to an empty value is null. \<open>nm\<close> is the database that was opened last.\<close>

definition sqlite3mcHandleAttachKey :: "'c core \<Rightarrow> db_name \<Rightarrow> sql_value \<Rightarrow> 'c Codec option \<Rightarrow> 'c conn \<Rightarrow> (int \<times> 'c conn) option" where
  "sqlite3mcHandleAttachKey core nm pKey mainCodec c =
     (case value_bytes pKey of
        Some b \<Rightarrow> conn_attach core nm (if b = [] then None else Some b) (int (length b)) mainCodec c
      | None \<Rightarrow>
          if pKey = Null then do {
            (seen, c) \<leftarrow> sqlite3mcCodecQueryParameters core nm mainCodec c;
            let (zKey, nKey) = sqlite3mcCodecGetKey mainCodec;
            if seen = 0 \<and> nKey \<noteq> 0 then conn_attach core nm zKey nKey mainCodec c else Some (SQLITE_OK, c)
          } else Some (SQLITE_ERROR, c))"

definition sqlite3mcHandleMainKey :: "'c core \<Rightarrow> db_name \<Rightarrow> 'c conn \<Rightarrow> (int \<times> 'c conn) option" where
  "sqlite3mcHandleMainKey core nm c =
     (let (rc, s) = sqlite3mcConfigureFromUri (n_file nm) True (cn_cfg c)
      in if rc = SQLITE_OK then do { (_, c) \<leftarrow> sqlite3mcCodecQueryParameters core nm (cn_attached c) (with_cfg s c); Some (rc, c) }
         else Some (rc, with_cfg s c))"

section \<open>Selecting a cipher\<close>

lemma cn_cfg_with_cfg [simp]: "cn_cfg (with_cfg s c) = s"
  by (simp add: cn_cfg_def with_cfg_def)

lemma cn_with_cfg [simp]: "cn_attached (with_cfg s c) = cn_attached c" "cn_salt (with_cfg s c) = cn_salt c"
  by (simp_all add: with_cfg_def)

lemma strip_cipher: "strip_prefixes ''default:cipher'' = (True, False, False, ''cipher'')" "strip_prefixes ''cipher'' = (False, False, False, ''cipher'')"
  by code_simp+

text \<open>Setting the cipher, then reading which one is selected; the read puts the default back.\<close>

lemma config_selects:
  assumes t: "clientParams s = Some t" "t \<noteq> []" "c_params (t ! 0) = Some ps" and k: "find_entry p_name ''cipher'' ps = Some k"
    and id: "0 < ty" "ty \<le> int (globalCipherCount s)" "in_range ty (ps ! k)"
  obtains s1 s2 where "sqlite3mc_config True (Some (if b then ''default:cipher'' else ''cipher'')) ty s = (ty, s1)"
    "sqlite3mcGetCipherType True s1 = (ty, s2)" "b \<Longrightarrow> fst (sqlite3mcGetCipherType True s2) = ty"
proof -
  define p where "p = param_set b ty (ps ! k)"
  define s1 where "s1 = put_params True 0 (ps[k := p]) s"
  define q where "q = p\<lparr>p_value := p_default p\<rparr>"
  define s2 where "s2 = put_params True 0 (ps[k := q]) s1"
  have less: "k < length ps" by (rule find_entry_less [OF k])
  have p: "p_name p = p_name (ps ! k)" "p_value p = ty" "b \<Longrightarrow> p_default p = ty" by (simp_all add: p_def param_set_def)
  have t0: "codec_params True s = Some t" "0 < length t" using t by (simp_all add: codec_params_def)
  have at0: "params_at True 0 s = Some ps" using t0 t(3) by (simp add: params_at_Some)
  have "\<not> stricmp ''cipher'' ''hmac_check''" by code_simp
  then have set: "sqlite3mc_config True (Some (if b then ''default:cipher'' else ''cipher'')) ty s = (ty, s1)"
    using at0 k id by (simp add: sqlite3mc_config_def strip_cipher Let_def sqlite3mcGetGlobalCipherCount_def s1_def p_def)
  have t1: "codec_params True s1 = Some (t[0 := (t ! 0)\<lparr>c_params := Some (ps[k := p])\<rparr>])" using t0 by (simp add: s1_def)
  have at1: "params_at True 0 s1 = Some (ps[k := p])" using at0 t0 by (simp add: s1_def)
  have c1: "has_table True s1" using t1 by (auto simp: has_table_def codec_params_def)
  have read1: "sqlite3mcGetCipherType True s1 = (ty, s2)"
    using at1 c1 less k p by (simp add: sqlite3mcGetCipherType_def s2_def q_def)
  have at2: "params_at True 0 s2 = Some (ps[k := q])" using at1 t1 t0 by (simp add: s2_def)
  have "codec_params True s2 \<noteq> None" using t1 by (simp add: s2_def)
  then have c2: "has_table True s2" by (simp add: has_table_def codec_params_def)
  have read2: "b \<Longrightarrow> fst (sqlite3mcGetCipherType True s2) = ty"
    using at2 c2 less k p by (simp add: sqlite3mcGetCipherType_def q_def)
  show thesis by (rule that [OF set read1 read2])
qed

text \<open>
  PRAGMA cipher with the name of a registered cipher answers with its name, and the key that is set next uses that cipher; without a schema, or for the main
  database, this holds for all keys that follow, otherwise only for the next one.
\<close>

lemma pragma_cipher_selects:
  assumes "schema \<longrightarrow> n_found nm"
    and "find_entry c_name v (drop 1 (globalCodecParameterTable (cn_cfg c))) = Some j"
    and "ty = c_id (globalCodecParameterTable (cn_cfg c) ! (j + 1))"
    and "clientParams (cn_cfg c) = Some t" "t \<noteq> []" "c_params (t ! 0) = Some ps" "find_entry p_name ''cipher'' ps = Some k"
    and "0 < ty" "ty \<le> 16" "ty \<le> int (globalCipherCount (cn_cfg c))" "in_range ty (ps ! k)"
    and "descriptor (cn_env c) ty = Some d" "d_name d = Some name"
  shows "\<exists>c' e e'. sqlite3mcFileControlPragma core nm schema SQLITE_NOTFOUND ''cipher'' (Some v) mainCodec c = Some (SQLITE_OK, Some (ascii name), c')
    \<and> cn_attached c' = cn_attached c \<and> cipher_type (cn_env c') = (ty, e)
    \<and> (\<not> schema \<or> n_index nm \<le> 0 \<longrightarrow> cipher_type e = (ty, e'))"
proof -
  define b where "b \<longleftrightarrow> \<not> schema \<or> n_index nm \<le> 0"
  obtain s1 s2 where s: "sqlite3mc_config True (Some (if b then ''default:cipher'' else ''cipher'')) ty (cn_cfg c) = (ty, s1)"
    "sqlite3mcGetCipherType True s1 = (ty, s2)" "b \<Longrightarrow> fst (sqlite3mcGetCipherType True s2) = ty"
    using config_selects [where b = b, OF assms(4-8) assms(10,11)] by blast
  have ty: "c_id (globalCodecParameterTable (cn_cfg c) ! Suc j) = ty" using assms(3) by simp
  have "pragma_cipher b (Some v) c = Some (SQLITE_OK, Some (ascii name), with_cfg s1 c)"
    using assms(2,8,9,12,13) ty s(1) by (simp add: pragma_cipher_def Let_def CODEC_COUNT_MAX_def)
  then have run: "sqlite3mcFileControlPragma core nm schema SQLITE_NOTFOUND ''cipher'' (Some v) mainCodec c
      = Some (SQLITE_OK, Some (ascii name), with_cfg s1 c)"
    using assms(1) by (simp add: sqlite3mcFileControlPragma_def b_def)
  define e where "e = (cn_env (with_cfg s1 c))\<lparr>e_reg := (e_reg (cn_env (with_cfg s1 c)))\<lparr>reg_cfg := s2\<rparr>\<rparr>"
  have "cipher_type (cn_env (with_cfg s1 c)) = (ty, e)" using s(2) by (simp add: cipher_type_def e_def with_cfg_def)
  moreover have "b \<Longrightarrow> cipher_type e = (ty, snd (cipher_type e))" using s(3) by (simp add: cipher_type_def e_def split_beta)
  ultimately show ?thesis using run unfolding b_def [symmetric]
    by (intro exI [of _ "with_cfg s1 c"] exI [of _ e] exI [of _ "snd (cipher_type e)"]) simp
qed

section \<open>The salt as text\<close>

lemma hexdigits_eq: "\<forall>n \<in> set [0..<16]. hexdigits ! n = hex_digit True n"
  by code_simp

lemma low_nibble: "unat (b AND 0xf) = unat b mod 16" for b :: byte
proof -
  have mask: "(0xf :: byte) = mask 4" by (simp add: mask_eq_exp_minus_1)
  show ?thesis unfolding mask by (simp add: take_bit_eq_mask [symmetric] take_bit_eq_mod unat_mod)
qed

lemma salt_text_hex: "salt_text salt = hex_of True salt"
proof (induction salt)
  case (Cons b bs)
  have "unat b < 256" using unat_bound [of b] by simp
  then have "unat b div 16 < 16" "unat b mod 16 < 16" by (simp_all add: less_mult_imp_div_less)
  moreover from this have "hexdigits ! (unat b div 16) = hex_digit True (unat b div 16)" "hexdigits ! (unat b mod 16) = hex_digit True (unat b mod 16)"
    using hexdigits_eq by (simp_all del: upt_rec_numeral)
  moreover have "unat b div 16 mod 16 = unat b div 16" using \<open>unat b div 16 < 16\<close> by simp
  ultimately show ?case using Cons by (simp add: salt_text_def low_nibble unat_drop_bit)
qed (simp add: salt_text_def)

lemma salt_data_text:
  "salt_data toRaw salt e = Some (Some z, e') \<Longrightarrow> 16 \<le> length salt \<and> z = (if toRaw then take 16 salt else hex_of True (take 16 salt))"
  by (auto simp: salt_data_def salt_text_hex split: prod.splits if_splits)

lemma strip_raw: "strip ''raw:'' ''cipher_salt'' = (False, ''cipher_salt'')" "strip ''raw:'' ''raw:cipher_salt'' = (True, ''cipher_salt'')"
  by code_simp+

text \<open>The data functions give the salt of the write cipher, as text or as bytes.\<close>

lemma codec_data_salt:
  assumes "sqlite3mc_codec_data True (Some codec) (Some (if toRaw then ''raw:cipher_salt'' else ''cipher_salt'')) e = Some (Some z, e')"
  shows "\<exists>salt. sqlite3mcGetSaltWriteCipher codec e = Some (Some salt) \<and> 16 \<le> length salt
    \<and> z = (if toRaw then take 16 salt else hex_of True (take 16 salt))"
  using assms
  by (cases toRaw) (auto simp: sqlite3mc_codec_data_def strip_raw bind_eq_Some_conv dest!: salt_data_text split: if_splits option.splits)

text \<open>
  The salt of an encrypted database that is read as text can be given to another connection by PRAGMA cipher_salt: the next key that is set there
  starts from a codec with exactly this salt.
\<close>

lemma cipher_salt_roundtrip:
  assumes "sqlite3mc_codec_data True (Some codec) (Some ''cipher_salt'') e = Some (Some (ascii v), e')"
    and "cn_attached c = None" and "fst (sqlite3_malloc (cn_cfg c))" and "n_found nm"
  shows "\<exists>salt c'. sqlite3mcGetSaltWriteCipher codec e = Some (Some salt)
    \<and> sqlite3mcFileControlPragma core nm schema SQLITE_NOTFOUND ''cipher_salt'' (Some v) mainCodec c = Some (SQLITE_OK, Some (ascii ''ok''), c')
    \<and> (\<forall>codec'. set_key_salt (n_cipherSalt (named nm' c')) codec' = codec'\<lparr>m_hasKeySalt := True, m_keySalt := take 16 salt\<rparr>)"
proof -
  obtain salt where salt: "sqlite3mcGetSaltWriteCipher codec e = Some (Some salt)" "16 \<le> length salt" "ascii v = hex_of True (take 16 salt)"
    using codec_data_salt [of codec False e "ascii v" e'] assms(1) by auto
  have len: "length (ascii v) = 32" using salt(2,3) by simp
  obtain s where s: "sqlite3_malloc (cn_cfg c) = (True, s)" using assms(3) by (metis prod.collapse)
  have names: "\<not> stricmp ''cipher_salt'' ''cipher''" "\<not> stricmp ''cipher_salt'' ''hmac_check''" "\<not> stricmp ''cipher_salt'' ''mc_legacy_wal''"
    "stricmp ''cipher_salt'' ''cipher_salt''" by code_simp+
  obtain z zs where v: "v = z # zs" using len by (cases v) (simp_all add: ascii_def)
  have hex: "take 32 (ascii v) = ascii v" "sqlite3mcIsHexKey (ascii v)" using len hex_of_ok [of True "take 16 salt"] by (simp_all add: salt(3))
  have run: "sqlite3mcFileControlPragma core nm schema SQLITE_NOTFOUND ''cipher_salt'' (Some v) mainCodec c
      = Some (SQLITE_OK, Some (ascii ''ok''), (with_cfg s c)\<lparr>cn_salt := Some (ascii v)\<rparr>)"
    using names assms(2,4) hex len s
    by (simp add: sqlite3mcFileControlPragma_def Let_def pragma_cipher_salt_def v [symmetric]) (simp add: v)
  show ?thesis
    using salt hex len
    by (intro exI [of _ salt] exI [of _ "(with_cfg s c)\<lparr>cn_salt := Some (ascii v)\<rparr>"])
      (simp add: run named_def set_key_salt_def sqlite3mcConvertHex2Bin_hex_of)
qed

section \<open>Keys in hexadecimal spelling\<close>

text \<open>Both tests for a hexadecimal digit and both conversions of one agree.\<close>

lemma is_xdigit_hex: "is_xdigit z \<longleftrightarrow> sqlite3mcIsHexKey [z]"
  by (auto simp: is_xdigit_def is_digit_def sqlite3mcIsHexKey_def not_less)

lemma hex_to_int_agree:
  assumes "is_xdigit z"
  shows "(ucast (hex_to_int z) :: byte) = of_int (sqlite3mcConvertHex2Int z)"
proof -
  have all: "\<forall>n \<in> set ([48..<58] @ [65..<71] @ [97..<103]).
      (ucast (hex_to_int (of_nat n)) :: byte) = of_int (sqlite3mcConvertHex2Int (of_nat n))"
    by code_simp
  have "unat z \<in> set ([48..<58] @ [65..<71] @ [97..<103])"
    using assms by (auto simp: is_xdigit_def is_digit_def word_le_nat_alt simp del: upt_rec_numeral)
  moreover have "of_nat (unat z) = z" by simp
  ultimately show ?thesis using all by metis
qed

lemma digit_range: "is_xdigit z \<Longrightarrow> 0 \<le> sqlite3mcConvertHex2Int z \<and> sqlite3mcConvertHex2Int z < 16"
  by (auto simp: sqlite3mcConvertHex2Int_def is_xdigit_def is_digit_def word_le_def word_less_def)

lemma two_digits:
  assumes "is_xdigit a" "is_xdigit b"
  shows "push_bit 4 (push_bit 4 iByte + ucast (hex_to_int a)) + ucast (hex_to_int b)
    = (of_int (push_bit 4 (sqlite3mcConvertHex2Int a) OR sqlite3mcConvertHex2Int b) :: byte)"
proof -
  let ?a = "sqlite3mcConvertHex2Int a" and ?b = "sqlite3mcConvertHex2Int b"
  have "\<forall>x \<in> set [0..15]. \<forall>y \<in> set [0..15]. push_bit 4 x OR y = 16 * x + (y :: int)" by code_simp
  moreover have "?a \<in> set [0..15]" "?b \<in> set [0..15]" using digit_range assms by (simp_all del: upto_rec_numeral) (smt (verit))+
  ultimately have "push_bit 4 ?a OR ?b = 16 * ?a + ?b" by blast
  moreover have "push_bit 4 (push_bit 4 iByte + x) + y = 16 * x + y" for x y :: byte
  proof -
    have "push_bit 4 (push_bit 4 iByte + x) + y = 256 * iByte + (16 * x + y)" by (simp add: push_bit_eq_mult algebra_simps)
    also have "(256 :: byte) = 0" by simp
    finally show ?thesis by simp
  qed
  ultimately show ?thesis using assms by (simp add: hex_to_int_agree)
qed

lemma ConvertHex2Bin_Cons:
  "sqlite3mcConvertHex2Bin (a # b # zs)
     = of_int (push_bit 4 (sqlite3mcConvertHex2Int a) OR sqlite3mcConvertHex2Int b) # sqlite3mcConvertHex2Bin zs"
proof -
  have "[0..<(length (a # b # zs) + 1) div 2] = 0 # map Suc [0..<(length zs + 1) div 2]"
    by (simp add: upt_conv_Cons map_Suc_upt del: upt_Suc)
  then show ?thesis by (simp add: sqlite3mcConvertHex2Bin_def del: upt_Suc)
qed

text \<open>The loop over the key of a URI converts the digits in front, in pairs; everything else is ignored.\<close>

lemma hexkey_loop:
  "even i \<Longrightarrow> hexkey_loop zs i iByte zDecoded =
     (let n = length (takeWhile is_xdigit zs) in (zDecoded @ sqlite3mcConvertHex2Bin (take (2 * (n div 2)) zs), i + n))"
proof (induction zs arbitrary: i iByte zDecoded rule: induct_list012)
  case (3 a b zs)
  show ?case
  proof (cases "is_xdigit a \<and> is_xdigit b")
    case True
    then show ?thesis using 3(1) [of "Suc (Suc i)"] 3(3) two_digits [of a b iByte]
      by (simp add: Let_def ConvertHex2Bin_Cons)
  next
    case False
    then show ?thesis using 3(3) by (auto simp: Let_def sqlite3mcConvertHex2Bin_def)
  qed
qed (auto simp: Let_def sqlite3mcConvertHex2Bin_def)

lemma uri_hexkey_eq:
  assumes "sqlite3_malloc (cn_cfg c) = (True, s)"
  shows "uri_hexkey core nm zKey mainCodec c =
    (let n = length (takeWhile is_xdigit zKey) div 2
     in conn_key core nm (Some (sqlite3mcConvertHex2Bin (take (2 * n) zKey))) (int n) mainCodec (with_cfg s c))"
  by (simp add: uri_hexkey_def hexkey_loop assms Let_def)

text \<open>What the codes of the key functions say when there is no key.\<close>

lemma key_v2_empty:
  assumes "n_supported nm" "n_found nm" "n_index nm = 0" "n_file nm \<noteq> None" "x_malloc core"
  shows "\<exists>e'. sqlite3_key_v2 core nm (Some z) 0 mainCodec None e = Some (SQLITE_OK, None, e')"
  using assms
  by (auto simp: sqlite3_key_v2_def key_length_def sqlite3mcCodecAttach_def sqlite3mcCodecFree_def sqlite3mcCodecTerm_def new_codec_def free_opt_def
    set_codec_def Let_def)

text \<open>
  A database is opened with a URI whose \<^verbatim>\<open>hexkey\<close> does not begin with a hexadecimal digit: opening succeeds without a codec, so that the database
  is used without encryption. The PRAGMA with the same key is refused.
\<close>

lemma malformed_hexkey_ignored:
  assumes "n_supported nm" "n_found nm" "n_index nm = 0" "n_file nm = Some u" "x_malloc core" "cn_attached c = None"
    and "uri_parameter u ''hexkey'' = Some (ch # zs)" "\<not> is_xdigit (of_char ch)"
    and "sqlite3mcConfigureFromUri (Some u) True (cn_cfg c) = (SQLITE_OK, s)" "fst (sqlite3_malloc s)"
  shows "(\<exists>c'. sqlite3mcHandleMainKey core nm c = Some (SQLITE_OK, c') \<and> cn_attached c' = None)
    \<and> sqlite3mcFileControlPragma core nm schema SQLITE_NOTFOUND ''hexkey'' (Some (ch # zs)) mainCodec c
        = Some (SQLITE_ERROR, Some (ascii ''Malformed hex string''), c)"
proof
  obtain s' where s': "sqlite3_malloc s = (True, s')" using assms(10) by (metis prod.collapse)
  let ?c = "with_cfg s' (with_cfg s c)"
  obtain e' where key: "sqlite3_key_v2 core (named nm ?c) (Some []) 0 None None (cn_env ?c) = Some (SQLITE_OK, None, e')"
    using key_v2_empty [of "named nm ?c" core "[]" None "cn_env ?c"] assms(1-5) by (auto simp: named_def)
  have "uri_hexkey core nm (ascii (ch # zs)) None (with_cfg s c) = Some (SQLITE_OK, ?c\<lparr>cn_attached := None, cn_env := e'\<rparr>)"
    using assms(6,8) key s' by (simp add: uri_hexkey_def ascii_def conn_key_def sqlite3mcConvertHex2Bin_def)
  then show "\<exists>c'. sqlite3mcHandleMainKey core nm c = Some (SQLITE_OK, c') \<and> cn_attached c' = None"
    using assms(4,6,7,9) by (simp add: sqlite3mcHandleMainKey_def sqlite3mcCodecQueryParameters_def ascii_def)
  have names: "\<not> stricmp ''hexkey'' ''cipher''" "\<not> stricmp ''hexkey'' ''hmac_check''" "\<not> stricmp ''hexkey'' ''mc_legacy_wal''"
    "\<not> stricmp ''hexkey'' ''cipher_salt''" "\<not> stricmp ''hexkey'' ''key''" "stricmp ''hexkey'' ''hexkey''" by code_simp+
  have "\<not> sqlite3mcIsHexKey (ascii (ch # zs))" using assms(8) by (simp add: is_xdigit_hex sqlite3mcIsHexKey_def ascii_def)
  then show "sqlite3mcFileControlPragma core nm schema SQLITE_NOTFOUND ''hexkey'' (Some (ch # zs)) mainCodec c
      = Some (SQLITE_ERROR, Some (ascii ''Malformed hex string''), c)"
    using names assms(2) by (simp add: sqlite3mcFileControlPragma_def pragma_hex_def Let_def)
qed

text \<open>
  PRAGMA rekey or hexrekey as a query, without a value, removes the encryption: when it succeeds on an encrypted database, no codec is attached any more.
\<close>

lemma rekey_query_decrypts:
  assumes "codec_system le cs (cn_env c)" and "cn_attached c = Some codec" and "codec \<in> set cs" and "core_keeps core"
    and "m_isEncrypted codec" and "m_hasReadCipher codec" and "usable_name nm (cn_env c)" and "pragma \<in> {''rekey'', ''hexrekey''}"
    and "sqlite3mcFileControlPragma core nm schema SQLITE_NOTFOUND pragma None mainCodec c = Some (rc, msg, c')"
  shows "(rc = SQLITE_OK \<longrightarrow> cn_attached c' = None) \<and> (rc \<noteq> SQLITE_OK \<longrightarrow> key_kept (equal_ciphers le) codec (cn_attached c'))"
proof -
  have names: "\<not> stricmp pragma ''cipher''" "\<not> stricmp pragma ''hmac_check''" "\<not> stricmp pragma ''mc_legacy_wal''"
    "\<not> stricmp pragma ''cipher_salt''" "\<not> stricmp pragma ''key''" "\<not> stricmp pragma ''hexkey''"
    using assms(8) by (auto simp: stricmp_def ascii_lower_def)
  have rekeys: "stricmp pragma ''rekey'' \<or> stricmp pragma ''hexrekey''" using assms(8) by auto
  have inv: "builtin.env_ok le (cn_env c)" "builtin.codec_ok codec" using codec_system_invariant [OF assms(1)] assms(3) by simp_all
  have nm: "n_supported nm" "n_found nm" "n_file nm \<noteq> None" using assms(7) by (simp_all add: usable_name_def)
  have "\<exists>n. key_result (conn_rekey core nm None n c) = Some (rc, msg, c')"
    using assms(9) names rekeys nm(2)
    by (auto simp: sqlite3mcFileControlPragma_def Let_def pragma_hex_def sqlite3mcIsHexKey_def split: if_splits)
  then obtain n lost e' where run: "sqlite3_rekey_v2 core nm None n (Some codec) (cn_env c) = Some (rc, cn_attached c', lost, e')"
    using assms(2) by (auto simp: key_result_def conn_rekey_def bind_eq_Some_conv)
  have "key_kept (builtin.same_cipher le) codec att \<Longrightarrow> key_kept (equal_ciphers le) codec att" for att
    by (auto simp: key_kept_def dest: same_equal_ciphers)
  then show ?thesis using builtin.rekey_encrypted [OF assms(4) inv(2,1) assms(5,6) nm run] by auto
qed

section \<open>Examples\<close>

text \<open>A connection after the initialisation with its own tables.\<close>

definition open_cfg :: mc_config where
  "open_cfg = start_registry_cfg\<lparr>clientParams := Some (globalCodecParameterTable start_registry_cfg)\<rparr>"

definition open_env :: "any_cipher mc_env" where
  "open_env = (start_env True)\<lparr>e_reg := (e_reg (start_env True))\<lparr>reg_cfg := open_cfg\<rparr>\<rparr>"

definition open_conn :: "any_cipher conn" where
  "open_conn = \<lparr>cn_attached = None, cn_salt = None, cn_env = open_env\<rparr>"

lemma open_conn: "cn_cfg open_conn = open_cfg" "cn_attached open_conn = None" "cn_env open_conn = open_env"
  by (simp_all add: open_conn_def cn_cfg_def open_env_def)

definition open_facts :: "mc_config \<Rightarrow> bool" where
  "open_facts s \<longleftrightarrow> find_entry c_name ''RC4'' (drop 1 (globalCodecParameterTable s)) = Some 4
    \<and> c_id (globalCodecParameterTable s ! 5) = 5 \<and> globalCipherCount s = 6
    \<and> globalCodecParameterTable s \<noteq> [] \<and> c_params (globalCodecParameterTable s ! 0) \<noteq> None
    \<and> find_entry p_name ''cipher'' (the (c_params (globalCodecParameterTable s ! 0))) = Some 0
    \<and> in_range 5 (the (c_params (globalCodecParameterTable s ! 0)) ! 0) \<and> fst (sqlite3_malloc s)"

lemma open_facts: "open_facts open_cfg"
  by code_simp

lemma open_cfg:
  "find_entry c_name ''RC4'' (drop 1 (globalCodecParameterTable open_cfg)) = Some 4"
  "c_id (globalCodecParameterTable open_cfg ! 5) = 5" "globalCipherCount open_cfg = 6"
  "clientParams open_cfg = Some (globalCodecParameterTable open_cfg)" "globalCodecParameterTable open_cfg \<noteq> []"
  "c_params (globalCodecParameterTable open_cfg ! 0) \<noteq> None"
  "find_entry p_name ''cipher'' (the (c_params (globalCodecParameterTable open_cfg ! 0))) = Some 0"
  "in_range 5 (the (c_params (globalCodecParameterTable open_cfg ! 0)) ! 0)"
  "fst (sqlite3_malloc open_cfg)"
  using open_facts unfolding open_facts_def by (simp_all add: open_cfg_def)

lemma pragma_cipher_selects_witness:
  "\<exists>c' e e'. sqlite3mcFileControlPragma (example_core 0) main_name True SQLITE_NOTFOUND ''cipher'' (Some ''RC4'') None open_conn
      = Some (SQLITE_OK, Some (ascii ''rc4''), c') \<and> cipher_type (cn_env c') = (5, e) \<and> cipher_type e = (5, e')"
proof -
  obtain ps where ps: "c_params (globalCodecParameterTable open_cfg ! 0) = Some ps" using open_cfg(6) by blast
  have d: "descriptor open_env 5 = Some (any_descriptors True ! 4)" "d_name (any_descriptors True ! 4) = Some ''rc4''"
    by (simp_all add: descriptor_def open_env_def start_env_def start_registry lift_cipher_def descriptor_defs)
  show ?thesis
    using pragma_cipher_selects [of True main_name "''RC4''" open_conn 4 5 "globalCodecParameterTable open_cfg" ps 0 _ "''rc4''" "example_core 0" None]
      open_cfg ps d by (fastforce simp: open_conn main_name_def)
qed

text \<open>A database that is encrypted with ChaCha20 and a salt of zeros.\<close>

definition salted_codec :: "any_cipher Codec" where
  "salted_codec = new_codec\<lparr>m_isEncrypted := True, m_hasWriteCipher := True, m_writeCipherType := 3, m_writeCipher :=
     Some (Obj_ChaCha20 \<lparr>cc_legacy = 0, cc_legacyPageSize = 4096, cc_kdfIter = 64007, cc_plaintextHeaderSize = 0, cc_keyLength = 32,
       cc_key = replicate 32 1, cc_salt = replicate 16 0\<rparr>)\<rparr>"

lemma salted_codec:
  "\<exists>e'. sqlite3mc_codec_data True (Some salted_codec) (Some ''cipher_salt'') open_env = Some (Some (ascii (replicate 32 (CHR ''0''))), e')"
proof -
  have names: "strip ''raw:'' ''cipher_salt'' = (False, ''cipher_salt'')" "stricmp ''cipher_salt'' ''cipher_salt''" by code_simp+
  have hex: "salt_text (replicate 16 0) = ascii (replicate 32 (CHR ''0''))" by code_simp
  obtain s where s: "sqlite3_malloc open_cfg = (True, s)" using open_cfg(9) by (metis prod.collapse)
  have salt: "sqlite3mcGetSaltWriteCipher salted_codec open_env = Some (Some (replicate 16 0))"
    by (simp add: sqlite3mcGetSaltWriteCipher_def ask_write_def ask_cipher_def cipher_method_def descriptor_def salted_codec_def open_env_def
      start_env_def start_registry lift_cipher_def descriptor_defs GetSaltChaCha20Cipher_def)
  show ?thesis
    using names hex s salt
    by (simp add: sqlite3mc_codec_data_def salt_data_def) (simp add: salted_codec_def open_env_def)
qed

lemma cipher_salt_roundtrip_witness:
  "\<exists>salt c'. sqlite3mcGetSaltWriteCipher salted_codec open_env = Some (Some salt)
    \<and> sqlite3mcFileControlPragma (example_core 0) main_name False SQLITE_NOTFOUND ''cipher_salt'' (Some (replicate 32 (CHR ''0''))) None open_conn
        = Some (SQLITE_OK, Some (ascii ''ok''), c')
    \<and> set_key_salt (n_cipherSalt (named main_name c')) new_codec = new_codec\<lparr>m_hasKeySalt := True, m_keySalt := take 16 salt\<rparr>"
proof -
  obtain e' where "sqlite3mc_codec_data True (Some salted_codec) (Some ''cipher_salt'') open_env = Some (Some (ascii (replicate 32 (CHR ''0''))), e')"
    using salted_codec by blast
  from cipher_salt_roundtrip [OF this, of open_conn main_name "example_core 0" False None main_name] open_cfg(9)
  show ?thesis by (auto simp: open_conn main_name_def)
qed

text \<open>A URI with a key that is no hexadecimal number.\<close>

definition bad_name :: db_name where
  "bad_name = main_name\<lparr>n_file := Some \<lparr>uri_parameter = (\<lambda>p. if p = ''hexkey'' then Some ''secret'' else None),
     uri_boolean = (\<lambda>_ b. b), uri_int64 = (\<lambda>_ n. n), GetInt32 = (\<lambda>_. None)\<rparr>\<rparr>"

lemma bad_name: "fst (sqlite3mcConfigureFromUri (n_file bad_name) True open_cfg) = SQLITE_OK"
  "fst (sqlite3_malloc (snd (sqlite3mcConfigureFromUri (n_file bad_name) True open_cfg)))"
  by code_simp+

lemma malformed_hexkey_ignored_witness:
  "\<exists>c'. sqlite3mcHandleMainKey (example_core 0) bad_name open_conn = Some (SQLITE_OK, c') \<and> cn_attached c' = None"
proof -
  obtain u where u: "n_file bad_name = Some u" "uri_parameter u ''hexkey'' = Some ''secret''" by (simp add: bad_name_def)
  have letter: "\<not> is_xdigit (of_char (CHR ''s''))" by code_simp
  obtain s where s: "sqlite3mcConfigureFromUri (Some u) True (cn_cfg open_conn) = (SQLITE_OK, s)" "fst (sqlite3_malloc s)"
    using bad_name u(1) by (metis open_conn(1) prod.collapse)
  show ?thesis
    using malformed_hexkey_ignored [of bad_name u "example_core 0" open_conn "CHR ''s''" "''ecret''" s False None] u letter s
    by (simp add: open_conn bad_name_def main_name_def example_core_def)
qed

lemma example_core_calls:
  "x_beginTrans (example_core rc) = (\<lambda>codec e. (rc, codec, e))" "x_rewritePage (example_core rc) = (\<lambda>_ codec e. (rc, codec, e))"
  "x_commit (example_core rc) = (\<lambda>codec e. (rc, codec, e))" "x_pageCount (example_core rc) = 1"
  by (simp_all add: example_core_def)

lemma example_pages: "rekey_pages (example_core 0) bt codec e = (SQLITE_OK, codec, e)"
proof -
  have "rewrite_pages (example_core 0) nSkip ns 0 codec e = (0, codec, e)" for nSkip ns
    by (induction ns) (simp_all add: example_core_calls)
  then show ?thesis by (simp add: rekey_pages_def example_core_calls)
qed

lemma rekey_query_decrypts_witness:
  "\<exists>codec e msg c'. m_isEncrypted codec \<and> sqlite3mcFileControlPragma (example_core 0) main_name False SQLITE_NOTFOUND ''rekey'' None None
      \<lparr>cn_attached = Some codec, cn_salt = None, cn_env = e\<rparr> = Some (SQLITE_OK, msg, c') \<and> cn_attached c' = None"
proof -
  obtain cs e codec where db: "codec_system True cs e" "codec \<in> set cs" "m_isEncrypted codec" "builtin.matched True codec" "e_bts e = [page_tree 512]"
    "m_btShared codec = Some 0"
    by (rule rc4_example)
  have inv: "builtin.env_ok True e" "builtin.codec_ok codec" using codec_system_invariant [OF db(1)] db(2) by simp_all
  have nm: "n_supported main_name" "n_found main_name" "n_file main_name \<noteq> None" "n_bt main_name < length (e_bts e)"
    by (simp_all add: main_name_def db(5))
  have works: "rekey_decrypt (example_core 0) (n_bt main_name) (bt_pageSize (e_bts e ! n_bt main_name) - bt_usableSize (e_bts e ! n_bt main_name)) codec e
      = (SQLITE_OK, codec\<lparr>m_hasWriteCipher := False\<rparr>, e)" "m_btShared (codec\<lparr>m_hasWriteCipher := False\<rparr>) = Some 0" "0 < length (e_bts e)"
    by (simp_all add: main_name_def db(5,6) page_tree_def rekey_decrypt_def example_pages)
  have noKey: "None = None \<or> key_length None (-1) = 0" by simp
  obtain e' where run: "sqlite3_rekey_v2 (example_core 0) main_name None (-1) (Some codec) e = Some (SQLITE_OK, None, None, e')"
    using builtin.successful_decryption [OF example_core inv(2,1) db(3) nm noKey works] by blast
  let ?c = "\<lparr>cn_attached = Some codec, cn_salt = None, cn_env = e\<rparr>"
  have names: "\<not> stricmp ''rekey'' ''cipher''" "\<not> stricmp ''rekey'' ''hmac_check''" "\<not> stricmp ''rekey'' ''mc_legacy_wal''"
    "\<not> stricmp ''rekey'' ''cipher_salt''" "\<not> stricmp ''rekey'' ''key''" "\<not> stricmp ''rekey'' ''hexkey''" "stricmp ''rekey'' ''rekey''" by code_simp+
  have pragma: "sqlite3mcFileControlPragma (example_core 0) main_name False SQLITE_NOTFOUND ''rekey'' None None ?c
      = Some (SQLITE_OK, Some (ascii ''ok''), ?c\<lparr>cn_attached := None, cn_env := e'\<rparr>)"
    using names run by (simp add: sqlite3mcFileControlPragma_def key_result_def conn_rekey_def)
  have "m_hasReadCipher codec" "usable_name main_name (cn_env ?c)" using db(4,5) by (simp_all add: builtin.matched_def usable_main)
  from rekey_query_decrypts [where c = ?c, OF _ _ db(2) example_core db(3) this _ pragma] db(1) have "cn_attached (?c\<lparr>cn_attached := None, cn_env := e'\<rparr>) = None"
    by simp
  with db(3) pragma show ?thesis by blast
qed

end
