(* ===== verification/Spec2Isabelle.thy ===== *)
theory Spec2Isabelle
  imports ChaCha20_RNG Poly1305 PBKDF2 Codec_Algos Registry Cipher_ChaCha20 Cipher_RC4 Cipher_wxAES Cipher_SQLCipher Ascon Cipher_Ascon Codec Cipher_Table VFS VFS_Files VLE Codec_Ext Pragma
begin

text \<open>
  A verification development for SQLite3 Multiple Ciphers, the encryption extension of SQLite (\<^verbatim>\<open>src/src\<close> of the repository).

  \<^emph>\<open>The program.\<close> The library is SQLite with a layer between the pager and the operating system. A VFS shim (\<^verbatim>\<open>sqlite3mc_vfs.c\<close>) passes
  the pages of database, journal and write-ahead log files through the \<^emph>\<open>codec\<close> of the database (\<^verbatim>\<open>codecext.c\<close>, \<^verbatim>\<open>cipher_common.c\<close>). A codec has a
  read cipher and a write cipher; they differ only while the key is changed. Its cipher objects are used through a table of descriptors, which
  the initialisation fills (\<^verbatim>\<open>sqlite3mc.c\<close>). The ciphers (\<^verbatim>\<open>cipher_*.c\<close>) derive their keys with the hash functions, HMAC and PBKDF2
  (\<^verbatim>\<open>sha1.c\<close>, \<^verbatim>\<open>sha2.c\<close>, \<^verbatim>\<open>md5.c\<close>, \<^verbatim>\<open>fastpbkdf2.c\<close>) and encrypt pages with stream and block ciphers (\<^verbatim>\<open>chacha20poly1305.c\<close>, \<^verbatim>\<open>rijndael.c\<close>,
  \<^verbatim>\<open>codec_algos.c\<close>, \<^verbatim>\<open>ascon\<close>). Which cipher a new key uses, and with which parameters, is decided by tables of parameters, one global and one per connection, which
  the C interface, an SQL function, PRAGMA statements and URIs change (\<^verbatim>\<open>cipher_config.c\<close>). A separate extension encrypts single values (\<^verbatim>\<open>sqlite3mc_vle.c\<close>).

  \<^emph>\<open>The theories\<close>, from the bottom up:

  \<^item> \<open>MC_Prelude\<close>: bytes and words, \<^verbatim>\<open>memcpy\<close> on lists, load and store macros, result codes, and the collections \<open>bytes_len\<close> and \<open>word_arith\<close>
  that automate the proofs about buffers and word arithmetic.
  \<^item> \<open>ChaCha20\<close>, \<open>ChaCha20_RNG\<close>, \<open>Poly1305\<close> (\<^verbatim>\<open>chacha20poly1305.c\<close>): the stream cipher is the exclusive or with the key stream of RFC 8439, which is stated there from the text of the standard;
  the random number generator (the record \<open>rng\<close> holds its static variables) returns and delivers what is asked for; the limb arithmetic of the
  authenticator refines the polynomial modulo 2^130 - 5.
  \<^item> \<open>Hash_Common\<close>, \<open>SHA1\<close>, \<open>SHA2\<close>, \<open>MD5\<close>: the contexts stay in step with the message, for every way to cut it into updates, and the unrolled rounds
  are those of the standards. \<open>PBKDF2\<close>: the macros of \<^verbatim>\<open>fastpbkdf2.c\<close> once, in the locale \<open>hash_impl\<close>, which the three hash functions interpret.
  \<^item> \<open>AES_Tables\<close>, \<open>Rijndael\<close>, \<open>Rijndael_Modes\<close> (\<^verbatim>\<open>rijndael.c\<close>): the table-driven block cipher is AES, and decryption undoes encryption in all modes
  (locale \<open>block_cipher\<close>, interpreted by the cipher). \<open>Codec_Algos\<close> (\<^verbatim>\<open>codec_algos.c\<close>): RC4, the initial vectors, raw keys.
  \<open>Ascon\<close> (\<^verbatim>\<open>ascon/\<close>): the permutation, the authenticated encryption, the hash function and the key derivation.
  \<^item> \<open>Config\<close> and \<open>Registry\<close>: the parameter tables (record \<open>mc_config\<close>) with the functions that read and change them, and the tables of descriptors
  (record \<open>mc_registry\<close>) with the registration of ciphers; every reachable state is well formed.
  \<^item> \<open>Page_Cipher\<close>: the contract of page encryption, the locale \<open>page_cipher\<close>. \<open>Cipher_ChaCha20\<close>, \<open>Cipher_RC4\<close>, \<open>Cipher_wxAES\<close>, \<open>Cipher_SQLCipher\<close> and
  \<open>Cipher_Ascon\<close>: allocation, cloning, key generation and page encryption of each cipher, which interprets the contract;
  sequences of pages decrypt to what was encrypted, and a changed page is accepted on a collision of the tags only.
  \<^item> \<open>Codec\<close>: the record \<open>Codec\<close> with its operations over the state \<open>mc_env\<close> (descriptor tables, random numbers, B-trees, released objects). The locale \<open>cipher_table\<close>
  states what the codec relies on in a table of descriptors. \<open>Cipher_Table\<close>: the table of the built-in ciphers, whose objects are the
  datatype \<open>any_cipher\<close>, and its interpretation; no method is called on an object of another cipher,
  and the one call through NULL that the code does not exclude is stated.
  \<^item> \<open>VFS\<close>: reading and writing of files through the codec; an encrypted file refines a store of plain pages. \<open>VFS_Files\<close>: the open files, their linked list and the
  ownership of codecs, in an explicit store; the operations return in every reachable state.
  \<^item> \<open>Codec_Ext\<close>: \<^verbatim>\<open>sqlite3_key_v2\<close> and \<^verbatim>\<open>sqlite3_rekey_v2\<close>, and what holds after a success and after a failure.
  \<open>Pragma\<close>: the PRAGMA statements, the salt of a database as data, and the keys of URIs and of ATTACH.
  \<^item> \<open>VLE\<close>: the extension for single values with its option parser.

  \<^emph>\<open>Conventions.\<close> A function of the source has the same name here; a loop or a part of a function that is a definition of its own has a name in small
  letters, and the manifest gives the lines of each definition. State is passed explicitly. Result codes are integers. \<open>None\<close> as the result of an
  operation is undefined behaviour or a failed assertion in the code (\<open>abort()\<close> in the generator), so that results of the form \<open>f x = Some y\<close> include that the
  code does not run into it. Bytes and the machine integers whose wrap-around matters are words; other integers of the code are mathematical
  integers, with the wrap-around written out where the code can reach it. The byte order of the host is the parameter \<open>le\<close>.

  \<^emph>\<open>Parameters.\<close> Code that is not part of this library is an argument of the definitions: the entropy of the operating system (an oracle of the successive
  answers), failures of the allocator (a list of answers in \<open>mc_config\<close>), the functions on URI file names (the record \<open>uri\<close>), the methods of the
  underlying VFS (the record \<open>io_methods\<close>) and the calls of the pager, the B-tree and the VACUUM (the record \<open>core\<close>). What is relied on
  is a hypothesis of the theorems (\<open>core_keeps\<close>) or a law in the statement.

  \<^emph>\<open>Termination.\<close> There is no fuel. Most loops are recursions over lists or counted loops with a proof of termination. The loops that can
  run forever in principle, \<open>find_link\<close> and \<open>search_files\<close> over the linked list of files and the option parser \<open>vle_parseOptions\<close>, are partial
  functions, and the theorems \<open>vfs_operations_return\<close> and \<open>vle_options_terminate\<close> show that they return.

  \<^emph>\<open>What was found.\<close> The theorems \<open>io_error_masked\<close>, \<open>failed_decryption_writes_plaintext\<close>, \<open>global_entry_evades_checks\<close>, \<open>vle_tampered_value_disclosed\<close>,
  \<open>vle_ascon_ignores_scope\<close>, \<open>vle_empty_values_refused\<close> and \<open>vle_short_blob_undefined\<close> state behaviour of the code that it is not meant to have;
  the manifest lists the findings.

  \<^emph>\<open>Not modelled.\<close> The amalgamation of SQLite and its patches (\<^verbatim>\<open>sqlite3patched.c\<close>), except the small functions that the shim, the PRAGMA statements and the value encryption call: it is
  the environment of this library. The AEGIS cipher with \<^verbatim>\<open>libaegis\<close> and \<^verbatim>\<open>libargon2\<close>, vendored code with vector instructions chosen at run time; the build without
  it is modelled, only its parameters are in the tables. \<^verbatim>\<open>aes_hardware.c\<close>, compiler intrinsics. \<^verbatim>\<open>rekeyvacuum.c\<close>, a copy of
  the VACUUM of SQLite, consisting of calls of its core. \<^verbatim>\<open>memory_secure.c\<close>: addresses and the contents of released memory are not in the model, except that
  cipher objects are shown to be wiped when they are released. Mutexes: operations run one at a time. The third-party extensions, \<^verbatim>\<open>miniz\<close>, the shell and the Tcl
  interface do not take part in encryption.
\<close>

end
